(* ===== verification/Prelude.thy ===== *)
theory Prelude
  imports Complex_Main
begin

text \<open>
  Shared vocabulary of the development: the errors the services raise, the result type
  \<open>'a result\<close> that carries them, tables (lists of rows) with the few queries the
  repositories issue, sums of Decimal columns, and the lemma collections the component
  theories add to. Nothing here is specific to one component.
\<close>

section \<open>Lemma collections\<close>

named_theorems result_simps \<open>rules that run a computation of type \<open>'a result\<close>\<close>
named_theorems table_simps \<open>rules about table queries and updates\<close>
named_theorems frame_simps \<open>what an operation leaves unchanged\<close>
named_theorems dec_intros \<open>closure of the Decimal grids under the operations of the code\<close>

section \<open>Errors and results\<close>

text \<open>
  The exceptions that leave a service, with the fixed text of their message. The first
  four are the domain exceptions of \<^verbatim>\<open>app/core/exceptions.py\<close>; \<open>SchemaError\<close> is the error
  pydantic raises when a request or payload is constructed; \<open>IntegrityError\<close> is what a flush
  raises when a \<^verbatim>\<open>CHECK\<close> or \<^verbatim>\<open>UNIQUE\<close> constraint (named by the argument) is violated;
  \<open>MultipleResultsFound\<close> is raised by \<^verbatim>\<open>scalar_one_or_none\<close>; \<open>SorobanUnavailable\<close> by the
  chain client; \<open>ValueError\<close> is Python's.
\<close>

datatype error =
    ValidationError string
  | NotFoundError string
  | ConflictError string
  | BusinessRuleError string
  | SchemaError string
  | IntegrityError string
  | MultipleResultsFound
  | ValueError string
  | NegativeStockError
  | OverflowError string
  | InvalidOperation string
  | KeyError
  | IndexError
  | AssertionError
  | SorobanUnavailable string

type_synonym 'a result = "error + 'a"

definition bindr :: "'a result \<Rightarrow> ('a \<Rightarrow> 'b result) \<Rightarrow> 'b result" where
  "bindr m f = (case m of Inl e \<Rightarrow> Inl e | Inr x \<Rightarrow> f x)"

definition is_ok :: "'a result \<Rightarrow> bool" where
  "is_ok m = (case m of Inl _ \<Rightarrow> False | Inr _ \<Rightarrow> True)"

lemma bindr_Inl [simp, result_simps]: "bindr (Inl e) f = Inl e"
  by (simp add: bindr_def)

lemma bindr_Inr [simp, result_simps]: "bindr (Inr x) f = f x"
  by (simp add: bindr_def)

lemma bindr_eq_Inr_iff: "bindr m f = Inr y \<longleftrightarrow> (\<exists>x. m = Inr x \<and> f x = Inr y)"
  by (cases m) auto

lemma bindr_eq_Inl_iff: "bindr m f = Inl e \<longleftrightarrow> m = Inl e \<or> (\<exists>x. m = Inr x \<and> f x = Inl e)"
  by (cases m) auto

lemma bindr_InrE [elim!]:
  assumes "bindr m f = Inr y"
  obtains x where "m = Inr x" and "f x = Inr y"
  using assms by (auto simp: bindr_eq_Inr_iff)

lemma bindr_cong [fundef_cong]:
  "m = m' \<Longrightarrow> (\<And>x. m' = Inr x \<Longrightarrow> f x = g x) \<Longrightarrow> bindr m f = bindr m' g"
  by (cases m') auto

lemma is_ok_simps [simp]: "is_ok (Inr x)" "\<not> is_ok (Inl e)"
  by (simp_all add: is_ok_def)

lemma is_ok_iff: "is_ok m \<longleftrightarrow> (\<exists>x. m = Inr x)"
  by (cases m) auto

text \<open>A guard: the \<^verbatim>\<open>if cond: raise e\<close> statements of the services.\<close>

definition raise_if :: "bool \<Rightarrow> error \<Rightarrow> unit result" where
  "raise_if c e = (if c then Inl e else Inr ())"

lemma raise_if_simps [simp, result_simps]:
  "raise_if True e = Inl e" "raise_if False e = Inr ()"
  by (simp_all add: raise_if_def)

lemma raise_if_eq_Inr [simp]: "raise_if c e = Inr u \<longleftrightarrow> \<not> c"
  by (simp add: raise_if_def)

lemma raise_if_eq_Inl [simp]: "raise_if c e = Inl e' \<longleftrightarrow> c \<and> e' = e"
  by (auto simp: raise_if_def)

text \<open>Running a fallible step over a list, stopping at the first error.\<close>

fun each :: "('a \<Rightarrow> unit result) \<Rightarrow> 'a list \<Rightarrow> unit result" where
  "each f [] = Inr ()"
| "each f (x # xs) = bindr (f x) (\<lambda>_. each f xs)"

lemma each_eq_Inr_iff: "each f xs = Inr u \<longleftrightarrow> (\<forall>x \<in> set xs. f x = Inr ())"
  by (induction xs) (auto simp: bindr_eq_Inr_iff)

lemma each_ok_iff: "is_ok (each f xs) \<longleftrightarrow> (\<forall>x \<in> set xs. is_ok (f x))"
  by (auto simp: is_ok_iff each_eq_Inr_iff)

lemma each_first_error:
  assumes "f x = Inl e" and "\<forall>y \<in> set xs. f y = Inr ()"
  shows "each f (xs @ x # ys) = Inl e"
  using assms by (induction xs) auto

section \<open>Tables\<close>

text \<open>
  A table is a list of rows in insertion order. \<open>scalar_one_or_none\<close> is SQLAlchemy's
  \<^verbatim>\<open>Result.scalar_one_or_none()\<close>: it raises when the query returns more than one row.
  \<open>first_or_none\<close> is a query with \<^verbatim>\<open>LIMIT 1\<close>.
\<close>

fun scalar_one_or_none :: "'a list \<Rightarrow> 'a option result" where
  "scalar_one_or_none [] = Inr None"
| "scalar_one_or_none [x] = Inr (Some x)"
| "scalar_one_or_none (x # y # zs) = Inl MultipleResultsFound"

fun first_or_none :: "'a list \<Rightarrow> 'a option" where
  "first_or_none [] = None"
| "first_or_none (x # xs) = Some x"

definition update_where :: "('a \<Rightarrow> bool) \<Rightarrow> ('a \<Rightarrow> 'a) \<Rightarrow> 'a list \<Rightarrow> 'a list" where
  "update_where p f xs = map (\<lambda>x. if p x then f x else x) xs"

lemma update_where_Nil [simp, table_simps]: "update_where p f [] = []"
  by (simp add: update_where_def)

lemma update_where_Cons [simp, table_simps]:
  "update_where p f (x # xs) = (if p x then f x else x) # update_where p f xs"
  by (simp add: update_where_def)

lemma update_where_append [simp, table_simps]:
  "update_where p f (xs @ ys) = update_where p f xs @ update_where p f ys"
  by (simp add: update_where_def)

lemma length_update_where [simp]: "length (update_where p f xs) = length xs"
  by (simp add: update_where_def)

lemma update_where_none: "\<forall>x \<in> set xs. \<not> p x \<Longrightarrow> update_where p f xs = xs"
  by (induction xs) auto

lemma map_update_where:
  "(\<And>x. x \<in> set xs \<Longrightarrow> p x \<Longrightarrow> g (f x) = g x) \<Longrightarrow> map g (update_where p f xs) = map g xs"
  by (induction xs) auto

lemma filter_update_where:
  "(\<And>x. x \<in> set xs \<Longrightarrow> p x \<Longrightarrow> \<not> q x \<and> \<not> q (f x)) \<Longrightarrow>
   filter q (update_where p f xs) = filter q xs"
  by (induction xs) auto

lemma set_update_where:
  "set (update_where p f xs) = {x \<in> set xs. \<not> p x} \<union> f ` {x \<in> set xs. p x}"
  by (induction xs) auto

lemma in_set_update_whereE:
  assumes "y \<in> set (update_where p f xs)"
  obtains "y \<in> set xs" "\<not> p y" | x where "x \<in> set xs" "p x" "y = f x"
  using assms by (auto simp: set_update_where)

lemma scalar_one_or_none_Some:
  "scalar_one_or_none (filter p xs) = Inr (Some x) \<Longrightarrow> x \<in> set xs \<and> p x"
  by (cases "filter p xs" rule: scalar_one_or_none.cases)
     (auto dest: filter_eq_ConsD simp: filter_eq_Cons_iff)

lemma scalar_one_or_none_None:
  "scalar_one_or_none xs = Inr None \<longleftrightarrow> xs = []"
  by (cases xs rule: scalar_one_or_none.cases) auto

lemma scalar_one_or_none_ok: "is_ok (scalar_one_or_none xs) \<longleftrightarrow> length xs \<le> 1"
  by (cases xs rule: scalar_one_or_none.cases) auto

lemma first_or_none_Some:
  "first_or_none (filter p xs) = Some x \<Longrightarrow> x \<in> set xs \<and> p x"
  by (cases "filter p xs") (auto simp: filter_eq_Cons_iff)

lemma first_or_none_None: "first_or_none xs = None \<longleftrightarrow> xs = []"
  by (cases xs) auto

text \<open>A key that is unique in a table selects at most one row.\<close>

lemma filter_key_unique:
  assumes "distinct (map key xs)" and "x \<in> set xs"
  shows "filter (\<lambda>y. key y = key x) xs = [x]"
  using assms
proof (induction xs)
  case Nil
  then show ?case by simp
next
  case (Cons z zs)
  show ?case
  proof (cases "x = z")
    case True
    with Cons.prems have "filter (\<lambda>y. key y = key x) zs = []"
      by (force simp: filter_empty_conv image_iff)
    with True show ?thesis by simp
  next
    case False
    with Cons.prems have "x \<in> set zs" and "key z \<noteq> key x" by auto
    with Cons show ?thesis by simp
  qed
qed

lemma length_filter_key_le:
  "distinct (map key xs) \<Longrightarrow> length (filter (\<lambda>y. key y = k) xs) \<le> 1"
proof (induction xs)
  case Nil
  then show ?case by simp
next
  case (Cons z zs)
  show ?case
  proof (cases "key z = k")
    case True
    with Cons.prems have "filter (\<lambda>y. key y = k) zs = []"
      by (force simp: filter_empty_conv image_iff)
    with True show ?thesis by simp
  next
    case False
    with Cons show ?thesis by simp
  qed
qed

section \<open>Sums of a column\<close>

lemma sum_list_map_append: "sum_list (map f (xs @ ys)) = sum_list (map f xs) + sum_list (map f ys)"
  for f :: "'a \<Rightarrow> 'b::monoid_add"
  by simp

lemma sum_list_map_diff:
  "sum_list (map (\<lambda>x. f x - g x) xs) = sum_list (map f xs) - sum_list (map g xs)"
  for f g :: "'a \<Rightarrow> 'b::ab_group_add"
  by (induction xs) auto

lemma sum_list_map_uminus: "sum_list (map (\<lambda>x. - f x) xs) = - sum_list (map f xs)"
  for f :: "'a \<Rightarrow> 'b::ab_group_add"
  by (induction xs) auto

lemma sum_list_map_concat:
  "sum_list (map f (concat xss)) = sum_list (map (\<lambda>xs. sum_list (map f xs)) xss)"
  for f :: "'a \<Rightarrow> 'b::monoid_add"
  by (induction xss) auto

lemma sum_list_map_nonneg:
  "(\<And>x. x \<in> set xs \<Longrightarrow> 0 \<le> f x) \<Longrightarrow> 0 \<le> sum_list (map f xs)"
  for f :: "'a \<Rightarrow> 'b::ordered_comm_monoid_add"
  by (induction xs) (auto intro: add_nonneg_nonneg)

lemma sum_list_map_mono:
  "(\<And>x. x \<in> set xs \<Longrightarrow> f x \<le> g x) \<Longrightarrow> sum_list (map f xs) \<le> sum_list (map g xs)"
  for f :: "'a \<Rightarrow> 'b::ordered_comm_monoid_add"
  by (induction xs) (auto intro: add_mono)

lemma sum_list_map_filter_split:
  "sum_list (map f xs) = sum_list (map f (filter p xs)) + sum_list (map f (filter (\<lambda>x. \<not> p x) xs))"
  for f :: "'a \<Rightarrow> 'b::comm_monoid_add"
  by (induction xs) (auto simp: ac_simps)

lemma sum_list_sort_key: "sum_list (map g (sort_key f xs)) = sum_list (map g xs)"
  for g :: "'a \<Rightarrow> 'b::comm_monoid_add"
proof -
  have "sum_list (map g (insort_key f x xs)) = g x + sum_list (map g xs)" for x xs
    by (induction xs) (simp_all add: ac_simps)
  then show ?thesis by (induction xs) simp_all
qed

text \<open>Grouping rows by a key and summing the groups loses nothing, if the keys are all listed.\<close>

lemma sum_list_group:
  fixes f :: "'a \<Rightarrow> 'b::comm_monoid_add"
  assumes "distinct ks" and "\<And>x. x \<in> set xs \<Longrightarrow> key x \<in> set ks"
  shows "sum_list (map (\<lambda>k. sum_list (map f (filter (\<lambda>x. key x = k) xs))) ks) = sum_list (map f xs)"
  using assms(2)
proof (induction xs)
  case Nil
  then show ?case by (induction ks) auto
next
  case (Cons x xs)
  let ?g = "\<lambda>k. sum_list (map f (filter (\<lambda>x. key x = k) xs))"
  have mem: "key x \<in> set ks" using Cons.prems by simp
  have "sum_list (map (\<lambda>k. (if key x = k then f x else 0) + ?g k) ks)
      = sum_list (map (\<lambda>k. if key x = k then f x else 0) ks) + sum_list (map ?g ks)"
    by (rule sum_list_addf)
  moreover have "sum_list (map (\<lambda>k. if key x = k then f x else 0) ks) = f x"
    using assms(1) mem
  proof (induction ks)
    case Nil
    then show ?case by simp
  next
    case (Cons k ks)
    have "key x \<notin> set ks \<Longrightarrow> sum_list (map (\<lambda>k. if key x = k then f x else 0) ks) = 0"
      by (induction ks) auto
    with Cons show ?case by auto
  qed
  moreover have "(\<lambda>k. sum_list (map f (filter (\<lambda>x. key x = k) (x # xs))))
      = (\<lambda>k. (if key x = k then f x else 0) + ?g k)"
    by (rule ext) simp
  ultimately show ?case using Cons by simp
qed

end
