(* ===== verification/Decimals.thy ===== *)
theory Decimals
  imports Prelude
begin

text \<open>
  Python's \<^verbatim>\<open>decimal.Decimal\<close> as the code uses it. A Decimal is modelled by its value, a
  \<open>rat\<close>. \<open>quantize_half_up k\<close> is \<^verbatim>\<open>quantize(Decimal("1e-k"), rounding=ROUND_HALF_UP)\<close> (ties away
  from zero). Products and quotients are rounded to the 28 significant digits of the default
  context with \<^verbatim>\<open>ROUND_HALF_EVEN\<close> (\<open>dmul\<close>, \<open>ddiv\<close>); sums and differences of amounts at the storage
  precisions of the code have fewer digits than that and are exact. Where a sum can have more
  (the shares of the cash flow statement), \<open>dadd\<close> rounds it. \<^verbatim>\<open>quantize\<close> raises \<^verbatim>\<open>InvalidOperation\<close> when
  its result needs more than 28 digits: \<open>quantize_raising\<close>. The roundings of amounts leave that branch out:
  by \<open>quantize_raising_range\<close> it is not taken below \<open>10 ^ (27 - k)\<close>, far beyond what
  the columns they are stored in can hold, and writing an amount beyond the columns is an error as well.
\<close>

type_synonym decimal = rat

section \<open>Rounding to an integer\<close>

definition half_up_int :: "rat \<Rightarrow> int" where
  "half_up_int x = (if 0 \<le> x then \<lfloor>x + 1/2\<rfloor> else - \<lfloor>- x + 1/2\<rfloor>)"

definition half_even_int :: "rat \<Rightarrow> int" where
  "half_even_int x =
     (let f = \<lfloor>x\<rfloor>; r = x - of_int f
      in if r < 1/2 then f else if 1/2 < r then f + 1 else if even f then f else f + 1)"

lemma half_up_int_of_int [simp]: "half_up_int (of_int n) = n"
proof -
  have "\<lfloor>of_int m + 1/2 :: rat\<rfloor> = m" for m :: int
    by (rule floor_unique) auto
  from this [of n] this [of "- n"] show ?thesis
    by (simp add: half_up_int_def)
qed

lemma half_even_int_of_int [simp]: "half_even_int (of_int n) = n"
  by (simp add: half_even_int_def Let_def)

lemma half_up_int_uminus: "half_up_int (- x) = - half_up_int x"
proof (cases "x = 0")
  case True
  then show ?thesis using half_up_int_of_int [of 0] by simp
next
  case False
  then show ?thesis by (auto simp: half_up_int_def)
qed

lemma half_up_int_nonneg: "0 \<le> x \<Longrightarrow> 0 \<le> half_up_int x"
  by (simp add: half_up_int_def zero_le_floor)

lemma half_up_int_error: "\<bar>of_int (half_up_int x) - x\<bar> \<le> 1/2"
proof -
  have *: "\<bar>of_int \<lfloor>y + 1/2\<rfloor> - y\<bar> \<le> 1/2" for y :: rat
    using floor_correct [of "y + 1/2"] unfolding abs_le_iff by linarith
  show ?thesis
  proof (cases "0 \<le> x")
    case True
    then show ?thesis using * [of x] by (simp add: half_up_int_def)
  next
    case False
    have "\<bar>of_int (half_up_int x) - x\<bar> = \<bar>of_int \<lfloor>- x + 1/2\<rfloor> - (- x)\<bar>"
      using False by (simp add: half_up_int_def)
    then show ?thesis using * [of "- x"] by simp
  qed
qed

lemma half_even_int_error: "\<bar>of_int (half_even_int x) - x\<bar> \<le> 1/2"
proof -
  have "of_int \<lfloor>x\<rfloor> \<le> x" and "x < of_int \<lfloor>x\<rfloor> + 1"
    using floor_correct [of x] by simp_all
  then show ?thesis
    by (auto simp: half_even_int_def Let_def abs_le_iff)
qed

lemma half_even_int_nonneg: "0 \<le> x \<Longrightarrow> 0 \<le> half_even_int x"
proof -
  assume "0 \<le> x"
  then have "0 \<le> \<lfloor>x\<rfloor>" by simp
  then show ?thesis by (auto simp: half_even_int_def Let_def)
qed

lemma half_up_int_mono: "x \<le> y \<Longrightarrow> half_up_int x \<le> half_up_int y"
proof -
  assume le: "x \<le> y"
  consider "0 \<le> x" | "x < 0" "0 \<le> y" | "y < 0" by linarith
  then show ?thesis
  proof cases
    case 1
    with le show ?thesis by (simp add: half_up_int_def floor_mono)
  next
    case 2
    have "0 \<le> half_up_int (- x)" and "0 \<le> half_up_int y"
      using 2 by (simp_all add: half_up_int_nonneg)
    then show ?thesis by (simp add: half_up_int_uminus)
  next
    case 3
    with le show ?thesis by (simp add: half_up_int_def floor_mono)
  qed
qed

section \<open>Quantising\<close>

definition quantize_half_up :: "nat \<Rightarrow> decimal \<Rightarrow> decimal" where
  "quantize_half_up k x = of_int (half_up_int (x * 10 ^ k)) / 10 ^ k"

text \<open>A value with at most \<open>k\<close> decimal places, i.e. a value a \<^verbatim>\<open>NUMERIC(_, k)\<close> column can hold.\<close>

definition on_grid :: "nat \<Rightarrow> decimal \<Rightarrow> bool" where
  "on_grid k x \<longleftrightarrow> of_int \<lfloor>x * 10 ^ k\<rfloor> = x * 10 ^ k"

lemma on_grid_iff: "on_grid k x \<longleftrightarrow> (\<exists>n. x = of_int n / 10 ^ k)"
proof
  assume "on_grid k x"
  then have "of_int \<lfloor>x * 10 ^ k\<rfloor> / 10 ^ k = x"
    unfolding on_grid_def by (metis nonzero_eq_divide_eq power_not_zero zero_neq_numeral)
  then have "x = of_int \<lfloor>x * 10 ^ k\<rfloor> / 10 ^ k" ..
  then show "\<exists>n. x = of_int n / 10 ^ k" ..
next
  assume "\<exists>n. x = of_int n / 10 ^ k"
  then obtain n where "x = of_int n / 10 ^ k" ..
  then have "x * 10 ^ k = of_int n" by simp
  then show "on_grid k x" by (simp add: on_grid_def)
qed

lemma on_gridE:
  assumes "on_grid k x"
  obtains n where "x = of_int n / 10 ^ k"
  using assms by (auto simp: on_grid_iff)

lemma on_gridI [dec_intros]: "on_grid k (of_int n / 10 ^ k)"
  by (auto simp: on_grid_iff)

lemma on_grid_0 [simp, dec_intros]: "on_grid k 0"
  by (simp add: on_grid_def)

lemma on_grid_add [simp, dec_intros]: "on_grid k x \<Longrightarrow> on_grid k y \<Longrightarrow> on_grid k (x + y)"
  by (auto elim!: on_gridE simp: on_grid_iff simp flip: add_divide_distrib of_int_add)

lemma on_grid_uminus [simp, dec_intros]: "on_grid k x \<Longrightarrow> on_grid k (- x)"
proof -
  assume "on_grid k x"
  then obtain n where "x = of_int n / 10 ^ k" by (rule on_gridE)
  then have "- x = of_int (- n) / 10 ^ k" by simp
  then show ?thesis unfolding on_grid_iff by blast
qed

lemma on_grid_diff [simp, dec_intros]: "on_grid k x \<Longrightarrow> on_grid k y \<Longrightarrow> on_grid k (x - y)"
  using on_grid_add [of k x "- y"] by simp

lemma on_grid_sum_list [dec_intros]:
  "(\<And>x. x \<in> set xs \<Longrightarrow> on_grid k (f x)) \<Longrightarrow> on_grid k (sum_list (map f xs))"
  by (induction xs) auto

lemma on_grid_mono: "on_grid j x \<Longrightarrow> j \<le> k \<Longrightarrow> on_grid k x"
proof -
  assume "on_grid j x" and le: "j \<le> k"
  then obtain n where n: "x = of_int n / 10 ^ j" by (auto simp: on_grid_iff)
  have "(10::rat) ^ k = 10 ^ j * 10 ^ (k - j)"
    using le by (simp flip: power_add)
  then have "x = of_int (n * 10 ^ (k - j)) / 10 ^ k"
    using n by simp
  then show ?thesis unfolding on_grid_iff by blast
qed

lemma on_grid_mult:
  assumes "on_grid j x" and "on_grid k y"
  shows "on_grid (j + k) (x * y)"
proof -
  from assms obtain m n where "x = of_int m / 10 ^ j" and "y = of_int n / 10 ^ k"
    by (auto simp: on_grid_iff)
  then have "x * y = of_int (m * n) / 10 ^ (j + k)" by (simp add: power_add)
  then show ?thesis unfolding on_grid_iff by blast
qed

lemma quantize_on_grid [simp, dec_intros]: "on_grid k (quantize_half_up k x)"
  by (simp add: quantize_half_up_def on_gridI)

lemma quantize_id: "on_grid k x \<Longrightarrow> quantize_half_up k x = x"
proof -
  assume "on_grid k x"
  then obtain n where n: "x = of_int n / 10 ^ k" by (auto simp: on_grid_iff)
  then have "x * 10 ^ k = of_int n" by simp
  then show ?thesis using n by (simp add: quantize_half_up_def)
qed

lemma quantize_coarser_id: "on_grid j x \<Longrightarrow> j \<le> k \<Longrightarrow> quantize_half_up k x = x"
  by (simp add: quantize_id on_grid_mono)

lemma quantize_0 [simp]: "quantize_half_up k 0 = 0"
  by (simp add: quantize_id)

lemma quantize_uminus: "quantize_half_up k (- x) = - quantize_half_up k x"
  by (simp add: quantize_half_up_def half_up_int_uminus)

lemma quantize_nonneg: "0 \<le> x \<Longrightarrow> 0 \<le> quantize_half_up k x"
  by (simp add: quantize_half_up_def half_up_int_nonneg)

lemma quantize_mono: "x \<le> y \<Longrightarrow> quantize_half_up k x \<le> quantize_half_up k y"
  by (simp add: quantize_half_up_def divide_right_mono half_up_int_mono)

lemma quantize_error: "\<bar>quantize_half_up k x - x\<bar> \<le> 1 / (2 * 10 ^ k)"
proof -
  have "quantize_half_up k x - x = (of_int (half_up_int (x * 10 ^ k)) - x * 10 ^ k) / 10 ^ k"
    by (simp add: quantize_half_up_def field_simps)
  then have "\<bar>quantize_half_up k x - x\<bar> = \<bar>of_int (half_up_int (x * 10 ^ k)) - x * 10 ^ k\<bar> / 10 ^ k"
    by simp
  also have "\<dots> \<le> (1/2) / 10 ^ k"
    by (intro divide_right_mono half_up_int_error) simp
  finally show ?thesis by simp
qed

lemma quantize_le: "x \<le> y \<Longrightarrow> on_grid k y \<Longrightarrow> quantize_half_up k x \<le> y"
  using quantize_mono [of x y k] by (simp add: quantize_id)

lemma quantize_ge: "y \<le> x \<Longrightarrow> on_grid k y \<Longrightarrow> y \<le> quantize_half_up k x"
  using quantize_mono [of y x k] by (simp add: quantize_id)

text \<open>A value less than half a unit above a grid point does not round past it.\<close>

lemma quantize_le_near:
  assumes "on_grid k y" and "0 \<le> x" and "x < y + 1 / (2 * 10 ^ k)"
  shows "quantize_half_up k x \<le> y"
proof -
  from assms(1) obtain n where n: "y = of_int n / 10 ^ k" by (auto simp: on_grid_iff)
  have "x * 10 ^ k < (y + 1 / (2 * 10 ^ k)) * 10 ^ k"
    using assms(3) by (simp add: mult_strict_right_mono)
  then have "x * 10 ^ k + 1/2 < of_int n + 1"
    using n by (simp add: distrib_right)
  then have "\<lfloor>x * 10 ^ k + 1/2\<rfloor> \<le> n" by (simp add: floor_le_iff)
  with assms(2) have "half_up_int (x * 10 ^ k) \<le> n" by (simp add: half_up_int_def)
  then show ?thesis by (simp add: quantize_half_up_def n divide_right_mono)
qed

text \<open>\<^verbatim>\<open>quantize\<close> with the check of the context: the digits of the result, counted from the last place kept.\<close>

definition quantize_raising :: "nat \<Rightarrow> decimal \<Rightarrow> decimal result" where
  "quantize_raising k x =
     (let y = quantize_half_up k x
      in if \<bar>y\<bar> * 10 ^ k < 10 ^ 28 then Inr y
         else Inl (InvalidOperation ''quantize result has too many digits for current context''))"

lemma quantize_raising_range:
  assumes "k \<le> 27" "\<bar>x\<bar> < 10 ^ (27 - k)"
  shows "quantize_raising k x = Inr (quantize_half_up k x)"
proof -
  have "\<bar>quantize_half_up k x\<bar> * 10 ^ k \<le> (\<bar>x\<bar> + 1 / (2 * 10 ^ k)) * 10 ^ k"
    using quantize_error [of k x] by (intro mult_right_mono) auto
  also have "\<dots> = \<bar>x\<bar> * 10 ^ k + 1 / 2" by (simp add: distrib_right)
  also have "\<dots> < 10 ^ (27 - k) * 10 ^ k + 1 / 2" using assms(2) by simp
  also have "\<dots> = 10 ^ 27 + 1 / 2" using assms(1) by (simp flip: power_add)
  also have "\<dots> < 10 ^ 28" by simp
  finally show ?thesis by (simp add: quantize_raising_def Let_def)
qed

section \<open>Rounding to significant digits\<close>

text \<open>
  Both arithmetics the code uses round a result to a fixed number of significant digits, ties to even:
  \<^verbatim>\<open>Decimal\<close> to 28 in base ten, \<^verbatim>\<open>float\<close> to 53 in base two. \<open>int_len b n\<close> is the number of digits of a
  positive integer (0 for anything else).
\<close>

function int_len :: "int \<Rightarrow> int \<Rightarrow> nat" where
  "int_len b n = (if n \<le> 0 \<or> b \<le> 1 then 0 else Suc (int_len b (n div b)))"
  by pat_completeness auto
termination
proof (relation "measure (\<lambda>(b, n). nat n)")
  fix b n :: int
  assume "\<not> (n \<le> 0 \<or> b \<le> 1)"
  then have "n div b < n" "0 < n" by (auto intro: int_div_less_self)
  then show "((b, n div b), (b, n)) \<in> measure (\<lambda>(b, n). nat n)" by simp
qed simp

declare int_len.simps [simp del]

lemma int_len_bounds:
  "1 < b \<Longrightarrow> 0 < n \<Longrightarrow> b ^ (int_len b n - 1) \<le> n \<and> n < b ^ int_len b n \<and> 0 < int_len b n"
proof (induction b n rule: int_len.induct)
  case (1 b n)
  show ?case
  proof (cases "n < b")
    case True
    with "1.prems" have "int_len b n = 1"
      by (simp add: int_len.simps [of b n] int_len.simps [of b 0] div_pos_pos_trivial)
    with "1.prems" True show ?thesis by simp
  next
    case False
    with "1.prems" have pos: "0 < n div b" by (simp add: pos_imp_zdiv_pos_iff)
    define k where "k = int_len b (n div b)"
    from "1.IH" "1.prems" pos have IH: "b ^ (k - 1) \<le> n div b" "n div b < b ^ k" "0 < k"
      by (auto simp: k_def)
    have len: "int_len b n = Suc k" using "1.prems" by (simp add: int_len.simps [of b n] k_def)
    have low: "b ^ k = b * b ^ (k - 1)" using IH(3) by (cases k) auto
    have n: "n = b * (n div b) + n mod b" by simp
    have m: "0 \<le> n mod b" "n mod b < b" using "1.prems" by simp_all
    have "b * b ^ (k - 1) \<le> b * (n div b)" using IH(1) "1.prems"(1) by simp
    then have "b ^ k \<le> n" using n m low by linarith
    moreover have "b * (n div b + 1) \<le> b * b ^ k" using IH(2) "1.prems"(1) by simp
    then have "b * (n div b) + b \<le> b * b ^ k" by (simp add: algebra_simps)
    then have "n < b * b ^ k" using n m by linarith
    ultimately show ?thesis by (simp add: len)
  qed
qed

text \<open>
  The number of digits before the point: \<open>b ^ (digits - 1) \<le> \<bar>x\<bar> < b ^ digits\<close> (negative for a value
  below \<open>1 / b\<close>), from the lengths of numerator and denominator.
\<close>

definition int_digits :: "int \<Rightarrow> rat \<Rightarrow> int" where
  "int_digits b x =
     (let (n, d) = quotient_of \<bar>x\<bar>;
          e = int (int_len b n) - int (int_len b d)
      in if of_int b powi e \<le> \<bar>x\<bar> then e + 1 else e)"

definition sig_round :: "int \<Rightarrow> int \<Rightarrow> rat \<Rightarrow> rat" where
  "sig_round b prec x =
     (if x = 0 then 0
      else let s = prec - int_digits b x
           in of_int (half_even_int (x * of_int b powi s)) / of_int b powi s)"

lemma int_len_powi_bounds:
  assumes "1 < b" "0 < n"
  shows "(of_int b :: rat) powi (int (int_len b n) - 1) \<le> of_int n"
    and "of_int n < (of_int b :: rat) powi (int (int_len b n))"
proof -
  note bd = int_len_bounds [OF assms]
  have "(of_int b :: rat) powi (int (int_len b n) - 1) = of_int (b ^ (int_len b n - 1))"
    using bd by (simp add: power_int_def nat_diff_distrib)
  also have "\<dots> \<le> of_int n" using bd by (simp only: of_int_le_iff)
  finally show "(of_int b :: rat) powi (int (int_len b n) - 1) \<le> of_int n" .
  have "(of_int n :: rat) < of_int (b ^ int_len b n)" using bd by (simp only: of_int_less_iff)
  then show "of_int n < (of_int b :: rat) powi (int (int_len b n))" by simp
qed

lemma powi_quotient_bounds:
  fixes n d c :: rat
  assumes "0 < c" "0 < d" and "c powi (i - 1) \<le> n" "n < c powi i" and "c powi (j - 1) \<le> d" "d < c powi j"
  shows "c powi (i - j - 1) \<le> n / d" and "n / d < c powi (i - j + 1)"
proof -
  have add: "c powi (u + v) = c powi u * c powi v" for u v :: int
    using assms(1) by (simp add: power_int_add)
  have pos: "0 \<le> c powi u" for u :: int using assms(1) by simp
  have "c powi (i - j - 1) * d \<le> c powi (i - j - 1) * c powi j"
    using assms(6) pos by (intro mult_left_mono) auto
  also have "\<dots> = c powi (i - 1)" by (simp flip: add)
  also have "\<dots> \<le> n" by (rule assms(3))
  finally show "c powi (i - j - 1) \<le> n / d" using assms(2) by (simp add: pos_le_divide_eq)
  have "n < c powi (i - j + 1) * c powi (j - 1)"
    using assms(4) by (simp flip: add)
  also have "\<dots> \<le> c powi (i - j + 1) * d"
    using assms(5) pos by (intro mult_left_mono) auto
  finally show "n / d < c powi (i - j + 1)" using assms(2) by (simp add: pos_divide_less_eq)
qed

lemma int_digits_bounds:
  assumes "1 < b" "x \<noteq> 0"
  shows "of_int b powi (int_digits b x - 1) \<le> \<bar>x\<bar>" and "\<bar>x\<bar> < of_int b powi (int_digits b x)"
proof -
  obtain n d where q: "quotient_of \<bar>x\<bar> = (n, d)" by (cases "quotient_of \<bar>x\<bar>")
  have d: "0 < d" using quotient_of_denom_pos [OF q] .
  have xnd: "\<bar>x\<bar> = of_int n / of_int d" using quotient_of_div [OF q] .
  have "0 < \<bar>x\<bar>" using assms by simp
  then have n: "0 < n" using d by (simp add: xnd zero_less_divide_iff)
  define e where "e = int (int_len b n) - int (int_len b d)"
  have "0 < (of_int b :: rat)" "0 < (of_int d :: rat)" using d assms(1) by simp_all
  note bd = powi_quotient_bounds [OF this int_len_powi_bounds [OF assms(1) n] int_len_powi_bounds [OF assms(1) d]]
  have "int_digits b x = (if of_int b powi e \<le> \<bar>x\<bar> then e + 1 else e)"
    by (simp add: int_digits_def q e_def)
  then show "of_int b powi (int_digits b x - 1) \<le> \<bar>x\<bar>" and "\<bar>x\<bar> < of_int b powi (int_digits b x)"
    using bd by (auto simp: xnd e_def)
qed

lemma sig_round_0 [simp]: "sig_round b p 0 = 0"
  by (simp add: sig_round_def)

text \<open>A value with no more digits than the precision is not changed.\<close>

lemma sig_round_exact:
  assumes b: "1 < b" and x: "x = of_int n / of_int b ^ k" and small: "\<bar>x\<bar> * of_int b ^ k < of_int b ^ p"
  shows "sig_round b (int p) x = x"
proof (cases "x = 0")
  case False
  define s where "s = int p - int_digits b x"
  have pos: "0 < (of_int b :: rat)" "1 < (of_int b :: rat)" using b by simp_all
  have add: "(of_int b :: rat) powi (u + v) = of_int b powi u * of_int b powi v" for u v :: int
    using b by (simp add: power_int_add)
  have "int k \<le> s"
  proof (rule ccontr)
    assume "\<not> int k \<le> s"
    then have "(of_int b :: rat) powi (int p) \<le> of_int b powi (int k + (int_digits b x - 1))"
      using pos by (intro power_int_increasing) (auto simp: s_def)
    also have "\<dots> = of_int b ^ k * of_int b powi (int_digits b x - 1)"
      by (simp only: add power_int_of_nat)
    also have "\<dots> \<le> of_int b ^ k * \<bar>x\<bar>"
      using int_digits_bounds(1) [OF b False] pos by (intro mult_left_mono) auto
    finally show False using small by (simp add: mult.commute power_int_def)
  qed
  then have "s = int (k + nat (s - int k))" by simp
  then have q: "(of_int b :: rat) powi s = of_int b ^ k * of_int b ^ nat (s - int k)"
    by (metis power_add power_int_of_nat)
  have "x * of_int b powi s = of_int (n * b ^ nat (s - int k))"
    unfolding q x using b by simp
  then have "of_int (half_even_int (x * of_int b powi s)) = x * of_int b powi s"
    by (simp only: half_even_int_of_int)
  with False pos show ?thesis by (simp add: sig_round_def Let_def s_def)
qed simp

lemma sig_round_ulp:
  assumes b: "1 < b" and x: "x \<noteq> 0"
  shows "\<bar>sig_round b prec x - x\<bar> \<le> 1 / (2 * of_int b powi (prec - int_digits b x))"
proof -
  define p :: rat where "p = of_int b powi (prec - int_digits b x)"
  have p: "0 < p" using b by (simp add: p_def)
  have "sig_round b prec x = of_int (half_even_int (x * p)) / p"
    using x by (simp add: sig_round_def Let_def p_def)
  then have "sig_round b prec x - x = (of_int (half_even_int (x * p)) - x * p) / p"
    using p by (simp add: diff_divide_distrib)
  then have "\<bar>sig_round b prec x - x\<bar> = \<bar>of_int (half_even_int (x * p)) - x * p\<bar> / p"
    using p by simp
  also have "\<dots> \<le> (1 / 2) / p"
    using half_even_int_error [of "x * p"] p by (intro divide_right_mono) auto
  finally show ?thesis by (simp add: p_def)
qed

lemma sig_round_error:
  assumes "1 < b"
  shows "\<bar>sig_round b (int (Suc p)) x - x\<bar> \<le> \<bar>x\<bar> / of_int b ^ p"
proof (cases "x = 0")
  case False
  define q :: rat where "q = of_int b powi (int (Suc p) - int_digits b x)"
  have q: "0 < q" using assms by (simp add: q_def)
  have "(of_int b :: rat) powi int p = of_int b powi (int_digits b x - 1) * q"
    using assms by (simp add: q_def flip: power_int_add)
  also have "\<dots> \<le> \<bar>x\<bar> * q"
    using int_digits_bounds(1) [OF assms False] q by (intro mult_right_mono) auto
  finally have "of_int b ^ p \<le> \<bar>x\<bar> * q" by (simp add: power_int_def)
  then have "1 / q \<le> \<bar>x\<bar> / of_int b ^ p" using q assms by (simp add: field_simps)
  moreover have "1 / (2 * q) \<le> 1 / q" using q by (simp add: field_simps)
  moreover note sig_round_ulp [OF assms False, of "int (Suc p)", folded q_def]
  ultimately show ?thesis by linarith
qed simp

section \<open>The arithmetic context: 28 significant digits\<close>

definition ctx_round :: "decimal \<Rightarrow> decimal" where
  "ctx_round x = sig_round 10 28 x"

definition dmul :: "decimal \<Rightarrow> decimal \<Rightarrow> decimal" where
  "dmul x y = ctx_round (x * y)"

definition ddiv :: "decimal \<Rightarrow> decimal \<Rightarrow> decimal" where
  "ddiv x y = ctx_round (x / y)"

definition dadd :: "decimal \<Rightarrow> decimal \<Rightarrow> decimal" where
  "dadd x y = ctx_round (x + y)"

lemma ctx_round_0 [simp]: "ctx_round 0 = 0"
  by (simp add: ctx_round_def)

lemma ctx_round_exact:
  assumes "on_grid k x" and "\<bar>x\<bar> * 10 ^ k < 10 ^ 28"
  shows "ctx_round x = x"
proof -
  from assms(1) obtain n where "x = of_int n / 10 ^ k" by (rule on_gridE)
  then show ?thesis using sig_round_exact [of 10 x n k 28] assms(2) by (simp add: ctx_round_def)
qed

lemma ctx_round_error: "\<bar>ctx_round x - x\<bar> \<le> \<bar>x\<bar> / 10 ^ 27"
  using sig_round_error [of 10 27 x] by (simp add: ctx_round_def)

lemma ctx_round_upper: "0 \<le> x \<Longrightarrow> ctx_round x \<le> x + x / 10 ^ 27"
  using abs_le_D1 [OF ctx_round_error [of x]] by simp

lemma ctx_round_lower: "0 \<le> x \<Longrightarrow> x - x / 10 ^ 27 \<le> ctx_round x"
  using abs_le_D2 [OF ctx_round_error [of x]] by simp

lemma ctx_round_nonneg: "0 \<le> x \<Longrightarrow> 0 \<le> ctx_round x"
  by (simp add: ctx_round_def sig_round_def Let_def half_even_int_nonneg)

lemma dmul_nonneg: "0 \<le> x \<Longrightarrow> 0 \<le> y \<Longrightarrow> 0 \<le> dmul x y"
  by (simp add: dmul_def ctx_round_nonneg)

lemma ddiv_nonneg: "0 \<le> x \<Longrightarrow> 0 \<le> y \<Longrightarrow> 0 \<le> ddiv x y"
  by (simp add: ddiv_def ctx_round_nonneg)

lemma dmul_upper: "0 \<le> x * y \<Longrightarrow> dmul x y \<le> x * y + x * y / 10 ^ 27"
  unfolding dmul_def by (rule ctx_round_upper)

lemma ddiv_upper: "0 \<le> x / y \<Longrightarrow> ddiv x y \<le> x / y + x / y / 10 ^ 27"
  unfolding ddiv_def by (rule ctx_round_upper)

lemma dmul_0 [simp]: "dmul 0 y = 0" "dmul x 0 = 0"
  by (simp_all add: dmul_def)

lemma ddiv_0 [simp]: "ddiv 0 y = 0"
  by (simp add: ddiv_def)

lemma dmul_exact:
  "on_grid j x \<Longrightarrow> on_grid k y \<Longrightarrow> \<bar>x * y\<bar> * 10 ^ (j + k) < 10 ^ 28 \<Longrightarrow> dmul x y = x * y"
  unfolding dmul_def by (rule ctx_round_exact [OF on_grid_mult])

end
