(* ===== verification/Gst.thy ===== *)
theory Gst
  imports Decimals
begin

text \<open>
  GST calculation and document totals (\<^verbatim>\<open>app/modules/tax/gst.py\<close>): the tax of one line and its
  CGST/SGST/IGST split, the totals of a document, and the choice of the treatment. The roundings leave out
  the overflow of \<^verbatim>\<open>quantize\<close>, which \<open>amounts_defined\<close> shows not to be taken by values up to a thousand million
  times what the columns of the amounts can hold. Sums of columns are exact as long as they are below \<open>10 ^ 24\<close>.
\<close>

section \<open>Model\<close>

datatype tax_treatment = INTRA_STATE | INTER_STATE | EXPORT | EXEMPT

definition round_money :: "decimal \<Rightarrow> decimal" where
  "round_money v = quantize_half_up 2 v"

definition to_exact :: "decimal \<Rightarrow> decimal" where
  "to_exact v = quantize_half_up 4 v"

record line_tax =
  lt_taxable_amount :: decimal
  lt_cgst :: decimal
  lt_sgst :: decimal
  lt_igst :: decimal

definition lt_total :: "line_tax \<Rightarrow> decimal" where
  "lt_total t = lt_cgst t + lt_sgst t + lt_igst t"

record line_totals =
  gross :: decimal
  discount_amount :: decimal
  taxable :: decimal
  cgst :: decimal
  sgst :: decimal
  igst :: decimal
  tax_amount :: decimal
  total :: decimal

definition split_tax :: "decimal \<Rightarrow> decimal \<Rightarrow> tax_treatment \<Rightarrow> line_tax" where
  "split_tax taxable_amt rate treatment =
     (if treatment \<in> {EXPORT, EXEMPT} \<or> rate = 0
      then \<lparr>lt_taxable_amount = taxable_amt, lt_cgst = 0, lt_sgst = 0, lt_igst = 0\<rparr>
      else let total_tax = round_money (ddiv (dmul taxable_amt rate) 100)
           in if treatment = INTER_STATE
              then \<lparr>lt_taxable_amount = taxable_amt, lt_cgst = 0, lt_sgst = 0, lt_igst = total_tax\<rparr>
              else let half = round_money (ddiv total_tax 2)
                   in \<lparr>lt_taxable_amount = taxable_amt, lt_cgst = half,
                       lt_sgst = total_tax - half, lt_igst = 0\<rparr>)"

text \<open>The discount of a line: an absolute amount wins over a percentage.\<close>

definition line_discount :: "decimal \<Rightarrow> decimal \<Rightarrow> decimal option \<Rightarrow> decimal" where
  "line_discount g discount_percent discount_amt =
     (case discount_amt of
        Some d \<Rightarrow> to_exact (min d g)
      | None \<Rightarrow> if discount_percent \<noteq> 0 then to_exact (ddiv (dmul g discount_percent) 100) else 0)"

definition compute_line ::
  "decimal \<Rightarrow> decimal \<Rightarrow> decimal \<Rightarrow> tax_treatment \<Rightarrow> decimal \<Rightarrow> decimal option \<Rightarrow> line_totals" where
  "compute_line quantity unit_price tax_rate treatment discount_percent discount_amt =
     (let g = to_exact (dmul quantity unit_price);
          discount = line_discount g discount_percent discount_amt;
          base = to_exact (g - discount);
          tax = split_tax base tax_rate treatment;
          tax_amt = lt_total tax
      in \<lparr>gross = g, discount_amount = discount, taxable = base,
          cgst = lt_cgst tax, sgst = lt_sgst tax, igst = lt_igst tax,
          tax_amount = tax_amt, total = to_exact (base + tax_amt)\<rparr>)"

record document_totals =
  subtotal :: decimal
  discount_total :: decimal
  taxable_total :: decimal
  cgst_total :: decimal
  sgst_total :: decimal
  igst_total :: decimal
  tax_total :: decimal
  round_off :: decimal
  grand_total :: decimal

definition compute_document :: "line_totals list \<Rightarrow> bool \<Rightarrow> document_totals" where
  "compute_document lines round_to_whole =
     (let sub = sum_list (map gross lines);
          disc = sum_list (map discount_amount lines);
          base = sum_list (map taxable lines);
          c = sum_list (map cgst lines);
          s = sum_list (map sgst lines);
          i = sum_list (map igst lines);
          tax = c + s + i;
          exact_total = to_exact (base + tax);
          whole = quantize_half_up 0 exact_total
      in \<lparr>subtotal = to_exact sub, discount_total = to_exact disc, taxable_total = to_exact base,
          cgst_total = to_exact c, sgst_total = to_exact s, igst_total = to_exact i,
          tax_total = to_exact tax,
          round_off = (if round_to_whole then to_exact (whole - exact_total) else 0),
          grand_total = (if round_to_whole then to_exact whole else exact_total)\<rparr>)"

text \<open>\<^verbatim>\<open>str.upper()\<close> and \<^verbatim>\<open>str.isdigit()\<close> on ASCII text.\<close>

definition char_upper :: "char \<Rightarrow> char" where
  "char_upper c = (let n = (of_char c :: nat) in if 97 \<le> n \<and> n \<le> 122 then char_of (n - 32) else c)"

definition is_digit :: "char \<Rightarrow> bool" where
  "is_digit c \<longleftrightarrow> 48 \<le> (of_char c :: nat) \<and> (of_char c :: nat) \<le> 57"

text \<open>\<^verbatim>\<open>not code\<close> for an optional string: missing or empty.\<close>

definition falsy :: "string option \<Rightarrow> bool" where
  "falsy x = (case x of None \<Rightarrow> True | Some s \<Rightarrow> s = [])"

definition resolve_treatment ::
  "string option \<Rightarrow> string option \<Rightarrow> string \<Rightarrow> bool \<Rightarrow> tax_treatment" where
  "resolve_treatment seller_state_code buyer_state_code buyer_country is_exempt =
     (if is_exempt then EXEMPT
      else if map char_upper buyer_country \<noteq> ''IN'' then EXPORT
      else if falsy seller_state_code \<or> falsy buyer_state_code then INTRA_STATE
      else if seller_state_code = buyer_state_code then INTRA_STATE
      else INTER_STATE)"

definition state_code_from_gstin :: "string option \<Rightarrow> string option" where
  "state_code_from_gstin gstin =
     (case gstin of
        None \<Rightarrow> None
      | Some g \<Rightarrow> if length g < 2 \<or> \<not> list_all is_digit (take 2 g) then None else Some (take 2 g))"

section \<open>The split\<close>

lemma amounts_defined:
  assumes "\<bar>x\<bar> < 10 ^ 23"
  shows "quantize_raising 2 x = Inr (round_money x)" "quantize_raising 4 x = Inr (to_exact x)"
proof -
  have "\<bar>x\<bar> < 10 ^ 25" using assms by (rule less_le_trans) simp
  then show "quantize_raising 2 x = Inr (round_money x)" by (simp add: round_money_def quantize_raising_range)
  show "quantize_raising 4 x = Inr (to_exact x)" using assms by (simp add: to_exact_def quantize_raising_range)
qed

lemma round_money_grid [simp, dec_intros]: "on_grid 2 (round_money x)" "on_grid 4 (round_money x)"
  by (auto simp: round_money_def intro: on_grid_mono [of 2])

lemma to_exact_grid [simp, dec_intros]: "on_grid 4 (to_exact x)"
  by (simp add: to_exact_def)

lemma to_exact_id: "on_grid 4 x \<Longrightarrow> to_exact x = x"
  by (simp add: to_exact_def quantize_id)

lemma to_exact_nonneg: "0 \<le> x \<Longrightarrow> 0 \<le> to_exact x"
  by (simp add: to_exact_def quantize_nonneg)

lemma round_money_nonneg: "0 \<le> x \<Longrightarrow> 0 \<le> round_money x"
  by (simp add: round_money_def quantize_nonneg)

lemma lt_total_split_tax:
  "lt_total (split_tax t r tr) =
     (if tr \<in> {EXPORT, EXEMPT} \<or> r = 0 then 0 else round_money (ddiv (dmul t r) 100))"
  by (simp add: lt_total_def split_tax_def Let_def)

lemma split_tax_grid [dec_intros]:
  "on_grid 2 (lt_cgst (split_tax t r tr))"
  "on_grid 2 (lt_sgst (split_tax t r tr))"
  "on_grid 2 (lt_igst (split_tax t r tr))"
  by (auto simp: split_tax_def Let_def intro: dec_intros)

lemma split_tax_grid4 [dec_intros]:
  "on_grid 4 (lt_cgst (split_tax t r tr))"
  "on_grid 4 (lt_sgst (split_tax t r tr))"
  "on_grid 4 (lt_igst (split_tax t r tr))"
  by (rule on_grid_mono [OF split_tax_grid(1)], simp, rule on_grid_mono [OF split_tax_grid(2)], simp,
      rule on_grid_mono [OF split_tax_grid(3)], simp)

text \<open>Halving a whole number of paise: the half that is rounded first gets the odd paisa.\<close>

lemma half_paise:
  assumes "on_grid 2 x" and "0 \<le> x" and "x < 10 ^ 20"
  shows "round_money (ddiv x 2) = x / 2 \<or> round_money (ddiv x 2) = x / 2 + 1/200"
proof -
  from assms(1) obtain n where n: "x = of_int n / 10 ^ 2" by (rule on_gridE)
  have "x / 2 = of_int (5 * n) / 10 ^ 3" using n by simp
  then have g: "on_grid 3 (x / 2)" unfolding on_grid_iff by blast
  have d: "ddiv x 2 = x / 2"
    unfolding ddiv_def using assms(2,3) by (intro ctx_round_exact [OF g]) simp
  have "round_money (x / 2) = of_int \<lfloor>of_int n / 2 + 1/2 :: rat\<rfloor> / 100"
    using assms(2) by (simp add: round_money_def quantize_half_up_def half_up_int_def n)
  also have "\<lfloor>of_int n / 2 + 1/2 :: rat\<rfloor> = (n + 1) div 2"
    using floor_divide_of_int_eq [of "n + 1" 2, where ?'a = rat] by (simp add: add_divide_distrib)
  finally have r: "round_money (ddiv x 2) = of_int ((n + 1) div 2) / 100" by (simp only: d)
  show ?thesis
  proof (cases "even n")
    case True
    then obtain m where "n = 2 * m" ..
    then have "x / 2 = of_int m / 100" and "(n + 1) div 2 = m"
      by (simp_all add: n)
    then show ?thesis by (intro disjI1) (simp only: r)
  next
    case False
    then obtain m where "n = 2 * m + 1" by (auto elim: oddE)
    then have "x / 2 + 1/200 = of_int (m + 1) / 100" and "(n + 1) div 2 = m + 1"
      by (simp_all add: n add_divide_distrib)
    then show ?thesis by (intro disjI2) (simp only: r)
  qed
qed

lemma split_tax_nonneg:
  assumes "0 \<le> t" and "0 \<le> r" and "dmul t r < 10 ^ 20"
  shows "0 \<le> lt_cgst (split_tax t r tr)" "0 \<le> lt_sgst (split_tax t r tr)"
    "0 \<le> lt_igst (split_tax t r tr)"
proof -
  define T where "T = round_money (ddiv (dmul t r) 100)"
  have T0: "0 \<le> T" by (simp add: T_def assms round_money_nonneg ddiv_nonneg dmul_nonneg)
  have "ddiv (dmul t r) 100 \<le> dmul t r / 100 + dmul t r / 100 / 10 ^ 27"
    using assms dmul_nonneg [of t r] by (intro ddiv_upper) simp
  also have "\<dots> < 10 ^ 19"
    using assms dmul_nonneg [of t r] by simp
  finally have "ddiv (dmul t r) 100 < 10 ^ 19" .
  then have T1: "T < 10 ^ 20"
    using abs_le_D1 [OF quantize_error [of 2 "ddiv (dmul t r) 100"]] by (simp add: T_def round_money_def)
  have "T \<noteq> 0 \<Longrightarrow> 1/100 \<le> T"
  proof -
    assume "T \<noteq> 0"
    obtain n where "T = of_int n / 10 ^ 2" using round_money_grid(1) unfolding T_def by (rule on_gridE)
    with T0 \<open>T \<noteq> 0\<close> have "1 \<le> n" and "T = of_int n / 100" by (auto simp: zero_le_divide_iff)
    then show "1/100 \<le> T" by simp
  qed
  moreover have "T = 0 \<Longrightarrow> round_money (ddiv T 2) = 0"
    by (simp add: round_money_def)
  moreover have "on_grid 2 T" by (simp add: T_def)
  ultimately have half: "0 \<le> round_money (ddiv T 2) \<and> round_money (ddiv T 2) \<le> T"
    using half_paise [of T] T0 T1 by (cases "T = 0") auto
  show "0 \<le> lt_cgst (split_tax t r tr)" "0 \<le> lt_sgst (split_tax t r tr)"
    "0 \<le> lt_igst (split_tax t r tr)"
    using half T0 by (auto simp: split_tax_def Let_def simp flip: T_def)
qed

section \<open>Lines\<close>

lemma compute_line_sel [simp]:
  "gross (compute_line q p r tr dp da) = to_exact (dmul q p)"
  "discount_amount (compute_line q p r tr dp da) = line_discount (to_exact (dmul q p)) dp da"
  "tax_amount (compute_line q p r tr dp da) =
     lt_total (split_tax (taxable (compute_line q p r tr dp da)) r tr)"
  "cgst (compute_line q p r tr dp da) = lt_cgst (split_tax (taxable (compute_line q p r tr dp da)) r tr)"
  "sgst (compute_line q p r tr dp da) = lt_sgst (split_tax (taxable (compute_line q p r tr dp da)) r tr)"
  "igst (compute_line q p r tr dp da) = lt_igst (split_tax (taxable (compute_line q p r tr dp da)) r tr)"
  by (simp_all add: compute_line_def Let_def)

lemma line_discount_grid [simp, dec_intros]: "on_grid 4 (line_discount g dp da)"
  by (auto simp: line_discount_def split: option.splits)

lemma lt_total_grid [dec_intros]: "on_grid 4 (lt_total (split_tax t r tr))"
  unfolding lt_total_def by (intro dec_intros)

lemma taxable_compute_line:
  "taxable (compute_line q p r tr dp da) =
     to_exact (dmul q p) - line_discount (to_exact (dmul q p)) dp da"
  by (simp add: compute_line_def Let_def to_exact_id)

lemma taxable_grid [dec_intros]: "on_grid 4 (taxable (compute_line q p r tr dp da))"
  by (simp add: taxable_compute_line)

lemma total_compute_line:
  "total (compute_line q p r tr dp da) =
     taxable (compute_line q p r tr dp da) + tax_amount (compute_line q p r tr dp da)"
proof -
  have "on_grid 4 (taxable (compute_line q p r tr dp da) + tax_amount (compute_line q p r tr dp da))"
    unfolding compute_line_sel by (intro dec_intros)
  then show ?thesis by (simp add: compute_line_def Let_def to_exact_id)
qed

text \<open>What every computed line satisfies: its columns add up, at the storage precision.\<close>

definition line_ok :: "line_totals \<Rightarrow> bool" where
  "line_ok l \<longleftrightarrow>
     on_grid 4 (gross l) \<and> on_grid 4 (discount_amount l) \<and> on_grid 4 (taxable l) \<and>
     on_grid 2 (cgst l) \<and> on_grid 2 (sgst l) \<and> on_grid 2 (igst l) \<and>
     taxable l = gross l - discount_amount l \<and>
     tax_amount l = cgst l + sgst l + igst l \<and>
     total l = taxable l + tax_amount l"

lemma line_ok_compute_line: "line_ok (compute_line q p r tr dp da)"
  by (simp add: line_ok_def total_compute_line)
     (simp add: taxable_compute_line split_tax_grid lt_total_def)

text \<open>
  The discount never exceeds the line: a percentage of at most 100 of an amount a
  \<^verbatim>\<open>NUMERIC(18, 4)\<close> column can hold, or an absolute discount, which is clamped.
\<close>

lemma percent_le:
  assumes "on_grid 4 g" and "0 \<le> g" and "g < 10 ^ 14" and "0 \<le> p" and "p \<le> 100"
  shows "to_exact (ddiv (dmul g p) 100) \<le> g"
proof -
  have gp: "0 \<le> g * p" "g * p \<le> g * 100"
    using assms by (auto intro: mult_left_mono)
  have m: "dmul g p \<le> g * p + g * p / 10 ^ 27"
    by (rule dmul_upper [OF gp(1)])
  have m0: "0 \<le> dmul g p" using assms by (simp add: dmul_nonneg)
  have "ddiv (dmul g p) 100 \<le> dmul g p / 100 + dmul g p / 100 / 10 ^ 27"
    using m0 by (intro ddiv_upper) simp
  also have "\<dots> < g + 1 / (2 * 10 ^ 4)"
    using m gp assms(3) by simp
  finally show ?thesis
    unfolding to_exact_def using m0 assms(1) by (intro quantize_le_near) (auto simp: ddiv_nonneg)
qed

lemma line_discount_bounds:
  assumes "on_grid 4 g" and "0 \<le> g" and "g < 10 ^ 14" and "0 \<le> dp" and "dp \<le> 100"
    and "\<And>d. da = Some d \<Longrightarrow> 0 \<le> d"
  shows "0 \<le> line_discount g dp da" "line_discount g dp da \<le> g"
proof -
  have "to_exact (min d g) \<le> g" for d
    unfolding to_exact_def by (rule quantize_le) (auto simp: assms)
  with percent_le [OF assms(1-5)] assms
  show "0 \<le> line_discount g dp da" "line_discount g dp da \<le> g"
    by (auto simp: line_discount_def to_exact_nonneg ddiv_nonneg dmul_nonneg split: option.splits)
qed

section \<open>Documents\<close>

lemma sum_grid [dec_intros]:
  assumes "\<forall>l \<in> set ls. line_ok l"
  shows "on_grid 4 (sum_list (map gross ls))" "on_grid 4 (sum_list (map discount_amount ls))"
    "on_grid 4 (sum_list (map taxable ls))" "on_grid 4 (sum_list (map cgst ls))"
    "on_grid 4 (sum_list (map sgst ls))" "on_grid 4 (sum_list (map igst ls))"
  using assms by (auto simp: line_ok_def intro!: on_grid_sum_list intro: on_grid_mono [of 2])

lemma compute_document_exact:
  assumes "\<forall>l \<in> set ls. line_ok l"
  shows "subtotal (compute_document ls w) = sum_list (map gross ls)"
    and "discount_total (compute_document ls w) = sum_list (map discount_amount ls)"
    and "taxable_total (compute_document ls w) = sum_list (map taxable ls)"
    and "cgst_total (compute_document ls w) = sum_list (map cgst ls)"
    and "sgst_total (compute_document ls w) = sum_list (map sgst ls)"
    and "igst_total (compute_document ls w) = sum_list (map igst ls)"
    and "tax_total (compute_document ls w) =
      sum_list (map cgst ls) + sum_list (map sgst ls) + sum_list (map igst ls)"
  using sum_grid [OF assms] by (simp_all add: compute_document_def Let_def to_exact_id)

lemma sum_totals_split:
  assumes "\<forall>l \<in> set ls. line_ok l"
  shows "sum_list (map total ls) = sum_list (map taxable ls) +
    (sum_list (map cgst ls) + sum_list (map sgst ls) + sum_list (map igst ls))"
  using assms by (induction ls) (auto simp: line_ok_def)

lemma sum_taxable_split:
  assumes "\<forall>l \<in> set ls. line_ok l"
  shows "sum_list (map taxable ls) = sum_list (map gross ls) - sum_list (map discount_amount ls)"
  using assms by (induction ls) (auto simp: line_ok_def)

lemma compute_document_total:
  assumes "\<forall>l \<in> set ls. line_ok l"
  defines "T \<equiv> sum_list (map total ls)"
  shows "grand_total (compute_document ls w) = (if w then quantize_half_up 0 T else T)"
    and "round_off (compute_document ls w) = (if w then quantize_half_up 0 T - T else 0)"
proof -
  have g: "on_grid 4 T"
    unfolding T_def sum_totals_split [OF assms(1)] using sum_grid [OF assms(1)] by simp
  have w: "on_grid 4 (quantize_half_up 0 T)"
    by (rule on_grid_mono [of 0]) auto
  show "grand_total (compute_document ls w) = (if w then quantize_half_up 0 T else T)"
    and "round_off (compute_document ls w) = (if w then quantize_half_up 0 T - T else 0)"
    using g w by (simp_all add: compute_document_def Let_def to_exact_id T_def sum_totals_split [OF assms(1)])
qed

section \<open>Properties\<close>

text \<open>
  The customer pays the same whether a supply is intra-state or inter-state: the CGST and SGST of
  the one sum to the IGST of the other, and CGST exceeds SGST by nothing or by exactly one paisa.
\<close>

theorem gst_split_reconstitutes:
  assumes "0 \<le> t" and "0 \<le> r" and "t * r < 10 ^ 19"
  shows "lt_total (split_tax t r INTRA_STATE) = lt_igst (split_tax t r INTER_STATE) \<and>
    lt_cgst (split_tax t r INTRA_STATE) - lt_sgst (split_tax t r INTRA_STATE) \<in> {0, 1/100} \<and>
    0 \<le> lt_sgst (split_tax t r INTRA_STATE)"
proof -
  have "dmul t r \<le> t * r + t * r / 10 ^ 27"
    using assms by (intro dmul_upper) simp
  with assms(3) have m: "dmul t r < 10 ^ 20" by (simp add: mult.commute [of r t])
  have T: "on_grid 2 (round_money (ddiv (dmul t r) 100))" "0 \<le> round_money (ddiv (dmul t r) 100)"
    using assms by (simp_all add: round_money_nonneg ddiv_nonneg dmul_nonneg)
  have "ddiv (dmul t r) 100 \<le> dmul t r / 100 + dmul t r / 100 / 10 ^ 27"
    using assms dmul_nonneg [of t r] by (intro ddiv_upper) simp
  then have "round_money (ddiv (dmul t r) 100) < 10 ^ 20"
    using abs_le_D1 [OF quantize_error [of 2 "ddiv (dmul t r) 100"]] m by (simp add: round_money_def)
  from half_paise [OF T this] split_tax_nonneg(2) [OF assms(1,2) m, of INTRA_STATE]
  show ?thesis
    by (auto simp: split_tax_def lt_total_def Let_def)
qed

theorem gst_split_reconstitutes_witness:
  "lt_total (split_tax (10005/100) 18 INTRA_STATE) = lt_igst (split_tax (10005/100) 18 INTER_STATE) \<and>
    lt_cgst (split_tax (10005/100) 18 INTRA_STATE) - lt_sgst (split_tax (10005/100) 18 INTRA_STATE) \<in> {0, 1/100} \<and>
    0 \<le> lt_sgst (split_tax (10005/100) 18 INTRA_STATE) \<and>
    lt_cgst (split_tax (10005/100) 18 INTRA_STATE) = 901/100 \<and>
    lt_sgst (split_tax (10005/100) 18 INTRA_STATE) = 9"
proof -
  have "lt_cgst (split_tax (10005/100) 18 INTRA_STATE) = 901/100"
    "lt_sgst (split_tax (10005/100) 18 INTRA_STATE) = 9"
    by code_simp+
  then show ?thesis using gst_split_reconstitutes [of "10005/100" 18] by simp
qed

text \<open>
  C33. A document is the sum of its lines: for any list of computed lines every printed total is the
  sum of the printed column, the grand total is the sum of the line totals plus the round-off, and
  rounding to a whole unit yields a whole amount and moves the total by at most half a unit.
\<close>

theorem gst_document_adds_up:
  "let ls = map (\<lambda>(q, p, r, tr, dp, da). compute_line q p r tr dp da) inputs;
       d = compute_document ls w in
     subtotal d = sum_list (map gross ls) \<and>
     discount_total d = sum_list (map discount_amount ls) \<and>
     taxable_total d = subtotal d - discount_total d \<and>
     tax_total d = cgst_total d + sgst_total d + igst_total d \<and>
     cgst_total d = sum_list (map cgst ls) \<and>
     sgst_total d = sum_list (map sgst ls) \<and>
     igst_total d = sum_list (map igst ls) \<and>
     grand_total d = taxable_total d + tax_total d + round_off d \<and>
     grand_total d = sum_list (map total ls) + round_off d \<and>
     \<bar>round_off d\<bar> \<le> 1/2 \<and>
     on_grid (if w then 0 else 4) (grand_total d)"
proof -
  define ls where "ls = map (\<lambda>(q, p, r, tr, dp, da). compute_line q p r tr dp da) inputs"
  have ok: "\<forall>l \<in> set ls. line_ok l"
    by (auto simp: ls_def line_ok_compute_line)
  have "on_grid 4 (sum_list (map total ls))"
    unfolding sum_totals_split [OF ok] using sum_grid [OF ok] by simp
  moreover have "\<bar>quantize_half_up 0 x - x\<bar> \<le> 1/2" for x
    using quantize_error [of 0 x] by simp
  ultimately show ?thesis
    using compute_document_exact [OF ok, of w] compute_document_total [OF ok, of w]
      sum_totals_split [OF ok] sum_taxable_split [OF ok]
    by (auto simp: Let_def simp flip: ls_def)
qed

text \<open>
  Within the range of a \<^verbatim>\<open>NUMERIC(18, 4)\<close> base and a rate of at most 100 with four places, the tax
  is the exact percentage rounded once: it is within half a paisa of \<open>base * rate / 100\<close>, and
  never negative.
\<close>

theorem gst_tax_accuracy:
  assumes "on_grid 4 t" and "0 \<le> t" and "t < 10 ^ 14"
    and "on_grid 4 r" and "0 < r" and "r \<le> 100" and "tr \<notin> {EXPORT, EXEMPT}"
  shows "\<bar>lt_total (split_tax t r tr) - t * r / 100\<bar> \<le> 1/200 \<and> 0 \<le> lt_total (split_tax t r tr)"
proof -
  have le: "t * r \<le> t * 100" using assms by (intro mult_left_mono) auto
  have nn: "0 \<le> t * r" using assms by simp
  have e1: "dmul t r = t * r"
    using assms(1,4) le nn assms(3) by (intro dmul_exact [of 4 _ 4]) (auto simp: mult.commute [of r t])
  obtain n where "t * r = of_int n / 10 ^ 8"
    using on_grid_mult [OF assms(1,4)] by (auto elim: on_gridE)
  then have "t * r / 100 = of_int n / 10 ^ 10" by (simp add: mult.commute [of r t])
  then have g: "on_grid 10 (t * r / 100)" unfolding on_grid_iff by blast
  have e2: "ddiv (t * r) 100 = t * r / 100"
    unfolding ddiv_def using le nn assms(3) by (intro ctx_round_exact [OF g]) (simp add: mult.commute [of r t])
  have "lt_total (split_tax t r tr) = quantize_half_up 2 (t * r / 100)"
    using assms(5,7) by (auto simp: lt_total_split_tax e1 e2 round_money_def)
  then show ?thesis
    using quantize_error [of 2 "t * r / 100"] quantize_nonneg [of "t * r / 100" 2] nn by simp
qed

theorem gst_tax_accuracy_witness:
  "\<bar>lt_total (split_tax 1000 18 INTRA_STATE) - 1000 * 18 / 100\<bar> \<le> 1/200 \<and>
   0 \<le> lt_total (split_tax 1000 18 INTRA_STATE)"
proof -
  have "on_grid 4 1000" "on_grid 4 18" by code_simp+
  then show ?thesis using gst_tax_accuracy [of 1000 18 INTRA_STATE] by simp
qed

text \<open>
  A discount never makes a line negative: for a non-negative line within the column's range, a
  percentage between 0 and 100 or a non-negative absolute discount gives a discount between zero and
  the gross amount, so that the taxable base lies between zero and gross.
\<close>

theorem gst_discount_bounds:
  assumes "0 \<le> q" and "0 \<le> p" and "to_exact (dmul q p) < 10 ^ 14" and "0 \<le> dp" and "dp \<le> 100"
    and "\<And>d. da = Some d \<Longrightarrow> 0 \<le> d"
  shows "let l = compute_line q p r tr dp da in
    0 \<le> discount_amount l \<and> discount_amount l \<le> gross l \<and> 0 \<le> taxable l \<and> taxable l \<le> gross l"
proof -
  have "0 \<le> to_exact (dmul q p)" by (simp add: assms to_exact_nonneg dmul_nonneg)
  from line_discount_bounds [OF _ this assms(3-5), of da] assms(6)
  show ?thesis by (simp add: Let_def taxable_compute_line)
qed

theorem gst_discount_bounds_witness:
  "let l = compute_line 3 (1999/100) 18 INTER_STATE 10 None in
    0 \<le> discount_amount l \<and> discount_amount l \<le> gross l \<and> 0 \<le> taxable l \<and> taxable l \<le> gross l"
proof -
  have "to_exact (dmul 3 (1999/100)) < 10 ^ 14" by code_simp
  then show ?thesis using gst_discount_bounds [of 3 "1999/100" 10 None 18 INTER_STATE] by simp
qed

text \<open>
  C32. A line is taxed right and adds up. For a line within the range of its columns, whatever the discount:
  the taxable base is the gross less the discount and lies between zero and the gross; the total is the base plus
  the three tax components; together they are the rate of the base to within half a paisa, and nothing
  on an export or an exempt supply; inside a state CGST and SGST share the tax with at most one paisa more of
  CGST, across states all of it is IGST, and the customer pays the same total either way.
\<close>

theorem gst_line_adds_up:
  assumes "0 \<le> q" "0 \<le> p" "to_exact (dmul q p) < 10 ^ 14" "0 \<le> dp" "dp \<le> 100" "\<forall>d. da = Some d \<longrightarrow> 0 \<le> d"
    and "on_grid 4 r" "0 \<le> r" "r \<le> 100"
  shows "let l = compute_line q p r tr dp da; tax = cgst l + sgst l + igst l in
    taxable l = gross l - discount_amount l \<and> 0 \<le> taxable l \<and> taxable l \<le> gross l \<and>
    total l = taxable l + tax \<and> on_grid 2 (cgst l) \<and> on_grid 2 (sgst l) \<and> on_grid 2 (igst l) \<and>
    (tr \<in> {EXPORT, EXEMPT} \<longrightarrow> tax = 0) \<and>
    (tr \<in> {INTRA_STATE, INTER_STATE} \<longrightarrow> \<bar>tax - taxable l * r / 100\<bar> \<le> 1 / 200) \<and>
    (tr = INTRA_STATE \<longrightarrow> igst l = 0 \<and> 0 \<le> sgst l \<and> cgst l - sgst l \<in> {0, 1 / 100} \<and>
       total l = total (compute_line q p r INTER_STATE dp da)) \<and>
    (tr \<noteq> INTRA_STATE \<longrightarrow> cgst l = 0 \<and> sgst l = 0 \<and> 0 \<le> igst l)"
proof -
  define l where "l = compute_line q p r tr dp da"
  define t where "t = taxable l"
  have same: "taxable (compute_line q p r tr' dp da) = t" for tr'
    by (simp add: t_def l_def taxable_compute_line)
  have sel: "cgst l = lt_cgst (split_tax t r tr)" "sgst l = lt_sgst (split_tax t r tr)" "igst l = lt_igst (split_tax t r tr)"
    by (simp_all add: t_def l_def)
  have tax: "cgst l + sgst l + igst l = lt_total (split_tax t r tr)" by (simp add: sel lt_total_def)
  have tot: "total (compute_line q p r tr' dp da) = t + lt_total (split_tax t r tr')" for tr'
    using total_compute_line [of q p r tr' dp da] by (simp add: same)
  have b: "0 \<le> t" "t \<le> gross l" using gst_discount_bounds [OF assms(1-5) assms(6) [rule_format], where r = r and tr = tr] by (simp_all add: Let_def t_def l_def)
  have t: "on_grid 4 t" "t < 10 ^ 14" using b(2) assms(3) by (auto simp: t_def l_def intro: taxable_grid)
  have "t * r \<le> t * 100" using b(1) assms(9) by (intro mult_left_mono) auto
  then have small: "t * r < 10 ^ 19" using t(2) by simp
  have near: "\<bar>lt_total (split_tax t r tr) - t * r / 100\<bar> \<le> 1 / 200" if "tr \<in> {INTRA_STATE, INTER_STATE}"
    using gst_tax_accuracy [OF t(1) b(1) t(2) assms(7) _ assms(9), of tr] that assms(8)
    by (cases "r = 0") (auto simp: lt_total_split_tax)
  note split = gst_split_reconstitutes [OF b(1) assms(8) small]
  have nonneg: "0 \<le> lt_igst (split_tax t r tr)"
    by (auto simp: split_tax_def Let_def intro!: round_money_nonneg ddiv_nonneg dmul_nonneg b(1) assms(8))
  have intra: "igst l = 0 \<and> 0 \<le> sgst l \<and> cgst l - sgst l \<in> {0, 1 / 100} \<and> total l = total (compute_line q p r INTER_STATE dp da)"
    if "tr = INTRA_STATE"
  proof -
    have "lt_igst (split_tax t r INTER_STATE) = lt_total (split_tax t r INTER_STATE)"
      by (simp add: split_tax_def lt_total_def Let_def)
    with split tot show ?thesis unfolding that sel l_def by (simp add: same split_tax_def Let_def)
  qed
  have rest: "cgst l = 0 \<and> sgst l = 0" if "tr \<noteq> INTRA_STATE" using that by (cases tr) (simp_all add: sel split_tax_def Let_def)
  have "t = gross l - discount_amount l" by (simp add: t_def l_def taxable_compute_line)
  with b near intra rest nonneg tot [of tr] show ?thesis
    unfolding Let_def l_def [symmetric] tax by (auto simp: t_def [symmetric] sel split_tax_grid lt_total_split_tax l_def [symmetric])
qed

theorem gst_line_adds_up_witness:
  "let l = compute_line 3 (667 / 20) 18 INTRA_STATE 0 None in
     total l = 11806 / 100 \<and> cgst l = 901 / 100 \<and> sgst l = 9 \<and>
     \<bar>cgst l + sgst l + igst l - taxable l * 18 / 100\<bar> \<le> 1 / 200 \<and>
     total l = total (compute_line 3 (667 / 20) 18 INTER_STATE 0 None)"
proof -
  define l where "l = compute_line 3 (667 / 20) 18 INTRA_STATE 0 None"
  have fit: "to_exact (dmul 3 (667 / 20)) < 10 ^ 14" "on_grid 4 18" by code_simp+
  have args: "(0 :: decimal) \<le> 3" "(0 :: decimal) \<le> 667 / 20" "(0 :: decimal) \<le> 0" "(0 :: decimal) \<le> 100"
    "\<forall>d. None = Some d \<longrightarrow> (0 :: decimal) \<le> d" "(0 :: decimal) \<le> 18" "(18 :: decimal) \<le> 100" by simp_all
  have "\<bar>cgst l + sgst l + igst l - taxable l * 18 / 100\<bar> \<le> 1 / 200"
    "total l = total (compute_line 3 (667 / 20) 18 INTER_STATE 0 None)"
    using gst_line_adds_up [OF args(1,2) fit(1) args(3,4,5) fit(2) args(6,7), where tr = INTRA_STATE, folded l_def, unfolded Let_def]
    by blast+
  moreover have "total l = 11806 / 100" "cgst l = 901 / 100" "sgst l = 9" unfolding l_def by code_simp+
  ultimately show ?thesis unfolding Let_def l_def [symmetric] by blast
qed

end
