(* ===== verification/Valuation.thy ===== *)
theory Valuation
  imports Decimals
begin

text \<open>
  Inventory valuation at moving weighted average cost (\<^verbatim>\<open>app/modules/purchasing/valuation.py\<close>): the
  position of a product in a warehouse (quantity and total value) and the four pure operations on it,
  with Python's exceptions as error results. The roundings leave out the overflow of \<^verbatim>\<open>quantize\<close>, which
  \<open>roundings_defined\<close> shows not to be taken by values up to ten million times what their columns can hold.
\<close>

section \<open>Model\<close>

definition round_cost :: "decimal \<Rightarrow> decimal" where
  "round_cost v = quantize_half_up 6 v"

definition round_value :: "decimal \<Rightarrow> decimal" where
  "round_value v = quantize_half_up 4 v"

record valuation_state =
  v_quantity :: decimal
  v_value :: decimal

definition average_cost :: "valuation_state \<Rightarrow> decimal" where
  "average_cost s = (if v_quantity s \<le> 0 then 0 else round_cost (ddiv (v_value s) (v_quantity s)))"

definition total_value :: "valuation_state \<Rightarrow> decimal" where
  "total_value s = v_value s"

record receipt_outcome =
  ro_state :: valuation_state
  value_added :: decimal

record issue_outcome =
  io_state :: valuation_state
  cost_of_goods_sold :: decimal

definition apply_receipt :: "valuation_state \<Rightarrow> decimal \<Rightarrow> decimal \<Rightarrow> receipt_outcome result" where
  "apply_receipt current quantity unit_cost =
     (if quantity \<le> 0 then Inl (ValueError ''Receipt quantity must be positive'')
      else if unit_cost < 0 then Inl (ValueError ''Receipt cost cannot be negative'')
      else let new_quantity = v_quantity current + quantity;
               added = round_value (dmul quantity unit_cost)
           in Inr \<lparr>ro_state = \<lparr>v_quantity = new_quantity, v_value = v_value current + added\<rparr>,
                   value_added = added\<rparr>)"

definition apply_issue :: "valuation_state \<Rightarrow> decimal \<Rightarrow> issue_outcome result" where
  "apply_issue current quantity =
     (if quantity \<le> 0 then Inl (ValueError ''Issue quantity must be positive'')
      else if v_quantity current < quantity then Inl NegativeStockError
      else let remaining = v_quantity current - quantity
           in if remaining = 0
              then Inr \<lparr>io_state = \<lparr>v_quantity = remaining, v_value = 0\<rparr>,
                        cost_of_goods_sold = v_value current\<rparr>
              else let cogs = round_value (ddiv (dmul (v_value current) quantity) (v_quantity current))
                   in Inr \<lparr>io_state = \<lparr>v_quantity = remaining, v_value = v_value current - cogs\<rparr>,
                           cost_of_goods_sold = cogs\<rparr>)"

definition apply_adjustment ::
  "valuation_state \<Rightarrow> decimal \<Rightarrow> decimal option \<Rightarrow> (receipt_outcome + issue_outcome) result" where
  "apply_adjustment current quantity_delta unit_cost =
     (if quantity_delta = 0 then Inl (ValueError ''Adjustment cannot be zero'')
      else if 0 < quantity_delta
      then let cost = (case unit_cost of Some c \<Rightarrow> c | None \<Rightarrow> average_cost current)
           in bindr (apply_receipt current quantity_delta cost) (\<lambda>r. Inr (Inl r))
      else bindr (apply_issue current (- quantity_delta)) (\<lambda>i. Inr (Inr i)))"

definition reverse_receipt :: "valuation_state \<Rightarrow> decimal \<Rightarrow> decimal \<Rightarrow> valuation_state result" where
  "reverse_receipt current quantity unit_cost =
     (let remaining = v_quantity current - quantity
      in if remaining < 0 then Inl NegativeStockError
         else if remaining = 0 then Inr \<lparr>v_quantity = 0, v_value = 0\<rparr>
         else let removed_value = round_value (dmul quantity unit_cost);
                  restored_value = v_value current - removed_value
              in if restored_value \<le> 0
                 then Inr \<lparr>v_quantity = remaining,
                           v_value = round_value (ddiv (dmul (v_value current) remaining) (v_quantity current))\<rparr>
                 else Inr \<lparr>v_quantity = remaining, v_value = restored_value\<rparr>)"

section \<open>The position invariant\<close>

text \<open>
  What the \<^verbatim>\<open>stock_level\<close> row can hold and the operations keep: neither figure negative, the value
  at the storage precision and within \<^verbatim>\<open>NUMERIC(18, 4)\<close>, and no value against zero units.
\<close>

definition position_ok :: "valuation_state \<Rightarrow> bool" where
  "position_ok s \<longleftrightarrow> 0 \<le> v_quantity s \<and> 0 \<le> v_value s \<and> on_grid 4 (v_value s) \<and>
     (v_quantity s = 0 \<longrightarrow> v_value s = 0)"

definition in_range :: "valuation_state \<Rightarrow> bool" where
  "in_range s \<longleftrightarrow> v_value s < 10 ^ 14"

lemma roundings_defined:
  assumes "\<bar>x\<bar> < 10 ^ 21"
  shows "quantize_raising 6 x = Inr (round_cost x)" "quantize_raising 4 x = Inr (round_value x)"
proof -
  show "quantize_raising 6 x = Inr (round_cost x)" using assms by (simp add: round_cost_def quantize_raising_range)
  have "\<bar>x\<bar> < 10 ^ 23" using assms by (rule less_le_trans) simp
  then show "quantize_raising 4 x = Inr (round_value x)" by (simp add: round_value_def quantize_raising_range)
qed

lemma position_okD:
  assumes "position_ok s"
  shows "0 \<le> v_quantity s" "0 \<le> v_value s" "on_grid 4 (v_value s)"
  using assms by (simp_all add: position_ok_def)

lemma round_value_grid [simp, dec_intros]: "on_grid 4 (round_value x)"
  by (simp add: round_value_def)

lemma round_value_nonneg: "0 \<le> x \<Longrightarrow> 0 \<le> round_value x"
  by (simp add: round_value_def quantize_nonneg)

lemma average_cost_nonneg: "position_ok s \<Longrightarrow> 0 \<le> average_cost s"
  by (simp add: average_cost_def round_cost_def quantize_nonneg ddiv_nonneg position_ok_def)

text \<open>A proportional share of a value, as the issue and the reversal compute it.\<close>

lemma share_near:
  assumes "0 \<le> v" and "v < 10 ^ 14" and "0 \<le> q" and "q \<le> Q" and "0 < Q"
  shows "\<bar>ddiv (dmul v q) Q - v * q / Q\<bar> < 1 / 10 ^ 12"
proof -
  define x where "x = v * q / Q"
  have x: "0 \<le> x" "x < 10 ^ 14"
  proof -
    show "0 \<le> x" using assms by (simp add: x_def)
    have "v * q \<le> v * Q" using assms by (intro mult_left_mono) auto
    then have "x \<le> v" using assms(5) by (simp add: x_def pos_divide_le_eq)
    then show "x < 10 ^ 14" using assms(2) by simp
  qed
  have "\<bar>dmul v q - v * q\<bar> \<le> v * q / 10 ^ 27"
    using ctx_round_error [of "v * q"] assms by (simp add: dmul_def abs_mult)
  then have "\<bar>dmul v q - v * q\<bar> / Q \<le> v * q / 10 ^ 27 / Q"
    using assms(5) by (intro divide_right_mono) auto
  moreover define y where "y = dmul v q / Q"
  ultimately have a: "\<bar>y - x\<bar> \<le> x / 10 ^ 27"
    using assms(5) by (simp add: x_def flip: diff_divide_distrib)
  have y0: "0 \<le> y" using assms by (simp add: y_def dmul_nonneg)
  have b: "\<bar>ddiv (dmul v q) Q - y\<bar> \<le> y / 10 ^ 27"
    using ctx_round_error [of y] y0 unfolding ddiv_def by (simp add: y_def)
  from a have a1: "y - x \<le> x / 10 ^ 27" "x - y \<le> x / 10 ^ 27"
    unfolding abs_le_iff by linarith+
  then have "y \<le> 2 * 10 ^ 14" using x by simp
  moreover from b have "ddiv (dmul v q) Q - y \<le> y / 10 ^ 27" "y - ddiv (dmul v q) Q \<le> y / 10 ^ 27"
    unfolding abs_le_iff by linarith+
  ultimately show ?thesis
    unfolding x_def [symmetric] abs_less_iff using a1 x by simp
qed

lemma share_le:
  assumes "on_grid 4 v" and "0 \<le> v" and "v < 10 ^ 14" and "0 \<le> q" and "q \<le> Q" and "0 < Q"
  shows "round_value (ddiv (dmul v q) Q) \<le> v"
proof -
  have "v * q \<le> v * Q" using assms by (intro mult_left_mono) auto
  then have "v * q / Q \<le> v" using assms(6) by (simp add: pos_divide_le_eq)
  moreover have "ddiv (dmul v q) Q - v * q / Q < 1 / 10 ^ 12"
    using share_near [OF assms(2-6)] unfolding abs_less_iff by blast
  ultimately have "ddiv (dmul v q) Q < v + 1 / (2 * 10 ^ 4)" by simp
  then show ?thesis
    unfolding round_value_def using assms
    by (intro quantize_le_near) (auto simp: ddiv_nonneg dmul_nonneg)
qed

lemma share_bounds:
  assumes "position_ok s" and "in_range s" and "0 < q" and "q \<le> v_quantity s"
  shows "0 \<le> round_value (ddiv (dmul (v_value s) q) (v_quantity s))"
    and "round_value (ddiv (dmul (v_value s) q) (v_quantity s)) \<le> v_value s"
  using assms share_le [of "v_value s" q "v_quantity s"]
  by (auto simp: position_ok_def in_range_def round_value_nonneg ddiv_nonneg dmul_nonneg)

section \<open>What each operation does\<close>

lemma apply_receipt_ok_iff: "is_ok (apply_receipt s q c) \<longleftrightarrow> 0 < q \<and> 0 \<le> c"
  by (auto simp: apply_receipt_def Let_def)

lemma apply_receiptE:
  assumes "apply_receipt s q c = Inr r"
  obtains "0 < q" and "0 \<le> c" and "value_added r = round_value (dmul q c)"
    and "v_quantity (ro_state r) = v_quantity s + q"
    and "v_value (ro_state r) = v_value s + value_added r"
  using assms by (auto simp: apply_receipt_def Let_def split: if_splits)

lemma apply_receipt_position:
  assumes "apply_receipt s q c = Inr r" and "position_ok s"
  shows "position_ok (ro_state r)" and "0 \<le> value_added r"
proof -
  from assms(1) show "0 \<le> value_added r"
    by (auto elim!: apply_receiptE simp: round_value_nonneg dmul_nonneg)
  with assms show "position_ok (ro_state r)"
    by (auto elim!: apply_receiptE simp: position_ok_def)
qed

lemma apply_issueE:
  assumes "apply_issue s q = Inr r"
  obtains "0 < q" and "q \<le> v_quantity s"
    and "v_quantity (io_state r) = v_quantity s - q"
    and "v_value (io_state r) = v_value s - cost_of_goods_sold r"
    and "cost_of_goods_sold r =
      (if v_quantity s = q then v_value s
       else round_value (ddiv (dmul (v_value s) q) (v_quantity s)))"
  using assms by (auto simp: apply_issue_def Let_def split: if_splits)

lemma apply_issue_position:
  assumes "apply_issue s q = Inr r" and "position_ok s" and "in_range s"
  shows "position_ok (io_state r)" and "in_range (io_state r)"
    and "0 \<le> cost_of_goods_sold r" and "cost_of_goods_sold r \<le> v_value s"
proof -
  from assms(1) have q: "0 < q" "q \<le> v_quantity s" by (auto elim: apply_issueE)
  note b = share_bounds [OF assms(2,3) q]
  from assms(1,2) b show c: "0 \<le> cost_of_goods_sold r" "cost_of_goods_sold r \<le> v_value s"
    by (auto elim!: apply_issueE simp: position_ok_def)
  have "on_grid 4 (cost_of_goods_sold r)"
    using assms(1,2) by (auto elim!: apply_issueE simp: position_ok_def)
  with c assms show "position_ok (io_state r)" and "in_range (io_state r)"
    by (auto elim!: apply_issueE simp: position_ok_def in_range_def)
qed

lemma reverse_receipt_position:
  assumes "reverse_receipt s q c = Inr s'" and "position_ok s" and "in_range s" and "0 < q" and "0 \<le> c"
  shows "position_ok s'" and "in_range s'" and "v_quantity s' = v_quantity s - q"
    and "v_value s' \<le> v_value s"
proof -
  have rem: "q \<le> v_quantity s" and qs: "v_quantity s' = v_quantity s - q"
    using assms(1) by (auto simp: reverse_receipt_def Let_def split: if_splits)
  have sh: "0 \<le> round_value (ddiv (dmul (v_value s) (v_quantity s - q)) (v_quantity s))"
    "round_value (ddiv (dmul (v_value s) (v_quantity s - q)) (v_quantity s)) \<le> v_value s"
    if "q \<noteq> v_quantity s"
    using share_bounds [OF assms(2,3), of "v_quantity s - q"] assms(4) rem that by auto
  have rv: "0 \<le> round_value (dmul q c)"
    using assms(4,5) by (simp add: round_value_nonneg dmul_nonneg)
  show "v_quantity s' = v_quantity s - q" by (rule qs)
  show le: "v_value s' \<le> v_value s"
    using assms(1,2) sh rv
    by (auto simp: reverse_receipt_def Let_def position_ok_def split: if_splits)
  then show "in_range s'" using assms(3) by (simp add: in_range_def)
  show "position_ok s'"
    using assms(1,2) sh rem qs
    by (auto simp: reverse_receipt_def Let_def position_ok_def split: if_splits)
qed

text \<open>The reversal that undoes a receipt exactly, and the branch on which it does not.\<close>

lemma reverse_after_receipt:
  assumes "apply_receipt s q c = Inr r" and "position_ok s" and "v_quantity s = 0 \<or> 0 < v_value s"
  shows "reverse_receipt (ro_state r) q c = Inr s"
  using assms by (auto elim!: apply_receiptE simp: reverse_receipt_def Let_def position_ok_def)

section \<open>Properties\<close>

text \<open>
  C34. Issuing stock conserves value: from any position within the column range, an issue succeeds
  exactly for a positive quantity of at most what is on hand; the cost of goods sold is between zero
  and the value on hand, what leaves the position is exactly what is posted, the position stays
  well formed, and depleting it leaves no residue.
\<close>

theorem issue_conserves_value:
  assumes "position_ok s" and "in_range s"
  shows "(is_ok (apply_issue s q) \<longleftrightarrow> 0 < q \<and> q \<le> v_quantity s) \<and>
    (\<forall>r. apply_issue s q = Inr r \<longrightarrow>
       position_ok (io_state r) \<and>
       v_value s = v_value (io_state r) + cost_of_goods_sold r \<and>
       0 \<le> cost_of_goods_sold r \<and> cost_of_goods_sold r \<le> v_value s \<and>
       (q = v_quantity s \<longrightarrow> io_state r = \<lparr>v_quantity = 0, v_value = 0\<rparr>))"
proof (intro conjI allI impI)
  show "is_ok (apply_issue s q) \<longleftrightarrow> 0 < q \<and> q \<le> v_quantity s"
    by (auto simp: apply_issue_def Let_def)
next
  fix r
  assume r: "apply_issue s q = Inr r"
  note p = apply_issue_position [OF r assms]
  show "position_ok (io_state r)" and "0 \<le> cost_of_goods_sold r" and "cost_of_goods_sold r \<le> v_value s"
    by (fact p)+
  show "v_value s = v_value (io_state r) + cost_of_goods_sold r"
    using r by (auto elim: apply_issueE)
  show "q = v_quantity s \<Longrightarrow> io_state r = \<lparr>v_quantity = 0, v_value = 0\<rparr>"
    using r by (auto simp: apply_issue_def Let_def split: if_splits)
qed

theorem issue_conserves_value_witness:
  "position_ok \<lparr>v_quantity = 175, v_value = 9000\<rparr> \<and>
   cost_of_goods_sold (projr (apply_issue \<lparr>v_quantity = 175, v_value = 9000\<rparr> 100)) = 51428571/10000 \<and>
   v_value (io_state (projr (apply_issue \<lparr>v_quantity = 175, v_value = 9000\<rparr> 100))) =
     9000 - cost_of_goods_sold (projr (apply_issue \<lparr>v_quantity = 175, v_value = 9000\<rparr> 100))"
proof -
  let ?s = "\<lparr>v_quantity = 175, v_value = 9000\<rparr>"
  have ok: "position_ok ?s" "in_range ?s" by code_simp+
  have c: "cost_of_goods_sold (projr (apply_issue ?s 100)) = 51428571/10000" by code_simp
  obtain r where "apply_issue ?s 100 = Inr r"
    using issue_conserves_value [OF ok, of 100] by (auto simp: is_ok_iff)
  then show ?thesis using issue_conserves_value [OF ok, of 100] ok c by simp
qed

text \<open>
  An issue is costed at the average: the cost of goods sold differs from the exact proportional
  share of the value on hand by at most half of the storage unit plus the context's rounding, whatever
  the position.
\<close>

lemma issue_cost_near:
  assumes "position_ok s" and "in_range s" and "apply_issue s q = Inr r"
  shows "\<bar>cost_of_goods_sold r - v_value s * q / v_quantity s\<bar> \<le> 1 / (2 * 10 ^ 4) + 1 / 10 ^ 12"
proof -
  have q: "0 < q" "q \<le> v_quantity s" using assms(3) by (auto elim: apply_issueE)
  show ?thesis
  proof (cases "v_quantity s = q")
    case True
    with q have "v_value s * q / v_quantity s = v_value s" by simp
    with True assms(3) show ?thesis by (auto elim!: apply_issueE)
  next
    case False
    define y where "y = ddiv (dmul (v_value s) q) (v_quantity s)"
    have "cost_of_goods_sold r = quantize_half_up 4 y"
      using assms(3) False by (auto elim!: apply_issueE simp: y_def round_value_def)
    moreover have "\<bar>y - v_value s * q / v_quantity s\<bar> < 1 / 10 ^ 12"
      unfolding y_def using assms q by (intro share_near) (auto simp: position_ok_def in_range_def)
    ultimately show ?thesis using quantize_error [of 4 y] by linarith
  qed
qed

text \<open>
  Reversing a receipt restores the position exactly when nothing intervened, provided the stock
  already there was worth something (or there was none).
\<close>

theorem reverse_receipt_roundtrip:
  assumes "position_ok s" and "v_quantity s = 0 \<or> 0 < v_value s" and "0 < q" and "0 \<le> c"
  shows "\<exists>r. apply_receipt s q c = Inr r \<and> reverse_receipt (ro_state r) q c = Inr s"
proof -
  from assms(3,4) obtain r where r: "apply_receipt s q c = Inr r"
    using apply_receipt_ok_iff [of s q c] by (auto simp: is_ok_iff)
  with reverse_after_receipt [OF r assms(1,2)] show ?thesis by blast
qed

theorem reverse_receipt_roundtrip_witness:
  "\<exists>r. apply_receipt \<lparr>v_quantity = 10, v_value = 40\<rparr> 5 (7/2) = Inr r \<and>
       reverse_receipt (ro_state r) 5 (7/2) = Inr \<lparr>v_quantity = 10, v_value = 40\<rparr>"
proof -
  have "position_ok \<lparr>v_quantity = 10, v_value = 40\<rparr>" by code_simp
  then show ?thesis using reverse_receipt_roundtrip by simp
qed

text \<open>
  Where the stock on hand was carried at zero value, the reversal does not undo the receipt: it
  takes the proportional branch (the guard is \<open>restored_value \<le> 0\<close>) and leaves a positive value
  against stock that cost nothing, although no other movement intervened.
\<close>

theorem reverse_receipt_zero_cost_residue:
  "\<exists>r s'. apply_receipt \<lparr>v_quantity = 10, v_value = 0\<rparr> 10 5 = Inr r \<and>
     reverse_receipt (ro_state r) 10 5 = Inr s' \<and>
     v_quantity s' = 10 \<and> v_value s' = 25 \<and> s' \<noteq> \<lparr>v_quantity = 10, v_value = 0\<rparr>"
proof -
  have "reverse_receipt (ro_state (projr (apply_receipt \<lparr>v_quantity = 10, v_value = 0\<rparr> 10 5))) 10 5 =
      Inr \<lparr>v_quantity = 10, v_value = 25\<rparr>"
    by code_simp
  moreover have "is_ok (apply_receipt \<lparr>v_quantity = 10, v_value = 0\<rparr> 10 5)"
    by (simp add: apply_receipt_ok_iff)
  ultimately show ?thesis by (auto simp: is_ok_iff)
qed

end
