(* ===== verification/Calendar_Dates.thy ===== *)
theory Calendar_Dates
  imports Prelude
begin

text \<open>
  The part of Python's \<^verbatim>\<open>datetime.date\<close> and \<^verbatim>\<open>calendar.monthrange\<close> that the services use. A
  date is its proleptic Gregorian ordinal (\<^verbatim>\<open>date.toordinal()\<close>, 1 is 0001-01-01), so that comparison
  and \<^verbatim>\<open>timedelta(days=n)\<close> are those of the integers; the attributes \<^verbatim>\<open>year\<close>, \<^verbatim>\<open>month\<close> and \<^verbatim>\<open>day\<close> are
  computed as the standard library computes them, and \<^verbatim>\<open>mk_date\<close> is the constructor, which raises
  \<^verbatim>\<open>ValueError\<close> outside the calendar. The lemmas give the correspondence between the two views.
\<close>

type_synonym date = int

section \<open>The Gregorian calendar\<close>

definition is_leap :: "int \<Rightarrow> bool" where
  "is_leap y \<longleftrightarrow> y mod 4 = 0 \<and> (y mod 100 \<noteq> 0 \<or> y mod 400 = 0)"

definition days_before_year :: "int \<Rightarrow> int" where
  "days_before_year y = (y - 1) * 365 + (y - 1) div 4 - (y - 1) div 100 + (y - 1) div 400"

definition days_before_month :: "int \<Rightarrow> int \<Rightarrow> int" where
  "days_before_month y m =
     [0, 31, 59, 90, 120, 151, 181, 212, 243, 273, 304, 334, 365] ! nat (m - 1) +
     (if m > 2 \<and> is_leap y then 1 else 0)"

definition monthrange :: "int \<Rightarrow> int \<Rightarrow> int" where
  "monthrange y m = days_before_month y (m + 1) - days_before_month y m"

definition ymd_ord :: "int \<Rightarrow> int \<Rightarrow> int \<Rightarrow> date" where
  "ymd_ord y m d = days_before_year y + days_before_month y m + d"

definition valid_ymd :: "int \<Rightarrow> int \<Rightarrow> int \<Rightarrow> bool" where
  "valid_ymd y m d \<longleftrightarrow> 1 \<le> y \<and> y \<le> 9999 \<and> 1 \<le> m \<and> m \<le> 12 \<and> 1 \<le> d \<and> d \<le> monthrange y m"

definition mk_date :: "int \<Rightarrow> int \<Rightarrow> int \<Rightarrow> date result" where
  "mk_date y m d = (if valid_ymd y m d then Inr (ymd_ord y m d) else Inl (ValueError ''date out of range''))"

definition ord_year :: "date \<Rightarrow> int" where
  "ord_year n =
     (let n400 = (n - 1) div 146097; r400 = (n - 1) mod 146097;
          n100 = r400 div 36524; r100 = r400 mod 36524;
          n4 = r100 div 1461; r4 = r100 mod 1461;
          n1 = r4 div 365;
          y = n400 * 400 + n100 * 100 + n4 * 4 + n1 + 1
      in if n1 = 4 \<or> n100 = 4 then y - 1 else y)"

definition ord_month :: "date \<Rightarrow> int" where
  "ord_month n =
     (let y = ord_year n; r = n - 1 - days_before_year y
      in int (length (filter (\<lambda>m. days_before_month y m \<le> r) [1, 2, 3, 4, 5, 6, 7, 8, 9, 10, 11, 12])))"

definition ord_day :: "date \<Rightarrow> int" where
  "ord_day n = n - days_before_year (ord_year n) - days_before_month (ord_year n) (ord_month n)"

section \<open>The two views agree\<close>

lemma pred_div:
  fixes y k :: int
  assumes "k > 1"
  shows "y div k = (y - 1) div k + (if y mod k = 0 then 1 else 0)"
proof -
  have y: "y = k * (y div k) + y mod k" by simp
  show ?thesis
  proof (cases "y mod k = 0")
    case True
    then have "(y - 1) div k = y div k - 1"
      using y assms by (intro int_div_pos_eq [of _ _ _ "k - 1"]) (auto simp: algebra_simps)
    with True show ?thesis by simp
  next
    case False
    moreover have "0 \<le> y mod k" "y mod k < k" using assms by auto
    ultimately have "1 \<le> y mod k" "y mod k - 1 < k" by linarith+
    then have "(y - 1) div k = y div k"
      using y by (intro int_div_pos_eq [of _ _ _ "y mod k - 1"]) linarith+
    with False show ?thesis by simp
  qed
qed

lemma year_length:
  "days_before_year (y + 1) = days_before_year y + (if is_leap y then 366 else 365)"
proof -
  have arith: "y * 365 + q4 - q100 + q400 = (y - 1 :: int) * 365 + p4 - p100 + p400 + (if L then 366 else 365)"
    if "q4 = p4 + (if A then 1 else 0)" "q100 = p100 + (if B then 1 else 0)"
      "q400 = p400 + (if C then 1 else 0)" "C \<longrightarrow> B" "B \<longrightarrow> A" "L \<longleftrightarrow> A \<and> (\<not> B \<or> C)"
    for q4 q100 q400 p4 p100 p400 :: int and A B C L
    using that by (cases A; cases B; cases C) simp_all
  have "400 dvd y \<Longrightarrow> 100 dvd y" "100 dvd y \<Longrightarrow> 4 dvd y"
    by (erule dvd_trans [rotated], simp)+
  then have m: "y mod 400 = 0 \<longrightarrow> y mod 100 = 0" "y mod 100 = 0 \<longrightarrow> y mod 4 = 0"
    unfolding dvd_eq_mod_eq_0 by blast+
  show ?thesis
    unfolding days_before_year_def add_diff_cancel_right'
    by (rule arith [OF pred_div pred_div pred_div m is_leap_def]) simp_all
qed

lemma ord_year_bounds:
  "days_before_year (ord_year n) < n \<and> n \<le> days_before_year (ord_year n + 1)"
proof -
  define a r0 b r1 c r2 d r3 where defs:
    "a = (n - 1) div 146097" "r0 = (n - 1) mod 146097" "b = r0 div 36524" "r1 = r0 mod 36524"
    "c = r1 div 1461" "r2 = r1 mod 1461" "d = r2 div 365" "r3 = r2 mod 365"
  have n: "n - 1 = 146097 * a + r0" "r0 = 36524 * b + r1" "r1 = 1461 * c + r2" "r2 = 365 * d + r3"
    unfolding defs by simp_all
  have bnd: "0 \<le> r0" "r0 < 146097" "0 \<le> r1" "r1 < 36524" "0 \<le> r2" "r2 < 1461" "0 \<le> r3" "r3 < 365"
    unfolding defs by simp_all
  from n bnd have q: "0 \<le> b" "b \<le> 4" "0 \<le> c" "c \<le> 24" "0 \<le> d" "d \<le> 4" by linarith+
  have b4: "r1 = 0 \<and> c = 0 \<and> d = 0 \<and> r3 = 0" if "b = 4"
  proof -
    have "r1 = 0" using n(2) bnd that by linarith
    with n(3) q bnd have "c = 0" "r2 = 0" by linarith+
    with n(4) q bnd \<open>r1 = 0\<close> show ?thesis by linarith
  qed
  have d4: "r3 = 0 \<and> c \<le> 23" if "d = 4" using n(3,4) bnd that by linarith
  have dby: "days_before_year (400 * a + 100 * b' + 4 * c' + d' + 1) =
      146097 * a + 36524 * b' + 1461 * c' + 365 * d'"
    if "0 \<le> b'" "b' \<le> 3" "0 \<le> c'" "c' \<le> 24" "0 \<le> d'" "d' \<le> 3" for b' c' d' :: int
  proof -
    let ?y = "400 * a + 100 * b' + 4 * c' + d'"
    have "?y div 4 = 100 * a + 25 * b' + c'" using that by (intro int_div_pos_eq [of _ _ _ d']) auto
    moreover have "?y div 100 = 4 * a + b'" using that by (intro int_div_pos_eq [of _ _ _ "4 * c' + d'"]) auto
    moreover have "?y div 400 = a" using that
      by (intro int_div_pos_eq [of _ _ _ "100 * b' + 4 * c' + d'"]) auto
    ultimately show ?thesis by (simp add: days_before_year_def)
  qed
  have y: "ord_year n = (if d = 4 \<or> b = 4 then 400 * a + 100 * b + 4 * c + d else 400 * a + 100 * b + 4 * c + d + 1)"
    by (simp add: ord_year_def Let_def defs)
  consider "b = 4" | "d = 4" "b \<le> 3" | "d \<le> 3" "b \<le> 3" using b4 q by linarith
  then show ?thesis
  proof cases
    case 1
    then have "ord_year n = 400 * a + 100 * 3 + 4 * 24 + 3 + 1" using y b4 by simp
    moreover have "is_leap (400 * a + 100 * 3 + 4 * 24 + 3 + 1)" by (simp add: is_leap_def)
    ultimately show ?thesis using 1 b4 n dby [of 3 24 3] year_length [of "ord_year n"] by simp
  next
    case 2
    then have yy: "ord_year n = 400 * a + 100 * b + 4 * c + 3 + 1" using y by simp
    let ?y = "400 * a + 100 * b + 4 * c + 3 + 1"
    have "?y mod 4 = 0" by presburger
    moreover have "?y mod 100 = 4 * c + 4"
      using d4 [OF 2(1)] q by (intro int_mod_pos_eq [of _ _ "4 * a + b"]) auto
    ultimately have "is_leap ?y" using q by (simp add: is_leap_def)
    then show ?thesis using 2 yy d4 [OF 2(1)] n q dby [of b c 3] year_length [of "ord_year n"] by simp
  next
    case 3
    then have "ord_year n = 400 * a + 100 * b + 4 * c + d + 1" using y by simp
    then show ?thesis using 3 q n bnd dby [of b c d] year_length [of "ord_year n"] by simp
  qed
qed


lemma days_before_year_mono: "y \<le> z \<Longrightarrow> days_before_year y \<le> days_before_year z"
proof (induction z rule: int_ge_induct)
  case (step z) then show ?case using year_length [of z] by (auto split: if_splits)
qed simp

lemma days_before_year_less: "y < z \<Longrightarrow> days_before_year y + 365 \<le> days_before_year z"
  using days_before_year_mono [of "y + 1" z] year_length [of y] by (auto split: if_splits)

lemma ord_year_unique:
  assumes "days_before_year y < n" and "n \<le> days_before_year (y + 1)"
  shows "ord_year n = y"
  using assms ord_year_bounds [of n] days_before_year_mono [of "y + 1" "ord_year n"]
    days_before_year_mono [of "ord_year n + 1" y] by linarith

lemma month_cases:
  assumes "1 \<le> m" and "m \<le> (12::int)"
  obtains "m = 1" | "m = 2" | "m = 3" | "m = 4" | "m = 5" | "m = 6"
    | "m = 7" | "m = 8" | "m = 9" | "m = 10" | "m = 11" | "m = 12"
proof -
  have "m = 1 \<or> m = 2 \<or> m = 3 \<or> m = 4 \<or> m = 5 \<or> m = 6 \<or> m = 7 \<or> m = 8 \<or> m = 9 \<or> m = 10 \<or>
      m = 11 \<or> m = 12"
    using assms by presburger
  then show thesis using that by blast
qed

lemma days_before_month_vals:
  "days_before_month y 1 = 0" "days_before_month y 2 = 31"
  "days_before_month y 3 = 59 + (if is_leap y then 1 else 0)"
  "days_before_month y 4 = 90 + (if is_leap y then 1 else 0)"
  "days_before_month y 5 = 120 + (if is_leap y then 1 else 0)"
  "days_before_month y 6 = 151 + (if is_leap y then 1 else 0)"
  "days_before_month y 7 = 181 + (if is_leap y then 1 else 0)"
  "days_before_month y 8 = 212 + (if is_leap y then 1 else 0)"
  "days_before_month y 9 = 243 + (if is_leap y then 1 else 0)"
  "days_before_month y 10 = 273 + (if is_leap y then 1 else 0)"
  "days_before_month y 11 = 304 + (if is_leap y then 1 else 0)"
  "days_before_month y 12 = 334 + (if is_leap y then 1 else 0)"
  "days_before_month y 13 = 365 + (if is_leap y then 1 else 0)"
  by (simp_all add: days_before_month_def)

lemma monthrange_vals:
  "monthrange y 1 = 31" "monthrange y 2 = (if is_leap y then 29 else 28)" "monthrange y 3 = 31"
  "monthrange y 4 = 30" "monthrange y 5 = 31" "monthrange y 6 = 30" "monthrange y 7 = 31"
  "monthrange y 8 = 31" "monthrange y 9 = 30" "monthrange y 10 = 31" "monthrange y 11 = 30"
  "monthrange y 12 = 31"
  by (simp_all add: monthrange_def days_before_month_vals)

lemma monthrange_bounds:
  assumes "1 \<le> m" "m \<le> 12" shows "28 \<le> monthrange y m" "monthrange y m \<le> 31"
  using assms by (cases rule: month_cases; simp add: monthrange_vals)+

lemma month_of_rest:
  assumes "1 \<le> m" "m \<le> 12" "days_before_month y m \<le> r" "r < days_before_month y (m + 1)"
  shows "length (filter (\<lambda>k. days_before_month y k \<le> r) [1, 2, 3, 4, 5, 6, 7, 8, 9, 10, 11, 12]) = nat m"
  using assms by (cases rule: month_cases; cases "is_leap y"; simp add: days_before_month_vals)

lemma days_before_month_bounds:
  assumes "1 \<le> m" "m \<le> 12"
  shows "0 \<le> days_before_month y m" "days_before_month y (m + 1) \<le> (if is_leap y then 366 else 365)"
  using assms by (cases rule: month_cases; simp add: days_before_month_vals)+

lemma ymd_ord_year_bounds:
  assumes "1 \<le> m" "m \<le> 12" "1 \<le> d" "d \<le> monthrange y m"
  shows "days_before_year y < ymd_ord y m d \<and> ymd_ord y m d \<le> days_before_year (y + 1)"
  using assms days_before_month_bounds [OF assms(1,2), of y]
  by (auto simp: ymd_ord_def year_length monthrange_def)

text \<open>Constructing a date and reading its attributes back.\<close>

lemma ord_ymd:
  assumes "1 \<le> m" "m \<le> 12" "1 \<le> d" "d \<le> monthrange y m"
  shows "ord_year (ymd_ord y m d) = y" "ord_month (ymd_ord y m d) = m" "ord_day (ymd_ord y m d) = d"
proof -
  show y: "ord_year (ymd_ord y m d) = y"
    using ymd_ord_year_bounds [OF assms] by (intro ord_year_unique) auto
  let ?r = "ymd_ord y m d - 1 - days_before_year y"
  have "?r = days_before_month y m + d - 1" by (simp add: ymd_ord_def)
  then have "length (filter (\<lambda>k. days_before_month y k \<le> ?r) [1, 2, 3, 4, 5, 6, 7, 8, 9, 10, 11, 12]) = nat m"
    using assms by (intro month_of_rest) (auto simp: monthrange_def)
  then show m: "ord_month (ymd_ord y m d) = m"
    unfolding ord_month_def y Let_def using assms(1) by simp
  show "ord_day (ymd_ord y m d) = d" unfolding ord_day_def y m by (simp add: ymd_ord_def)
qed

lemma month_rest_exists:
  assumes "0 \<le> r" "r < (if is_leap y then 366 else 365)"
  obtains m where "1 \<le> m" "m \<le> 12" "days_before_month y m \<le> r" "r < days_before_month y (m + 1)"
proof -
  have step: "\<exists>m. 1 \<le> m \<and> m \<le> k \<and> days_before_month y m \<le> r \<and> r < days_before_month y (m + 1)"
    if "1 \<le> k" "r < days_before_month y (k + 1)" for k
    using that
  proof (induction k rule: int_ge_induct)
    case base
    then show ?case using assms by (intro exI [of _ 1]) (simp add: days_before_month_vals)
  next
    case (step k)
    show ?case
    proof (cases "r < days_before_month y (k + 1)")
      case True
      with step.IH show ?thesis by force
    next
      case False
      with step show ?thesis by (intro exI [of _ "k + 1"]) auto
    qed
  qed
  have "r < days_before_month y (12 + 1)" using assms by (simp add: days_before_month_vals split: if_splits)
  with step [of 12] that show thesis by auto
qed

text \<open>Reading the attributes of a date and constructing it again.\<close>

lemma ymd_ord_of_ord: "ymd_ord (ord_year n) (ord_month n) (ord_day n) = n"
  by (simp add: ymd_ord_def ord_day_def)

lemma ord_month_day_range:
  shows ord_month_ge: "1 \<le> ord_month n" and ord_month_le: "ord_month n \<le> 12"
    and ord_day_ge: "1 \<le> ord_day n" and ord_day_le: "ord_day n \<le> monthrange (ord_year n) (ord_month n)"
proof -
  let ?y = "ord_year n"
  let ?r = "n - 1 - days_before_year ?y"
  have "0 \<le> ?r" "?r < (if is_leap ?y then 366 else 365)"
    using ord_year_bounds [of n] year_length [of ?y] by auto
  then obtain m where m: "1 \<le> m" "m \<le> 12" "days_before_month ?y m \<le> ?r" "?r < days_before_month ?y (m + 1)"
    by (rule month_rest_exists)
  then have eq: "ord_month n = m" using month_of_rest [OF m] by (simp add: ord_month_def Let_def)
  show "1 \<le> ord_month n" "ord_month n \<le> 12" using eq m by simp_all
  show "1 \<le> ord_day n" "ord_day n \<le> monthrange (ord_year n) (ord_month n)"
    using m by (simp_all add: ord_day_def eq monthrange_def)
qed

lemmas ord_ranges = ord_month_ge ord_month_le ord_day_ge ord_day_le

lemma mk_date_ok_iff: "is_ok (mk_date y m d) \<longleftrightarrow> valid_ymd y m d"
  by (simp add: mk_date_def is_ok_def)

lemma mk_date_attrs:
  assumes "mk_date y m d = Inr n"
  shows "ord_year n = y" "ord_month n = m" "ord_day n = d" "n = ymd_ord y m d" "valid_ymd y m d"
  using assms ord_ymd [of m d y] by (auto simp: mk_date_def valid_ymd_def split: if_splits)

lemma ymd_ord_day_shift: "ymd_ord y m d + k = ymd_ord y m (d + k)"
  by (simp add: ymd_ord_def)

text \<open>The day after the last of a month is the first of the next.\<close>

definition next_month :: "int \<Rightarrow> int \<Rightarrow> int \<times> int" where
  "next_month y m = (if m = 12 then (y + 1, 1) else (y, m + 1))"

lemma month_end_succ:
  assumes "1 \<le> m" "m \<le> 12"
  shows "ymd_ord y m (monthrange y m) + 1 = ymd_ord (fst (next_month y m)) (snd (next_month y m)) 1"
  using assms days_before_month_vals(1,13) year_length [of y]
  by (auto simp: next_month_def ymd_ord_def monthrange_def)

end
