(* ===== verification/Periods.thy ===== *)
theory Periods
  imports Decimals Calendar_Dates
begin

text \<open>
  Period arithmetic: \<^verbatim>\<open>app/modules/analytics/periods.py\<close> (the dashboard's windows, the windows they
  are compared against, the monthly buckets of a chart) and
  \<^verbatim>\<open>app/modules/accounting/statement_periods.py\<close> (the dates of a balance sheet). The arithmetic is
  carried out on month indices: \<^verbatim>\<open>first_of k\<close> is the first day of the \<^verbatim>\<open>k\<close>-th month, and the lemmas
  rewrite every operation of the two modules to it. \<^verbatim>\<open>local_date\<close> and \<^verbatim>\<open>local_datetime\<close> read the time
  zone database and are not modelled.
\<close>

section \<open>The model\<close>

definition MAX_ORDINAL :: int where
  "MAX_ORDINAL = 3652059"

text \<open>\<^verbatim>\<open>day + timedelta(days=n)\<close>, which raises outside years 1 to 9999.\<close>

definition shift_days :: "date \<Rightarrow> int \<Rightarrow> date result" where
  "shift_days d n =
     (if 1 \<le> d + n \<and> d + n \<le> MAX_ORDINAL then Inr (d + n)
      else Inl (OverflowError ''date value out of range''))"

datatype period = THIS_MONTH | LAST_MONTH | THIS_QUARTER | THIS_FISCAL_YEAR | LAST_30_DAYS | LAST_12_MONTHS

fun is_to_date :: "period \<Rightarrow> bool" where
  "is_to_date THIS_MONTH = True"
| "is_to_date THIS_QUARTER = True"
| "is_to_date THIS_FISCAL_YEAR = True"
| "is_to_date _ = False"

record date_range =
  range_start :: date
  range_end :: date

definition DateRange :: "date \<Rightarrow> date \<Rightarrow> date_range result" where
  "DateRange s e =
     (if e < s then Inl (ValueError ''end is before start'') else Inr \<lparr>range_start = s, range_end = e\<rparr>)"

definition range_days :: "date_range \<Rightarrow> int" where
  "range_days r = (range_end r - range_start r) + 1"

definition contains :: "date_range \<Rightarrow> date \<Rightarrow> bool" where
  "contains r d \<longleftrightarrow> range_start r \<le> d \<and> d \<le> range_end r"

definition add_months :: "date \<Rightarrow> int \<Rightarrow> date result" where
  "add_months day months =
     (let total = (ord_year day * 12 + ord_month day - 1) + months;
          year = total div 12; month = total mod 12 + 1
      in mk_date year month (min (ord_day day) (monthrange year month)))"

definition month_end :: "date \<Rightarrow> date" where
  "month_end day = ymd_ord (ord_year day) (ord_month day) (monthrange (ord_year day) (ord_month day))"

definition month_start :: "date \<Rightarrow> date" where
  "month_start day = ymd_ord (ord_year day) (ord_month day) 1"

definition fiscal_year_start :: "date \<Rightarrow> int \<Rightarrow> date result" where
  "fiscal_year_start day start_month =
     (if \<not> (1 \<le> start_month \<and> start_month \<le> 12) then Inl (ValueError ''start_month must be 1-12'')
      else let year = (if ord_month day \<ge> start_month then ord_year day else ord_year day - 1)
           in mk_date year start_month 1)"

definition quarter_start :: "date \<Rightarrow> int \<Rightarrow> date result" where
  "quarter_start day fiscal_start_month =
     bindr (fiscal_year_start day fiscal_start_month) (\<lambda>year_start.
       let months_in = (ord_year day - ord_year year_start) * 12 + (ord_month day - ord_month year_start)
       in add_months year_start ((months_in div 3) * 3))"

fun resolve_period :: "period \<Rightarrow> date \<Rightarrow> int \<Rightarrow> date_range result" where
  "resolve_period THIS_MONTH today fm = DateRange (month_start today) today"
| "resolve_period LAST_MONTH today fm =
     bindr (add_months (month_start today) (-1)) (\<lambda>previous. DateRange previous (month_end previous))"
| "resolve_period THIS_QUARTER today fm = bindr (quarter_start today fm) (\<lambda>s. DateRange s today)"
| "resolve_period THIS_FISCAL_YEAR today fm = bindr (fiscal_year_start today fm) (\<lambda>s. DateRange s today)"
| "resolve_period LAST_30_DAYS today fm = bindr (shift_days today (-29)) (\<lambda>s. DateRange s today)"
| "resolve_period LAST_12_MONTHS today fm =
     bindr (add_months today (-11)) (\<lambda>d. DateRange (month_start d) today)"

fun previous_comparable :: "period \<Rightarrow> date_range \<Rightarrow> date_range result" where
  "previous_comparable THIS_MONTH current =
     bindr (add_months (range_start current) (-1)) (\<lambda>start.
     bindr (shift_days start (range_days current - 1)) (\<lambda>same_length.
     DateRange start (min same_length (month_end start))))"
| "previous_comparable THIS_QUARTER current =
     bindr (add_months (range_start current) (-3)) (\<lambda>start.
     bindr (shift_days start (range_days current - 1)) (\<lambda>same_length.
     bindr (add_months start 3) (\<lambda>next.
     bindr (shift_days next (-1)) (\<lambda>quarter_last_day.
     DateRange start (min same_length quarter_last_day)))))"
| "previous_comparable THIS_FISCAL_YEAR current =
     bindr (add_months (range_start current) (-12)) (\<lambda>start.
     bindr (shift_days start (range_days current - 1)) (\<lambda>same_length.
     bindr (add_months start 12) (\<lambda>next.
     bindr (shift_days next (-1)) (\<lambda>year_last_day.
     DateRange start (min same_length year_last_day)))))"
| "previous_comparable LAST_MONTH current =
     bindr (add_months (range_start current) (-1)) (\<lambda>start. DateRange start (month_end start))"
| "previous_comparable LAST_12_MONTHS current =
     bindr (add_months (range_start current) (-12)) (\<lambda>start.
     bindr (add_months (range_start current) (-1)) (\<lambda>e. DateRange start e))"
| "previous_comparable LAST_30_DAYS current =
     bindr (shift_days (range_start current) (-1)) (\<lambda>e.
     bindr (shift_days e (- (range_days current - 1))) (\<lambda>s. DateRange s e))"

definition percent_change :: "decimal \<Rightarrow> decimal \<Rightarrow> decimal option result" where
  "percent_change current previous =
     (if previous \<le> 0 then Inr None
      else bindr (quantize_raising 1 (dmul (ddiv (dadd current (- previous)) previous) 100)) (\<lambda>change. Inr (Some change)))"

text \<open>
  The loop of \<^verbatim>\<open>month_buckets\<close>: the cursor moves to the first of the next month, which is later, so
  the distance to the end of the window decreases.
\<close>

function bucket_loop :: "date_range \<Rightarrow> date \<Rightarrow> date_range list result" where
  "bucket_loop window cursor =
     (if cursor \<le> range_end window then
        let finish = month_end cursor in
        bindr (DateRange (max cursor (range_start window)) (min finish (range_end window))) (\<lambda>bucket.
        case add_months cursor 1 of
          Inl e \<Rightarrow> Inl e
        | Inr d \<Rightarrow> bindr (bucket_loop window (month_start d)) (\<lambda>rest. Inr (bucket # rest)))
      else Inr [])"
  by pat_completeness auto

definition month_buckets :: "date_range \<Rightarrow> date_range list result" where
  "month_buckets window = bucket_loop window (month_start (range_start window))"

datatype statement_period = TO_DATE | STMT_THIS_QUARTER | STMT_LAST_QUARTER
  | STMT_THIS_FISCAL_YEAR | STMT_LAST_FISCAL_YEAR | STMT_CUSTOM

definition quarter_span :: "date \<Rightarrow> int \<Rightarrow> date_range result" where
  "quarter_span day fiscal_start_month =
     bindr (quarter_start day fiscal_start_month) (\<lambda>start.
       let month = ord_month start + 3;
           year = ord_year start + (month - 1) div 12;
           month' = (month - 1) mod 12 + 1
       in bindr (mk_date year month' 1) (\<lambda>next.
          bindr (shift_days next (-1)) (\<lambda>e. DateRange start e)))"

definition fiscal_span :: "date \<Rightarrow> int \<Rightarrow> date_range result" where
  "fiscal_span day fiscal_start_month =
     bindr (fiscal_year_start day fiscal_start_month) (\<lambda>start.
     bindr (mk_date (ord_year start + 1) (ord_month start) 1) (\<lambda>next.
     bindr (shift_days next (-1)) (\<lambda>e. DateRange start e)))"

definition statement_span :: "statement_period \<Rightarrow> date \<Rightarrow> int \<Rightarrow> date_range result" where
  "statement_span period today fm =
     (case period of
        STMT_THIS_QUARTER \<Rightarrow> quarter_span today fm
      | STMT_LAST_QUARTER \<Rightarrow>
          bindr (quarter_span today fm) (\<lambda>this.
          bindr (shift_days (range_start this) (-1)) (\<lambda>d. quarter_span d fm))
      | STMT_THIS_FISCAL_YEAR \<Rightarrow> fiscal_span today fm
      | _ \<Rightarrow>
          bindr (fiscal_span today fm) (\<lambda>this.
          bindr (shift_days (range_start this) (-1)) (\<lambda>d. fiscal_span d fm)))"

definition resolve_statement_period ::
    "statement_period \<Rightarrow> date \<Rightarrow> int \<Rightarrow> (date \<times> date option) result" where
  "resolve_statement_period period today fm =
     (if period = STMT_CUSTOM then Inl (ValueError ''CUSTOM carries no dates of its own'')
      else if period = TO_DATE then Inr (today, None)
      else bindr (statement_span period today fm) (\<lambda>window.
           bindr (shift_days (range_start window) (-1)) (\<lambda>before.
           Inr (min (range_end window) today, Some before))))"

section \<open>Months as indices\<close>

definition month_index :: "date \<Rightarrow> int" where
  "month_index d = ord_year d * 12 + ord_month d - 1"

definition first_of :: "int \<Rightarrow> date" where
  "first_of k = ymd_ord (k div 12) (k mod 12 + 1) 1"

lemma mod12: "1 \<le> k mod 12 + (1::int)" "k mod 12 + (1::int) \<le> 12" for k :: int
  by simp_all

lemma monthrange_ge1: "1 \<le> m \<Longrightarrow> m \<le> 12 \<Longrightarrow> 1 \<le> monthrange y m"
  using monthrange_bounds(1) [of m y] by simp

lemma month_index_ymd:
  fixes y m :: int
  assumes "1 \<le> m" "m \<le> 12"
  shows "(y * 12 + m - 1) div 12 = y" "(y * 12 + m - 1) mod 12 = m - 1"
proof -
  show "(y * 12 + m - 1) div 12 = y"
    using assms by (intro int_div_pos_eq [of _ _ _ "m - 1"]) auto
  show "(y * 12 + m - 1) mod 12 = m - 1"
    using assms by (intro int_mod_pos_eq [of _ _ y]) auto
qed

lemma month_index_div: "month_index d div 12 = ord_year d" "month_index d mod 12 + 1 = ord_month d"
  using month_index_ymd [of "ord_month d" "ord_year d"] by (simp_all add: month_index_def ord_ranges)

lemma first_of_ymd: "1 \<le> m \<Longrightarrow> m \<le> 12 \<Longrightarrow> ymd_ord y m 1 = first_of (y * 12 + m - 1)"
  using month_index_ymd [of m y] by (simp add: first_of_def)

lemma first_of_succ: "first_of (k + 1) = first_of k + monthrange (k div 12) (k mod 12 + 1)"
proof -
  let ?y = "k div 12" and ?m = "k mod 12 + 1"
  have k: "k = ?y * 12 + ?m - 1" by simp
  have "first_of (k + 1) = ymd_ord (fst (next_month ?y ?m)) (snd (next_month ?y ?m)) 1"
  proof (cases "?m = 12")
    case True
    then have "k + 1 = (?y + 1) * 12 + 1 - 1" using div_mult_mod_eq [of k 12] by simp
    then have "first_of (k + 1) = ymd_ord (?y + 1) 1 1" using first_of_ymd [of 1 "?y + 1"] by (simp only:)
    with True show ?thesis by (simp add: next_month_def)
  next
    case False
    then have "k + 1 = ?y * 12 + (?m + 1) - 1" "?m + 1 \<le> 12" using mod12 [of k] by simp_all
    then have "first_of (k + 1) = ymd_ord ?y (?m + 1) 1"
      using first_of_ymd [of "?m + 1" ?y] mod12(1) [of k] by (simp add: add.commute)
    with False show ?thesis by (simp add: next_month_def)
  qed
  also have "\<dots> = ymd_ord ?y ?m (monthrange ?y ?m) + 1"
    using month_end_succ [OF mod12 [of k]] by simp
  finally show ?thesis by (simp add: first_of_def ymd_ord_def)
qed

lemma first_of_step: "first_of k + 28 \<le> first_of (k + 1)" "first_of (k + 1) \<le> first_of k + 31"
  using first_of_succ monthrange_bounds [OF mod12 [of k]] by auto

lemma first_of_mono: "j \<le> k \<Longrightarrow> first_of j + 28 * (k - j) \<le> first_of k"
proof (induction k rule: int_ge_induct)
  case (step k) then show ?case using first_of_step(1) [of k] by (simp add: algebra_simps)
qed simp

lemma first_of_le_iff [simp]: "first_of j \<le> first_of k \<longleftrightarrow> j \<le> k"
  using first_of_mono [of j k] first_of_mono [of k j] by (cases "j \<le> k") auto

lemma first_of_less_iff [simp]: "first_of j < first_of k \<longleftrightarrow> j < k"
  using first_of_le_iff [of k j] by linarith

lemma first_of_upper: "j \<le> k \<Longrightarrow> first_of k \<le> first_of j + 31 * (k - j)"
proof (induction k rule: int_ge_induct)
  case (step k) then show ?case using first_of_step(2) [of k] by (simp add: algebra_simps)
qed simp

lemma month_index_bounds: "first_of (month_index d) \<le> d" "d < first_of (month_index d + 1)"
proof -
  have "first_of (month_index d) = ymd_ord (ord_year d) (ord_month d) 1"
    by (simp add: first_of_def month_index_div)
  moreover have "d = ymd_ord (ord_year d) (ord_month d) 1 + ord_day d - 1"
    using ymd_ord_of_ord [of d] by (simp add: ymd_ord_def)
  ultimately show "first_of (month_index d) \<le> d" "d < first_of (month_index d + 1)"
    unfolding first_of_succ month_index_div using ord_day_ge [of d] ord_day_le [of d] by linarith+
qed

lemma month_index_unique: "first_of k \<le> d \<Longrightarrow> d < first_of (k + 1) \<Longrightarrow> month_index d = k"
  using month_index_bounds [of d] first_of_less_iff [of k "month_index d + 1"]
    first_of_less_iff [of "month_index d" "k + 1"] by linarith

lemma month_index_first_of [simp]: "month_index (first_of k) = k"
  by (rule month_index_unique) simp_all

lemma first_of_attrs [simp]: "ord_day (first_of k) = 1" "ord_year (first_of k) = k div 12"
    "ord_month (first_of k) = k mod 12 + 1"
  unfolding first_of_def
  by (rule ord_ymd [OF mod12], simp, use monthrange_ge1 [OF mod12] in simp)+

lemma month_start_first: "month_start d = first_of (month_index d)"
  by (simp add: month_start_def first_of_def month_index_div)

lemma month_end_first: "month_end d = first_of (month_index d + 1) - 1"
  unfolding month_end_def first_of_succ by (simp add: first_of_def month_index_div ymd_ord_def)

text \<open>The month indices of years 1 to 9999.\<close>

definition month_ok :: "int \<Rightarrow> bool" where
  "month_ok k \<longleftrightarrow> 12 \<le> k \<and> k < 120000"

lemma mk_date_first:
  assumes "1 \<le> m" "m \<le> 12"
  shows "mk_date y m 1 =
    (if month_ok (y * 12 + m - 1) then Inr (first_of (y * 12 + m - 1))
     else Inl (ValueError ''date out of range''))"
proof -
  have "1 \<le> monthrange y m" using monthrange_bounds(1) [OF assms, of y] by simp
  moreover have "month_ok (y * 12 + m - 1) \<longleftrightarrow> 1 \<le> y \<and> y \<le> 9999"
    unfolding month_ok_def using assms by linarith
  ultimately have "valid_ymd y m 1 \<longleftrightarrow> month_ok (y * 12 + m - 1)" using assms by (simp add: valid_ymd_def)
  then show ?thesis using first_of_ymd [OF assms] by (simp add: mk_date_def)
qed

lemma add_months_first:
  "add_months (first_of k) n =
    (if month_ok (k + n) then Inr (first_of (k + n)) else Inl (ValueError ''date out of range''))"
proof -
  have e: "k div 12 * 12 + (k mod 12 + 1) - 1 + n = k + n" by simp
  have "min 1 (monthrange ((k + n) div 12) ((k + n) mod 12 + 1)) = 1"
    using monthrange_ge1 [OF mod12] by (simp add: min_def)
  then show ?thesis
    using mk_date_first [OF mod12 [of "k + n"], of "(k + n) div 12"]
    by (simp add: add_months_def e Let_def)
qed


lemma month_index_mono: "d \<le> e \<Longrightarrow> month_index d \<le> month_index e"
  using month_index_bounds [of d] month_index_bounds [of e]
    first_of_less_iff [of "month_index d" "month_index e + 1"] by linarith

lemma add_months_index:
  assumes "add_months d n = Inr e"
  shows "month_index e = month_index d + n" "month_ok (month_index e)"
proof -
  note e = mk_date_attrs [OF assms [unfolded add_months_def Let_def]]
  have i: "month_index e = month_index d + n"
    by (simp add: month_index_def [of e] e(1,2)) (simp add: month_index_def)
  then show "month_index e = month_index d + n" .
  show "month_ok (month_index e)"
    using e(5) [folded e(1)] ord_month_ge [of e] ord_month_le [of e]
    unfolding month_ok_def month_index_def valid_ymd_def by linarith
qed

termination bucket_loop
proof (relation "measure (\<lambda>(window, cursor). nat (range_end window + 1 - cursor))")
  fix window cursor x bucket d
  assume "cursor \<le> range_end window" "add_months cursor 1 = Inr d"
  moreover from this(2) have "cursor < month_start d"
    using month_index_bounds(2) [of cursor] by (simp add: month_start_first add_months_index(1))
  ultimately show "((window, month_start d), (window, cursor)) \<in> measure (\<lambda>(window, cursor). nat (range_end window + 1 - cursor))"
    by simp
qed simp

declare bucket_loop.simps [simp del]

lemma month_ok_ordinal:
  assumes "month_ok k" shows "1 \<le> first_of k" "first_of k \<le> MAX_ORDINAL"
proof -
  have "first_of 12 = 1" "first_of 120000 = MAX_ORDINAL + 1" by code_simp+
  then show "1 \<le> first_of k" "first_of k \<le> MAX_ORDINAL"
    using assms first_of_le_iff [of 12 k] first_of_less_iff [of k 120000] by (auto simp: month_ok_def)
qed

lemma fiscal_year_start_index:
  assumes "1 \<le> sm" "sm \<le> 12"
  shows "fiscal_year_start day sm =
    (let k = month_index day - (month_index day - (sm - 1)) mod 12 in
     if month_ok k then Inr (first_of k) else Inl (ValueError ''date out of range''))"
proof -
  let ?y = "if ord_month day \<ge> sm then ord_year day else ord_year day - 1"
  have "(month_index day - (sm - 1)) mod 12 = month_index day - (?y * 12 + sm - 1)"
    using assms ord_month_ge [of day] ord_month_le [of day]
    by (intro int_mod_pos_eq [of _ _ ?y]) (auto simp: month_index_def)
  then have "month_index day - (month_index day - (sm - 1)) mod 12 = ?y * 12 + sm - 1" by linarith
  with assms show ?thesis
    by (simp only: fiscal_year_start_def mk_date_first Let_def) simp
qed

lemma quarter_start_index:
  assumes "1 \<le> sm" "sm \<le> 12" "fiscal_year_start day sm = Inr ys"
  shows "quarter_start day sm =
    (let k = month_index day - (month_index day - (sm - 1)) mod 3 in
     if month_ok k then Inr (first_of k) else Inl (ValueError ''date out of range''))"
proof -
  define t where "t = month_index day - (sm - 1)"
  have ys: "ys = first_of (month_index day - t mod 12)"
    using assms by (simp add: fiscal_year_start_index t_def Let_def split: if_splits)
  have "(ord_year day - ord_year ys) * 12 + (ord_month day - ord_month ys) = month_index day - month_index ys"
    by (simp add: month_index_def)
  also have "\<dots> = t mod 12" by (simp add: ys)
  finally have m: "(ord_year day - ord_year ys) * 12 + (ord_month day - ord_month ys) = t mod 12" .
  have "t mod 12 mod 3 = t mod 3" by (simp add: mod_mod_cancel)
  then have "t mod 12 div 3 * 3 = t mod 12 - t mod 3" by (metis minus_mod_eq_div_mult)
  then have "month_index day - t mod 12 + t mod 12 div 3 * 3 = month_index day - t mod 3" by simp
  then show ?thesis
    unfolding quarter_start_def assms(3) bindr_Inr m Let_def
    unfolding ys add_months_first t_def [symmetric] by (simp only:)
qed


lemma DateRange_ok: "s \<le> e \<Longrightarrow> DateRange s e = Inr \<lparr>range_start = s, range_end = e\<rparr>"
  by (simp add: DateRange_def)

lemma DateRange_InrD: "DateRange s e = Inr w \<Longrightarrow> s \<le> e \<and> w = \<lparr>range_start = s, range_end = e\<rparr>"
  by (simp add: DateRange_def split: if_splits)

lemma shift_days_InrD: "shift_days d n = Inr e \<Longrightarrow> e = d + n"
  by (simp add: shift_days_def split: if_splits)

lemmas period_dests = DateRange_InrD shift_days_InrD

section \<open>Buckets tile the span\<close>

lemma bucket_loop_tiles:
  assumes "range_end w < first_of 119999" and "12 \<le> k" and "range_start w < first_of (k + 1)"
    and "range_start w \<le> range_end w"
  shows "\<exists>bs. bucket_loop w (first_of k) = Inr bs \<and>
    concat (map (\<lambda>b. [range_start b..range_end b]) bs) = [max (first_of k) (range_start w)..range_end w] \<and>
    list_all (\<lambda>b. month_index (range_start b) = month_index (range_end b)) bs"
  using assms(2,3)
proof (induction "nat (range_end w + 1 - first_of k)" arbitrary: k rule: less_induct)
  case less
  show ?case
  proof (cases "first_of k \<le> range_end w")
    case False
    then show ?thesis using less.prems by (simp add: bucket_loop.simps)
  next
    case True
    let ?s = "max (first_of k) (range_start w)" and ?e = "min (first_of (k + 1) - 1) (range_end w)"
    have "first_of k < first_of 119999" using True assms(1) by linarith
    then have k1: "month_ok (k + 1)" using less.prems by (simp add: month_ok_def)
    have se: "?s \<le> ?e" using True less.prems assms(4) first_of_less_iff [of k "k + 1"] by auto
    have mi: "month_index x = k" if "?s \<le> x" "x \<le> ?e" for x
      using that by (intro month_index_unique) auto
    have up: "first_of k < first_of (k + 1)" "first_of (k + 1) < first_of (k + 1 + 1)" by simp_all
    have dec: "nat (range_end w + 1 - first_of (k + 1)) < nat (range_end w + 1 - first_of k)"
      using up True by linarith
    have prem: "12 \<le> k + 1" "range_start w < first_of (k + 1 + 1)" using up less.prems by linarith+
    obtain bs where bs: "bucket_loop w (first_of (k + 1)) = Inr bs"
      "concat (map (\<lambda>b. [range_start b..range_end b]) bs) = [max (first_of (k + 1)) (range_start w)..range_end w]"
      "list_all (\<lambda>b. month_index (range_start b) = month_index (range_end b)) bs"
      using less.hyps [OF dec prem] by blast
    have loop: "bucket_loop w (first_of k) = Inr (\<lparr>range_start = ?s, range_end = ?e\<rparr> # bs)"
      using True se bs(1)
      by (subst bucket_loop.simps)
         (simp add: DateRange_ok add_months_first k1 month_start_first month_end_first)
    have "[?s..?e] @ [max (first_of (k + 1)) (range_start w)..range_end w] = [?s..range_end w]"
    proof (cases "first_of (k + 1) - 1 < range_end w")
      case True
      then show ?thesis using less.prems se upto_split2 [of ?s ?e "range_end w"] by (simp add: max_def)
    next
      case False
      then show ?thesis using less.prems by (simp add: max_def)
    qed
    then show ?thesis using loop bs(2,3) mi se by auto
  qed
qed

section \<open>Fiscal spans\<close>

text \<open>
  The quarter (\<^verbatim>\<open>n = 3\<close>) and the year (\<^verbatim>\<open>n = 12\<close>) that contain a month, counted from the fiscal start.
\<close>

definition fiscal_block :: "int \<Rightarrow> int \<Rightarrow> date \<Rightarrow> date_range" where
  "fiscal_block n sm d =
     (let k = month_index d - (month_index d - (sm - 1)) mod n
      in \<lparr>range_start = first_of k, range_end = first_of (k + n) - 1\<rparr>)"

lemma fiscal_block_contains: "n > 0 \<Longrightarrow> contains (fiscal_block n sm d) d"
proof -
  assume "n > 0"
  then have "0 \<le> (month_index d - (sm - 1)) mod n" "(month_index d - (sm - 1)) mod n < n" by simp_all
  then have "first_of (month_index d - (month_index d - (sm - 1)) mod n) \<le> first_of (month_index d)"
    "first_of (month_index d + 1) \<le> first_of (month_index d - (month_index d - (sm - 1)) mod n + n)"
    by simp_all
  then show ?thesis
    unfolding contains_def fiscal_block_def Let_def date_range.simps using month_index_bounds [of d] by linarith
qed

lemma fiscal_block_same:
  assumes "n > 0" "contains (fiscal_block n sm d) e"
  shows "fiscal_block n sm e = fiscal_block n sm d"
proof -
  let ?k = "\<lambda>d. month_index d - (month_index d - (sm - 1)) mod n"
  have "first_of (?k d) < first_of (month_index e + 1)" "first_of (month_index e) < first_of (?k d + n)"
    using assms(2) month_index_bounds [of e] unfolding contains_def fiscal_block_def Let_def date_range.simps
    by linarith+
  then have b: "?k d \<le> month_index e" "month_index e < ?k d + n" by simp_all
  let ?q = "(month_index d - (sm - 1)) div n"
  have kd: "?k d - (sm - 1) = n * ?q" using mult_div_mod_eq [of n "month_index d - (sm - 1)"] by linarith
  have "(month_index e - (sm - 1)) mod n = month_index e - ?k d"
    using b kd by (intro int_mod_pos_eq [of _ _ ?q]) linarith+
  then have "?k e = ?k d" by linarith
  then show ?thesis by (simp add: fiscal_block_def)
qed

abbreviation block_index :: "int \<Rightarrow> int \<Rightarrow> date \<Rightarrow> int" where
  "block_index n sm d \<equiv> month_index d - (month_index d - (sm - 1)) mod n"

lemma mk_date_month_index:
  "mk_date (k div 12) (k mod 12 + 1) 1 =
     (if month_ok k then Inr (first_of k) else Inl (ValueError ''date out of range''))"
  by (simp add: mk_date_first mod12)

lemma shift_back_first: "month_ok k \<Longrightarrow> 12 < k \<Longrightarrow> shift_days (first_of k) (-1) = Inr (first_of k - 1)"
proof -
  assume k: "month_ok k" "12 < k"
  then have "first_of 12 < first_of k" by simp
  moreover have "1 \<le> first_of 12" by (rule month_ok_ordinal) (simp add: month_ok_def)
  ultimately have "1 < first_of k" by linarith
  then show ?thesis using month_ok_ordinal(2) [OF k(1)] by (simp add: shift_days_def)
qed

lemma block_range:
  assumes "n > 0" "month_ok (block_index n sm d)" "month_ok (block_index n sm d + n)"
  shows "shift_days (first_of (block_index n sm d + n)) (-1) = Inr (first_of (block_index n sm d + n) - 1)"
    "DateRange (first_of (block_index n sm d)) (first_of (block_index n sm d + n) - 1) = Inr (fiscal_block n sm d)"
proof -
  have "first_of (block_index n sm d) < first_of (block_index n sm d + n)" using assms(1) by simp
  then show "DateRange (first_of (block_index n sm d)) (first_of (block_index n sm d + n) - 1) = Inr (fiscal_block n sm d)"
    by (simp only: fiscal_block_def Let_def) (intro DateRange_ok, linarith)
  show "shift_days (first_of (block_index n sm d + n)) (-1) = Inr (first_of (block_index n sm d + n) - 1)"
    using assms by (intro shift_back_first) (simp_all add: month_ok_def)
qed

lemma fiscal_span_block:
  assumes "1 \<le> sm" "sm \<le> 12" "month_ok (block_index 12 sm d)" "month_ok (block_index 12 sm d + 12)"
  shows "fiscal_span d sm = Inr (fiscal_block 12 sm d)"
proof -
  let ?k = "block_index 12 sm d"
  have fs: "fiscal_year_start d sm = Inr (first_of ?k)"
    using fiscal_year_start_index [OF assms(1,2), of d] assms(3) by (simp add: Let_def)
  have "mk_date (ord_year (first_of ?k) + 1) (ord_month (first_of ?k)) 1 = Inr (first_of (?k + 12))"
    using mk_date_month_index [of "?k + 12"] assms(4) by simp
  then show ?thesis using block_range [OF _ assms(3,4)] by (simp add: fiscal_span_def fs)
qed

lemma quarter_span_block:
  assumes "1 \<le> sm" "sm \<le> 12" "month_ok (block_index 12 sm d)" "month_ok (block_index 3 sm d)"
    "month_ok (block_index 3 sm d + 3)"
  shows "quarter_span d sm = Inr (fiscal_block 3 sm d)"
proof -
  let ?k = "block_index 3 sm d"
  have "fiscal_year_start d sm = Inr (first_of (block_index 12 sm d))"
    using fiscal_year_start_index [OF assms(1,2), of d] assms(3) by (simp add: Let_def)
  then have qs: "quarter_start d sm = Inr (first_of ?k)"
    using quarter_start_index [OF assms(1,2)] assms(4) by (simp add: Let_def)
  have "k div 12 + (k mod 12 + 3) div 12 = (k + 3) div 12" "(k mod 12 + 3) mod 12 = (k + 3) mod 12" for k :: int
    using div_mult_self1 [of 12 "k mod 12 + 3" "k div 12"] by (simp_all add: mod_simps)
  then have "mk_date (ord_year (first_of ?k) + (ord_month (first_of ?k) + 3 - 1) div 12)
      ((ord_month (first_of ?k) + 3 - 1) mod 12 + 1) 1 = Inr (first_of (?k + 3))"
    using mk_date_month_index [of "?k + 3"] assms(5) by (simp add: add.commute add.left_commute)
  then show ?thesis using block_range [OF _ assms(4,5)]
    by (simp only: quarter_span_def qs Let_def bindr_Inr)
qed

text \<open>Days of years 2 to 9998: every quarter and fiscal year they lie in is within the calendar.\<close>

definition day_ok :: "date \<Rightarrow> bool" where
  "day_ok d \<longleftrightarrow> first_of 24 \<le> d \<and> d < first_of 119988"

lemma block_index_range: "0 < n \<Longrightarrow> month_index d - n < block_index n sm d" "0 < n \<Longrightarrow> block_index n sm d \<le> month_index d"
  by simp_all

lemma day_ok_blocks:
  assumes "day_ok d" "0 < n" "n \<le> 12"
  shows "month_ok (block_index n sm d)" "month_ok (block_index n sm d + n)"
proof -
  have "first_of 24 < first_of (month_index d + 1)" "first_of (month_index d) < first_of 119988"
    using assms(1) month_index_bounds [of d] unfolding day_ok_def by linarith+
  then have "24 \<le> month_index d" "month_index d < 119988" by simp_all
  then show "month_ok (block_index n sm d)" "month_ok (block_index n sm d + n)"
    using block_index_range [of n d sm] assms(2,3) unfolding month_ok_def by linarith+
qed

lemma block_index_pred:
  assumes "0 < n" shows "block_index n sm (first_of (block_index n sm d) - 1) = block_index n sm d - n"
proof -
  let ?k = "block_index n sm d"
  have "first_of (?k - 1) < first_of ?k" by simp
  then have i: "month_index (first_of ?k - 1) = ?k - 1" by (intro month_index_unique) simp_all
  let ?q = "(month_index d - (sm - 1)) div n"
  have "?k - (sm - 1) = n * ?q" using mult_div_mod_eq [of n "month_index d - (sm - 1)"] by linarith
  then have "(?k - 1 - (sm - 1)) mod n = n - 1"
    using assms by (intro int_mod_pos_eq [of _ _ "?q - 1"]) (auto simp: algebra_simps)
  then show ?thesis by (simp add: i)
qed

text \<open>
  What the statement dates rely on: a function that returns the fiscal block of \<^verbatim>\<open>n\<close> months around a day.
  Its laws give the dates of the current and of the previous block.
\<close>

locale fiscal_blocks =
  fixes span_of :: "date \<Rightarrow> int \<Rightarrow> date_range result" and n :: int
  assumes n_range: "0 < n" "n \<le> 12"
    and span_of: "1 \<le> sm \<Longrightarrow> sm \<le> 12 \<Longrightarrow> day_ok d \<Longrightarrow> span_of d sm = Inr (fiscal_block n sm d)"
begin

lemma day_before:
  assumes "day_ok d"
  shows "shift_days (first_of (block_index n sm d)) (-1) = Inr (first_of (block_index n sm d) - 1)"
proof -
  have "first_of 24 < first_of (month_index d + 1)"
    using assms month_index_bounds(2) [of d] unfolding day_ok_def by linarith
  then have "24 \<le> month_index d" by simp
  then have "12 < block_index n sm d" using block_index_range [of n d sm] n_range by linarith
  with day_ok_blocks(1) [OF assms n_range] show ?thesis by (rule shift_back_first)
qed

lemma block_start_le: "range_start (fiscal_block n sm d) \<le> d"
  using fiscal_block_contains [OF n_range(1), of sm d] by (simp add: contains_def)

lemma this_block:
  assumes "1 \<le> sm" "sm \<le> 12" "day_ok d"
  shows "\<exists>w before. span_of d sm = Inr w \<and> shift_days (range_start w) (-1) = Inr before \<and>
     min (range_end w) d = d \<and> before < d \<and> before + 1 = range_start (fiscal_block n sm d) \<and> before = month_end before"
proof (intro exI conjI)
  let ?k = "block_index n sm d"
  show "span_of d sm = Inr (fiscal_block n sm d)" by (rule span_of [OF assms])
  show "shift_days (range_start (fiscal_block n sm d)) (-1) = Inr (first_of ?k - 1)"
    using day_before [OF assms(3)] by (simp add: fiscal_block_def Let_def)
  show "min (range_end (fiscal_block n sm d)) d = d"
    using fiscal_block_contains [OF n_range(1), of sm d] by (simp add: contains_def)
  show "first_of ?k - 1 < d" "first_of ?k - 1 + 1 = range_start (fiscal_block n sm d)"
    using block_start_le [of sm d] by (simp_all add: fiscal_block_def Let_def)
  have "first_of (?k - 1) < first_of ?k" by simp
  then have "month_index (first_of ?k - 1) = ?k - 1" by (intro month_index_unique) simp_all
  then show "first_of ?k - 1 = month_end (first_of ?k - 1)" by (simp add: month_end_first)
qed

lemma last_block:
  assumes "1 \<le> sm" "sm \<le> 12" "first_of 48 \<le> d" "d < first_of 119988"
  shows "\<exists>this e w before. span_of d sm = Inr this \<and> shift_days (range_start this) (-1) = Inr e \<and>
     span_of e sm = Inr w \<and> shift_days (range_start w) (-1) = Inr before \<and>
     min (range_end w) d = e \<and> before < e \<and> e + 1 = range_start (fiscal_block n sm d) \<and>
     before + 1 = first_of (block_index n sm d - n) \<and> before = month_end before"
proof -
  let ?k = "block_index n sm d"
  let ?e = "first_of ?k - 1"
  have ok: "day_ok d"
    unfolding day_ok_def using assms(3,4) first_of_less_iff [of 24 48] by linarith
  have "first_of 48 < first_of (month_index d + 1)" using assms(3) month_index_bounds(2) [of d] by linarith
  then have "48 \<le> month_index d" by simp
  then have "36 < ?k" using block_index_range [of n d sm] n_range by linarith
  then have "first_of 24 < first_of ?k" by simp
  moreover have "first_of ?k \<le> d" using block_start_le [of sm d] by (simp add: fiscal_block_def Let_def)
  ultimately have oke: "day_ok ?e" unfolding day_ok_def using assms(4) by linarith
  have blk: "fiscal_block n sm ?e = \<lparr>range_start = first_of (?k - n), range_end = ?e\<rparr>"
    unfolding fiscal_block_def Let_def block_index_pred [OF n_range(1)] by simp
  have "min (range_end (fiscal_block n sm ?e)) d = ?e" unfolding blk using \<open>first_of ?k \<le> d\<close> by simp
  then show ?thesis
    using this_block [OF assms(1,2) ok] this_block [OF assms(1,2) oke] span_of [OF assms(1,2)] ok oke
      day_before [OF ok, of sm] blk
    by (auto simp: fiscal_block_def Let_def)
qed

lemma partition_block:
  assumes "1 \<le> sm" "sm \<le> 12" "day_ok d"
  shows "\<exists>w. span_of d sm = Inr w \<and> contains w d \<and>
    range_start w = month_start (range_start w) \<and>
    (month_index (range_start w) - (sm - 1)) mod n = 0 \<and>
    range_end w + 1 = first_of (month_index (range_start w) + n) \<and>
    (\<forall>e. contains w e \<and> day_ok e \<longrightarrow> span_of e sm = Inr w)"
proof (intro exI conjI allI impI)
  let ?w = "fiscal_block n sm d"
  show "span_of d sm = Inr ?w" by (rule span_of [OF assms])
  show "contains ?w d" by (rule fiscal_block_contains [OF n_range(1)])
  show "range_start ?w = month_start (range_start ?w)"
    "range_end ?w + 1 = first_of (month_index (range_start ?w) + n)"
    unfolding fiscal_block_def Let_def month_start_first by simp_all
  show "(month_index (range_start ?w) - (sm - 1)) mod n = 0"
    unfolding fiscal_block_def Let_def by (simp add: mod_simps diff_right_commute [of _ _ "sm - 1"])
  show "span_of e sm = Inr ?w" if "contains ?w e \<and> day_ok e" for e
    using span_of [OF assms(1,2), of e] fiscal_block_same [OF n_range(1), of sm d e] that by simp
qed

end

interpretation quarters: fiscal_blocks quarter_span 3
  by unfold_locales (simp_all add: quarter_span_block day_ok_blocks)

interpretation fiscal_years: fiscal_blocks fiscal_span 12
  by unfold_locales (simp_all add: fiscal_span_block day_ok_blocks)

section \<open>Properties\<close>

text \<open>
  C38. The bars of a monthly chart add up to the headline: for every range that ends before December
  9999, \<^verbatim>\<open>month_buckets\<close> returns ranges whose days, in order, are exactly the days of the range, each
  day once, and each bucket lies within one calendar month.
\<close>

theorem month_buckets_tile:
  assumes "1 \<le> range_start w" and "range_start w \<le> range_end w" and "range_end w < first_of 119999"
  shows "\<exists>bs. month_buckets w = Inr bs \<and>
    concat (map (\<lambda>b. [range_start b..range_end b]) bs) = [range_start w..range_end w] \<and>
    list_all (\<lambda>b. month_index (range_start b) = month_index (range_end b)) bs"
proof -
  let ?k = "month_index (range_start w)"
  have "first_of 12 = 1" by code_simp
  then have "12 \<le> ?k" using month_index_mono [of 1 "range_start w"] assms(1) month_index_first_of [of 12] by simp
  then show ?thesis
    using bucket_loop_tiles [OF assms(3) _ month_index_bounds(2) assms(2)] month_index_bounds(1) [of "range_start w"]
    by (simp add: month_buckets_def month_start_first max_absorb2)
qed

text \<open>The range 28 February to 2 April 2024: three buckets, with the leap day in the first.\<close>

theorem month_buckets_tile_witness:
  "\<exists>bs. month_buckets \<lparr>range_start = 738944, range_end = 738978\<rparr> = Inr bs \<and>
    concat (map (\<lambda>b. [range_start b..range_end b]) bs) = [738944..738978] \<and>
    list_all (\<lambda>b. month_index (range_start b) = month_index (range_end b)) bs"
proof -
  have "first_of 119999 = 3652029" by code_simp
  then show ?thesis
    using month_buckets_tile [of "\<lparr>range_start = 738944, range_end = 738978\<rparr>"] by simp
qed


text \<open>
  The fiscal quarters and years partition the calendar. For every day of years 2 to 9998 and every
  start month, \<^verbatim>\<open>_quarter_span\<close> returns a range that contains the day, starts on the first of a month a
  multiple of three months from the fiscal start and is three whole months long; asking for any other
  day of that range returns the same range.
\<close>

theorem quarter_spans_partition:
  assumes "1 \<le> sm" and "sm \<le> 12" and "day_ok d"
  shows "\<exists>w. quarter_span d sm = Inr w \<and> contains w d \<and>
    range_start w = month_start (range_start w) \<and>
    (month_index (range_start w) - (sm - 1)) mod 3 = 0 \<and>
    range_end w + 1 = first_of (month_index (range_start w) + 3) \<and>
    (\<forall>e. contains w e \<and> day_ok e \<longrightarrow> quarter_span e sm = Inr w)"
  by (rule quarters.partition_block [OF assms])

text \<open>15 February 2026 with an April start.\<close>

lemma day_ok_2026: "day_ok 739662"
proof -
  have "first_of 24 = 366" "first_of 119988 = 3651695" by code_simp+
  then show ?thesis by (simp add: day_ok_def)
qed

theorem quarter_spans_partition_witness:
  "\<exists>w. quarter_span 739662 4 = Inr w \<and> contains w 739662 \<and>
    range_start w = month_start (range_start w) \<and>
    (month_index (range_start w) - (4 - 1)) mod 3 = 0 \<and>
    range_end w + 1 = first_of (month_index (range_start w) + 3) \<and>
    (\<forall>e. contains w e \<and> day_ok e \<longrightarrow> quarter_span e 4 = Inr w)"
  by (rule quarter_spans_partition [OF _ _ day_ok_2026]) simp_all

text \<open>
  The dates of a balance sheet. For every named window and every day of years 4 to 9998 the dates
  are found: the statement is never dated in the future, its comparative is dated strictly earlier,
  and it is the last day before the window opens. The last-quarter and last-year statements are dated
  the day before the current quarter or year opens.
\<close>

theorem statement_period_dates:
  assumes "1 \<le> sm" and "sm \<le> 12" and "first_of 48 \<le> today" and "today < first_of 119988"
    and "p \<noteq> STMT_CUSTOM"
  shows "\<exists>as_of cmp. resolve_statement_period p today sm = Inr (as_of, cmp) \<and> as_of \<le> today \<and>
    (case cmp of
       None \<Rightarrow> p = TO_DATE \<and> as_of = today
     | Some c \<Rightarrow> c < as_of \<and> c = month_end c \<and>
         (p = STMT_THIS_QUARTER \<longrightarrow> as_of = today \<and> c + 1 = range_start (fiscal_block 3 sm today)) \<and>
         (p = STMT_THIS_FISCAL_YEAR \<longrightarrow> as_of = today \<and> c + 1 = range_start (fiscal_block 12 sm today)) \<and>
         (p = STMT_LAST_QUARTER \<longrightarrow> as_of + 1 = range_start (fiscal_block 3 sm today) \<and>
            c + 1 = first_of (block_index 3 sm today - 3)) \<and>
         (p = STMT_LAST_FISCAL_YEAR \<longrightarrow> as_of + 1 = range_start (fiscal_block 12 sm today) \<and>
            c + 1 = first_of (block_index 12 sm today - 12)))"
proof -
  have ok: "day_ok today"
    unfolding day_ok_def using assms(3,4) first_of_less_iff [of 24 48] by linarith
  note laws = quarters.this_block [OF assms(1,2) ok] quarters.last_block [OF assms(1-4)]
    fiscal_years.this_block [OF assms(1,2) ok] fiscal_years.last_block [OF assms(1-4)]
  show ?thesis
  proof (cases p)
    case TO_DATE then show ?thesis by (simp add: resolve_statement_period_def)
  next
    case STMT_THIS_QUARTER
    with laws(1) show ?thesis by (auto simp: resolve_statement_period_def statement_span_def)
  next
    case STMT_LAST_QUARTER
    with laws(2) month_index_bounds show ?thesis
      by (auto simp: resolve_statement_period_def statement_span_def)
  next
    case STMT_THIS_FISCAL_YEAR
    with laws(3) show ?thesis by (auto simp: resolve_statement_period_def statement_span_def)
  next
    case STMT_LAST_FISCAL_YEAR
    with laws(4) show ?thesis by (auto simp: resolve_statement_period_def statement_span_def)
  qed (use assms(5) in simp)
qed


theorem statement_period_dates_witness:
  "\<exists>as_of cmp. resolve_statement_period STMT_LAST_QUARTER 739662 4 = Inr (as_of, cmp) \<and> as_of \<le> 739662"
proof -
  have f: "first_of 48 = 1096" "first_of 119988 = 3651695" by code_simp+
  have "\<exists>as_of cmp. resolve_statement_period STMT_LAST_QUARTER 739662 4 = Inr (as_of, cmp) \<and> as_of \<le> 739662 \<and>
    (case cmp of None \<Rightarrow> STMT_LAST_QUARTER = TO_DATE \<and> as_of = 739662 | Some c \<Rightarrow> c < as_of)"
    using statement_period_dates [of 4 739662 STMT_LAST_QUARTER] unfolding f
    by (fastforce split: option.splits)
  then show ?thesis by blast
qed

text \<open>
  To-date figures are compared like with like. For a running window that opened on the first of a
  month (as \<^verbatim>\<open>resolve_period\<close> opens them) and is no longer than its period, the window
  \<^verbatim>\<open>previous_comparable\<close> returns opens one, three or twelve months earlier, ends before the current one
  opens, is never longer than the current one, and is shorter only when it already reaches the last day
  before the current window opens.
\<close>

definition period_months :: "period \<Rightarrow> int" where
  "period_months p = (case p of THIS_MONTH \<Rightarrow> 1 | THIS_QUARTER \<Rightarrow> 3 | _ \<Rightarrow> 12)"

theorem previous_comparable_to_date:
  assumes "is_to_date p" and "range_start c = first_of k" and "24 \<le> k" and "k < 119988"
    and "range_start c \<le> range_end c" and "range_end c < first_of (k + period_months p)"
  shows "\<exists>w. previous_comparable p c = Inr w \<and> range_start w = first_of (k - period_months p) \<and>
    range_end w < range_start c \<and> range_days w \<le> range_days c \<and>
    (range_days w < range_days c \<longrightarrow> range_end w + 1 = range_start c)"
proof -
  let ?n = "period_months p"
  let ?s = "first_of (k - ?n)"
  have n: "1 \<le> ?n" "?n \<le> 12" using assms(1) by (cases p; simp add: period_months_def)+
  have ok: "month_ok (k - ?n)" "month_ok k" using n assms(3,4) by (simp_all add: month_ok_def)
  have d: "range_days c = range_end c - first_of k + 1" by (simp add: range_days_def assms(2))
  have lt: "?s < first_of k" using n by simp
  have top: "?s + range_days c - 1 \<le> MAX_ORDINAL"
  proof -
    have "first_of (k + ?n) \<le> first_of 119999" using n assms(4) by simp
    moreover have "first_of 119999 \<le> MAX_ORDINAL" by (rule month_ok_ordinal) (simp add: month_ok_def)
    ultimately show ?thesis using lt assms(6) unfolding d by linarith
  qed
  have sd: "shift_days ?s (range_days c - 1) = Inr (?s + range_days c - 1)"
    using top month_ok_ordinal(1) [OF ok(1)] assms(2,5) by (simp add: shift_days_def d)
  have pr: "previous_comparable p c = DateRange ?s (min (?s + range_days c - 1) (first_of k - 1))"
    using assms(1) ok sd shift_back_first [OF ok(2)] assms(2,3)
    by (cases p) (simp_all add: period_months_def add_months_first month_end_first)
  have "?s \<le> min (?s + range_days c - 1) (first_of k - 1)" using lt assms(2,5) unfolding d by linarith
  then have "previous_comparable p c =
      Inr \<lparr>range_start = ?s, range_end = min (?s + range_days c - 1) (first_of k - 1)\<rparr>"
    unfolding pr by (rule DateRange_ok)
  then show ?thesis using assms(2) by (auto simp: range_days_def)
qed

text \<open>The first 15 days of March 2024 against the first 15 of February.\<close>

theorem previous_comparable_to_date_witness:
  "\<exists>w. previous_comparable THIS_MONTH \<lparr>range_start = first_of 24290, range_end = first_of 24290 + 14\<rparr> = Inr w \<and>
    range_start w = first_of 24289"
proof -
  have "first_of 24290 + 28 \<le> first_of (24290 + 1)" by (rule first_of_step)
  then show ?thesis
    using previous_comparable_to_date
      [of THIS_MONTH "\<lparr>range_start = first_of 24290, range_end = first_of 24290 + 14\<rparr>" 24290]
    by (auto simp: period_months_def)
qed

text \<open>
  The twelve-month comparison leaves a month out. For \<^verbatim>\<open>LAST_12_MONTHS\<close> the window compared
  against ends on the first day of its last month instead of the last: between it and the current
  window lie at least 27 days that belong to neither, for every day on which both are defined.
\<close>

theorem last_12_months_gap:
  assumes "resolve_period LAST_12_MONTHS today fm = Inr c" and "previous_comparable LAST_12_MONTHS c = Inr w"
  shows "range_start w = first_of (month_index today - 23) \<and> range_end w = first_of (month_index today - 12) \<and>
    range_start c = first_of (month_index today - 11) \<and> range_start c - range_end w \<ge> 28"
proof -
  from assms(1) obtain d where d: "add_months today (-11) = Inr d" "c = \<lparr>range_start = month_start d, range_end = today\<rparr>"
    by (auto simp: bindr_eq_Inr_iff dest!: DateRange_InrD)
  have s: "range_start c = first_of (month_index today - 11)"
    using d(2) add_months_index(1) [OF d(1)] by (simp add: month_start_first)
  with assms(2) have "range_start w = first_of (month_index today - 11 - 12) \<and>
      range_end w = first_of (month_index today - 11 - 1)"
    by (auto simp: bindr_eq_Inr_iff add_months_first dest!: DateRange_InrD split: if_splits)
  then show ?thesis using s first_of_step(1) [of "month_index today - 12"] by simp
qed

theorem last_12_months_gap_witness:
  "\<exists>c w. resolve_period LAST_12_MONTHS (first_of 24290) 4 = Inr c \<and> previous_comparable LAST_12_MONTHS c = Inr w \<and>
     range_start c - range_end w \<ge> 28"
proof -
  let ?c = "\<lparr>range_start = first_of 24279, range_end = first_of 24290\<rparr>"
  let ?w = "\<lparr>range_start = first_of 24267, range_end = first_of 24278\<rparr>"
  have c: "resolve_period LAST_12_MONTHS (first_of 24290) 4 = Inr ?c"
    by (simp add: add_months_first month_ok_def month_start_first DateRange_ok)
  have w: "previous_comparable LAST_12_MONTHS ?c = Inr ?w"
    by (simp add: add_months_first month_ok_def DateRange_ok)
  from last_12_months_gap [OF c w] show ?thesis using c w by blast
qed

end
