(* ===== verification/Accounting_Models.thy ===== *)
theory Accounting_Models
  imports Decimals Calendar_Dates
begin

text \<open>
  The data model of the double-entry ledger, \<^verbatim>\<open>app/modules/accounting/models.py\<close>: its enumerations with
  their derived properties, one record per table, the state of the database as a record of tables, and
  the \<^verbatim>\<open>CHECK\<close> and \<^verbatim>\<open>UNIQUE\<close> constraints PostgreSQL enforces when a row is flushed. Money is exact
  (\<^verbatim>\<open>Decimal\<close>), dates are ordinals, instants are integers (microseconds), UUIDs are integers handed out
  in increasing order, as UUIDv7 keys are. The subscribers of \<^verbatim>\<open>accounting/hooks.py\<close> keep tables of
  their own, which the ledger never reads: they are the field \<^verbatim>\<open>hook_state\<close>, of any type.
\<close>

type_synonym uuid = int
type_synonym instant = int

section \<open>Enumerations\<close>

datatype account_type = ASSET | LIABILITY | EQUITY | INCOME | EXPENSE

datatype balance_side = DEBIT | CREDIT

definition normal_balance :: "account_type \<Rightarrow> balance_side" where
  "normal_balance t = (if t = ASSET \<or> t = EXPENSE then DEBIT else CREDIT)"

definition is_balance_sheet :: "account_type \<Rightarrow> bool" where
  "is_balance_sheet t \<longleftrightarrow> t = ASSET \<or> t = LIABILITY \<or> t = EQUITY"

definition is_profit_and_loss :: "account_type \<Rightarrow> bool" where
  "is_profit_and_loss t \<longleftrightarrow> t = INCOME \<or> t = EXPENSE"

datatype account_subtype =
    SUB_CASH | SUB_BANK | ACCOUNTS_RECEIVABLE | INVENTORY | OTHER_CURRENT_ASSET | FIXED_ASSET
  | ACCUMULATED_DEPRECIATION | OTHER_ASSET
  | ACCOUNTS_PAYABLE | TAX_PAYABLE | OTHER_CURRENT_LIABILITY | LONG_TERM_LIABILITY
  | CAPITAL | DRAWINGS | RETAINED_EARNINGS
  | OPERATING_REVENUE | OTHER_INCOME
  | COST_OF_GOODS_SOLD | OPERATING_EXPENSE | PAYROLL_EXPENSE | DEPRECIATION_EXPENSE | TAX_EXPENSE
  | OTHER_EXPENSE

definition is_current_asset :: "account_subtype \<Rightarrow> bool" where
  "is_current_asset s \<longleftrightarrow> s \<in> set [SUB_CASH, SUB_BANK, ACCOUNTS_RECEIVABLE, INVENTORY, OTHER_CURRENT_ASSET]"

definition is_current_liability :: "account_subtype \<Rightarrow> bool" where
  "is_current_liability s \<longleftrightarrow> s \<in> set [ACCOUNTS_PAYABLE, TAX_PAYABLE, OTHER_CURRENT_LIABILITY]"

definition is_cash_equivalent :: "account_subtype \<Rightarrow> bool" where
  "is_cash_equivalent s \<longleftrightarrow> s \<in> set [SUB_CASH, SUB_BANK]"

datatype journal_type = GENERAL | SALES | PURCHASE | CASH | BANK | OPENING

datatype entry_status = DRAFT | POSTED | REVERSED

datatype period_status = OPEN | CLOSED | LOCKED

datatype audit_action = ACCOUNT_CREATED | ACCOUNT_UPDATED | ACCOUNT_DELETED
  | FISCAL_YEAR_CREATED | PERIOD_CLOSED | PERIOD_REOPENED
  | JOURNAL_ENTRY_CREATED | JOURNAL_ENTRY_POSTED | JOURNAL_ENTRY_REVERSED | JOURNAL_ENTRY_DELETED
  | SUPPLIER_CREATED | SUPPLIER_UPDATED | PRODUCT_CREATED | PRODUCT_UPDATED | WAREHOUSE_CREATED
  | PURCHASE_ORDER_CREATED | PURCHASE_ORDER_APPROVED | PURCHASE_ORDER_CANCELLED
  | GOODS_RECEIPT_CREATED | GOODS_RECEIPT_POSTED | GOODS_RECEIPT_CANCELLED
  | BILL_CREATED | BILL_POSTED | BILL_CANCELLED | SUPPLIER_PAYMENT_MADE | SUPPLIER_PAYMENT_ALLOCATED
  | STOCK_ADJUSTED | STOCK_TRANSFERRED
  | CUSTOMER_CREATED | CUSTOMER_UPDATED | CUSTOMER_DELETED | LEAD_CREATED | LEAD_UPDATED | LEAD_CONVERTED
  | QUOTATION_CREATED | QUOTATION_SENT | QUOTATION_ACCEPTED | QUOTATION_REJECTED | QUOTATION_CONVERTED
  | SALES_ORDER_CREATED | SALES_ORDER_CONFIRMED | SALES_ORDER_CANCELLED
  | INVOICE_CREATED | INVOICE_POSTED | INVOICE_CANCELLED | INVOICE_DELETED | PAYMENT_RECEIVED | PAYMENT_ALLOCATED

datatype audit_severity = INFO | WARNING | CRITICAL

section \<open>Rows\<close>

record account =
  a_id :: uuid
  a_org :: uuid
  a_code :: string
  a_name :: string
  a_description :: "string option"
  a_type :: account_type
  a_subtype :: account_subtype
  a_parent :: "uuid option"
  a_group :: bool
  a_depth :: int
  a_active :: bool
  a_system :: bool
  a_key :: "string option"
  a_reconcilable :: bool
  a_deleted :: "instant option"

definition is_postable :: "account \<Rightarrow> bool" where
  "is_postable a \<longleftrightarrow> \<not> a_group a \<and> a_active a \<and> a_deleted a = None"

definition signed_balance :: "account_type \<Rightarrow> decimal \<Rightarrow> decimal \<Rightarrow> decimal" where
  "signed_balance t total_debit total_credit =
     (if normal_balance t = DEBIT then total_debit - total_credit else total_credit - total_debit)"

record fiscal_year =
  fy_id :: uuid
  fy_org :: uuid
  fy_name :: string
  fy_start :: date
  fy_end :: date
  fy_status :: period_status
  fy_closed_at :: "instant option"

record accounting_period =
  p_id :: uuid
  p_org :: uuid
  p_year :: uuid
  p_name :: string
  p_start :: date
  p_end :: date
  p_status :: period_status
  p_closed_at :: "instant option"
  p_closed_by :: "uuid option"

definition accepts_postings :: "accounting_period \<Rightarrow> bool" where
  "accepts_postings p \<longleftrightarrow> p_status p = OPEN"

record journal =
  j_id :: uuid
  j_org :: uuid
  j_code :: string
  j_name :: string
  j_type :: journal_type
  j_prefix :: string
  j_default :: "uuid option"
  j_active :: bool
  j_system :: bool

record number_sequence =
  s_id :: uuid
  s_org :: uuid
  s_scope :: string
  s_prefix :: string
  s_next :: int
  s_padding :: nat

record entry_line =
  l_number :: int
  l_account :: uuid
  l_debit :: decimal
  l_credit :: decimal
  l_description :: "string option"

record journal_entry =
  e_id :: uuid
  e_org :: uuid
  e_journal :: uuid
  e_period :: uuid
  e_number :: "string option"
  e_date :: date
  e_narration :: string
  e_reference :: "string option"
  e_counterparty :: "string option"
  e_status :: entry_status
  e_total_debit :: decimal
  e_total_credit :: decimal
  e_currency :: string
  e_posted_at :: "instant option"
  e_posted_by :: "uuid option"
  e_created_by :: "uuid option"
  e_reversed_at :: "instant option"
  e_reverses :: "uuid option"
  e_source_type :: "string option"
  e_source_id :: "uuid option"
  e_lines :: "entry_line list"

definition is_posted :: "journal_entry \<Rightarrow> bool" where
  "is_posted e \<longleftrightarrow> e_status e = POSTED \<or> e_status e = REVERSED"

definition is_editable :: "journal_entry \<Rightarrow> bool" where
  "is_editable e \<longleftrightarrow> e_status e = DRAFT"

definition is_balanced :: "journal_entry \<Rightarrow> bool" where
  "is_balanced e \<longleftrightarrow> e_total_debit e = e_total_credit e \<and> e_total_debit e > 0"

record audit_row =
  au_action :: audit_action
  au_severity :: audit_severity
  au_actor :: uuid
  au_org :: uuid
  au_resource_type :: string
  au_resource_id :: uuid

record 'h db =
  accounts :: "account list"
  years :: "fiscal_year list"
  periods :: "accounting_period list"
  journals :: "journal list"
  sequences :: "number_sequence list"
  entries :: "journal_entry list"
  audit_log :: "audit_row list"
  next_id :: uuid
  hook_state :: 'h

definition empty_db :: "'h \<Rightarrow> 'h db" where
  "empty_db h = \<lparr>accounts = [], years = [], periods = [], journals = [], sequences = [], entries = [],
     audit_log = [], next_id = 1, hook_state = h\<rparr>"

section \<open>Constraints\<close>

text \<open>A \<^verbatim>\<open>NUMERIC(18, 4)\<close> column: at most four decimal places, at most fourteen digits before the point.\<close>

definition money_ok :: "decimal \<Rightarrow> bool" where
  "money_ok x \<longleftrightarrow> on_grid 4 x \<and> \<bar>x\<bar> < 10 ^ 14"

definition line_checks :: "entry_line \<Rightarrow> unit result" where
  "line_checks l =
     bindr (raise_if (\<not> (l_debit l \<ge> 0 \<and> l_credit l \<ge> 0)) (IntegrityError ''amounts_non_negative'')) (\<lambda>_.
     raise_if (\<not> ((l_debit l > 0 \<and> l_credit l = 0) \<or> (l_credit l > 0 \<and> l_debit l = 0)))
       (IntegrityError ''single_sided''))"

definition entry_checks :: "'h db \<Rightarrow> journal_entry \<Rightarrow> unit result" where
  "entry_checks st e =
     bindr (raise_if (e_total_debit e \<noteq> e_total_credit e) (IntegrityError ''balanced'')) (\<lambda>_.
     bindr (raise_if (\<not> (e_total_debit e \<ge> 0 \<and> e_total_credit e \<ge> 0)) (IntegrityError ''totals_non_negative'')) (\<lambda>_.
     bindr (raise_if (\<not> (e_status e = DRAFT \<or> (e_number e \<noteq> None \<and> e_posted_at e \<noteq> None)))
       (IntegrityError ''posted_has_number'')) (\<lambda>_.
     bindr (raise_if (\<not> \<bar>e_total_debit e\<bar> < 10 ^ 14) (IntegrityError ''numeric field overflow'')) (\<lambda>_.
     bindr (raise_if (e_number e \<noteq> None \<and>
         (\<exists>x \<in> set (entries st). e_org x = e_org e \<and> e_number x = e_number e \<and> e_id x \<noteq> e_id e))
       (IntegrityError ''uq_entry_org_number'')) (\<lambda>_.
     each line_checks (e_lines e))))))"

definition account_checks :: "'h db \<Rightarrow> account \<Rightarrow> unit result" where
  "account_checks st a =
     bindr (raise_if (\<exists>x \<in> set (accounts st). a_org x = a_org a \<and> a_code x = a_code a \<and> a_id x \<noteq> a_id a)
       (IntegrityError ''uq_account_org_code'')) (\<lambda>_.
     raise_if (a_key a \<noteq> None \<and>
         (\<exists>x \<in> set (accounts st). a_org x = a_org a \<and> a_key x = a_key a \<and> a_id x \<noteq> a_id a))
       (IntegrityError ''uq_account_org_system_key''))"

definition year_checks :: "'h db \<Rightarrow> fiscal_year \<Rightarrow> unit result" where
  "year_checks st y =
     bindr (raise_if (\<exists>x \<in> set (years st). fy_org x = fy_org y \<and> fy_name x = fy_name y \<and> fy_id x \<noteq> fy_id y)
       (IntegrityError ''uq_fiscal_year_org_name'')) (\<lambda>_.
     raise_if (\<not> fy_end y > fy_start y) (IntegrityError ''dates_ordered''))"

definition period_checks :: "'h db \<Rightarrow> accounting_period \<Rightarrow> unit result" where
  "period_checks st p =
     bindr (raise_if (\<exists>x \<in> set (periods st). p_year x = p_year p \<and> p_name x = p_name p \<and> p_id x \<noteq> p_id p)
       (IntegrityError ''uq_period_year_name'')) (\<lambda>_.
     raise_if (\<not> p_end p \<ge> p_start p) (IntegrityError ''dates_ordered''))"

definition journal_checks :: "'h db \<Rightarrow> journal \<Rightarrow> unit result" where
  "journal_checks st j =
     raise_if (\<exists>x \<in> set (journals st). j_org x = j_org j \<and> j_code x = j_code j \<and> j_id x \<noteq> j_id j)
       (IntegrityError ''uq_journal_org_code'')"

definition audit_record ::
    "'h db \<Rightarrow> audit_action \<Rightarrow> audit_severity \<Rightarrow> uuid \<Rightarrow> uuid \<Rightarrow> string \<Rightarrow> uuid \<Rightarrow> 'h db" where
  "audit_record st action severity actor org resource_type resource_id =
     st\<lparr>audit_log := audit_log st @
       [\<lparr>au_action = action, au_severity = severity, au_actor = actor, au_org = org,
         au_resource_type = resource_type, au_resource_id = resource_id\<rparr>]\<rparr>"

section \<open>Text\<close>

function digits :: "int \<Rightarrow> string" where
  "digits n = (if n < 10 then [char_of (48 + nat n)] else digits (n div 10) @ [char_of (48 + nat (n mod 10))])"
  by pat_completeness auto

termination digits
  by (relation "measure nat") auto

definition show_int :: "int \<Rightarrow> string" where
  "show_int n = (if n < 0 then ''-'' @ digits (- n) else digits n)"

text \<open>Python's \<^verbatim>\<open>f"{value:0{padding}d}"\<close> for a value that is not negative.\<close>

definition zero_pad :: "nat \<Rightarrow> string \<Rightarrow> string" where
  "zero_pad w s = replicate (w - length s) CHR ''0'' @ s"

fun nibbles :: "nat \<Rightarrow> int \<Rightarrow> string" where
  "nibbles 0 n = []"
| "nibbles (Suc k) n = nibbles k (n div 16) @ [''0123456789abcdef'' ! nat (n mod 16)]"

text \<open>\<^verbatim>\<open>str(uuid)\<close>: 32 hexadecimal digits in groups of 8, 4, 4, 4 and 12.\<close>

definition uuid_str :: "uuid \<Rightarrow> string" where
  "uuid_str u = (let h = nibbles 32 u in
     take 8 h @ ''-'' @ take 4 (drop 8 h) @ ''-'' @ take 4 (drop 12 h) @ ''-'' @
     take 4 (drop 16 h) @ ''-'' @ drop 20 h)"

definition sequence_format :: "number_sequence \<Rightarrow> int \<Rightarrow> string" where
  "sequence_format s value =
     (if s_prefix s \<noteq> [] then s_prefix s @ zero_pad (s_padding s) (digits value)
      else zero_pad (s_padding s) (digits value))"

section \<open>Formatted numbers can be read back\<close>

definition digit_val :: "char \<Rightarrow> int" where
  "digit_val c = int (of_char c) - 48"

definition read_digits :: "string \<Rightarrow> int" where
  "read_digits s = foldl (\<lambda>acc c. acc * 10 + digit_val c) 0 s"

declare digits.simps [simp del]

lemma digit_val_char: "0 \<le> d \<Longrightarrow> d < 10 \<Longrightarrow> digit_val (char_of (48 + nat d)) = d"
  by (simp add: digit_val_def)

lemma read_digits: "0 \<le> n \<Longrightarrow> read_digits (digits n) = n"
proof (induction n rule: digits.induct)
  case (1 n)
  show ?case
  proof (cases "n < 10")
    case True
    then show ?thesis using 1(2) by (simp add: digits.simps read_digits_def digit_val_char)
  next
    case False
    then have "read_digits (digits n) = read_digits (digits (n div 10)) * 10 + n mod 10"
      by (subst digits.simps) (simp add: read_digits_def digit_val_char)
    with 1 False show ?thesis by (simp add: pos_imp_zdiv_nonneg_iff)
  qed
qed

lemma read_zero_pad: "read_digits (zero_pad w s) = read_digits s"
proof -
  have "foldl (\<lambda>acc c. acc * 10 + digit_val c) 0 (replicate k CHR ''0'') = 0" for k
    by (induction k) (simp_all add: digit_val_def)
  then show ?thesis by (simp add: read_digits_def zero_pad_def)
qed

lemma sequence_format_inj:
  "0 \<le> v \<Longrightarrow> 0 \<le> w \<Longrightarrow> sequence_format s v = sequence_format s w \<Longrightarrow> v = w"
  unfolding sequence_format_def by (metis append.right_neutral read_digits read_zero_pad same_append_eq)

lemma audit_record_simps [simp, frame_simps]:
  "accounts (audit_record st x sv ac og rt ri) = accounts st"
  "years (audit_record st x sv ac og rt ri) = years st"
  "periods (audit_record st x sv ac og rt ri) = periods st"
  "journals (audit_record st x sv ac og rt ri) = journals st"
  "sequences (audit_record st x sv ac og rt ri) = sequences st"
  "entries (audit_record st x sv ac og rt ri) = entries st"
  "next_id (audit_record st x sv ac og rt ri) = next_id st"
  "hook_state (audit_record st x sv ac og rt ri) = hook_state st"
  by (simp_all add: audit_record_def)

lemma entry_checks_ok_iff:
  "entry_checks st e = Inr u \<longleftrightarrow>
     e_total_debit e = e_total_credit e \<and> 0 \<le> e_total_debit e \<and>
     (e_status e = DRAFT \<or> (e_number e \<noteq> None \<and> e_posted_at e \<noteq> None)) \<and> \<bar>e_total_debit e\<bar> < 10 ^ 14 \<and>
     (e_number e = None \<or>
       (\<forall>x \<in> set (entries st). e_org x = e_org e \<and> e_number x = e_number e \<longrightarrow> e_id x = e_id e)) \<and>
     (\<forall>l \<in> set (e_lines e). line_checks l = Inr ())"
  by (auto simp: entry_checks_def bindr_eq_Inr_iff each_eq_Inr_iff)

lemma line_checks_ok_iff:
  "line_checks l = Inr u \<longleftrightarrow>
     (l_debit l > 0 \<and> l_credit l = 0) \<or> (l_credit l > 0 \<and> l_debit l = 0)"
  by (auto simp: line_checks_def bindr_eq_Inr_iff)

end
