(* ===== verification/Chart.thy ===== *)
theory Chart
  imports Accounting_Models
begin

text \<open>
  The chart of accounts: the seeded template (\<^verbatim>\<open>accounting/coa_template.py\<close>), the queries of
  \<^verbatim>\<open>AccountRepository\<close> and \<^verbatim>\<open>ChartOfAccountsService\<close> of \<^verbatim>\<open>accounting/service.py\<close>. A repository query is a
  filter of the table; reads through the repository skip soft-deleted rows, the uniqueness constraints
  do not. An operation returns the new database or the exception it raises; an exception rolls the
  transaction back, so no state comes with it.
\<close>

section \<open>The template\<close>

record account_spec =
  sp_code :: string
  sp_name :: string
  sp_type :: account_type
  sp_subtype :: account_subtype
  sp_parent :: "string option"
  sp_group :: bool
  sp_key :: "string option"
  sp_reconcilable :: bool

definition asset_chart :: "account_spec list" where
  "asset_chart =
    [account_spec.make ''1000'' ''Assets'' ASSET OTHER_ASSET None True None False,
     account_spec.make ''1100'' ''Current Assets'' ASSET OTHER_CURRENT_ASSET (Some ''1000'') True None False,
     account_spec.make ''1110'' ''Cash on Hand'' ASSET SUB_CASH (Some ''1100'') False (Some ''cash'') True,
     account_spec.make ''1120'' ''Bank Accounts'' ASSET SUB_BANK (Some ''1100'') True None False,
     account_spec.make ''1121'' ''Primary Bank Account'' ASSET SUB_BANK (Some ''1120'') False (Some ''bank'') True,
     account_spec.make ''1130'' ''Accounts Receivable'' ASSET ACCOUNTS_RECEIVABLE (Some ''1100'') False (Some ''accounts_receivable'') False,
     account_spec.make ''1140'' ''Inventory'' ASSET INVENTORY (Some ''1100'') False (Some ''inventory'') False,
     account_spec.make ''1150'' ''GST Input Tax Credit'' ASSET OTHER_CURRENT_ASSET (Some ''1100'') False (Some ''gst_input'') False,
     account_spec.make ''1160'' ''Prepaid Expenses'' ASSET OTHER_CURRENT_ASSET (Some ''1100'') False None False,
     account_spec.make ''1170'' ''Advances to Suppliers'' ASSET OTHER_CURRENT_ASSET (Some ''1100'') False None False,
     account_spec.make ''1200'' ''Fixed Assets'' ASSET FIXED_ASSET (Some ''1000'') True None False,
     account_spec.make ''1210'' ''Furniture & Fixtures'' ASSET FIXED_ASSET (Some ''1200'') False None False,
     account_spec.make ''1220'' ''Plant & Machinery'' ASSET FIXED_ASSET (Some ''1200'') False None False,
     account_spec.make ''1230'' ''Computers & Equipment'' ASSET FIXED_ASSET (Some ''1200'') False None False,
     account_spec.make ''1240'' ''Vehicles'' ASSET FIXED_ASSET (Some ''1200'') False None False,
     account_spec.make ''1290'' ''Accumulated Depreciation'' ASSET ACCUMULATED_DEPRECIATION (Some ''1200'') False None False]"

definition liability_chart :: "account_spec list" where
  "liability_chart =
    [account_spec.make ''2000'' ''Liabilities'' LIABILITY OTHER_CURRENT_LIABILITY None True None False,
     account_spec.make ''2100'' ''Current Liabilities'' LIABILITY OTHER_CURRENT_LIABILITY (Some ''2000'') True None False,
     account_spec.make ''2110'' ''Accounts Payable'' LIABILITY ACCOUNTS_PAYABLE (Some ''2100'') False (Some ''accounts_payable'') False,
     account_spec.make ''2115'' ''Goods Received Not Invoiced'' LIABILITY OTHER_CURRENT_LIABILITY (Some ''2100'') False (Some ''grni'') False,
     account_spec.make ''2120'' ''GST Output Tax'' LIABILITY TAX_PAYABLE (Some ''2100'') False (Some ''gst_output'') False,
     account_spec.make ''2130'' ''TDS Payable'' LIABILITY TAX_PAYABLE (Some ''2100'') False None False,
     account_spec.make ''2140'' ''Salaries Payable'' LIABILITY OTHER_CURRENT_LIABILITY (Some ''2100'') False None False,
     account_spec.make ''2150'' ''Advances from Customers'' LIABILITY OTHER_CURRENT_LIABILITY (Some ''2100'') False None False,
     account_spec.make ''2200'' ''Long-term Liabilities'' LIABILITY LONG_TERM_LIABILITY (Some ''2000'') True None False,
     account_spec.make ''2210'' ''Bank Loans'' LIABILITY LONG_TERM_LIABILITY (Some ''2200'') False None False]"

definition equity_chart :: "account_spec list" where
  "equity_chart =
    [account_spec.make ''3000'' ''Equity'' EQUITY CAPITAL None True None False,
     account_spec.make ''3100'' ''Owner's Capital'' EQUITY CAPITAL (Some ''3000'') False (Some ''owner_capital'') False,
     account_spec.make ''3200'' ''Owner's Drawings'' EQUITY DRAWINGS (Some ''3000'') False None False,
     account_spec.make ''3300'' ''Retained Earnings'' EQUITY RETAINED_EARNINGS (Some ''3000'') False (Some ''retained_earnings'') False]"

definition income_chart :: "account_spec list" where
  "income_chart =
    [account_spec.make ''4000'' ''Income'' INCOME OPERATING_REVENUE None True None False,
     account_spec.make ''4100'' ''Sales Revenue'' INCOME OPERATING_REVENUE (Some ''4000'') False (Some ''sales_revenue'') False,
     account_spec.make ''4200'' ''Service Revenue'' INCOME OPERATING_REVENUE (Some ''4000'') False None False,
     account_spec.make ''4210'' ''Job Work & Labour Charges'' INCOME OPERATING_REVENUE (Some ''4000'') False None False,
     account_spec.make ''4220'' ''Commission Received'' INCOME OPERATING_REVENUE (Some ''4000'') False None False,
     account_spec.make ''4230'' ''Freight & Delivery Charged'' INCOME OPERATING_REVENUE (Some ''4000'') False None False,
     account_spec.make ''4240'' ''Scrap & Waste Sales'' INCOME OPERATING_REVENUE (Some ''4000'') False None False,
     account_spec.make ''4300'' ''Discounts Given'' INCOME OPERATING_REVENUE (Some ''4000'') False None False,
     account_spec.make ''4400'' ''Other Income'' INCOME OTHER_INCOME (Some ''4000'') True None False,
     account_spec.make ''4410'' ''Interest Received'' INCOME OTHER_INCOME (Some ''4400'') False None False,
     account_spec.make ''4420'' ''Rental Income'' INCOME OTHER_INCOME (Some ''4400'') False None False,
     account_spec.make ''4430'' ''Discount Received'' INCOME OTHER_INCOME (Some ''4400'') False None False,
     account_spec.make ''4440'' ''Profit on Sale of Asset'' INCOME OTHER_INCOME (Some ''4400'') False None False,
     account_spec.make ''4450'' ''Foreign Exchange Gain'' INCOME OTHER_INCOME (Some ''4400'') False None False,
     account_spec.make ''4460'' ''Refunds & Reimbursements'' INCOME OTHER_INCOME (Some ''4400'') False None False,
     account_spec.make ''4500'' ''Household Income'' INCOME OTHER_INCOME (Some ''4000'') True None False,
     account_spec.make ''4510'' ''Salary'' INCOME OTHER_INCOME (Some ''4500'') False None False,
     account_spec.make ''4520'' ''Freelance & Side Work'' INCOME OTHER_INCOME (Some ''4500'') False None False,
     account_spec.make ''4530'' ''Gifts Received'' INCOME OTHER_INCOME (Some ''4500'') False None False,
     account_spec.make ''4540'' ''Dividends & Investment Returns'' INCOME OTHER_INCOME (Some ''4500'') False None False,
     account_spec.make ''4550'' ''Pension'' INCOME OTHER_INCOME (Some ''4500'') False None False,
     account_spec.make ''4900'' ''Miscellaneous Income'' INCOME OTHER_INCOME (Some ''4400'') False None False]"

definition expense_chart :: "account_spec list" where
  "expense_chart =
    [account_spec.make ''5000'' ''Expenses'' EXPENSE OPERATING_EXPENSE None True None False,
     account_spec.make ''5100'' ''Cost of Goods Sold'' EXPENSE COST_OF_GOODS_SOLD (Some ''5000'') False (Some ''cost_of_goods_sold'') False,
     account_spec.make ''5150'' ''Purchases'' EXPENSE COST_OF_GOODS_SOLD (Some ''5000'') False None False,
     account_spec.make ''5160'' ''Freight & Cartage Inward'' EXPENSE COST_OF_GOODS_SOLD (Some ''5000'') False None False,
     account_spec.make ''5170'' ''Packing Materials'' EXPENSE COST_OF_GOODS_SOLD (Some ''5000'') False None False,
     account_spec.make ''5200'' ''Operating Expenses'' EXPENSE OPERATING_EXPENSE (Some ''5000'') True None False,
     account_spec.make ''5210'' ''Rent'' EXPENSE OPERATING_EXPENSE (Some ''5200'') False None False,
     account_spec.make ''5220'' ''Electricity & Water'' EXPENSE OPERATING_EXPENSE (Some ''5200'') False None False,
     account_spec.make ''5230'' ''Telephone & Internet'' EXPENSE OPERATING_EXPENSE (Some ''5200'') False None False,
     account_spec.make ''5240'' ''Repairs & Maintenance'' EXPENSE OPERATING_EXPENSE (Some ''5200'') False None False,
     account_spec.make ''5250'' ''Printing & Stationery'' EXPENSE OPERATING_EXPENSE (Some ''5200'') False None False,
     account_spec.make ''5260'' ''Travel & Conveyance'' EXPENSE OPERATING_EXPENSE (Some ''5200'') False None False,
     account_spec.make ''5265'' ''Fuel & Vehicle Running'' EXPENSE OPERATING_EXPENSE (Some ''5200'') False None False,
     account_spec.make ''5270'' ''Professional Fees'' EXPENSE OPERATING_EXPENSE (Some ''5200'') False None False,
     account_spec.make ''5275'' ''Audit Fees'' EXPENSE OPERATING_EXPENSE (Some ''5200'') False None False,
     account_spec.make ''5280'' ''Bank Charges'' EXPENSE OPERATING_EXPENSE (Some ''5200'') False None False,
     account_spec.make ''5285'' ''Interest & Finance Charges'' EXPENSE OPERATING_EXPENSE (Some ''5200'') False None False,
     account_spec.make ''5290'' ''Marketing & Advertising'' EXPENSE OPERATING_EXPENSE (Some ''5200'') False None False,
     account_spec.make ''5295'' ''Commission Paid'' EXPENSE OPERATING_EXPENSE (Some ''5200'') False None False,
     account_spec.make ''5296'' ''Freight & Delivery Outward'' EXPENSE OPERATING_EXPENSE (Some ''5200'') False None False,
     account_spec.make ''5297'' ''Courier & Postage'' EXPENSE OPERATING_EXPENSE (Some ''5200'') False None False,
     account_spec.make ''5298'' ''Insurance'' EXPENSE OPERATING_EXPENSE (Some ''5200'') False None False,
     account_spec.make ''5299'' ''Software & Subscriptions'' EXPENSE OPERATING_EXPENSE (Some ''5200'') False None False,
     account_spec.make ''5300'' ''Payroll'' EXPENSE PAYROLL_EXPENSE (Some ''5000'') True None False,
     account_spec.make ''5310'' ''Salaries & Wages'' EXPENSE PAYROLL_EXPENSE (Some ''5300'') False None False,
     account_spec.make ''5320'' ''Employee Benefits'' EXPENSE PAYROLL_EXPENSE (Some ''5300'') False None False,
     account_spec.make ''5330'' ''Staff Welfare'' EXPENSE PAYROLL_EXPENSE (Some ''5300'') False None False,
     account_spec.make ''5340'' ''Contract & Casual Labour'' EXPENSE PAYROLL_EXPENSE (Some ''5300'') False None False,
     account_spec.make ''5350'' ''Provident Fund & ESI'' EXPENSE PAYROLL_EXPENSE (Some ''5300'') False None False,
     account_spec.make ''5400'' ''Depreciation'' EXPENSE DEPRECIATION_EXPENSE (Some ''5000'') False None False,
     account_spec.make ''5500'' ''Rates & Taxes'' EXPENSE TAX_EXPENSE (Some ''5000'') False None False,
     account_spec.make ''5700'' ''Household & Personal'' EXPENSE OTHER_EXPENSE (Some ''5000'') True None False,
     account_spec.make ''5705'' ''Groceries & Provisions'' EXPENSE OTHER_EXPENSE (Some ''5700'') False None False,
     account_spec.make ''5710'' ''House Rent & Maintenance'' EXPENSE OTHER_EXPENSE (Some ''5700'') False None False,
     account_spec.make ''5715'' ''Home Utilities'' EXPENSE OTHER_EXPENSE (Some ''5700'') False None False,
     account_spec.make ''5720'' ''Mobile & Broadband'' EXPENSE OTHER_EXPENSE (Some ''5700'') False None False,
     account_spec.make ''5725'' ''Medical & Health'' EXPENSE OTHER_EXPENSE (Some ''5700'') False None False,
     account_spec.make ''5730'' ''Education & School Fees'' EXPENSE OTHER_EXPENSE (Some ''5700'') False None False,
     account_spec.make ''5735'' ''Childcare'' EXPENSE OTHER_EXPENSE (Some ''5700'') False None False,
     account_spec.make ''5740'' ''Clothing & Footwear'' EXPENSE OTHER_EXPENSE (Some ''5700'') False None False,
     account_spec.make ''5745'' ''Dining Out'' EXPENSE OTHER_EXPENSE (Some ''5700'') False None False,
     account_spec.make ''5750'' ''Entertainment & Subscriptions'' EXPENSE OTHER_EXPENSE (Some ''5700'') False None False,
     account_spec.make ''5755'' ''Personal Care & Grooming'' EXPENSE OTHER_EXPENSE (Some ''5700'') False None False,
     account_spec.make ''5760'' ''Household Help'' EXPENSE OTHER_EXPENSE (Some ''5700'') False None False,
     account_spec.make ''5765'' ''Transport & Commute'' EXPENSE OTHER_EXPENSE (Some ''5700'') False None False,
     account_spec.make ''5770'' ''Insurance Premiums'' EXPENSE OTHER_EXPENSE (Some ''5700'') False None False,
     account_spec.make ''5775'' ''Loan & EMI Payments'' EXPENSE OTHER_EXPENSE (Some ''5700'') False None False,
     account_spec.make ''5780'' ''Festivals & Gifts'' EXPENSE OTHER_EXPENSE (Some ''5700'') False None False,
     account_spec.make ''5785'' ''Travel & Holidays'' EXPENSE OTHER_EXPENSE (Some ''5700'') False None False,
     account_spec.make ''5790'' ''Pet Care'' EXPENSE OTHER_EXPENSE (Some ''5700'') False None False,
     account_spec.make ''5795'' ''Household Miscellaneous'' EXPENSE OTHER_EXPENSE (Some ''5700'') False None False,
     account_spec.make ''5800'' ''Other Expenses'' EXPENSE OTHER_EXPENSE (Some ''5000'') True None False,
     account_spec.make ''5810'' ''Office & General Expenses'' EXPENSE OTHER_EXPENSE (Some ''5800'') False None False,
     account_spec.make ''5820'' ''Housekeeping & Security'' EXPENSE OTHER_EXPENSE (Some ''5800'') False None False,
     account_spec.make ''5830'' ''Business Promotion'' EXPENSE OTHER_EXPENSE (Some ''5800'') False None False,
     account_spec.make ''5840'' ''Donations & Charity'' EXPENSE OTHER_EXPENSE (Some ''5800'') False None False,
     account_spec.make ''5850'' ''Bad Debts Written Off'' EXPENSE OTHER_EXPENSE (Some ''5800'') False None False,
     account_spec.make ''5860'' ''Loss on Sale of Asset'' EXPENSE OTHER_EXPENSE (Some ''5800'') False None False,
     account_spec.make ''5870'' ''Foreign Exchange Loss'' EXPENSE OTHER_EXPENSE (Some ''5800'') False None False,
     account_spec.make ''5880'' ''Penalties & Late Fees'' EXPENSE OTHER_EXPENSE (Some ''5800'') False None False,
     account_spec.make ''5890'' ''Miscellaneous Expenses'' EXPENSE OTHER_EXPENSE (Some ''5800'') False None False,
     account_spec.make ''5900'' ''Rounding Differences'' EXPENSE OTHER_EXPENSE (Some ''5800'') False (Some ''rounding'') False]"

definition DEFAULT_CHART :: "account_spec list" where
  "DEFAULT_CHART = asset_chart @ liability_chart @ equity_chart @ income_chart @ expense_chart"

definition DEFAULT_JOURNALS :: "(string \<times> string \<times> journal_type \<times> string) list" where
  "DEFAULT_JOURNALS =
    [(''GEN'', ''General Journal'', GENERAL, ''JV''),
     (''SAL'', ''Sales Journal'', SALES, ''SI''),
     (''PUR'', ''Purchase Journal'', PURCHASE, ''PI''),
     (''CSH'', ''Cash Book'', CASH, ''CB''),
     (''BNK'', ''Bank Book'', BANK, ''BB''),
     (''OPN'', ''Opening Balances'', OPENING, ''OB'')]"

text \<open>
  The loop of \<^verbatim>\<open>validate_template\<close>, with the two dictionaries \<^verbatim>\<open>seen\<close> and \<^verbatim>\<open>system_keys\<close> as association
  lists.
\<close>

definition check_parent :: "(string \<times> account_spec) list \<Rightarrow> account_spec \<Rightarrow> unit result" where
  "check_parent seen spec =
     (case sp_parent spec of
        None \<Rightarrow> Inr ()
      | Some pc \<Rightarrow>
          (case map_of seen pc of
             None \<Rightarrow> Inl (ValueError ''parent undefined or defined later'')
           | Some parent \<Rightarrow>
               bindr (raise_if (\<not> sp_group parent) (ValueError ''parent is not a group'')) (\<lambda>_.
               raise_if (sp_type parent \<noteq> sp_type spec) (ValueError ''type differs from the parent''))))"

definition check_key :: "(string \<times> string) list \<Rightarrow> account_spec \<Rightarrow> (string \<times> string) list result" where
  "check_key system_keys spec =
     (case sp_key spec of
        None \<Rightarrow> Inr system_keys
      | Some k \<Rightarrow>
          bindr (raise_if (map_of system_keys k \<noteq> None) (ValueError ''system key claimed twice'')) (\<lambda>_.
          bindr (raise_if (sp_group spec) (ValueError ''group account cannot hold a system key'')) (\<lambda>_.
          Inr ((k, sp_code spec) # system_keys))))"

fun validate_specs ::
    "(string \<times> account_spec) list \<Rightarrow> (string \<times> string) list \<Rightarrow> account_spec list \<Rightarrow> unit result" where
  "validate_specs seen system_keys [] = Inr ()"
| "validate_specs seen system_keys (spec # specs) =
     bindr (raise_if (map_of seen (sp_code spec) \<noteq> None) (ValueError ''duplicate account code'')) (\<lambda>_.
     bindr (check_parent seen spec) (\<lambda>_.
     bindr (check_key system_keys spec) (\<lambda>system_keys'.
     validate_specs ((sp_code spec, spec) # seen) system_keys' specs)))"

definition validate_template :: "unit result" where
  "validate_template = validate_specs [] [] DEFAULT_CHART"

section \<open>Queries\<close>

definition live_accounts :: "'h db \<Rightarrow> account list" where
  "live_accounts st = filter (\<lambda>a. a_deleted a = None) (accounts st)"

definition account_get :: "'h db \<Rightarrow> uuid \<Rightarrow> account option result" where
  "account_get st i = scalar_one_or_none (filter (\<lambda>a. a_id a = i) (live_accounts st))"

definition get_by_code :: "'h db \<Rightarrow> uuid \<Rightarrow> string \<Rightarrow> account option" where
  "get_by_code st org c = first_or_none (filter (\<lambda>a. a_org a = org \<and> a_code a = c) (live_accounts st))"

definition get_by_system_key :: "'h db \<Rightarrow> uuid \<Rightarrow> string \<Rightarrow> account option" where
  "get_by_system_key st org k = first_or_none (filter (\<lambda>a. a_org a = org \<and> a_key a = Some k) (live_accounts st))"

definition has_children :: "'h db \<Rightarrow> uuid \<Rightarrow> bool" where
  "has_children st i \<longleftrightarrow> (\<exists>a \<in> set (live_accounts st). a_parent a = Some i)"

definition has_postings :: "'h db \<Rightarrow> uuid \<Rightarrow> bool" where
  "has_postings st i \<longleftrightarrow> (\<exists>e \<in> set (entries st). \<exists>l \<in> set (e_lines e). l_account l = i)"

definition get_account :: "'h db \<Rightarrow> uuid \<Rightarrow> uuid \<Rightarrow> account result" where
  "get_account st org i =
     bindr (account_get st i) (\<lambda>found.
     case found of
       None \<Rightarrow> Inl (NotFoundError ''Account'')
     | Some a \<Rightarrow> if a_org a \<noteq> org then Inl (NotFoundError ''Account'') else Inr a)"

definition resolve_system_account :: "'h db \<Rightarrow> uuid \<Rightarrow> string \<Rightarrow> account result" where
  "resolve_system_account st org k =
     (case get_by_system_key st org k of
        None \<Rightarrow> Inl (BusinessRuleError ''No account is configured for this key'')
      | Some a \<Rightarrow> Inr a)"

section \<open>Seeding\<close>

definition add_account :: "'h db \<Rightarrow> account \<Rightarrow> 'h db result" where
  "add_account st a =
     bindr (account_checks st a) (\<lambda>_.
     Inr (st\<lparr>accounts := accounts st @ [a], next_id := next_id st + 1\<rparr>))"

definition add_journal :: "'h db \<Rightarrow> journal \<Rightarrow> 'h db result" where
  "add_journal st j =
     bindr (journal_checks st j) (\<lambda>_.
     Inr (st\<lparr>journals := journals st @ [j], next_id := next_id st + 1\<rparr>))"

definition spec_account :: "uuid \<Rightarrow> uuid \<Rightarrow> account_spec \<Rightarrow> account option \<Rightarrow> account" where
  "spec_account i org spec parent =
     \<lparr>a_id = i, a_org = org, a_code = sp_code spec, a_name = sp_name spec, a_description = None,
      a_type = sp_type spec, a_subtype = sp_subtype spec,
      a_parent = map_option a_id parent, a_group = sp_group spec,
      a_depth = (case parent of None \<Rightarrow> 0 | Some p \<Rightarrow> a_depth p + 1),
      a_active = True, a_system = True, a_key = sp_key spec, a_reconcilable = sp_reconcilable spec,
      a_deleted = None\<rparr>"

fun seed_accounts ::
    "'h db \<Rightarrow> uuid \<Rightarrow> (string \<times> account) list \<Rightarrow> account_spec list \<Rightarrow> ('h db \<times> (string \<times> account) list) result" where
  "seed_accounts st org by_code [] = Inr (st, by_code)"
| "seed_accounts st org by_code (spec # specs) =
     (let parent = (case sp_parent spec of None \<Rightarrow> None | Some pc \<Rightarrow> map_of by_code pc);
          a = spec_account (next_id st) org spec parent
      in bindr (add_account st a) (\<lambda>st'. seed_accounts st' org ((sp_code spec, a) # by_code) specs))"

fun seed_journals ::
    "'h db \<Rightarrow> uuid \<Rightarrow> (string \<times> string \<times> journal_type \<times> string) list \<Rightarrow> 'h db result" where
  "seed_journals st org [] = Inr st"
| "seed_journals st org ((c, n, t, px) # specs) =
     bindr (add_journal st \<lparr>j_id = next_id st, j_org = org, j_code = c, j_name = n, j_type = t,
        j_prefix = px, j_default = None, j_active = True, j_system = True\<rparr>) (\<lambda>st'.
     seed_journals st' org specs)"

definition seed_defaults :: "'h db \<Rightarrow> uuid \<Rightarrow> ('h db \<times> nat \<times> nat) result" where
  "seed_defaults st org =
     (if \<exists>a \<in> set (live_accounts st). a_org a = org then Inr (st, 0, 0)
      else bindr (seed_accounts st org [] DEFAULT_CHART) (\<lambda>(st', by_code).
           bindr (seed_journals st' org DEFAULT_JOURNALS) (\<lambda>st''.
           Inr (st'', length by_code, length DEFAULT_JOURNALS))))"

fun sync_specs ::
    "'h db \<Rightarrow> uuid \<Rightarrow> (string \<times> account) list \<Rightarrow> account_spec list \<Rightarrow> nat \<Rightarrow> ('h db \<times> nat) result" where
  "sync_specs st org existing [] added = Inr (st, added)"
| "sync_specs st org existing (spec # specs) added =
     (if map_of existing (sp_code spec) \<noteq> None then sync_specs st org existing specs added
      else let parent = (case sp_parent spec of None \<Rightarrow> None | Some pc \<Rightarrow> map_of existing pc)
      in if sp_parent spec \<noteq> None \<and> parent = None then sync_specs st org existing specs added
      else let a = spec_account (next_id st) org spec parent
      in bindr (add_account st a) (\<lambda>st'.
         sync_specs st' org ((sp_code spec, a) # existing) specs (added + 1)))"

definition sync_template :: "'h db \<Rightarrow> uuid \<Rightarrow> ('h db \<times> nat) result" where
  "sync_template st org =
     (let existing = map (\<lambda>a. (a_code a, a)) (filter (\<lambda>a. a_org a = org) (live_accounts st))
      in if existing = [] then bindr (seed_defaults st org) (\<lambda>(st', created, _). Inr (st', created))
         else sync_specs st org existing DEFAULT_CHART 0)"

section \<open>Writes\<close>

record account_create =
  ac_code :: string
  ac_name :: string
  ac_type :: account_type
  ac_subtype :: account_subtype
  ac_parent :: "uuid option"
  ac_description :: "string option"
  ac_group :: bool
  ac_reconcilable :: bool

text \<open>The parent of a new account, and the database in which it has become a group.\<close>

definition adopt_parent :: "'h db \<Rightarrow> uuid \<Rightarrow> account_create \<Rightarrow> ('h db \<times> account option) result" where
  "adopt_parent st org data =
     (case ac_parent data of
        None \<Rightarrow> Inr (st, None)
      | Some pid \<Rightarrow>
          bindr (get_account st org pid) (\<lambda>parent.
          bindr (raise_if (a_type parent \<noteq> ac_type data)
            (ValidationError ''An account must have the same type as its parent'')) (\<lambda>_.
          if a_group parent then Inr (st, Some parent)
          else bindr (raise_if (has_postings st (a_id parent))
                 (BusinessRuleError ''This account already has journal entries, so it cannot become a group'')) (\<lambda>_.
               Inr (st\<lparr>accounts := update_where (\<lambda>a. a_id a = a_id parent) (a_group_update (\<lambda>_. True)) (accounts st)\<rparr>,
                    Some parent)))))"

definition create_account :: "'h db \<Rightarrow> uuid \<Rightarrow> account_create \<Rightarrow> uuid \<Rightarrow> ('h db \<times> account) result" where
  "create_account st org data actor =
     bindr (raise_if (get_by_code st org (ac_code data) \<noteq> None)
       (ConflictError ''Account code is already in use'')) (\<lambda>_.
     bindr (adopt_parent st org data) (\<lambda>(st1, parent).
       let a = \<lparr>a_id = next_id st1, a_org = org, a_code = ac_code data, a_name = ac_name data,
                a_description = ac_description data, a_type = ac_type data, a_subtype = ac_subtype data,
                a_parent = map_option a_id parent, a_group = ac_group data,
                a_depth = (case parent of None \<Rightarrow> 0 | Some p \<Rightarrow> a_depth p + 1),
                a_active = True, a_system = False, a_key = None, a_reconcilable = ac_reconcilable data,
                a_deleted = None\<rparr>
       in bindr (add_account st1 a) (\<lambda>st2.
          Inr (audit_record st2 ACCOUNT_CREATED INFO actor org ''account'' (a_id a), a))))"

text \<open>
  A PATCH: an absent field is \<^verbatim>\<open>None\<close>, a field sent as \<^verbatim>\<open>null\<close> is \<^verbatim>\<open>Some None\<close>. \<^verbatim>\<open>parent_id\<close> is accepted
  and skipped. A \<^verbatim>\<open>null\<close> in a column that is not nullable fails at the flush.
\<close>

record account_update =
  au_name :: "string option option"
  au_description :: "string option option"
  au_parent :: "uuid option option"
  au_active :: "bool option option"
  au_reconcilable :: "bool option option"

definition patched :: "'a option option \<Rightarrow> 'a \<Rightarrow> 'a" where
  "patched f current = (case f of Some (Some v) \<Rightarrow> v | _ \<Rightarrow> current)"

definition update_account ::
    "'h db \<Rightarrow> uuid \<Rightarrow> uuid \<Rightarrow> account_update \<Rightarrow> uuid \<Rightarrow> ('h db \<times> account) result" where
  "update_account st org i data actor =
     bindr (get_account st org i) (\<lambda>a.
       let a' = a\<lparr>a_name := patched (au_name data) (a_name a),
                  a_description := (case au_description data of None \<Rightarrow> a_description a | Some d \<Rightarrow> d),
                  a_active := patched (au_active data) (a_active a),
                  a_reconcilable := patched (au_reconcilable data) (a_reconcilable a)\<rparr>
       in
     bindr (raise_if (au_active data = Some (Some False) \<and> a_system a)
       (BusinessRuleError ''System accounts cannot be deactivated'')) (\<lambda>_.
     bindr (raise_if (au_name data = Some None \<or> au_active data = Some None \<or> au_reconcilable data = Some None)
       (IntegrityError ''not_null'')) (\<lambda>_.
       let st1 = st\<lparr>accounts := update_where (\<lambda>x. a_id x = a_id a) (\<lambda>_. a') (accounts st)\<rparr>
       in Inr (if a' \<noteq> a then audit_record st1 ACCOUNT_UPDATED INFO actor org ''account'' (a_id a) else st1, a'))))"

definition delete_account :: "'h db \<Rightarrow> uuid \<Rightarrow> uuid \<Rightarrow> uuid \<Rightarrow> instant \<Rightarrow> 'h db result" where
  "delete_account st org i actor now =
     bindr (get_account st org i) (\<lambda>a.
     bindr (raise_if (a_system a) (BusinessRuleError ''System accounts cannot be deleted, only deactivated.'')) (\<lambda>_.
     bindr (raise_if (has_children st (a_id a)) (BusinessRuleError ''Reassign or delete the child accounts first.'')) (\<lambda>_.
     bindr (raise_if (has_postings st (a_id a))
       (BusinessRuleError ''This account has journal entries and cannot be deleted.'')) (\<lambda>_.
     Inr (audit_record
       (st\<lparr>accounts := update_where (\<lambda>x. a_id x = a_id a) (a_deleted_update (\<lambda>_. Some now)) (accounts st)\<rparr>)
       ACCOUNT_DELETED WARNING actor org ''account'' (a_id a))))))"

section \<open>Lemmas\<close>

lemma account_get_Some: "account_get st i = Inr (Some a) \<Longrightarrow> a \<in> set (accounts st) \<and> a_deleted a = None \<and> a_id a = i"
  unfolding account_get_def live_accounts_def by (auto dest: scalar_one_or_none_Some)

lemma get_account_ok:
  "get_account st org i = Inr a \<Longrightarrow> a \<in> set (accounts st) \<and> a_deleted a = None \<and> a_id a = i \<and> a_org a = org"
  unfolding get_account_def by (auto split: option.splits if_splits dest: account_get_Some)

lemma add_account_ok:
  "add_account st a = Inr st' \<Longrightarrow>
     account_checks st a = Inr () \<and> st' = st\<lparr>accounts := accounts st @ [a], next_id := next_id st + 1\<rparr>"
  by (auto simp: add_account_def)

lemma add_journal_ok:
  "add_journal st j = Inr st' \<Longrightarrow>
     journal_checks st j = Inr () \<and> st' = st\<lparr>journals := journals st @ [j], next_id := next_id st + 1\<rparr>"
  by (auto simp: add_journal_def)

lemma resolve_system_account_ok:
  "resolve_system_account st org k = Inr a \<Longrightarrow>
     a \<in> set (accounts st) \<and> a_deleted a = None \<and> a_org a = org \<and> a_key a = Some k"
  unfolding resolve_system_account_def get_by_system_key_def live_accounts_def
  by (auto split: option.splits dest!: first_or_none_Some)

end
