(* ===== verification/Fiscal.thy ===== *)
theory Fiscal
  imports Periods Chart
begin

text \<open>
  The fiscal calendar: \<^verbatim>\<open>FiscalCalendarRepository\<close> and \<^verbatim>\<open>FiscalCalendarService\<close> of
  \<^verbatim>\<open>accounting/repository.py\<close> and \<^verbatim>\<open>accounting/service.py\<close>, the request validation of
  \<^verbatim>\<open>FiscalYearCreate\<close>, and the notification of subscribers of \<^verbatim>\<open>accounting/hooks.py\<close>. A subscriber maps
  its own tables to their new contents, together with the exception it raised, if any; notification
  drops the exception and goes on.
\<close>

section \<open>Subscribers\<close>

record 'h hooks =
  entry_posted :: "('h \<Rightarrow> journal_entry \<Rightarrow> 'h \<times> error option) list"
  period_closed :: "('h \<Rightarrow> accounting_period \<Rightarrow> uuid \<Rightarrow> 'h \<times> error option) list"

definition notify_entry_posted :: "'h hooks \<Rightarrow> 'h db \<Rightarrow> journal_entry \<Rightarrow> 'h db" where
  "notify_entry_posted hs st e =
     st\<lparr>hook_state := foldl (\<lambda>h hook. fst (hook h e)) (hook_state st) (entry_posted hs)\<rparr>"

definition notify_period_closed :: "'h hooks \<Rightarrow> 'h db \<Rightarrow> accounting_period \<Rightarrow> uuid \<Rightarrow> 'h db" where
  "notify_period_closed hs st p actor =
     st\<lparr>hook_state := foldl (\<lambda>h hook. fst (hook h p actor)) (hook_state st) (period_closed hs)\<rparr>"

lemma notify_simps [simp, frame_simps]:
  "accounts (notify_entry_posted hs st e) = accounts st" "years (notify_entry_posted hs st e) = years st"
  "periods (notify_entry_posted hs st e) = periods st" "journals (notify_entry_posted hs st e) = journals st"
  "sequences (notify_entry_posted hs st e) = sequences st" "entries (notify_entry_posted hs st e) = entries st"
  "next_id (notify_entry_posted hs st e) = next_id st" "audit_log (notify_entry_posted hs st e) = audit_log st"
  "accounts (notify_period_closed hs st p a) = accounts st" "years (notify_period_closed hs st p a) = years st"
  "periods (notify_period_closed hs st p a) = periods st" "journals (notify_period_closed hs st p a) = journals st"
  "sequences (notify_period_closed hs st p a) = sequences st" "entries (notify_period_closed hs st p a) = entries st"
  "next_id (notify_period_closed hs st p a) = next_id st" "audit_log (notify_period_closed hs st p a) = audit_log st"
  by (simp_all add: notify_entry_posted_def notify_period_closed_def)

section \<open>Queries\<close>

definition year_containing :: "'h db \<Rightarrow> uuid \<Rightarrow> date \<Rightarrow> fiscal_year option result" where
  "year_containing st org on =
     scalar_one_or_none (filter (\<lambda>y. fy_org y = org \<and> fy_start y \<le> on \<and> fy_end y \<ge> on) (years st))"

definition overlapping_year :: "'h db \<Rightarrow> uuid \<Rightarrow> date \<Rightarrow> date \<Rightarrow> fiscal_year option" where
  "overlapping_year st org s e =
     first_or_none (filter (\<lambda>y. fy_org y = org \<and> fy_start y \<le> e \<and> fy_end y \<ge> s) (years st))"

definition period_containing :: "'h db \<Rightarrow> uuid \<Rightarrow> date \<Rightarrow> accounting_period option result" where
  "period_containing st org on =
     scalar_one_or_none (filter (\<lambda>p. p_org p = org \<and> p_start p \<le> on \<and> p_end p \<ge> on) (periods st))"

definition get_period :: "'h db \<Rightarrow> uuid \<Rightarrow> uuid \<Rightarrow> accounting_period option result" where
  "get_period st org i = scalar_one_or_none (filter (\<lambda>p. p_org p = org \<and> p_id p = i) (periods st))"

definition has_open_period_before :: "'h db \<Rightarrow> uuid \<Rightarrow> date \<Rightarrow> bool" where
  "has_open_period_before st org before \<longleftrightarrow>
     (\<exists>p \<in> set (periods st). p_org p = org \<and> p_end p < before \<and> p_status p = OPEN)"

section \<open>Fiscal years\<close>

record fiscal_year_create =
  fc_name :: string
  fc_start :: date
  fc_end :: date
  fc_generate :: bool

definition validate_year_create :: "fiscal_year_create \<Rightarrow> unit result" where
  "validate_year_create d =
     bindr (raise_if (fc_end d \<le> fc_start d) (SchemaError ''end_date must be after start_date'')) (\<lambda>_.
     raise_if (fc_end d - fc_start d > 732) (SchemaError ''a fiscal year cannot span more than two years''))"

definition MONTH_NAMES :: "string list" where
  "MONTH_NAMES = [''January'', ''February'', ''March'', ''April'', ''May'', ''June'', ''July'', ''August'',
     ''September'', ''October'', ''November'', ''December'']"

text \<open>The loop of \<^verbatim>\<open>_generate_monthly_periods\<close>: names and bounds of the periods it creates.\<close>

function month_periods :: "date \<Rightarrow> date \<Rightarrow> (string \<times> date \<times> date) list result" where
  "month_periods year_end cursor =
     (if cursor \<le> year_end then
        let period_end = min (month_end cursor) year_end in
        case shift_days period_end 1 of
          Inl e \<Rightarrow> Inl e
        | Inr cursor' \<Rightarrow>
            bindr (month_periods year_end cursor') (\<lambda>rest.
            Inr ((MONTH_NAMES ! nat (ord_month cursor - 1) @ '' '' @ show_int (ord_year cursor),
                  cursor, period_end) # rest))
      else Inr [])"
  by pat_completeness auto

lemma month_end_ge: "d \<le> month_end d"
  using month_index_bounds(2) [of d] by (simp add: month_end_first)

termination month_periods
  by (relation "measure (\<lambda>(e, c). nat (e + 1 - c))")
     (use month_end_ge in \<open>auto dest!: shift_days_InrD simp: min_def split: if_splits\<close>)

declare month_periods.simps [simp del]

definition add_period :: "'h db \<Rightarrow> accounting_period \<Rightarrow> 'h db result" where
  "add_period st p =
     bindr (period_checks st p) (\<lambda>_.
     Inr (st\<lparr>periods := periods st @ [p], next_id := next_id st + 1\<rparr>))"

fun add_periods :: "'h db \<Rightarrow> fiscal_year \<Rightarrow> (string \<times> date \<times> date) list \<Rightarrow> 'h db result" where
  "add_periods st y [] = Inr st"
| "add_periods st y ((n, s, e) # specs) =
     bindr (add_period st \<lparr>p_id = next_id st, p_org = fy_org y, p_year = fy_id y, p_name = n,
       p_start = s, p_end = e, p_status = OPEN, p_closed_at = None, p_closed_by = None\<rparr>) (\<lambda>st'.
     add_periods st' y specs)"

definition generate_monthly_periods :: "'h db \<Rightarrow> fiscal_year \<Rightarrow> 'h db result" where
  "generate_monthly_periods st y =
     bindr (month_periods (fy_end y) (fy_start y)) (\<lambda>specs. add_periods st y specs)"

definition add_year :: "'h db \<Rightarrow> fiscal_year \<Rightarrow> 'h db result" where
  "add_year st y =
     bindr (year_checks st y) (\<lambda>_.
     Inr (st\<lparr>years := years st @ [y], next_id := next_id st + 1\<rparr>))"

definition create_year :: "'h db \<Rightarrow> uuid \<Rightarrow> fiscal_year_create \<Rightarrow> uuid \<Rightarrow> ('h db \<times> fiscal_year) result" where
  "create_year st org data actor =
     bindr (raise_if (overlapping_year st org (fc_start data) (fc_end data) \<noteq> None)
       (ConflictError ''This range overlaps a fiscal year'')) (\<lambda>_.
       let y = \<lparr>fy_id = next_id st, fy_org = org, fy_name = fc_name data, fy_start = fc_start data,
                fy_end = fc_end data, fy_status = OPEN, fy_closed_at = None\<rparr>
       in
     bindr (add_year st y) (\<lambda>st1.
     bindr (if fc_generate data then generate_monthly_periods st1 y else Inr st1) (\<lambda>st2.
     Inr (audit_record st2 FISCAL_YEAR_CREATED INFO actor org ''fiscal_year'' (fy_id y), y))))"

text \<open>\<^verbatim>\<open>today\<close> is the date the caller passes, or the organization's current date.\<close>

definition ensure_year_for :: "'h db \<Rightarrow> uuid \<Rightarrow> int \<Rightarrow> date \<Rightarrow> ('h db \<times> fiscal_year) result" where
  "ensure_year_for st org start_month today =
     (let start_year = (if ord_month today \<ge> start_month then ord_year today else ord_year today - 1) in
     bindr (mk_date start_year start_month 1) (\<lambda>start.
     bindr (mk_date (start_year + 1) start_month 1) (\<lambda>next.
     bindr (shift_days next (-1)) (\<lambda>end_date.
     bindr (year_containing st org today) (\<lambda>existing.
     case existing of
       Some y \<Rightarrow> Inr (st, y)
     | None \<Rightarrow>
         let name = (if start_month = 1 then show_int start_year
                     else show_int start_year @ ''-'' @
                       (let s = show_int (ord_year end_date) in drop (length s - 2) s));
             y = \<lparr>fy_id = next_id st, fy_org = org, fy_name = name, fy_start = start, fy_end = end_date,
                  fy_status = OPEN, fy_closed_at = None\<rparr>
         in bindr (add_year st y) (\<lambda>st1.
            bindr (generate_monthly_periods st1 y) (\<lambda>st2. Inr (st2, y))))))))"

section \<open>Periods\<close>

definition resolve_open_period :: "'h db \<Rightarrow> uuid \<Rightarrow> date \<Rightarrow> accounting_period result" where
  "resolve_open_period st org on =
     bindr (period_containing st org on) (\<lambda>found.
     case found of
       None \<Rightarrow> Inl (BusinessRuleError ''No accounting period covers this date'')
     | Some p \<Rightarrow>
         if \<not> accepts_postings p then Inl (BusinessRuleError ''period cannot accept new entries'') else Inr p)"

definition set_period :: "'h db \<Rightarrow> uuid \<Rightarrow> (accounting_period \<Rightarrow> accounting_period) \<Rightarrow> 'h db" where
  "set_period st i f = st\<lparr>periods := update_where (\<lambda>p. p_id p = i) f (periods st)\<rparr>"

definition close_period ::
    "'h hooks \<Rightarrow> 'h db \<Rightarrow> uuid \<Rightarrow> uuid \<Rightarrow> uuid \<Rightarrow> bool \<Rightarrow> instant \<Rightarrow> ('h db \<times> accounting_period) result" where
  "close_period hs st org i actor lock now =
     bindr (get_period st org i) (\<lambda>found.
     case found of
       None \<Rightarrow> Inl (NotFoundError ''Accounting period'')
     | Some p \<Rightarrow>
         bindr (raise_if (p_status p = LOCKED)
           (BusinessRuleError ''This period is locked and cannot be changed.'')) (\<lambda>_.
         bindr (raise_if (has_open_period_before st org (p_start p))
           (BusinessRuleError ''An earlier period is still open.'')) (\<lambda>_.
           let p' = p\<lparr>p_status := (if lock then LOCKED else CLOSED), p_closed_at := Some now,
                      p_closed_by := Some actor\<rparr>;
               st1 = set_period st (p_id p) (\<lambda>_. p');
               st2 = audit_record st1 PERIOD_CLOSED WARNING actor org ''accounting_period'' (p_id p)
           in Inr (notify_period_closed hs st2 p' actor, p'))))"

definition reopen_period :: "'h db \<Rightarrow> uuid \<Rightarrow> uuid \<Rightarrow> uuid \<Rightarrow> ('h db \<times> accounting_period) result" where
  "reopen_period st org i actor =
     bindr (get_period st org i) (\<lambda>found.
     case found of
       None \<Rightarrow> Inl (NotFoundError ''Accounting period'')
     | Some p \<Rightarrow>
         bindr (raise_if (p_status p = LOCKED) (BusinessRuleError ''This period is locked.'')) (\<lambda>_.
         if p_status p = OPEN then Inr (st, p)
         else
           let p' = p\<lparr>p_status := OPEN, p_closed_at := None, p_closed_by := None\<rparr>;
               st1 = set_period st (p_id p) (\<lambda>_. p')
           in Inr (audit_record st1 PERIOD_REOPENED WARNING actor org ''accounting_period'' (p_id p), p')))"

section \<open>Lemmas\<close>

lemma period_containing_unique:
  assumes "period_containing st org on = Inr (Some p)"
  shows "p \<in> set (periods st)" "p_org p = org" "p_start p \<le> on" "on \<le> p_end p"
    "\<And>q. q \<in> set (periods st) \<Longrightarrow> p_org q = org \<Longrightarrow> p_start q \<le> on \<Longrightarrow> on \<le> p_end q \<Longrightarrow> q = p"
proof -
  let ?f = "filter (\<lambda>p. p_org p = org \<and> p_start p \<le> on \<and> p_end p \<ge> on) (periods st)"
  have "scalar_one_or_none ?f = Inr (Some p)" using assms by (simp add: period_containing_def)
  then have f: "?f = [p]" by (cases ?f rule: scalar_one_or_none.cases) simp_all
  then have "p \<in> set ?f" by simp
  then show "p \<in> set (periods st)" "p_org p = org" "p_start p \<le> on" "on \<le> p_end p" by auto
  fix q
  assume "q \<in> set (periods st)" "p_org q = org" "p_start q \<le> on" "on \<le> p_end q"
  then have "q \<in> set ?f" by simp
  with f show "q = p" by simp
qed

lemma resolve_open_period_ok:
  assumes "resolve_open_period st org on = Inr p"
  shows "period_containing st org on = Inr (Some p)" "p_status p = OPEN"
  using assms by (auto simp: resolve_open_period_def accepts_postings_def split: option.splits if_splits)

text \<open>A date that lies in a period that is not open can never be posted to, whatever other periods exist.\<close>

lemma closed_period_blocks:
  assumes "resolve_open_period st org on = Inr p"
    and "q \<in> set (periods st)" and "p_org q = org" and "p_status q \<noteq> OPEN"
  shows "\<not> (p_start q \<le> on \<and> on \<le> p_end q)"
  using assms resolve_open_period_ok [OF assms(1)] period_containing_unique(5) by metis

lemma add_year_ok:
  "add_year st y = Inr st' \<Longrightarrow>
     year_checks st y = Inr () \<and> st' = st\<lparr>years := years st @ [y], next_id := next_id st + 1\<rparr>"
  by (auto simp: add_year_def)

lemma add_periods_ok:
  "add_periods st y specs = Inr st' \<Longrightarrow>
     \<exists>ps. st' = st\<lparr>periods := periods st @ ps, next_id := next_id st + int (length ps)\<rparr> \<and>
       map (\<lambda>p. (p_name p, p_start p, p_end p)) ps = specs \<and>
       (\<forall>p \<in> set ps. p_org p = fy_org y \<and> p_year p = fy_id y \<and> p_status p = OPEN)"
proof (induction st y specs rule: add_periods.induct)
  case (1 st y)
  then show ?case by (intro exI [of _ "[]"]) simp
next
  case (2 st y n s e specs)
  let ?p = "\<lparr>p_id = next_id st, p_org = fy_org y, p_year = fy_id y, p_name = n,
       p_start = s, p_end = e, p_status = OPEN, p_closed_at = None, p_closed_by = None\<rparr>"
  from 2(2) obtain st1 where s1: "add_period st ?p = Inr st1" "add_periods st1 y specs = Inr st'" by auto
  have st1: "st1 = st\<lparr>periods := periods st @ [?p], next_id := next_id st + 1\<rparr>"
    using s1(1) by (auto simp: add_period_def)
  from 2(1) [OF s1] obtain ps where "st' = st1\<lparr>periods := periods st1 @ ps, next_id := next_id st1 + int (length ps)\<rparr>"
     "map (\<lambda>p. (p_name p, p_start p, p_end p)) ps = specs"
     "\<forall>p \<in> set ps. p_org p = fy_org y \<and> p_year p = fy_id y \<and> p_status p = OPEN" by blast
  then show ?case by (intro exI [of _ "?p # ps"]) (simp add: st1)
qed

lemma month_periods_tile:
  assumes "month_periods ye c = Inr specs"
  shows "concat (map (\<lambda>(n, s, e). [s..e]) specs) = [c..ye] \<and>
    list_all (\<lambda>(n, s, e). s \<le> e \<and> month_index s = month_index e) specs"
  using assms
proof (induction ye c arbitrary: specs rule: month_periods.induct)
  case (1 ye c)
  show ?case
  proof (cases "c \<le> ye")
    case False
    with 1(2) show ?thesis by (simp add: month_periods.simps)
  next
    case True
    let ?pe = "min (month_end c) ye"
    from 1(2) True obtain n c' rest where c': "shift_days ?pe 1 = Inr c'" and r: "month_periods ye c' = Inr rest"
      and sp: "specs = (n, c, ?pe) # rest"
      by (auto simp: month_periods.simps [of ye c] Let_def split: sum.splits)
    have c'eq: "c' = ?pe + 1" using c' by (rule shift_days_InrD)
    have b: "c \<le> ?pe" "?pe \<le> ye" using month_end_ge [of c] True by simp_all
    have "month_index ?pe = month_index c"
      using b month_index_bounds [of c] by (intro month_index_unique) (auto simp: month_end_first)
    moreover have "[c..?pe] @ [c'..ye] = [c..ye]" unfolding c'eq using b upto_split2 [of c ?pe ye] by simp
    moreover note 1(1) [OF True refl c' r]
    ultimately show ?thesis using b sp by simp
  qed
qed

end
