(* ===== verification/Posting.thy ===== *)
theory Posting
  imports Fiscal
begin

text \<open>
  The posting engine: \<^verbatim>\<open>PostingService\<close> and \<^verbatim>\<open>JournalService\<close> of \<^verbatim>\<open>accounting/service.py\<close>, the numbering of
  \<^verbatim>\<open>SequenceRepository\<close>, and the request validation of \<^verbatim>\<open>accounting/schemas.py\<close> that every payload
  passes when it is constructed (the length limits of the text fields are left out). Sums of money are
  exact: they would need more than ten thousand million lines to exceed the 28 digits of the decimal
  context.
\<close>

section \<open>Payloads\<close>

record line_input =
  li_account :: uuid
  li_debit :: decimal
  li_credit :: decimal
  li_description :: "string option"

record entry_create =
  ec_journal :: uuid
  ec_date :: date
  ec_narration :: string
  ec_reference :: "string option"
  ec_counterparty :: "string option"
  ec_lines :: "line_input list"
  ec_post :: bool

record entry_update =
  eu_date :: "date option"
  eu_narration :: "string option"
  eu_reference :: "string option"
  eu_lines :: "line_input list option"

definition validate_amount :: "decimal \<Rightarrow> unit result" where
  "validate_amount x = raise_if (\<not> (x \<ge> 0 \<and> money_ok x)) (SchemaError ''not a money amount'')"

definition validate_line :: "line_input \<Rightarrow> unit result" where
  "validate_line l =
     bindr (validate_amount (li_debit l)) (\<lambda>_.
     bindr (validate_amount (li_credit l)) (\<lambda>_.
     bindr (raise_if (li_debit l > 0 \<and> li_credit l > 0)
       (SchemaError ''a line cannot have both a debit and a credit'')) (\<lambda>_.
     raise_if (\<not> li_debit l > 0 \<and> \<not> li_credit l > 0)
       (SchemaError ''a line must have either a debit or a credit''))))"

definition validate_balance :: "line_input list \<Rightarrow> unit result" where
  "validate_balance lines =
     (let debit = sum_list (map li_debit lines); credit = sum_list (map li_credit lines) in
     bindr (raise_if (length lines < 2) (SchemaError ''at least two lines'')) (\<lambda>_.
     bindr (each validate_line lines) (\<lambda>_.
     bindr (raise_if (debit \<noteq> credit) (SchemaError ''entry does not balance'')) (\<lambda>_.
     raise_if (debit = 0) (SchemaError ''entry total cannot be zero'')))))"

definition validate_entry_create :: "entry_create \<Rightarrow> unit result" where
  "validate_entry_create d =
     bindr (validate_balance (ec_lines d)) (\<lambda>_.
     raise_if (card (set (map li_account (ec_lines d))) = 1)
       (SchemaError ''an entry must touch at least two different accounts''))"

definition validate_entry_update :: "entry_update \<Rightarrow> unit result" where
  "validate_entry_update d = (case eu_lines d of None \<Rightarrow> Inr () | Some ls \<Rightarrow> validate_balance ls)"

section \<open>Numbering\<close>

definition next_number ::
    "'h db \<Rightarrow> uuid \<Rightarrow> string \<Rightarrow> string \<Rightarrow> nat \<Rightarrow> ('h db \<times> string) result" where
  "next_number st org scope prefix padding =
     bindr (scalar_one_or_none (filter (\<lambda>s. s_org s = org \<and> s_scope s = scope) (sequences st))) (\<lambda>found.
       let (st1, sq) =
         (case found of
            Some sq \<Rightarrow> (st, sq)
          | None \<Rightarrow>
              let sq = \<lparr>s_id = next_id st, s_org = org, s_scope = scope, s_prefix = prefix,
                        s_next = 1, s_padding = padding\<rparr>
              in (st\<lparr>sequences := sequences st @ [sq], next_id := next_id st + 1\<rparr>, sq));
           value = s_next sq
       in Inr (st1\<lparr>sequences := update_where (\<lambda>s. s_id s = s_id sq) (s_next_update (\<lambda>_. value + 1)) (sequences st1)\<rparr>,
               sequence_format sq value))"

section \<open>Helpers\<close>

definition dedup :: "'a list \<Rightarrow> 'a list" where
  "dedup xs = rev (remdups (rev xs))"

definition find_account :: "'h db \<Rightarrow> uuid \<Rightarrow> account option" where
  "find_account st i = first_or_none (filter (\<lambda>a. a_id a = i) (live_accounts st))"

definition check_postable :: "'h db \<Rightarrow> uuid \<Rightarrow> uuid \<Rightarrow> unit result" where
  "check_postable st org i =
     (case find_account st i of
        None \<Rightarrow> Inl (ValidationError ''An account on this entry does not exist'')
      | Some a \<Rightarrow>
          bindr (raise_if (a_org a \<noteq> org) (ValidationError ''An account on this entry does not exist'')) (\<lambda>_.
          bindr (raise_if (a_group a) (BusinessRuleError ''group account cannot receive postings'')) (\<lambda>_.
          raise_if (\<not> a_active a) (BusinessRuleError ''account is inactive''))))"

definition load_postable_accounts :: "'h db \<Rightarrow> uuid \<Rightarrow> uuid list \<Rightarrow> unit result" where
  "load_postable_accounts st org ids = each (check_postable st org) (dedup ids)"

definition totals :: "entry_line list \<Rightarrow> decimal \<times> decimal" where
  "totals ls = (sum_list (map l_debit ls), sum_list (map l_credit ls))"

fun number_lines :: "int \<Rightarrow> line_input list \<Rightarrow> entry_line list" where
  "number_lines k [] = []"
| "number_lines k (l # ls) =
     \<lparr>l_number = k, l_account = li_account l, l_debit = li_debit l, l_credit = li_credit l,
      l_description = li_description l\<rparr> # number_lines (k + 1) ls"

definition get_entry :: "'h db \<Rightarrow> uuid \<Rightarrow> uuid \<Rightarrow> journal_entry result" where
  "get_entry st org i =
     bindr (scalar_one_or_none (filter (\<lambda>e. e_org e = org \<and> e_id e = i) (entries st))) (\<lambda>found.
     case found of None \<Rightarrow> Inl (NotFoundError ''Journal entry'') | Some e \<Rightarrow> Inr e)"

definition journal_get :: "'h db \<Rightarrow> uuid \<Rightarrow> journal option result" where
  "journal_get st i = scalar_one_or_none (filter (\<lambda>j. j_id j = i) (journals st))"

definition get_by_type :: "'h db \<Rightarrow> uuid \<Rightarrow> journal_type \<Rightarrow> journal option" where
  "get_by_type st org t = first_or_none (filter (\<lambda>j. j_org j = org \<and> j_type j = t \<and> j_active j) (journals st))"

definition add_entry :: "'h db \<Rightarrow> journal_entry \<Rightarrow> 'h db result" where
  "add_entry st e =
     bindr (entry_checks st e) (\<lambda>_.
     Inr (st\<lparr>entries := entries st @ [e], next_id := next_id st + 1\<rparr>))"

definition save_entry :: "'h db \<Rightarrow> journal_entry \<Rightarrow> 'h db result" where
  "save_entry st e =
     bindr (entry_checks st e) (\<lambda>_.
     Inr (st\<lparr>entries := update_where (\<lambda>x. e_id x = e_id e) (\<lambda>_. e) (entries st)\<rparr>))"

section \<open>Posting\<close>

text \<open>The numbering scope and the number prefix of a journal in a year, and the label of the year.\<close>

definition journal_scope :: "journal \<Rightarrow> string \<Rightarrow> string" where
  "journal_scope j year_label = ''journal:'' @ uuid_str (j_id j) @ '':'' @ year_label"

definition journal_number_prefix :: "journal \<Rightarrow> string \<Rightarrow> string" where
  "journal_number_prefix j year_label = j_prefix j @ ''-'' @ year_label @ ''-''"

definition year_label :: "fiscal_year option \<Rightarrow> date \<Rightarrow> string" where
  "year_label fy d = (case fy of Some y \<Rightarrow> fy_name y | None \<Rightarrow> show_int (ord_year d))"

definition post_entry ::
    "'h hooks \<Rightarrow> 'h db \<Rightarrow> uuid \<Rightarrow> uuid \<Rightarrow> uuid \<Rightarrow> instant \<Rightarrow> ('h db \<times> journal_entry) result" where
  "post_entry hs st org i actor now =
     bindr (get_entry st org i) (\<lambda>e.
     bindr (raise_if (is_posted e) (ConflictError ''Entry is already posted'')) (\<lambda>_.
     bindr (raise_if (length (e_lines e) < 2) (BusinessRuleError ''An entry needs at least two lines'')) (\<lambda>_.
     bindr (raise_if (\<not> is_balanced e) (BusinessRuleError ''Entry does not balance'')) (\<lambda>_.
     bindr (resolve_open_period st org (e_date e)) (\<lambda>p.
     bindr (load_postable_accounts st org (map l_account (e_lines e))) (\<lambda>_.
     bindr (journal_get st (e_journal e)) (\<lambda>found.
     case found of
       None \<Rightarrow> Inl AssertionError
     | Some j \<Rightarrow>
         bindr (year_containing st org (e_date e)) (\<lambda>fy.
           let label = year_label fy (e_date e) in
         bindr (next_number st org (journal_scope j label) (journal_number_prefix j label) 4) (\<lambda>(st1, number).
           let e' = e\<lparr>e_period := p_id p, e_number := Some number, e_status := POSTED,
                      e_posted_at := Some now, e_posted_by := Some actor\<rparr>
           in
         bindr (save_entry st1 e') (\<lambda>st2.
           let st3 = audit_record st2 JOURNAL_ENTRY_POSTED INFO actor org ''journal_entry'' (e_id e')
           in Inr (notify_entry_posted hs st3 e', e')))))))))))"

definition create_entry ::
    "'h hooks \<Rightarrow> 'h db \<Rightarrow> uuid \<Rightarrow> entry_create \<Rightarrow> uuid \<Rightarrow> string option \<Rightarrow> uuid option \<Rightarrow> instant \<Rightarrow>
     ('h db \<times> journal_entry) result" where
  "create_entry hs st org data actor source_type source_id now =
     bindr (journal_get st (ec_journal data)) (\<lambda>found.
     case found of
       None \<Rightarrow> Inl (NotFoundError ''Journal'')
     | Some j \<Rightarrow>
         bindr (raise_if (j_org j \<noteq> org) (NotFoundError ''Journal'')) (\<lambda>_.
         bindr (raise_if (\<not> j_active j) (BusinessRuleError ''Journal is inactive'')) (\<lambda>_.
         bindr (resolve_open_period st org (ec_date data)) (\<lambda>p.
         bindr (load_postable_accounts st org (map li_account (ec_lines data))) (\<lambda>_.
           let ls = number_lines 1 (ec_lines data);
               (td, tc) = totals ls;
               e = \<lparr>e_id = next_id st, e_org = org, e_journal = j_id j, e_period = p_id p, e_number = None,
                    e_date = ec_date data, e_narration = ec_narration data, e_reference = ec_reference data,
                    e_counterparty = ec_counterparty data, e_status = DRAFT, e_total_debit = td,
                    e_total_credit = tc, e_currency = ''INR'', e_posted_at = None, e_posted_by = None,
                    e_created_by = Some actor, e_reversed_at = None, e_reverses = None,
                    e_source_type = source_type, e_source_id = source_id, e_lines = ls\<rparr>
           in
         bindr (raise_if (td \<noteq> tc) (BusinessRuleError ''Entry does not balance'')) (\<lambda>_.
         bindr (add_entry st e) (\<lambda>st1.
         if ec_post data then post_entry hs st1 org (e_id e) actor now
         else Inr (audit_record st1 JOURNAL_ENTRY_CREATED INFO actor org ''journal_entry'' (e_id e), e))))))))"

definition update_entry ::
    "'h db \<Rightarrow> uuid \<Rightarrow> uuid \<Rightarrow> entry_update \<Rightarrow> ('h db \<times> journal_entry) result" where
  "update_entry st org i data =
     bindr (get_entry st org i) (\<lambda>e.
     bindr (raise_if (\<not> is_editable e) (BusinessRuleError ''This entry cannot be edited'')) (\<lambda>_.
     bindr (case eu_date data of
              None \<Rightarrow> Inr e
            | Some d \<Rightarrow>
                if d \<noteq> e_date e
                then bindr (resolve_open_period st org d) (\<lambda>p. Inr (e\<lparr>e_date := d, e_period := p_id p\<rparr>))
                else Inr e) (\<lambda>e1.
       let e2 = (case eu_narration data of None \<Rightarrow> e1 | Some n \<Rightarrow> e1\<lparr>e_narration := n\<rparr>);
           e3 = (case eu_reference data of None \<Rightarrow> e2 | Some r \<Rightarrow> e2\<lparr>e_reference := Some r\<rparr>)
       in
     bindr (case eu_lines data of
              None \<Rightarrow> Inr e3
            | Some inputs \<Rightarrow>
                bindr (load_postable_accounts st org (map li_account inputs)) (\<lambda>_.
                  let ls = number_lines 1 inputs; (td, tc) = totals ls in
                bindr (raise_if (td \<noteq> tc) (BusinessRuleError ''Entry does not balance'')) (\<lambda>_.
                Inr (e3\<lparr>e_lines := ls, e_total_debit := td, e_total_credit := tc\<rparr>)))) (\<lambda>e4.
     bindr (save_entry st e4) (\<lambda>st1. Inr (st1, e4))))))"

definition mirror_line :: "entry_line \<Rightarrow> entry_line" where
  "mirror_line l = l\<lparr>l_debit := l_credit l, l_credit := l_debit l\<rparr>"

definition reverse_entry ::
    "'h hooks \<Rightarrow> 'h db \<Rightarrow> uuid \<Rightarrow> uuid \<Rightarrow> uuid \<Rightarrow> date option \<Rightarrow> string option \<Rightarrow> instant \<Rightarrow>
     ('h db \<times> journal_entry) result" where
  "reverse_entry hs st org i actor reversal_date narration now =
     bindr (get_entry st org i) (\<lambda>original.
     bindr (raise_if (e_status original = DRAFT) (BusinessRuleError ''This entry is still a draft'')) (\<lambda>_.
     bindr (raise_if (e_status original = REVERSED) (ConflictError ''Entry has already been reversed'')) (\<lambda>_.
       let effective_date = (case reversal_date of Some d \<Rightarrow> d | None \<Rightarrow> e_date original) in
     bindr (raise_if (effective_date < e_date original)
       (ValidationError ''A reversal cannot be dated before the entry it reverses'')) (\<lambda>_.
     bindr (resolve_open_period st org effective_date) (\<lambda>p.
       let ls = map mirror_line (e_lines original);
           (td, tc) = totals ls;
           default_narration = ''Reversal of '' @ (case e_number original of Some n \<Rightarrow> n | None \<Rightarrow> ''None'') @
             '': '' @ e_narration original;
           reversal =
             \<lparr>e_id = next_id st, e_org = org, e_journal = e_journal original, e_period = p_id p, e_number = None,
              e_date = effective_date,
              e_narration = (case narration of Some n \<Rightarrow> if n = [] then default_narration else n
                             | None \<Rightarrow> default_narration),
              e_reference = e_reference original, e_counterparty = None, e_status = DRAFT,
              e_total_debit = td, e_total_credit = tc, e_currency = ''INR'', e_posted_at = None,
              e_posted_by = None, e_created_by = Some actor, e_reversed_at = None,
              e_reverses = Some (e_id original), e_source_type = e_source_type original,
              e_source_id = e_source_id original, e_lines = ls\<rparr>
       in
     bindr (add_entry st reversal) (\<lambda>st1.
     bindr (post_entry hs st1 org (e_id reversal) actor now) (\<lambda>(st2, posted).
     bindr (save_entry st2 (original\<lparr>e_status := REVERSED, e_reversed_at := Some now\<rparr>)) (\<lambda>st3.
     Inr (audit_record st3 JOURNAL_ENTRY_REVERSED WARNING actor org ''journal_entry'' (e_id original), posted)))))))))"

definition delete_draft :: "'h db \<Rightarrow> uuid \<Rightarrow> uuid \<Rightarrow> uuid \<Rightarrow> 'h db result" where
  "delete_draft st org i actor =
     bindr (get_entry st org i) (\<lambda>e.
     bindr (raise_if (is_posted e) (BusinessRuleError ''Posted entries cannot be deleted'')) (\<lambda>_.
     Inr (audit_record (st\<lparr>entries := filter (\<lambda>x. e_id x \<noteq> e_id e) (entries st)\<rparr>)
       JOURNAL_ENTRY_DELETED INFO actor org ''journal_entry'' i)))"

definition post_simple ::
    "'h hooks \<Rightarrow> 'h db \<Rightarrow> uuid \<Rightarrow> uuid \<Rightarrow> journal_type \<Rightarrow> date \<Rightarrow> string \<Rightarrow> string \<Rightarrow> string \<Rightarrow> decimal \<Rightarrow>
     string option \<Rightarrow> string option \<Rightarrow> uuid option \<Rightarrow> instant \<Rightarrow> ('h db \<times> journal_entry) result" where
  "post_simple hs st org actor jt entry_date narration debit_key credit_key amount reference source_type source_id now =
     bindr (raise_if (amount \<le> 0) (ValidationError ''Amount must be positive'')) (\<lambda>_.
     bindr (resolve_system_account st org debit_key) (\<lambda>da.
     bindr (resolve_system_account st org credit_key) (\<lambda>ca.
     case get_by_type st org jt of
       None \<Rightarrow> Inl (BusinessRuleError ''No journal of this type is configured for this organization'')
     | Some j \<Rightarrow>
         let data = \<lparr>ec_journal = j_id j, ec_date = entry_date, ec_narration = narration,
               ec_reference = reference, ec_counterparty = None,
               ec_lines = [\<lparr>li_account = a_id da, li_debit = amount, li_credit = 0, li_description = None\<rparr>,
                           \<lparr>li_account = a_id ca, li_debit = 0, li_credit = amount, li_description = None\<rparr>],
               ec_post = True\<rparr>
         in bindr (validate_entry_create data) (\<lambda>_.
            create_entry hs st org data actor source_type source_id now))))"

section \<open>Journals and provisioning\<close>

record journal_create =
  jc_code :: string
  jc_name :: string
  jc_type :: journal_type
  jc_prefix :: string
  jc_default :: "uuid option"

definition create_journal :: "'h db \<Rightarrow> uuid \<Rightarrow> journal_create \<Rightarrow> ('h db \<times> journal) result" where
  "create_journal st org data =
     bindr (raise_if (\<exists>j \<in> set (journals st). j_org j = org \<and> j_code j = jc_code data)
       (ConflictError ''Journal code is already in use'')) (\<lambda>_.
     bindr (case jc_default data of
              None \<Rightarrow> Inr ()
            | Some i \<Rightarrow>
                bindr (get_account st org i) (\<lambda>a.
                raise_if (\<not> is_postable a) (ValidationError ''A journal's default account must be postable''))) (\<lambda>_.
       let j = \<lparr>j_id = next_id st, j_org = org, j_code = jc_code data, j_name = jc_name data,
                j_type = jc_type data, j_prefix = jc_prefix data, j_default = jc_default data,
                j_active = True, j_system = False\<rparr>
       in bindr (add_journal st j) (\<lambda>st1. Inr (st1, j))))"

definition provision_books :: "'h db \<Rightarrow> uuid \<Rightarrow> int \<Rightarrow> date \<Rightarrow> 'h db result" where
  "provision_books st org start_month today =
     bindr (seed_defaults st org) (\<lambda>(st1, _, _).
     bindr (ensure_year_for st1 org start_month today) (\<lambda>(st2, _). Inr st2))"

end
