(* ===== verification/Reports.thy ===== *)
theory Reports
  imports Posting "HOL-Library.List_Lexorder" "HOL-Library.Char_ord"
begin

text \<open>
  The financial statements, \<^verbatim>\<open>accounting/reports.py\<close>, with the aggregate queries of
  \<^verbatim>\<open>accounting/repository.py\<close> they are drawn from. The database sums \<^verbatim>\<open>NUMERIC\<close> columns exactly, and the
  totals the code adds up itself stay far below the 28 digits of the decimal context, so they are exact
  here; only the proportional shares of the cash flow statement go through the context. Texts are compared
  by code point.
\<close>

section \<open>Queries\<close>

record account_balance =
  ab_account :: uuid
  ab_debit :: decimal
  ab_credit :: decimal

text \<open>Posted entries dated in a window, the lower end of which may be missing.\<close>

definition in_window :: "date option \<Rightarrow> date \<Rightarrow> journal_entry \<Rightarrow> bool" where
  "in_window from_date to_date e \<longleftrightarrow>
     is_posted e \<and> e_date e \<le> to_date \<and> (case from_date of None \<Rightarrow> True | Some d \<Rightarrow> d \<le> e_date e)"

definition window_entries :: "'h db \<Rightarrow> uuid \<Rightarrow> date option \<Rightarrow> date \<Rightarrow> journal_entry list" where
  "window_entries st org from_date to_date =
     filter (\<lambda>e. e_org e = org \<and> in_window from_date to_date e) (entries st)"

definition window_lines :: "'h db \<Rightarrow> uuid \<Rightarrow> date option \<Rightarrow> date \<Rightarrow> entry_line list" where
  "window_lines st org from_date to_date = concat (map e_lines (window_entries st org from_date to_date))"

definition sum_lines :: "uuid \<Rightarrow> entry_line list \<Rightarrow> account_balance" where
  "sum_lines i ls = \<lparr>ab_account = i, ab_debit = sum_list (map l_debit ls), ab_credit = sum_list (map l_credit ls)\<rparr>"

text \<open>Grouped by account: an account without a line in the window has no group.\<close>

definition balances :: "'h db \<Rightarrow> uuid \<Rightarrow> date \<Rightarrow> date option \<Rightarrow> uuid \<Rightarrow> account_balance option" where
  "balances st org to_date from_date i =
     (let ls = filter (\<lambda>l. l_account l = i) (window_lines st org from_date to_date)
      in if ls = [] then None else Some (sum_lines i ls))"

text \<open>One account, whatever the organization of the entry.\<close>

definition balance_for :: "'h db \<Rightarrow> uuid \<Rightarrow> date \<Rightarrow> date option \<Rightarrow> account_balance" where
  "balance_for st i to_date from_date =
     sum_lines i (filter (\<lambda>l. l_account l = i) (concat (map e_lines (filter (in_window from_date to_date) (entries st)))))"

definition list_for_org :: "'h db \<Rightarrow> uuid \<Rightarrow> bool \<Rightarrow> bool \<Rightarrow> account list" where
  "list_for_org st org include_inactive postable_only =
     sort_key a_code (filter (\<lambda>a. a_org a = org \<and> (include_inactive \<or> a_active a) \<and> (\<not> postable_only \<or> \<not> a_group a))
       (live_accounts st))"

definition journal_of :: "'h db \<Rightarrow> uuid \<Rightarrow> journal option" where
  "journal_of st i = first_or_none (filter (\<lambda>j. j_id j = i) (journals st))"

text \<open>The inner joins of \<^verbatim>\<open>ledger_lines\<close>: date, then number, then line number.\<close>

definition ledger_lines :: "'h db \<Rightarrow> uuid \<Rightarrow> uuid \<Rightarrow> date \<Rightarrow> date \<Rightarrow> (entry_line \<times> journal_entry \<times> journal) list" where
  "ledger_lines st org i from_date to_date =
     sort_key (\<lambda>(l, e, j). e_date e) (sort_key (\<lambda>(l, e, j). case e_number e of Some n \<Rightarrow> n | None \<Rightarrow> [])
       (sort_key (\<lambda>(l, e, j). l_number l)
         (concat (map (\<lambda>e. case journal_of st (e_journal e) of
              None \<Rightarrow> []
            | Some j \<Rightarrow> map (\<lambda>l. (l, e, j)) (filter (\<lambda>l. l_account l = i) (e_lines e)))
           (window_entries st org (Some from_date) to_date)))))"

definition entries_touching_accounts :: "'h db \<Rightarrow> uuid \<Rightarrow> uuid list \<Rightarrow> date \<Rightarrow> date \<Rightarrow> journal_entry list" where
  "entries_touching_accounts st org ids from_date to_date =
     (if ids = [] then []
      else sort_key e_date (sort_key (\<lambda>e. case e_number e of Some n \<Rightarrow> n | None \<Rightarrow> [])
        (filter (\<lambda>e. \<exists>l \<in> set (e_lines e). l_account l \<in> set ids) (window_entries st org (Some from_date) to_date))))"

section \<open>Trial balance\<close>

record trial_row =
  tr_account :: uuid
  tr_code :: string
  tr_name :: string
  tr_type :: account_type
  tr_debit :: decimal
  tr_credit :: decimal
  tr_gross_debit :: decimal
  tr_gross_credit :: decimal
  tr_parties :: "string list"

record trial_balance_report =
  tb_as_of :: date
  tb_from :: "date option"
  tb_rows :: "trial_row list"
  tb_debit :: decimal
  tb_credit :: decimal
  tb_balanced :: bool
  tb_reversed :: nat

definition counterparties :: "'h db \<Rightarrow> uuid \<Rightarrow> date \<Rightarrow> date option \<Rightarrow> uuid \<Rightarrow> string list" where
  "counterparties st org as_of from_date i =
     sort (remdups (concat (map (\<lambda>e. case e_counterparty e of
         None \<Rightarrow> []
       | Some p \<Rightarrow> if \<exists>l \<in> set (e_lines e). l_account l = i then [p] else []) (window_entries st org from_date as_of))))"

definition reversed_count :: "'h db \<Rightarrow> uuid \<Rightarrow> date \<Rightarrow> date option \<Rightarrow> nat" where
  "reversed_count st org as_of from_date =
     length (filter (\<lambda>e. e_status e = REVERSED) (window_entries st org from_date as_of))"

definition trial_row_of ::
    "(uuid \<Rightarrow> account_balance option) \<Rightarrow> (uuid \<Rightarrow> string list) \<Rightarrow> bool \<Rightarrow> account \<Rightarrow> trial_row option" where
  "trial_row_of bal parties include_zero a =
     (if bal (a_id a) = None \<and> \<not> include_zero then None
      else
        let debit = (case bal (a_id a) of Some b \<Rightarrow> ab_debit b | None \<Rightarrow> 0);
            credit = (case bal (a_id a) of Some b \<Rightarrow> ab_credit b | None \<Rightarrow> 0);
            net = debit - credit;
            had_activity = (debit \<noteq> 0 \<or> credit \<noteq> 0)
        in if net = 0 \<and> \<not> had_activity \<and> \<not> include_zero then None
           else Some \<lparr>tr_account = a_id a, tr_code = a_code a, tr_name = a_name a, tr_type = a_type a,
                      tr_debit = (if net > 0 then net else 0), tr_credit = (if net < 0 then - net else 0),
                      tr_gross_debit = debit, tr_gross_credit = credit, tr_parties = parties (a_id a)\<rparr>)"

definition trial_balance :: "'h db \<Rightarrow> uuid \<Rightarrow> date \<Rightarrow> date option \<Rightarrow> bool \<Rightarrow> trial_balance_report" where
  "trial_balance st org as_of from_date include_zero =
     (let rows = List.map_filter
            (trial_row_of (balances st org as_of from_date) (counterparties st org as_of from_date) include_zero)
            (list_for_org st org True True);
          total_debit = sum_list (map tr_debit rows);
          total_credit = sum_list (map tr_credit rows)
      in \<lparr>tb_as_of = as_of, tb_from = from_date, tb_rows = rows, tb_debit = total_debit, tb_credit = total_credit,
          tb_balanced = (total_debit = total_credit), tb_reversed = reversed_count st org as_of from_date\<rparr>)"

section \<open>General ledger\<close>

record ledger_line =
  ll_entry :: uuid
  ll_number :: "string option"
  ll_date :: date
  ll_narration :: string
  ll_reference :: "string option"
  ll_journal :: string
  ll_debit :: decimal
  ll_credit :: decimal
  ll_running :: decimal

record account_ledger_report =
  al_account :: account
  al_from :: date
  al_to :: date
  al_opening :: decimal
  al_closing :: decimal
  al_debit :: decimal
  al_credit :: decimal
  al_lines :: "ledger_line list"

text \<open>The loop over the rows, with the running balance; it returns the lines and the last balance.\<close>

fun run_ledger :: "account_type \<Rightarrow> decimal \<Rightarrow> (entry_line \<times> journal_entry \<times> journal) list \<Rightarrow> ledger_line list \<times> decimal" where
  "run_ledger t running [] = ([], running)"
| "run_ledger t running ((l, e, j) # rows) =
     (let running' = (if normal_balance t = DEBIT then running + (l_debit l - l_credit l)
                      else running + (l_credit l - l_debit l));
          (ls, final) = run_ledger t running' rows
      in (\<lparr>ll_entry = e_id e, ll_number = e_number e, ll_date = e_date e, ll_narration = e_narration e,
           ll_reference = e_reference e, ll_journal = j_code j, ll_debit = l_debit l, ll_credit = l_credit l,
           ll_running = running'\<rparr> # ls, final))"

definition account_ledger :: "'h db \<Rightarrow> uuid \<Rightarrow> uuid \<Rightarrow> date \<Rightarrow> date \<Rightarrow> account_ledger_report result" where
  "account_ledger st org i from_date to_date =
     bindr (raise_if (to_date < from_date) (ValidationError ''to_date cannot be before from_date'')) (\<lambda>_.
     bindr (account_get st i) (\<lambda>found.
     case found of
       None \<Rightarrow> Inl (NotFoundError ''Account'')
     | Some a \<Rightarrow>
         bindr (raise_if (a_org a \<noteq> org) (NotFoundError ''Account'')) (\<lambda>_.
           bindr (shift_days from_date (- 1)) (\<lambda>day_before.
           let opening = balance_for st i day_before None;
               opening_balance = signed_balance (a_type a) (ab_debit opening) (ab_credit opening);
               rows = ledger_lines st org i from_date to_date;
               (ls, running) = run_ledger (a_type a) opening_balance rows
           in Inr \<lparr>al_account = a, al_from = from_date, al_to = to_date, al_opening = opening_balance,
                   al_closing = running, al_debit = sum_list (map (\<lambda>(l, e, j). l_debit l) rows),
                   al_credit = sum_list (map (\<lambda>(l, e, j). l_credit l) rows), al_lines = ls\<rparr>))))"

section \<open>Profit and loss\<close>

record report_line =
  rl_label :: string
  rl_amount :: decimal
  rl_level :: int
  rl_account :: "uuid option"
  rl_code :: "string option"

definition account_line :: "account \<Rightarrow> decimal \<Rightarrow> report_line" where
  "account_line a amount =
     \<lparr>rl_label = a_name a, rl_amount = amount, rl_level = 1, rl_account = Some (a_id a), rl_code = Some (a_code a)\<rparr>"

text \<open>The signed balance of an account over a grouped query, where it has a group.\<close>

definition amount_in :: "(uuid \<Rightarrow> account_balance option) \<Rightarrow> account \<Rightarrow> decimal option" where
  "amount_in bal a = map_option (\<lambda>b. signed_balance (a_type a) (ab_debit b) (ab_credit b)) (bal (a_id a))"

text \<open>The accounts of some kind that have a balance other than zero, with their amounts.\<close>

definition nonzero_lines :: "(uuid \<Rightarrow> account_balance option) \<Rightarrow> (account \<Rightarrow> bool) \<Rightarrow> account list \<Rightarrow> report_line list" where
  "nonzero_lines bal kind as =
     List.map_filter (\<lambda>a. if \<not> kind a then None
        else case amount_in bal a of None \<Rightarrow> None
             | Some x \<Rightarrow> if x = 0 then None else Some (account_line a x)) as"

definition lines_total :: "report_line list \<Rightarrow> decimal" where
  "lines_total ls = sum_list (map rl_amount ls)"

record profit_and_loss_report =
  pl_from :: date
  pl_to :: date
  pl_income :: "report_line list"
  pl_expenses :: "report_line list"
  pl_total_income :: decimal
  pl_total_expenses :: decimal
  pl_cogs :: decimal
  pl_gross_profit :: decimal
  pl_net_profit :: decimal

definition profit_and_loss :: "'h db \<Rightarrow> uuid \<Rightarrow> date \<Rightarrow> date \<Rightarrow> profit_and_loss_report result" where
  "profit_and_loss st org from_date to_date =
     bindr (raise_if (to_date < from_date) (ValidationError ''to_date cannot be before from_date'')) (\<lambda>_.
       let as = sort_key a_code (list_for_org st org True True);
           bal = balances st org to_date (Some from_date);
           income = nonzero_lines bal (\<lambda>a. a_type a = INCOME) as;
           expenses = nonzero_lines bal (\<lambda>a. a_type a = EXPENSE) as;
           cogs = lines_total (nonzero_lines bal (\<lambda>a. a_type a = EXPENSE \<and> a_subtype a = COST_OF_GOODS_SOLD) as)
       in Inr \<lparr>pl_from = from_date, pl_to = to_date, pl_income = income, pl_expenses = expenses,
               pl_total_income = lines_total income, pl_total_expenses = lines_total expenses, pl_cogs = cogs,
               pl_gross_profit = lines_total income - cogs,
               pl_net_profit = lines_total income - lines_total expenses\<rparr>)"

section \<open>Balance sheet\<close>

record balance_sheet_report =
  bs_as_of :: date
  bs_assets :: "report_line list"
  bs_liabilities :: "report_line list"
  bs_equity :: "report_line list"
  bs_total_assets :: decimal
  bs_total_liabilities :: decimal
  bs_total_equity :: decimal
  bs_earnings :: decimal
  bs_balanced :: bool

text \<open>Income increases the earnings, expenses reduce them.\<close>

definition earning_of :: "(uuid \<Rightarrow> account_balance option) \<Rightarrow> account \<Rightarrow> decimal" where
  "earning_of bal a =
     (if \<not> is_profit_and_loss (a_type a) then 0
      else case amount_in bal a of None \<Rightarrow> 0 | Some x \<Rightarrow> if a_type a = INCOME then x else - x)"

definition earnings_over :: "(uuid \<Rightarrow> account_balance option) \<Rightarrow> account list \<Rightarrow> decimal" where
  "earnings_over bal as = sum_list (map (earning_of bal) as)"

definition balance_sheet :: "'h db \<Rightarrow> uuid \<Rightarrow> date \<Rightarrow> balance_sheet_report result" where
  "balance_sheet st org as_of =
     (let as = list_for_org st org True True;
          by_code = sort_key a_code as;
          bal = balances st org as_of None;
          assets = nonzero_lines bal (\<lambda>a. a_type a = ASSET) by_code;
          liabilities = nonzero_lines bal (\<lambda>a. a_type a = LIABILITY) by_code;
          equity = nonzero_lines bal (\<lambda>a. a_type a = EQUITY) by_code
      in
      bindr (year_containing st org as_of) (\<lambda>fy.
        let earnings = (case fy of
              None \<Rightarrow> earnings_over bal by_code
            | Some y \<Rightarrow> earnings_over (balances st org as_of (Some (fy_start y))) as);
            equity_lines = equity @ (if earnings \<noteq> 0
              then [\<lparr>rl_label = ''Current period earnings'', rl_amount = earnings, rl_level = 1, rl_account = None, rl_code = None\<rparr>]
              else []);
            total_equity = lines_total equity + earnings
        in Inr \<lparr>bs_as_of = as_of, bs_assets = assets, bs_liabilities = liabilities, bs_equity = equity_lines,
                bs_total_assets = lines_total assets, bs_total_liabilities = lines_total liabilities,
                bs_total_equity = total_equity, bs_earnings = earnings,
                bs_balanced = (lines_total assets = lines_total liabilities + total_equity)\<rparr>))"

section \<open>Cash flow\<close>

record cash_flow_report =
  cf_from :: date
  cf_to :: date
  cf_opening :: decimal
  cf_closing :: decimal
  cf_net :: decimal
  cf_inflows :: "report_line list"
  cf_outflows :: "report_line list"
  cf_total_inflows :: decimal
  cf_total_outflows :: decimal
  cf_reconciles :: bool

definition line_amount :: "entry_line \<Rightarrow> decimal" where
  "line_amount l = (if l_debit l > 0 then l_debit l else l_credit l)"

text \<open>The two dictionaries in insertion order, and the two totals.\<close>

record cash_totals =
  ct_in :: "(uuid \<times> decimal) list"
  ct_out :: "(uuid \<times> decimal) list"
  ct_total_in :: decimal
  ct_total_out :: decimal

fun add_to :: "(uuid \<times> decimal) list \<Rightarrow> uuid \<Rightarrow> decimal \<Rightarrow> (uuid \<times> decimal) list" where
  "add_to [] i x = [(i, dadd 0 x)]"
| "add_to ((k, v) # m) i x = (if k = i then (k, dadd v x) # m else (k, v) # add_to m i x)"

definition add_share :: "decimal \<Rightarrow> decimal \<Rightarrow> cash_totals \<Rightarrow> entry_line \<Rightarrow> cash_totals" where
  "add_share movement counter_total t other =
     (let share = ddiv (dmul \<bar>movement\<bar> (line_amount other)) counter_total
      in if movement > 0
         then t\<lparr>ct_in := add_to (ct_in t) (l_account other) share, ct_total_in := dadd (ct_total_in t) share\<rparr>
         else t\<lparr>ct_out := add_to (ct_out t) (l_account other) share, ct_total_out := dadd (ct_total_out t) share\<rparr>)"

definition add_movement :: "uuid list \<Rightarrow> cash_totals \<Rightarrow> journal_entry \<Rightarrow> cash_totals" where
  "add_movement cash_ids t e =
     (let cash_lines = filter (\<lambda>l. l_account l \<in> set cash_ids) (e_lines e);
          counter = filter (\<lambda>l. l_account l \<notin> set cash_ids) (e_lines e);
          counter_total = sum_list (map line_amount counter);
          movement = sum_list (map (\<lambda>l. l_debit l - l_credit l) cash_lines)
      in if counter = [] then t
         else if counter_total = 0 then t
         else if movement = 0 then t
         else foldl (add_share movement counter_total) t counter)"

definition to_lines :: "account list \<Rightarrow> (uuid \<times> decimal) list \<Rightarrow> report_line list" where
  "to_lines as m =
     sort_key (\<lambda>l. - rl_amount l) (map (\<lambda>(i, x).
       \<lparr>rl_label = (case first_or_none (filter (\<lambda>a. a_id a = i) as) of Some a \<Rightarrow> a_name a | None \<Rightarrow> ''Unknown''),
        rl_amount = x, rl_level = 1, rl_account = Some i,
        rl_code = map_option a_code (first_or_none (filter (\<lambda>a. a_id a = i) as))\<rparr>)
       (filter (\<lambda>(i, x). x \<noteq> 0) m))"

definition cash_at :: "'h db \<Rightarrow> account list \<Rightarrow> date \<Rightarrow> decimal" where
  "cash_at st cash on =
     sum_list (map (\<lambda>a. let b = balance_for st (a_id a) on None in signed_balance (a_type a) (ab_debit b) (ab_credit b)) cash)"

definition cash_flow :: "'h db \<Rightarrow> uuid \<Rightarrow> date \<Rightarrow> date \<Rightarrow> cash_flow_report result" where
  "cash_flow st org from_date to_date =
     bindr (raise_if (to_date < from_date) (ValidationError ''to_date cannot be before from_date'')) (\<lambda>_.
       let as = list_for_org st org True True;
           cash = filter (\<lambda>a. is_cash_equivalent (a_subtype a)) as
       in if cash = []
          then Inr \<lparr>cf_from = from_date, cf_to = to_date, cf_opening = 0, cf_closing = 0, cf_net = 0, cf_inflows = [],
                    cf_outflows = [], cf_total_inflows = 0, cf_total_outflows = 0, cf_reconciles = True\<rparr>
          else
            bindr (shift_days from_date (- 1)) (\<lambda>day_before.
            let opening = cash_at st cash day_before;
                ids = map a_id cash;
                t = foldl (add_movement ids) \<lparr>ct_in = [], ct_out = [], ct_total_in = 0, ct_total_out = 0\<rparr>
                      (entries_touching_accounts st org ids from_date to_date);
                closing = cash_at st cash to_date;
                net = closing - opening
            in Inr \<lparr>cf_from = from_date, cf_to = to_date, cf_opening = opening, cf_closing = closing, cf_net = net,
                    cf_inflows = to_lines as (ct_in t), cf_outflows = to_lines as (ct_out t),
                    cf_total_inflows = ct_total_in t, cf_total_outflows = ct_total_out t,
                    cf_reconciles = (dadd (ct_total_in t) (- ct_total_out t) = net)\<rparr>))"

end
