(* ===== verification/Ledger.thy ===== *)
theory Ledger
  imports Posting
begin

text \<open>
  The ledger as a transition system: one step for every operation that a request can run, with the
  payload validation in front of it, and the invariants of every reachable database. The invariants are
  proved by rule induction over the steps; the per-operation lemmas come first, in terms of what each
  operation does to the tables.
\<close>

section \<open>Replacing a row\<close>

lemma replace_row:
  assumes "distinct (map key xs)" and "x \<in> set xs"
  shows "set (update_where (\<lambda>y. key y = key x) (\<lambda>_. x') xs) = insert x' (set xs - {x})"
proof -
  have "y = x" if "y \<in> set xs" "key y = key x" for y
    using assms that by (metis distinct_map inj_onD)
  then show ?thesis using assms(2) by (auto simp: set_update_where)
qed

lemma map_key_replace:
  "key x' = key x \<Longrightarrow> map key (update_where (\<lambda>y. key y = key x) (\<lambda>_. x') xs) = map key xs"
  by (induction xs) auto

section \<open>What the operations do\<close>

lemma get_entry_ok: "get_entry st org i = Inr e \<Longrightarrow> e \<in> set (entries st) \<and> e_org e = org \<and> e_id e = i"
  by (auto simp: get_entry_def split: option.splits dest: scalar_one_or_none_Some)

lemma check_postable_ok:
  assumes "check_postable st org i = Inr u"
  shows "\<exists>a \<in> set (accounts st). a_id a = i \<and> a_org a = org \<and> \<not> a_group a \<and> a_active a \<and> a_deleted a = None"
proof -
  from assms obtain a where "find_account st i = Some a" "a_org a = org" "\<not> a_group a" "a_active a"
    by (auto simp: check_postable_def split: option.splits)
  then show ?thesis
    by (auto simp: find_account_def live_accounts_def dest!: first_or_none_Some)
qed

lemma load_postable_ok:
  "load_postable_accounts st org ids = Inr u \<Longrightarrow> i \<in> set ids \<Longrightarrow>
     \<exists>a \<in> set (accounts st). a_id a = i \<and> a_org a = org \<and> \<not> a_group a \<and> a_active a \<and> a_deleted a = None"
  by (rule check_postable_ok [where u = "()"])
     (auto simp: load_postable_accounts_def each_eq_Inr_iff dedup_def)

lemma load_postable_cong:
  assumes "accounts st = accounts st'"
  shows "load_postable_accounts st = load_postable_accounts st'"
proof -
  have "check_postable st = check_postable st'"
    using assms by (simp add: check_postable_def find_account_def live_accounts_def fun_eq_iff)
  then show ?thesis by (simp add: load_postable_accounts_def [abs_def])
qed

lemma resolve_open_cong: "periods st = periods st' \<Longrightarrow> resolve_open_period st = resolve_open_period st'"
  by (simp add: resolve_open_period_def period_containing_def fun_eq_iff)

lemma set_number_lines_accounts: "l_account ` set (number_lines k ls) = li_account ` set ls"
  by (induction ls arbitrary: k) auto

lemma totals_number_lines:
  "totals (number_lines k ls) = (sum_list (map li_debit ls), sum_list (map li_credit ls))"
  by (induction ls arbitrary: k) (auto simp: totals_def)

lemma length_number_lines [simp]: "length (number_lines k ls) = length ls"
  by (induction ls arbitrary: k) auto

lemma totals_mirror: "totals (map mirror_line ls) = (snd (totals ls), fst (totals ls))"
  by (simp add: totals_def mirror_line_def comp_def)

lemma mirror_line_simps [simp]:
  "l_account (mirror_line l) = l_account l" "l_debit (mirror_line l) = l_credit l"
  "l_credit (mirror_line l) = l_debit l" "l_number (mirror_line l) = l_number l"
  by (simp_all add: mirror_line_def)

lemma mirror_mirror [simp]: "mirror_line (mirror_line l) = l"
  by (simp add: mirror_line_def)

text \<open>The sequence row a number was taken from, as it was before, and the state afterwards.\<close>

lemma next_number_ok:
  assumes "next_number st org scope prefix padding = Inr (st1, number)"
  obtains (existing) sq where "sq \<in> set (sequences st)" "s_org sq = org" "s_scope sq = scope"
      "number = sequence_format sq (s_next sq)"
      "st1 = st\<lparr>sequences := update_where (\<lambda>s. s_id s = s_id sq) (s_next_update (\<lambda>_. s_next sq + 1)) (sequences st)\<rparr>"
  | (fresh) sq where "\<forall>s \<in> set (sequences st). \<not> (s_org s = org \<and> s_scope s = scope)"
      "sq = \<lparr>s_id = next_id st, s_org = org, s_scope = scope, s_prefix = prefix, s_next = 1, s_padding = padding\<rparr>"
      "number = sequence_format sq 1"
      "st1 = st\<lparr>sequences := update_where (\<lambda>s. s_id s = s_id sq) (s_next_update (\<lambda>_. 2)) (sequences st @ [sq]),
                 next_id := next_id st + 1\<rparr>"
proof -
  from assms obtain f where f: "scalar_one_or_none (filter (\<lambda>s. s_org s = org \<and> s_scope s = scope) (sequences st)) = Inr f"
    by (auto simp: next_number_def)
  show thesis
  proof (cases f)
    case None
    with f have "\<forall>s \<in> set (sequences st). \<not> (s_org s = org \<and> s_scope s = scope)"
      by (simp add: scalar_one_or_none_None filter_empty_conv)
    then show thesis using f None assms by (intro fresh) (auto simp: next_number_def Let_def)
  next
    case (Some sq)
    with f have "sq \<in> set (sequences st)" "s_org sq = org" "s_scope sq = scope"
      by (auto dest: scalar_one_or_none_Some)
    then show thesis using f Some assms by (intro existing) (auto simp: next_number_def Let_def)
  qed
qed

lemma next_number_frame:
  assumes "next_number st org scope prefix padding = Inr (st1, number)"
  shows "accounts st1 = accounts st" "years st1 = years st" "periods st1 = periods st"
    "journals st1 = journals st" "entries st1 = entries st" "audit_log st1 = audit_log st"
    "hook_state st1 = hook_state st" "next_id st \<le> next_id st1"
  using assms by (cases rule: next_number_ok; simp)+

lemma save_entry_ok:
  "save_entry st e = Inr st' \<Longrightarrow>
     entry_checks st e = Inr () \<and> st' = st\<lparr>entries := update_where (\<lambda>x. e_id x = e_id e) (\<lambda>_. e) (entries st)\<rparr>"
  by (auto simp: save_entry_def)

lemma add_entry_ok:
  "add_entry st e = Inr st' \<Longrightarrow>
     entry_checks st e = Inr () \<and> st' = st\<lparr>entries := entries st @ [e], next_id := next_id st + 1\<rparr>"
  by (auto simp: add_entry_def)

lemma post_entry_ok:
  assumes "post_entry hs st org i actor now = Inr (st', e')"
  obtains e p j fy st1 number where
    "e \<in> set (entries st)" "e_org e = org" "e_id e = i" "e_status e = DRAFT"
    "2 \<le> length (e_lines e)" "is_balanced e"
    "resolve_open_period st org (e_date e) = Inr p"
    "load_postable_accounts st org (map l_account (e_lines e)) = Inr ()"
    "next_number st org (journal_scope j (year_label fy (e_date e)))
       (journal_number_prefix j (year_label fy (e_date e))) 4 = Inr (st1, number)"
    "e' = e\<lparr>e_period := p_id p, e_number := Some number, e_status := POSTED, e_posted_at := Some now,
            e_posted_by := Some actor\<rparr>"
    "entry_checks st1 e' = Inr ()"
    "st' = notify_entry_posted hs (audit_record
        (st1\<lparr>entries := update_where (\<lambda>x. e_id x = e_id e) (\<lambda>_. e') (entries st)\<rparr>)
        JOURNAL_ENTRY_POSTED INFO actor org ''journal_entry'' (e_id e)) e'"
  using assms unfolding post_entry_def Let_def
  apply (elim bindr_InrE)
  subgoal for e u1 u2 u3 p u4 found
    apply (cases found, simp)
    apply (simp only: option.case)
    apply (elim bindr_InrE)
    subgoal premises prems for j fy r
    proof -
      obtain st1 number where r: "r = (st1, number)" by (cases r)
      let ?e = "e\<lparr>e_period := p_id p, e_number := Some number, e_status := POSTED, e_posted_at := Some now,
            e_posted_by := Some actor\<rparr>"
      from prems(12) obtain st2 where st2: "save_entry st1 ?e = Inr st2" and fin:
          "st' = notify_entry_posted hs (audit_record st2 JOURNAL_ENTRY_POSTED INFO actor org ''journal_entry'' (e_id ?e)) ?e"
          "e' = ?e"
        unfolding r by auto
      note e = get_entry_ok [OF prems(2)]
      have nn: "next_number st org (journal_scope j (year_label fy (e_date e)))
         (journal_number_prefix j (year_label fy (e_date e))) 4 = Inr (st1, number)"
        using prems(11) unfolding r .
      have "e_status e = DRAFT" using prems(3) by (cases "e_status e") (auto simp: is_posted_def)
      then show thesis
        using prems(2-7) e nn save_entry_ok [OF st2] fin next_number_frame [OF nn]
        by (intro prems(1) [of e p j fy st1 number]) auto
    qed
    done
  done


text \<open>A draft is created, and then posted when the payload asks for it.\<close>

lemma create_entry_ok:
  assumes "create_entry hs st org data actor stype sid now = Inr (st', e')"
  obtains e p st1 where
    "resolve_open_period st org (ec_date data) = Inr p"
    "load_postable_accounts st org (map li_account (ec_lines data)) = Inr ()"
    "e_id e = next_id st" "e_org e = org" "e_date e = ec_date data" "e_status e = DRAFT" "e_number e = None"
    "e_reverses e = None" "e_lines e = number_lines 1 (ec_lines data)"
    "totals (e_lines e) = (e_total_debit e, e_total_credit e)" "e_source_type e = stype" "e_source_id e = sid"
    "add_entry st e = Inr st1"
    "if ec_post data then post_entry hs st1 org (e_id e) actor now = Inr (st', e')
     else e' = e \<and> st' = audit_record st1 JOURNAL_ENTRY_CREATED INFO actor org ''journal_entry'' (e_id e)"
  using assms unfolding create_entry_def
  apply (elim bindr_InrE)
  subgoal for found
    apply (cases found, simp)
    apply (simp only: option.case Let_def totals_def prod.case)
    apply (elim bindr_InrE)
    subgoal premises prems for j u1 u2 p u3 u4 st1
      by (rule prems(1) [rotated 12, OF prems(9)]) (use prems(2-8,10-) in \<open>auto split: if_splits\<close>)
    done
  done

lemma update_entry_ok:
  assumes "update_entry st org i data = Inr (st', e')"
  obtains e where
    "e \<in> set (entries st)" "e_org e = org" "e_id e = i" "e_status e = DRAFT"
    "e_id e' = e_id e" "e_org e' = e_org e" "e_status e' = DRAFT" "e_number e' = e_number e"
    "e_reverses e' = e_reverses e"
    "e_date e' \<noteq> e_date e \<longrightarrow> (\<exists>p. resolve_open_period st org (e_date e') = Inr p)"
    "(e_lines e' = e_lines e \<and> e_total_debit e' = e_total_debit e \<and> e_total_credit e' = e_total_credit e) \<or>
     (load_postable_accounts st org (map l_account (e_lines e')) = Inr () \<and>
      totals (e_lines e') = (e_total_debit e', e_total_credit e'))"
    "entry_checks st e' = Inr ()"
    "st' = st\<lparr>entries := update_where (\<lambda>x. e_id x = e_id e) (\<lambda>_. e') (entries st)\<rparr>"
proof -
  obtain e e1 e4 where e: "get_entry st org i = Inr e" "e_status e = DRAFT"
    and e1: "(case eu_date data of None \<Rightarrow> Inr e | Some d \<Rightarrow>
        if d \<noteq> e_date e then bindr (resolve_open_period st org d) (\<lambda>p. Inr (e\<lparr>e_date := d, e_period := p_id p\<rparr>))
        else Inr e) = Inr e1"
    and e4: "e4 = e'" "save_entry st e4 = Inr st'"
    and lines: "(e_lines e4 = e_lines e1 \<and> e_total_debit e4 = e_total_debit e1 \<and> e_total_credit e4 = e_total_credit e1) \<or>
      (\<exists>inputs. load_postable_accounts st org (map li_account inputs) = Inr () \<and>
         e_lines e4 = number_lines 1 inputs \<and> totals (e_lines e4) = (e_total_debit e4, e_total_credit e4))"
    and same: "e_id e4 = e_id e1" "e_org e4 = e_org e1" "e_status e4 = e_status e1" "e_number e4 = e_number e1"
      "e_reverses e4 = e_reverses e1" "e_date e4 = e_date e1"
    using assms unfolding update_entry_def Let_def is_editable_def
    apply (elim bindr_InrE)
    subgoal premises prems for e u1 e1 e4 st1
      by (rule prems(1) [OF prems(2) _ prems(4), of e4])
         (use prems(3,5-) in \<open>auto simp: totals_def split: option.splits\<close>)
    done
  note g = get_entry_ok [OF e(1)] and sv = save_entry_ok [OF e4(2)]
  have s1: "e_id e1 = e_id e \<and> e_org e1 = e_org e \<and> e_status e1 = e_status e \<and> e_number e1 = e_number e \<and>
      e_reverses e1 = e_reverses e \<and> e_lines e1 = e_lines e \<and> e_total_debit e1 = e_total_debit e \<and>
      e_total_credit e1 = e_total_credit e \<and>
      (e_date e1 \<noteq> e_date e \<longrightarrow> (\<exists>p. resolve_open_period st org (e_date e1) = Inr p))"
    using e1 by (auto split: option.splits if_splits)
  have "map l_account (number_lines k ls) = map li_account ls" for k ls
    by (induction ls arbitrary: k) auto
  with lines have "(e_lines e4 = e_lines e1 \<and> e_total_debit e4 = e_total_debit e1 \<and> e_total_credit e4 = e_total_credit e1) \<or>
     (load_postable_accounts st org (map l_account (e_lines e4)) = Inr () \<and>
      totals (e_lines e4) = (e_total_debit e4, e_total_credit e4))" by auto
  then show thesis using g sv s1 same e e4 by (intro that [of e]) auto
qed

lemma reverse_entry_ok:
  assumes "reverse_entry hs st org i actor rd nar now = Inr (st', posted)"
  obtains original reversal p st1 st2 where
    "original \<in> set (entries st)" "e_org original = org" "e_id original = i" "e_status original = POSTED"
    "e_date original \<le> e_date reversal" "resolve_open_period st org (e_date reversal) = Inr p"
    "e_id reversal = next_id st" "e_org reversal = org" "e_status reversal = DRAFT" "e_number reversal = None"
    "e_reverses reversal = Some (e_id original)" "e_lines reversal = map mirror_line (e_lines original)"
    "totals (e_lines reversal) = (e_total_debit reversal, e_total_credit reversal)"
    "e_date reversal = (case rd of Some d \<Rightarrow> d | None \<Rightarrow> e_date original)"
    "add_entry st reversal = Inr st1" "post_entry hs st1 org (e_id reversal) actor now = Inr (st2, posted)"
    "entry_checks st2 (original\<lparr>e_status := REVERSED, e_reversed_at := Some now\<rparr>) = Inr ()"
    "st' = audit_record
       (st2\<lparr>entries := update_where (\<lambda>x. e_id x = e_id original)
          (\<lambda>_. original\<lparr>e_status := REVERSED, e_reversed_at := Some now\<rparr>) (entries st2)\<rparr>)
       JOURNAL_ENTRY_REVERSED WARNING actor org ''journal_entry'' (e_id original)"
  using assms unfolding reverse_entry_def Let_def totals_def prod.case
  apply (elim bindr_InrE)
  subgoal premises prems for original u1 u2 u3 p st1 r
  proof -
    obtain st2 posted' where r: "r = (st2, posted')" by (cases r)
    note g = get_entry_ok [OF prems(2)]
    have st: "e_status original = POSTED" using prems(3,4) by (cases "e_status original") simp_all
    from prems(9) obtain st3 where st3: "save_entry st2 (original\<lparr>e_status := REVERSED, e_reversed_at := Some now\<rparr>) = Inr st3"
      "st' = audit_record st3 JOURNAL_ENTRY_REVERSED WARNING actor org ''journal_entry'' (e_id original)" "posted = posted'"
      unfolding r by auto
    show thesis
      using prems(5-8) st g save_entry_ok [OF st3(1)] st3(2,3) unfolding r
      by (intro prems(1) [of original _ p st1 st2]) (auto simp: totals_def)
  qed
  done

lemma delete_draft_ok:
  assumes "delete_draft st org i actor = Inr st'"
  obtains e where "e \<in> set (entries st)" "e_org e = org" "e_id e = i" "e_status e = DRAFT"
    "st' = audit_record (st\<lparr>entries := filter (\<lambda>x. e_id x \<noteq> e_id e) (entries st)\<rparr>)
       JOURNAL_ENTRY_DELETED INFO actor org ''journal_entry'' i"
  using assms unfolding delete_draft_def
  apply (elim bindr_InrE)
  subgoal premises prems for e u
    using prems(2-) get_entry_ok [OF prems(2)]
    by (intro prems(1) [of e]) (cases "e_status e"; auto simp: is_posted_def)+
  done

lemma post_simple_ok:
  assumes "post_simple hs st org actor jt d nar dk ck amt ref stype sid now = Inr (st', e')"
  obtains data da ca where "resolve_system_account st org dk = Inr da" "resolve_system_account st org ck = Inr ca"
    "0 < amt" "validate_entry_create data = Inr ()" "ec_date data = d" "ec_post data"
    "ec_lines data = [\<lparr>li_account = a_id da, li_debit = amt, li_credit = 0, li_description = None\<rparr>,
       \<lparr>li_account = a_id ca, li_debit = 0, li_credit = amt, li_description = None\<rparr>]"
    "create_entry hs st org data actor stype sid now = Inr (st', e')"
  using assms unfolding post_simple_def Let_def
  apply (elim bindr_InrE)
  subgoal premises prems for u1 da ca
    using prems(2-) by (cases "get_by_type st org jt") (auto intro!: prems(1) [OF prems(3,4)])
  done


section \<open>The invariant\<close>

definition line_ok :: "account list \<Rightarrow> uuid \<Rightarrow> entry_line \<Rightarrow> bool" where
  "line_ok as org l \<longleftrightarrow> line_checks l = Inr () \<and>
     (\<exists>a \<in> set as. a_id a = l_account l \<and> a_org a = org \<and> \<not> a_group a \<and> a_deleted a = None)"

definition entry_ok :: "account list \<Rightarrow> journal_entry \<Rightarrow> bool" where
  "entry_ok as e \<longleftrightarrow>
     totals (e_lines e) = (e_total_debit e, e_total_credit e) \<and> e_total_debit e = e_total_credit e \<and>
     (\<forall>l \<in> set (e_lines e). line_ok as (e_org e) l) \<and>
     (is_posted e \<longrightarrow> e_number e \<noteq> None \<and> e_posted_at e \<noteq> None \<and> 2 \<le> length (e_lines e) \<and> 0 < e_total_debit e) \<and>
     (\<not> is_posted e \<longrightarrow> e_number e = None)"

text \<open>Every number below the counter of a sequence is carried by a posted entry.\<close>

definition gap_free :: "number_sequence list \<Rightarrow> journal_entry list \<Rightarrow> bool" where
  "gap_free ss es \<longleftrightarrow>
     (\<forall>s \<in> set ss. \<forall>v. 1 \<le> v \<and> v < s_next s \<longrightarrow>
        (\<exists>e \<in> set es. e_org e = s_org s \<and> is_posted e \<and> e_number e = Some (sequence_format s v)))"

definition numbers_unique :: "journal_entry list \<Rightarrow> bool" where
  "numbers_unique es \<longleftrightarrow>
     (\<forall>e \<in> set es. \<forall>x \<in> set es. e_number e \<noteq> None \<and> e_org x = e_org e \<and> e_number x = e_number e \<longrightarrow> e_id x = e_id e)"

definition core_inv :: "'h db \<Rightarrow> bool" where
  "core_inv st \<longleftrightarrow>
     distinct (map e_id (entries st)) \<and> distinct (map a_id (accounts st)) \<and> distinct (map s_id (sequences st)) \<and>
     (\<forall>e \<in> set (entries st). e_id e < next_id st \<and> entry_ok (accounts st) e) \<and>
     (\<forall>a \<in> set (accounts st). a_id a < next_id st) \<and>
     (\<forall>s \<in> set (sequences st). s_id s < next_id st \<and> 1 \<le> s_next s) \<and>
     numbers_unique (entries st) \<and> gap_free (sequences st) (entries st)"

text \<open>Reversed entries and their mirrors: each reversed entry has exactly one.\<close>

definition mirrors :: "journal_entry \<Rightarrow> journal_entry \<Rightarrow> bool" where
  "mirrors r e \<longleftrightarrow> e_reverses r = Some (e_id e) \<and> e_org r = e_org e \<and> e_date e \<le> e_date r \<and>
     e_lines r = map mirror_line (e_lines e) \<and> is_posted r"

definition reversals_ok :: "journal_entry list \<Rightarrow> bool" where
  "reversals_ok es \<longleftrightarrow>
     (\<forall>e \<in> set es. e_status e = REVERSED \<longrightarrow> (\<exists>r \<in> set es. mirrors r e)) \<and>
     (\<forall>r \<in> set es. \<forall>i. e_reverses r = Some i \<longrightarrow>
        (\<exists>e \<in> set es. e_id e = i \<and> e_status e = REVERSED \<and> mirrors r e)) \<and>
     (\<forall>r \<in> set es. \<forall>r' \<in> set es. e_reverses r \<noteq> None \<and> e_reverses r' = e_reverses r \<longrightarrow> r' = r)"

definition ledger_inv :: "'h db \<Rightarrow> bool" where
  "ledger_inv st \<longleftrightarrow> core_inv st \<and> reversals_ok (entries st)"

lemma gap_free_mono:
  assumes "gap_free ss es"
    and "\<And>e. e \<in> set es \<Longrightarrow> is_posted e \<Longrightarrow>
       \<exists>x \<in> set es'. e_org x = e_org e \<and> is_posted x \<and> e_number x = e_number e"
  shows "gap_free ss es'"
  unfolding gap_free_def
proof (intro ballI allI impI)
  fix s v
  assume "s \<in> set ss" "1 \<le> v \<and> v < s_next s"
  with assms(1) obtain e where "e \<in> set es" "e_org e = s_org s" "is_posted e" "e_number e = Some (sequence_format s v)"
    unfolding gap_free_def by blast
  with assms(2) [of e] show "\<exists>e \<in> set es'. e_org e = s_org s \<and> is_posted e \<and> e_number e = Some (sequence_format s v)"
    by force
qed

text \<open>Taking a number and giving it to a posted entry keeps the sequence free of gaps.\<close>

lemma gap_free_next_number:
  assumes "core_inv st" and "next_number st org scope prefix padding = Inr (st1, number)"
    and "\<And>e. e \<in> set (entries st) \<Longrightarrow> is_posted e \<Longrightarrow>
       \<exists>x \<in> set es'. e_org x = e_org e \<and> is_posted x \<and> e_number x = e_number e"
    and "\<exists>x \<in> set es'. e_org x = org \<and> is_posted x \<and> e_number x = Some number"
  shows "gap_free (sequences st1) es'" "distinct (map s_id (sequences st1))"
    "\<forall>s \<in> set (sequences st1). s_id s < next_id st1 \<and> 1 \<le> s_next s"
proof -
  have old: "gap_free (sequences st) es'"
    using assms(1) by (intro gap_free_mono [OF _ assms(3)]) (simp_all add: core_inv_def)
  have d: "distinct (map s_id (sequences st))"
    and ids: "\<forall>s \<in> set (sequences st). s_id s < next_id st \<and> 1 \<le> s_next s"
    using assms(1) by (simp_all add: core_inv_def)
  have fmt: "sequence_format (s_next_update (\<lambda>_. k) s) v = sequence_format s v" for k s v
    by (simp add: sequence_format_def)
  have bump: "gap_free (update_where (\<lambda>s. s_id s = s_id sq) (s_next_update (\<lambda>_. s_next sq + 1)) ss) es' \<and>
      distinct (map s_id (update_where (\<lambda>s. s_id s = s_id sq) (s_next_update (\<lambda>_. s_next sq + 1)) ss)) \<and>
      (\<forall>s \<in> set (update_where (\<lambda>s. s_id s = s_id sq) (s_next_update (\<lambda>_. s_next sq + 1)) ss). s_id s < n \<and> 1 \<le> s_next s)"
    if "gap_free ss es'" "distinct (map s_id ss)" "\<forall>s \<in> set ss. s_id s < n \<and> 1 \<le> s_next s" "sq \<in> set ss" "s_org sq = org"
      "number = sequence_format sq (s_next sq)" for ss sq n
  proof (intro conjI)
    have same: "s = sq" if "s \<in> set ss" "s_id s = s_id sq" for s
      using that \<open>distinct (map s_id ss)\<close> \<open>sq \<in> set ss\<close> by (metis distinct_map inj_onD)
    have "map s_id (update_where (\<lambda>s. s_id s = s_id sq) (s_next_update (\<lambda>_. s_next sq + 1)) ss) = map s_id ss"
      by (rule map_update_where) simp
    then show "distinct (map s_id (update_where (\<lambda>s. s_id s = s_id sq) (s_next_update (\<lambda>_. s_next sq + 1)) ss))"
      using that(2) by simp
    show "\<forall>s \<in> set (update_where (\<lambda>s. s_id s = s_id sq) (s_next_update (\<lambda>_. s_next sq + 1)) ss). s_id s < n \<and> 1 \<le> s_next s"
      using that(3,4) by (auto simp: set_update_where)
    show "gap_free (update_where (\<lambda>s. s_id s = s_id sq) (s_next_update (\<lambda>_. s_next sq + 1)) ss) es'"
      unfolding gap_free_def
    proof (intro ballI allI impI)
      fix s v
      assume "s \<in> set (update_where (\<lambda>s. s_id s = s_id sq) (s_next_update (\<lambda>_. s_next sq + 1)) ss)"
        and v: "1 \<le> v \<and> v < s_next s"
      then consider "s \<in> set ss" | "s = s_next_update (\<lambda>_. s_next sq + 1) sq"
        using same by (auto simp: set_update_where)
      then show "\<exists>e \<in> set es'. e_org e = s_org s \<and> is_posted e \<and> e_number e = Some (sequence_format s v)"
      proof cases
        case 1
        with that(1) v show ?thesis unfolding gap_free_def by blast
      next
        case 2
        show ?thesis
        proof (cases "v = s_next sq")
          case True
          with 2 assms(4) that(5,6) show ?thesis by (simp add: fmt)
        next
          case False
          with 2 v have "v < s_next sq" by simp
          with v that(1,4) obtain e where "e \<in> set es'" "e_org e = s_org sq" "is_posted e"
            "e_number e = Some (sequence_format sq v)"
            unfolding gap_free_def by blast
          with 2 show ?thesis by (intro bexI [of _ e]) (simp_all add: fmt)
        qed
      qed
    qed
  qed
  from assms(2) have "gap_free (sequences st1) es' \<and> distinct (map s_id (sequences st1)) \<and>
    (\<forall>s \<in> set (sequences st1). s_id s < next_id st1 \<and> 1 \<le> s_next s)"
  proof (cases rule: next_number_ok)
    case (existing sq)
    with bump [OF old d ids existing(1,2,4)] show ?thesis by simp
  next
    case (fresh sq)
    have sq: "s_next sq = 1" "s_id sq = next_id st" "s_org sq = org" using fresh(2) by simp_all
    have g: "gap_free (sequences st @ [sq]) es'" using old sq(1) by (auto simp: gap_free_def)
    have dd: "distinct (map s_id (sequences st @ [sq]))" using d ids sq(2) by auto
    have ii: "\<forall>s \<in> set (sequences st @ [sq]). s_id s < next_id st + 1 \<and> 1 \<le> s_next s"
      using ids sq by auto
    have num: "number = sequence_format sq (s_next sq)" using fresh(3) sq(1) by simp
    have eqs: "sequences st1 = update_where (\<lambda>s. s_id s = s_id sq) (s_next_update (\<lambda>_. s_next sq + 1)) (sequences st @ [sq])"
      "next_id st1 = next_id st + 1"
      unfolding fresh(4) sq(1) by simp_all
    show ?thesis unfolding eqs by (rule bump [OF g dd ii _ sq(3) num]) simp
  qed
  then show "gap_free (sequences st1) es'" "distinct (map s_id (sequences st1))"
    "\<forall>s \<in> set (sequences st1). s_id s < next_id st1 \<and> 1 \<le> s_next s" by blast+
qed


lemma numbers_unique_insert:
  assumes "numbers_unique es" "set es' \<subseteq> insert e' (set es)"
    and "e_number e' = None \<or> (\<forall>x \<in> set es. e_org x = e_org e' \<and> e_number x = e_number e' \<longrightarrow> e_id x = e_id e')"
  shows "numbers_unique es'"
  unfolding numbers_unique_def
proof (intro ballI impI)
  fix a b
  assume ab: "a \<in> set es'" "b \<in> set es'" and h: "e_number a \<noteq> None \<and> e_org b = e_org a \<and> e_number b = e_number a"
  consider "a = e'" "b = e'" | "a = e'" "b \<in> set es" | "a \<in> set es" "b = e'" | "a \<in> set es" "b \<in> set es"
    using ab assms(2) by blast
  then show "e_id b = e_id a"
  proof cases
    case 2
    with h assms(3) show ?thesis by metis
  next
    case 3
    with h assms(3) show ?thesis by metis
  next
    case 4
    with h assms(1) show ?thesis unfolding numbers_unique_def by blast
  qed simp
qed

section \<open>Preservation\<close>

lemma core_frame:
  assumes "core_inv st" "accounts st' = accounts st" "entries st' = entries st" "sequences st' = sequences st"
    "next_id st \<le> next_id st'"
  shows "core_inv st'"
  using assms unfolding core_inv_def by fastforce

lemma entry_ok_accounts:
  assumes "entry_ok as e"
    and "\<And>a. a \<in> set as \<Longrightarrow> a_id a \<in> l_account ` set (e_lines e) \<Longrightarrow> \<not> a_group a \<Longrightarrow> a_deleted a = None \<Longrightarrow>
       \<exists>b \<in> set bs. a_id b = a_id a \<and> a_org b = a_org a \<and> \<not> a_group b \<and> a_deleted b = None"
  shows "entry_ok bs e"
proof -
  have "line_ok bs (e_org e) l" if l: "l \<in> set (e_lines e)" for l
  proof -
    from assms(1) l obtain a where a: "line_checks l = Inr ()" "a \<in> set as" "a_id a = l_account l" "a_org a = e_org e"
      "\<not> a_group a" "a_deleted a = None"
      by (auto simp: entry_ok_def line_ok_def)
    moreover have "a_id a \<in> l_account ` set (e_lines e)" using l a(3) by simp
    ultimately show ?thesis using assms(2) [of a] by (auto simp: line_ok_def)
  qed
  with assms(1) show ?thesis unfolding entry_ok_def by blast
qed

lemma core_accounts:
  assumes "core_inv st" "entries st' = entries st" "sequences st' = sequences st" "next_id st \<le> next_id st'"
    and "distinct (map a_id (accounts st'))" "\<forall>a \<in> set (accounts st'). a_id a < next_id st'"
    and "\<And>a. a \<in> set (accounts st) \<Longrightarrow> has_postings st (a_id a) \<Longrightarrow> \<not> a_group a \<Longrightarrow> a_deleted a = None \<Longrightarrow>
       \<exists>b \<in> set (accounts st'). a_id b = a_id a \<and> a_org b = a_org a \<and> \<not> a_group b \<and> a_deleted b = None"
  shows "core_inv st'"
proof -
  have "entry_ok (accounts st') e" if "e \<in> set (entries st)" for e
  proof (rule entry_ok_accounts)
    show "entry_ok (accounts st) e" using assms(1) that by (simp add: core_inv_def)
  next
    fix a
    assume a: "a \<in> set (accounts st)" "a_id a \<in> l_account ` set (e_lines e)" "\<not> a_group a" "a_deleted a = None"
    then have "has_postings st (a_id a)" using that unfolding has_postings_def by (metis imageE)
    with a assms(7) show "\<exists>b \<in> set (accounts st'). a_id b = a_id a \<and> a_org b = a_org a \<and> \<not> a_group b \<and> a_deleted b = None"
      by blast
  qed
  with assms show ?thesis unfolding core_inv_def by fastforce
qed

lemma core_add_account:
  assumes "core_inv st" "add_account st a = Inr st'" "a_id a = next_id st"
  shows "core_inv st'"
proof -
  have st': "st' = st\<lparr>accounts := accounts st @ [a], next_id := next_id st + 1\<rparr>" using add_account_ok [OF assms(2)] by simp
  show ?thesis
    by (rule core_accounts [OF assms(1)]) (use assms(1,3) in \<open>auto simp: st' core_inv_def\<close>)
qed

lemma core_update_account:
  assumes "core_inv st" "\<And>x. a_id (f x) = a_id x \<and> a_org (f x) = a_org x"
    and "has_postings st i \<Longrightarrow> (\<forall>x. a_group (f x) = a_group x \<and> a_deleted (f x) = a_deleted x)"
  shows "core_inv (st\<lparr>accounts := update_where (\<lambda>x. a_id x = i) f (accounts st)\<rparr>)"
proof -
  have ids: "map a_id (update_where (\<lambda>x. a_id x = i) f (accounts st)) = map a_id (accounts st)"
    by (rule map_update_where) (simp add: assms(2))
  show ?thesis
  proof (rule core_accounts [OF assms(1)])
    have "a_id ` set (update_where (\<lambda>x. a_id x = i) f (accounts st)) = a_id ` set (accounts st)"
      using ids by (metis list.set_map)
    with assms(1) show "\<forall>a \<in> set (accounts (st\<lparr>accounts := update_where (\<lambda>x. a_id x = i) f (accounts st)\<rparr>)).
        a_id a < next_id (st\<lparr>accounts := update_where (\<lambda>x. a_id x = i) f (accounts st)\<rparr>)"
      by (simp add: core_inv_def) (metis (no_types, lifting) imageE imageI)
    fix a
    assume a: "a \<in> set (accounts st)" "has_postings st (a_id a)" "\<not> a_group a" "a_deleted a = None"
    show "\<exists>b \<in> set (accounts (st\<lparr>accounts := update_where (\<lambda>x. a_id x = i) f (accounts st)\<rparr>)).
        a_id b = a_id a \<and> a_org b = a_org a \<and> \<not> a_group b \<and> a_deleted b = None"
    proof (cases "a_id a = i")
      case True
      with a assms(2,3) show ?thesis by (intro bexI [of _ "f a"]) (auto simp: set_update_where)
    next
      case False
      with a show ?thesis by (intro bexI [of _ a]) (auto simp: set_update_where)
    qed
  qed (use assms(1) ids in \<open>simp_all add: core_inv_def\<close>)
qed

lemma core_replace:
  assumes inv: "core_inv st" and e: "e \<in> set (entries st)" "e_id e' = e_id e" "e_org e' = e_org e"
    and ok: "entry_ok (accounts st) e'"
    and keep: "is_posted e \<Longrightarrow> is_posted e' \<and> e_number e' = e_number e"
    and chk: "entry_checks st e' = Inr ()"
  shows "core_inv (st\<lparr>entries := update_where (\<lambda>x. e_id x = e_id e) (\<lambda>_. e') (entries st)\<rparr>)"
proof -
  let ?es = "update_where (\<lambda>x. e_id x = e_id e) (\<lambda>_. e') (entries st)"
  have d: "distinct (map e_id (entries st))" using inv by (simp add: core_inv_def)
  have set: "set ?es = insert e' (set (entries st) - {e})" by (rule replace_row [OF d e(1)])
  have "map e_id ?es = map e_id (entries st)" using e(2) by (rule map_key_replace [of e_id])
  moreover have "gap_free (sequences st) ?es"
  proof (rule gap_free_mono)
    show "gap_free (sequences st) (entries st)" using inv by (simp add: core_inv_def)
    show "\<exists>y \<in> set ?es. e_org y = e_org x \<and> is_posted y \<and> e_number y = e_number x"
      if "x \<in> set (entries st)" "is_posted x" for x
      using that keep e(3) unfolding set by (cases "x = e") auto
  qed
  moreover have "numbers_unique ?es"
    by (rule numbers_unique_insert [of "entries st" _ e'])
       (use inv chk in \<open>simp_all add: set core_inv_def entry_checks_ok_iff subset_insertI2\<close>)
  ultimately show ?thesis using inv ok e(2) unfolding core_inv_def by (auto simp: set e(1))
qed

lemma core_add_draft:
  assumes inv: "core_inv st" and add: "add_entry st e = Inr st'" and "e_id e = next_id st" "e_status e = DRAFT"
    "e_number e = None" "totals (e_lines e) = (e_total_debit e, e_total_credit e)"
    and lines: "\<And>l. l \<in> set (e_lines e) \<Longrightarrow> line_checks l = Inr () \<Longrightarrow> line_ok (accounts st) (e_org e) l"
  shows "core_inv st'"
proof -
  have st': "st' = st\<lparr>entries := entries st @ [e], next_id := next_id st + 1\<rparr>" and chk: "entry_checks st e = Inr ()"
    using add_entry_ok [OF add] by simp_all
  have "entry_ok (accounts st) e"
    using assms chk unfolding entry_ok_def by (auto simp: entry_checks_ok_iff is_posted_def)
  moreover have "gap_free (sequences st) (entries st @ [e])"
    by (rule gap_free_mono [of _ "entries st"]) (use inv in \<open>auto simp: core_inv_def\<close>)
  moreover have "numbers_unique (entries st @ [e])"
    by (rule numbers_unique_insert [of "entries st" _ e]) (use inv assms(5) in \<open>simp_all add: core_inv_def\<close>)
  moreover have "distinct (map e_id (entries st @ [e]))" using inv assms(3) by (auto simp: core_inv_def)
  moreover have "\<forall>a \<in> set (accounts st). a_id a < next_id st + 1"
    "\<forall>s \<in> set (sequences st). s_id s < next_id st + 1 \<and> 1 \<le> s_next s"
    "\<forall>x \<in> set (entries st). e_id x < next_id st + 1 \<and> entry_ok (accounts st) x"
    using inv unfolding core_inv_def by (meson less_trans zless_add1_eq)+
  ultimately show ?thesis using inv assms(3) unfolding core_inv_def st' by simp
qed

lemma line_ok_loaded:
  assumes "load_postable_accounts st org ids = Inr ()" "l_account l \<in> set ids" "line_checks l = Inr ()"
  shows "line_ok (accounts st) org l"
  using load_postable_ok [OF assms(1,2)] assms(3) by (auto simp: line_ok_def)

lemma core_post:
  assumes inv: "core_inv st" and post: "post_entry hs st org i actor now = Inr (st', e')"
  shows "core_inv st'"
  using post
proof (cases rule: post_entry_ok)
  case (1 e p j fy st1 number)
  let ?es = "update_where (\<lambda>x. e_id x = e_id e) (\<lambda>_. e') (entries st)"
  note fr = next_number_frame [OF 1(9)]
  have inv_parts: "distinct (map e_id (entries st))" "entry_ok (accounts st) e" using inv 1(1) by (simp_all add: core_inv_def)
  have e': "e_id e' = e_id e" "e_org e' = e_org e" "is_posted e'" "e_number e' = Some number" "\<not> is_posted e"
    using 1(4,10) by (simp_all add: is_posted_def)
  have set: "set ?es = insert e' (set (entries st) - {e})" by (rule replace_row [OF inv_parts(1) 1(1)])
  have ok: "entry_ok (accounts st) e'"
    using inv_parts(2) 1(5,6) e'(3) unfolding entry_ok_def 1(10) by (simp add: is_balanced_def)
  have kept: "\<exists>y \<in> set ?es. e_org y = e_org x \<and> is_posted y \<and> e_number y = e_number x"
    if "x \<in> set (entries st)" "is_posted x" for x
    using that e'(5) unfolding set by auto
  have new: "\<exists>y \<in> set ?es. e_org y = org \<and> is_posted y \<and> e_number y = Some number"
    using e' 1(2) unfolding set by auto
  note gf = gap_free_next_number [OF inv 1(9) kept new]
  have "map e_id ?es = map e_id (entries st)" using e'(1) by (rule map_key_replace [of e_id])
  moreover have "numbers_unique ?es"
    by (rule numbers_unique_insert [of "entries st" _ e'])
       (use inv 1(11) fr(5) in \<open>simp_all add: set core_inv_def entry_checks_ok_iff subset_insertI2\<close>)
  moreover have "\<forall>x \<in> set ?es. e_id x < next_id st1 \<and> entry_ok (accounts st1) x"
    "\<forall>a \<in> set (accounts st1). a_id a < next_id st1"
    using inv ok e'(1) fr(1,8) 1(1) unfolding set core_inv_def by (auto intro: less_le_trans)
  ultimately have "core_inv (st1\<lparr>entries := ?es\<rparr>)"
    using inv gf fr(1) unfolding core_inv_def by simp
  then show ?thesis by (rule core_frame) (simp_all add: 1(12))
qed


lemma reversals_stable:
  assumes "reversals_ok es"
    and "\<And>x. x \<in> set es \<Longrightarrow> e_reverses x \<noteq> None \<or> e_status x = REVERSED \<Longrightarrow> x \<in> set es'"
    and "\<And>x. x \<in> set es' \<Longrightarrow> x \<in> set es \<or> (e_reverses x = None \<and> e_status x \<noteq> REVERSED)"
  shows "reversals_ok es'"
  unfolding reversals_ok_def
proof (intro conjI ballI allI impI)
  fix e
  assume e: "e \<in> set es'" "e_status e = REVERSED"
  then have "e \<in> set es" using assms(3) by blast
  with e assms(1) obtain r where r: "r \<in> set es" "mirrors r e" unfolding reversals_ok_def by blast
  then have "r \<in> set es'" by (intro assms(2)) (simp_all add: mirrors_def)
  with r show "\<exists>r \<in> set es'. mirrors r e" by blast
next
  fix r i
  assume r: "r \<in> set es'" "e_reverses r = Some i"
  then have "r \<in> set es" using assms(3) [of r] by simp
  with r assms(1) obtain e where e: "e \<in> set es" "e_id e = i" "e_status e = REVERSED" "mirrors r e"
    unfolding reversals_ok_def by blast
  then have "e \<in> set es'" by (intro assms(2)) simp_all
  with e show "\<exists>e \<in> set es'. e_id e = i \<and> e_status e = REVERSED \<and> mirrors r e" by blast
next
  fix r r'
  assume r: "r \<in> set es'" "r' \<in> set es'" "e_reverses r \<noteq> None \<and> e_reverses r' = e_reverses r"
  then have "r \<in> set es" "r' \<in> set es" using assms(3) [of r] assms(3) [of r'] by auto
  with r assms(1) show "r' = r" unfolding reversals_ok_def by blast
qed

lemma draft_not_reversal:
  "reversals_ok es \<Longrightarrow> e \<in> set es \<Longrightarrow> e_status e = DRAFT \<Longrightarrow> e_reverses e = None"
  unfolding reversals_ok_def mirrors_def is_posted_def by fastforce

lemma reversals_replace:
  assumes "reversals_ok (entries st)" "distinct (map e_id (entries st))" "e \<in> set (entries st)" "e_status e = DRAFT"
    "e_reverses e' = e_reverses e" "e_status e' \<noteq> REVERSED"
  shows "reversals_ok (update_where (\<lambda>x. e_id x = e_id e) (\<lambda>_. e') (entries st))"
proof -
  have "e_reverses e = None" by (rule draft_not_reversal [OF assms(1,3,4)])
  then show ?thesis
    using assms(4-) unfolding replace_row [OF assms(2,3)]
    by (intro reversals_stable [OF assms(1)]) (auto simp: replace_row [OF assms(2,3)])
qed

text \<open>Marking an entry reversed, with its mirror beside it.\<close>

lemma reversals_reverse:
  assumes ok: "reversals_ok es" and orig: "original \<in> set es" "e_status original = POSTED"
    and d: "distinct (map e_id es)" and fresh: "\<forall>x \<in> set es. e_id x < e_id r"
    and r: "mirrors r original" "e_status r = POSTED"
    and es': "set es' = insert (original\<lparr>e_status := REVERSED, e_reversed_at := t\<rparr>) (insert r (set es - {original}))"
  shows "reversals_ok es'"
proof -
  let ?o = "original\<lparr>e_status := REVERSED, e_reversed_at := t\<rparr>"
  have same: "mirrors x ?o = mirrors x original" "mirrors ?o x = mirrors original x" for x
    using orig(2) by (simp_all add: mirrors_def is_posted_def)
  have inj: "x = y" if "x \<in> set es" "y \<in> set es" "e_id x = e_id y" for x y
    using d that by (metis distinct_map inj_onD)
  have norev: "e_reverses x \<noteq> Some (e_id original)" if "x \<in> set es" for x
  proof
    assume "e_reverses x = Some (e_id original)"
    with ok that obtain e where e: "e \<in> set es" "e_id e = e_id original" "e_status e = REVERSED"
      unfolding reversals_ok_def by blast
    then have "e = original" using inj orig(1) by blast
    with e(3) orig(2) show False by simp
  qed
  have rr: "e_reverses r = Some (e_id original)" using r(1) by (simp add: mirrors_def)
  show ?thesis
    unfolding reversals_ok_def
  proof (intro conjI ballI allI impI)
    fix e
    assume e: "e \<in> set es'" "e_status e = REVERSED"
    show "\<exists>r \<in> set es'. mirrors r e"
    proof (cases "e = ?o")
      case True
      then show ?thesis using r(1) same es' by auto
    next
      case False
      with e r(2) have "e \<in> set es" "e \<noteq> original" unfolding es' by auto
      with ok e(2) obtain x where x: "x \<in> set es" "mirrors x e" unfolding reversals_ok_def by blast
      then show ?thesis unfolding es' by (cases "x = original") (auto simp: same)
    qed
  next
    fix x i
    assume x: "x \<in> set es'" "e_reverses x = Some i"
    show "\<exists>e \<in> set es'. e_id e = i \<and> e_status e = REVERSED \<and> mirrors x e"
    proof (cases "x = r")
      case True
      then show ?thesis using x(2) rr r(1) same es' by auto
    next
      case False
      define y where "y = (if x = ?o then original else x)"
      have y: "y \<in> set es" "e_reverses y = Some i" using x False orig(1) unfolding es' y_def by auto
      with ok obtain e where e: "e \<in> set es" "e_id e = i" "e_status e = REVERSED" "mirrors y e"
        unfolding reversals_ok_def by blast
      have "mirrors x e" using e(4) same by (simp add: y_def split: if_splits)
      moreover have "e \<noteq> original" using e(3) orig(2) by auto
      ultimately show ?thesis using e unfolding es' by auto
    qed
  next
    fix x y
    assume x: "x \<in> set es'" and y: "y \<in> set es'" and xy: "e_reverses x \<noteq> None \<and> e_reverses y = e_reverses x"
    define un where "un z = (if z = ?o then original else z)" for z
    have un: "un z \<in> set es \<and> e_reverses (un z) = e_reverses z" if "z \<in> set es'" "z \<noteq> r" for z
      using that orig(1) unfolding es' un_def by auto
    show "y = x"
    proof (cases "x = r \<or> y = r")
      case True
      with xy rr have "e_reverses x = Some (e_id original)" "e_reverses y = Some (e_id original)" by auto
      then show ?thesis using un x y norev by metis
    next
      case False
      then have "un x \<in> set es" "un y \<in> set es" "e_reverses (un y) = e_reverses (un x)" "e_reverses (un x) \<noteq> None"
        using un [OF x] un [OF y] xy by auto
      then have "un y = un x" using ok unfolding reversals_ok_def by blast
      moreover have "z = ?o \<or> z \<noteq> original" if "z \<in> set es'" "z \<noteq> r" for z
        using that orig(2) unfolding es' by auto
      ultimately show ?thesis using x y False by (auto simp: un_def split: if_splits)
    qed
  qed
qed

section \<open>Every operation keeps the invariant\<close>

lemma ledger_frame:
  assumes "ledger_inv st" "accounts st' = accounts st" "entries st' = entries st" "sequences st' = sequences st"
    "next_id st \<le> next_id st'"
  shows "ledger_inv st'"
  using assms core_frame [of st st'] by (simp add: ledger_inv_def)

lemma inv_post_entry:
  assumes "ledger_inv st" "post_entry hs st org i actor now = Inr (st', e')"
  shows "ledger_inv st'"
proof -
  have "reversals_ok (entries st')"
    using assms(2)
  proof (cases rule: post_entry_ok)
    case (1 e p j fy st1 number)
    have "reversals_ok (update_where (\<lambda>x. e_id x = e_id e) (\<lambda>_. e') (entries st))"
      using assms(1) 1(1,4,10) by (intro reversals_replace) (simp_all add: ledger_inv_def core_inv_def)
    then show ?thesis by (simp add: 1(12))
  qed
  then show ?thesis using assms(1) core_post [OF _ assms(2)] by (simp add: ledger_inv_def)
qed

lemma inv_add_draft:
  assumes "ledger_inv st" "add_entry st e = Inr st'" "e_id e = next_id st" "e_status e = DRAFT"
    "e_number e = None" "e_reverses e = None" "totals (e_lines e) = (e_total_debit e, e_total_credit e)"
    "load_postable_accounts st (e_org e) ids = Inr ()" "l_account ` set (e_lines e) \<subseteq> set ids"
  shows "ledger_inv st'"
proof -
  have "line_ok (accounts st) (e_org e) l" if "l \<in> set (e_lines e)" "line_checks l = Inr ()" for l
    using line_ok_loaded [OF assms(8) _ that(2)] assms(9) that(1) by blast
  then have "core_inv st'"
    using assms(1) by (intro core_add_draft [OF _ assms(2-5,7)]) (simp_all add: ledger_inv_def)
  moreover have "entries st' = entries st @ [e]" using add_entry_ok [OF assms(2)] by simp
  then have "reversals_ok (entries st')"
    using assms(1,4,6) by (auto simp: ledger_inv_def intro: reversals_stable [of "entries st"])
  ultimately show ?thesis by (simp add: ledger_inv_def)
qed

lemma inv_create_entry:
  assumes "ledger_inv st" "create_entry hs st org data actor stype sid now = Inr (st', e')"
  shows "ledger_inv st'"
  using assms(2)
proof (cases rule: create_entry_ok)
  case (1 e p st1)
  have "l_account ` set (e_lines e) \<subseteq> set (map li_account (ec_lines data))"
    using 1(9) set_number_lines_accounts by auto
  then have "ledger_inv st1"
    using 1(2,4) by (intro inv_add_draft [OF assms(1) 1(13,3,6,7,8,10), of "map li_account (ec_lines data)"]) blast+
  then show ?thesis
    using 1(14) inv_post_entry ledger_frame [of st1 st'] by (auto split: if_splits)
qed

lemma inv_update_entry:
  assumes "ledger_inv st" "update_entry st org i data = Inr (st', e')"
  shows "ledger_inv st'"
  using assms(2)
proof (cases rule: update_entry_ok)
  case (1 e)
  have inv: "core_inv st" "distinct (map e_id (entries st))" "entry_ok (accounts st) e"
    using assms(1) 1(1) by (simp_all add: ledger_inv_def core_inv_def)
  have chk: "e_total_debit e' = e_total_credit e'" "\<forall>l \<in> set (e_lines e'). line_checks l = Inr ()"
    using 1(12) by (simp_all add: entry_checks_ok_iff)
  have np: "\<not> is_posted e" "\<not> is_posted e'" using 1(4,7) by (simp_all add: is_posted_def)
  have "entry_ok (accounts st) e'"
    using 1(11)
  proof
    assume "e_lines e' = e_lines e \<and> e_total_debit e' = e_total_debit e \<and> e_total_credit e' = e_total_credit e"
    with inv(3) np 1(6,8) show ?thesis unfolding entry_ok_def by simp
  next
    assume l: "load_postable_accounts st org (map l_account (e_lines e')) = Inr () \<and>
      totals (e_lines e') = (e_total_debit e', e_total_credit e')"
    have "line_ok (accounts st) (e_org e') l" if "l \<in> set (e_lines e')" for l
      using line_ok_loaded [OF conjunct1 [OF l]] that chk(2) 1(2,6) by simp
    with l chk(1) np 1(8) inv(3) show ?thesis unfolding entry_ok_def by simp
  qed
  then have "core_inv st'"
    unfolding 1(13) using core_replace [OF inv(1) 1(1,5,6)] np 1(12) by blast
  moreover have "reversals_ok (entries st')"
    using reversals_replace [OF _ inv(2) 1(1,4,9)] assms(1) 1(7,13) by (simp add: ledger_inv_def)
  ultimately show ?thesis by (simp add: ledger_inv_def)
qed

lemma inv_delete_draft:
  assumes "ledger_inv st" "delete_draft st org i actor = Inr st'"
  shows "ledger_inv st'"
  using assms(2)
proof (cases rule: delete_draft_ok)
  case (1 e)
  let ?es = "filter (\<lambda>x. e_id x \<noteq> e_id e) (entries st)"
  have c: "core_inv st" and ro: "reversals_ok (entries st)" and d: "distinct (map e_id (entries st))"
    using assms(1) by (simp_all add: ledger_inv_def core_inv_def)
  have same: "x = e" if "x \<in> set (entries st)" "e_id x = e_id e" for x
    using that d 1(1) by (metis distinct_map inj_onD)
  have "gap_free (sequences st) ?es"
  proof (rule gap_free_mono)
    show "gap_free (sequences st) (entries st)" using c by (simp add: core_inv_def)
    fix x
    assume x: "x \<in> set (entries st)" "is_posted x"
    then have "e_id x \<noteq> e_id e" using same [of x] 1(4) by (auto simp: is_posted_def)
    with x show "\<exists>y \<in> set ?es. e_org y = e_org x \<and> is_posted y \<and> e_number y = e_number x"
      by (intro bexI [of _ x]) auto
  qed
  moreover have "numbers_unique ?es"
    using c unfolding core_inv_def numbers_unique_def by auto
  moreover have "distinct (map e_id ?es)" using d by (simp add: distinct_map_filter)
  ultimately have "core_inv (st\<lparr>entries := ?es\<rparr>)" using c unfolding core_inv_def by simp
  moreover have "reversals_ok ?es"
    using draft_not_reversal [OF ro 1(1,4)] 1(4) by (intro reversals_stable [OF ro]) (auto dest: same)
  ultimately have "ledger_inv (st\<lparr>entries := ?es\<rparr>)" by (simp add: ledger_inv_def)
  then show ?thesis by (rule ledger_frame) (simp_all add: 1(5))
qed


lemma inv_reverse_entry:
  assumes "ledger_inv st" "reverse_entry hs st org i actor rd nar now = Inr (st', posted)"
  shows "ledger_inv st'"
  using assms(2)
proof (cases rule: reverse_entry_ok)
  case (1 original reversal p st1 st2)
  let ?o = "original\<lparr>e_status := REVERSED, e_reversed_at := Some now\<rparr>"
  have c: "core_inv st" and ro: "reversals_ok (entries st)" and d: "distinct (map e_id (entries st))"
    and ids: "\<forall>x \<in> set (entries st). e_id x < next_id st" and ok: "entry_ok (accounts st) original"
    using assms(1) 1(1) by (simp_all add: ledger_inv_def core_inv_def)
  have "line_ok (accounts st) (e_org reversal) l" if "l \<in> set (e_lines reversal)" "line_checks l = Inr ()" for l
    using that ok 1(2,8,12) by (auto simp: entry_ok_def line_ok_def)
  then have c1: "core_inv st1" by (rule core_add_draft [OF c 1(15,7,9,10,13)])
  have es1: "entries st1 = entries st @ [reversal]" "accounts st1 = accounts st"
    using add_entry_ok [OF 1(15)] by simp_all
  have c2: "core_inv st2" by (rule core_post [OF c1 1(16)])
  have d1: "distinct (map e_id (entries st1))" using c1 by (simp add: core_inv_def)
  have "set (entries st2) = insert posted (set (entries st)) \<and> mirrors posted original \<and>
      e_status posted = POSTED \<and> e_id posted = next_id st \<and> accounts st2 = accounts st"
    using 1(16)
  proof (cases rule: post_entry_ok)
    case p: (1 e p' j fy st1' number)
    have "e = reversal"
      using p(1,3) d1 1(7) unfolding es1 by (auto dest: bspec [OF ids])
    moreover have "reversal \<notin> set (entries st)" using ids 1(7) by force
    ultimately have "set (entries st2) = insert posted (set (entries st))"
      using replace_row [OF d1 p(1), of posted] p(12) es1 by auto
    moreover have "accounts st2 = accounts st" using p(12) next_number_frame(1) [OF p(9)] es1(2) by simp
    ultimately show ?thesis
      using p(10) \<open>e = reversal\<close> 1(2,5,7,8,11,12) by (simp add: mirrors_def is_posted_def)
  qed
  then have post: "set (entries st2) = insert posted (set (entries st))" "mirrors posted original"
    "e_status posted = POSTED" "e_id posted = next_id st" "accounts st2 = accounts st" by simp_all
  have o2: "original \<in> set (entries st2)" using post(1) 1(1) by simp
  have set3: "set (update_where (\<lambda>x. e_id x = e_id original) (\<lambda>_. ?o) (entries st2)) =
      insert ?o (insert posted (set (entries st) - {original}))"
    using replace_row [OF _ o2, of e_id ?o] c2 post(4) bspec [OF ids 1(1)]
    by (auto simp: core_inv_def post(1))
  have "entry_ok (accounts st2) ?o"
    using ok 1(4) unfolding post(5) entry_ok_def by (simp add: is_posted_def)
  then have "core_inv (st2\<lparr>entries := update_where (\<lambda>x. e_id x = e_id original) (\<lambda>_. ?o) (entries st2)\<rparr>)"
    using 1(17) by (intro core_replace [OF c2 o2]) (simp_all add: is_posted_def)
  moreover have "reversals_ok (update_where (\<lambda>x. e_id x = e_id original) (\<lambda>_. ?o) (entries st2))"
    by (rule reversals_reverse [OF ro 1(1,4) d _ post(2,3) set3]) (use ids post(4) in simp)
  ultimately have "ledger_inv (st2\<lparr>entries := update_where (\<lambda>x. e_id x = e_id original) (\<lambda>_. ?o) (entries st2)\<rparr>)"
    by (simp add: ledger_inv_def)
  then show ?thesis by (rule ledger_frame) (simp_all add: 1(18))
qed

lemma inv_post_simple:
  "ledger_inv st \<Longrightarrow> post_simple hs st org actor jt d nar dk ck amt ref stype sid now = Inr (st', e') \<Longrightarrow> ledger_inv st'"
  by (erule post_simple_ok) (rule inv_create_entry)

text \<open>The chart operations change accounts only.\<close>

lemma ledger_accounts:
  "ledger_inv st \<Longrightarrow> core_inv st' \<Longrightarrow> entries st' = entries st \<Longrightarrow> ledger_inv st'"
  by (simp add: ledger_inv_def)

lemma add_account_frame:
  "add_account st a = Inr st' \<Longrightarrow> entries st' = entries st \<and> sequences st' = sequences st \<and> periods st' = periods st \<and>
     audit_log st' = audit_log st"
  by (auto dest!: add_account_ok)

lemma inv_add_account:
  "ledger_inv st \<Longrightarrow> add_account st a = Inr st' \<Longrightarrow> a_id a = next_id st \<Longrightarrow> ledger_inv st'"
  using core_add_account ledger_accounts add_account_frame by (metis ledger_inv_def)

lemma inv_seed_accounts:
  "ledger_inv st \<Longrightarrow> seed_accounts st org bc specs = Inr (st', bc') \<Longrightarrow> ledger_inv st'"
proof (induction st org bc specs rule: seed_accounts.induct)
  case (2 st org bc spec specs)
  let ?a = "spec_account (next_id st) org spec (case sp_parent spec of None \<Rightarrow> None | Some pc \<Rightarrow> map_of bc pc)"
  from 2(3) obtain st1 where st1: "add_account st ?a = Inr st1"
    "seed_accounts st1 org ((sp_code spec, ?a) # bc) specs = Inr (st', bc')"
    by (auto simp: Let_def)
  have "ledger_inv st1" using inv_add_account [OF 2(2) st1(1)] by (simp add: spec_account_def)
  from 2(1) [OF refl refl st1(1) this st1(2)] show ?case .
qed simp

lemma inv_sync_specs:
  "ledger_inv st \<Longrightarrow> sync_specs st org ex specs n = Inr (st', m) \<Longrightarrow> ledger_inv st'"
proof (induction st org ex specs n rule: sync_specs.induct)
  case (2 st org ex spec specs n)
  show ?case
  proof (cases "map_of ex (sp_code spec) \<noteq> None")
    case True
    with 2 show ?thesis by simp
  next
    case False
    let ?parent = "case sp_parent spec of None \<Rightarrow> None | Some pc \<Rightarrow> map_of ex pc"
    show ?thesis
    proof (cases "sp_parent spec \<noteq> None \<and> ?parent = None")
      case True
      with 2(2) [OF False refl True 2(4)] 2(5) False show ?thesis by (simp add: Let_def)
    next
      case no: False
      let ?a = "spec_account (next_id st) org spec ?parent"
      from 2(5) False no obtain st1 where st1: "add_account st ?a = Inr st1"
        "sync_specs st1 org ((sp_code spec, ?a) # ex) specs (n + 1) = Inr (st', m)"
        by (auto simp: Let_def split: if_splits)
      have "ledger_inv st1" using inv_add_account [OF 2(4) st1(1)] by (simp add: spec_account_def)
      from 2(3) [OF False refl no refl st1(1) this st1(2)] show ?thesis .
    qed
  qed
qed simp

lemma inv_add_journal: "ledger_inv st \<Longrightarrow> add_journal st j = Inr st' \<Longrightarrow> ledger_inv st'"
  by (erule ledger_frame) (auto dest!: add_journal_ok)

lemma inv_seed_journals: "ledger_inv st \<Longrightarrow> seed_journals st org specs = Inr st' \<Longrightarrow> ledger_inv st'"
  by (induction st org specs rule: seed_journals.induct) (auto intro: inv_add_journal)

lemma inv_seed_defaults: "ledger_inv st \<Longrightarrow> seed_defaults st org = Inr (st', n, m) \<Longrightarrow> ledger_inv st'"
  unfolding seed_defaults_def
  by (auto split: if_splits dest: inv_seed_accounts intro: inv_seed_journals)

lemma inv_sync_template: "ledger_inv st \<Longrightarrow> sync_template st org = Inr (st', n) \<Longrightarrow> ledger_inv st'"
  unfolding sync_template_def Let_def
  by (auto split: if_splits intro: inv_seed_defaults inv_sync_specs)

lemma inv_create_account:
  assumes "ledger_inv st" "create_account st org data actor = Inr (st', a)"
  shows "ledger_inv st'"
proof -
  from assms(2) obtain st1 parent st2 a' where s: "adopt_parent st org data = Inr (st1, parent)"
      "add_account st1 a' = Inr st2" "a_id a' = next_id st1" "st' = audit_record st2 ACCOUNT_CREATED INFO actor org ''account'' (a_id a')"
    by (auto simp: create_account_def Let_def)
  have "ledger_inv st1"
  proof (cases "st1 = st")
    case False
    with s(1) obtain i where i: "\<not> has_postings st i"
        "st1 = st\<lparr>accounts := update_where (\<lambda>a. a_id a = i) (a_group_update (\<lambda>_. True)) (accounts st)\<rparr>"
      by (auto simp: adopt_parent_def split: option.splits if_splits)
    have "core_inv st1" unfolding i(2) using assms(1) i(1) by (intro core_update_account) (simp_all add: ledger_inv_def)
    then show ?thesis by (rule ledger_accounts [OF assms(1)]) (simp add: i(2))
  qed (use assms(1) in simp)
  then have "ledger_inv st2" using s(2,3) by (rule inv_add_account)
  then show ?thesis by (rule ledger_frame) (simp_all add: s(4))
qed

lemma inv_update_account:
  assumes "ledger_inv st" "update_account st org i data actor = Inr (st', a')"
  shows "ledger_inv st'"
proof -
  from assms(2) obtain a where a: "get_account st org i = Inr a" "a_id a' = a_id a" "a_org a' = a_org a"
      "a_group a' = a_group a" "a_deleted a' = a_deleted a"
      "entries st' = entries st" "sequences st' = sequences st" "next_id st' = next_id st"
      "accounts st' = update_where (\<lambda>x. a_id x = a_id a) (\<lambda>_. a') (accounts st)"
    by (auto simp: update_account_def Let_def split: if_splits)
  have d: "distinct (map a_id (accounts st))" using assms(1) by (simp add: ledger_inv_def core_inv_def)
  have mem: "a \<in> set (accounts st)" using get_account_ok [OF a(1)] by simp
  have set: "set (accounts st') = insert a' (set (accounts st) - {a})" unfolding a(9) by (rule replace_row [OF d mem])
  have "map a_id (accounts st') = map a_id (accounts st)" unfolding a(9) using a(2) by (rule map_key_replace [of a_id])
  moreover have "a_id x < next_id st" if "x \<in> set (accounts st')" for x
    using that assms(1) mem a(2) unfolding set by (auto simp: ledger_inv_def core_inv_def)
  moreover have "\<exists>b \<in> set (accounts st'). a_id b = a_id x \<and> a_org b = a_org x \<and> \<not> a_group b \<and> a_deleted b = None"
    if "x \<in> set (accounts st)" "\<not> a_group x" "a_deleted x = None" for x
    using that a(2-5) unfolding set by (cases "x = a") auto
  ultimately have "core_inv st'"
    using assms(1) a(6-8) d core_accounts [of st st'] by (simp add: ledger_inv_def)
  then show ?thesis by (rule ledger_accounts [OF assms(1) _ a(6)])
qed

lemma inv_delete_account:
  assumes "ledger_inv st" "delete_account st org i actor now = Inr st'"
  shows "ledger_inv st'"
proof -
  obtain a :: account where a: "\<not> has_postings st (a_id a)"
      "st' = audit_record (st\<lparr>accounts := update_where (\<lambda>x. a_id x = a_id a) (a_deleted_update (\<lambda>_. Some now)) (accounts st)\<rparr>)
         ACCOUNT_DELETED WARNING actor org ''account'' (a_id a)"
    using assms(2) unfolding delete_account_def
    apply (elim bindr_InrE)
    subgoal premises prems for a
      by (rule prems(1) [of a]) (use prems(2-) in auto)
    done
  have "core_inv (st\<lparr>accounts := update_where (\<lambda>x. a_id x = a_id a) (a_deleted_update (\<lambda>_. Some now)) (accounts st)\<rparr>)"
    using assms(1) a(1) by (intro core_update_account) (simp_all add: ledger_inv_def)
  then have "core_inv st'" by (rule core_frame) (simp_all add: a(2))
  then show ?thesis by (rule ledger_accounts [OF assms(1)]) (simp add: a(2))
qed


lemma calendar_frame:
  "create_year st org d actor = Inr (st', y) \<Longrightarrow>
     accounts st' = accounts st \<and> entries st' = entries st \<and> sequences st' = sequences st \<and> next_id st \<le> next_id st'"
  "ensure_year_for st org m today = Inr (st', y) \<Longrightarrow>
     accounts st' = accounts st \<and> entries st' = entries st \<and> sequences st' = sequences st \<and> next_id st \<le> next_id st'"
  "close_period hs st org i actor lock now = Inr (st', p) \<Longrightarrow>
     accounts st' = accounts st \<and> entries st' = entries st \<and> sequences st' = sequences st \<and> next_id st \<le> next_id st'"
  "reopen_period st org i actor = Inr (st', p) \<Longrightarrow>
     accounts st' = accounts st \<and> entries st' = entries st \<and> sequences st' = sequences st \<and> next_id st \<le> next_id st'"
  "create_journal st org jd = Inr (st', j) \<Longrightarrow>
     accounts st' = accounts st \<and> entries st' = entries st \<and> sequences st' = sequences st \<and> next_id st \<le> next_id st'"
proof -
  have gen: "accounts b = accounts a \<and> entries b = entries a \<and> sequences b = sequences a \<and> next_id a \<le> next_id b"
    if "generate_monthly_periods a y = Inr b" for a b :: "'h db" and y
    using that by (auto simp: generate_monthly_periods_def dest!: add_periods_ok)
  have yr: "accounts b = accounts a \<and> entries b = entries a \<and> sequences b = sequences a \<and> next_id a \<le> next_id b"
    if "add_year a y = Inr b" for a b :: "'h db" and y
    using that by (auto dest!: add_year_ok)
  show "create_year st org d actor = Inr (st', y) \<Longrightarrow>
     accounts st' = accounts st \<and> entries st' = entries st \<and> sequences st' = sequences st \<and> next_id st \<le> next_id st'"
    by (auto simp: create_year_def Let_def split: if_splits dest!: gen yr)
  show "ensure_year_for st org m today = Inr (st', y) \<Longrightarrow>
     accounts st' = accounts st \<and> entries st' = entries st \<and> sequences st' = sequences st \<and> next_id st \<le> next_id st'"
    by (auto simp: ensure_year_for_def Let_def split: option.splits dest!: gen yr)
  show "close_period hs st org i actor lock now = Inr (st', p) \<Longrightarrow>
     accounts st' = accounts st \<and> entries st' = entries st \<and> sequences st' = sequences st \<and> next_id st \<le> next_id st'"
    by (auto simp: close_period_def Let_def set_period_def split: option.splits)
  show "reopen_period st org i actor = Inr (st', p) \<Longrightarrow>
     accounts st' = accounts st \<and> entries st' = entries st \<and> sequences st' = sequences st \<and> next_id st \<le> next_id st'"
    by (auto simp: reopen_period_def Let_def set_period_def split: option.splits if_splits)
  show "create_journal st org jd = Inr (st', j) \<Longrightarrow>
     accounts st' = accounts st \<and> entries st' = entries st \<and> sequences st' = sequences st \<and> next_id st \<le> next_id st'"
    by (auto simp: create_journal_def Let_def dest!: add_journal_ok)
qed

section \<open>The transition system\<close>

text \<open>
  One rule per operation that a request or another module can run. A request body has passed its
  validation before the service sees it.
\<close>

inductive ledger_step :: "'h hooks \<Rightarrow> 'h db \<Rightarrow> 'h db \<Rightarrow> bool" for hs where
  seed: "seed_defaults st org = Inr (st', n, m) \<Longrightarrow> ledger_step hs st st'"
| sync: "sync_template st org = Inr (st', n) \<Longrightarrow> ledger_step hs st st'"
| account_new: "create_account st org ad actor = Inr (st', a) \<Longrightarrow> ledger_step hs st st'"
| account_edit: "update_account st org i au actor = Inr (st', a) \<Longrightarrow> ledger_step hs st st'"
| account_del: "delete_account st org i actor now = Inr st' \<Longrightarrow> ledger_step hs st st'"
| year_new: "validate_year_create yd = Inr () \<Longrightarrow> create_year st org yd actor = Inr (st', y) \<Longrightarrow> ledger_step hs st st'"
| year_ensure: "ensure_year_for st org m today = Inr (st', y) \<Longrightarrow> ledger_step hs st st'"
| period_close: "close_period hs st org i actor lock now = Inr (st', p) \<Longrightarrow> ledger_step hs st st'"
| period_reopen: "reopen_period st org i actor = Inr (st', p) \<Longrightarrow> ledger_step hs st st'"
| journal_new: "create_journal st org jd = Inr (st', j) \<Longrightarrow> ledger_step hs st st'"
| entry_new: "validate_entry_create d = Inr () \<Longrightarrow>
    create_entry hs st org d actor stype sid now = Inr (st', e) \<Longrightarrow> ledger_step hs st st'"
| entry_edit: "validate_entry_update u = Inr () \<Longrightarrow> update_entry st org i u = Inr (st', e) \<Longrightarrow> ledger_step hs st st'"
| entry_post: "post_entry hs st org i actor now = Inr (st', e) \<Longrightarrow> ledger_step hs st st'"
| entry_reverse: "reverse_entry hs st org i actor rd nar now = Inr (st', e) \<Longrightarrow> ledger_step hs st st'"
| entry_delete: "delete_draft st org i actor = Inr st' \<Longrightarrow> ledger_step hs st st'"
| simple: "post_simple hs st org actor jt d nar dk ck amt ref stype sid now = Inr (st', e) \<Longrightarrow> ledger_step hs st st'"

lemma ledger_step_inv: "ledger_step hs st st' \<Longrightarrow> ledger_inv st \<Longrightarrow> ledger_inv st'"
  by (induction rule: ledger_step.induct)
     (blast intro: inv_seed_defaults inv_sync_template inv_create_account inv_update_account inv_delete_account
        inv_create_entry inv_update_entry inv_post_entry inv_reverse_entry inv_delete_draft inv_post_simple
        ledger_frame dest: calendar_frame)+

text \<open>A transition system with an initial state and an invariant, and what runs of it keep.\<close>

locale transition_system =
  fixes step :: "'s \<Rightarrow> 's \<Rightarrow> bool" and init :: "'s" and inv :: "'s \<Rightarrow> bool"
  assumes inv_init: "inv init" and inv_step: "step s s' \<Longrightarrow> inv s \<Longrightarrow> inv s'"
begin

lemma inv_reachable: "step\<^sup>*\<^sup>* init s \<Longrightarrow> inv s"
  by (induction rule: rtranclp_induct) (auto intro: inv_init inv_step)

lemma run_keeps:
  assumes "step\<^sup>*\<^sup>* s s'" "inv s" "\<And>a b. inv a \<Longrightarrow> step a b \<Longrightarrow> R a b"
    and "\<And>a. R a a" "\<And>a b c. R a b \<Longrightarrow> R b c \<Longrightarrow> R a c"
  shows "inv s' \<and> R s s'"
  using assms(1,2)
proof (induction rule: rtranclp_induct)
  case base
  then show ?case using assms(4) by simp
next
  case (step b c)
  then show ?case using assms(3,5) inv_step by blast
qed

end

lemma ledger_inv_empty: "ledger_inv (empty_db h)"
  by (simp add: ledger_inv_def core_inv_def empty_db_def gap_free_def numbers_unique_def reversals_ok_def)

interpretation ledger: transition_system "ledger_step hs" "empty_db h" ledger_inv for hs h
  by unfold_locales (auto intro: ledger_inv_empty ledger_step_inv)

definition reachable :: "'h hooks \<Rightarrow> 'h \<Rightarrow> 'h db \<Rightarrow> bool" where
  "reachable hs h st \<longleftrightarrow> (ledger_step hs)\<^sup>*\<^sup>* (empty_db h) st"

lemma reachable_inv: "reachable hs h st \<Longrightarrow> ledger_inv st"
  unfolding reachable_def by (rule ledger.inv_reachable)

end
