(* ===== verification/Ledger_Properties.thy ===== *)
theory Ledger_Properties
  imports Ledger
begin

text \<open>
  The guarantees the module documentation of \<^verbatim>\<open>accounting/models.py\<close> and \<^verbatim>\<open>accounting/service.py\<close> makes
  for the ledger, as theorems about every reachable database and every step: entries balance, posted
  entries are immutable, closed periods do not change, numbers have no gaps, a reversal cancels, the
  audit trail only grows, subscribers cannot interfere.
\<close>

section \<open>What a step does to the posted entries\<close>

text \<open>A posted entry stays as it is, or is marked reversed.\<close>

definition same_or_reversed :: "journal_entry \<Rightarrow> journal_entry \<Rightarrow> bool" where
  "same_or_reversed e e' \<longleftrightarrow> e' = e \<or>
     (e_status e = POSTED \<and> (\<exists>t. e' = e\<lparr>e_status := REVERSED, e_reversed_at := t\<rparr>))"

definition kept :: "'h db \<Rightarrow> 'h db \<Rightarrow> bool" where
  "kept st st' \<longleftrightarrow> (\<forall>e \<in> set (entries st). is_posted e \<longrightarrow> (\<exists>e' \<in> set (entries st'). same_or_reversed e e'))"

text \<open>The entries that are posted by a step carry a date whose only period is open.\<close>

definition new_dates_open :: "'h db \<Rightarrow> 'h db \<Rightarrow> bool" where
  "new_dates_open st st' \<longleftrightarrow>
     (\<forall>e' \<in> set (entries st'). is_posted e' \<longrightarrow>
        (\<exists>e \<in> set (entries st). is_posted e \<and> same_or_reversed e e') \<or>
        (\<exists>p. resolve_open_period st (e_org e') (e_date e') = Inr p))"

lemma keptI:
  assumes "\<And>e. e \<in> set (entries st) \<Longrightarrow> is_posted e \<Longrightarrow> e \<in> set (entries st') \<or>
      (e_status e = POSTED \<and> (\<exists>t. e\<lparr>e_status := REVERSED, e_reversed_at := t\<rparr> \<in> set (entries st')))"
    and "\<And>x. x \<in> set (entries st') \<Longrightarrow> is_posted x \<Longrightarrow> x \<in> set (entries st) \<or>
      (\<exists>e \<in> set (entries st). e_status e = POSTED \<and> (\<exists>t. x = e\<lparr>e_status := REVERSED, e_reversed_at := t\<rparr>)) \<or>
      (\<exists>p. resolve_open_period st (e_org x) (e_date x) = Inr p)"
  shows "kept st st' \<and> new_dates_open st st'"
proof
  show "kept st st'" unfolding kept_def same_or_reversed_def using assms(1) by blast
  show "new_dates_open st st'"
    unfolding new_dates_open_def same_or_reversed_def using assms(2) unfolding is_posted_def by metis
qed

lemma kept_frame: "entries st' = entries st \<Longrightarrow> kept st st' \<and> new_dates_open st st'"
  by (auto simp: kept_def new_dates_open_def same_or_reversed_def)

lemma post_entry_effect:
  assumes "distinct (map e_id (entries st))" "post_entry hs st org i actor now = Inr (st', e')"
  obtains e p where "e \<in> set (entries st)" "e_status e = DRAFT" "e_id e = i" "e_org e = org"
    "set (entries st') = insert e' (set (entries st) - {e})" "e_status e' = POSTED" "e_org e' = e_org e"
    "e_date e' = e_date e" "e_lines e' = e_lines e" "e_id e' = e_id e" "e_reverses e' = e_reverses e"
    "resolve_open_period st (e_org e) (e_date e) = Inr p" "periods st' = periods st"
  using assms(2)
proof (cases rule: post_entry_ok)
  case (1 e p j fy st1 number)
  have "set (entries st') = insert e' (set (entries st) - {e})"
    using replace_row [OF assms(1) 1(1), of e'] 1(12) by simp
  then show thesis using 1 next_number_frame(3) [OF 1(9)] by (intro that [of e p]) simp_all
qed

lemma post_kept:
  assumes "distinct (map e_id (entries st))" "post_entry hs st org i actor now = Inr (st', e')"
  shows "kept st st' \<and> new_dates_open st st'"
  using assms
proof (cases rule: post_entry_effect)
  case (1 e p)
  then show ?thesis
    by (auto simp: kept_def new_dates_open_def same_or_reversed_def is_posted_def)
qed

lemma create_kept:
  assumes "core_inv st" "create_entry hs st org data actor stype sid now = Inr (st', e')"
  shows "kept st st' \<and> new_dates_open st st'"
  using assms(2)
proof (cases rule: create_entry_ok)
  case (1 e p st1)
  have st1: "entries st1 = entries st @ [e]" "periods st1 = periods st" using add_entry_ok [OF 1(13)] by simp_all
  have d: "distinct (map e_id (entries st1))" using assms(1) 1(3) unfolding st1 by (auto simp: core_inv_def)
  show ?thesis
  proof (cases "ec_post data")
    case True
    with 1(14) have "post_entry hs st1 org (e_id e) actor now = Inr (st', e')" by simp
    from post_kept [OF d this] have "kept st1 st'" "new_dates_open st1 st'" by simp_all
    then show ?thesis
      using 1(6) resolve_open_cong [OF st1(2)] unfolding kept_def new_dates_open_def st1 is_posted_def by auto
  next
    case False
    with 1(6,14) st1 show ?thesis
      by (auto simp: kept_def new_dates_open_def same_or_reversed_def is_posted_def)
  qed
qed

lemma update_kept:
  assumes "core_inv st" "update_entry st org i data = Inr (st', e')"
  shows "kept st st' \<and> new_dates_open st st'"
  using assms(2)
proof (cases rule: update_entry_ok)
  case (1 e)
  have "set (entries st') = insert e' (set (entries st) - {e})"
    using replace_row [of e_id "entries st" e e'] assms(1) 1(1,13) by (simp add: core_inv_def)
  then show ?thesis
    using 1(4,7) by (auto simp: kept_def new_dates_open_def same_or_reversed_def is_posted_def)
qed

lemma delete_kept:
  assumes "core_inv st" "delete_draft st org i actor = Inr st'"
  shows "kept st st' \<and> new_dates_open st st'"
  using assms(2)
proof (cases rule: delete_draft_ok)
  case (1 e)
  have same: "x = e" if "x \<in> set (entries st)" "e_id x = e_id e" for x
    using that assms(1) 1(1) unfolding core_inv_def by (metis distinct_map inj_onD)
  have "e_id x \<noteq> e_id e" if "x \<in> set (entries st)" "is_posted x" for x
    using same [OF that(1)] that(2) 1(4) by (auto simp: is_posted_def)
  then show ?thesis by (intro keptI) (auto simp: 1(5))
qed

text \<open>A reversal appends the mirror and marks the original.\<close>

lemma reverse_entry_effect:
  assumes "core_inv st" "reverse_entry hs st org i actor rd nar now = Inr (st', r)"
  obtains original p where "original \<in> set (entries st)" "e_org original = org" "e_id original = i"
    "e_status original = POSTED" "mirrors r original" "e_status r = POSTED" "e_id r = next_id st"
    "resolve_open_period st org (e_date r) = Inr p"
    "set (entries st') = insert (original\<lparr>e_status := REVERSED, e_reversed_at := Some now\<rparr>)
       (insert r (set (entries st) - {original}))"
  using assms(2)
proof (cases rule: reverse_entry_ok)
  case (1 original reversal p st1 st2)
  have ids: "\<forall>x \<in> set (entries st). e_id x < next_id st" and d: "distinct (map e_id (entries st))"
    using assms(1) by (simp_all add: core_inv_def)
  have st1: "entries st1 = entries st @ [reversal]" using add_entry_ok [OF 1(15)] by simp
  have d1: "distinct (map e_id (entries st1))" using ids d 1(7) unfolding st1 by auto
  show thesis
    using post_entry_effect [OF d1 1(16)]
  proof cases
    case p: (1 e p')
    have "e = reversal"
      using p(1,3) 1(7) ids unfolding st1 by auto
    moreover have "reversal \<notin> set (entries st)" using ids 1(7) by force
    ultimately have es2: "set (entries st2) = insert r (set (entries st))" using p(5) unfolding st1 by auto
    have o2: "original \<in> set (entries st2)" using es2 1(1) by simp
    have "distinct (map e_id (entries st2))"
    proof -
      have "map e_id (entries st2) = map e_id (entries st1)"
        using 1(16)
      proof (cases rule: post_entry_ok)
        case q: (1 e p j fy sq number)
        have "e_id r = e_id e" using q(10) by simp
        then show ?thesis using q(12) map_key_replace [of e_id r e "entries st1"] by simp
      qed
      with d1 show ?thesis by simp
    qed
    then have "set (entries st') = insert (original\<lparr>e_status := REVERSED, e_reversed_at := Some now\<rparr>) (set (entries st2) - {original})"
      using replace_row [OF _ o2, of e_id] 1(18) by simp
    moreover have "original \<noteq> r" using bspec [OF ids 1(1)] p(10) \<open>e = reversal\<close> 1(7) by auto
    moreover have "mirrors r original"
      using p \<open>e = reversal\<close> 1(2,5,8,11,12) by (simp add: mirrors_def is_posted_def)
    ultimately show thesis
      using 1(1-4,6,8) p(6,8,10) \<open>e = reversal\<close> 1(7) es2
      by (intro that [of original p]) auto
  qed
qed

lemma reverse_kept:
  assumes "core_inv st" "reverse_entry hs st org i actor rd nar now = Inr (st', r)"
  shows "kept st st' \<and> new_dates_open st st'"
  using assms
proof (cases rule: reverse_entry_effect)
  case (1 original p)
  have "e_org r = org" using 1(2,5) by (simp add: mirrors_def)
  with 1(8) have "\<exists>p. resolve_open_period st (e_org r) (e_date r) = Inr p" by simp
  then show ?thesis using 1(1,4) by (intro keptI) (auto simp: 1(9))
qed


lemma add_journal_frame: "add_journal st j = Inr st' \<Longrightarrow> entries st' = entries st \<and> audit_log st' = audit_log st"
  by (auto dest: add_journal_ok)

lemma account_ops_entries:
  "seed_accounts st org bc specs = Inr (st', bc') \<Longrightarrow> entries st' = entries st \<and> audit_log st' = audit_log st"
  "seed_journals st org js = Inr st' \<Longrightarrow> entries st' = entries st \<and> audit_log st' = audit_log st"
  "sync_specs st org ex specs n = Inr (st', m) \<Longrightarrow> entries st' = entries st \<and> audit_log st' = audit_log st"
proof -
  show "seed_accounts st org bc specs = Inr (st', bc') \<Longrightarrow> entries st' = entries st \<and> audit_log st' = audit_log st"
    by (induction st org bc specs rule: seed_accounts.induct) (auto simp: Let_def dest: add_account_frame)
  show "seed_journals st org js = Inr st' \<Longrightarrow> entries st' = entries st \<and> audit_log st' = audit_log st"
    by (induction st org js rule: seed_journals.induct) (auto dest: add_journal_frame)
  show "sync_specs st org ex specs n = Inr (st', m) \<Longrightarrow> entries st' = entries st \<and> audit_log st' = audit_log st"
    by (induction st org ex specs n rule: sync_specs.induct)
       (auto simp: Let_def split: if_splits dest: add_account_frame)
qed

text \<open>An operation that appends to the audit trail and leaves the entries alone.\<close>

definition trail_extends :: "'h db \<Rightarrow> 'h db \<Rightarrow> bool" where
  "trail_extends st st' \<longleftrightarrow> (\<exists>xs. audit_log st' = audit_log st @ xs)"

lemma trail_refl: "audit_log st' = audit_log st \<Longrightarrow> trail_extends st st'"
  by (simp add: trail_extends_def)

lemma trail_trans: "trail_extends a b \<Longrightarrow> trail_extends b c \<Longrightarrow> trail_extends a c"
  by (auto simp: trail_extends_def)

lemma trail_audit: "trail_extends st st1 \<Longrightarrow> trail_extends st (audit_record st1 x sv ac og rt ri)"
  by (auto simp: trail_extends_def audit_record_def)

lemma chart_ops:
  "seed_defaults st org = Inr (st', n, m) \<Longrightarrow> entries st' = entries st \<and> trail_extends st st'"
  "sync_template st org = Inr (st', k) \<Longrightarrow> entries st' = entries st \<and> trail_extends st st'"
  "create_account st org ad actor = Inr (st', a) \<Longrightarrow> entries st' = entries st \<and> trail_extends st st'"
  "update_account st org i au actor = Inr (st', a) \<Longrightarrow> entries st' = entries st \<and> trail_extends st st'"
  "delete_account st org i actor now = Inr st' \<Longrightarrow> entries st' = entries st \<and> trail_extends st st'"
proof -
  show seed: "entries st' = entries st \<and> trail_extends st st'" if "seed_defaults st org = Inr (st', n, m)" for n m
    using that
    by (auto simp: seed_defaults_def trail_extends_def split: if_splits
        dest!: account_ops_entries(1) account_ops_entries(2))
  show "sync_template st org = Inr (st', k) \<Longrightarrow> entries st' = entries st \<and> trail_extends st st'"
    unfolding sync_template_def Let_def
    by (auto split: if_splits dest!: seed account_ops_entries(3) intro: trail_refl)
  show "create_account st org ad actor = Inr (st', a) \<Longrightarrow> entries st' = entries st \<and> trail_extends st st'"
    by (auto simp: create_account_def adopt_parent_def Let_def split: option.splits if_splits
        dest!: add_account_ok simp: trail_extends_def audit_record_def)
  show "update_account st org i au actor = Inr (st', a) \<Longrightarrow> entries st' = entries st \<and> trail_extends st st'"
    by (auto simp: update_account_def Let_def simp: trail_extends_def audit_record_def)
  show "delete_account st org i actor now = Inr st' \<Longrightarrow> entries st' = entries st \<and> trail_extends st st'"
    by (auto simp: delete_account_def simp: trail_extends_def audit_record_def)
qed

lemma calendar_trail:
  "create_year st org d actor = Inr (st', y) \<Longrightarrow> trail_extends st st'"
  "ensure_year_for st org m today = Inr (st', y) \<Longrightarrow> trail_extends st st'"
  "close_period hs st org i actor lock now = Inr (st', p) \<Longrightarrow> trail_extends st st'"
  "reopen_period st org i actor = Inr (st', p) \<Longrightarrow> trail_extends st st'"
  "create_journal st org jd = Inr (st', j) \<Longrightarrow> trail_extends st st'"
proof -
  have gen: "audit_log b = audit_log a" if "generate_monthly_periods a y = Inr b" for a b :: "'h db" and y
    using that by (auto simp: generate_monthly_periods_def dest!: add_periods_ok)
  have yr: "audit_log b = audit_log a" if "add_year a y = Inr b" for a b :: "'h db" and y
    using that by (auto dest!: add_year_ok)
  show "create_year st org d actor = Inr (st', y) \<Longrightarrow> trail_extends st st'"
    by (auto simp: create_year_def Let_def split: if_splits dest!: gen yr simp: trail_extends_def audit_record_def)
  show "ensure_year_for st org m today = Inr (st', y) \<Longrightarrow> trail_extends st st'"
    by (auto simp: ensure_year_for_def Let_def split: option.splits dest!: gen yr intro!: trail_refl)
  show "close_period hs st org i actor lock now = Inr (st', p) \<Longrightarrow> trail_extends st st'"
    by (auto simp: close_period_def Let_def set_period_def trail_extends_def audit_record_def split: option.splits)
  show "reopen_period st org i actor = Inr (st', p) \<Longrightarrow> trail_extends st st'"
    by (auto simp: reopen_period_def Let_def set_period_def split: option.splits if_splits simp: trail_extends_def audit_record_def)
  show "create_journal st org jd = Inr (st', j) \<Longrightarrow> trail_extends st st'"
    by (auto simp: create_journal_def Let_def dest!: add_journal_ok intro: trail_refl)
qed

lemma post_trail: "post_entry hs st org i actor now = Inr (st', e') \<Longrightarrow> trail_extends st st'"
  by (erule post_entry_ok) (auto simp: trail_extends_def audit_record_def dest: next_number_frame(6))

lemma add_entry_trail: "add_entry st e = Inr st' \<Longrightarrow> trail_extends st st'"
  by (auto dest!: add_entry_ok intro: trail_refl)

lemma create_trail: "create_entry hs st org d actor stype sid now = Inr (st', e') \<Longrightarrow> trail_extends st st'"
  by (erule create_entry_ok)
     (auto split: if_splits intro: trail_audit trail_trans [OF add_entry_trail] post_trail add_entry_trail)

lemma entry_trail:
  "update_entry st org i u = Inr (st', e') \<Longrightarrow> trail_extends st st'"
  "delete_draft st org i actor = Inr st' \<Longrightarrow> trail_extends st st'"
  "reverse_entry hs st org i actor rd nar now = Inr (st', e') \<Longrightarrow> trail_extends st st'"
  "post_simple hs st org actor jt d txt dk ck amt ref stype sid now = Inr (st', e') \<Longrightarrow> trail_extends st st'"
proof -
  show "update_entry st org i u = Inr (st', e') \<Longrightarrow> trail_extends st st'"
    by (erule update_entry_ok) (simp add: trail_extends_def)
  show "delete_draft st org i actor = Inr st' \<Longrightarrow> trail_extends st st'"
    by (erule delete_draft_ok) (auto simp: trail_extends_def audit_record_def)
  show "reverse_entry hs st org i actor rd nar now = Inr (st', e') \<Longrightarrow> trail_extends st st'"
  proof (erule reverse_entry_ok)
    fix org_e r p st1 st2
    assume "add_entry st r = Inr st1" "post_entry hs st1 org (e_id r) actor now = Inr (st2, e')"
      and st': "st' = audit_record (st2\<lparr>entries := update_where (\<lambda>x. e_id x = e_id org_e)
          (\<lambda>_. org_e\<lparr>e_status := REVERSED, e_reversed_at := Some now\<rparr>) (entries st2)\<rparr>)
          JOURNAL_ENTRY_REVERSED WARNING actor org ''journal_entry'' (e_id org_e)"
    then have "trail_extends st st2" using trail_trans add_entry_trail post_trail by blast
    then show ?thesis unfolding st' by (intro trail_audit) (simp add: trail_extends_def)
  qed
  show "post_simple hs st org actor jt d txt dk ck amt ref stype sid now = Inr (st', e') \<Longrightarrow> trail_extends st st'"
    by (erule post_simple_ok) (rule create_trail)
qed

lemma frame_kept:
  "entries st' = entries st \<Longrightarrow> trail_extends st st' \<Longrightarrow> kept st st' \<and> new_dates_open st st' \<and> trail_extends st st'"
  using kept_frame [of st' st] by simp

lemma step_kept:
  assumes "ledger_step hs st st'" "ledger_inv st"
  shows "kept st st' \<and> new_dates_open st st' \<and> trail_extends st st'"
proof -
  have c: "core_inv st" "distinct (map e_id (entries st))" using assms(2) by (simp_all add: ledger_inv_def core_inv_def)
  show ?thesis
    using assms(1)
  proof cases
    case seed then show ?thesis using frame_kept chart_ops(1) by blast
  next
    case sync then show ?thesis using frame_kept chart_ops(2) by blast
  next
    case account_new then show ?thesis using frame_kept chart_ops(3) by blast
  next
    case account_edit then show ?thesis using frame_kept chart_ops(4) by blast
  next
    case account_del then show ?thesis using frame_kept chart_ops(5) by blast
  next
    case year_new then show ?thesis using frame_kept calendar_frame(1) calendar_trail(1) by blast
  next
    case year_ensure then show ?thesis using frame_kept calendar_frame(2) calendar_trail(2) by blast
  next
    case period_close then show ?thesis using frame_kept calendar_frame(3) calendar_trail(3) by blast
  next
    case period_reopen then show ?thesis using frame_kept calendar_frame(4) calendar_trail(4) by blast
  next
    case journal_new then show ?thesis using frame_kept calendar_frame(5) calendar_trail(5) by blast
  next
    case entry_new then show ?thesis using create_kept [OF c(1)] create_trail by blast
  next
    case entry_edit then show ?thesis using update_kept [OF c(1)] entry_trail(1) by blast
  next
    case entry_post then show ?thesis using post_kept [OF c(2)] post_trail by blast
  next
    case entry_reverse then show ?thesis using reverse_kept [OF c(1)] entry_trail(3) by blast
  next
    case entry_delete then show ?thesis using delete_kept [OF c(1)] entry_trail(2) by blast
  next
    case simple
    then show ?thesis by (rule post_simple_ok) (use create_kept [OF c(1)] create_trail in blast)
  qed
qed


section \<open>Net effect on an account\<close>

definition entry_net :: "uuid \<Rightarrow> journal_entry \<Rightarrow> decimal" where
  "entry_net a e = sum_list (map (\<lambda>l. l_debit l - l_credit l) (filter (\<lambda>l. l_account l = a) (e_lines e)))"

definition ledger_net :: "'h db \<Rightarrow> uuid \<Rightarrow> decimal" where
  "ledger_net st a = sum_list (map (entry_net a) (filter is_posted (entries st)))"

lemma entry_net_mirror: "mirrors r e \<Longrightarrow> entry_net a r = - entry_net a e"
proof -
  assume "mirrors r e"
  then have l: "e_lines r = map mirror_line (e_lines e)" by (simp add: mirrors_def)
  have "sum_list (map (\<lambda>l. l_debit l - l_credit l) (filter (\<lambda>l. l_account l = a) (map mirror_line ls))) =
      - sum_list (map (\<lambda>l. l_debit l - l_credit l) (filter (\<lambda>l. l_account l = a) ls))" for ls
    by (induction ls) auto
  then show ?thesis by (simp add: entry_net_def l)
qed

lemma ledger_net_sum:
  assumes "core_inv st"
  shows "ledger_net st a = (\<Sum>e \<in> {e \<in> set (entries st). is_posted e}. entry_net a e)"
proof -
  have "distinct (entries st)" using assms by (simp add: core_inv_def distinct_map)
  then have "distinct (filter is_posted (entries st))" by simp
  then show ?thesis
    unfolding ledger_net_def by (subst sum_list_distinct_conv_sum_set) (auto intro: sum.cong)
qed

lemma reverse_net:
  assumes "ledger_inv st" "reverse_entry hs st org i actor rd nar now = Inr (st', r)"
  shows "\<exists>original \<in> set (entries st). e_id original = i \<and> ledger_net st' a = ledger_net st a - entry_net a original"
proof -
  have c: "core_inv st" and c': "core_inv st'"
    using assms inv_reverse_entry [OF assms] by (simp_all add: ledger_inv_def)
  show ?thesis
    using reverse_entry_effect [OF c assms(2)]
  proof cases
    case (1 original p)
    let ?o = "original\<lparr>e_status := REVERSED, e_reversed_at := Some now\<rparr>"
    let ?P = "{e \<in> set (entries st). is_posted e} - {original}"
    have ids: "\<forall>x \<in> set (entries st). e_id x < next_id st" and d: "distinct (map e_id (entries st))"
      using c by (simp_all add: core_inv_def)
    have same: "x = original" if "x \<in> set (entries st)" "e_id x = e_id original" for x
      using that d 1(1) by (metis distinct_map inj_onD)
    have r: "r \<notin> set (entries st)" using bspec [OF ids, of r] 1(7) by auto
    have ro: "r \<noteq> ?o" using bspec [OF ids 1(1)] 1(7) by auto
    have o: "?o \<notin> ?P" using same [of ?o] by auto
    have P': "{e \<in> set (entries st'). is_posted e} = insert ?o (insert r ?P)"
      using 1(6,9) by (auto simp: is_posted_def)
    have "ledger_net st' a = entry_net a ?o + (entry_net a r + sum (entry_net a) ?P)"
    proof -
      have "sum (entry_net a) (insert ?o (insert r ?P)) = entry_net a ?o + sum (entry_net a) (insert r ?P)"
        using o ro by (intro sum.insert) auto
      moreover have "sum (entry_net a) (insert r ?P) = entry_net a r + sum (entry_net a) ?P"
        using r by (intro sum.insert) auto
      ultimately show ?thesis unfolding ledger_net_sum [OF c'] P' by simp
    qed
    moreover have "ledger_net st a = entry_net a original + sum (entry_net a) ?P"
      unfolding ledger_net_sum [OF c] using 1(1,4) by (intro sum.remove) (auto simp: is_posted_def)
    moreover have "entry_net a ?o = entry_net a original" by (simp add: entry_net_def)
    ultimately have "ledger_net st' a = ledger_net st a - entry_net a original"
      using entry_net_mirror [OF 1(5)] by simp
    then show ?thesis using 1(1,3) by blast
  qed
qed

lemma kept_trans:
  assumes "kept a b" "kept b c" shows "kept a c"
  unfolding kept_def
proof (intro ballI impI)
  fix e
  assume e: "e \<in> set (entries a)" "is_posted e"
  then obtain e1 where e1: "e1 \<in> set (entries b)" "same_or_reversed e e1" using assms(1) unfolding kept_def by blast
  then have "is_posted e1" using e(2) by (auto simp: same_or_reversed_def is_posted_def)
  then obtain e2 where e2: "e2 \<in> set (entries c)" "same_or_reversed e1 e2" using assms(2) e1(1) unfolding kept_def by blast
  then have "same_or_reversed e e2" using e1(2) by (auto simp: same_or_reversed_def)
  with e2(1) show "\<exists>e' \<in> set (entries c). same_or_reversed e e'" by blast
qed

lemma run_kept:
  assumes "reachable hs h st" "(ledger_step hs)\<^sup>*\<^sup>* st st'"
  shows "kept st st' \<and> trail_extends st st'"
proof -
  have "ledger_inv st' \<and> (kept st st' \<and> trail_extends st st')"
  proof (rule ledger.run_keeps [OF assms(2) reachable_inv [OF assms(1)]])
    show "kept a b \<and> trail_extends a b" if "ledger_inv a" "ledger_step hs a b" for a b
      using step_kept [OF that(2,1)] by blast
    show "kept a a \<and> trail_extends a a" for a using kept_frame [of a a] trail_refl by blast
    show "kept a c \<and> trail_extends a c" if "kept a b \<and> trail_extends a b" "kept b c \<and> trail_extends b c" for a b c
      using that kept_trans trail_trans by blast
  qed
  then show ?thesis by blast
qed

section \<open>A run\<close>

text \<open>
  A small set of books used to evaluate the properties: two accounts, a journal, a short fiscal year
  and an entry of 250.50 posted into it. No subscriber is installed.
\<close>

definition no_hooks :: "unit hooks" where
  "no_hooks = \<lparr>entry_posted = [], period_closed = []\<rparr>"

definition demo_account :: "string \<Rightarrow> account_type \<Rightarrow> account_subtype \<Rightarrow> account_create" where
  "demo_account c t s = \<lparr>ac_code = c, ac_name = c, ac_type = t, ac_subtype = s, ac_parent = None,
     ac_description = None, ac_group = False, ac_reconcilable = False\<rparr>"

definition demo_entry :: entry_create where
  "demo_entry = \<lparr>ec_journal = 3, ec_date = 739702, ec_narration = ''Cash sale'', ec_reference = None,
     ec_counterparty = None,
     ec_lines = [\<lparr>li_account = 1, li_debit = 2505 / 10, li_credit = 0, li_description = None\<rparr>,
                 \<lparr>li_account = 2, li_debit = 0, li_credit = 2505 / 10, li_description = None\<rparr>],
     ec_post = True\<rparr>"

definition demo_year :: fiscal_year_create where
  "demo_year = \<lparr>fc_name = ''2025-26'', fc_start = 739700, fc_end = 739706, fc_generate = True\<rparr>"

definition demo_books :: "unit db result" where
  "demo_books =
     bindr (create_account (empty_db ()) 900 (demo_account ''1110'' ASSET SUB_CASH) 7) (\<lambda>(s1, _).
     bindr (create_account s1 900 (demo_account ''4100'' INCOME OPERATING_REVENUE) 7) (\<lambda>(s2, _).
     bindr (create_journal s2 900 \<lparr>jc_code = ''GEN'', jc_name = ''General'', jc_type = GENERAL, jc_prefix = ''JV'',
              jc_default = None\<rparr>) (\<lambda>(s3, _).
     bindr (create_year s3 900 demo_year 7) (\<lambda>(s4, _).
     bindr (create_entry no_hooks s4 900 demo_entry 7 None None 5000) (\<lambda>(s5, _). Inr s5)))))"

lemma demo_validates: "validate_entry_create demo_entry = Inr ()" "validate_year_create demo_year = Inr ()"
  by code_simp+

lemma reachable_empty: "reachable hs h (empty_db h)"
  by (simp add: reachable_def)

lemma reachable_step: "reachable hs h st \<Longrightarrow> ledger_step hs st st' \<Longrightarrow> reachable hs h st'"
  by (simp add: reachable_def)

lemma demo_reachable:
  assumes "demo_books = Inr st"
  shows "reachable no_hooks () st"
proof -
  from assms obtain s1 a1 s2 a2 s3 j s4 y e where
    "create_account (empty_db ()) 900 (demo_account ''1110'' ASSET SUB_CASH) 7 = Inr (s1, a1)"
    "create_account s1 900 (demo_account ''4100'' INCOME OPERATING_REVENUE) 7 = Inr (s2, a2)"
    "create_journal s2 900 \<lparr>jc_code = ''GEN'', jc_name = ''General'', jc_type = GENERAL, jc_prefix = ''JV'',
       jc_default = None\<rparr> = Inr (s3, j)"
    "create_year s3 900 demo_year 7 = Inr (s4, y)"
    "create_entry no_hooks s4 900 demo_entry 7 None None 5000 = Inr (st, e)"
    unfolding demo_books_def by auto
  then have "ledger_step no_hooks (empty_db ()) s1" "ledger_step no_hooks s1 s2" "ledger_step no_hooks s2 s3"
    "ledger_step no_hooks s3 s4" "ledger_step no_hooks s4 st"
    using demo_validates by (blast intro: ledger_step.intros)+
  then show ?thesis using reachable_empty reachable_step by metis
qed


lemma demo_facts:
  "\<exists>st e s e2 st2. demo_books = Inr st \<and> e \<in> set (entries st) \<and> is_posted e \<and> s \<in> set (sequences st) \<and> s_next s = 2 \<and>
     reverse_entry no_hooks st 900 (e_id e) 7 None None 6000 = Inr (st2, e2)"
proof -
  have "(case demo_books of Inr st \<Rightarrow> is_posted (hd (entries st)) \<and> entries st \<noteq> [] \<and> sequences st \<noteq> [] \<and>
      s_next (hd (sequences st)) = 2 \<and>
      is_ok (reverse_entry no_hooks st 900 (e_id (hd (entries st))) 7 None None 6000) | _ \<Rightarrow> False)"
    by code_simp
  then obtain st where st: "demo_books = Inr st" "is_posted (hd (entries st))" "entries st \<noteq> []" "sequences st \<noteq> []"
      "s_next (hd (sequences st)) = 2"
      "is_ok (reverse_entry no_hooks st 900 (e_id (hd (entries st))) 7 None None 6000)"
    by (auto split: sum.splits)
  then obtain r where "reverse_entry no_hooks st 900 (e_id (hd (entries st))) 7 None None 6000 = Inr r"
    by (auto simp: is_ok_iff)
  with st show ?thesis by (cases r) (metis hd_in_set)
qed

section \<open>Properties\<close>

text \<open>
  C1. The books balance. In every reachable database the lines of every entry add up to its stored
  totals, debits equal credits, every line has a positive amount on exactly one side, and its account
  exists, belongs to the same organization, is not deleted and is not a group.
\<close>

theorem ledger_entries_balance:
  assumes "reachable hs h st" and "e \<in> set (entries st)"
  shows "sum_list (map l_debit (e_lines e)) = sum_list (map l_credit (e_lines e)) \<and>
    e_total_debit e = sum_list (map l_debit (e_lines e)) \<and> e_total_credit e = sum_list (map l_credit (e_lines e)) \<and>
    (\<forall>l \<in> set (e_lines e).
       ((l_debit l > 0 \<and> l_credit l = 0) \<or> (l_credit l > 0 \<and> l_debit l = 0)) \<and>
       (\<exists>a \<in> set (accounts st). a_id a = l_account l \<and> a_org a = e_org e \<and> a_deleted a = None \<and> \<not> a_group a))"
proof -
  have "entry_ok (accounts st) e"
    using reachable_inv [OF assms(1)] assms(2) by (simp add: ledger_inv_def core_inv_def)
  then show ?thesis
    by (auto simp: entry_ok_def line_ok_def totals_def line_checks_ok_iff)
qed

theorem ledger_entries_balance_witness:
  "\<exists>st e. demo_books = Inr st \<and> reachable no_hooks () st \<and> e \<in> set (entries st) \<and>
     sum_list (map l_debit (e_lines e)) = sum_list (map l_credit (e_lines e))"
proof -
  obtain st e where s: "demo_books = Inr st" "e \<in> set (entries st)" using demo_facts by blast
  from ledger_entries_balance [OF demo_reachable [OF s(1)] s(2)] demo_reachable [OF s(1)] s show ?thesis by blast
qed

text \<open>
  C5. Numbering is gap-free. In every reachable database, for every number sequence, each value below its
  counter has been given to exactly one entry of the organization, and that entry is posted: no number
  is skipped, none is used twice, and none disappears.
\<close>

theorem numbering_gap_free:
  assumes "reachable hs h st" and "s \<in> set (sequences st)" and "1 \<le> v" and "v < s_next s"
  shows "\<exists>e. e \<in> set (entries st) \<and> e_org e = s_org s \<and> e_number e = Some (sequence_format s v) \<and> is_posted e \<and>
    (\<forall>x \<in> set (entries st). e_org x = s_org s \<and> e_number x = Some (sequence_format s v) \<longrightarrow> x = e)"
proof -
  have c: "core_inv st" using reachable_inv [OF assms(1)] by (simp add: ledger_inv_def)
  then obtain e where e: "e \<in> set (entries st)" "e_org e = s_org s" "is_posted e" "e_number e = Some (sequence_format s v)"
    using assms(2-4) unfolding core_inv_def gap_free_def by blast
  have "x = e" if "x \<in> set (entries st)" "e_org x = s_org s" "e_number x = Some (sequence_format s v)" for x
  proof -
    have "numbers_unique (entries st)" using c by (simp add: core_inv_def)
    then have "e_number e \<noteq> None \<and> e_org x = e_org e \<and> e_number x = e_number e \<longrightarrow> e_id x = e_id e"
      using e(1) that(1) unfolding numbers_unique_def by blast
    then have "e_id x = e_id e" using e(2,4) that(2,3) by simp
    with c e(1) that(1) show ?thesis unfolding core_inv_def by (metis distinct_map inj_onD)
  qed
  with e show ?thesis by blast
qed

theorem numbering_gap_free_witness:
  "\<exists>st s e. demo_books = Inr st \<and> s \<in> set (sequences st) \<and> 1 < s_next s \<and> e \<in> set (entries st) \<and>
     e_number e = Some (sequence_format s 1)"
proof -
  obtain st s where s: "demo_books = Inr st" "s \<in> set (sequences st)" "s_next s = 2" using demo_facts by blast
  obtain e where "e \<in> set (entries st)" "e_number e = Some (sequence_format s 1)"
    using numbering_gap_free [OF demo_reachable [OF s(1)] s(2), of 1] s(3) by auto
  with s show ?thesis by (intro exI [of _ st] exI [of _ s] exI [of _ e]) simp
qed

text \<open>
  C2. Posted entries are immutable. Along every run from a reachable database a posted entry is still there
  and unchanged, except that a posted entry may have been marked reversed: its number, date, accounts,
  amounts and texts are never edited, and it is never deleted.
\<close>

theorem posted_entries_immutable:
  assumes "reachable hs h st" and "(ledger_step hs)\<^sup>*\<^sup>* st st'" and "e \<in> set (entries st)" and "is_posted e"
  shows "\<exists>e' \<in> set (entries st'). e' = e \<or>
    (e_status e = POSTED \<and> (\<exists>t. e' = e\<lparr>e_status := REVERSED, e_reversed_at := t\<rparr>))"
  using run_kept [OF assms(1,2)] assms(3,4) unfolding kept_def same_or_reversed_def by blast

theorem posted_entries_immutable_witness:
  "\<exists>st st2 e e'. demo_books = Inr st \<and> e \<in> set (entries st) \<and> is_posted e \<and> ledger_step no_hooks st st2 \<and>
     e' \<in> set (entries st2) \<and> e_number e' = e_number e \<and> e_lines e' = e_lines e"
proof -
  obtain st e st2 e2 where s: "demo_books = Inr st" "e \<in> set (entries st)" "is_posted e"
      "reverse_entry no_hooks st 900 (e_id e) 7 None None 6000 = Inr (st2, e2)" using demo_facts by blast
  then have step: "ledger_step no_hooks st st2" by (blast intro: ledger_step.entry_reverse)
  obtain e' where "e' \<in> set (entries st2)" "e_number e' = e_number e" "e_lines e' = e_lines e"
    using posted_entries_immutable [OF demo_reachable [OF s(1)] r_into_rtranclp [of "ledger_step no_hooks", OF step] s(2,3)] by auto
  with s step show ?thesis by blast
qed

text \<open>
  C3. A closed period does not change. If a period is closed or locked, then whatever step is taken next,
  the posted entries of its organization dated within it are the same, with the same lines, before
  and after; filed figures cannot move.
\<close>

theorem closed_period_frozen:
  assumes "reachable hs h st" and "ledger_step hs st st'" and "q \<in> set (periods st)" and "p_status q \<noteq> OPEN"
  shows "{(e_id e, e_date e, e_lines e) | e. e \<in> set (entries st') \<and> is_posted e \<and> e_org e = p_org q \<and>
      p_start q \<le> e_date e \<and> e_date e \<le> p_end q} =
    {(e_id e, e_date e, e_lines e) | e. e \<in> set (entries st) \<and> is_posted e \<and> e_org e = p_org q \<and>
      p_start q \<le> e_date e \<and> e_date e \<le> p_end q}" (is "?new = ?old")
proof -
  note k = step_kept [OF assms(2) reachable_inv [OF assms(1)]]
  have same: "e_id b = e_id a \<and> e_date b = e_date a \<and> e_lines b = e_lines a \<and> e_org b = e_org a \<and> (is_posted a \<longrightarrow> is_posted b)"
    if "same_or_reversed a b" for a b using that by (auto simp: same_or_reversed_def is_posted_def)
  show ?thesis
  proof (intro equalityI subsetI)
    fix x
    assume "x \<in> ?old"
    then obtain e where e: "x = (e_id e, e_date e, e_lines e)" "e \<in> set (entries st)" "is_posted e" "e_org e = p_org q"
      "p_start q \<le> e_date e" "e_date e \<le> p_end q" by blast
    then obtain e' where "e' \<in> set (entries st')" "same_or_reversed e e'" using k unfolding kept_def by blast
    with same [of e e'] e show "x \<in> ?new" by (intro CollectI exI [of _ e']) auto
  next
    fix x
    assume "x \<in> ?new"
    then obtain e where e: "x = (e_id e, e_date e, e_lines e)" "e \<in> set (entries st')" "is_posted e" "e_org e = p_org q"
      "p_start q \<le> e_date e" "e_date e \<le> p_end q" by blast
    then have "\<not> (\<exists>p. resolve_open_period st (e_org e) (e_date e) = Inr p)"
      using closed_period_blocks [OF _ assms(3) _ assms(4)] by fastforce
    with k e obtain e0 where "e0 \<in> set (entries st)" "is_posted e0" "same_or_reversed e0 e"
      unfolding new_dates_open_def by blast
    with same [of e0 e] e show "x \<in> ?old" by (intro CollectI exI [of _ e0]) auto
  qed
qed

text \<open>The demonstration books with their period closed: a further step leaves its figures alone.\<close>

lemma demo_closed:
  "\<exists>st st1 q. demo_books = Inr st \<and> close_period no_hooks st 900 5 7 True 7000 = Inr (st1, q) \<and> q \<in> set (periods st1) \<and>
     p_status q \<noteq> OPEN"
proof -
  have "(case demo_books of Inr st \<Rightarrow>
      (case close_period no_hooks st 900 5 7 True 7000 of
         Inr (st1, q) \<Rightarrow> List.member (periods st1) q \<and> p_status q \<noteq> OPEN | _ \<Rightarrow> False) | _ \<Rightarrow> False)"
    by code_simp
  then show ?thesis by (auto split: sum.splits simp: List.member_iff)
qed

theorem closed_period_frozen_witness:
  "\<exists>st st1 st2 q. demo_books = Inr st \<and> ledger_step no_hooks st st1 \<and> ledger_step no_hooks st1 st2 \<and> q \<in> set (periods st1) \<and>
     {(e_id e, e_date e, e_lines e) | e. e \<in> set (entries st2) \<and> is_posted e \<and> e_org e = p_org q \<and>
       p_start q \<le> e_date e \<and> e_date e \<le> p_end q} =
     {(e_id e, e_date e, e_lines e) | e. e \<in> set (entries st1) \<and> is_posted e \<and> e_org e = p_org q \<and>
       p_start q \<le> e_date e \<and> e_date e \<le> p_end q}"
proof -
  obtain st st1 q where s: "demo_books = Inr st" "close_period no_hooks st 900 5 7 True 7000 = Inr (st1, q)"
    "q \<in> set (periods st1)" "p_status q \<noteq> OPEN" using demo_closed by blast
  have step: "ledger_step no_hooks st st1" using s(2) by (rule ledger_step.period_close)
  have r1: "reachable no_hooks () st1" using reachable_step [OF demo_reachable [OF s(1)] step] .
  have "\<exists>st2. ledger_step no_hooks st1 st2"
  proof -
    have "(case demo_books of Inr st \<Rightarrow> (case close_period no_hooks st 900 5 7 True 7000 of
        Inr (st1, q) \<Rightarrow> is_ok (create_account st1 900 (demo_account ''9'' ASSET SUB_BANK) 7) | _ \<Rightarrow> False) | _ \<Rightarrow> False)"
      by code_simp
    then have "is_ok (create_account st1 900 (demo_account ''9'' ASSET SUB_BANK) 7)"
      unfolding s(1) sum.case s(2) prod.case .
    then show ?thesis unfolding is_ok_iff using ledger_step.account_new by (metis surj_pair)
  qed
  then obtain st2 where step2: "ledger_step no_hooks st1 st2" by blast
  show ?thesis using closed_period_frozen [OF r1 step2 s(3,4)] s step step2 by blast
qed


text \<open>
  C4. A reversal cancels. When \<^verbatim>\<open>reverse_entry\<close> succeeds on a reachable database, the net balance of every
  account over all posted entries is what it would be without the original entry: the original still
  counts, and the mirror takes its effect away exactly.
\<close>

theorem reversal_cancels:
  assumes "reachable hs h st" and "reverse_entry hs st org i actor rd nar now = Inr (st', r)"
  shows "\<exists>original \<in> set (entries st). e_id original = i \<and> e_status original = POSTED \<and>
    e_reverses r = Some i \<and> e_date original \<le> e_date r \<and>
    (\<forall>a. ledger_net st' a = ledger_net st a - entry_net a original)"
proof -
  have inv: "ledger_inv st" and c: "core_inv st" using reachable_inv [OF assms(1)] by (simp_all add: ledger_inv_def)
  show ?thesis
    using reverse_entry_effect [OF c assms(2)]
  proof cases
    case (1 original p)
    have "ledger_net st' a = ledger_net st a - entry_net a original" for a
    proof -
      obtain o' where o': "o' \<in> set (entries st)" "e_id o' = i" "ledger_net st' a = ledger_net st a - entry_net a o'"
        using reverse_net [OF inv assms(2)] by blast
      then have "o' = original" using c 1(1,3) unfolding core_inv_def by (metis distinct_map inj_onD)
      with o' show ?thesis by simp
    qed
    then show ?thesis using 1(1,3-5) by (intro bexI [of _ original]) (simp_all add: mirrors_def)
  qed
qed

theorem reversal_cancels_witness:
  "\<exists>st e st2 r. demo_books = Inr st \<and> e \<in> set (entries st) \<and>
     reverse_entry no_hooks st 900 (e_id e) 7 None None 6000 = Inr (st2, r) \<and> e_reverses r = Some (e_id e)"
proof -
  obtain st e st2 r where s: "demo_books = Inr st" "e \<in> set (entries st)"
      "reverse_entry no_hooks st 900 (e_id e) 7 None None 6000 = Inr (st2, r)" using demo_facts by blast
  from reversal_cancels [OF demo_reachable [OF s(1)] s(3)] s show ?thesis by blast
qed

text \<open>
  The audit trail only grows: along every run from a reachable database, the trail before is a prefix of
  the trail after.
\<close>

theorem audit_trail_append_only:
  assumes "reachable hs h st" and "(ledger_step hs)\<^sup>*\<^sup>* st st'"
  shows "\<exists>rows. audit_log st' = audit_log st @ rows"
  using run_kept [OF assms] unfolding trail_extends_def by blast

theorem audit_trail_append_only_witness:
  "\<exists>st rows. demo_books = Inr st \<and> audit_log st = audit_log (empty_db ()) @ rows"
proof -
  obtain st where s: "demo_books = Inr st" using demo_facts by blast
  have "(ledger_step no_hooks)\<^sup>*\<^sup>* (empty_db ()) st" using demo_reachable [OF s] unfolding reachable_def .
  from audit_trail_append_only [OF reachable_empty this] s show ?thesis by blast
qed

lemma post_entry_notifies:
  "post_entry hs st org i actor now =
     bindr (post_entry \<lparr>entry_posted = [], period_closed = []\<rparr> st org i actor now)
       (\<lambda>(s, e). Inr (notify_entry_posted hs s e, e))"
proof -
  have assoc: "bindr (bindr m f) g = bindr m (\<lambda>x. bindr (f x) g)" for m :: "'x result" and f :: "'x \<Rightarrow> 'y result" and g :: "'y \<Rightarrow> 'z result"
    by (cases m) simp_all
  have none: "notify_entry_posted \<lparr>entry_posted = [], period_closed = []\<rparr> s e = s" for s :: "'h db" and e
    by (simp add: notify_entry_posted_def)
  show ?thesis
    unfolding post_entry_def assoc Let_def none
    by (intro bindr_cong refl) (simp add: assoc none split: option.split, intro impI allI bindr_cong refl,
        simp add: assoc none split: prod.split)
qed

lemma create_entry_notifies:
  assumes "ec_post d" "create_entry \<lparr>entry_posted = [], period_closed = []\<rparr> st org d actor stype sid now = Inr (s, e)"
  shows "create_entry hs st org d actor stype sid now = Inr (notify_entry_posted hs s e, e)"
  using assms post_entry_notifies [of hs]
  by (auto simp: create_entry_def Let_def split_beta split: option.splits)

text \<open>
  Subscribers cannot interfere with posting. Whatever subscribers are installed and whatever they raise,
  \<^verbatim>\<open>post_entry\<close> returns the same entry or the same exception and leaves every table of the ledger as it
  would with none installed; the only difference is what the subscribers wrote to their own tables.
\<close>

theorem hooks_cannot_interfere:
  "post_entry hs st org i actor now =
     bindr (post_entry \<lparr>entry_posted = [], period_closed = []\<rparr> st org i actor now)
       (\<lambda>(s, e). Inr (notify_entry_posted hs s e, e)) \<and>
   (\<forall>s e. (notify_entry_posted hs s e)\<lparr>hook_state := hook_state s\<rparr> = s)"
  using post_entry_notifies by (auto simp: notify_entry_posted_def)

end
