(* ===== verification/Reports_Properties.thy ===== *)
theory Reports_Properties
  imports Reports Ledger_Properties
begin

text \<open>
  The statements agree with the books and with each other. The argument is one partition: the lines of the
  posted entries in a window, grouped by account, are all the lines, since every line is on an account the
  report lists; and the lines of each entry balance.
\<close>

section \<open>Net movement\<close>

definition net_lines :: "entry_line list \<Rightarrow> decimal" where
  "net_lines ls = sum_list (map (\<lambda>l. l_debit l - l_credit l) ls)"

definition net_of :: "'h db \<Rightarrow> uuid \<Rightarrow> date option \<Rightarrow> date \<Rightarrow> uuid \<Rightarrow> decimal" where
  "net_of st org from_date to_date i = net_lines (filter (\<lambda>l. l_account l = i) (window_lines st org from_date to_date))"

lemma net_lines_simps [simp]: "net_lines [] = 0" "net_lines (l # ls) = l_debit l - l_credit l + net_lines ls"
  "net_lines (ls @ ms) = net_lines ls + net_lines ms"
  by (simp_all add: net_lines_def)

lemma net_lines_diff: "net_lines ls = sum_list (map l_debit ls) - sum_list (map l_credit ls)"
  by (simp add: net_lines_def sum_list_subtractf)

lemma partition_by_account:
  assumes "distinct (map a_id as)" "\<forall>l \<in> set ls. l_account l \<in> a_id ` set as"
  shows "sum_list (map (\<lambda>a. net_lines (filter (\<lambda>l. l_account l = a_id a) ls)) as) = net_lines ls"
  using assms(2)
proof (induction ls)
  case (Cons l ls)
  then obtain a where a: "a \<in> set as" "a_id a = l_account l" by auto
  let ?g = "\<lambda>b. net_lines (filter (\<lambda>l. l_account l = a_id b) ls)"
  have "map (\<lambda>b. net_lines (filter (\<lambda>l. l_account l = a_id b) (l # ls))) as =
      map (\<lambda>b. (if b = a then l_debit l - l_credit l else 0) + ?g b) as"
    using assms(1) a by (auto simp: distinct_map dest: inj_onD)
  then have "sum_list (map (\<lambda>b. net_lines (filter (\<lambda>l. l_account l = a_id b) (l # ls))) as) =
      sum_list (map (\<lambda>b. if b = a then l_debit l - l_credit l else 0) as) + sum_list (map ?g as)"
    by (simp only: sum_list_addf)
  moreover have "sum_list (map (\<lambda>b. if b = a then l_debit l - l_credit l else 0) as) = l_debit l - l_credit l"
    using a(1) assms(1) by (simp add: sum_list_distinct_conv_sum_set distinct_map)
  ultimately show ?case using Cons by simp
qed (simp add: sum_list_0)

section \<open>What a report lists\<close>

lemma reported_accounts:
  "a \<in> set (list_for_org st org True True) \<longleftrightarrow> a \<in> set (accounts st) \<and> a_deleted a = None \<and> a_org a = org \<and> \<not> a_group a"
  by (auto simp: list_for_org_def live_accounts_def)

lemma distinct_reported:
  assumes "ledger_inv st"
  shows "distinct (map a_id (list_for_org st org True True))" "distinct (map a_id (sort_key f (list_for_org st org True True)))"
proof -
  have "distinct (map a_id (accounts st))" using assms by (simp add: ledger_inv_def core_inv_def)
  then have "distinct (map a_id (filter P (accounts st)))" for P by (rule distinct_map_filter)
  then show d: "distinct (map a_id (list_for_org st org True True))"
    by (simp add: list_for_org_def live_accounts_def distinct_map)
  then show "distinct (map a_id (sort_key f (list_for_org st org True True)))" by (simp add: distinct_map)
qed

lemma window_mem: "e \<in> set (window_entries st org f t) \<longleftrightarrow> e \<in> set (entries st) \<and> e_org e = org \<and> in_window f t e"
  by (auto simp: window_entries_def)

lemma entry_ok_entries: "ledger_inv st \<Longrightarrow> e \<in> set (entries st) \<Longrightarrow> entry_ok (accounts st) e"
  by (simp add: ledger_inv_def core_inv_def)

lemma lines_reported:
  assumes "ledger_inv st"
  shows "\<forall>l \<in> set (window_lines st org f t). l_account l \<in> a_id ` set (list_for_org st org True True)"
proof
  fix l assume "l \<in> set (window_lines st org f t)"
  then obtain e where e: "e \<in> set (entries st)" "e_org e = org" "l \<in> set (e_lines e)" by (auto simp: window_lines_def window_mem)
  from entry_ok_entries [OF assms e(1)] e(3) have "line_ok (accounts st) (e_org e) l" by (simp add: entry_ok_def)
  then show "l_account l \<in> a_id ` set (list_for_org st org True True)"
    using e(2) unfolding line_ok_def by (metis image_eqI reported_accounts)
qed

lemma entry_nets_zero: "entry_ok as e \<Longrightarrow> net_lines (e_lines e) = 0"
  by (auto simp: entry_ok_def totals_def net_lines_diff)

lemma net_concat: "net_lines (concat xss) = sum_list (map net_lines xss)"
  by (induction xss) simp_all

lemma window_nets_zero:
  assumes "ledger_inv st"
  shows "net_lines (window_lines st org f t) = 0"
proof -
  have "map (net_lines \<circ> e_lines) (window_entries st org f t) = map (\<lambda>_. 0) (window_entries st org f t)"
    using entry_nets_zero [OF entry_ok_entries [OF assms]] by (intro map_cong) (auto simp: window_mem)
  then have "sum_list (map (net_lines \<circ> e_lines) (window_entries st org f t)) = 0" by (simp only: sum_list_0)
  then show ?thesis by (simp add: window_lines_def net_concat)
qed

lemma nets_sum_zero:
  assumes "ledger_inv st" "distinct (map a_id as)" "set as = set (list_for_org st org True True)"
  shows "sum_list (map (\<lambda>a. net_of st org f t (a_id a)) as) = 0"
  using partition_by_account [OF assms(2), of "window_lines st org f t"] lines_reported [OF assms(1)] window_nets_zero [OF assms(1)]
  by (simp add: net_of_def assms(3))

text \<open>A window from the beginning is one up to the day before a date and one from it.\<close>

lemma window_split:
  assumes "d \<le> t + 1"
  shows "net_of st org None t i = net_of st org None (d - 1) i + net_of st org (Some d) t i"
proof -
  have "net_lines (filter P (concat (map e_lines (filter (\<lambda>e. e_org e = org \<and> in_window None t e) es)))) =
      net_lines (filter P (concat (map e_lines (filter (\<lambda>e. e_org e = org \<and> in_window None (d - 1) e) es)))) +
      net_lines (filter P (concat (map e_lines (filter (\<lambda>e. e_org e = org \<and> in_window (Some d) t e) es))))" for P es
    using assms by (induction es) (auto simp: in_window_def)
  then show ?thesis by (simp add: net_of_def window_lines_def window_entries_def)
qed

section \<open>Amounts\<close>

definition signed_net :: "account \<Rightarrow> decimal \<Rightarrow> decimal" where
  "signed_net a x = (if normal_balance (a_type a) = DEBIT then x else - x)"

lemma balances_None: "balances st org t f i = None \<Longrightarrow> net_of st org f t i = 0"
  by (auto simp: balances_def net_of_def Let_def split: if_splits)

lemma balances_Some: "balances st org t f i = Some b \<Longrightarrow> ab_debit b - ab_credit b = net_of st org f t i"
  by (auto simp: balances_def net_of_def Let_def sum_lines_def net_lines_diff split: if_splits)

lemma amount_net: "(case amount_in (balances st org t f) a of None \<Rightarrow> 0 | Some x \<Rightarrow> x) = signed_net a (net_of st org f t (a_id a))"
  using balances_None [of st org t f "a_id a"] balances_Some [of st org t f "a_id a"]
  by (auto simp: amount_in_def signed_net_def signed_balance_def split: option.split)

lemma lines_total_net:
  "lines_total (nonzero_lines (balances st org t f) kind as) =
     sum_list (map (\<lambda>a. if kind a then signed_net a (net_of st org f t (a_id a)) else 0) as)"
proof (induction as)
  case (Cons a as)
  have "lines_total (nonzero_lines bal kind (a # as)) =
      (if kind a then (case amount_in bal a of None \<Rightarrow> 0 | Some x \<Rightarrow> x) else 0) + lines_total (nonzero_lines bal kind as)" for bal
    by (simp add: nonzero_lines_def lines_total_def map_filter_simps account_line_def split: option.split)
  then show ?case using Cons by (simp add: amount_net)
qed (simp add: nonzero_lines_def lines_total_def map_filter_simps)

lemma earning_net:
  "earning_of (balances st org t f) a =
     (if is_profit_and_loss (a_type a) then - net_of st org f t (a_id a) else 0)"
  using amount_net [of st org t f a]
  by (auto simp: earning_of_def signed_net_def is_profit_and_loss_def normal_balance_def split: option.splits)

lemma earnings_net:
  "earnings_over (balances st org t f) as =
     sum_list (map (\<lambda>a. if is_profit_and_loss (a_type a) then - net_of st org f t (a_id a) else 0) as)"
proof -
  have "earning_of (balances st org t f) = (\<lambda>a. if is_profit_and_loss (a_type a) then - net_of st org f t (a_id a) else 0)"
    by (rule ext) (rule earning_net)
  then show ?thesis by (simp add: earnings_over_def)
qed

lemma rows_total_net:
  "sum_list (map tr_debit (List.map_filter (trial_row_of (balances st org t f) ps z) as)) -
   sum_list (map tr_credit (List.map_filter (trial_row_of (balances st org t f) ps z) as)) =
     sum_list (map (\<lambda>a. net_of st org f t (a_id a)) as)"
proof (induction as)
  case (Cons a as)
  have "(case trial_row_of (balances st org t f) ps z a of None \<Rightarrow> 0 | Some r \<Rightarrow> tr_debit r - tr_credit r) =
      net_of st org f t (a_id a)"
    using balances_None [of st org t f "a_id a"] balances_Some [of st org t f "a_id a"]
    by (cases "balances st org t f (a_id a)") (auto simp: trial_row_of_def Let_def)
  then show ?case using Cons by (simp add: map_filter_simps split: option.splits)
qed (simp add: map_filter_simps)

lemma line_row:
  assumes "l \<in> set (window_lines st org f t)" "l_account l = a_id a" "line_checks l = Inr ()"
    and "\<forall>m \<in> set (window_lines st org f t). line_checks m = Inr ()"
  shows "\<exists>r. trial_row_of (balances st org t f) ps z a = Some r \<and> tr_account r = a_id a \<and>
    tr_gross_debit r = sum_list (map l_debit (filter (\<lambda>l. l_account l = a_id a) (window_lines st org f t))) \<and>
    tr_gross_credit r = sum_list (map l_credit (filter (\<lambda>l. l_account l = a_id a) (window_lines st org f t)))"
proof -
  let ?ls = "filter (\<lambda>l. l_account l = a_id a) (window_lines st org f t)"
  have l: "l \<in> set ?ls" using assms(1,2) by simp
  then have b: "balances st org t f (a_id a) = Some (sum_lines (a_id a) ?ls)" by (auto simp: balances_def Let_def filter_empty_conv)
  have nonneg: "0 \<le> l_debit m \<and> 0 \<le> l_credit m" if "m \<in> set ?ls" for m
    using assms(4) that by (auto simp: line_checks_ok_iff)
  have "l_debit l \<le> sum_list (map l_debit ?ls)" "l_credit l \<le> sum_list (map l_credit ?ls)"
    using l nonneg by (auto intro!: member_le_sum_list)
  then have "sum_list (map l_debit ?ls) \<noteq> 0 \<or> sum_list (map l_credit ?ls) \<noteq> 0"
    using assms(3) by (auto simp: line_checks_ok_iff)
  then show ?thesis by (auto simp: trial_row_of_def Let_def b sum_lines_def)
qed

section \<open>One account\<close>

text \<open>The foreign key of an entry to its journal.\<close>

definition journals_present :: "'h db \<Rightarrow> bool" where
  "journals_present st \<longleftrightarrow> list_all (\<lambda>e. journal_of st (e_journal e) \<noteq> None) (entries st)"

lemma signed_balance_net: "signed_balance (a_type a) d c = signed_net a (d - c)"
  by (simp add: signed_balance_def signed_net_def)

lemma signed_net_add: "signed_net a (x + y) = signed_net a x + signed_net a y"
  by (simp add: signed_net_def)

lemma lines_of_account:
  assumes inv: "ledger_inv st" and a: "a \<in> set (accounts st)"
  shows "filter (\<lambda>l. l_account l = a_id a) (concat (map e_lines (filter (in_window f t) (entries st)))) =
    filter (\<lambda>l. l_account l = a_id a) (window_lines st (a_org a) f t)"
proof -
  have dist: "distinct (map a_id (accounts st))" using inv by (simp add: ledger_inv_def core_inv_def)
  have org: "e_org e = a_org a" if "e \<in> set (entries st)" "l \<in> set (e_lines e)" "l_account l = a_id a" for e l
  proof -
    note e = entry_ok_entries [OF inv that(1)] that(2)
    obtain x where x: "x \<in> set (accounts st)" "a_id x = l_account l" "a_org x = e_org e"
      using e by (auto simp: entry_ok_def line_ok_def)
    then have "x = a" using dist a that(3) by (auto simp: distinct_map dest: inj_onD)
    with x show ?thesis by simp
  qed
  have "filter (\<lambda>l. l_account l = a_id a) (concat (map e_lines (filter (in_window f t) es))) =
      filter (\<lambda>l. l_account l = a_id a) (concat (map e_lines (filter (\<lambda>e. e_org e = a_org a \<and> in_window f t e) es)))"
    if "set es \<subseteq> set (entries st)" for es
    using that
  proof (induction es)
    case (Cons e es)
    have "filter (\<lambda>l. l_account l = a_id a) (e_lines e) = []" if "e_org e \<noteq> a_org a"
      using org [of e] Cons.prems \<open>e_org e \<noteq> a_org a\<close> by (auto simp: filter_empty_conv)
    with Cons show ?case by auto
  qed simp
  then show ?thesis by (simp add: window_lines_def window_entries_def)
qed

lemma balance_for_net:
  assumes "ledger_inv st" "a \<in> set (accounts st)"
  shows "ab_debit (balance_for st (a_id a) t f) - ab_credit (balance_for st (a_id a) t f) = net_of st (a_org a) f t (a_id a)"
  using lines_of_account [OF assms, of f t] by (simp add: balance_for_def sum_lines_def net_of_def net_lines_diff)

lemma run_ledger_final:
  "snd (run_ledger (a_type a) x rows) = x + signed_net a (sum_list (map (\<lambda>(l, e, j). l_debit l - l_credit l) rows)) \<and>
   map ll_debit (fst (run_ledger (a_type a) x rows)) = map (\<lambda>(l, e, j). l_debit l) rows \<and>
   (rows \<noteq> [] \<longrightarrow> ll_running (last (fst (run_ledger (a_type a) x rows))) = snd (run_ledger (a_type a) x rows))"
proof (induction rows arbitrary: x)
  case (Cons r rows)
  obtain l e j where r: "r = (l, e, j)" by (cases r)
  let ?x = "if normal_balance (a_type a) = DEBIT then x + (l_debit l - l_credit l) else x + (l_credit l - l_debit l)"
  obtain ls y where ls: "run_ledger (a_type a) ?x rows = (ls, y)" by (cases "run_ledger (a_type a) ?x rows")
  have "rows \<noteq> [] \<longleftrightarrow> ls \<noteq> []"
    using Cons [of ?x] unfolding ls by auto
  then show ?case using Cons [of ?x] unfolding ls
    by (auto simp: r Let_def ls signed_net_def split: if_splits)
qed (simp add: signed_net_def)

lemma ledger_rows:
  assumes "journals_present st"
  shows "sum_list (map (\<lambda>(l, e, j). (g l :: decimal)) (ledger_lines st org i f t)) =
      sum_list (map g (filter (\<lambda>l. l_account l = i) (window_lines st org (Some f) t)))"
    and "length (ledger_lines st org i f t) = length (filter (\<lambda>l. l_account l = i) (window_lines st org (Some f) t))"
proof -
  have j: "journal_of st (e_journal e) \<noteq> None" if "e \<in> set (entries st)" for e
    using assms that by (simp add: journals_present_def list_all_iff)
  let ?rows = "\<lambda>es. concat (map (\<lambda>e. case journal_of st (e_journal e) of None \<Rightarrow> []
            | Some j \<Rightarrow> map (\<lambda>l. (l, e, j)) (filter (\<lambda>l. l_account l = i) (e_lines e))) es)"
  have rows: "map fst (?rows es) = filter (\<lambda>l. l_account l = i) (concat (map e_lines es))"
    if "set es \<subseteq> set (entries st)" for es
    using that by (induction es) (auto simp: comp_def dest!: j)
  have sub: "set (window_entries st org (Some f) t) \<subseteq> set (entries st)" by (auto simp: window_mem)
  have "(\<lambda>(l, e :: journal_entry, j :: journal). g l) = g \<circ> fst" by auto
  then have "map (\<lambda>(l, e, j). g l) xs = map g (map fst xs)" for xs :: "(entry_line \<times> journal_entry \<times> journal) list"
    by simp
  note eq = this [of "?rows (window_entries st org (Some f) t)", unfolded rows [OF sub]]
  show "sum_list (map (\<lambda>(l, e, j). g l) (ledger_lines st org i f t)) =
      sum_list (map g (filter (\<lambda>l. l_account l = i) (window_lines st org (Some f) t)))"
    unfolding ledger_lines_def sum_list_sort_key eq window_lines_def ..
  show "length (ledger_lines st org i f t) = length (filter (\<lambda>l. l_account l = i) (window_lines st org (Some f) t))"
    unfolding ledger_lines_def window_lines_def length_sort rows [OF sub, symmetric] by (simp only: length_map)
qed

section \<open>Cash\<close>

text \<open>
  An entry whose counter lines are all on one side, with amounts of at most ten digits before the point:
  the proportional split then gives back the amounts of the counter lines.
\<close>

definition plain_cash_entry :: "uuid list \<Rightarrow> journal_entry \<Rightarrow> bool" where
  "plain_cash_entry ids e \<longleftrightarrow>
     (let counter = filter (\<lambda>l. l_account l \<notin> set ids) (e_lines e)
      in (list_all (\<lambda>l. l_credit l = 0) counter \<or> list_all (\<lambda>l. l_debit l = 0) counter) \<and>
         list_all (\<lambda>l. on_grid 4 (l_debit l) \<and> on_grid 4 (l_credit l)) (e_lines e) \<and> e_total_debit e < 10 ^ 10)"

definition cash_movement :: "uuid list \<Rightarrow> journal_entry \<Rightarrow> decimal" where
  "cash_movement ids e = net_lines (filter (\<lambda>l. l_account l \<in> set ids) (e_lines e))"

lemma net_lines_split: "net_lines (filter P ls) + net_lines (filter (\<lambda>l. \<not> P l) ls) = net_lines ls"
  by (induction ls) simp_all

lemma sum_amounts_nonneg: "\<forall>l \<in> set ls. 0 < line_amount l \<Longrightarrow> 0 \<le> sum_list (map line_amount ls)"
  by (induction ls) auto

lemma counter_total:
  assumes e: "entry_ok as e" and plain: "plain_cash_entry ids e"
  defines "counter \<equiv> filter (\<lambda>l. l_account l \<notin> set ids) (e_lines e)"
  shows "sum_list (map line_amount counter) = \<bar>cash_movement ids e\<bar>" "on_grid 4 \<bar>cash_movement ids e\<bar>"
    "\<bar>cash_movement ids e\<bar> \<le> e_total_debit e" "counter = [] \<longleftrightarrow> cash_movement ids e = 0"
    "\<And>l. l \<in> set counter \<Longrightarrow> on_grid 4 (line_amount l) \<and> 0 < line_amount l"
proof -
  have single: "(l_debit l > 0 \<and> l_credit l = 0) \<or> (l_credit l > 0 \<and> l_debit l = 0)" if "l \<in> set (e_lines e)" for l
    using e that by (auto simp: entry_ok_def line_ok_def line_checks_ok_iff)
  have sub: "set counter \<subseteq> set (e_lines e)" by (auto simp: counter_def)
  have net: "cash_movement ids e = - net_lines counter"
    using entry_nets_zero [OF e] net_lines_split [of "\<lambda>l. l_account l \<in> set ids" "e_lines e"]
    by (simp add: cash_movement_def counter_def)
  show amt: "on_grid 4 (line_amount l) \<and> 0 < line_amount l" if "l \<in> set counter" for l
    using plain single [of l] sub that by (auto simp: plain_cash_entry_def Let_def list_all_iff line_amount_def)
  have le: "sum_list (map line_amount ls) = \<bar>net_lines ls\<bar>"
    if "set ls \<subseteq> set (e_lines e)" "(\<forall>l \<in> set ls. l_credit l = 0) \<or> (\<forall>l \<in> set ls. l_debit l = 0)" for ls
  proof -
    have "(\<forall>l \<in> set ls. l_credit l = 0) \<longrightarrow> sum_list (map line_amount ls) = net_lines ls \<and> 0 \<le> net_lines ls"
      "(\<forall>l \<in> set ls. l_debit l = 0) \<longrightarrow> sum_list (map line_amount ls) = - net_lines ls \<and> net_lines ls \<le> 0"
      using that(1) by (induction ls) (auto simp: line_amount_def dest: single)
    with that(2) show ?thesis by auto
  qed
  show total: "sum_list (map line_amount counter) = \<bar>cash_movement ids e\<bar>"
    using le [OF sub] plain by (auto simp: net plain_cash_entry_def Let_def list_all_iff counter_def)
  show "on_grid 4 \<bar>cash_movement ids e\<bar>"
    unfolding total [symmetric] using amt by (intro on_grid_sum_list) auto
  show "counter = [] \<longleftrightarrow> cash_movement ids e = 0"
  proof (cases counter)
    case Nil
    then show ?thesis by (simp add: net)
  next
    case (Cons l ls)
    have "0 < line_amount l" "0 \<le> sum_list (map line_amount ls)"
      using amt unfolding Cons by (auto intro!: sum_amounts_nonneg)
    then show ?thesis using total by (auto simp: Cons)
  qed
  show "\<bar>cash_movement ids e\<bar> \<le> e_total_debit e"
  proof -
    have "sum_list (map l_debit (filter P ls)) \<le> sum_list (map l_debit ls)" "sum_list (map l_credit (filter P ls)) \<le> sum_list (map l_credit ls)"
      "0 \<le> sum_list (map l_debit (filter P ls))" "0 \<le> sum_list (map l_credit (filter P ls))"
      if "set ls \<subseteq> set (e_lines e)" for P ls
      using that by (induction ls) (auto dest!: single)
    from this [of "e_lines e" "\<lambda>l. l_account l \<in> set ids"] e show ?thesis
      by (auto simp: cash_movement_def net_lines_diff entry_ok_def totals_def)
  qed
qed

text \<open>What the loop has accumulated: totals on the grid, bounded, and exact.\<close>

definition cash_sums :: "cash_totals \<Rightarrow> decimal \<Rightarrow> decimal \<Rightarrow> bool" where
  "cash_sums t net bound \<longleftrightarrow> ct_total_in t - ct_total_out t = net \<and> on_grid 4 (ct_total_in t) \<and> on_grid 4 (ct_total_out t) \<and>
     0 \<le> ct_total_in t \<and> 0 \<le> ct_total_out t \<and> ct_total_in t + ct_total_out t \<le> bound"

lemma ctx_round_money: "on_grid 4 x \<Longrightarrow> \<bar>x\<bar> < 10 ^ 24 \<Longrightarrow> ctx_round x = x"
  by (rule ctx_round_exact [of 4]) simp_all

lemma add_share_exact:
  assumes "cash_sums t net bound" "on_grid 4 (line_amount l)" "0 < line_amount l" "line_amount l \<le> \<bar>m\<bar>" "on_grid 4 \<bar>m\<bar>"
    "\<bar>m\<bar> < 10 ^ 10" "bound + line_amount l < 10 ^ 24"
  shows "cash_sums (add_share m \<bar>m\<bar> t l) (net + (if m > 0 then line_amount l else - line_amount l)) (bound + line_amount l)"
proof -
  let ?x = "line_amount l"
  have small: "?x < 10 ^ 10" using assms(4,6) by linarith
  have "\<bar>m\<bar> * ?x < 10 ^ 10 * 10 ^ 10" using assms(3-6) small by (intro mult_strict_mono) auto
  then have "dmul \<bar>m\<bar> ?x = \<bar>m\<bar> * ?x"
    using assms(3) by (intro dmul_exact [OF assms(5,2)]) (simp add: abs_mult)
  moreover have "m \<noteq> 0" using assms(3,4) by auto
  moreover have "ctx_round ?x = ?x" using assms(2,3) small by (intro ctx_round_money) auto
  ultimately have share: "ddiv (dmul \<bar>m\<bar> ?x) \<bar>m\<bar> = ?x" by (simp add: ddiv_def)
  have "dadd y ?x = y + ?x" if "on_grid 4 y" "0 \<le> y" "y \<le> bound" for y
    using assms(2,3,7) that unfolding dadd_def by (intro ctx_round_money on_grid_add) auto
  then show ?thesis using assms(1-3) by (auto simp: cash_sums_def add_share_def Let_def share)
qed

lemma add_shares_exact:
  assumes "cash_sums t net bound" "\<forall>l \<in> set ls. on_grid 4 (line_amount l) \<and> 0 < line_amount l"
    "sum_list (map line_amount ls) \<le> \<bar>m\<bar>" "on_grid 4 \<bar>m\<bar>" "\<bar>m\<bar> < 10 ^ 10" "bound + sum_list (map line_amount ls) < 10 ^ 24"
  shows "cash_sums (foldl (add_share m \<bar>m\<bar>) t ls)
    (net + (if m > 0 then sum_list (map line_amount ls) else - sum_list (map line_amount ls))) (bound + sum_list (map line_amount ls))"
  using assms
proof (induction ls arbitrary: t net bound)
  case (Cons l ls)
  have pos: "0 \<le> sum_list (map line_amount ls)" using Cons.prems(2) by (auto intro!: sum_amounts_nonneg)
  have "cash_sums (add_share m \<bar>m\<bar> t l) (net + (if m > 0 then line_amount l else - line_amount l)) (bound + line_amount l)"
    using Cons.prems pos by (intro add_share_exact) auto
  from Cons.IH [OF this] Cons.prems pos show ?case by (auto simp: algebra_simps split: if_splits)
qed simp

lemma add_movement_exact:
  assumes "cash_sums t net bound" "entry_ok as e" "plain_cash_entry ids e" "bound + e_total_debit e < 10 ^ 24"
  shows "cash_sums (add_movement ids t e) (net + cash_movement ids e) (bound + e_total_debit e)"
proof -
  note c = counter_total [OF assms(2,3)]
  have m: "sum_list (map (\<lambda>l. l_debit l - l_credit l) (filter (\<lambda>l. l_account l \<in> set ids) (e_lines e))) = cash_movement ids e"
    by (simp add: cash_movement_def net_lines_def)
  have mono: "cash_sums t' n b \<Longrightarrow> b \<le> b' \<Longrightarrow> cash_sums t' n b'" for t' n b b' by (auto simp: cash_sums_def)
  show ?thesis
  proof (cases "cash_movement ids e = 0")
    case True
    then have "add_movement ids t e = t" using c(4) by (simp add: add_movement_def Let_def m)
    moreover have "0 \<le> e_total_debit e" using c(3) by linarith
    ultimately show ?thesis using mono [OF assms(1)] True by simp
  next
    case False
    let ?m = "cash_movement ids e" and ?c = "filter (\<lambda>l. l_account l \<notin> set ids) (e_lines e)"
    have "add_movement ids t e = foldl (add_share ?m \<bar>?m\<bar>) t ?c"
      using False c(1,4) by (simp add: add_movement_def Let_def m)
    moreover have "cash_sums (foldl (add_share ?m \<bar>?m\<bar>) t ?c) (net + ?m) (bound + \<bar>?m\<bar>)"
      using add_shares_exact [OF assms(1), of ?c ?m] c assms(3,4) False
      by (auto simp: plain_cash_entry_def Let_def split: if_splits)
    ultimately show ?thesis using mono c(3) by (metis add_left_mono)
  qed
qed

lemma cash_loop_exact:
  assumes "cash_sums t net bound" "\<forall>e \<in> set es. entry_ok as e \<and> plain_cash_entry ids e"
    "bound + sum_list (map e_total_debit es) < 10 ^ 24"
  shows "cash_sums (foldl (add_movement ids) t es) (net + sum_list (map (cash_movement ids) es)) (bound + sum_list (map e_total_debit es))"
  using assms
proof (induction es arbitrary: t net bound)
  case (Cons e es)
  have "0 \<le> e_total_debit x" if "x \<in> set (e # es)" for x
  proof -
    have "\<bar>cash_movement ids x\<bar> \<le> e_total_debit x" using that Cons.prems(2) by (intro counter_total(3)) auto
    then show ?thesis by linarith
  qed
  then have pos: "0 \<le> sum_list (map e_total_debit es)" by (intro sum_list_nonneg) auto
  have "cash_sums (add_movement ids t e) (net + cash_movement ids e) (bound + e_total_debit e)"
    using Cons.prems pos by (intro add_movement_exact) auto
  from Cons.IH [OF this] Cons.prems show ?case by (simp add: add.assoc)
qed simp

lemma movement_lines: "sum_list (map (cash_movement ids) es) = net_lines (filter (\<lambda>l. l_account l \<in> set ids) (concat (map e_lines es)))"
  by (induction es) (simp_all add: cash_movement_def)

lemma touching_movement:
  "cash \<noteq> [] \<Longrightarrow> sum_list (map (cash_movement (map a_id cash)) (entries_touching_accounts st org (map a_id cash) f t)) =
     sum_list (map (cash_movement (map a_id cash)) (window_entries st org (Some f) t))"
proof -
  assume "cash \<noteq> []"
  have "sum_list (map (cash_movement ids) (filter (\<lambda>e. \<exists>l \<in> set (e_lines e). l_account l \<in> set ids) es)) =
      sum_list (map (cash_movement ids) es)" for ids es
  proof (induction es)
    case (Cons e es)
    have "cash_movement ids e = 0" if "\<not> (\<exists>l \<in> set (e_lines e). l_account l \<in> set ids)"
      using that by (simp add: cash_movement_def filter_False)
    with Cons show ?case by simp
  qed simp
  note this [of "map a_id cash" "window_entries st org (Some f) t"]
  with \<open>cash \<noteq> []\<close> show ?thesis by (simp add: entries_touching_accounts_def sum_list_sort_key)
qed

lemma touching_bound:
  assumes "ledger_inv st"
  shows "sum_list (map e_total_debit (entries_touching_accounts st org ids f t)) \<le>
    sum_list (map e_total_debit (window_entries st org (Some f) t))"
proof -
  have pos: "0 \<le> e_total_debit e" if "e \<in> set (window_entries st org (Some f) t)" for e
  proof -
    have "entry_ok (accounts st) e" "is_posted e" using entry_ok_entries [OF assms] that by (auto simp: window_mem in_window_def)
    then show ?thesis by (simp add: entry_ok_def)
  qed
  have "sum_list (map e_total_debit (filter P es)) \<le> sum_list (map e_total_debit es) \<and> 0 \<le> sum_list (map e_total_debit es)"
    if "set es \<subseteq> set (window_entries st org (Some f) t)" for P es
    using that by (induction es) (auto dest!: pos)
  then show ?thesis by (auto simp: entries_touching_accounts_def sum_list_sort_key)
qed

lemma cash_change:
  assumes inv: "ledger_inv st" and cash: "set cash \<subseteq> set (list_for_org st org True True)" "distinct (map a_id cash)"
    "\<forall>a \<in> set cash. a_type a = ASSET" and le: "f \<le> t"
  shows "cash_at st cash t - cash_at st cash (f - 1) =
    sum_list (map (cash_movement (map a_id cash)) (window_entries st org (Some f) t))"
proof -
  let ?ls = "window_lines st org (Some f) t"
  have at: "cash_at st cash d = sum_list (map (\<lambda>a. net_of st org None d (a_id a)) cash)" for d
  proof -
    have "signed_balance (a_type a) (ab_debit (balance_for st (a_id a) d None)) (ab_credit (balance_for st (a_id a) d None)) =
        net_of st org None d (a_id a)" if "a \<in> set cash" for a
    proof -
      have a: "a \<in> set (accounts st)" "a_org a = org" "a_type a = ASSET" using cash that by (auto simp: reported_accounts)
      then show ?thesis using balance_for_net [OF inv a(1), of d None] by (simp add: signed_balance_def normal_balance_def)
    qed
    then show ?thesis unfolding cash_at_def Let_def by (intro arg_cong [of _ _ sum_list] map_cong) auto
  qed
  have "sum_list (map (\<lambda>a. net_of st org None t (a_id a)) cash) =
      sum_list (map (\<lambda>a. net_of st org None (f - 1) (a_id a) + net_of st org (Some f) t (a_id a)) cash)"
    using window_split [of f t st org] le by simp
  then have "cash_at st cash t - cash_at st cash (f - 1) = sum_list (map (\<lambda>a. net_of st org (Some f) t (a_id a)) cash)"
    by (simp add: at sum_list_addf)
  also have "\<dots> = sum_list (map (\<lambda>a. net_lines (filter (\<lambda>l. l_account l = a_id a) (filter (\<lambda>l. l_account l \<in> a_id ` set cash) ?ls))) cash)"
    unfolding net_of_def filter_filter by (intro arg_cong [of _ _ sum_list] map_cong refl arg_cong [of _ _ net_lines] filter_cong) auto
  also have "\<dots> = net_lines (filter (\<lambda>l. l_account l \<in> a_id ` set cash) ?ls)"
    by (rule partition_by_account [OF cash(2)]) simp
  finally show ?thesis by (simp add: movement_lines window_lines_def)
qed

section \<open>Books for evaluation\<close>

text \<open>The demonstration books in their second fiscal year, with nothing posted in it.\<close>

definition next_demo_year :: fiscal_year_create where
  "next_demo_year = \<lparr>fc_name = ''2026-27'', fc_start = 739707, fc_end = 739713, fc_generate = True\<rparr>"

definition demo_second_year :: "unit db result" where
  "demo_second_year = bindr demo_books (\<lambda>st. bindr (create_year st 900 next_demo_year 7) (\<lambda>(st1, _). Inr st1))"

lemma demo_second_year_reachable: "demo_second_year = Inr st \<Longrightarrow> reachable no_hooks () st"
proof -
  assume "demo_second_year = Inr st"
  then obtain st0 y where s: "demo_books = Inr st0" "create_year st0 900 next_demo_year 7 = Inr (st, y)"
    by (auto simp: demo_second_year_def)
  have "validate_year_create next_demo_year = Inr ()" by code_simp
  then show ?thesis using reachable_step [OF demo_reachable [OF s(1)] ledger_step.year_new] s(2) by blast
qed

lemma demo_sheets:
  "\<exists>st b. demo_second_year = Inr st \<and> balance_sheet st 900 739705 = Inr b \<and> is_ok (year_containing st 900 739705) \<and> bs_balanced b"
  "\<exists>st b. demo_second_year = Inr st \<and> balance_sheet st 900 739708 = Inr b \<and> bs_total_assets b = 501 / 2 \<and>
     bs_total_liabilities b = 0 \<and> bs_total_equity b = 0 \<and> \<not> bs_balanced b"
proof -
  have "(case demo_second_year of Inr st \<Rightarrow> is_ok (year_containing st 900 739705) \<and>
      (case balance_sheet st 900 739705 of Inr b \<Rightarrow> bs_balanced b | _ \<Rightarrow> False) | _ \<Rightarrow> False)" by code_simp
  then show "\<exists>st b. demo_second_year = Inr st \<and> balance_sheet st 900 739705 = Inr b \<and> is_ok (year_containing st 900 739705) \<and> bs_balanced b"
    by (auto split: sum.splits)
  have "(case demo_second_year of Inr st \<Rightarrow> (case balance_sheet st 900 739708 of Inr b \<Rightarrow> bs_total_assets b = 501 / 2 \<and>
     bs_total_liabilities b = 0 \<and> bs_total_equity b = 0 \<and> \<not> bs_balanced b | _ \<Rightarrow> False) | _ \<Rightarrow> False)" by code_simp
  then show "\<exists>st b. demo_second_year = Inr st \<and> balance_sheet st 900 739708 = Inr b \<and> bs_total_assets b = 501 / 2 \<and>
     bs_total_liabilities b = 0 \<and> bs_total_equity b = 0 \<and> \<not> bs_balanced b"
    by (auto split: sum.splits)
qed

text \<open>A receipt of 100 against two credits and a debit of 100 each, posted to the demonstration books.\<close>

definition split_receipt :: entry_create where
  "split_receipt = \<lparr>ec_journal = 3, ec_date = 739703, ec_narration = ''Receipt'', ec_reference = None, ec_counterparty = None,
     ec_lines = [\<lparr>li_account = 1, li_debit = 100, li_credit = 0, li_description = None\<rparr>,
                 \<lparr>li_account = 2, li_debit = 0, li_credit = 100, li_description = None\<rparr>,
                 \<lparr>li_account = 2, li_debit = 0, li_credit = 100, li_description = None\<rparr>,
                 \<lparr>li_account = 2, li_debit = 100, li_credit = 0, li_description = None\<rparr>],
     ec_post = True\<rparr>"

definition demo_split_receipt :: "unit db result" where
  "demo_split_receipt = bindr demo_books (\<lambda>st. bindr (create_entry no_hooks st 900 split_receipt 7 None None 5001) (\<lambda>(st1, _). Inr st1))"

lemma demo_split_receipt_reachable: "demo_split_receipt = Inr st \<Longrightarrow> reachable no_hooks () st"
proof -
  assume "demo_split_receipt = Inr st"
  then obtain st0 e where s: "demo_books = Inr st0" "create_entry no_hooks st0 900 split_receipt 7 None None 5001 = Inr (st, e)"
    by (auto simp: demo_split_receipt_def)
  have "validate_entry_create split_receipt = Inr ()" by code_simp
  then show ?thesis using reachable_step [OF demo_reachable [OF s(1)] ledger_step.entry_new] s(2) by blast
qed

definition split_facts :: "unit db \<Rightarrow> bool" where
  "split_facts st \<longleftrightarrow>
     (let cash = filter (\<lambda>a. is_cash_equivalent (a_subtype a)) (list_for_org st 900 True True)
      in map a_id cash = [1] \<and> cash_at st cash 739705 - cash_at st cash 739702 = 100 \<and>
         map (\<lambda>e. map (\<lambda>l. (l_account l, l_debit l, l_credit l)) (e_lines e)) (entries_touching_accounts st 900 [1] 739703 739705) =
           [[(1, 100, 0), (2, 0, 100), (2, 0, 100), (2, 100, 0)]])"

lemma third_shares:
  defines "v \<equiv> 3333333333333333333333333333 / 10 ^ 26"
  shows "ddiv (dmul 100 100) 300 = v" "dadd 0 v = v" "dadd v v = 2 * v" "dadd (2 * v) v = 3 * v" "dadd (3 * v) 0 = 3 * v" "3 * v < 100"
proof -
  have "ddiv (dmul 100 100) 300 = 3333333333333333333333333333 / 100000000000000000000000000" by code_simp
  then show "ddiv (dmul 100 100) 300 = v" by (simp add: v_def)
  have grid: "on_grid 26 (of_int k * v)" for k
    unfolding on_grid_iff v_def by (rule exI [of _ "k * 3333333333333333333333333333"]) simp
  have exact: "ctx_round (of_int k * v) = of_int k * v" if "0 \<le> k" "k \<le> 3" for k
  proof (rule ctx_round_exact [OF grid])
    have "\<bar>of_int k * v\<bar> * 10 ^ 26 = of_int k * 3333333333333333333333333333" using that by (simp add: v_def abs_mult)
    also have "\<dots> \<le> 3 * 3333333333333333333333333333" using that by (intro mult_right_mono) auto
    finally show "\<bar>of_int k * v\<bar> * 10 ^ 26 < 10 ^ 28" by simp
  qed
  show "dadd 0 v = v" using exact [of 1] by (simp add: dadd_def)
  show "dadd v v = 2 * v" using exact [of 2] by (simp add: dadd_def)
  show "dadd (2 * v) v = 3 * v" using exact [of 3] by (simp add: dadd_def)
  show "dadd (3 * v) 0 = 3 * v" using exact [of 3] by (simp add: dadd_def)
  show "3 * v < 100" by (simp add: v_def)
qed

lemma split_flow:
  assumes "split_facts st"
  shows "\<exists>r. cash_flow st 900 739703 739705 = Inr r \<and> cf_net r = 100 \<and> cf_total_inflows r < 100 \<and> cf_total_outflows r = 0 \<and> \<not> cf_reconciles r"
proof -
  define v :: decimal where "v = 3333333333333333333333333333 / 10 ^ 26"
  note th = third_shares [folded v_def]
  let ?cash = "filter (\<lambda>a. is_cash_equivalent (a_subtype a)) (list_for_org st 900 True True)"
  let ?t0 = "\<lparr>ct_in = [], ct_out = [], ct_total_in = 0, ct_total_out = 0\<rparr>"
  from assms obtain e where e: "entries_touching_accounts st 900 [1] 739703 739705 = [e]"
      "map (\<lambda>l. (l_account l, l_debit l, l_credit l)) (e_lines e) = [(1, 100, 0), (2, 0, 100), (2, 0, 100), (2, 100, 0)]"
    by (auto simp: split_facts_def Let_def)
  then have t: "ct_total_in (add_movement [1] ?t0 e) = 3 * v" "ct_total_out (add_movement [1] ?t0 e) = 0"
    by (auto simp: add_movement_def add_share_def line_amount_def Let_def th map_eq_Cons_conv)
  have cash: "map a_id ?cash = [1]" "?cash \<noteq> []" "cash_at st ?cash 739705 - cash_at st ?cash 739702 = 100"
    using assms by (auto simp: split_facts_def Let_def)
  then show ?thesis using th(5,6) by (simp add: cash_flow_def shift_days_def MAX_ORDINAL_def Let_def e(1) t)
qed

section \<open>Properties\<close>

text \<open>
  C12. The trial balance balances: in every reachable database, for every organization and window, the debit
  and credit columns have the same total, and every account a posted line of the window is on has a row
  with its gross debits and credits.
\<close>

theorem trial_balance_balances:
  assumes "reachable hs h st"
  shows "tb_balanced (trial_balance st org as_of from_date include_zero) \<and>
    (\<forall>e \<in> set (window_entries st org from_date as_of). \<forall>l \<in> set (e_lines e).
       \<exists>r \<in> set (tb_rows (trial_balance st org as_of from_date include_zero)). tr_account r = l_account l \<and>
         (let ls = filter (\<lambda>m. l_account m = l_account l) (window_lines st org from_date as_of)
          in tr_gross_debit r = sum_list (map l_debit ls) \<and> tr_gross_credit r = sum_list (map l_credit ls)))"
proof
  have inv: "ledger_inv st" using assms by (rule reachable_inv)
  show "tb_balanced (trial_balance st org as_of from_date include_zero)"
    using rows_total_net [of st org as_of from_date "counterparties st org as_of from_date" include_zero "list_for_org st org True True"]
      nets_sum_zero [OF inv distinct_reported(1) [OF inv] refl, of org from_date as_of]
    by (simp add: trial_balance_def Let_def)
  have checks: "line_checks l = Inr ()" if "l \<in> set (window_lines st org from_date as_of)" for l
    using that entry_ok_entries [OF inv] by (auto simp: window_lines_def window_mem entry_ok_def line_ok_def)
  show "\<forall>e \<in> set (window_entries st org from_date as_of). \<forall>l \<in> set (e_lines e).
       \<exists>r \<in> set (tb_rows (trial_balance st org as_of from_date include_zero)). tr_account r = l_account l \<and>
         (let ls = filter (\<lambda>m. l_account m = l_account l) (window_lines st org from_date as_of)
          in tr_gross_debit r = sum_list (map l_debit ls) \<and> tr_gross_credit r = sum_list (map l_credit ls))"
  proof (intro ballI)
    fix e l assume e: "e \<in> set (window_entries st org from_date as_of)" "l \<in> set (e_lines e)"
    then have l: "l \<in> set (window_lines st org from_date as_of)" by (auto simp: window_lines_def)
    then obtain a where a: "a \<in> set (list_for_org st org True True)" "l_account l = a_id a" using lines_reported [OF inv] by force
    from line_row [OF l a(2) checks [OF l]] checks
    obtain r where "trial_row_of (balances st org as_of from_date) (counterparties st org as_of from_date) include_zero a = Some r"
      "tr_account r = a_id a" "tr_gross_debit r = sum_list (map l_debit (filter (\<lambda>l. l_account l = a_id a) (window_lines st org from_date as_of)))"
      "tr_gross_credit r = sum_list (map l_credit (filter (\<lambda>l. l_account l = a_id a) (window_lines st org from_date as_of)))" by blast
    then show "\<exists>r \<in> set (tb_rows (trial_balance st org as_of from_date include_zero)). tr_account r = l_account l \<and>
         (let ls = filter (\<lambda>m. l_account m = l_account l) (window_lines st org from_date as_of)
          in tr_gross_debit r = sum_list (map l_debit ls) \<and> tr_gross_credit r = sum_list (map l_credit ls))"
      using a by (intro bexI [of _ r]) (force simp: trial_balance_def Let_def List.map_filter_def)+
  qed
qed

theorem trial_balance_balances_witness:
  "\<exists>st. demo_books = Inr st \<and> entries st \<noteq> [] \<and> tb_balanced (trial_balance st 900 739710 None False)"
proof -
  obtain st e where s: "demo_books = Inr st" "e \<in> set (entries st)" using demo_facts by blast
  from trial_balance_balances [OF demo_reachable [OF s(1)]] s show ?thesis by (intro exI [of _ st]) auto
qed

text \<open>
  C13. What the balance sheet shows. In every reachable database the assets equal the liabilities and the
  equity plus the earnings of the time before the fiscal year the date falls in; so the sheet balances
  exactly when no profit or loss was made before that year (or no year contains the date). The module says
  that earlier earnings have moved to retained earnings by year-end closing; the program has no such
  operation.
\<close>

theorem balance_sheet_identity:
  assumes "reachable hs h st" and "balance_sheet st org as_of = Inr b" and "year_containing st org as_of = Inr fy"
  shows "let prior = (case fy of None \<Rightarrow> 0
            | Some y \<Rightarrow> earnings_over (balances st org (fy_start y - 1) None) (list_for_org st org True True))
    in bs_total_assets b = bs_total_liabilities b + bs_total_equity b + prior \<and> (bs_balanced b \<longleftrightarrow> prior = 0)"
proof -
  have inv: "ledger_inv st" using assms(1) by (rule reachable_inv)
  let ?as = "list_for_org st org True True"
  let ?n = "\<lambda>f t a. net_of st org f t (a_id a)"
  have total: "lines_total (nonzero_lines (balances st org as_of None) kind (sort_key a_code ?as)) =
      sum_list (map (\<lambda>a. if kind a then signed_net a (?n None as_of a) else 0) ?as)" for kind
    by (simp add: lines_total_net sum_list_sort_key)
  note earn = earnings_net [of st org]
  have zero: "sum_list (map (?n None as_of) ?as) = 0" by (rule nets_sum_zero [OF inv distinct_reported(1) [OF inv] refl])
  have split: "sum_list (map (?n None as_of) as) =
      sum_list (map (\<lambda>a. if a_type a = ASSET then signed_net a (?n None as_of a) else 0) as) -
      sum_list (map (\<lambda>a. if a_type a = LIABILITY then signed_net a (?n None as_of a) else 0) as) -
      sum_list (map (\<lambda>a. if a_type a = EQUITY then signed_net a (?n None as_of a) else 0) as) -
      sum_list (map (\<lambda>a. if is_profit_and_loss (a_type a) then - ?n None as_of a else 0) as)" for as
  proof (induction as)
    case (Cons a as)
    then show ?case by (cases "a_type a") (simp_all add: signed_net_def normal_balance_def is_profit_and_loss_def)
  qed simp
  have prior: "earnings_over (balances st org as_of None) ?as =
      earnings_over (balances st org as_of (Some (fy_start y))) ?as + earnings_over (balances st org (fy_start y - 1) None) ?as"
    if "fy_start y \<le> as_of" for y
  proof -
    have "?n None as_of a = ?n None (fy_start y - 1) a + ?n (Some (fy_start y)) as_of a" for a :: account
      using that by (intro window_split) simp
    then have "(\<lambda>a :: account. if is_profit_and_loss (a_type a) then - ?n None as_of a else 0) =
        (\<lambda>a. (if is_profit_and_loss (a_type a) then - ?n (Some (fy_start y)) as_of a else 0) +
             (if is_profit_and_loss (a_type a) then - ?n None (fy_start y - 1) a else 0))"
      by (intro ext) auto
    then show ?thesis by (simp only: earn sum_list_addf)
  qed
  show ?thesis
  proof (cases fy)
    case None
    then show ?thesis using assms(2,3) zero split [of ?as] unfolding balance_sheet_def Let_def total
      by (auto simp: total earn sum_list_sort_key)
  next
    case (Some y)
    then have "fy_start y \<le> as_of" using assms(3) by (auto simp: year_containing_def dest: scalar_one_or_none_Some)
    from prior [OF this] show ?thesis using assms(2,3) zero split [of ?as] Some
      unfolding balance_sheet_def Let_def total by (auto simp: total earn)
  qed
qed

theorem balance_sheet_identity_witness:
  "\<exists>st b fy. reachable no_hooks () st \<and> balance_sheet st 900 739705 = Inr b \<and> year_containing st 900 739705 = Inr fy \<and>
     bs_total_assets b = bs_total_liabilities b + bs_total_equity b"
proof -
  obtain st b where s: "demo_second_year = Inr st" "balance_sheet st 900 739705 = Inr b" "is_ok (year_containing st 900 739705)"
    "bs_balanced b" using demo_sheets(1) by blast
  then obtain fy where fy: "year_containing st 900 739705 = Inr fy" by (auto simp: is_ok_iff)
  note r = demo_second_year_reachable [OF s(1)]
  from balance_sheet_identity [OF r s(2) fy] r s(2,4) fy show ?thesis unfolding Let_def by fastforce
qed

text \<open>
  In its second fiscal year an organization's balance sheet stops balancing: after a cash sale of 250.50
  in the first year and no posting in the second, the sheet shows assets of 250.50 and nothing else.
\<close>

theorem balance_sheet_second_year:
  "\<exists>st b. reachable no_hooks () st \<and> balance_sheet st 900 739708 = Inr b \<and> bs_total_assets b = 501 / 2 \<and>
     bs_total_liabilities b = 0 \<and> bs_total_equity b = 0 \<and> \<not> bs_balanced b"
  using demo_sheets(2) demo_second_year_reachable by blast

text \<open>
  Two statements agree: the net profit of the profit and loss account from the start of the fiscal year
  is the figure the balance sheet shows as current period earnings.
\<close>

theorem profit_is_current_earnings:
  assumes "balance_sheet st org as_of = Inr b" "year_containing st org as_of = Inr (Some y)"
  shows "\<exists>p. profit_and_loss st org (fy_start y) as_of = Inr p \<and> pl_net_profit p = bs_earnings b"
proof -
  let ?as = "list_for_org st org True True"
  let ?n = "\<lambda>a. net_of st org (Some (fy_start y)) as_of (a_id a)"
  have le: "fy_start y \<le> as_of" using assms(2) by (auto simp: year_containing_def dest: scalar_one_or_none_Some)
  have e: "bs_earnings b = sum_list (map (\<lambda>a. if is_profit_and_loss (a_type a) then - ?n a else 0) ?as)"
    using assms by (auto simp: balance_sheet_def Let_def earnings_net)
  have "sum_list (map (\<lambda>a. if is_profit_and_loss (a_type a) then - ?n a else 0) as) =
      sum_list (map (\<lambda>a. if a_type a = INCOME then signed_net a (?n a) else 0) as) -
      sum_list (map (\<lambda>a. if a_type a = EXPENSE then signed_net a (?n a) else 0) as)" for as
  proof (induction as)
    case (Cons a as)
    then show ?case by (cases "a_type a") (simp_all add: signed_net_def normal_balance_def is_profit_and_loss_def)
  qed simp
  then show ?thesis using le by (simp add: profit_and_loss_def Let_def lines_total_net sum_list_sort_key e)
qed

theorem profit_is_current_earnings_witness:
  "\<exists>st b y p. balance_sheet (st :: unit db) 900 739705 = Inr b \<and> year_containing st 900 739705 = Inr (Some y) \<and>
     profit_and_loss st 900 (fy_start y) 739705 = Inr p \<and> pl_net_profit p = bs_earnings b \<and> bs_earnings b = 501 / 2"
proof -
  have "(case demo_second_year of Inr st \<Rightarrow> (case balance_sheet st 900 739705 of Inr b \<Rightarrow> bs_earnings b = 501 / 2 \<and>
      (case year_containing st 900 739705 of Inr (Some y) \<Rightarrow> True | _ \<Rightarrow> False) | _ \<Rightarrow> False) | _ \<Rightarrow> False)" by code_simp
  then obtain st b y where s: "balance_sheet (st :: unit db) 900 739705 = Inr b" "bs_earnings b = 501 / 2"
      "year_containing st 900 739705 = Inr (Some y)"
    by (auto split: sum.splits option.splits)
  from profit_is_current_earnings [OF s(1,3)] s show ?thesis by blast
qed

text \<open>
  C14. The general ledger of an account is complete and ends where it should: it has one line per posted line
  of the window, the closing balance is the opening balance plus the movement, it is the running balance of
  the last line, and it is the account's balance at the end of the window, so that the ledger of the
  following window opens with it.
\<close>

theorem account_ledger_closes:
  assumes "reachable hs h st" "journals_present st" and "account_ledger st org i from_date to_date = Inr r"
  shows "length (al_lines r) = length (filter (\<lambda>l. l_account l = i) (window_lines st org (Some from_date) to_date)) \<and>
    al_closing r = al_opening r + signed_balance (a_type (al_account r)) (al_debit r) (al_credit r) \<and>
    (al_lines r \<noteq> [] \<longrightarrow> ll_running (last (al_lines r)) = al_closing r) \<and>
    (\<forall>later r'. account_ledger st org i (to_date + 1) later = Inr r' \<longrightarrow> al_opening r' = al_closing r)"
proof -
  have inv: "ledger_inv st" using assms(1) by (rule reachable_inv)
  from assms(3) obtain a where g: "account_get st i = Inr (Some a)" "a_org a = org" "from_date \<le> to_date"
      "shift_days from_date (- 1) = Inr (from_date - 1)"
    by (auto simp: account_ledger_def not_less shift_days_def split: option.splits if_splits)
  note a = account_get_Some [OF g(1), THEN conjunct1] account_get_Some [OF g(1), THEN conjunct2, THEN conjunct2] g(2,1) and le = g(3)
  let ?rows = "ledger_lines st org i from_date to_date"
  let ?op = "\<lambda>d. signed_net a (net_of st org None (d - 1) i)"
  have op: "signed_balance (a_type a) (ab_debit (balance_for st i d None)) (ab_credit (balance_for st i d None)) =
      signed_net a (net_of st org None d i)" for d
    using balance_for_net [OF inv a(1), of d None] by (simp add: signed_balance_net a(2,3))
  have shape: "account_ledger st org i d t = Inr \<lparr>al_account = a, al_from = d, al_to = t, al_opening = ?op d,
      al_closing = snd (run_ledger (a_type a) (?op d) (ledger_lines st org i d t)),
      al_debit = sum_list (map (\<lambda>(l, e, j). l_debit l) (ledger_lines st org i d t)),
      al_credit = sum_list (map (\<lambda>(l, e, j). l_credit l) (ledger_lines st org i d t)),
      al_lines = fst (run_ledger (a_type a) (?op d) (ledger_lines st org i d t))\<rparr>"
    if "d \<le> t" "shift_days d (- 1) = Inr (d - 1)" for d t
    using that by (simp add: account_ledger_def g(1,2) op [of "d - 1"] Let_def split_beta)
  have r: "al_account r = a" "al_opening r = ?op from_date"
      "al_lines r = fst (run_ledger (a_type a) (?op from_date) ?rows)" "al_closing r = snd (run_ledger (a_type a) (?op from_date) ?rows)"
      "al_debit r = sum_list (map (\<lambda>(l, e, j). l_debit l) ?rows)" "al_credit r = sum_list (map (\<lambda>(l, e, j). l_credit l) ?rows)"
    using assms(3) unfolding shape [OF le g(4)] by auto
  note run = run_ledger_final [of a "?op from_date" ?rows]
  have len: "length (al_lines r) = length ?rows" unfolding r(3) by (rule map_eq_imp_length_eq [OF run [THEN conjunct2, THEN conjunct1]])
  have mv: "sum_list (map (\<lambda>(l, e, j). l_debit l - l_credit l) ?rows) = net_of st org (Some from_date) to_date i"
    using ledger_rows(1) [OF assms(2), of "\<lambda>l. l_debit l - l_credit l"] by (simp add: net_of_def net_lines_def)
  have close: "al_closing r = ?op (to_date + 1)"
    using run window_split [of from_date to_date st org i] le by (simp add: r(4) mv signed_net_add)
  have "al_opening r' = al_closing r" if "account_ledger st org i (to_date + 1) later = Inr r'" for later r'
  proof -
    have "to_date + 1 \<le> later" "shift_days (to_date + 1) (- 1) = Inr (to_date + 1 - 1)"
      using that by (auto simp: account_ledger_def shift_days_def split: option.splits if_splits)
    from that [unfolded shape [OF this]] show ?thesis by (auto simp: close)
  qed
  moreover have "al_closing r = al_opening r + signed_balance (a_type (al_account r)) (al_debit r) (al_credit r)"
  proof -
    have "al_debit r - al_credit r = net_of st org (Some from_date) to_date i"
      by (simp add: r(5,6) ledger_rows(1) [OF assms(2)] net_of_def net_lines_diff)
    then show ?thesis using run [THEN conjunct1] by (simp add: r(1,2,4) mv signed_balance_net)
  qed
  moreover have "al_lines r \<noteq> [] \<longrightarrow> ll_running (last (al_lines r)) = al_closing r"
    using run len by (auto simp: r(3,4))
  ultimately show ?thesis using len ledger_rows(2) [OF assms(2)] by simp
qed

theorem account_ledger_closes_witness:
  "\<exists>st r. demo_books = Inr st \<and> account_ledger st 900 1 739701 739705 = Inr r \<and> length (al_lines r) = 1 \<and>
     al_closing r = al_opening r + signed_balance (a_type (al_account r)) (al_debit r) (al_credit r)"
proof -
  have "(case demo_books of Inr st \<Rightarrow> journals_present st \<and>
      (case account_ledger st 900 1 739701 739705 of Inr r \<Rightarrow> length (al_lines r) = 1 | _ \<Rightarrow> False) | _ \<Rightarrow> False)" by code_simp
  then obtain st r where s: "demo_books = Inr st" "journals_present st" "account_ledger st 900 1 739701 739705 = Inr r" "length (al_lines r) = 1"
    by (auto split: sum.splits)
  from account_ledger_closes [OF demo_reachable [OF s(1)] s(2,3)] s show ?thesis by blast
qed

text \<open>
  C40. The cash flow statement reconciles on ordinary entries. In a reachable database whose cash and bank
  accounts are assets, if the counter lines of each entry of the window that moves cash are all on one side, the
  amounts of these entries have four places and a total below \<open>10 ^ 10\<close>, and the debits of the window stay below
  \<open>10 ^ 24\<close>, the inflows less the outflows are exactly the change in cash and the statement says so.
\<close>

theorem cash_flow_reconciles:
  assumes "reachable hs h st" and "cash_flow st org from_date to_date = Inr r"
    and "\<forall>a \<in> set (list_for_org st org True True). is_cash_equivalent (a_subtype a) \<longrightarrow> a_type a = ASSET"
    and "\<forall>e \<in> set (entries_touching_accounts st org
        (map a_id (filter (\<lambda>a. is_cash_equivalent (a_subtype a)) (list_for_org st org True True))) from_date to_date).
      plain_cash_entry (map a_id (filter (\<lambda>a. is_cash_equivalent (a_subtype a)) (list_for_org st org True True))) e"
    and "sum_list (map e_total_debit (window_entries st org (Some from_date) to_date)) < 10 ^ 24"
  shows "cf_reconciles r \<and> cf_net r = cf_total_inflows r - cf_total_outflows r \<and> cf_closing r = cf_opening r + cf_net r"
proof -
  have inv: "ledger_inv st" using assms(1) by (rule reachable_inv)
  have le: "from_date \<le> to_date" using assms(2) by (auto simp: cash_flow_def)
  define cash where "cash = filter (\<lambda>a. is_cash_equivalent (a_subtype a)) (list_for_org st org True True)"
  show ?thesis
  proof (cases "cash = []")
    case True
    then show ?thesis using assms(2) le by (auto simp: cash_flow_def Let_def cash_def)
  next
    case False
    let ?ids = "map a_id cash" and ?w = "window_entries st org (Some from_date) to_date"
    let ?touch = "entries_touching_accounts st org ?ids from_date to_date"
    let ?t = "foldl (add_movement ?ids) \<lparr>ct_in = [], ct_out = [], ct_total_in = 0, ct_total_out = 0\<rparr> ?touch"
    have net: "cash_at st cash to_date - cash_at st cash (from_date - 1) = sum_list (map (cash_movement ?ids) ?touch)"
      using cash_change [OF inv _ _ _ le, of cash org] assms(3) distinct_map_filter [OF distinct_reported(1) [OF inv, of org]]
        touching_movement [OF False, of st org from_date to_date] by (simp add: cash_def)
    have bound: "sum_list (map e_total_debit ?touch) \<le> sum_list (map e_total_debit ?w)"
      by (rule touching_bound [OF inv])
    have "cash_sums ?t (0 + sum_list (map (cash_movement ?ids) ?touch)) (0 + sum_list (map e_total_debit ?touch))"
      using assms(4,5) bound entry_ok_entries [OF inv]
      by (intro cash_loop_exact [where as = "accounts st"])
         (auto simp: cash_sums_def cash_def [symmetric] entries_touching_accounts_def window_mem)
    then have c: "ct_total_in ?t - ct_total_out ?t = sum_list (map (cash_movement ?ids) ?touch)" "on_grid 4 (ct_total_in ?t)"
        "on_grid 4 (ct_total_out ?t)" "0 \<le> ct_total_in ?t" "0 \<le> ct_total_out ?t"
        "ct_total_in ?t + ct_total_out ?t \<le> sum_list (map e_total_debit ?touch)"
      by (simp_all only: cash_sums_def add_0)
    have sums: "ct_total_in ?t - ct_total_out ?t = cash_at st cash to_date - cash_at st cash (from_date - 1)"
      using c(1) net by simp
    have "\<bar>ct_total_in ?t - ct_total_out ?t\<bar> < 10 ^ 24" using c(4-6) bound assms(5) by linarith
    with on_grid_diff [OF c(2,3)] have "ctx_round (ct_total_in ?t - ct_total_out ?t) = ct_total_in ?t - ct_total_out ?t"
      by (rule ctx_round_money)
    then have "dadd (ct_total_in ?t) (- ct_total_out ?t) = ct_total_in ?t - ct_total_out ?t"
      by (simp add: dadd_def)
    then show ?thesis using assms(2) le False sums
      by (auto simp: cash_flow_def shift_days_def Let_def cash_def [symmetric] split: if_splits)
  qed
qed

theorem cash_flow_reconciles_witness:
  "\<exists>st r. demo_books = Inr st \<and> cash_flow st 900 739701 739705 = Inr r \<and> cf_net r = 501 / 2 \<and> cf_reconciles r"
proof -
  let ?cash = "\<lambda>st :: unit db. filter (\<lambda>a. is_cash_equivalent (a_subtype a)) (list_for_org st 900 True True)"
  have "(case demo_books of Inr st \<Rightarrow>
      list_all (\<lambda>a. is_cash_equivalent (a_subtype a) \<longrightarrow> a_type a = ASSET) (list_for_org st 900 True True) \<and>
      list_all (plain_cash_entry (map a_id (?cash st))) (entries_touching_accounts st 900 (map a_id (?cash st)) 739701 739705) \<and>
      sum_list (map e_total_debit (window_entries st 900 (Some 739701) 739705)) < 1000 \<and>
      (case cash_flow st 900 739701 739705 of Inr r \<Rightarrow> cf_net r = 501 / 2 | _ \<Rightarrow> False) | _ \<Rightarrow> False)" by code_simp
  then obtain st r where s: "demo_books = Inr st" "cash_flow st 900 739701 739705 = Inr r" "cf_net r = 501 / 2"
      "\<forall>a \<in> set (list_for_org st 900 True True). is_cash_equivalent (a_subtype a) \<longrightarrow> a_type a = ASSET"
      "\<forall>e \<in> set (entries_touching_accounts st 900 (map a_id (?cash st)) 739701 739705). plain_cash_entry (map a_id (?cash st)) e"
      "sum_list (map e_total_debit (window_entries st 900 (Some 739701) 739705)) < 10 ^ 24"
    by (auto simp: list_all_iff split: sum.splits)
  from cash_flow_reconciles [OF demo_reachable [OF s(1)] s(2,4-6)] s show ?thesis by blast
qed

text \<open>
  On other entries it need not: when one receipt offsets counter lines on both sides, the shares are
  rounded to 28 digits each, and the parts do not sum back to the whole as the code says they do. After a
  receipt of 100 against two credits and a debit of 100, the statement does not reconcile.
\<close>

theorem cash_flow_split_unreconciled:
  "\<exists>st r. reachable no_hooks () st \<and> cash_flow st 900 739703 739705 = Inr r \<and> cf_net r = 100 \<and>
     cf_total_inflows r < 100 \<and> cf_total_outflows r = 0 \<and> \<not> cf_reconciles r"
proof -
  have "(case demo_split_receipt of Inr st \<Rightarrow> split_facts st | _ \<Rightarrow> False)" by code_simp
  then obtain st where st: "demo_split_receipt = Inr st" "split_facts st" by (auto split: sum.splits)
  from split_flow [OF st(2)] demo_split_receipt_reachable [OF st(1)] show ?thesis by blast
qed

end
