(* ===== verification/Merkle.thy ===== *)
theory Merkle
  imports Sha256
begin

text \<open>
  The RFC 6962 Merkle tree (\<^verbatim>\<open>app/modules/attestation/merkle.py\<close>): root, inclusion proof and its
  verification, over 32-byte digests. Reads outside a list are explicit \<open>IndexError\<close> results; a proof
  step that arrives as JSON may lack a key. The reference definition is \<open>mth\<close>, the recursion of the
  RFC, and the soundness statements are about the byte strings that are hashed.
\<close>

section \<open>Model\<close>

definition NODE_PREFIX :: bytes where "NODE_PREFIX = [1]"

definition DIGEST_BYTES :: nat where "DIGEST_BYTES = 32"

text \<open>\<^verbatim>\<open>bytes.hex()\<close> and \<^verbatim>\<open>bytes.fromhex()\<close> (which skips ASCII whitespace between octets).\<close>

definition hex_digit :: "nat \<Rightarrow> char" where
  "hex_digit n = (if n < 10 then char_of (48 + n) else char_of (87 + n))"

definition hex_value :: "char \<Rightarrow> nat option" where
  "hex_value c =
     (let n = (of_char c :: nat)
      in if 48 \<le> n \<and> n \<le> 57 then Some (n - 48)
         else if 97 \<le> n \<and> n \<le> 102 then Some (n - 87)
         else if 65 \<le> n \<and> n \<le> 70 then Some (n - 55)
         else None)"

definition is_space :: "char \<Rightarrow> bool" where
  "is_space c \<longleftrightarrow> (of_char c :: nat) \<in> {9, 10, 11, 12, 13, 32}"

fun hex :: "bytes \<Rightarrow> string" where
  "hex [] = []"
| "hex (b # bs) = hex_digit (unat b div 16) # hex_digit (unat b mod 16) # hex bs"

fun fromhex :: "string \<Rightarrow> bytes option" where
  "fromhex [] = Some []"
| "fromhex [c] = (if is_space c then Some [] else None)"
| "fromhex (c # d # rest) =
     (if is_space c then fromhex (d # rest)
      else case (hex_value c, hex_value d) of
             (Some h, Some l) \<Rightarrow> map_option (\<lambda>bs. of_nat (16 * h + l) # bs) (fromhex rest)
           | _ \<Rightarrow> None)"

record proof_step =
  side :: "string option"
  step_hash :: "string option"

definition node_hash :: "bytes \<Rightarrow> bytes \<Rightarrow> bytes" where
  "node_hash left right = sha256 (NODE_PREFIX @ left @ right)"

text \<open>\<^verbatim>\<open>int.bit_length()\<close> of a non-negative integer.\<close>

fun bit_length :: "nat \<Rightarrow> nat" where
  "bit_length n = (if n = 0 then 0 else Suc (bit_length (n div 2)))"

declare bit_length.simps [simp del]

definition largest_power_of_two_below :: "nat \<Rightarrow> nat result" where
  "largest_power_of_two_below n =
     (if n < 2 then Inl (BusinessRuleError ''A split point is only defined for two or more leaves'')
      else Inr (2 ^ (bit_length (n - 1) - 1)))"

definition validate :: "bytes list \<Rightarrow> unit result" where
  "validate leaves =
     (if leaves = [] then Inl (BusinessRuleError ''A Merkle tree needs at least one leaf'')
      else each (\<lambda>leaf. raise_if (length leaf \<noteq> DIGEST_BYTES)
                   (BusinessRuleError ''every leaf must be 32 bytes'')) leaves)"

text \<open>One level of the pairwise fold; an odd level reads past its end.\<close>

fun pair_level :: "bytes list \<Rightarrow> bytes list result" where
  "pair_level [] = Inr []"
| "pair_level [x] = Inl IndexError"
| "pair_level (x # y # rest) = bindr (pair_level rest) (\<lambda>l. Inr (node_hash x y # l))"

lemma pair_level_length: "pair_level xs = Inr ys \<Longrightarrow> length xs = 2 * length ys"
  by (induction xs arbitrary: ys rule: pair_level.induct) auto

function perfect_root :: "bytes list \<Rightarrow> bytes result" where
  "perfect_root level =
     (if 1 < length level then bindr (pair_level level) perfect_root
      else case level of [] \<Rightarrow> Inl IndexError | x # _ \<Rightarrow> Inr x)"
  by pat_completeness auto
termination
  by (relation "measure length") (auto dest!: pair_level_length)

declare perfect_root.simps [simp del]

lemma bit_length_bounds: "0 < n \<Longrightarrow> 2 ^ (bit_length n - 1) \<le> n \<and> n < 2 ^ bit_length n \<and> 0 < bit_length n"
proof (induction n rule: bit_length.induct)
  case (1 n)
  show ?case
  proof (cases "n = 1")
    case True
    then show ?thesis by (simp add: bit_length.simps [of "Suc 0"] bit_length.simps [of 0])
  next
    case False
    with "1.prems" have pos: "0 < n div 2" by simp
    define k where "k = bit_length (n div 2)"
    from "1.IH" "1.prems" pos have IH: "2 ^ (k - 1) \<le> n div 2" "n div 2 < 2 ^ k" "0 < k"
      by (auto simp: k_def)
    have len: "bit_length n = Suc k" using "1.prems" by (simp add: bit_length.simps [of n] k_def)
    have "(2::nat) ^ k = 2 * 2 ^ (k - 1)" using IH(3) by (cases k) auto
    then have "2 ^ k \<le> n" using IH(1) by linarith
    moreover have "n < 2 * 2 ^ k" using IH(2) by linarith
    ultimately show ?thesis by (simp add: len)
  qed
qed

lemma split_pointE:
  assumes "largest_power_of_two_below n = Inr k"
  obtains j where "k = 2 ^ j" and "2 \<le> n" and "k < n" and "n \<le> 2 * k" and "j < bit_length (n - 1)"
    and "bit_length (n - 1) = Suc j"
proof -
  from assms have n: "2 \<le> n" and k: "k = 2 ^ (bit_length (n - 1) - 1)"
    by (auto simp: largest_power_of_two_below_def split: if_splits)
  from n have "0 < n - 1" by simp
  note b = bit_length_bounds [OF this]
  then have s: "bit_length (n - 1) = Suc (bit_length (n - 1) - 1)" by simp
  have "(2::nat) ^ bit_length (n - 1) = 2 * k" by (subst s) (simp add: k)
  with b n have "k < n" "n \<le> 2 * k" unfolding k by linarith+
  with n k s show ?thesis by (intro that [of "bit_length (n - 1) - 1"]) linarith+
qed

lemma split_point_ok: "2 \<le> n \<Longrightarrow> \<exists>k. largest_power_of_two_below n = Inr k"
  by (simp add: largest_power_of_two_below_def)

lemma split_point_less: "largest_power_of_two_below n = Inr k \<Longrightarrow> 0 < k \<and> k < n"
  by (auto elim!: split_pointE)

function merkle_root :: "bytes list \<Rightarrow> bytes result" where
  "merkle_root leaves =
     bindr (validate leaves) (\<lambda>_.
       if length leaves = 1 then Inr (leaves ! 0)
       else bindr (largest_power_of_two_below (length leaves)) (\<lambda>split.
            bindr (perfect_root (take split leaves)) (\<lambda>l.
            bindr (merkle_root (drop split leaves)) (\<lambda>r. Inr (node_hash l r)))))"
  by pat_completeness auto
termination
  by (relation "measure length") (auto dest!: split_point_less simp: validate_def split: if_splits)

declare merkle_root.simps [simp del]

text \<open>
  The loop of \<^verbatim>\<open>inclusion_proof\<close>: \<open>acc\<close> is the list built so far, outermost step first.
\<close>

function inclusion_loop :: "bytes list \<Rightarrow> nat \<Rightarrow> proof_step list \<Rightarrow> proof_step list result" where
  "inclusion_loop working position acc =
     (if 1 < length working
      then bindr (largest_power_of_two_below (length working)) (\<lambda>split.
           if position < split
           then bindr (merkle_root (drop split working)) (\<lambda>h.
                inclusion_loop (take split working) position
                  (acc @ [\<lparr>side = Some ''right'', step_hash = Some (hex h)\<rparr>]))
           else bindr (merkle_root (take split working)) (\<lambda>h.
                inclusion_loop (drop split working) (position - split)
                  (acc @ [\<lparr>side = Some ''left'', step_hash = Some (hex h)\<rparr>])))
      else Inr acc)"
  by pat_completeness auto
termination
  by (relation "measure (\<lambda>(w, _, _). length w)") (auto dest!: split_point_less)

declare inclusion_loop.simps [simp del]

definition inclusion_proof :: "bytes list \<Rightarrow> int \<Rightarrow> proof_step list result" where
  "inclusion_proof leaves index =
     bindr (validate leaves) (\<lambda>_.
       if \<not> (0 \<le> index \<and> index < int (length leaves))
       then Inl (BusinessRuleError ''Leaf index is outside the tree'')
       else bindr (inclusion_loop leaves (nat index) []) (\<lambda>outermost_first. Inr (rev outermost_first)))"

fun fold_path :: "bytes \<Rightarrow> proof_step list \<Rightarrow> bytes option" where
  "fold_path acc [] = Some acc"
| "fold_path acc (step # path) =
     (case step_hash step of
        None \<Rightarrow> None
      | Some h \<Rightarrow>
          (case fromhex h of
             None \<Rightarrow> None
           | Some sibling \<Rightarrow>
               if length sibling \<noteq> DIGEST_BYTES then None
               else if side step = Some ''left'' then fold_path (node_hash sibling acc) path
               else if side step = Some ''right'' then fold_path (node_hash acc sibling) path
               else None))"

definition verify_inclusion :: "bytes \<Rightarrow> proof_step list \<Rightarrow> bytes \<Rightarrow> bool" where
  "verify_inclusion leaf path root_hash =
     (if length leaf \<noteq> DIGEST_BYTES \<or> length root_hash \<noteq> DIGEST_BYTES then False
      else fold_path leaf path = Some root_hash)"

definition tree_depth :: "int \<Rightarrow> int" where
  "tree_depth leaf_count = (if leaf_count \<le> 1 then 0 else int (bit_length (nat (leaf_count - 1))))"

text \<open>The leaf half of the domain separation, owned by \<^verbatim>\<open>canonical.py\<close>.\<close>

definition LEAF_PREFIX :: bytes where "LEAF_PREFIX = [0]"

definition leaf_of_bytes :: "bytes \<Rightarrow> bytes" where
  "leaf_of_bytes d = sha256 (LEAF_PREFIX @ d)"

section \<open>Hexadecimal round trip\<close>

lemma hex_digit_ok:
  assumes "n < 16"
  shows "hex_value (hex_digit n) = Some n" and "\<not> is_space (hex_digit n)"
proof -
  have "(of_char (hex_digit n) :: nat) = (if n < 10 then 48 + n else 87 + n)"
    using assms by (simp add: hex_digit_def)
  with assms show "hex_value (hex_digit n) = Some n" and "\<not> is_space (hex_digit n)"
    by (auto simp: hex_value_def is_space_def Let_def split: if_splits)
qed

lemma fromhex_hex [simp]: "fromhex (hex bs) = Some bs"
proof (induction bs)
  case Nil
  then show ?case by simp
next
  case (Cons b bs)
  have "unat b < 256" using unsigned_less [of b, where ?'a = nat] by simp
  then have "unat b div 16 < 16" and "unat b mod 16 < 16" by auto
  with Cons show ?case by (simp add: hex_digit_ok)
qed

section \<open>The reference tree\<close>

definition split_point :: "nat \<Rightarrow> nat" where
  "split_point n = 2 ^ (bit_length (n - 1) - 1)"

lemma split_point_props:
  assumes "2 \<le> n"
  shows "0 < split_point n" "split_point n < n" "n \<le> 2 * split_point n"
    and "largest_power_of_two_below n = Inr (split_point n)"
proof -
  show l: "largest_power_of_two_below n = Inr (split_point n)"
    using assms by (simp add: largest_power_of_two_below_def split_point_def)
  then show "0 < split_point n" "split_point n < n" "n \<le> 2 * split_point n"
    by (auto elim!: split_pointE)
qed

lemma bit_length_le: "m < 2 ^ j \<Longrightarrow> bit_length m \<le> j"
proof -
  assume m: "m < 2 ^ j"
  show ?thesis
  proof (cases "m = 0")
    case True
    then show ?thesis by (simp add: bit_length.simps [of 0])
  next
    case False
    then have b: "2 ^ (bit_length m - 1) \<le> m" "0 < bit_length m" using bit_length_bounds [of m] by auto
    have "(2::nat) ^ (bit_length m - 1) < 2 ^ j" using b m by linarith
    then have "bit_length m - 1 < j" by (simp add: power_less_imp_less_exp)
    with b(2) show ?thesis by simp
  qed
qed

lemma split_point_power: "split_point (2 ^ Suc j) = 2 ^ j"
proof -
  have "(0::nat) < 2 ^ Suc j - 1" by (simp add: Suc_lessI)
  note b = bit_length_bounds [OF this]
  have up: "bit_length (2 ^ Suc j - 1) \<le> Suc j" by (rule bit_length_le) simp
  have "(2::nat) ^ j \<le> 2 ^ Suc j - 1"
    using one_le_power [of "2::nat" j] by simp
  then have "(2::nat) ^ j < 2 ^ bit_length (2 ^ Suc j - 1)" using b by linarith
  then have "j < bit_length (2 ^ Suc j - 1)" by (simp add: power_less_imp_less_exp)
  with up have "bit_length (2 ^ Suc j - 1) = Suc j" by simp
  then show ?thesis by (simp add: split_point_def)
qed

text \<open>RFC 6962, section 2.1, on digests.\<close>

function mth :: "bytes list \<Rightarrow> bytes" where
  "mth leaves =
     (if length leaves < 2 then leaves ! 0
      else node_hash (mth (take (split_point (length leaves)) leaves))
                     (mth (drop (split_point (length leaves)) leaves)))"
  by pat_completeness auto
termination
  by (relation "measure length") (auto simp: not_less split_point_props intro!: diff_less)

declare mth.simps [simp del]

lemma mth_single: "length xs < 2 \<Longrightarrow> mth xs = xs ! 0"
  by (simp add: mth.simps [of xs])

lemma mth_node:
  "2 \<le> length xs \<Longrightarrow> mth xs = node_hash (mth (take (split_point (length xs)) xs))
     (mth (drop (split_point (length xs)) xs))"
  by (simp add: mth.simps [of xs])

lemma length_node_hash [simp]: "length (node_hash l r) = 32"
  by (simp add: node_hash_def)

definition leaves_ok :: "bytes list \<Rightarrow> bool" where
  "leaves_ok xs \<longleftrightarrow> xs \<noteq> [] \<and> (\<forall>x \<in> set xs. length x = 32)"

lemma validate_ok_iff: "validate xs = Inr u \<longleftrightarrow> leaves_ok xs"
  by (auto simp: validate_def leaves_ok_def each_eq_Inr_iff DIGEST_BYTES_def)

lemma leaves_ok_take: "leaves_ok xs \<Longrightarrow> 0 < k \<Longrightarrow> leaves_ok (take k xs)"
  by (auto simp: leaves_ok_def dest: in_set_takeD)

lemma leaves_ok_drop: "leaves_ok xs \<Longrightarrow> k < length xs \<Longrightarrow> leaves_ok (drop k xs)"
  by (auto simp: leaves_ok_def dest: in_set_dropD)

lemma length_mth: "leaves_ok xs \<Longrightarrow> length (mth xs) = 32"
proof (cases "length xs < 2")
  case True
  moreover assume "leaves_ok xs"
  ultimately show ?thesis by (cases xs) (auto simp: mth_single leaves_ok_def)
next
  case False
  then show ?thesis by (simp add: mth_node)
qed

section \<open>The pairwise fold computes the reference root on powers of two\<close>

fun pairs :: "bytes list \<Rightarrow> bytes list" where
  "pairs (x # y # rest) = node_hash x y # pairs rest"
| "pairs _ = []"

lemma pair_level_even: "even (length xs) \<Longrightarrow> pair_level xs = Inr (pairs xs)"
  by (induction xs rule: pair_level.induct) auto

lemma length_pairs: "length (pairs xs) = length xs div 2"
  by (induction xs rule: pairs.induct) auto

lemma pairs_append: "even (length xs) \<Longrightarrow> pairs (xs @ ys) = pairs xs @ pairs ys"
  by (induction xs rule: pair_level.induct) auto

lemma pairs_split:
  assumes "length xs = 2 * (2 * n)"
  shows "take n (pairs xs) = pairs (take (2 * n) xs)" and "drop n (pairs xs) = pairs (drop (2 * n) xs)"
proof -
  have "pairs xs = pairs (take (2 * n) xs) @ pairs (drop (2 * n) xs)"
    using assms pairs_append [of "take (2 * n) xs" "drop (2 * n) xs"] by simp
  moreover have "length (pairs (take (2 * n) xs)) = n"
    using assms by (simp add: length_pairs)
  ultimately show "take n (pairs xs) = pairs (take (2 * n) xs)"
    and "drop n (pairs xs) = pairs (drop (2 * n) xs)" by simp_all
qed

lemma mth_pairs: "length xs = 2 ^ Suc j \<Longrightarrow> mth (pairs xs) = mth xs"
proof (induction j arbitrary: xs)
  case 0
  then obtain x y where "xs = [x, y]" by (auto simp: length_Suc_conv numeral_2_eq_2)
  moreover have "split_point (Suc (Suc 0)) = 1" using split_point_power [of 0] by (simp add: numeral_2_eq_2)
  ultimately show ?case by (simp add: mth_node mth_single)
next
  case (Suc j)
  let ?n = "2 ^ j :: nat"
  have len: "length xs = 2 * (2 * ?n)" "length (pairs xs) = 2 ^ Suc j"
    using Suc.prems by (simp_all add: length_pairs)
  have "mth (pairs xs) = node_hash (mth (take ?n (pairs xs))) (mth (drop ?n (pairs xs)))"
    using len(2) one_le_power [of "2::nat" j]
    by (subst mth_node) (simp_all add: split_point_power [of j, simplified])
  also have "\<dots> = node_hash (mth (pairs (take (2 ^ Suc j) xs))) (mth (pairs (drop (2 ^ Suc j) xs)))"
    using pairs_split [OF len(1)] by simp
  also have "\<dots> = node_hash (mth (take (2 ^ Suc j) xs)) (mth (drop (2 ^ Suc j) xs))"
    using Suc.prems by (simp add: Suc.IH)
  also have "\<dots> = mth xs"
    using Suc.prems one_le_power [of "2::nat" "Suc j"] split_point_power [of "Suc j"]
    by (simp add: mth_node [of xs])
  finally show ?case .
qed

lemma perfect_root_mth: "length xs = 2 ^ j \<Longrightarrow> perfect_root xs = Inr (mth xs)"
proof (induction j arbitrary: xs)
  case 0
  then obtain x where "xs = [x]" by (auto simp: length_Suc_conv)
  then show ?case by (simp add: perfect_root.simps [of "[x]"] mth_single)
next
  case (Suc j)
  have "(1::nat) \<le> 2 ^ j" by simp
  with Suc.prems have ev: "even (length xs)" and gt: "1 < length xs"
    unfolding power_Suc by (simp, linarith)
  have "length (pairs xs) = 2 ^ j" using Suc.prems by (simp add: length_pairs)
  with Suc.IH have "perfect_root (pairs xs) = Inr (mth (pairs xs))" by blast
  then show ?case
    using gt mth_pairs [OF Suc.prems] by (simp add: perfect_root.simps [of xs] pair_level_even [OF ev])
qed

lemma merkle_root_mth: "leaves_ok xs \<Longrightarrow> merkle_root xs = Inr (mth xs)"
proof (induction "length xs" arbitrary: xs rule: less_induct)
  case less
  then have v: "validate xs = Inr ()" by (simp add: validate_ok_iff)
  show ?case
  proof (cases "length xs = 1")
    case True
    with v show ?thesis by (simp add: merkle_root.simps [of xs] mth_single)
  next
    case False
    with less.prems have n: "2 \<le> length xs"
      by (cases xs rule: pair_level.cases) (auto simp: leaves_ok_def)
    let ?k = "split_point (length xs)"
    note sp = split_point_props [OF n]
    have "perfect_root (take ?k xs) = Inr (mth (take ?k xs))"
      by (rule perfect_root_mth) (use sp in \<open>simp add: split_point_def\<close>)
    moreover have "merkle_root (drop ?k xs) = Inr (mth (drop ?k xs))"
      using sp n less.prems by (intro less.hyps leaves_ok_drop) auto
    ultimately show ?thesis
      using False v sp n by (simp add: merkle_root.simps [of xs] mth_node)
  qed
qed

section \<open>Inclusion proofs\<close>

text \<open>The audit path of RFC 6962, innermost sibling first.\<close>

function path_of :: "nat \<Rightarrow> bytes list \<Rightarrow> proof_step list" where
  "path_of i xs =
     (if length xs < 2 then []
      else let k = split_point (length xs)
           in if i < k
              then path_of i (take k xs) @ [\<lparr>side = Some ''right'', step_hash = Some (hex (mth (drop k xs)))\<rparr>]
              else path_of (i - k) (drop k xs) @ [\<lparr>side = Some ''left'', step_hash = Some (hex (mth (take k xs)))\<rparr>])"
  by pat_completeness auto
termination
  by (relation "measure (\<lambda>(_, xs). length xs)") (auto simp: not_less split_point_props intro!: diff_less)

declare path_of.simps [simp del]

lemma inclusion_loop_path:
  "leaves_ok xs \<Longrightarrow> i < length xs \<Longrightarrow> inclusion_loop xs i acc = Inr (acc @ rev (path_of i xs))"
proof (induction "length xs" arbitrary: xs i acc rule: less_induct)
  case less
  show ?case
  proof (cases "length xs < 2")
    case True
    then show ?thesis by (simp add: inclusion_loop.simps [of xs] path_of.simps [of i xs])
  next
    case False
    then have n: "2 \<le> length xs" by simp
    let ?k = "split_point (length xs)"
    note sp = split_point_props [OF n]
    have ok: "leaves_ok (take ?k xs)" "leaves_ok (drop ?k xs)"
      using less.prems sp by (auto intro: leaves_ok_take leaves_ok_drop)
    note r = merkle_root_mth [OF ok(1)] merkle_root_mth [OF ok(2)]
    show ?thesis
    proof (cases "i < ?k")
      case True
      have "inclusion_loop (take ?k xs) i a = Inr (a @ rev (path_of i (take ?k xs)))" for a
        using sp True ok(1) by (intro less.hyps) auto
      with True n sp r show ?thesis
        by (simp add: inclusion_loop.simps [of xs] path_of.simps [of i xs] Let_def)
    next
      case False
      have "inclusion_loop (drop ?k xs) (i - ?k) a = Inr (a @ rev (path_of (i - ?k) (drop ?k xs)))" for a
        using sp False less.prems ok(2) n by (intro less.hyps) auto
      with False n sp r show ?thesis
        by (simp add: inclusion_loop.simps [of xs] path_of.simps [of i xs] Let_def)
    qed
  qed
qed

lemma inclusion_proof_path:
  assumes "leaves_ok xs" and "i < length xs"
  shows "inclusion_proof xs (int i) = Inr (path_of i xs)"
  using assms by (simp add: inclusion_proof_def validate_ok_iff inclusion_loop_path
    iffD2 [OF validate_ok_iff [of xs "()"]])

lemma fold_path_append:
  "fold_path a (p @ q) = (case fold_path a p of None \<Rightarrow> None | Some b \<Rightarrow> fold_path b q)"
  by (induction a p rule: fold_path.induct) (auto split: option.splits)

lemma fold_path_complete:
  "leaves_ok xs \<Longrightarrow> i < length xs \<Longrightarrow> fold_path (xs ! i) (path_of i xs) = Some (mth xs)"
proof (induction "length xs" arbitrary: xs i rule: less_induct)
  case less
  show ?case
  proof (cases "length xs < 2")
    case True
    with less.prems have "i = 0" by simp
    with True show ?thesis by (simp add: path_of.simps [of 0 xs] mth_single)
  next
    case False
    then have n: "2 \<le> length xs" by simp
    let ?k = "split_point (length xs)"
    note sp = split_point_props [OF n]
    have ok: "leaves_ok (take ?k xs)" "leaves_ok (drop ?k xs)"
      using less.prems sp by (auto intro: leaves_ok_take leaves_ok_drop)
    note l = length_mth [OF ok(1)] length_mth [OF ok(2)]
    show ?thesis
    proof (cases "i < ?k")
      case True
      then have "fold_path (take ?k xs ! i) (path_of i (take ?k xs)) = Some (mth (take ?k xs))"
        using sp ok(1) by (intro less.hyps) auto
      with True n l show ?thesis
        by (simp add: path_of.simps [of i xs] Let_def fold_path_append mth_node DIGEST_BYTES_def)
    next
      case False
      have "fold_path (drop ?k xs ! (i - ?k)) (path_of (i - ?k) (drop ?k xs)) = Some (mth (drop ?k xs))"
        using sp False less.prems ok(2) n by (intro less.hyps) auto
      moreover have "drop ?k xs ! (i - ?k) = xs ! i"
        using False less.prems(2) by simp
      ultimately show ?thesis
        using False n l
        by (simp add: path_of.simps [of i xs] Let_def fold_path_append mth_node DIGEST_BYTES_def)
    qed
  qed
qed

lemma length_path_of: "i < length xs \<Longrightarrow> length (path_of i xs) \<le> bit_length (length xs - 1)"
proof (induction "length xs" arbitrary: xs i rule: less_induct)
  case less
  show ?case
  proof (cases "length xs < 2")
    case True
    then show ?thesis by (simp add: path_of.simps [of i xs])
  next
    case False
    then have n: "2 \<le> length xs" by simp
    let ?k = "split_point (length xs)"
    note sp = split_point_props [OF n]
    obtain j where j: "?k = 2 ^ j" "bit_length (length xs - 1) = Suc j"
      using sp(4) by (auto elim: split_pointE)
    have step: "length (path_of i' ys) \<le> j"
      if "length ys < length xs" "i' < length ys" "length ys \<le> ?k" for i' ys
    proof -
      have "length ys - 1 < 2 ^ j" using that j(1) by linarith
      then show ?thesis
        using less.hyps [OF that(1,2)] bit_length_le [of "length ys - 1" j] by linarith
    qed
    show ?thesis
    proof (cases "i < ?k")
      case True
      with step [of "take ?k xs" i] sp n j(2) show ?thesis
        by (simp add: path_of.simps [of i xs] Let_def)
    next
      case False
      with step [of "drop ?k xs" "i - ?k"] sp n j(2) less.prems show ?thesis
        by (simp add: path_of.simps [of i xs] Let_def)
    qed
  qed
qed

section \<open>Binding: what a root commits to\<close>

text \<open>
  The byte strings hashed while a tree is built over data and while a path is folded. A forgery
  would have to present two different strings among them with the same digest.
\<close>

function tree_inputs :: "bytes list \<Rightarrow> bytes list" where
  "tree_inputs ds =
     (if length ds < 2 then map (\<lambda>d. LEAF_PREFIX @ d) ds
      else let k = split_point (length ds)
           in (NODE_PREFIX @ mth (map leaf_of_bytes (take k ds)) @ mth (map leaf_of_bytes (drop k ds)))
              # tree_inputs (take k ds) @ tree_inputs (drop k ds))"
  by pat_completeness auto
termination
  by (relation "measure length") (auto simp: not_less split_point_props intro!: diff_less)

declare tree_inputs.simps [simp del]

fun path_inputs :: "bytes \<Rightarrow> proof_step list \<Rightarrow> bytes list" where
  "path_inputs acc [] = []"
| "path_inputs acc (step # path) =
     (let sibling = the (fromhex (the (step_hash step)));
          x = NODE_PREFIX @ (if side step = Some ''left'' then sibling @ acc else acc @ sibling)
      in x # path_inputs (sha256 x) path)"

definition collision_in :: "bytes list \<Rightarrow> bytes list \<Rightarrow> bool" where
  "collision_in A B \<longleftrightarrow> (\<exists>x \<in> set A. \<exists>y \<in> set B. x \<noteq> y \<and> sha256 x = sha256 y)"

lemma collision_in_mono:
  "collision_in A B \<Longrightarrow> set A \<subseteq> set A' \<Longrightarrow> set B \<subseteq> set B' \<Longrightarrow> collision_in A' B'"
  by (auto simp: collision_in_def)

lemma collision_inI: "x \<in> set A \<Longrightarrow> y \<in> set B \<Longrightarrow> sha256 x = sha256 y \<Longrightarrow> x = y \<or> collision_in A B"
  by (auto simp: collision_in_def)

lemma leaves_ok_map_leaf: "ds \<noteq> [] \<Longrightarrow> leaves_ok (map leaf_of_bytes ds)"
  by (auto simp: leaves_ok_def leaf_of_bytes_def)

lemma tree_inputs_single: "tree_inputs [d] = [LEAF_PREFIX @ d]"
  by (simp add: tree_inputs.simps [of "[d]"])

text \<open>The first string hashed last: the input whose digest is the root.\<close>

lemma root_preimage:
  assumes "ds \<noteq> []"
  obtains (leaf) d where "ds = [d]" "mth (map leaf_of_bytes ds) = sha256 (LEAF_PREFIX @ d)"
      "LEAF_PREFIX @ d \<in> set (tree_inputs ds)"
  | (node) ls rs where "ds = ls @ rs" "ls \<noteq> []" "rs \<noteq> []"
      "mth (map leaf_of_bytes ds) =
         sha256 (NODE_PREFIX @ mth (map leaf_of_bytes ls) @ mth (map leaf_of_bytes rs))"
      "NODE_PREFIX @ mth (map leaf_of_bytes ls) @ mth (map leaf_of_bytes rs) \<in> set (tree_inputs ds)"
      "set (tree_inputs ls) \<subseteq> set (tree_inputs ds)" "set (tree_inputs rs) \<subseteq> set (tree_inputs ds)"
proof (cases "length ds < 2")
  case True
  with assms obtain d where "ds = [d]" by (cases ds rule: pair_level.cases) auto
  then show thesis by (intro leaf [of d]) (simp_all add: mth_single leaf_of_bytes_def tree_inputs_single)
next
  case False
  then have n: "2 \<le> length ds" by simp
  let ?k = "split_point (length ds)"
  note sp = split_point_props [OF n]
  show thesis
  proof (rule node [of "take ?k ds" "drop ?k ds"])
    show "take ?k ds \<noteq> []" "drop ?k ds \<noteq> []" using sp n by auto
  qed (use n in \<open>auto simp: mth_node node_hash_def take_map drop_map tree_inputs.simps [of ds] Let_def\<close>)
qed

lemma prefixes_differ: "LEAF_PREFIX @ x \<noteq> NODE_PREFIX @ y" "NODE_PREFIX @ y \<noteq> LEAF_PREFIX @ x"
  by (simp_all add: LEAF_PREFIX_def NODE_PREFIX_def)

lemma root_binding:
  assumes "mth (map leaf_of_bytes ds) = mth (map leaf_of_bytes es)" and "ds \<noteq> []" and "es \<noteq> []"
  shows "ds = es \<or> collision_in (tree_inputs ds) (tree_inputs es)"
  using assms
proof (induction "length ds" arbitrary: ds es rule: less_induct)
  case less
  from less.prems(2) show ?case
  proof (cases rule: root_preimage)
    case (leaf d)
    note D = this
    from less.prems(3) show ?thesis
    proof (cases rule: root_preimage)
      case (leaf e)
      with D less.prems(1) show ?thesis
        using collision_inI [of "LEAF_PREFIX @ d" "tree_inputs ds" "LEAF_PREFIX @ e" "tree_inputs es"] by auto
    next
      case (node ls rs)
      with D less.prems(1) show ?thesis
        unfolding collision_in_def by (metis prefixes_differ(1))
    qed
  next
    case (node dl dr)
    note D = this
    from less.prems(3) show ?thesis
    proof (cases rule: root_preimage)
      case (leaf e)
      with D less.prems(1) show ?thesis
        unfolding collision_in_def by (metis prefixes_differ(2))
    next
      case (node el er)
      note E = this
      show ?thesis
      proof (rule ccontr)
        assume no: "\<not> ?thesis"
        with D(4,5) E(4,5) less.prems(1)
        have "NODE_PREFIX @ mth (map leaf_of_bytes dl) @ mth (map leaf_of_bytes dr) =
              NODE_PREFIX @ mth (map leaf_of_bytes el) @ mth (map leaf_of_bytes er)"
          using collision_inI by metis
        then have eq: "mth (map leaf_of_bytes dl) = mth (map leaf_of_bytes el)"
          "mth (map leaf_of_bytes dr) = mth (map leaf_of_bytes er)"
          using length_mth [OF leaves_ok_map_leaf [OF D(2)]] length_mth [OF leaves_ok_map_leaf [OF E(2)]]
          by auto
        have len: "length dl < length ds" "length dr < length ds" using D(1-3) by auto
        have "dl = el" using less.hyps [OF len(1) eq(1) D(2) E(2)] no D(6) E(6)
          by (meson collision_in_mono)
        moreover have "dr = er" using less.hyps [OF len(2) eq(2) D(3) E(3)] no D(7) E(7)
          by (meson collision_in_mono)
        ultimately show False using no D(1) E(1) by simp
      qed
    qed
  qed
qed

lemma length_fold_path: "length a = 32 \<Longrightarrow> fold_path a p = Some b \<Longrightarrow> length b = 32"
  by (induction a p rule: fold_path.induct) (auto split: option.splits if_splits)

lemma fold_path_stepE:
  assumes "fold_path a [st] = Some r"
  obtains sibling where "length sibling = 32" and "side st = Some ''left''"
      "r = sha256 (NODE_PREFIX @ sibling @ a)" "path_inputs a [st] = [NODE_PREFIX @ sibling @ a]"
  | sibling where "length sibling = 32" and "side st = Some ''right''"
      "r = sha256 (NODE_PREFIX @ a @ sibling)" "path_inputs a [st] = [NODE_PREFIX @ a @ sibling]"
  using assms
  by (auto simp: DIGEST_BYTES_def node_hash_def Let_def split: option.splits if_splits)

lemma path_inputs_append:
  "fold_path a p = Some b \<Longrightarrow> path_inputs a (p @ q) = path_inputs a p @ path_inputs b q"
  by (induction a p rule: fold_path.induct)
     (auto simp: Let_def node_hash_def split: option.splits if_splits)

lemma path_sound:
  assumes "fold_path (leaf_of_bytes d) path = Some (mth (map leaf_of_bytes ds))" and "ds \<noteq> []"
  shows "d \<in> set ds \<or>
    collision_in ((LEAF_PREFIX @ d) # path_inputs (leaf_of_bytes d) path) (tree_inputs ds)"
  using assms
proof (induction path arbitrary: ds rule: rev_induct)
  case Nil
  from Nil(2) show ?case
  proof (cases rule: root_preimage)
    case (leaf e)
    with Nil show ?thesis
      using collision_inI [of "LEAF_PREFIX @ d" "[LEAF_PREFIX @ d]" "LEAF_PREFIX @ e" "tree_inputs ds"]
      by (auto simp: leaf_of_bytes_def)
  next
    case (node ls rs)
    have "sha256 (LEAF_PREFIX @ d) =
        sha256 (NODE_PREFIX @ mth (map leaf_of_bytes ls) @ mth (map leaf_of_bytes rs))"
      using Nil(1) node(4) by (simp add: leaf_of_bytes_def [of d])
    then show ?thesis
      unfolding collision_in_def using node(5) prefixes_differ(1) by auto
  qed
next
  case (snoc st path)
  let ?a = "leaf_of_bytes d"
  let ?A = "(LEAF_PREFIX @ d) # path_inputs ?a (path @ [st])"
  from snoc.prems(1) obtain b where b: "fold_path ?a path = Some b"
    and r: "fold_path b [st] = Some (mth (map leaf_of_bytes ds))"
    by (auto simp: fold_path_append split: option.splits)
  have lb: "length b = 32" using length_fold_path [OF _ b] by (simp add: leaf_of_bytes_def)
  have inp: "path_inputs ?a (path @ [st]) = path_inputs ?a path @ path_inputs b [st]"
    by (rule path_inputs_append [OF b])
  show ?case
  proof (rule ccontr)
    assume no: "\<not> ?case"
    from snoc.prems(2) show False
    proof (cases rule: root_preimage)
      case (leaf e)
      have bad: "sha256 (NODE_PREFIX @ x) \<noteq> mth (map leaf_of_bytes ds)"
        if "NODE_PREFIX @ x \<in> set (path_inputs b [st])" for x
        using collision_inI [of "NODE_PREFIX @ x" ?A "LEAF_PREFIX @ e" "tree_inputs ds"]
          prefixes_differ(1) [of e x] that leaf(2,3) no inp by auto
      from r show False by (rule fold_path_stepE) (use bad in auto)
    next
      case (node ls rs)
      let ?N = "NODE_PREFIX @ mth (map leaf_of_bytes ls) @ mth (map leaf_of_bytes rs)"
      have x: "x = ?N" if "x \<in> set (path_inputs b [st])" "sha256 x = mth (map leaf_of_bytes ds)" for x
        using collision_inI [of x ?A ?N "tree_inputs ds"] that node(4,5) no inp by auto
      have l: "length (mth (map leaf_of_bytes ls)) = 32"
        by (rule length_mth [OF leaves_ok_map_leaf [OF node(2)]])
      from r have "b = mth (map leaf_of_bytes ls) \<or> b = mth (map leaf_of_bytes rs)"
        by (rule fold_path_stepE) (use x lb l in auto)
      then have "d \<in> set ls \<or> d \<in> set rs \<or>
          collision_in ((LEAF_PREFIX @ d) # path_inputs ?a path) (tree_inputs ls) \<or>
          collision_in ((LEAF_PREFIX @ d) # path_inputs ?a path) (tree_inputs rs)"
        using snoc.IH [of ls] snoc.IH [of rs] b node(2,3) by auto
      moreover have "set ((LEAF_PREFIX @ d) # path_inputs ?a path) \<subseteq> set ?A" unfolding inp by auto
      ultimately show False
        using no node(1,6,7) collision_in_mono by (metis UnCI set_append)
    qed
  qed
qed

lemma merkle_root_NilE: "merkle_root (map leaf_of_bytes ds) = Inr h \<Longrightarrow> ds \<noteq> []"
proof
  assume "merkle_root (map leaf_of_bytes ds) = Inr h" "ds = []"
  then have "merkle_root [] = Inr h" by simp
  then show False by (subst (asm) merkle_root.simps) (simp add: validate_def)
qed

section \<open>Properties\<close>

text \<open>
  C35. The root that is sealed is the RFC 6962 tree hash: for every non-empty list of 32-byte leaves
  \<^verbatim>\<open>merkle_root\<close> (pairwise folds on the left, recursion on the right) returns the value of the RFC's
  recursion, and for any other list it raises.
\<close>

theorem merkle_root_is_rfc6962:
  "(leaves_ok leaves \<longrightarrow> merkle_root leaves = Inr (mth leaves)) \<and>
   (\<not> leaves_ok leaves \<longrightarrow> (\<exists>m. merkle_root leaves = Inl (BusinessRuleError m)))"
proof (intro conjI impI)
  assume "leaves_ok leaves"
  then show "merkle_root leaves = Inr (mth leaves)" by (rule merkle_root_mth)
next
  assume no: "\<not> leaves_ok leaves"
  have bre: "\<exists>m. validate leaves = Inl (BusinessRuleError m)"
  proof (cases "validate leaves")
    case (Inl e)
    have "each f xs = Inl e \<Longrightarrow> \<exists>x \<in> set xs. f x = Inl e" for f :: "bytes \<Rightarrow> unit result" and xs
      by (induction xs) (auto simp: bindr_eq_Inl_iff)
    with Inl show ?thesis
      by (fastforce simp: validate_def raise_if_def split: if_splits)
  next
    case (Inr u)
    with no show ?thesis using validate_ok_iff by blast
  qed
  then show "\<exists>m. merkle_root leaves = Inl (BusinessRuleError m)"
    by (auto simp: merkle_root.simps [of leaves])
qed

theorem merkle_root_is_rfc6962_witness:
  "merkle_root [replicate 32 1, replicate 32 2, replicate 32 3] =
     Inr (mth [replicate 32 1, replicate 32 2, replicate 32 3])"
proof -
  have "leaves_ok [replicate 32 1, replicate 32 2, replicate 32 3]"
    by (simp add: leaves_ok_def)
  then show ?thesis using merkle_root_is_rfc6962 by blast
qed

text \<open>
  C36. Every proof the system issues verifies: for valid leaves and an index in range,
  \<^verbatim>\<open>inclusion_proof\<close> returns a path, \<^verbatim>\<open>merkle_root\<close> returns a root, \<^verbatim>\<open>verify_inclusion\<close> accepts the leaf
  with that path against that root, and the path has at most \<^verbatim>\<open>tree_depth\<close> siblings.
\<close>

theorem inclusion_proof_verifies:
  assumes "leaves_ok leaves" and "i < length leaves"
  shows "\<exists>path root_hash. inclusion_proof leaves (int i) = Inr path \<and>
    merkle_root leaves = Inr root_hash \<and>
    verify_inclusion (leaves ! i) path root_hash \<and>
    int (length path) \<le> tree_depth (int (length leaves))"
proof -
  have "length (leaves ! i) = 32" using assms by (simp add: leaves_ok_def)
  moreover have "int (length (path_of i leaves)) \<le> tree_depth (int (length leaves))"
    using length_path_of [OF assms(2)]
    by (cases "length leaves < 2")
       (auto simp: tree_depth_def path_of.simps [of i leaves] nat_diff_distrib)
  ultimately show ?thesis
    using inclusion_proof_path [OF assms] merkle_root_mth [OF assms(1)] fold_path_complete [OF assms]
      length_mth [OF assms(1)]
    by (simp add: verify_inclusion_def DIGEST_BYTES_def)
qed

theorem inclusion_proof_verifies_witness:
  "\<exists>path root_hash. inclusion_proof [replicate 32 1, replicate 32 2, replicate 32 3] (int 2) = Inr path \<and>
    merkle_root [replicate 32 1, replicate 32 2, replicate 32 3] = Inr root_hash \<and>
    verify_inclusion ([replicate 32 1, replicate 32 2, replicate 32 3] ! 2) path root_hash \<and>
    int (length path) \<le> tree_depth (int (length [replicate 32 (1::byte), replicate 32 2, replicate 32 3]))"
  by (rule inclusion_proof_verifies) (simp_all add: leaves_ok_def)

text \<open>
  C37. A forged proof is a hash collision: if the verifier accepts the leaf of some data, with any
  path of any length, against the root of a tree, then that data is one of the tree's, or two
  different byte strings with the same SHA-256 digest occur among those hashed in building the tree
  and in checking the path. In particular no interior node can be passed off as a leaf.
\<close>

theorem forged_proof_is_collision:
  assumes "verify_inclusion (leaf_of_bytes d) path root_hash"
    and "merkle_root (map leaf_of_bytes ds) = Inr root_hash"
  shows "d \<in> set ds \<or>
    collision_in ((LEAF_PREFIX @ d) # path_inputs (leaf_of_bytes d) path) (tree_inputs ds)"
proof -
  from assms(2) have "ds \<noteq> []" by (rule merkle_root_NilE)
  moreover from this assms(2) have "root_hash = mth (map leaf_of_bytes ds)"
    by (simp add: merkle_root_mth leaves_ok_map_leaf)
  ultimately show ?thesis
    using assms(1) path_sound by (auto simp: verify_inclusion_def split: if_splits)
qed

theorem forged_proof_is_collision_witness:
  "\<exists>path root_hash. verify_inclusion (leaf_of_bytes [7]) path root_hash \<and>
     merkle_root (map leaf_of_bytes [[5], [7], [9]]) = Inr root_hash \<and>
     (([7] :: bytes) \<in> set [[5], [7], [9]] \<or>
      collision_in ((LEAF_PREFIX @ [7]) # path_inputs (leaf_of_bytes [7]) path) (tree_inputs [[5], [7], [9]]))"
proof -
  let ?ds = "[[5], [7], [9]] :: bytes list"
  have ok: "leaves_ok (map leaf_of_bytes ?ds)" by (rule leaves_ok_map_leaf) simp
  have "fold_path (leaf_of_bytes [7]) (path_of 1 (map leaf_of_bytes ?ds)) = Some (mth (map leaf_of_bytes ?ds))"
    using fold_path_complete [OF ok, of 1] by simp
  then have v: "verify_inclusion (leaf_of_bytes [7]) (path_of 1 (map leaf_of_bytes ?ds)) (mth (map leaf_of_bytes ?ds))"
    using length_mth [OF ok] by (simp add: verify_inclusion_def DIGEST_BYTES_def leaf_of_bytes_def)
  from forged_proof_is_collision [OF v merkle_root_mth [OF ok]] v merkle_root_mth [OF ok]
  show ?thesis by blast
qed

text \<open>
  A root commits to the whole list: two lists of data with the same root, of any lengths, are the
  same list in the same order, or a SHA-256 collision occurs among the strings hashed for them.
\<close>

theorem root_commits_to_list:
  assumes "merkle_root (map leaf_of_bytes ds) = Inr h" and "merkle_root (map leaf_of_bytes es) = Inr h"
  shows "ds = es \<or> collision_in (tree_inputs ds) (tree_inputs es)"
proof -
  have ne: "ds \<noteq> []" "es \<noteq> []"
    using assms by (auto dest: merkle_root_NilE)
  with assms have "mth (map leaf_of_bytes ds) = mth (map leaf_of_bytes es)"
    by (simp add: merkle_root_mth leaves_ok_map_leaf)
  with ne show ?thesis by (intro root_binding)
qed

theorem root_commits_to_list_witness:
  "\<exists>h. merkle_root (map leaf_of_bytes [[1], [2]]) = Inr h \<and>
     ([[1], [2]] = [[1], [2 :: byte]] \<or> collision_in (tree_inputs [[1], [2]]) (tree_inputs [[1], [2]]))"
proof -
  have "merkle_root (map leaf_of_bytes [[1], [2]]) = Inr (mth (map leaf_of_bytes [[1], [2]]))"
    by (rule merkle_root_mth [OF leaves_ok_map_leaf]) simp
  with root_commits_to_list [OF this this] show ?thesis by blast
qed

end
