(* ===== verification/Canonical.thy ===== *)
theory Canonical
  imports Merkle Accounting_Models
begin

text \<open>
  The canonical byte form of a journal entry, \<^verbatim>\<open>app/modules/attestation/canonical.py\<close>: the primitive
  encoders, the payload of an entry, \<^verbatim>\<open>encode_entry\<close> and \<^verbatim>\<open>leaf_hash\<close>. A payload is a record with the typed
  values \<^verbatim>\<open>payload_from_entry\<close> puts into the mapping, so every name is present and \<^verbatim>\<open>_coerce\<close> is the
  identity; payloads read back from JSON are outside the model. A character is a code point below 256.

  The main lemma is that the encoding is injective up to what it deliberately drops (the status, and the
  instant of posting below the millisecond). It rests on one interface, \<open>prefix_code\<close>, discharged for each
  kind of field.
\<close>

section \<open>Binary floating point\<close>

text \<open>
  \<^verbatim>\<open>float\<close> arithmetic with its 53 significant bits, as far as timestamps use it (no overflow and no
  subnormal numbers occur there); \<^verbatim>\<open>int(x)\<close> truncates.
\<close>

definition float_of :: "rat \<Rightarrow> rat" where
  "float_of x = sig_round 2 53 x"

definition py_int :: "rat \<Rightarrow> int" where
  "py_int x = (if 0 \<le> x then \<lfloor>x\<rfloor> else - \<lfloor>- x\<rfloor>)"

text \<open>\<^verbatim>\<open>datetime.timestamp()\<close> of an aware datetime: microseconds since the epoch divided as floats.\<close>

definition timestamp :: "instant \<Rightarrow> rat" where
  "timestamp t = float_of (of_int t / 1000000)"

definition instant_millis :: "instant \<Rightarrow> int" where
  "instant_millis t = py_int (float_of (timestamp t * 1000))"

section \<open>Text\<close>

text \<open>\<^verbatim>\<open>str.encode("utf-8")\<close>.\<close>

definition utf8_char :: "char \<Rightarrow> bytes" where
  "utf8_char c =
     (let n = (of_char c :: nat)
      in if n < 128 then [of_nat n] else [of_nat (192 + n div 64), of_nat (128 + n mod 64)])"

definition utf8 :: "string \<Rightarrow> bytes" where
  "utf8 s = concat (map utf8_char s)"

section \<open>Constants and primitive encoders\<close>

definition CANONICAL_VERSION :: int where "CANONICAL_VERSION = 1"
definition MONEY_SCALE :: nat where "MONEY_SCALE = 4"
definition INT_WIDTH :: nat where "INT_WIDTH = 16"
definition ABSENT :: int where "ABSENT = 0xFFFFFFFF"
definition KIND_JOURNAL_ENTRY :: string where "KIND_JOURNAL_ENTRY = ''journal_entry.v1''"

definition enc_u32 :: "int \<Rightarrow> bytes result" where
  "enc_u32 v =
     (if \<not> (0 \<le> v \<and> v \<le> 0xFFFFFFFF) then Inl (BusinessRuleError ''Value does not fit a u32'')
      else Inr (be_bytes 4 v))"

definition enc_u64 :: "int \<Rightarrow> bytes result" where
  "enc_u64 v =
     (if \<not> (0 \<le> v \<and> v \<le> 0xFFFFFFFFFFFFFFFF) then Inl (BusinessRuleError ''Value does not fit a u64'')
      else Inr (be_bytes 8 v))"

definition enc_int :: "int \<Rightarrow> bytes result" where
  "enc_int v =
     (if - (2 ^ (8 * INT_WIDTH - 1)) \<le> v \<and> v < 2 ^ (8 * INT_WIDTH - 1) then Inr (be_bytes INT_WIDTH v)
      else Inl (BusinessRuleError ''Value does not fit an i128''))"

fun enc_bytes :: "bytes option \<Rightarrow> bytes result" where
  "enc_bytes None = enc_u32 ABSENT"
| "enc_bytes (Some bs) = bindr (enc_u32 (int (length bs))) (\<lambda>n. Inr (n @ bs))"

fun enc_str :: "string option \<Rightarrow> bytes result" where
  "enc_str None = enc_u32 ABSENT"
| "enc_str (Some s) = enc_bytes (Some (utf8 s))"

fun enc_uuid :: "uuid option \<Rightarrow> bytes result" where
  "enc_uuid None = enc_u32 ABSENT"
| "enc_uuid (Some u) = enc_bytes (Some (be_bytes 16 u))"

fun enc_date :: "date option \<Rightarrow> bytes result" where
  "enc_date None = enc_u32 ABSENT"
| "enc_date (Some d) = enc_u32 (ord_year d * 10000 + ord_month d * 100 + ord_day d)"

fun enc_instant :: "instant option \<Rightarrow> bytes result" where
  "enc_instant None = enc_u32 ABSENT"
| "enc_instant (Some t) = enc_u64 (instant_millis t)"

fun money_minor :: "decimal option \<Rightarrow> int result" where
  "money_minor None = Inr 0"
| "money_minor (Some amount) =
     (let scaled = ctx_round (amount * 10 ^ MONEY_SCALE);
          whole = half_even_int scaled
      in if scaled \<noteq> of_int whole
         then Inl (BusinessRuleError ''Amount carries more than 4 decimal places'')
         else Inr whole)"

definition enc_money :: "decimal option \<Rightarrow> bytes result" where
  "enc_money v = bindr (money_minor v) enc_int"

section \<open>Payloads\<close>

record line_payload =
  lp_line_number :: int
  lp_account_id :: "uuid option"
  lp_debit :: "decimal option"
  lp_credit :: "decimal option"
  lp_description :: "string option"

record entry_payload =
  ep_organization_id :: "uuid option"
  ep_entry_id :: "uuid option"
  ep_entry_number :: "string option"
  ep_entry_date :: "date option"
  ep_currency :: "string option"
  ep_total_debit :: "decimal option"
  ep_total_credit :: "decimal option"
  ep_narration :: "string option"
  ep_reference :: "string option"
  ep_counterparty :: "string option"
  ep_source_type :: "string option"
  ep_source_id :: "uuid option"
  ep_reverses_id :: "uuid option"
  ep_posted_at :: "instant option"
  ep_lines :: "line_payload list"

definition line_payload_of :: "entry_line \<Rightarrow> line_payload" where
  "line_payload_of l = \<lparr>lp_line_number = l_number l, lp_account_id = Some (l_account l),
     lp_debit = Some (l_debit l), lp_credit = Some (l_credit l), lp_description = l_description l\<rparr>"

definition payload_from_entry :: "journal_entry \<Rightarrow> entry_payload" where
  "payload_from_entry e =
     \<lparr>ep_organization_id = Some (e_org e), ep_entry_id = Some (e_id e), ep_entry_number = e_number e,
      ep_entry_date = Some (e_date e), ep_currency = Some (e_currency e),
      ep_total_debit = Some (e_total_debit e), ep_total_credit = Some (e_total_credit e),
      ep_narration = Some (e_narration e), ep_reference = e_reference e,
      ep_counterparty = e_counterparty e, ep_source_type = e_source_type e,
      ep_source_id = e_source_id e, ep_reverses_id = e_reverses e, ep_posted_at = e_posted_at e,
      ep_lines = map line_payload_of (sort_key l_number (e_lines e))\<rparr>"

text \<open>A field with its kind, and the table that picks the encoder of a kind.\<close>

datatype field =
    Uuid "uuid option" | Str "string option" | Date "date option" | Money "decimal option"
  | Instant "instant option" | U32 int

fun encode_field :: "field \<Rightarrow> bytes result" where
  "encode_field (Uuid u) = enc_uuid u"
| "encode_field (Str s) = enc_str s"
| "encode_field (Date d) = enc_date d"
| "encode_field (Money m) = enc_money m"
| "encode_field (Instant t) = enc_instant t"
| "encode_field (U32 n) = enc_u32 n"

definition entry_fields :: "entry_payload \<Rightarrow> field list" where
  "entry_fields p =
     [Uuid (ep_organization_id p), Uuid (ep_entry_id p), Str (ep_entry_number p), Date (ep_entry_date p),
      Str (ep_currency p), Money (ep_total_debit p), Money (ep_total_credit p), Str (ep_narration p),
      Str (ep_reference p), Str (ep_counterparty p), Str (ep_source_type p), Uuid (ep_source_id p),
      Uuid (ep_reverses_id p), Instant (ep_posted_at p)]"

definition line_fields :: "line_payload \<Rightarrow> field list" where
  "line_fields l =
     [U32 (lp_line_number l), Uuid (lp_account_id l), Money (lp_debit l), Money (lp_credit l),
      Str (lp_description l)]"

fun encode_fields :: "field list \<Rightarrow> bytes result" where
  "encode_fields [] = Inr []"
| "encode_fields (f # fs) = bindr (encode_field f) (\<lambda>b. bindr (encode_fields fs) (\<lambda>bs. Inr (b @ bs)))"

definition encode_entry :: "entry_payload \<Rightarrow> bytes result" where
  "encode_entry p =
     bindr (enc_str (Some KIND_JOURNAL_ENTRY)) (\<lambda>kind.
     bindr (encode_fields (entry_fields p)) (\<lambda>head.
       let lines = sort_key lp_line_number (ep_lines p) in
     bindr (raise_if (lines = []) (BusinessRuleError ''A journal entry with no lines cannot be sealed'')) (\<lambda>_.
     bindr (enc_u32 (int (length lines))) (\<lambda>n.
     bindr (encode_fields (concat (map line_fields lines))) (\<lambda>tail.
     Inr ([of_int CANONICAL_VERSION] @ kind @ head @ n @ tail))))))"

definition leaf_hash :: "entry_payload \<Rightarrow> bytes result" where
  "leaf_hash p = bindr (encode_entry p) (\<lambda>b. Inr (leaf_of_bytes b))"

definition leaf_hash_hex :: "entry_payload \<Rightarrow> string result" where
  "leaf_hash_hex p = bindr (leaf_hash p) (\<lambda>d. Inr (hex d))"


section \<open>Timestamps in milliseconds\<close>

lemma int_digits_unique:
  assumes b: "1 < b" and x: "of_int b powi (k - 1) \<le> \<bar>x\<bar>" "\<bar>x\<bar> < of_int b powi k"
  shows "int_digits b x = k"
proof -
  have pos: "1 < (of_int b :: rat)" using b by simp
  have "0 < (of_int b :: rat) powi (k - 1)" using b by simp
  then have "x \<noteq> 0" using x(1) by auto
  note bd = int_digits_bounds [OF b this]
  have "(of_int b :: rat) powi (k - 1) < of_int b powi int_digits b x"
    using x(1) bd(2) by linarith
  then have "k - 1 < int_digits b x" using pos by (meson less_eq_rat_def linorder_not_less power_int_increasing)
  moreover have "(of_int b :: rat) powi (int_digits b x - 1) < of_int b powi k"
    using bd(1) x(2) by linarith
  then have "int_digits b x - 1 < k" using pos by (meson less_eq_rat_def linorder_not_less power_int_increasing)
  ultimately show ?thesis by linarith
qed

lemma half_even_int_near: "\<bar>x - of_int n\<bar> < 1/2 \<Longrightarrow> half_even_int x = n"
  using half_even_int_error [of x] by linarith

lemma float_of_ulp:
  assumes "2 ^ k \<le> x" "x < 2 ^ Suc k" "k < 53"
  shows "\<bar>float_of x - x\<bar> \<le> 1 / 2 ^ (53 - k)"
    and "float_of x = of_int (half_even_int (x * 2 ^ (52 - k))) / 2 ^ (52 - k)"
proof -
  have "0 < x" using assms(1) by (meson less_le_trans zero_less_numeral zero_less_power)
  have d: "int_digits 2 x = int (Suc k)"
    by (rule int_digits_unique) (use assms(1,2) \<open>0 < x\<close> in \<open>simp_all only: power_int_of_nat of_int_numeral abs_of_pos
      diff_Suc_1 of_nat_Suc add_diff_cancel_left' flip: of_nat_Suc, simp_all\<close>)
  have e: "(53 :: int) - int_digits 2 x = int (52 - k)" using assms(3) by (simp add: d of_nat_diff)
  have p: "(2 :: rat) powi (53 - int_digits 2 x) = 2 ^ (52 - k)" unfolding e by simp
  have two: "2 * 2 ^ (52 - k) = (2 :: rat) ^ (53 - k)" using assms(3) by (simp flip: power_Suc add: Suc_diff_le)
  show "\<bar>float_of x - x\<bar> \<le> 1 / 2 ^ (53 - k)"
    using sig_round_ulp [of 2 x 53] \<open>0 < x\<close> by (simp add: float_of_def p two)
  show "float_of x = of_int (half_even_int (x * 2 ^ (52 - k))) / 2 ^ (52 - k)"
    using \<open>0 < x\<close> by (simp add: float_of_def sig_round_def Let_def p)
qed

text \<open>From November 2004 to January 2038 the two roundings never move a timestamp across a millisecond.\<close>

lemma instant_millis_exact:
  assumes "1099511628000000 \<le> t" "t < 2147483648000000"
  shows "instant_millis t = t div 1000"
proof -
  define x :: rat where "x = of_int t / 1000000"
  define y where "y = float_of x"
  define m where "m = t div 1000"
  define r where "r = t mod 1000"
  have t: "t = 1000 * m + r" and r: "0 \<le> r" "r < 1000" by (simp_all add: m_def r_def)
  have lo: "(1099511628000000 :: rat) \<le> of_int t" using of_int_le_iff [THEN iffD2, OF assms(1)] by (metis of_int_numeral)
  have hi: "of_int t < (2147483648000000 :: rat)" using of_int_less_iff [THEN iffD2, OF assms(2)] by (metis of_int_numeral)
  have x: "2 ^ 30 \<le> x" "x < 2 ^ 31" using lo hi by (simp_all add: x_def)
  have "\<bar>y - x\<bar> \<le> 1 / 8388608" using float_of_ulp(1) [of 30 x] x by (simp add: y_def)
  then have "y - x \<le> 1 / 8388608" "x - y \<le> 1 / 8388608" unfolding abs_le_iff by linarith+
  then have z: "y * 1000 - x * 1000 \<le> 125 / 1048576" "x * 1000 - y * 1000 \<le> 125 / 1048576" by linarith+
  have xm: "x * 1000 = of_int m + of_int r / 1000" by (simp add: x_def t)
  have xt: "x * 1000 = of_int t / 1000" by (simp add: x_def)
  have "1099511627776 \<le> y * 1000" "y * 1000 < 2199023255552"
    using z lo hi unfolding xt by linarith+
  then have zb: "2 ^ 40 \<le> y * 1000" "y * 1000 < 2 ^ Suc 40" by simp_all
  define w where "w = float_of (y * 1000)"
  have "\<bar>w - y * 1000\<bar> \<le> 1 / 8192" and weq: "w = of_int (half_even_int (y * 1000 * 2 ^ 12)) / 2 ^ 12"
    using float_of_ulp(1) [OF zb] float_of_ulp(2) [OF zb] by (simp only: w_def, simp, simp only: w_def, simp)
  then have w: "w - y * 1000 \<le> 1 / 8192" "y * 1000 - w \<le> 1 / 8192" unfolding abs_le_iff by linarith+
  have "of_int m \<le> w \<and> w < of_int m + 1"
  proof (cases "r = 0")
    case True
    have "\<bar>y * 1000 * 4096 - of_int m * 4096\<bar> < 1/2"
      using z by (simp only: xm True abs_less_iff) linarith
    then have "half_even_int (y * 1000 * 2 ^ 12) = m * 2 ^ 12" by (intro half_even_int_near) simp
    then show ?thesis by (simp add: weq)
  next
    case False
    with r have "1 \<le> r" "r \<le> 999" by simp_all
    then have "(1 :: rat) \<le> of_int r" "of_int r \<le> (999 :: rat)"
      by (metis of_int_le_iff of_int_1, metis of_int_le_iff of_int_numeral)
    then show ?thesis using z w unfolding xm by linarith
  qed
  moreover have "0 \<le> w" using w \<open>1099511627776 \<le> y * 1000\<close> by linarith
  ultimately have "py_int w = m" by (simp add: py_int_def floor_unique)
  then show ?thesis by (simp add: instant_millis_def timestamp_def w_def y_def x_def m_def)
qed

lemma float_of_bound: "\<bar>float_of x\<bar> \<le> 2 * \<bar>x\<bar>"
proof -
  have "\<bar>float_of x - x\<bar> \<le> \<bar>x\<bar> / 2 ^ 52" using sig_round_error [of 2 52 x] by (simp add: float_of_def)
  also have "\<dots> \<le> \<bar>x\<bar>" by simp
  finally show ?thesis by linarith
qed

lemma instant_millis_small:
  assumes "\<bar>t\<bar> < 2 ^ 60"
  shows "instant_millis t < 2 ^ 55"
proof -
  have "\<bar>of_int t :: rat\<bar> < 2 ^ 60" using assms by (metis of_int_abs of_int_less_iff of_int_numeral of_int_power)
  then have "\<bar>of_int t / 1000000 :: rat\<bar> < 2 ^ 60 / 1000000" by (simp add: divide_strict_right_mono)
  then have "\<bar>timestamp t * 1000\<bar> < 2 ^ 61 / 1000"
    using float_of_bound [of "of_int t / 1000000"] by (simp add: timestamp_def abs_mult)
  then have "\<bar>float_of (timestamp t * 1000)\<bar> < 2 ^ 62 / 1000"
    using float_of_bound [of "timestamp t * 1000"] by simp
  then have "float_of (timestamp t * 1000) < 36028797018963968"
    using abs_ge_self [of "float_of (timestamp t * 1000)"] by simp
  then have "py_int (float_of (timestamp t * 1000)) < 2 ^ 55"
  proof (cases "0 \<le> float_of (timestamp t * 1000)")
    case True
    then show ?thesis using \<open>float_of (timestamp t * 1000) < _\<close> by (simp add: py_int_def floor_less_iff)
  next
    case False
    then have "py_int (float_of (timestamp t * 1000)) \<le> 0" by (simp add: py_int_def)
    also have "0 < (2 :: int) ^ 55" by simp
    finally show ?thesis .
  qed
  then show ?thesis by (simp add: instant_millis_def)
qed


section \<open>Prefix codes\<close>

text \<open>
  What an encoder must promise for a concatenation of its outputs to be read back: on the values it is
  used on, the bytes determine the value (up to \<open>content\<close>, what is meant to be encoded) and where they end.
\<close>

locale prefix_code =
  fixes good :: "'a \<Rightarrow> bool" and enc :: "'a \<Rightarrow> bytes result" and content :: "'a \<Rightarrow> 'b"
  assumes decodable:
    "good x \<Longrightarrow> good y \<Longrightarrow> enc x = Inr a \<Longrightarrow> enc y = Inr b \<Longrightarrow> a @ r = b @ s \<Longrightarrow> content x = content y \<and> r = s"
begin

lemma encoding_determines:
  assumes "good x" "good y" "enc x = Inr a" "enc y = Inr a"
  shows "content x = content y"
  using decodable [OF assms, of "[]" "[]"] by simp

lemma no_proper_prefix:
  assumes "good x" "good y" "enc x = Inr a" "enc y = Inr (a @ b)"
  shows "b = []"
  using decodable [OF assms, of b "[]"] by simp

end

lemma be_bytes_Suc: "be_bytes (Suc n) v = be_bytes n (v div 256) @ [word_of_int v]"
proof -
  have "v div 256 ^ (n - i) = v div 256 div 256 ^ (n - 1 - i)" if "i < n" for i
  proof -
    have "n - i = Suc (n - 1 - i)" using that by simp
    then show ?thesis by (simp add: zdiv_zmult2_eq)
  qed
  then show ?thesis by (auto simp: be_bytes_def)
qed

lemma be_bytes_0 [simp]: "be_bytes 0 v = []"
  by (simp add: be_bytes_def)

lemma word_of_int_byte_eq: "(word_of_int v :: byte) = word_of_int w \<longleftrightarrow> v mod 256 = w mod 256"
  by (simp add: word_of_int_eq_iff take_bit_eq_mod)

lemma be_bytes_mod: "be_bytes n v = be_bytes n w \<longleftrightarrow> v mod 256 ^ n = w mod 256 ^ n"
proof (induction n arbitrary: v w)
  case (Suc n)
  have "v mod (256 * 256 ^ n) = w mod (256 * 256 ^ n) \<longleftrightarrow>
    v mod 256 = w mod 256 \<and> (v div 256) mod 256 ^ n = (w div 256) mod 256 ^ n"
  proof -
    define P :: int where "P = 256 ^ n"
    have P: "0 < P" by (simp add: P_def)
    have split: "u mod (256 * P) = 256 * (u div 256 mod P) + u mod 256" for u :: int
      using P by (simp add: zmod_zmult2_eq)
    have join: "256 * a + b = 256 * a' + b' \<longleftrightarrow> b = b' \<and> a = a'"
      if "0 \<le> b" "b < 256" "0 \<le> b'" "b' < 256" for a b a' b' :: int
    proof
      assume eq: "256 * a + b = 256 * a' + b'"
      from eq that have "\<not> a < a'" "\<not> a' < a" by linarith+
      with eq show "b = b' \<and> a = a'" by simp
    qed simp
    show ?thesis unfolding P_def [symmetric] split by (rule join) simp_all
  qed
  then show ?case by (auto simp: be_bytes_Suc Suc.IH word_of_int_byte_eq)
qed simp

lemma be_bytes_inj:
  "0 \<le> v \<Longrightarrow> v < 256 ^ n \<Longrightarrow> 0 \<le> w \<Longrightarrow> w < 256 ^ n \<Longrightarrow> be_bytes n v = be_bytes n w \<Longrightarrow> v = w"
  by (simp add: be_bytes_mod)

lemma enc_u32_ok: "enc_u32 v = Inr a \<longleftrightarrow> 0 \<le> v \<and> v \<le> 0xFFFFFFFF \<and> a = be_bytes 4 v"
  by (auto simp: enc_u32_def)

lemma enc_u64_ok: "enc_u64 v = Inr a \<longleftrightarrow> 0 \<le> v \<and> v \<le> 0xFFFFFFFFFFFFFFFF \<and> a = be_bytes 8 v"
  by (auto simp: enc_u64_def)

lemma enc_int_ok: "enc_int v = Inr a \<longleftrightarrow> - (2 ^ 127) \<le> v \<and> v < 2 ^ 127 \<and> a = be_bytes 16 v"
  by (auto simp: enc_int_def INT_WIDTH_def)

interpretation u32: prefix_code "\<lambda>_. True" enc_u32 id
proof
  fix v w a b r s
  assume "enc_u32 v = Inr a" "enc_u32 w = Inr b" and eq: "a @ r = b @ s"
  then have ok: "0 \<le> v" "v < 256 ^ 4" "0 \<le> w" "w < 256 ^ 4" "a = be_bytes 4 v" "b = be_bytes 4 w"
    by (auto simp: enc_u32_ok)
  from eq ok(5,6) have "be_bytes 4 v = be_bytes 4 w" "r = s" by simp_all
  then show "id v = id w \<and> r = s" using be_bytes_inj [OF ok(1-4)] by simp
qed

interpretation i128: prefix_code "\<lambda>_. True" enc_int id
proof
  fix v w a b r s
  assume "enc_int v = Inr a" "enc_int w = Inr b" and eq: "a @ r = b @ s"
  then have ok: "- (2 ^ 127) \<le> v" "v < 2 ^ 127" "- (2 ^ 127) \<le> w" "w < 2 ^ 127"
    "a = be_bytes 16 v" "b = be_bytes 16 w"
    by (auto simp: enc_int_ok)
  from eq ok(5,6) have "be_bytes 16 v = be_bytes 16 w" "r = s" by simp_all
  then have "v mod 2 ^ 128 = w mod 2 ^ 128" by (simp add: be_bytes_mod)
  then have "(v + 2 ^ 127) mod 2 ^ 128 = (w + 2 ^ 127) mod 2 ^ 128" by (metis mod_add_left_eq)
  then show "id v = id w \<and> r = s" using ok \<open>r = s\<close> by simp
qed

text \<open>A length-prefixed byte string; \<^verbatim>\<open>ABSENT\<close> is told from a length as long as no string is that long.\<close>

definition good_bytes :: "bytes option \<Rightarrow> bool" where
  "good_bytes v = (case v of None \<Rightarrow> True | Some bs \<Rightarrow> int (length bs) < ABSENT)"

definition length_mark :: "bytes option \<Rightarrow> int" where
  "length_mark v = (case v of None \<Rightarrow> ABSENT | Some bs \<Rightarrow> int (length bs))"

lemma enc_bytes_ok:
  "enc_bytes v = Inr a \<longleftrightarrow>
     (\<exists>n. enc_u32 (length_mark v) = Inr n \<and> a = n @ (case v of None \<Rightarrow> [] | Some bs \<Rightarrow> bs))"
  by (cases v) (auto simp: length_mark_def)

interpretation byte_string: prefix_code good_bytes enc_bytes id
proof
  fix v w a b r s
  assume good: "good_bytes v" "good_bytes w" and "enc_bytes v = Inr a" "enc_bytes w = Inr b" and eq: "a @ r = b @ s"
  then obtain m n where
    m: "enc_u32 (length_mark v) = Inr m" "a = m @ (case v of None \<Rightarrow> [] | Some bs \<Rightarrow> bs)" and
    n: "enc_u32 (length_mark w) = Inr n" "b = n @ (case w of None \<Rightarrow> [] | Some bs \<Rightarrow> bs)"
    unfolding enc_bytes_ok by blast
  have "length_mark v = length_mark w \<and>
      (case v of None \<Rightarrow> [] | Some bs \<Rightarrow> bs) @ r = (case w of None \<Rightarrow> [] | Some bs \<Rightarrow> bs) @ s"
    using u32.decodable [OF _ _ m(1) n(1)] eq by (simp add: m(2) n(2))
  then show "id v = id w \<and> r = s"
    using good by (auto simp: good_bytes_def length_mark_def split: option.splits)
qed

text \<open>A field reduced to a code by a function that loses nothing of interest is a code.\<close>

lemma prefix_code_pull:
  assumes code: "prefix_code good enc id" and "\<And>x. enc' x = enc (f x)" and "\<And>x. good' x \<Longrightarrow> good (f x)"
    and inj: "\<And>x y. good' x \<Longrightarrow> good' y \<Longrightarrow> f x = f y \<Longrightarrow> content x = content y"
  shows "prefix_code good' enc' content"
proof
  fix x y a b r s
  assume *: "good' x" "good' y" "enc' x = Inr a" "enc' y = Inr b" "a @ r = b @ s"
  have "id (f x) = id (f y) \<and> r = s"
    by (rule prefix_code.decodable [OF code assms(3) [OF *(1)] assms(3) [OF *(2)]])
       (use * assms(2) in simp_all)
  then show "content x = content y \<and> r = s" using inj [OF *(1,2)] by simp
qed

lemma of_nat_byte_eq: "m < 256 \<Longrightarrow> n < 256 \<Longrightarrow> (of_nat m :: byte) = of_nat n \<longleftrightarrow> m = n"
  by (simp add: word_of_nat_eq_iff take_bit_eq_mod)

lemma utf8_char_prefix: "utf8_char c @ r = utf8_char d @ s \<Longrightarrow> c = d \<and> r = s"
proof -
  define m n where "m = (of_char c :: nat)" and "n = (of_char d :: nat)"
  have b: "m < 256" "n < 256" by (simp_all add: m_def n_def)
  have small: "192 + m div 64 < 256" "192 + n div 64 < 256" "128 + m mod 64 < 256" "128 + n mod 64 < 256"
    using b by (auto simp: less_mult_imp_div_less)
  assume eq: "utf8_char c @ r = utf8_char d @ s"
  have "m = n \<and> r = s"
  proof (cases "m < 128"; cases "n < 128")
    assume "\<not> m < 128" "\<not> n < 128"
    with eq have *: "(of_nat (192 + m div 64) :: byte) = of_nat (192 + n div 64)"
        "(of_nat (128 + m mod 64) :: byte) = of_nat (128 + n mod 64)" "r = s"
      by (simp_all add: utf8_char_def Let_def m_def n_def del: of_nat_add)
    then have "m div 64 = n div 64" "m mod 64 = n mod 64"
      using small by (simp_all add: of_nat_byte_eq del: of_nat_add)
    then show ?thesis using *(3) by (metis div_mult_mod_eq)
  qed (use eq b small in \<open>auto simp: utf8_char_def Let_def of_nat_byte_eq simp flip: m_def n_def simp del: of_nat_add\<close>)
  then show ?thesis by (simp add: m_def n_def)
qed

lemma utf8_char_nonempty: "utf8_char c \<noteq> []"
  by (simp add: utf8_char_def Let_def)

lemma utf8_inj: "utf8 s = utf8 t \<Longrightarrow> s = t"
proof (induction s arbitrary: t)
  case Nil
  then show ?case by (cases t) (auto simp: utf8_def utf8_char_nonempty)
next
  case (Cons c s)
  then obtain d t' where t: "t = d # t'" by (cases t) (auto simp: utf8_def utf8_char_nonempty)
  with Cons.prems have "c = d \<and> utf8 s = utf8 t'" by (auto simp: utf8_def dest: utf8_char_prefix)
  with Cons.IH t show ?case by blast
qed

text \<open>The values each kind of field can hold in the database.\<close>

definition good_str :: "string option \<Rightarrow> bool" where
  "good_str v = good_bytes (map_option utf8 v)"

definition good_uuid :: "uuid option \<Rightarrow> bool" where
  "good_uuid v = (case v of None \<Rightarrow> True | Some u \<Rightarrow> 0 \<le> u \<and> u < 2 ^ 128)"

definition good_date :: "date option \<Rightarrow> bool" where
  "good_date v = (case v of None \<Rightarrow> True | Some d \<Rightarrow> 1 \<le> d \<and> d \<le> 3652059)"

definition good_instant :: "instant option \<Rightarrow> bool" where
  "good_instant v = (case v of None \<Rightarrow> True | Some t \<Rightarrow> 0 \<le> t \<and> t \<le> 253402300799999999)"

definition good_money :: "decimal option \<Rightarrow> bool" where
  "good_money v = (case v of None \<Rightarrow> True | Some x \<Rightarrow> money_ok x)"

lemma enc_str_bytes: "enc_str v = enc_bytes (map_option utf8 v)"
  by (cases v) auto

lemma enc_uuid_bytes: "enc_uuid v = enc_bytes (map_option (be_bytes 16) v)"
  by (cases v) auto

interpretation str_code: prefix_code good_str enc_str id
  by (rule prefix_code_pull [OF byte_string.prefix_code_axioms, where f = "map_option utf8"])
     (auto simp: enc_str_bytes simp: good_str_def map_option_case split: option.splits dest: utf8_inj)

interpretation uuid_code: prefix_code good_uuid enc_uuid id
  by (rule prefix_code_pull [OF byte_string.prefix_code_axioms, where f = "map_option (be_bytes 16)"])
     (auto simp: enc_uuid_bytes simp: good_uuid_def good_bytes_def ABSENT_def map_option_case be_bytes_mod split: option.splits)

definition date_mark :: "date option \<Rightarrow> int" where
  "date_mark v = (case v of None \<Rightarrow> ABSENT | Some d \<Rightarrow> ord_year d * 10000 + ord_month d * 100 + ord_day d)"

lemma enc_date_mark: "enc_date v = enc_u32 (date_mark v)"
  by (cases v) (auto simp: date_mark_def)

lemma ord_year_range:
  assumes "1 \<le> d" "d \<le> 3652059"
  shows "1 \<le> ord_year d" "ord_year d \<le> 9999"
proof -
  have "days_before_year 10000 = 3652059" "days_before_year 1 = 0" by (simp_all add: days_before_year_def)
  then show "1 \<le> ord_year d" "ord_year d \<le> 9999"
    using ord_year_bounds [of d] assms days_before_year_mono [of 10000 "ord_year d"]
      days_before_year_mono [of "ord_year d + 1" 1] by linarith+
qed

lemma date_mark_some:
  assumes "1 \<le> d" "d \<le> 3652059"
  shows "0 \<le> ord_year d * 10000 + ord_month d * 100 + ord_day d"
    "ord_year d * 10000 + ord_month d * 100 + ord_day d \<le> 99991299"
  using ord_year_range [OF assms] ord_ranges [of d] monthrange_bounds [of "ord_month d" "ord_year d"] by linarith+

lemma date_mark_ymd:
  assumes "ord_year d * 10000 + ord_month d * 100 + ord_day d =
    ord_year d' * 10000 + ord_month d' * 100 + ord_day d'"
  shows "d = d'"
proof -
  have dm: "1 \<le> ord_month d" "ord_month d \<le> 12" "1 \<le> ord_month d'" "ord_month d' \<le> 12"
      "1 \<le> ord_day d" "ord_day d \<le> 31" "1 \<le> ord_day d'" "ord_day d' \<le> 31"
    using ord_ranges [of d] ord_ranges [of d'] monthrange_bounds [of "ord_month d" "ord_year d"]
      monthrange_bounds [of "ord_month d'" "ord_year d'"] by linarith+
  then have "\<not> ord_year d < ord_year d'" "\<not> ord_year d' < ord_year d" using assms by linarith+
  then have y: "ord_year d = ord_year d'" by linarith
  then have "\<not> ord_month d < ord_month d'" "\<not> ord_month d' < ord_month d" using assms dm by linarith+
  then have m: "ord_month d = ord_month d'" by linarith
  with y assms have "ord_day d = ord_day d'" by linarith
  with y m show ?thesis by (metis ymd_ord_of_ord)
qed

lemma date_mark_inj:
  assumes "good_date v" "good_date w" "date_mark v = date_mark w"
  shows "v = w"
proof -
  have "date_mark (Some d) \<noteq> ABSENT" if "good_date (Some d)" for d
    using date_mark_some(2) [of d] that by (simp add: good_date_def date_mark_def ABSENT_def)
  note absent = this this [symmetric]
  show ?thesis
  proof (cases v; cases w)
    fix d d' assume "v = Some d" "w = Some d'"
    with assms(3) show ?thesis by (auto simp: date_mark_def intro: date_mark_ymd)
  qed (use assms absent in \<open>auto simp: date_mark_def [of None]\<close>)
qed

interpretation date_code: prefix_code good_date enc_date id
  by (rule prefix_code_pull [OF u32.prefix_code_axioms, where f = date_mark])
     (auto simp: enc_date_mark dest: date_mark_inj)

text \<open>
  An instant is eight bytes or the four of \<^verbatim>\<open>ABSENT\<close>; no instant of the calendar starts with those.
\<close>

lemma instant_millis_bound: "good_instant (Some t) \<Longrightarrow> instant_millis t < 2 ^ 55"
  by (rule instant_millis_small) (simp add: good_instant_def)

lemma be_bytes_split: "be_bytes (m + n) v = be_bytes m (v div 256 ^ n) @ be_bytes n v"
proof (induction n arbitrary: v)
  case (Suc n)
  then show ?case by (simp add: be_bytes_Suc zdiv_zmult2_eq)
qed simp

interpretation instant_code: prefix_code good_instant enc_instant "map_option instant_millis"
proof
  fix v w a b r s
  assume good: "good_instant v" "good_instant w" and enc: "enc_instant v = Inr a" "enc_instant w = Inr b"
    and eq: "a @ r = b @ s"
  have no: "be_bytes 4 ABSENT @ x \<noteq> be_bytes 8 (instant_millis t) @ y"
    if "good_instant (Some t)" "0 \<le> instant_millis t" for t x y
  proof
    assume *: "be_bytes 4 ABSENT @ x = be_bytes 8 (instant_millis t) @ y"
    have "be_bytes 4 ABSENT = be_bytes 4 (instant_millis t div 256 ^ 4)"
      using * be_bytes_split [of 4 4 "instant_millis t"] by simp
    moreover have "0 \<le> instant_millis t div 256 ^ 4" "instant_millis t div 256 ^ 4 < 2 ^ 23"
      using that instant_millis_bound [OF that(1)] by (simp_all add: pos_imp_zdiv_nonneg_iff div_less_iff_less_mult)
    ultimately show False by (simp add: be_bytes_mod ABSENT_def)
  qed
  show "map_option instant_millis v = map_option instant_millis w \<and> r = s"
  proof (cases v; cases w)
    fix t u assume v: "v = Some t" and w: "w = Some u"
    have "be_bytes 8 (instant_millis t) = be_bytes 8 (instant_millis u)" "r = s"
      using enc eq by (auto simp: v w enc_u64_ok)
    moreover have "0 \<le> instant_millis t" "instant_millis t < 256 ^ 8" "0 \<le> instant_millis u" "instant_millis u < 256 ^ 8"
      using enc by (auto simp: v w enc_u64_ok)
    ultimately show ?thesis using be_bytes_inj [of "instant_millis t" 8 "instant_millis u"] by (simp add: v w)
  qed (use good enc eq no no [symmetric] in \<open>auto simp: enc_u32_ok enc_u64_ok\<close>)
qed

text \<open>Money loses nothing but the difference between an absent amount and zero.\<close>

definition amount_of :: "decimal option \<Rightarrow> decimal" where
  "amount_of v = (case v of None \<Rightarrow> 0 | Some x \<Rightarrow> x)"

lemma money_minor_exact:
  assumes "good_money v"
  obtains n where "money_minor v = Inr n" "of_int n = amount_of v * 10 ^ 4" "\<bar>n\<bar> < 10 ^ 18"
proof (cases v)
  case None
  then show ?thesis using that [of 0] by (simp add: amount_of_def)
next
  case (Some x)
  with assms have "on_grid 4 x" and small: "\<bar>x\<bar> < 10 ^ 14" by (simp_all add: good_money_def money_ok_def)
  from this(1) obtain n where n: "x = of_int n / 10 ^ 4" by (rule on_gridE)
  have int: "on_grid 0 (of_int n)" by (simp add: on_grid_def)
  have abs: "\<bar>of_int n :: rat\<bar> < 10 ^ 18" using small by (simp add: n)
  have scaled: "x * 10 ^ 4 = of_int n" by (simp add: n)
  have "\<bar>of_int n :: rat\<bar> * 10 ^ 0 < 10 ^ 28" using abs by simp
  then have "ctx_round (x * 10 ^ 4) = of_int n" unfolding scaled by (rule ctx_round_exact [OF int])
  then have "money_minor v = Inr n" by (simp only: Some money_minor.simps MONEY_SCALE_def Let_def half_even_int_of_int) simp
  moreover have "(of_int \<bar>n\<bar> :: rat) < of_int (10 ^ 18)" using abs by simp
  then have "\<bar>n\<bar> < 10 ^ 18" by (simp only: of_int_less_iff)
  ultimately show ?thesis using that [of n] scaled by (simp only: Some amount_of_def option.case)
qed

interpretation money_code: prefix_code good_money enc_money amount_of
proof
  fix v w a b r s
  assume good: "good_money v" "good_money w" and enc: "enc_money v = Inr a" "enc_money w = Inr b" and eq: "a @ r = b @ s"
  obtain m where m: "money_minor v = Inr m" "of_int m = amount_of v * 10 ^ 4" using good(1) by (rule money_minor_exact)
  obtain n where n: "money_minor w = Inr n" "of_int n = amount_of w * 10 ^ 4" using good(2) by (rule money_minor_exact)
  have "id m = id n \<and> r = s"
    by (rule i128.decodable) (use enc eq m n in \<open>simp_all add: enc_money_def\<close>)
  then show "amount_of v = amount_of w \<and> r = s" using m(2) n(2) by simp
qed

section \<open>Fields and entries\<close>

fun kind_of :: "field \<Rightarrow> string" where
  "kind_of (Uuid u) = ''uuid''"
| "kind_of (Str s) = ''str''"
| "kind_of (Date d) = ''date''"
| "kind_of (Money m) = ''money''"
| "kind_of (Instant t) = ''instant''"
| "kind_of (U32 n) = ''u32''"

fun good_field :: "field \<Rightarrow> bool" where
  "good_field (Uuid u) = good_uuid u"
| "good_field (Str s) = good_str s"
| "good_field (Date d) = good_date d"
| "good_field (Money m) = good_money m"
| "good_field (Instant t) = good_instant t"
| "good_field (U32 n) = True"

text \<open>What a field's bytes say: an amount instead of an optional one, an instant in milliseconds.\<close>

fun field_content :: "field \<Rightarrow> field" where
  "field_content (Money m) = Money (Some (amount_of m))"
| "field_content (Instant t) = Instant (map_option instant_millis t)"
| "field_content f = f"

lemma field_decodable:
  assumes "kind_of f = kind_of g" "good_field f" "good_field g" "encode_field f = Inr a" "encode_field g = Inr b"
    "a @ r = b @ s"
  shows "field_content f = field_content g \<and> r = s"
proof (cases f)
  case (Uuid x)
  with assms(1) obtain y where "g = Uuid y" by (cases g) auto
  with Uuid show ?thesis using uuid_code.decodable [where x = x and y = y and a = a and b = b and r = r and s = s] assms(2-6) by simp
next
  case (Str x)
  with assms(1) obtain y where "g = Str y" by (cases g) auto
  with Str show ?thesis using str_code.decodable [where x = x and y = y and a = a and b = b and r = r and s = s] assms(2-6) by simp
next
  case (Date x)
  with assms(1) obtain y where "g = Date y" by (cases g) auto
  with Date show ?thesis using date_code.decodable [where x = x and y = y and a = a and b = b and r = r and s = s] assms(2-6) by simp
next
  case (Money x)
  with assms(1) obtain y where "g = Money y" by (cases g) auto
  with Money show ?thesis using money_code.decodable [where x = x and y = y and a = a and b = b and r = r and s = s] assms(2-6) by simp
next
  case (Instant x)
  with assms(1) obtain y where "g = Instant y" by (cases g) auto
  with Instant show ?thesis using instant_code.decodable [where x = x and y = y and a = a and b = b and r = r and s = s] assms(2-6) by simp
next
  case (U32 x)
  with assms(1) obtain y where "g = U32 y" by (cases g) auto
  with U32 show ?thesis using u32.decodable [where x = x and y = y and a = a and b = b and r = r and s = s] assms(2-6) by simp
qed

interpretation field_list: prefix_code
  "\<lambda>fs. map kind_of fs = ks \<and> list_all good_field fs" encode_fields "map field_content" for ks
proof
  fix fs gs a b r s
  assume "map kind_of fs = ks \<and> list_all good_field fs" "map kind_of gs = ks \<and> list_all good_field gs"
    "encode_fields fs = Inr a" "encode_fields gs = Inr b" "a @ r = b @ s"
  then show "map field_content fs = map field_content gs \<and> r = s"
  proof (induction fs arbitrary: gs ks a b)
    case Nil
    then show ?case by auto
  next
    case (Cons f fs)
    from Cons.prems obtain g gs' where gs: "gs = g # gs'" by auto
    from Cons.prems obtain a1 a2 b1 b2 where
      a: "encode_field f = Inr a1" "encode_fields fs = Inr a2" "a = a1 @ a2" and
      b: "encode_field g = Inr b1" "encode_fields gs' = Inr b2" "b = b1 @ b2"
      by (auto simp: gs)
    have "field_content f = field_content g \<and> a2 @ r = b2 @ s"
      by (rule field_decodable [of f g a1 b1]) (use Cons.prems gs a b in auto)
    moreover from this have "map field_content fs = map field_content gs' \<and> r = s"
      using Cons.IH [of "tl ks" gs' a2 b2] Cons.prems gs a b by auto
    ultimately show ?case by (simp add: gs)
  qed
qed

definition good_payload :: "entry_payload \<Rightarrow> bool" where
  "good_payload p \<longleftrightarrow>
     list_all good_field (entry_fields p) \<and> list_all (\<lambda>l. list_all good_field (line_fields l)) (ep_lines p)"

definition payload_content :: "entry_payload \<Rightarrow> field list \<times> field list list" where
  "payload_content p =
     (map field_content (entry_fields p),
      map (\<lambda>l. map field_content (line_fields l)) (sort_key lp_line_number (ep_lines p)))"

lemma entry_kinds: "map kind_of (entry_fields p) = map kind_of (entry_fields q)"
  by (simp add: entry_fields_def)

lemma lines_kinds:
  "length ls = length ms \<Longrightarrow>
   map kind_of (concat (map line_fields ls)) = map kind_of (concat (map line_fields ms))"
  by (induction ls ms rule: list_induct2) (simp_all add: line_fields_def)

lemma lines_content:
  "length ls = length ms \<Longrightarrow>
   map field_content (concat (map line_fields ls)) = map field_content (concat (map line_fields ms)) \<Longrightarrow>
   map (\<lambda>l. map field_content (line_fields l)) ls = map (\<lambda>l. map field_content (line_fields l)) ms"
  by (induction ls ms rule: list_induct2) (simp_all add: line_fields_def)

lemma encode_entryE:
  assumes "encode_entry p = Inr b"
  obtains kind head n tail where "enc_str (Some KIND_JOURNAL_ENTRY) = Inr kind"
    "encode_fields (entry_fields p) = Inr head" "ep_lines p \<noteq> []"
    "enc_u32 (int (length (sort_key lp_line_number (ep_lines p)))) = Inr n"
    "encode_fields (concat (map line_fields (sort_key lp_line_number (ep_lines p)))) = Inr tail"
    "b = [of_int CANONICAL_VERSION] @ kind @ head @ n @ tail"
proof -
  have "sort_key lp_line_number (ep_lines p) = [] \<longleftrightarrow> ep_lines p = []"
    by (metis length_0_conv length_sort)
  then show ?thesis using assms that by (auto simp: encode_entry_def Let_def)
qed

lemma good_lines:
  "good_payload p \<Longrightarrow> list_all good_field (concat (map line_fields (sort_key lp_line_number (ep_lines p))))"
  by (auto simp: good_payload_def list_all_iff)

interpretation entry_code: prefix_code good_payload encode_entry payload_content
proof
  fix p q a b r s
  assume good: "good_payload p" "good_payload q" and enc: "encode_entry p = Inr a" "encode_entry q = Inr b"
    and eq: "a @ r = b @ s"
  define ls where "ls = sort_key lp_line_number (ep_lines p)"
  define ms where "ms = sort_key lp_line_number (ep_lines q)"
  obtain kind h1 n1 t1 where p: "enc_str (Some KIND_JOURNAL_ENTRY) = Inr kind" "encode_fields (entry_fields p) = Inr h1"
      "enc_u32 (int (length ls)) = Inr n1" "encode_fields (concat (map line_fields ls)) = Inr t1"
      "a = [of_int CANONICAL_VERSION] @ kind @ h1 @ n1 @ t1"
    using enc(1) unfolding ls_def by (rule encode_entryE)
  obtain kind' h2 n2 t2 where q: "enc_str (Some KIND_JOURNAL_ENTRY) = Inr kind'" "encode_fields (entry_fields q) = Inr h2"
      "enc_u32 (int (length ms)) = Inr n2" "encode_fields (concat (map line_fields ms)) = Inr t2"
      "b = [of_int CANONICAL_VERSION] @ kind' @ h2 @ n2 @ t2"
    using enc(2) unfolding ms_def by (rule encode_entryE)
  have "h1 @ (n1 @ t1 @ r) = h2 @ (n2 @ t2 @ s)" using eq p(1,5) q(1,5) by simp
  then have fields: "map field_content (entry_fields p) = map field_content (entry_fields q)"
    and "n1 @ (t1 @ r) = n2 @ (t2 @ s)"
    using field_list.decodable [OF _ _ p(2) q(2)] good entry_kinds by (auto simp: good_payload_def)
  then have len: "length ls = length ms" and "t1 @ r = t2 @ s"
    using u32.decodable [OF _ _ p(3) q(3)] by auto
  then have "map field_content (concat (map line_fields ls)) = map field_content (concat (map line_fields ms)) \<and> r = s"
    using field_list.decodable [OF _ _ p(4) q(4)] good_lines [OF good(1), folded ls_def]
      good_lines [OF good(2), folded ms_def] lines_kinds [OF len] by blast
  then show "payload_content p = payload_content q \<and> r = s"
    using fields lines_content [OF len] by (simp add: payload_content_def ls_def ms_def)
qed

section \<open>Entries of the ledger\<close>

text \<open>The values of an entry fit its columns and Python's types.\<close>

definition storable :: "journal_entry \<Rightarrow> bool" where
  "storable e \<longleftrightarrow> good_payload (payload_from_entry e)"

text \<open>Two entries say the same to a verifier.\<close>

definition same_record :: "journal_entry \<Rightarrow> journal_entry \<Rightarrow> bool" where
  "same_record e e' \<longleftrightarrow>
     e_org e = e_org e' \<and> e_id e = e_id e' \<and> e_number e = e_number e' \<and> e_date e = e_date e' \<and>
     e_currency e = e_currency e' \<and> e_total_debit e = e_total_debit e' \<and> e_total_credit e = e_total_credit e' \<and>
     e_narration e = e_narration e' \<and> e_reference e = e_reference e' \<and> e_counterparty e = e_counterparty e' \<and>
     e_source_type e = e_source_type e' \<and> e_source_id e = e_source_id e' \<and> e_reverses e = e_reverses e' \<and>
     map_option instant_millis (e_posted_at e) = map_option instant_millis (e_posted_at e') \<and>
     sort_key l_number (e_lines e) = sort_key l_number (e_lines e')"

lemma sorted_payload_lines:
  "sort_key lp_line_number (ep_lines (payload_from_entry e)) = map line_payload_of (sort_key l_number (e_lines e))"
  by (simp add: payload_from_entry_def sort_key_id_if_sorted line_payload_of_def comp_def)

lemma line_content_inj:
  "map field_content (line_fields (line_payload_of l)) = map field_content (line_fields (line_payload_of m)) \<Longrightarrow> l = m"
  by (cases l; cases m) (simp add: line_fields_def line_payload_of_def amount_of_def)

lemma lines_content_inj:
  "map (\<lambda>l. map field_content (line_fields (line_payload_of l))) ls =
   map (\<lambda>l. map field_content (line_fields (line_payload_of l))) ms \<Longrightarrow> ls = ms"
proof (induction ls arbitrary: ms)
  case (Cons l ls)
  then show ?case by (cases ms) (auto dest: line_content_inj)
qed simp

lemma payload_content_same_record:
  assumes "payload_content (payload_from_entry e) = payload_content (payload_from_entry e')"
  shows "same_record e e'"
proof -
  have "sort_key l_number (e_lines e) = sort_key l_number (e_lines e')"
    using assms by (intro lines_content_inj) (simp add: payload_content_def sorted_payload_lines comp_def)
  with assms show ?thesis
    by (simp add: same_record_def payload_content_def entry_fields_def payload_from_entry_def amount_of_def)
qed

lemma encoding_same_record:
  assumes "storable e" "storable e'"
    "encode_entry (payload_from_entry e) = Inr b" "encode_entry (payload_from_entry e') = Inr b"
  shows "same_record e e'"
  using entry_code.encoding_determines [OF assms(1,2) [unfolded storable_def] assms(3,4)]
  by (rule payload_content_same_record)

lemma encode_field_ok:
  assumes "good_field f" "\<And>n. f = U32 n \<Longrightarrow> 0 \<le> n \<and> n \<le> 0xFFFFFFFF" "\<And>t. f = Instant (Some t) \<Longrightarrow> 0 \<le> instant_millis t"
  shows "is_ok (encode_field f)"
proof -
  have bytes: "is_ok (enc_bytes v)" if "good_bytes v" for v
    using that by (auto simp: good_bytes_def enc_u32_def ABSENT_def is_ok_iff split: option.splits)
  show ?thesis
  proof (cases f)
    case (Uuid u)
    have "is_ok (enc_uuid u)" unfolding enc_uuid_bytes by (rule bytes) (auto simp: good_bytes_def ABSENT_def split: option.split)
    then show ?thesis by (simp add: Uuid)
  next
    case (Str s)
    have "is_ok (enc_str s)" unfolding enc_str_bytes by (rule bytes) (use assms(1) in \<open>simp add: Str good_str_def\<close>)
    then show ?thesis by (simp add: Str)
  next
    case (Date d)
    then show ?thesis using assms(1) date_mark_some [of "the d"]
      by (cases d) (simp_all add: good_date_def enc_u32_def ABSENT_def)
  next
    case (Money m)
    then have "good_money m" using assms(1) by simp
    then obtain n where "money_minor m = Inr n" "\<bar>n\<bar> < 10 ^ 18" by (rule money_minor_exact)
    then show ?thesis by (simp add: Money enc_money_def enc_int_def INT_WIDTH_def abs_less_iff)
  next
    case (Instant t)
    then show ?thesis using assms(1,3) instant_millis_bound [of "the t"]
      by (cases t) (simp_all add: enc_u32_def enc_u64_def ABSENT_def)
  next
    case (U32 n)
    then show ?thesis using assms(2) by (simp add: enc_u32_def)
  qed
qed

lemma encode_fields_ok: "(\<And>f. f \<in> set fs \<Longrightarrow> is_ok (encode_field f)) \<Longrightarrow> is_ok (encode_fields fs)"
  by (induction fs) (auto simp: is_ok_iff bindr_eq_Inr_iff)

lemma py_int_nonneg: "0 \<le> x \<Longrightarrow> 0 \<le> py_int x"
  by (simp add: py_int_def)

lemma float_of_nonneg: "0 \<le> x \<Longrightarrow> 0 \<le> float_of x"
  by (simp add: float_of_def sig_round_def Let_def half_even_int_nonneg)

lemma instant_millis_nonneg: "0 \<le> t \<Longrightarrow> 0 \<le> instant_millis t"
  by (simp add: instant_millis_def timestamp_def py_int_nonneg float_of_nonneg)

lemma good_field_encodes: "good_field f \<Longrightarrow> (\<And>n. f = U32 n \<Longrightarrow> 0 \<le> n \<and> n \<le> 0xFFFFFFFF) \<Longrightarrow> is_ok (encode_field f)"
  by (rule encode_field_ok) (auto simp: good_instant_def instant_millis_nonneg)

lemma storable_encodes:
  assumes "storable e" "e_lines e \<noteq> []" "length (e_lines e) < 2 ^ 32"
    "\<forall>l \<in> set (e_lines e). 0 \<le> l_number l \<and> l_number l < 2 ^ 32"
  shows "is_ok (encode_entry (payload_from_entry e))"
proof -
  define p where "p = payload_from_entry e"
  define ls where "ls = sort_key lp_line_number (ep_lines p)"
  have good: "good_payload p" using assms(1) by (simp add: p_def storable_def)
  have ls: "ls = map line_payload_of (sort_key l_number (e_lines e))"
    unfolding ls_def p_def by (rule sorted_payload_lines)
  have "is_ok (enc_str (Some KIND_JOURNAL_ENTRY))" by code_simp
  moreover have "is_ok (encode_fields (entry_fields p))"
    using good by (intro encode_fields_ok good_field_encodes) (auto simp: good_payload_def list_all_iff entry_fields_def)
  moreover have "is_ok (encode_fields (concat (map line_fields ls)))"
    using good_lines [OF good] assms(4) unfolding ls_def [symmetric]
    by (intro encode_fields_ok good_field_encodes) (auto simp: list_all_iff ls line_fields_def line_payload_of_def)
  moreover have "length ls = length (e_lines e)" by (simp add: ls)
  moreover from this have "is_ok (enc_u32 (int (length ls)))" "ls \<noteq> []"
    using assms(2,3) by (auto simp: enc_u32_def)
  ultimately show ?thesis
    by (auto simp: encode_entry_def is_ok_iff bindr_eq_Inr_iff Let_def p_def ls_def)
qed

section \<open>Properties\<close>

definition sample_entry :: journal_entry where
  "sample_entry =
     \<lparr>e_id = 17, e_org = 900, e_journal = 3, e_period = 5, e_number = Some ''JV/2025-26/00001'',
      e_date = 739702, e_narration = ''Cash sale'', e_reference = None, e_counterparty = None,
      e_status = POSTED, e_total_debit = 2505 / 10, e_total_credit = 2505 / 10, e_currency = ''INR'',
      e_posted_at = Some 1767225600123456, e_posted_by = Some 7, e_created_by = Some 7, e_reversed_at = None,
      e_reverses = None, e_source_type = None, e_source_id = None,
      e_lines = [\<lparr>l_number = 2, l_account = 2, l_debit = 0, l_credit = 2505 / 10, l_description = Some []\<rparr>,
                 \<lparr>l_number = 1, l_account = 1, l_debit = 2505 / 10, l_credit = 0, l_description = None\<rparr>]\<rparr>"

lemma sample_storable: "storable sample_entry"
  by code_simp

text \<open>
  C10. The canonical encoding is injective: two stored entries with the same bytes agree on the
  organization, the id, the number, the date, the currency, both totals, the narration, the references,
  the source, the reversed entry, the posting time to the millisecond, and on every line in line order;
  an absent text differs from an empty one.
\<close>

theorem canonical_injective:
  assumes "storable e" "storable e'"
    and "encode_entry (payload_from_entry e) = Inr b" "encode_entry (payload_from_entry e') = Inr b"
  shows "e_org e = e_org e' \<and> e_id e = e_id e' \<and> e_number e = e_number e' \<and> e_date e = e_date e' \<and>
    e_currency e = e_currency e' \<and> e_total_debit e = e_total_debit e' \<and> e_total_credit e = e_total_credit e' \<and>
    e_narration e = e_narration e' \<and> e_reference e = e_reference e' \<and> e_counterparty e = e_counterparty e' \<and>
    e_source_type e = e_source_type e' \<and> e_source_id e = e_source_id e' \<and> e_reverses e = e_reverses e' \<and>
    map_option instant_millis (e_posted_at e) = map_option instant_millis (e_posted_at e') \<and>
    sort_key l_number (e_lines e) = sort_key l_number (e_lines e')"
  using encoding_same_record [OF assms] by (simp add: same_record_def)

theorem canonical_injective_witness:
  "\<exists>b. encode_entry (payload_from_entry sample_entry) = Inr b \<and>
     encode_entry (payload_from_entry (sample_entry\<lparr>e_status := REVERSED, e_lines := rev (e_lines sample_entry)\<rparr>)) = Inr b \<and>
     sort_key l_number (e_lines sample_entry) = sort_key l_number (rev (e_lines sample_entry))"
proof -
  let ?e = "sample_entry\<lparr>e_status := REVERSED, e_lines := rev (e_lines sample_entry)\<rparr>"
  have ok: "is_ok (encode_entry (payload_from_entry sample_entry))" by code_simp
  then obtain b where b: "encode_entry (payload_from_entry sample_entry) = Inr b" by (auto simp: is_ok_iff)
  have "storable ?e" by code_simp
  moreover have "payload_from_entry ?e = payload_from_entry sample_entry" by code_simp
  ultimately show ?thesis using canonical_injective [OF sample_storable _ b, of ?e] b by simp
qed

text \<open>
  C11. Every stored entry with lines can be sealed: none of the encoders raises on values the columns can
  hold.
\<close>

theorem canonical_total:
  assumes "storable e" "e_lines e \<noteq> []" "length (e_lines e) < 2 ^ 32"
    and "\<forall>l \<in> set (e_lines e). 0 \<le> l_number l \<and> l_number l < 2 ^ 32"
  shows "\<exists>b h. encode_entry (payload_from_entry e) = Inr b \<and> leaf_hash (payload_from_entry e) = Inr h \<and>
    h = sha256 (LEAF_PREFIX @ b) \<and> length h = 32"
  using storable_encodes [OF assms] by (auto simp: is_ok_iff leaf_hash_def leaf_of_bytes_def)

theorem canonical_total_witness:
  "\<exists>b h. encode_entry (payload_from_entry sample_entry) = Inr b \<and>
     leaf_hash (payload_from_entry sample_entry) = Inr h \<and> h = sha256 (LEAF_PREFIX @ b) \<and> length h = 32"
  by (rule canonical_total [OF sample_storable]) (simp_all add: sample_entry_def)

text \<open>
  From 3 November 2004 to 19 January 2038 the floating-point conversion of a timestamp yields exactly
  its whole milliseconds.
\<close>

theorem timestamp_millis_exact:
  assumes "1099511628000000 \<le> t" "t < 2147483648000000"
  shows "enc_instant (Some t) = Inr (be_bytes 8 (t div 1000))"
proof -
  have "0 \<le> t div 1000" "t div 1000 \<le> 0xFFFFFFFFFFFFFFFF" using assms by linarith+
  then show ?thesis by (simp add: instant_millis_exact [OF assms] enc_u64_def)
qed

theorem timestamp_millis_exact_witness:
  "enc_instant (Some 1767225600123456) = Inr (be_bytes 8 1767225600123)"
  using timestamp_millis_exact [of 1767225600123456] by simp

text \<open>
  From 2038 on it does not: 03:14:08.002 on 19 January 2038 is encoded as the millisecond before,
  which a verifier computing the milliseconds exactly does not reach.
\<close>

theorem timestamp_millis_2038:
  "enc_instant (Some 2147483648002000) = Inr (be_bytes 8 2147483648001) \<and>
   enc_instant (Some 2147483648002000) = enc_instant (Some 2147483648001000)"
proof -
  have "instant_millis 2147483648002000 = 2147483648001" "instant_millis 2147483648001000 = 2147483648001"
    by code_simp+
  then show ?thesis by (simp add: enc_u64_def)
qed

end
