(* ===== verification/Seals.thy ===== *)
theory Seals
  imports Canonical Posting
begin

text \<open>
  The proof ledger, \<^verbatim>\<open>app/modules/attestation\<close>: leaves and seals (\<^verbatim>\<open>models.py\<close>), their queries
  (\<^verbatim>\<open>repository.py\<close>), \<^verbatim>\<open>SealService\<close> (\<^verbatim>\<open>service.py\<close>) and the two subscriptions to accounting events
  (\<^verbatim>\<open>hooks.py\<close>). The Soroban client is a parameter: what the chain answers to each call of an operation is
  an argument, about which nothing is assumed. The proof tables are the subscriber state \<^verbatim>\<open>hook_state\<close> of
  the accounting database; the wall clock and the identifier supply are fields of them. The reasons kept in
  \<^verbatim>\<open>last_error\<close> are shortened where the source interpolates numbers and roots into them.
\<close>

section \<open>Tables\<close>

datatype seal_status = PENDING | SUBMITTED | CONFIRMED | FAILED

definition is_open_seal :: "seal_status \<Rightarrow> bool" where
  "is_open_seal s \<longleftrightarrow> s = PENDING \<or> s = SUBMITTED"

datatype seal_trigger = ON_CLOSE | ON_SCHEDULE | ON_BUTTON | BACKFILL

datatype seal_cadence = CADENCE_ON_PERIOD_CLOSE | CADENCE_DAILY | CADENCE_MANUAL

record attestation_setting =
  as_org :: uuid
  as_enabled :: bool
  as_namespace :: string
  as_contract :: "string option"
  as_network :: "string option"
  as_signer :: "string option"
  as_secret :: "string option"
  as_cadence :: seal_cadence
  as_registered_at :: "instant option"

text \<open>Python's truth value of an optional string.\<close>

definition truthy :: "string option \<Rightarrow> bool" where
  "truthy v = (case v of None \<Rightarrow> False | Some s \<Rightarrow> s \<noteq> [])"

definition is_ready :: "attestation_setting \<Rightarrow> bool" where
  "is_ready s \<longleftrightarrow> as_enabled s \<and> truthy (as_contract s) \<and> truthy (as_network s) \<and>
     as_registered_at s \<noteq> None \<and> truthy (as_signer s)"

record seal_leaf =
  lf_id :: uuid
  lf_org :: uuid
  lf_created_at :: instant
  lf_entry :: uuid
  lf_seq :: int
  lf_hash :: string
  lf_version :: int
  lf_date :: date
  lf_debit :: decimal
  lf_seal :: "uuid option"
  lf_index :: "int option"

record seal =
  se_id :: uuid
  se_org :: uuid
  se_seq :: int
  se_root :: string
  se_prev :: string
  se_count :: int
  se_debit :: int
  se_first :: int
  se_last :: int
  se_from :: instant
  se_to :: instant
  se_date_from :: date
  se_date_to :: date
  se_trigger :: seal_trigger
  se_period :: "uuid option"
  se_status :: seal_status
  se_network :: "string option"
  se_contract :: "string option"
  se_tx :: "string option"
  se_ledger :: "int option"
  se_sealed_at :: "instant option"
  se_submitted_at :: "instant option"
  se_confirmed_at :: "instant option"
  se_attempts :: int
  se_last_error :: "string option"
  se_created_by :: "uuid option"

datatype seal_event = SEAL_CREATED | SEAL_CONFIRMED | SEAL_RECONCILED | SEAL_FAILED | PROOF_EXPORTED

record proof_db =
  settings :: "attestation_setting list"
  leaves :: "seal_leaf list"
  seals :: "seal list"
  seal_log :: "(seal_event \<times> audit_severity \<times> uuid option \<times> uuid) list"
  pd_next :: uuid
  clock :: instant

definition empty_proofs :: proof_db where
  "empty_proofs = \<lparr>settings = [], leaves = [], seals = [], seal_log = [], pd_next = 1, clock = 0\<rparr>"

text \<open>The two server settings the service reads.\<close>

record seal_config =
  attestation_enabled :: bool
  seal_max_batch :: nat

definition leaf_checks :: "proof_db \<Rightarrow> seal_leaf \<Rightarrow> unit result" where
  "leaf_checks pd l =
     bindr (raise_if (\<exists>x \<in> set (leaves pd). lf_entry x = lf_entry l) (IntegrityError ''journal_entry_id'')) (\<lambda>_.
     bindr (raise_if (\<exists>x \<in> set (leaves pd). lf_org x = lf_org l \<and> lf_seq x = lf_seq l)
       (IntegrityError ''uq_seal_leaf_org_seq'')) (\<lambda>_.
     bindr (raise_if ((lf_seal l = None) \<noteq> (lf_index l = None)) (IntegrityError ''sealed_leaf_has_index'')) (\<lambda>_.
     raise_if (\<not> lf_seq l > 0) (IntegrityError ''leaf_seq_positive''))))"

definition seal_checks :: "proof_db \<Rightarrow> seal \<Rightarrow> unit result" where
  "seal_checks pd s =
     bindr (raise_if (se_status s \<noteq> FAILED \<and> (\<exists>x \<in> set (seals pd).
         se_id x \<noteq> se_id s \<and> se_status x \<noteq> FAILED \<and> se_org x = se_org s \<and> se_seq x = se_seq s))
       (IntegrityError ''uq_seal_org_seq_live'')) (\<lambda>_.
     bindr (raise_if (se_status s \<noteq> FAILED \<and> (\<exists>x \<in> set (seals pd).
         se_id x \<noteq> se_id s \<and> se_status x \<noteq> FAILED \<and> se_org x = se_org s \<and> se_last x = se_last s))
       (IntegrityError ''uq_seal_org_last_leaf'')) (\<lambda>_.
     bindr (raise_if (\<not> (se_seq s > 0 \<and> se_count s > 0 \<and> se_last s \<ge> se_first s \<and> se_to s \<ge> se_from s \<and>
         se_date_to s \<ge> se_date_from s)) (IntegrityError ''seal range'')) (\<lambda>_.
     raise_if (se_status s = CONFIRMED \<and> (se_sealed_at s = None \<or> se_contract s = None))
       (IntegrityError ''confirmed_is_checkable''))))"

section \<open>Queries\<close>

definition setting_for :: "proof_db \<Rightarrow> uuid \<Rightarrow> attestation_setting option result" where
  "setting_for pd org = scalar_one_or_none (filter (\<lambda>s. as_org s = org) (settings pd))"

definition next_leaf_seq :: "proof_db \<Rightarrow> uuid \<Rightarrow> int" where
  "next_leaf_seq pd org = foldl max 0 (map lf_seq (filter (\<lambda>l. lf_org l = org) (leaves pd))) + 1"

definition leaf_for_entry :: "proof_db \<Rightarrow> uuid \<Rightarrow> seal_leaf option result" where
  "leaf_for_entry pd i = scalar_one_or_none (filter (\<lambda>l. lf_entry l = i) (leaves pd))"

definition unsealed :: "proof_db \<Rightarrow> uuid \<Rightarrow> nat \<Rightarrow> seal_leaf list" where
  "unsealed pd org limit =
     take limit (sort_key lf_seq (filter (\<lambda>l. lf_org l = org \<and> lf_seal l = None) (leaves pd)))"

definition for_seal :: "proof_db \<Rightarrow> uuid \<Rightarrow> seal_leaf list" where
  "for_seal pd i = sort_key (\<lambda>l. the (lf_index l)) (filter (\<lambda>l. lf_seal l = Some i) (leaves pd))"

definition assign_to_seal :: "proof_db \<Rightarrow> seal_leaf list \<Rightarrow> uuid \<Rightarrow> proof_db" where
  "assign_to_seal pd batch i =
     pd\<lparr>leaves := map (\<lambda>l. case map_of (zip (map lf_id batch) [0..<length batch]) (lf_id l) of
                          None \<Rightarrow> l
                        | Some k \<Rightarrow> l\<lparr>lf_seal := Some i, lf_index := Some (int k)\<rparr>) (leaves pd)\<rparr>"

definition release_from_seal :: "proof_db \<Rightarrow> uuid \<Rightarrow> proof_db" where
  "release_from_seal pd i =
     pd\<lparr>leaves := update_where (\<lambda>l. lf_seal l = Some i) (\<lambda>l. l\<lparr>lf_seal := None, lf_index := None\<rparr>) (leaves pd)\<rparr>"

definition latest_confirmed :: "proof_db \<Rightarrow> uuid \<Rightarrow> seal option" where
  "latest_confirmed pd org =
     first_or_none (rev (sort_key se_seq (filter (\<lambda>s. se_org s = org \<and> se_status s = CONFIRMED) (seals pd))))"

definition highest_live_seq :: "proof_db \<Rightarrow> uuid \<Rightarrow> int" where
  "highest_live_seq pd org =
     foldl max 0 (map se_seq (filter (\<lambda>s. se_org s = org \<and> se_status s \<noteq> FAILED) (seals pd)))"

definition exists_open :: "proof_db \<Rightarrow> uuid \<Rightarrow> bool" where
  "exists_open pd org \<longleftrightarrow> (\<exists>s \<in> set (seals pd). se_org s = org \<and> is_open_seal (se_status s))"

definition open_work :: "proof_db \<Rightarrow> nat \<Rightarrow> seal list" where
  "open_work pd limit =
     take limit (sort_key se_org (sort_key se_seq (filter (\<lambda>s. is_open_seal (se_status s)) (seals pd))))"

definition log_event :: "proof_db \<Rightarrow> seal_event \<Rightarrow> audit_severity \<Rightarrow> uuid option \<Rightarrow> uuid \<Rightarrow> proof_db" where
  "log_event pd ev sev actor i = pd\<lparr>seal_log := seal_log pd @ [(ev, sev, actor, i)]\<rparr>"

section \<open>Leaves\<close>

definition record_leaf :: "seal_config \<Rightarrow> proof_db \<Rightarrow> journal_entry \<Rightarrow> proof_db \<times> seal_leaf option" where
  "record_leaf cfg pd e =
     (if \<not> attestation_enabled cfg then (pd, None)
      else case
        bindr (leaf_for_entry pd (e_id e)) (\<lambda>existing.
        case existing of
          Some l \<Rightarrow> Inr (pd, l)
        | None \<Rightarrow>
            bindr (leaf_hash_hex (payload_from_entry e)) (\<lambda>digest.
              let l = \<lparr>lf_id = pd_next pd, lf_org = e_org e, lf_created_at = clock pd, lf_entry = e_id e,
                       lf_seq = next_leaf_seq pd (e_org e), lf_hash = digest, lf_version = CANONICAL_VERSION,
                       lf_date = e_date e, lf_debit = e_total_debit e, lf_seal = None, lf_index = None\<rparr>
              in bindr (leaf_checks pd l) (\<lambda>_.
                 Inr (pd\<lparr>leaves := leaves pd @ [l], pd_next := pd_next pd + 1\<rparr>, l)))) of
        Inl _ \<Rightarrow> (pd, None)
      | Inr (pd', l) \<Rightarrow> (pd', Some l))"

section \<open>Batching\<close>

definition GENESIS_ROOT :: string where "GENESIS_ROOT = replicate 64 CHR ''0''"

definition MAX_SEAL_ATTEMPTS :: int where "MAX_SEAL_ATTEMPTS = 5"

definition covered_window :: "seal_leaf list \<Rightarrow> seal option \<Rightarrow> instant \<times> instant" where
  "covered_window batch previous =
     (let start = lf_created_at (hd batch); finish = lf_created_at (last batch);
          start' = (case previous of Some p \<Rightarrow> if start < se_to p then se_to p else start | None \<Rightarrow> start);
          finish' = (if finish < start' then start' else finish)
      in (start', finish'))"

fun digests :: "seal_leaf list \<Rightarrow> bytes list result" where
  "digests [] = Inr []"
| "digests (l # ls) =
     (case fromhex (lf_hash l) of
        None \<Rightarrow> Inl (ValueError ''non-hexadecimal number found'')
      | Some d \<Rightarrow> bindr (digests ls) (\<lambda>ds. Inr (d # ds)))"

fun sum_minor :: "seal_leaf list \<Rightarrow> int result" where
  "sum_minor [] = Inr 0"
| "sum_minor (l # ls) = bindr (money_minor (Some (lf_debit l))) (\<lambda>m. bindr (sum_minor ls) (\<lambda>t. Inr (m + t)))"

definition add_seal :: "proof_db \<Rightarrow> seal \<Rightarrow> proof_db result" where
  "add_seal pd s = bindr (seal_checks pd s) (\<lambda>_. Inr (pd\<lparr>seals := seals pd @ [s], pd_next := pd_next pd + 1\<rparr>))"

definition create_seal ::
    "seal_config \<Rightarrow> proof_db \<Rightarrow> uuid \<Rightarrow> seal_trigger \<Rightarrow> uuid option \<Rightarrow> uuid option \<Rightarrow> (proof_db \<times> seal option) result" where
  "create_seal cfg pd org trigger actor period =
     bindr (setting_for pd org) (\<lambda>found.
     case found of
       None \<Rightarrow> Inr (pd, None)
     | Some setting \<Rightarrow>
         if \<not> as_enabled setting then Inr (pd, None)
         else if as_registered_at setting = None then Inr (pd, None)
         else if exists_open pd org then Inr (pd, None)
         else
           let batch = unsealed pd org (seal_max_batch cfg) in
           if batch = [] then Inr (pd, None)
           else
             let previous = latest_confirmed pd org;
                 prev_root = (case previous of Some p \<Rightarrow> se_root p | None \<Rightarrow> GENESIS_ROOT);
                 seq = highest_live_seq pd org + 1
             in
             bindr (digests batch) (\<lambda>ds.
             bindr (merkle_root ds) (\<lambda>rt.
             bindr (sum_minor batch) (\<lambda>debit_minor.
               let (covered_from, covered_to) = covered_window batch previous;
                   s = \<lparr>se_id = pd_next pd, se_org = org, se_seq = seq, se_root = hex rt, se_prev = prev_root,
                        se_count = int (length batch), se_debit = debit_minor, se_first = lf_seq (hd batch),
                        se_last = lf_seq (last batch), se_from = covered_from, se_to = covered_to,
                        se_date_from = foldl min (lf_date (hd batch)) (map lf_date (tl batch)),
                        se_date_to = foldl max (lf_date (hd batch)) (map lf_date (tl batch)),
                        se_trigger = trigger, se_period = period, se_status = PENDING,
                        se_network = as_network setting, se_contract = as_contract setting, se_tx = None,
                        se_ledger = None, se_sealed_at = None, se_submitted_at = None, se_confirmed_at = None,
                        se_attempts = 0, se_last_error = None, se_created_by = actor\<rparr>
               in
             bindr (add_seal pd s) (\<lambda>pd1.
             Inr (log_event (assign_to_seal pd1 batch (se_id s)) SEAL_CREATED INFO actor (se_id s), Some s))))))"

section \<open>Submission\<close>

text \<open>
  What the chain client returns. Each field is the answer to one call of an operation; a call that cannot
  reach the network raises \<^verbatim>\<open>SorobanUnavailable\<close>.
\<close>

record book_view =
  bv_head :: int
  bv_root :: string

record seal_view =
  sv_seq :: int
  sv_root :: string
  sv_at :: instant

record submit_outcome =
  so_status :: string
  so_tx :: "string option"
  so_ledger :: "int option"
  so_network_time :: "instant option"
  so_error_name :: "string option"
  so_message :: "string option"

record chain_client =
  read_book :: "book_view option result"
  read_seal :: "int \<Rightarrow> seal_view option result"
  submit_seal :: "submit_outcome result"
  read_book_again :: "book_view option result"

definition already_sealed :: "submit_outcome \<Rightarrow> bool" where
  "already_sealed out \<longleftrightarrow> so_error_name out = Some ''sequence_out_of_order''"

definition save_seal :: "proof_db \<Rightarrow> seal \<Rightarrow> proof_db result" where
  "save_seal pd s =
     bindr (seal_checks pd s) (\<lambda>_. Inr (pd\<lparr>seals := update_where (\<lambda>x. se_id x = se_id s) (\<lambda>_. s) (seals pd)\<rparr>))"

definition fail_seal :: "proof_db \<Rightarrow> seal \<Rightarrow> string \<Rightarrow> audit_severity \<Rightarrow> (proof_db \<times> seal) result" where
  "fail_seal pd s reason severity =
     (let s' = s\<lparr>se_status := FAILED, se_last_error := Some (take 2000 reason)\<rparr> in
      bindr (save_seal pd s') (\<lambda>pd1.
      Inr (log_event (release_from_seal pd1 (se_id s)) SEAL_FAILED severity None (se_id s), s')))"

definition resolve_against_chain :: "chain_client \<Rightarrow> proof_db \<Rightarrow> seal \<Rightarrow> (proof_db \<times> seal) result" where
  "resolve_against_chain client pd s =
     bindr (read_seal client (se_seq s)) (\<lambda>on_chain.
     case on_chain of
       None \<Rightarrow> fail_seal pd s ''The chain holds no seal at this number. Local state cannot be reconciled.'' CRITICAL
     | Some v \<Rightarrow>
         if sv_root v \<noteq> se_root s
         then fail_seal pd s ''Already on chain with a different root. The chain is the authority.'' CRITICAL
         else
           let s' = s\<lparr>se_status := CONFIRMED, se_sealed_at := Some (sv_at v), se_confirmed_at := Some (clock pd)\<rparr> in
           bindr (save_seal pd s') (\<lambda>pd1.
           Inr (if se_status s \<noteq> CONFIRMED then log_event pd1 SEAL_RECONCILED INFO None (se_id s) else pd1, s')))"

definition confirm_seal :: "chain_client \<Rightarrow> proof_db \<Rightarrow> seal \<Rightarrow> submit_outcome \<Rightarrow> (proof_db \<times> seal) result" where
  "confirm_seal client pd s out =
     bindr (read_seal client (se_seq s)) (\<lambda>on_chain.
       let s' = s\<lparr>se_status := CONFIRMED, se_tx := so_tx out, se_ledger := so_ledger out,
                  se_confirmed_at := Some (clock pd),
                  se_sealed_at := (case on_chain of Some v \<Rightarrow> Some (sv_at v) | None \<Rightarrow> so_network_time out),
                  se_last_error := None\<rparr>
       in
     bindr (save_seal pd s') (\<lambda>pd1. Inr (log_event pd1 SEAL_CONFIRMED INFO None (se_id s), s')))"

definition rejected_seal :: "proof_db \<Rightarrow> seal \<Rightarrow> submit_outcome \<Rightarrow> (proof_db \<times> seal) result" where
  "rejected_seal pd s out =
     (let err = (case so_error_name out of Some n \<Rightarrow> if n = [] then ''rejected'' else n | None \<Rightarrow> ''rejected'') @ '': '' @
                take 400 (case so_message out of Some m \<Rightarrow> m | None \<Rightarrow> []);
          s' = s\<lparr>se_last_error := Some err, se_status := PENDING\<rparr>
      in
      bindr (save_seal pd s') (\<lambda>pd1.
      if se_attempts s' \<ge> MAX_SEAL_ATTEMPTS
      then fail_seal pd1 s' (''Gave up after '' @ show_int (se_attempts s') @ '' attempts. Last error: '' @ err) CRITICAL
      else Inr (pd1, s')))"

definition apply_outcome :: "chain_client \<Rightarrow> proof_db \<Rightarrow> seal \<Rightarrow> submit_outcome \<Rightarrow> (proof_db \<times> seal) result" where
  "apply_outcome client pd s out =
     (if so_status out = ''confirmed'' then confirm_seal client pd s out
      else if so_status out = ''unknown''
      then let s' = s\<lparr>se_status := SUBMITTED, se_tx := so_tx out, se_last_error := so_message out\<rparr>
           in bindr (save_seal pd s') (\<lambda>pd1. Inr (pd1, s'))
      else if already_sealed out
      then bindr (read_book_again client) (\<lambda>book.
           case book of Some _ \<Rightarrow> resolve_against_chain client pd s | None \<Rightarrow> rejected_seal pd s out)
      else rejected_seal pd s out)"

text \<open>
  The state an operation leaves behind: when it raises, what was flushed so far stays in the session,
  except that a violated constraint aborts the transaction (\<open>pd0\<close> is its start).
\<close>

definition settle :: "proof_db \<Rightarrow> proof_db \<Rightarrow> (proof_db \<times> seal) result \<Rightarrow> proof_db \<times> seal result" where
  "settle pd0 pd m =
     (case m of
        Inr (pd', s) \<Rightarrow> (pd', Inr s)
      | Inl (IntegrityError c) \<Rightarrow> (pd0, Inl (IntegrityError c))
      | Inl e \<Rightarrow> (pd, Inl e))"

definition submit :: "chain_client \<Rightarrow> proof_db \<Rightarrow> seal \<Rightarrow> proof_db \<times> seal result" where
  "submit client pd s =
     (case setting_for pd (se_org s) of
        Inl e \<Rightarrow> (pd, Inl e)
      | Inr None \<Rightarrow> settle pd pd (fail_seal pd s ''Sealing is no longer configured for this organization.'' WARNING)
      | Inr (Some setting) \<Rightarrow>
          if \<not> is_ready setting
          then settle pd pd (fail_seal pd s ''Sealing is no longer configured for this organization.'' WARNING)
          else case read_book client of
            Inl (SorobanUnavailable m) \<Rightarrow>
              let s' = s\<lparr>se_last_error := Some (''chain unreachable: '' @ m)\<rparr>
              in settle pd pd (bindr (save_seal pd s') (\<lambda>pd1. Inr (pd1, s')))
          | Inl e \<Rightarrow> (pd, Inl e)
          | Inr None \<Rightarrow> settle pd pd (fail_seal pd s ''The on-chain book does not exist. Re-run onboarding to open it.'' WARNING)
          | Inr (Some book) \<Rightarrow>
              if bv_head book \<ge> se_seq s then settle pd pd (resolve_against_chain client pd s)
              else if bv_head book < se_seq s - 1
              then let s' = s\<lparr>se_last_error := Some ''An earlier seal must confirm first.''\<rparr>
                   in settle pd pd (bindr (save_seal pd s') (\<lambda>pd1. Inr (pd1, s')))
              else if bv_root book \<noteq> se_prev s
              then settle pd pd (fail_seal pd s ''The local history has diverged from the chain.'' CRITICAL)
              else
                let s1 = s\<lparr>se_attempts := se_attempts s + 1, se_submitted_at := Some (clock pd), se_status := SUBMITTED\<rparr> in
                case save_seal pd s1 of
                  Inl e \<Rightarrow> (pd, Inl e)
                | Inr pd1 \<Rightarrow>
                    if \<not> truthy (as_secret setting)
                    then (pd1, Inl (BusinessRuleError ''The signing key is held outside this server''))
                    else settle pd pd1 (bindr (submit_seal client) (apply_outcome client pd1 s1)))"

section \<open>Worker entry points\<close>

definition seal_by_id :: "proof_db \<Rightarrow> uuid \<Rightarrow> seal option" where
  "seal_by_id pd i = first_or_none (filter (\<lambda>s. se_id s = i) (seals pd))"

text \<open>Every pending row is tried; an exception is counted and the queue goes on.\<close>

fun drain_loop :: "(uuid \<Rightarrow> chain_client) \<Rightarrow> proof_db \<Rightarrow> uuid list \<Rightarrow> proof_db" where
  "drain_loop client pd [] = pd"
| "drain_loop client pd (i # rest) =
     (case seal_by_id pd i of
        None \<Rightarrow> drain_loop client pd rest
      | Some s \<Rightarrow> drain_loop client (fst (submit (client i) pd s)) rest)"

definition drain :: "(uuid \<Rightarrow> chain_client) \<Rightarrow> proof_db \<Rightarrow> nat \<Rightarrow> proof_db" where
  "drain client pd limit = drain_loop client pd (map se_id (open_work pd limit))"

definition seal_now ::
    "seal_config \<Rightarrow> chain_client \<Rightarrow> proof_db \<Rightarrow> uuid \<Rightarrow> uuid \<Rightarrow> (proof_db \<times> seal option) result" where
  "seal_now cfg client pd org actor =
     bindr (create_seal cfg pd org ON_BUTTON (Some actor) None) (\<lambda>(pd1, created).
     case created of
       None \<Rightarrow> Inr (pd1, None)
     | Some s \<Rightarrow> (case submit client pd1 s of (pd2, Inr s') \<Rightarrow> Inr (pd2, Some s') | (_, Inl e) \<Rightarrow> Inl e))"

fun reconcile_loop :: "chain_client \<Rightarrow> book_view \<Rightarrow> proof_db \<Rightarrow> uuid \<Rightarrow> seal list \<Rightarrow> int \<Rightarrow> (proof_db \<times> int) result" where
  "reconcile_loop client book pd org [] changed = Inr (pd, changed)"
| "reconcile_loop client book pd org (s # rest) changed =
     (if se_org s \<noteq> org then reconcile_loop client book pd org rest changed
      else if bv_head book \<ge> se_seq s
      then bindr (resolve_against_chain client pd s) (\<lambda>(pd1, _). reconcile_loop client book pd1 org rest (changed + 1))
      else reconcile_loop client book pd org rest changed)"

definition reconcile :: "chain_client \<Rightarrow> proof_db \<Rightarrow> uuid \<Rightarrow> (proof_db \<times> (int \<times> bool) option) result" where
  "reconcile client pd org =
     bindr (setting_for pd org) (\<lambda>found.
     case found of
       None \<Rightarrow> Inr (pd, None)
     | Some setting \<Rightarrow>
         if \<not> truthy (as_contract setting) \<or> \<not> truthy (as_network setting) then Inr (pd, None)
         else bindr (read_book client) (\<lambda>view.
         case view of
           None \<Rightarrow> Inr (pd, None)
         | Some book \<Rightarrow>
             bindr (reconcile_loop client book pd org (open_work pd 100) 0) (\<lambda>(pd1, changed).
               let agrees = (case latest_confirmed pd1 org of
                               Some h \<Rightarrow> se_seq h = bv_head book \<and> se_root h = bv_root book
                             | None \<Rightarrow> bv_head book = 0)
               in Inr (pd1, Some (changed, agrees)))))"

section \<open>Subscriptions\<close>

definition record_entry_leaf :: "seal_config \<Rightarrow> proof_db \<Rightarrow> journal_entry \<Rightarrow> proof_db \<times> error option" where
  "record_entry_leaf cfg pd e = (fst (record_leaf cfg pd e), None)"

definition seal_on_period_close ::
    "seal_config \<Rightarrow> proof_db \<Rightarrow> accounting_period \<Rightarrow> uuid \<Rightarrow> proof_db \<times> error option" where
  "seal_on_period_close cfg pd p actor =
     (case bindr (setting_for pd (p_org p)) (\<lambda>found.
        case found of
          None \<Rightarrow> Inr pd
        | Some setting \<Rightarrow>
            if \<not> as_enabled setting then Inr pd
            else if as_cadence setting = CADENCE_MANUAL then Inr pd
            else bindr (create_seal cfg pd (p_org p) ON_CLOSE (Some actor) (Some (p_id p))) (\<lambda>(pd1, _). Inr pd1)) of
        Inl e \<Rightarrow> (pd, Some e)
      | Inr pd' \<Rightarrow> (pd', None))"

definition install_attestation_hooks :: "seal_config \<Rightarrow> proof_db hooks" where
  "install_attestation_hooks cfg =
     (if \<not> attestation_enabled cfg then \<lparr>entry_posted = [], period_closed = []\<rparr>
      else \<lparr>entry_posted = [record_entry_leaf cfg], period_closed = [seal_on_period_close cfg]\<rparr>)"

end
