(* ===== verification/Seal_Chain.thy ===== *)
theory Seal_Chain
  imports Seals
begin

text \<open>
  The invariant of the proof ledger and that every operation of \<^verbatim>\<open>SealService\<close> keeps it, whatever the chain
  answers. For each organization the leaves carry the numbers 1, 2, 3, ... in posting order; the seals that
  have not failed carry 1, 2, 3, ...; each names the root before it; and cutting the leaves along the seals'
  counts gives the batches, each with the Merkle root the seal stores, followed by the unsealed backlog.
  Only the newest seal can still be open.
\<close>

section \<open>The invariant\<close>

definition org_leaves :: "proof_db \<Rightarrow> uuid \<Rightarrow> seal_leaf list" where
  "org_leaves pd org = filter (\<lambda>l. lf_org l = org) (leaves pd)"

definition live_seals :: "proof_db \<Rightarrow> uuid \<Rightarrow> seal list" where
  "live_seals pd org = filter (\<lambda>s. se_org s = org \<and> se_status s \<noteq> FAILED) (seals pd)"

definition numbered :: "int list \<Rightarrow> bool" where
  "numbered ks \<longleftrightarrow> ks = map (\<lambda>i. 1 + int i) [0..<length ks]"

definition batch_of :: "seal \<Rightarrow> seal_leaf list \<Rightarrow> bool" where
  "batch_of s b \<longleftrightarrow>
     b \<noteq> [] \<and> int (length b) = se_count s \<and>
     map lf_seal b = replicate (length b) (Some (se_id s)) \<and>
     map lf_index b = map (\<lambda>k. Some (int k)) [0..<length b] \<and>
     se_first s = lf_seq (hd b) \<and> se_last s = lf_seq (last b) \<and> sum_minor b = Inr (se_debit s) \<and>
     (\<exists>ds rt. digests b = Inr ds \<and> merkle_root ds = Inr rt \<and> se_root s = hex rt)"

fun chained :: "int \<Rightarrow> string \<Rightarrow> seal list \<Rightarrow> seal_leaf list \<Rightarrow> bool" where
  "chained k rt [] ls \<longleftrightarrow> (\<forall>l \<in> set ls. lf_seal l = None \<and> lf_index l = None)"
| "chained k rt (s # ss) ls \<longleftrightarrow>
     se_seq s = k \<and> se_prev s = rt \<and> (ss \<noteq> [] \<longrightarrow> se_status s = CONFIRMED) \<and>
     batch_of s (take (nat (se_count s)) ls) \<and> chained (k + 1) (se_root s) ss (drop (nat (se_count s)) ls)"

definition rows_ok :: "proof_db \<Rightarrow> bool" where
  "rows_ok pd \<longleftrightarrow>
     distinct (map lf_id (leaves pd)) \<and> distinct (map lf_entry (leaves pd)) \<and> distinct (map se_id (seals pd)) \<and>
     (\<forall>l \<in> set (leaves pd). lf_id l < pd_next pd) \<and> (\<forall>s \<in> set (seals pd). se_id s < pd_next pd) \<and>
     (\<forall>l \<in> set (leaves pd). \<forall>i. lf_seal l = Some i \<longrightarrow>
        (\<exists>s \<in> set (seals pd). se_id s = i \<and> se_org s = lf_org l \<and> se_status s \<noteq> FAILED))"

definition org_ok :: "proof_db \<Rightarrow> uuid \<Rightarrow> bool" where
  "org_ok pd org \<longleftrightarrow>
     numbered (map lf_seq (org_leaves pd org)) \<and> chained 1 GENESIS_ROOT (live_seals pd org) (org_leaves pd org)"

definition proof_inv :: "proof_db \<Rightarrow> bool" where
  "proof_inv pd \<longleftrightarrow> rows_ok pd \<and> (\<forall>org. org_ok pd org)"

section \<open>Numbering\<close>

lemma numbered_Nil [simp]: "numbered []"
  by (simp add: numbered_def)

lemma numbered_snoc: "numbered ks \<Longrightarrow> numbered (ks @ [1 + int (length ks)])"
  by (simp add: numbered_def)

lemma foldl_max_numbered: "numbered ks \<Longrightarrow> foldl max 0 ks = int (length ks)"
proof -
  have "foldl max 0 (map (\<lambda>i. 1 + int i) [0..<n]) = int n" for n
    by (induction n) simp_all
  then show "numbered ks \<Longrightarrow> ?thesis" unfolding numbered_def by metis
qed

lemma numbered_sorted: "numbered ks \<Longrightarrow> sorted ks"
proof -
  have "sorted (map (\<lambda>i. 1 + int i) [0..<n])" for n
    by (induction n) (simp_all add: sorted_append)
  then show "numbered ks \<Longrightarrow> sorted ks" unfolding numbered_def by metis
qed

lemma chained_seqs: "chained k rt ss ls \<Longrightarrow> map se_seq ss = map (\<lambda>i. k + int i) [0..<length ss]"
proof (induction ss arbitrary: k rt ls)
  case (Cons s ss)
  then have "map se_seq ss = map (\<lambda>i. k + 1 + int i) [0..<length ss]" by fastforce
  moreover have "map (\<lambda>i. k + int i) [0..<Suc n] = k # map (\<lambda>i. k + 1 + int i) [0..<n]" for n
    by (simp add: upt_rec [of 0] map_Suc_upt [symmetric] del: upt_Suc)
  ultimately show ?case using Cons.prems by simp
qed simp

lemma chained_numbered: "chained 1 rt ss ls \<Longrightarrow> numbered (map se_seq ss)"
  unfolding numbered_def by (simp add: chained_seqs)

section \<open>Batches and backlog\<close>

definition sealed_count :: "seal list \<Rightarrow> nat" where
  "sealed_count ss = sum_list (map (\<lambda>s. nat (se_count s)) ss)"

lemma batch_of_length: "batch_of s b \<Longrightarrow> length b = nat (se_count s)"
  by (auto simp: batch_of_def)

lemma batch_of_seal: "batch_of s b \<Longrightarrow> l \<in> set b \<Longrightarrow> lf_seal l = Some (se_id s)"
proof -
  assume "batch_of s b" "l \<in> set b"
  then have "lf_seal l \<in> set (replicate (length b) (Some (se_id s)))"
    unfolding batch_of_def by (metis image_eqI set_map)
  then show ?thesis by (simp split: if_splits)
qed

lemma chained_backlog: "chained k rt ss ls \<Longrightarrow> filter (\<lambda>l. lf_seal l = None) ls = drop (sealed_count ss) ls"
proof (induction ss arbitrary: k rt ls)
  case Nil
  then show ?case by (simp add: sealed_count_def)
next
  case (Cons s ss)
  let ?n = "nat (se_count s)"
  have b: "batch_of s (take ?n ls)" and c: "chained (k + 1) (se_root s) ss (drop ?n ls)" using Cons.prems by auto
  have "filter (\<lambda>l. lf_seal l = None) (take ?n ls) = []"
    using batch_of_seal [OF b] by (auto simp: filter_empty_conv)
  then have "filter (\<lambda>l. lf_seal l = None) ls = filter (\<lambda>l. lf_seal l = None) (drop ?n ls)"
    by (metis append_Nil append_take_drop_id filter_append)
  also have "\<dots> = drop (sealed_count ss) (drop ?n ls)" by (rule Cons.IH [OF c])
  finally show ?case by (simp add: sealed_count_def add.commute)
qed

lemma chained_backlog_clear:
  "chained k rt ss ls \<Longrightarrow> l \<in> set (drop (sealed_count ss) ls) \<Longrightarrow> lf_seal l = None \<and> lf_index l = None"
proof (induction ss arbitrary: k rt ls)
  case (Cons s ss)
  have "l \<in> set (drop (sealed_count ss) (drop (nat (se_count s)) ls))"
    using Cons.prems(2) by (simp add: sealed_count_def add.commute)
  with Cons show ?case by fastforce
qed (simp add: sealed_count_def)

lemma chained_seal_member:
  "chained k rt ss ls \<Longrightarrow> l \<in> set ls \<Longrightarrow> lf_seal l = None \<or> (\<exists>s \<in> set ss. lf_seal l = Some (se_id s))"
proof (induction ss arbitrary: k rt ls)
  case (Cons s ss)
  let ?n = "nat (se_count s)"
  from Cons.prems(2) have "l \<in> set (take ?n ls) \<or> l \<in> set (drop ?n ls)" by (metis Un_iff append_take_drop_id set_append)
  then show ?case using Cons batch_of_seal by fastforce
qed simp

lemma chained_snoc_leaf:
  "chained k rt ss ls \<Longrightarrow> lf_seal l = None \<Longrightarrow> lf_index l = None \<Longrightarrow> chained k rt ss (ls @ [l])"
proof (induction ss arbitrary: k rt ls)
  case (Cons s ss)
  then have "length (take (nat (se_count s)) ls) = nat (se_count s)"
    using batch_of_length [of s "take (nat (se_count s)) ls"] by simp
  then have "nat (se_count s) \<le> length ls" by simp
  with Cons show ?case by simp
qed simp

text \<open>The root a next seal has to name.\<close>

definition last_root :: "string \<Rightarrow> seal list \<Rightarrow> string" where
  "last_root rt ss = (if ss = [] then rt else se_root (last ss))"

lemma chained_snoc_seal:
  assumes "chained k rt ss ls" "\<forall>x \<in> set ss. se_status x = CONFIRMED"
    and "se_seq s = k + int (length ss)" "se_prev s = last_root rt ss"
    and "ls' = take (sealed_count ss) ls @ b @ rest" "batch_of s b" "\<forall>l \<in> set rest. lf_seal l = None \<and> lf_index l = None"
    and "sealed_count ss \<le> length ls"
  shows "chained k rt (ss @ [s]) ls'"
  using assms
proof (induction ss arbitrary: k rt ls ls')
  case Nil
  then show ?case using batch_of_length [of s b] by (simp add: sealed_count_def last_root_def)
next
  case (Cons x ss)
  let ?n = "nat (se_count x)"
  have len: "?n \<le> length ls" "sealed_count (x # ss) = ?n + sealed_count ss"
    using Cons.prems(1) batch_of_length [of x "take ?n ls"] by (auto simp: sealed_count_def)
  have t: "take (?n + sealed_count ss) ls = take ?n ls @ take (sealed_count ss) (drop ?n ls)"
    by (simp add: take_add)
  have ls': "take ?n ls' = take ?n ls" "drop ?n ls' = take (sealed_count ss) (drop ?n ls) @ b @ rest"
    using Cons.prems(5) len t by simp_all
  have "chained (k + 1) (se_root x) (ss @ [s]) (drop ?n ls')"
    by (rule Cons.IH [of "k + 1" "se_root x" "drop ?n ls"])
       (use Cons.prems ls' len in \<open>auto simp: last_root_def\<close>)
  then show ?case using Cons.prems ls' by simp
qed

lemma sealed_count_le: "chained k rt ss ls \<Longrightarrow> sealed_count ss \<le> length ls"
proof (induction ss arbitrary: k rt ls)
  case (Cons s ss)
  then have "sealed_count ss \<le> length (drop (nat (se_count s)) ls)"
    and "length (take (nat (se_count s)) ls) = nat (se_count s)"
    using batch_of_length by fastforce+
  then show ?case by (simp add: sealed_count_def)
qed (simp add: sealed_count_def)

definition cleared :: "uuid \<Rightarrow> seal_leaf \<Rightarrow> seal_leaf" where
  "cleared i l = (if lf_seal l = Some i then l\<lparr>lf_seal := None, lf_index := None\<rparr> else l)"

lemma batch_of_cleared: "batch_of s b \<Longrightarrow> se_id s \<noteq> i \<Longrightarrow> map (cleared i) b = b"
  by (rule map_idI) (auto simp: cleared_def dest: batch_of_seal)

lemma chained_release:
  "chained k rt (ss @ [s]) ls \<Longrightarrow> \<forall>x \<in> set ss. se_id x \<noteq> se_id s \<Longrightarrow> chained k rt ss (map (cleared (se_id s)) ls)"
proof (induction ss arbitrary: k rt ls)
  case Nil
  let ?n = "nat (se_count s)"
  have b: "batch_of s (take ?n ls)" and r: "\<forall>l \<in> set (drop ?n ls). lf_seal l = None \<and> lf_index l = None"
    using Nil.prems(1) by simp_all
  have "lf_seal (cleared (se_id s) l) = None \<and> lf_index (cleared (se_id s) l) = None" if "l \<in> set ls" for l
  proof -
    from that have "l \<in> set (take ?n ls) \<or> l \<in> set (drop ?n ls)" by (metis Un_iff append_take_drop_id set_append)
    then show ?thesis using batch_of_seal [OF b] r by (auto simp: cleared_def)
  qed
  then show ?case by simp
next
  case (Cons x ss)
  let ?n = "nat (se_count x)"
  have "batch_of x (take ?n ls)" "se_id x \<noteq> se_id s" using Cons.prems by auto
  then have "take ?n (map (cleared (se_id s)) ls) = take ?n ls"
    by (simp add: take_map batch_of_cleared)
  moreover have "chained (k + 1) (se_root x) ss (map (cleared (se_id s)) (drop ?n ls))"
    by (rule Cons.IH) (use Cons.prems in auto)
  ultimately show ?case using Cons.prems by (simp add: drop_map)
qed

text \<open>What the chain of a seal depends on.\<close>

definition same_core :: "seal \<Rightarrow> seal \<Rightarrow> bool" where
  "same_core s s' \<longleftrightarrow> se_id s' = se_id s \<and> se_org s' = se_org s \<and> se_seq s' = se_seq s \<and> se_root s' = se_root s \<and>
     se_prev s' = se_prev s \<and> se_count s' = se_count s \<and> se_debit s' = se_debit s \<and> se_first s' = se_first s \<and>
     se_last s' = se_last s"

lemma batch_of_core: "same_core s s' \<Longrightarrow> batch_of s' b = batch_of s b"
  by (simp add: batch_of_def same_core_def)

lemma chained_update:
  assumes "chained k rt ss ls" "\<forall>s \<in> set ss. same_core s (f s)"
    and "\<forall>s \<in> set ss. se_status s = CONFIRMED \<longrightarrow> se_status (f s) = CONFIRMED"
  shows "chained k rt (map f ss) ls"
  using assms
proof (induction ss arbitrary: k rt ls)
  case (Cons s ss)
  then have c: "same_core s (f s)" by simp
  then have n: "se_count (f s) = se_count s" "se_seq (f s) = se_seq s" "se_prev (f s) = se_prev s" "se_root (f s) = se_root s"
    by (simp_all add: same_core_def)
  show ?case using Cons batch_of_core [OF c] by (simp add: n)
qed simp

lemma chained_open_last:
  assumes "chained k rt ss ls" "s \<in> set ss" "se_status s \<noteq> CONFIRMED"
  shows "\<exists>init. ss = init @ [s] \<and> (\<forall>x \<in> set init. se_status x = CONFIRMED)"
  using assms
proof (induction ss arbitrary: k rt ls)
  case (Cons x ss)
  show ?case
  proof (cases "ss = []")
    case True
    with Cons.prems show ?thesis by auto
  next
    case False
    with Cons.prems have "se_status x = CONFIRMED" "s \<in> set ss" by auto
    with Cons obtain init where "ss = init @ [s]" "\<forall>x \<in> set init. se_status x = CONFIRMED" by fastforce
    with \<open>se_status x = CONFIRMED\<close> show ?thesis by (intro exI [of _ "x # init"]) auto
  qed
qed simp

section \<open>Recording a leaf\<close>

lemma proof_invI: "rows_ok pd \<Longrightarrow> (\<And>org. org_ok pd org) \<Longrightarrow> proof_inv pd"
  by (simp add: proof_inv_def)

lemma proof_invD: "proof_inv pd \<Longrightarrow> rows_ok pd" "proof_inv pd \<Longrightarrow> org_ok pd org"
  by (simp_all add: proof_inv_def)

lemma proof_inv_frame:
  "proof_inv pd \<Longrightarrow> leaves pd' = leaves pd \<Longrightarrow> seals pd' = seals pd \<Longrightarrow> pd_next pd \<le> pd_next pd' \<Longrightarrow> proof_inv pd'"
  by (fastforce simp: proof_inv_def rows_ok_def org_ok_def org_leaves_def live_seals_def)

lemma log_event_simps [simp]:
  "leaves (log_event pd ev sv a i) = leaves pd" "seals (log_event pd ev sv a i) = seals pd"
  "pd_next (log_event pd ev sv a i) = pd_next pd" "settings (log_event pd ev sv a i) = settings pd"
  "clock (log_event pd ev sv a i) = clock pd"
  by (simp_all add: log_event_def)

lemma next_leaf_seq_length: "org_ok pd org \<Longrightarrow> next_leaf_seq pd org = 1 + int (length (org_leaves pd org))"
  using foldl_max_numbered [of "map lf_seq (org_leaves pd org)"]
  by (simp add: next_leaf_seq_def org_ok_def org_leaves_def)

lemma next_leaf_seq_fresh:
  assumes "proof_inv pd" "l \<in> set (leaves pd)" "lf_org l = org"
  shows "lf_seq l < next_leaf_seq pd org"
proof -
  have ok: "org_ok pd org" using assms(1) by (rule proof_invD)
  have "lf_seq l \<in> set (map lf_seq (org_leaves pd org))" using assms(2,3) by (simp add: org_leaves_def)
  then have "lf_seq l \<in> set (map (\<lambda>i. 1 + int i) [0..<length (org_leaves pd org)])"
    using ok unfolding org_ok_def numbered_def by (metis length_map)
  then show ?thesis using next_leaf_seq_length [OF ok] by auto
qed

lemma record_leaf_cases:
  assumes "record_leaf cfg pd e = (pd', r)"
  obtains (same) "pd' = pd"
  | (new) l where "attestation_enabled cfg" "\<forall>x \<in> set (leaves pd). lf_entry x \<noteq> e_id e"
      "leaf_hash_hex (payload_from_entry e) = Inr (lf_hash l)"
      "lf_id l = pd_next pd" "lf_org l = e_org e" "lf_entry l = e_id e" "lf_seq l = next_leaf_seq pd (e_org e)"
      "lf_date l = e_date e" "lf_debit l = e_total_debit e" "lf_seal l = None" "lf_index l = None"
      "pd' = pd\<lparr>leaves := leaves pd @ [l], pd_next := pd_next pd + 1\<rparr>"
proof (cases "pd' = pd")
  case False
  let ?l = "\<lambda>d. \<lparr>lf_id = pd_next pd, lf_org = e_org e, lf_created_at = clock pd, lf_entry = e_id e,
    lf_seq = next_leaf_seq pd (e_org e), lf_hash = d, lf_version = CANONICAL_VERSION, lf_date = e_date e,
    lf_debit = e_total_debit e, lf_seal = None, lf_index = None\<rparr>"
  from assms False obtain d where d: "attestation_enabled cfg" "leaf_for_entry pd (e_id e) = Inr None"
      "leaf_hash_hex (payload_from_entry e) = Inr d"
      "pd' = pd\<lparr>leaves := leaves pd @ [?l d], pd_next := pd_next pd + 1\<rparr>"
    by (auto simp: record_leaf_def Let_def split: if_splits sum.splits option.splits)
  have "\<forall>x \<in> set (leaves pd). lf_entry x \<noteq> e_id e"
    using d(2) by (simp add: leaf_for_entry_def scalar_one_or_none_None filter_empty_conv)
  with d show thesis by (intro new [of "?l d"]) simp_all
qed (rule same)

lemma inv_add_leaf:
  assumes inv: "proof_inv pd" and l: "\<forall>x \<in> set (leaves pd). lf_entry x \<noteq> lf_entry l" "lf_id l = pd_next pd"
    "lf_seq l = next_leaf_seq pd (lf_org l)" "lf_seal l = None" "lf_index l = None"
    and pd': "pd' = pd\<lparr>leaves := leaves pd @ [l], pd_next := pd_next pd + 1\<rparr>"
  shows "proof_inv pd'"
proof (rule proof_invI)
  show "rows_ok pd'" using proof_invD(1) [OF inv] l by (fastforce simp: rows_ok_def pd')
  fix org
  note ok = proof_invD(2) [OF inv, of org]
  have seals: "live_seals pd' org = live_seals pd org" by (simp add: live_seals_def pd')
  show "org_ok pd' org"
  proof (cases "lf_org l = org")
    case True
    then have ls: "org_leaves pd' org = org_leaves pd org @ [l]" by (simp add: org_leaves_def pd')
    have "lf_seq l = 1 + int (length (map lf_seq (org_leaves pd org)))"
      using next_leaf_seq_length [OF ok] l(3) True by simp
    then show ?thesis
      using ok numbered_snoc [of "map lf_seq (org_leaves pd org)"] chained_snoc_leaf l(4,5)
      by (simp add: org_ok_def seals ls)
  next
    case False
    then have "org_leaves pd' org = org_leaves pd org" by (simp add: org_leaves_def pd')
    then show ?thesis using ok by (simp add: org_ok_def seals)
  qed
qed

lemma inv_record_leaf:
  assumes "proof_inv pd" "record_leaf cfg pd e = (pd', r)"
  shows "proof_inv pd'"
  using assms(2)
proof (cases rule: record_leaf_cases)
  case same
  with assms(1) show ?thesis by simp
next
  case (new l)
  show ?thesis by (rule inv_add_leaf [OF assms(1) _ _ _ _ _ new(12)]) (use new in simp_all)
qed

section \<open>Creating a seal\<close>

definition stamp :: "seal_leaf list \<Rightarrow> uuid \<Rightarrow> seal_leaf \<Rightarrow> seal_leaf" where
  "stamp batch i l =
     (case map_of (zip (map lf_id batch) [0..<length batch]) (lf_id l) of
        None \<Rightarrow> l
      | Some k \<Rightarrow> l\<lparr>lf_seal := Some i, lf_index := Some (int k)\<rparr>)"

lemma assign_stamp: "assign_to_seal pd batch i = pd\<lparr>leaves := map (stamp batch i) (leaves pd)\<rparr>"
  by (simp add: assign_to_seal_def stamp_def)

lemma stamp_outside: "lf_id l \<notin> lf_id ` set batch \<Longrightarrow> stamp batch i l = l"
  unfolding stamp_def by (subst map_of_zip_is_None [THEN iffD2]) auto

lemma stamp_nth:
  assumes "distinct (map lf_id batch)" "k < length batch"
  shows "stamp batch i (batch ! k) = (batch ! k)\<lparr>lf_seal := Some i, lf_index := Some (int k)\<rparr>"
  using assms map_of_zip_nth [of "map lf_id batch" "[0..<length batch]" k] by (simp add: stamp_def)

lemma stamp_fields [simp]:
  "lf_id (stamp b i l) = lf_id l" "lf_org (stamp b i l) = lf_org l" "lf_entry (stamp b i l) = lf_entry l"
  "lf_seq (stamp b i l) = lf_seq l" "lf_hash (stamp b i l) = lf_hash l" "lf_debit (stamp b i l) = lf_debit l"
  "lf_date (stamp b i l) = lf_date l"
  by (simp_all add: stamp_def split: option.split)

lemma stamp_seal: "lf_seal (stamp b i l) = lf_seal l \<or> lf_seal (stamp b i l) = Some i"
  by (simp add: stamp_def split: option.split)

lemma digests_cong: "map lf_hash a = map lf_hash b \<Longrightarrow> digests a = digests b"
proof (induction a arbitrary: b)
  case (Cons x a)
  then obtain y b' where b: "b = y # b'" by (cases b) auto
  with Cons.prems have "digests a = digests b'" by (intro Cons.IH) simp
  with b Cons.prems show ?case by (simp split: option.split)
qed simp

lemma sum_minor_cong: "map lf_debit a = map lf_debit b \<Longrightarrow> sum_minor a = sum_minor b"
proof (induction a arbitrary: b)
  case (Cons x a)
  then obtain y b' where b: "b = y # b'" by (cases b) auto
  with Cons.prems have "sum_minor a = sum_minor b'" by (intro Cons.IH) simp
  with b Cons.prems show ?case by simp
qed simp

lemma batch_of_stamped:
  assumes "b \<noteq> []" "distinct (map lf_id b)" "int (length b) = se_count s"
    "se_first s = lf_seq (hd b)" "se_last s = lf_seq (last b)" "sum_minor b = Inr (se_debit s)"
    "digests b = Inr ds" "merkle_root ds = Inr rt" "se_root s = hex rt"
  shows "batch_of s (map (stamp b (se_id s)) b)"
proof -
  let ?m = "map (stamp b (se_id s)) b"
  have nth: "?m ! k = (b ! k)\<lparr>lf_seal := Some (se_id s), lf_index := Some (int k)\<rparr>" if "k < length b" for k
    using stamp_nth [OF assms(2) that] that by simp
  have "map lf_seal ?m = replicate (length ?m) (Some (se_id s))"
    by (rule nth_equalityI) (use nth in auto)
  moreover have "map lf_index ?m = map (\<lambda>k. Some (int k)) [0..<length ?m]"
    by (rule nth_equalityI) (use nth in auto)
  moreover have "digests ?m = digests b" "sum_minor ?m = sum_minor b"
    by (auto intro: digests_cong sum_minor_cong)
  ultimately show ?thesis
    using assms by (simp add: batch_of_def hd_map last_map)
qed

lemma create_seal_cases:
  assumes "create_seal cfg pd org trig actor per = Inr (pd', r)"
  obtains (none) "pd' = pd" "r = None"
  | (new) s setting batch ds rt where
      "setting_for pd org = Inr (Some setting)" "as_enabled setting" "\<not> exists_open pd org"
      "batch = unsealed pd org (seal_max_batch cfg)" "batch \<noteq> []"
      "digests batch = Inr ds" "merkle_root ds = Inr rt" "sum_minor batch = Inr (se_debit s)"
      "se_id s = pd_next pd" "se_org s = org" "se_seq s = highest_live_seq pd org + 1" "se_root s = hex rt"
      "se_prev s = (case latest_confirmed pd org of Some p \<Rightarrow> se_root p | None \<Rightarrow> GENESIS_ROOT)"
      "se_count s = int (length batch)" "se_first s = lf_seq (hd batch)" "se_last s = lf_seq (last batch)"
      "se_status s = PENDING" "se_contract s = as_contract setting" "r = Some s"
      "pd' = log_event (assign_to_seal (pd\<lparr>seals := seals pd @ [s], pd_next := pd_next pd + 1\<rparr>) batch (se_id s))
         SEAL_CREATED INFO actor (se_id s)"
proof (cases "r = None")
  case True
  with assms have "pd' = pd"
    by (auto simp: create_seal_def Let_def split: option.splits if_splits prod.splits)
  then show thesis using True by (rule none)
next
  case False
  obtain setting where setting: "setting_for pd org = Inr (Some setting)" "as_enabled setting"
      "as_registered_at setting \<noteq> None" "\<not> exists_open pd org" "unsealed pd org (seal_max_batch cfg) \<noteq> []"
    using assms False by (auto simp: create_seal_def Let_def split: option.splits if_splits)
  define batch where "batch = unsealed pd org (seal_max_batch cfg)"
  define previous where "previous = latest_confirmed pd org"
  obtain cf ct where w: "covered_window batch previous = (cf, ct)" by (cases "covered_window batch previous")
  have "bindr (digests batch) (\<lambda>ds. bindr (merkle_root ds) (\<lambda>rt. bindr (sum_minor batch) (\<lambda>debit_minor.
      let s = \<lparr>se_id = pd_next pd, se_org = org, se_seq = highest_live_seq pd org + 1, se_root = hex rt,
          se_prev = (case previous of Some p \<Rightarrow> se_root p | None \<Rightarrow> GENESIS_ROOT),
          se_count = int (length batch), se_debit = debit_minor, se_first = lf_seq (hd batch),
          se_last = lf_seq (last batch), se_from = cf, se_to = ct,
          se_date_from = foldl min (lf_date (hd batch)) (map lf_date (tl batch)),
          se_date_to = foldl max (lf_date (hd batch)) (map lf_date (tl batch)),
          se_trigger = trig, se_period = per, se_status = PENDING,
          se_network = as_network setting, se_contract = as_contract setting, se_tx = None,
          se_ledger = None, se_sealed_at = None, se_submitted_at = None, se_confirmed_at = None,
          se_attempts = 0, se_last_error = None, se_created_by = actor\<rparr>
      in bindr (add_seal pd s) (\<lambda>pd1.
         Inr (log_event (assign_to_seal pd1 batch (se_id s)) SEAL_CREATED INFO actor (se_id s), Some s))))) = Inr (pd', r)"
    using assms setting by (simp add: create_seal_def Let_def batch_def [symmetric] previous_def [symmetric] w split: if_splits)
  then show thesis
    unfolding Let_def
    apply (elim bindr_InrE)
    subgoal premises prems for ds rt debit pd1
      using prems setting
      by (intro new [OF setting(1,2,4) batch_def _ prems(1,2)]) (auto simp: add_seal_def batch_def previous_def)
    done
qed

lemma live_all_confirmed: "\<not> exists_open pd org \<Longrightarrow> s \<in> set (live_seals pd org) \<Longrightarrow> se_status s = CONFIRMED"
  by (cases "se_status s") (auto simp: exists_open_def is_open_seal_def live_seals_def)

lemma latest_confirmed_last:
  assumes "org_ok pd org" "\<not> exists_open pd org"
  shows "latest_confirmed pd org = (if live_seals pd org = [] then None else Some (last (live_seals pd org)))"
proof -
  have "filter (\<lambda>s. se_org s = org \<and> se_status s = CONFIRMED) (seals pd) = live_seals pd org"
    unfolding live_seals_def by (rule filter_cong) (use live_all_confirmed [OF assms(2)] in \<open>auto simp: live_seals_def\<close>)
  moreover have "sorted (map se_seq (live_seals pd org))"
    using assms(1) chained_numbered numbered_sorted by (auto simp: org_ok_def)
  ultimately have "latest_confirmed pd org = first_or_none (rev (live_seals pd org))"
    by (simp add: latest_confirmed_def sort_key_id_if_sorted)
  then show ?thesis by (cases "live_seals pd org" rule: rev_cases) auto
qed

lemma highest_live_length: "org_ok pd org \<Longrightarrow> highest_live_seq pd org = int (length (live_seals pd org))"
  using foldl_max_numbered [of "map se_seq (live_seals pd org)"] chained_numbered
  by (auto simp: highest_live_seq_def live_seals_def org_ok_def)

lemma unsealed_backlog:
  assumes "org_ok pd org"
  shows "unsealed pd org m = take m (drop (sealed_count (live_seals pd org)) (org_leaves pd org))"
proof -
  have "filter (\<lambda>l. lf_org l = org \<and> lf_seal l = None) (leaves pd) = filter (\<lambda>l. lf_seal l = None) (org_leaves pd org)"
    by (simp add: org_leaves_def conj_commute)
  also have "\<dots> = drop (sealed_count (live_seals pd org)) (org_leaves pd org)"
    using assms chained_backlog by (auto simp: org_ok_def)
  finally have f: "filter (\<lambda>l. lf_org l = org \<and> lf_seal l = None) (leaves pd) =
    drop (sealed_count (live_seals pd org)) (org_leaves pd org)" .
  have "sorted (map lf_seq (drop (sealed_count (live_seals pd org)) (org_leaves pd org)))"
    using assms numbered_sorted sorted_wrt_drop by (fastforce simp: org_ok_def simp flip: drop_map)
  then show ?thesis by (simp add: unsealed_def f sort_key_id_if_sorted)
qed

lemma map_stamp_split:
  assumes "distinct (map lf_id (xs @ b @ ys))"
  shows "map (stamp b i) (xs @ b @ ys) = xs @ map (stamp b i) b @ ys"
proof -
  have "map (stamp b i) xs = xs" "map (stamp b i) ys = ys"
    using assms by (auto intro!: map_idI stamp_outside)
  then show ?thesis by simp
qed

lemma org_leaves_map:
  "(\<And>l. lf_org (f l) = lf_org l) \<Longrightarrow> org_leaves (pd\<lparr>leaves := map f (leaves pd)\<rparr>) org = map f (org_leaves pd org)"
  by (simp add: org_leaves_def filter_map comp_def)

lemma inv_new_seal:
  assumes inv: "proof_inv pd" and closed: "\<not> exists_open pd org"
    and batch: "batch = unsealed pd org m" "batch \<noteq> []" "digests batch = Inr ds" "merkle_root ds = Inr rt"
      "sum_minor batch = Inr (se_debit s)"
    and s: "se_id s = pd_next pd" "se_org s = org" "se_seq s = highest_live_seq pd org + 1" "se_root s = hex rt"
      "se_prev s = (case latest_confirmed pd org of Some p \<Rightarrow> se_root p | None \<Rightarrow> GENESIS_ROOT)"
      "se_count s = int (length batch)" "se_first s = lf_seq (hd batch)" "se_last s = lf_seq (last batch)"
      "se_status s = PENDING"
    and pd': "leaves pd' = map (stamp batch (se_id s)) (leaves pd)" "seals pd' = seals pd @ [s]"
      "pd_next pd' = pd_next pd + 1"
  shows "proof_inv pd'"
proof (rule proof_invI)
  define ls where "ls = org_leaves pd org"
  define ss where "ss = live_seals pd org"
  define n where "n = sealed_count ss"
  note rows = proof_invD(1) [OF inv]
  note ok = proof_invD(2) [OF inv, of org]
  have chain: "chained 1 GENESIS_ROOT ss ls" using ok by (simp add: org_ok_def ss_def ls_def)
  have b: "batch = take m (drop n ls)" using unsealed_backlog [OF ok] batch(1) by (simp add: n_def ss_def ls_def)
  define rest where "rest = drop m (drop n ls)"
  have split: "ls = take n ls @ batch @ rest" unfolding b rest_def by (simp only: append_take_drop_id)
  have dist: "distinct (map lf_id (leaves pd))" using rows by (simp add: rows_ok_def)
  have dls: "distinct (map lf_id ls)" unfolding ls_def org_leaves_def using dist by (rule distinct_map_filter)
  have ids: "lf_id ` set batch \<subseteq> lf_id ` set ls" unfolding b by (auto dest: in_set_takeD in_set_dropD)
  have stamp_other: "stamp batch (se_id s) l = l" if "l \<in> set (leaves pd)" "lf_org l \<noteq> org" for l
  proof (rule stamp_outside)
    have "l \<notin> set ls" using that by (simp add: ls_def org_leaves_def)
    moreover have "set ls \<subseteq> set (leaves pd)" by (auto simp: ls_def org_leaves_def)
    ultimately show "lf_id l \<notin> lf_id ` set batch" using ids that(1) inj_onD [OF dist [unfolded distinct_map, THEN conjunct2]] by blast
  qed
  have leaves': "org_leaves pd' o' = map (stamp batch (se_id s)) (org_leaves pd o')" for o'
    using org_leaves_map [of "stamp batch (se_id s)" pd o'] by (simp add: org_leaves_def pd')
  show "rows_ok pd'"
  proof -
    have seal_of: "lf_seal (stamp batch (se_id s) l) = Some i \<Longrightarrow> lf_seal l = Some i \<or> (i = se_id s \<and> lf_org l = org)"
      if "l \<in> set (leaves pd)" for l i
      using stamp_other [OF that] stamp_seal [of batch "se_id s" l] by (cases "lf_org l = org") auto
    have "\<exists>x \<in> set (seals pd'). se_id x = i \<and> se_org x = lf_org l \<and> se_status x \<noteq> FAILED"
      if l: "l \<in> set (leaves pd')" "lf_seal l = Some i" for l i
    proof -
      from l(1) obtain l0 where l0: "l0 \<in> set (leaves pd)" "l = stamp batch (se_id s) l0" by (auto simp: pd')
      from seal_of [OF l0(1)] l(2) l0(2) consider "lf_seal l0 = Some i" | "i = se_id s" "lf_org l0 = org" by auto
      then show ?thesis
      proof cases
        case 1
        with rows l0 show ?thesis by (auto simp: rows_ok_def pd')
      qed (use s l0 in \<open>auto simp: pd'\<close>)
    qed
    moreover have "se_id s \<notin> se_id ` set (seals pd)" using rows s(1) by (auto simp: rows_ok_def)
    ultimately show ?thesis using rows s(1) by (fastforce simp: rows_ok_def pd' comp_def)
  qed
  fix o'
  show "org_ok pd' o'"
  proof (cases "o' = org")
    case False
    have "map (stamp batch (se_id s)) (org_leaves pd o') = org_leaves pd o'"
      by (rule map_idI) (use False stamp_other in \<open>auto simp: org_leaves_def\<close>)
    moreover have "live_seals pd' o' = live_seals pd o'" using False s(2) by (simp add: live_seals_def pd')
    ultimately show ?thesis using proof_invD(2) [OF inv, of o'] by (simp add: org_ok_def leaves')
  next
    case True
    have seals': "live_seals pd' org = ss @ [s]" using s(2,9) by (simp add: live_seals_def pd' ss_def)
    have ls': "org_leaves pd' org = take n ls @ map (stamp batch (se_id s)) batch @ rest"
    proof -
      have "distinct (map lf_id (take n ls @ batch @ rest))" using dls unfolding split [symmetric] .
      from map_stamp_split [OF this, of "se_id s"] show ?thesis by (simp add: leaves' flip: ls_def split)
    qed
    have db: "distinct (map lf_id batch)" unfolding b using dls by (metis distinct_drop distinct_take drop_map take_map)
    have bat: "batch_of s (map (stamp batch (se_id s)) batch)"
      by (rule batch_of_stamped [OF batch(2) db _ _ _ batch(5,3,4)]) (simp_all add: s)
    have "chained 1 GENESIS_ROOT (ss @ [s]) (take n ls @ map (stamp batch (se_id s)) batch @ rest)"
    proof (rule chained_snoc_seal [OF chain])
      show "\<forall>x \<in> set ss. se_status x = CONFIRMED" using live_all_confirmed [OF closed] by (simp add: ss_def)
      show "se_seq s = 1 + int (length ss)" using s(3) highest_live_length [OF ok] by (simp add: ss_def)
      show "se_prev s = last_root GENESIS_ROOT ss"
        using s(5) latest_confirmed_last [OF ok closed] by (simp add: last_root_def ss_def)
      show "\<forall>l \<in> set rest. lf_seal l = None \<and> lf_index l = None"
        unfolding rest_def n_def using chained_backlog_clear [OF chain] in_set_dropD by metis
    qed (use bat sealed_count_le [OF chain] in \<open>simp_all add: n_def\<close>)
    moreover have "map lf_seq (org_leaves pd' org) = map lf_seq ls" by (simp add: leaves' ls_def)
    ultimately show ?thesis using ok True by (simp add: org_ok_def seals' ls' ls_def)
  qed
qed

lemma inv_create_seal:
  assumes "proof_inv pd" "create_seal cfg pd org trig actor per = Inr (pd', r)"
  shows "proof_inv pd'" and "r = Some s \<Longrightarrow> s \<in> set (seals pd') \<and> is_open_seal (se_status s)"
proof -
  have "proof_inv pd' \<and> (r = Some s \<longrightarrow> s \<in> set (seals pd') \<and> is_open_seal (se_status s))"
    using assms(2)
  proof (cases rule: create_seal_cases)
    case none
    with assms(1) show ?thesis by simp
  next
    case (new s' setting batch ds rt)
    have "leaves pd' = map (stamp batch (se_id s')) (leaves pd)" "seals pd' = seals pd @ [s']" "pd_next pd' = pd_next pd + 1"
      unfolding new(20) by (simp_all add: assign_stamp)
    with inv_new_seal [OF assms(1) new(3-8) new(9-17)] show ?thesis using new(17,19) by (auto simp: is_open_seal_def)
  qed
  then show "proof_inv pd'" and "r = Some s \<Longrightarrow> s \<in> set (seals pd') \<and> is_open_seal (se_status s)" by auto
qed

section \<open>Updating a seal\<close>

definition replace_seal :: "seal \<Rightarrow> seal \<Rightarrow> seal" where
  "replace_seal s' x = (if se_id x = se_id s' then s' else x)"

lemma save_seal_ok:
  "save_seal pd s = Inr pd' \<Longrightarrow> seal_checks pd s = Inr () \<and> pd' = pd\<lparr>seals := map (replace_seal s) (seals pd)\<rparr>"
  by (auto simp: save_seal_def update_where_def replace_seal_def)

lemma row_unique: "rows_ok pd \<Longrightarrow> s \<in> set (seals pd) \<Longrightarrow> x \<in> set (seals pd) \<Longrightarrow> se_id x = se_id s \<Longrightarrow> x = s"
  by (auto simp: rows_ok_def distinct_map dest: inj_onD)

lemma rows_okI:
  assumes "map lf_id (leaves pd') = map lf_id (leaves pd)" "map lf_entry (leaves pd') = map lf_entry (leaves pd)"
    "map se_id (seals pd') = map se_id (seals pd)" "pd_next pd' = pd_next pd" "rows_ok pd"
    and "\<And>l i. l \<in> set (leaves pd') \<Longrightarrow> lf_seal l = Some i \<Longrightarrow>
      \<exists>x \<in> set (seals pd'). se_id x = i \<and> se_org x = lf_org l \<and> se_status x \<noteq> FAILED"
  shows "rows_ok pd'"
proof -
  have bound: "f x < k" if "map f xs = map f ys" "x \<in> set xs" "\<forall>y \<in> set ys. f y < k"
    for f :: "'a \<Rightarrow> int" and xs ys x k
  proof -
    have "f x \<in> set (map f xs)" using that(2) by simp
    then have "f x \<in> set (map f ys)" by (simp only: that(1))
    then show ?thesis using that(3) by auto
  qed
  have old: "distinct (map lf_id (leaves pd))" "distinct (map lf_entry (leaves pd))" "distinct (map se_id (seals pd))"
      "\<forall>l \<in> set (leaves pd). lf_id l < pd_next pd" "\<forall>s \<in> set (seals pd). se_id s < pd_next pd"
    using assms(5) by (simp_all add: rows_ok_def)
  show ?thesis
    unfolding rows_ok_def assms(1-4)
    using old(1-3) bound [OF assms(1) _ old(4)] bound [OF assms(3) _ old(5)] assms(6) by blast
qed

lemma sealed_leaf_seal:
  assumes "rows_ok pd" "l \<in> set (leaves pd)" "lf_seal l = Some i"
  obtains s where "s \<in> set (seals pd)" "se_id s = i" "se_org s = lf_org l" "se_status s \<noteq> FAILED"
  using assms unfolding rows_ok_def by blast

definition current :: "proof_db \<Rightarrow> seal \<Rightarrow> bool" where
  "current pd s \<longleftrightarrow> proof_inv pd \<and> s \<in> set (seals pd) \<and> is_open_seal (se_status s)"

lemma open_not: "is_open_seal st \<Longrightarrow> st \<noteq> FAILED \<and> st \<noteq> CONFIRMED"
  by (auto simp: is_open_seal_def)

lemma inv_replace_seal:
  assumes cur: "current pd s" and core: "same_core s s'" and live: "se_status s' \<noteq> FAILED"
    and pd': "pd' = pd\<lparr>seals := map (replace_seal s') (seals pd)\<rparr>"
  shows "proof_inv pd' \<and> s' \<in> set (seals pd')"
proof
  have inv: "proof_inv pd" and s: "s \<in> set (seals pd)" and op: "is_open_seal (se_status s)"
    using cur by (simp_all add: current_def)
  note rows = proof_invD(1) [OF inv]
  have id: "se_id s' = se_id s" "se_org s' = se_org s" using core by (simp_all add: same_core_def)
  have f: "replace_seal s' x = (if x = s then s' else x)" if "x \<in> set (seals pd)" for x
    using row_unique [OF rows s that] id by (auto simp: replace_seal_def)
  have keep: "se_id (replace_seal s' x) = se_id x" "se_org (replace_seal s' x) = se_org x"
      "se_status (replace_seal s' x) \<noteq> FAILED \<longleftrightarrow> se_status x \<noteq> FAILED" if "x \<in> set (seals pd)" for x
    using f [OF that] id live open_not [OF op] by auto
  show "s' \<in> set (seals pd')" using s f [OF s] by (force simp: pd')
  show "proof_inv pd'"
  proof (rule proof_invI)
    have ids: "map se_id (seals pd') = map se_id (seals pd)" using keep(1) by (auto simp: pd')
    have old: "\<exists>x \<in> set (seals pd'). se_id x = i \<and> se_org x = org \<and> se_status x \<noteq> FAILED"
      if "x \<in> set (seals pd)" "se_id x = i" "se_org x = org" "se_status x \<noteq> FAILED" for x i org
      using keep [OF that(1)] that by (intro bexI [of _ "replace_seal s' x"]) (auto simp: pd')
    have "\<exists>x \<in> set (seals pd'). se_id x = i \<and> se_org x = lf_org l \<and> se_status x \<noteq> FAILED"
      if "l \<in> set (leaves pd')" "lf_seal l = Some i" for l i
    proof -
      have "l \<in> set (leaves pd)" using that by (simp add: pd')
      from sealed_leaf_seal [OF rows this that(2)] show ?thesis using old by metis
    qed
    with rows ids show "rows_ok pd'" by (intro rows_okI [of pd' pd]) (simp_all add: pd')
    fix org
    have live': "live_seals pd' org = map (replace_seal s') (live_seals pd org)"
      unfolding live_seals_def pd' using keep by (auto simp: filter_map comp_def intro!: arg_cong [of _ _ "map _"] filter_cong)
    have sub: "set (live_seals pd org) \<subseteq> set (seals pd)" by (auto simp: live_seals_def)
    have "chained 1 GENESIS_ROOT (map (replace_seal s') (live_seals pd org)) (org_leaves pd org)"
    proof (rule chained_update)
      show "\<forall>x \<in> set (live_seals pd org). same_core x (replace_seal s' x)"
        using f sub core by (auto simp: same_core_def)
      show "\<forall>x \<in> set (live_seals pd org). se_status x = CONFIRMED \<longrightarrow> se_status (replace_seal s' x) = CONFIRMED"
        using f sub open_not [OF op] by auto
    qed (use proof_invD(2) [OF inv, of org] in \<open>simp add: org_ok_def\<close>)
    then show "org_ok pd' org"
      using proof_invD(2) [OF inv, of org] by (simp add: org_ok_def live') (simp add: org_leaves_def pd')
  qed
qed

lemma inv_save_seal:
  assumes "current pd s" "same_core s s'" "se_status s' \<noteq> FAILED" "save_seal pd s' = Inr pd'"
  shows "proof_inv pd'" "is_open_seal (se_status s') \<Longrightarrow> current pd' s'"
  using inv_replace_seal [OF assms(1-3)] save_seal_ok [OF assms(4)] by (auto simp: current_def)

lemma inv_fail_seal:
  assumes cur: "current pd s" and fail: "fail_seal pd s reason sev = Inr (pd', s')"
  shows "proof_inv pd'"
proof -
  have inv: "proof_inv pd" and s: "s \<in> set (seals pd)" and op: "is_open_seal (se_status s)"
    using cur by (simp_all add: current_def)
  note rows = proof_invD(1) [OF inv]
  define s1 where "s1 = s\<lparr>se_status := FAILED, se_last_error := Some (take 2000 reason)\<rparr>"
  obtain pd1 where pd1: "save_seal pd s1 = Inr pd1"
      "pd' = log_event (release_from_seal pd1 (se_id s)) SEAL_FAILED sev None (se_id s)"
    using fail by (auto simp: fail_seal_def s1_def Let_def)
  have fields: "seals pd' = map (replace_seal s1) (seals pd)" "leaves pd' = map (cleared (se_id s)) (leaves pd)"
      "pd_next pd' = pd_next pd"
    using save_seal_ok [OF pd1(1)] by (simp_all add: pd1(2) release_from_seal_def update_where_def cleared_def)
  have f: "replace_seal s1 x = (if x = s then s1 else x)" if "x \<in> set (seals pd)" for x
    using row_unique [OF rows s that] by (auto simp: replace_seal_def s1_def)
  have failed: "se_status s1 = FAILED" by (simp add: s1_def)
  have keep: "se_id (replace_seal s1 x) = se_id x" if "x \<in> set (seals pd)" for x
    using f [OF that] by (auto simp: s1_def)
  have clr: "lf_id (cleared i l) = lf_id l" "lf_entry (cleared i l) = lf_entry l" "lf_org (cleared i l) = lf_org l"
      "lf_seq (cleared i l) = lf_seq l" for i l by (simp_all add: cleared_def)
  show ?thesis
  proof (rule proof_invI)
    have "\<exists>x \<in> set (seals pd'). se_id x = i \<and> se_org x = lf_org l \<and> se_status x \<noteq> FAILED"
      if "l \<in> set (leaves pd')" "lf_seal l = Some i" for l i
    proof -
      from that obtain l0 where l0: "l0 \<in> set (leaves pd)" "l = cleared (se_id s) l0" by (auto simp: fields)
      with that have l: "lf_seal l0 = Some i" "i \<noteq> se_id s" by (auto simp: cleared_def split: if_splits)
      obtain x where "x \<in> set (seals pd)" "se_id x = i" "se_org x = lf_org l0" "se_status x \<noteq> FAILED"
        using rows l0(1) l(1) by (rule sealed_leaf_seal)
      then show ?thesis using f [of x] l l0 by (intro bexI [of _ x]) (auto simp: fields clr image_iff intro!: bexI [of _ x])
    qed
    moreover have "map se_id (seals pd') = map se_id (seals pd)" using keep by (auto simp: fields)
    ultimately show "rows_ok pd'" using rows by (intro rows_okI [of pd' pd]) (simp_all add: fields clr comp_def)
    fix org
    have leaves': "org_leaves pd' org = map (cleared (se_id s)) (org_leaves pd org)"
      by (simp add: org_leaves_def fields filter_map comp_def clr)
    have num: "numbered (map lf_seq (org_leaves pd' org))"
      using proof_invD(2) [OF inv, of org] by (simp add: org_ok_def leaves' clr comp_def)
    have live: "live_seals pd' org = filter (\<lambda>x. x \<noteq> s) (live_seals pd org)"
    proof -
      have step: "filter P (map (replace_seal s1) xs) = filter (\<lambda>x. P x \<and> x \<noteq> s) xs"
        if "set xs \<subseteq> set (seals pd)" "P = (\<lambda>x. se_org x = org \<and> se_status x \<noteq> FAILED)" for xs P
        using that(1) by (induction xs) (auto simp: that(2) f failed)
      show ?thesis unfolding live_seals_def fields by (subst step) auto
    qed
    show "org_ok pd' org"
    proof (cases "se_org s = org")
      case True
      have mem: "s \<in> set (live_seals pd org)" using s True open_not [OF op] by (simp add: live_seals_def)
      have chain: "chained 1 GENESIS_ROOT (live_seals pd org) (org_leaves pd org)"
        using proof_invD(2) [OF inv, of org] by (simp add: org_ok_def)
      obtain init where init: "live_seals pd org = init @ [s]"
        using chained_open_last [OF chain mem] open_not [OF op] by auto
      have "distinct (map se_id (live_seals pd org))"
        unfolding live_seals_def using rows by (intro distinct_map_filter) (simp add: rows_ok_def)
      then have diff: "\<forall>x \<in> set init. se_id x \<noteq> se_id s" unfolding init by (simp add: image_iff) metis
      then have "filter (\<lambda>x. x \<noteq> s) (live_seals pd org) = init" unfolding init by (auto intro: filter_True)
      then show ?thesis
        using chained_release [of 1 GENESIS_ROOT init s, OF chain [unfolded init] diff] num by (simp add: org_ok_def live leaves')
    next
      case False
      then have "filter (\<lambda>x. x \<noteq> s) (live_seals pd org) = live_seals pd org"
        by (intro filter_True) (auto simp: live_seals_def)
      moreover have "map (cleared (se_id s)) (org_leaves pd org) = org_leaves pd org"
      proof (rule map_idI)
        fix l assume l: "l \<in> set (org_leaves pd org)"
        then have "l \<in> set (leaves pd)" "lf_org l = org" by (auto simp: org_leaves_def)
        then have "lf_seal l \<noteq> Some (se_id s)"
          using rows row_unique [OF rows s] False unfolding rows_ok_def by metis
        then show "cleared (se_id s) l = l" by (simp add: cleared_def)
      qed
      ultimately show ?thesis using proof_invD(2) [OF inv, of org] by (simp add: org_ok_def live leaves')
    qed
  qed
qed

section \<open>Submitting\<close>

lemma inv_resolve:
  assumes cur: "current pd s" and res: "resolve_against_chain client pd s = Inr (pd', s')"
  shows "proof_inv pd'"
proof -
  from res obtain v where v: "read_seal client (se_seq s) = Inr v" by (auto simp: resolve_against_chain_def)
  show ?thesis
  proof (cases "\<exists>w. v = Some w \<and> sv_root w = se_root s")
    case False
    then show ?thesis using res v inv_fail_seal [OF cur]
      by (auto simp: resolve_against_chain_def split: option.splits if_splits)
  next
    case True
    then obtain w where w: "v = Some w" "sv_root w = se_root s" by blast
    define s1 where "s1 = s\<lparr>se_status := CONFIRMED, se_sealed_at := Some (sv_at w), se_confirmed_at := Some (clock pd)\<rparr>"
    from res v w obtain pd1 where pd1: "save_seal pd s1 = Inr pd1"
        "leaves pd' = leaves pd1" "seals pd' = seals pd1" "pd_next pd' = pd_next pd1"
      by (auto simp: resolve_against_chain_def s1_def Let_def)
    have "proof_inv pd1" by (rule inv_save_seal(1) [OF cur _ _ pd1(1)]) (simp_all add: s1_def same_core_def)
    then show ?thesis by (rule proof_inv_frame) (simp_all add: pd1)
  qed
qed

lemma inv_confirm:
  assumes cur: "current pd s" and res: "confirm_seal client pd s out = Inr (pd', s')"
  shows "proof_inv pd'"
proof -
  from res obtain v where v: "read_seal client (se_seq s) = Inr v" by (auto simp: confirm_seal_def)
  define s1 where "s1 = s\<lparr>se_status := CONFIRMED, se_tx := so_tx out, se_ledger := so_ledger out,
    se_confirmed_at := Some (clock pd),
    se_sealed_at := (case v of Some v \<Rightarrow> Some (sv_at v) | None \<Rightarrow> so_network_time out), se_last_error := None\<rparr>"
  from res v obtain pd1 where pd1: "save_seal pd s1 = Inr pd1" "pd' = log_event pd1 SEAL_CONFIRMED INFO None (se_id s)"
    by (auto simp: confirm_seal_def s1_def Let_def)
  have "proof_inv pd1" by (rule inv_save_seal(1) [OF cur _ _ pd1(1)]) (simp_all add: s1_def same_core_def)
  then show ?thesis by (rule proof_inv_frame) (simp_all add: pd1)
qed

lemma inv_save_open:
  assumes "current pd s" "same_core s s'" "is_open_seal (se_status s')"
    "bindr (save_seal pd s') (\<lambda>pd1. Inr (pd1, s')) = Inr (pd', x)"
  shows "proof_inv pd'"
  using assms inv_save_seal(1) [OF assms(1,2)] open_not [OF assms(3)] by auto

lemma inv_rejected:
  assumes cur: "current pd s" and res: "rejected_seal pd s out = Inr (pd', s')"
  shows "proof_inv pd'"
proof -
  from res obtain s1 pd1 where s1: "same_core s s1" "se_status s1 = PENDING" "save_seal pd s1 = Inr pd1"
      "(\<exists>r. fail_seal pd1 s1 r CRITICAL = Inr (pd', s')) \<or> pd' = pd1"
    unfolding rejected_seal_def Let_def
    apply (elim bindr_InrE)
    subgoal premises prems for pd1
      by (rule prems(1) [OF _ _ prems(2)]) (use prems(3) in \<open>auto simp: same_core_def split: if_splits\<close>)
    done
  have "current pd1 s1" using inv_save_seal(2) [OF cur s1(1) _ s1(3)] s1(2) by (simp add: is_open_seal_def)
  then show ?thesis using s1(4) inv_fail_seal by (auto simp: current_def)
qed

lemma inv_apply_outcome:
  assumes cur: "current pd s" and res: "apply_outcome client pd s out = Inr (pd', s')"
  shows "proof_inv pd'"
proof -
  consider "confirm_seal client pd s out = Inr (pd', s')"
    | "bindr (save_seal pd (s\<lparr>se_status := SUBMITTED, se_tx := so_tx out, se_last_error := so_message out\<rparr>))
         (\<lambda>pd1. Inr (pd1, s\<lparr>se_status := SUBMITTED, se_tx := so_tx out, se_last_error := so_message out\<rparr>)) = Inr (pd', s')"
    | "resolve_against_chain client pd s = Inr (pd', s')" | "rejected_seal pd s out = Inr (pd', s')"
    using res by (auto simp: apply_outcome_def Let_def split: if_splits option.splits)
  then show ?thesis
  proof cases
    case 2
    show ?thesis by (rule inv_save_open [OF cur _ _ 2]) (simp_all add: same_core_def is_open_seal_def)
  qed (use cur in \<open>blast intro: inv_confirm inv_resolve inv_rejected\<close>)+
qed

lemma settle_inv:
  "proof_inv pd0 \<Longrightarrow> proof_inv pd \<Longrightarrow> (\<And>pd' s'. m = Inr (pd', s') \<Longrightarrow> proof_inv pd') \<Longrightarrow> proof_inv (fst (settle pd0 pd m))"
  by (auto simp: settle_def split: sum.split error.split)

text \<open>The five ways a submission can leave the tables.\<close>

lemma submit_cases:
  obtains (unchanged) "fst (submit client pd s) = pd"
  | (failed) r sv where "fst (submit client pd s) = fst (settle pd pd (fail_seal pd s r sv))"
  | (noted) x where "fst (submit client pd s) =
      fst (settle pd pd (bindr (save_seal pd (s\<lparr>se_last_error := x\<rparr>)) (\<lambda>pd1. Inr (pd1, s\<lparr>se_last_error := x\<rparr>))))"
  | (resolved) "fst (submit client pd s) = fst (settle pd pd (resolve_against_chain client pd s))"
  | (tried) s1 pd1 where "s1 = s\<lparr>se_attempts := se_attempts s + 1, se_submitted_at := Some (clock pd), se_status := SUBMITTED\<rparr>"
      "save_seal pd s1 = Inr pd1"
      "fst (submit client pd s) = pd1 \<or>
       fst (submit client pd s) = fst (settle pd pd1 (bindr (submit_seal client) (apply_outcome client pd1 s1)))"
proof -
  let ?s1 = "s\<lparr>se_attempts := se_attempts s + 1, se_submitted_at := Some (clock pd), se_status := SUBMITTED\<rparr>"
  show thesis
  proof (cases "\<exists>setting. setting_for pd (se_org s) = Inr (Some setting) \<and> is_ready setting")
    case False
    then show thesis
      by (cases "setting_for pd (se_org s)") (auto simp: submit_def split: option.splits intro: failed unchanged)
  next
    case True
    then obtain setting where set: "setting_for pd (se_org s) = Inr (Some setting)" "is_ready setting" by blast
    show thesis
    proof (cases "read_book client")
      case (Inl e)
      then show thesis
        by (cases e) (auto simp: submit_def set Let_def intro: noted unchanged)
    next
      case (Inr view)
      show thesis
      proof (cases view)
        case None
        then show thesis using Inr by (auto simp: submit_def set intro: failed)
      next
        case (Some book)
        consider "bv_head book \<ge> se_seq s" | "bv_head book < se_seq s - 1"
          | "bv_head book = se_seq s - 1" "bv_root book \<noteq> se_prev s"
          | "bv_head book = se_seq s - 1" "bv_root book = se_prev s"
          by linarith
        then show thesis
        proof cases
          case 4
          then have "fst (submit client pd s) = (case save_seal pd ?s1 of Inl e \<Rightarrow> pd | Inr pd1 \<Rightarrow>
              if \<not> truthy (as_secret setting) then pd1
              else fst (settle pd pd1 (bindr (submit_seal client) (apply_outcome client pd1 ?s1))))"
            using Inr Some by (simp add: submit_def set Let_def split: sum.split)
          then show thesis
            by (cases "save_seal pd ?s1") (auto intro: unchanged tried [OF refl] split: if_splits)
        qed (use Inr Some in \<open>auto simp: submit_def set Let_def intro: resolved noted failed\<close>)
      qed
    qed
  qed
qed

lemma inv_submit:
  assumes cur: "current pd s"
  shows "proof_inv (fst (submit client pd s))"
proof -
  have inv: "proof_inv pd" using cur by (simp add: current_def)
  note settle_same = settle_inv [OF inv inv]
  have fail: "proof_inv (fst (settle pd pd (fail_seal pd s r sv)))" for r sv
    using inv_fail_seal [OF cur] by (intro settle_same)
  have save: "proof_inv (fst (settle pd pd (bindr (save_seal pd (s\<lparr>se_last_error := x\<rparr>)) (\<lambda>pd1. Inr (pd1, s\<lparr>se_last_error := x\<rparr>)))))" for x
    using inv_save_open [OF cur, of "s\<lparr>se_last_error := x\<rparr>"] cur
    by (intro settle_same) (auto simp: same_core_def current_def)
  have resolve: "proof_inv (fst (settle pd pd (resolve_against_chain client pd s)))"
    using inv_resolve [OF cur] by (intro settle_same)
  have attempt: "proof_inv (fst (settle pd pd1 (bindr (submit_seal client) (apply_outcome client pd1 s1))))" "proof_inv pd1"
    if "s1 = s\<lparr>se_attempts := se_attempts s + 1, se_submitted_at := Some (clock pd), se_status := SUBMITTED\<rparr>"
      "save_seal pd s1 = Inr pd1" for s1 pd1
  proof -
    have "same_core s s1" "is_open_seal (se_status s1)" "se_status s1 \<noteq> FAILED"
      by (simp_all add: that(1) same_core_def is_open_seal_def)
    then show "proof_inv pd1" and "proof_inv (fst (settle pd pd1 (bindr (submit_seal client) (apply_outcome client pd1 s1))))"
      using inv_save_seal [OF cur _ _ that(2)] inv_apply_outcome by (auto intro!: settle_inv [OF inv])
  qed
  show ?thesis
  proof (cases rule: submit_cases [of client pd s])
    case (tried s1 pd1)
    then show ?thesis using attempt [OF tried(1,2)] by metis
  qed (use inv fail save resolve in simp_all)
qed

lemma seal_by_id_row: "seal_by_id pd i = Some s \<Longrightarrow> s \<in> set (seals pd) \<and> se_id s = i"
  unfolding seal_by_id_def by (rule first_or_none_Some)

section \<open>What submitting one seal cannot touch\<close>

text \<open>
  A relation between the tables before and after that the three primitive writes of a submission respect:
  saving the seal's row, releasing its leaves, logging. Every operation on that seal respects it.
\<close>

locale seal_frame =
  fixes R :: "proof_db \<Rightarrow> proof_db \<Rightarrow> bool" and i :: uuid
  assumes refl: "R pd pd" and trans: "R a b \<Longrightarrow> R b c \<Longrightarrow> R a c"
    and save: "save_seal pd s = Inr pd' \<Longrightarrow> se_id s = i \<Longrightarrow> R pd pd'"
    and release: "R pd (release_from_seal pd i)"
    and log: "R pd (log_event pd ev sv actor j)"
begin

lemma logged: "R a b \<Longrightarrow> R a (log_event b ev sv actor j)"
  by (rule trans [OF _ log])

lemma released: "R a b \<Longrightarrow> j = i \<Longrightarrow> R a (release_from_seal b j)"
  by (simp add: trans [OF _ release])

lemma fail: "fail_seal pd s r sv = Inr (pd', s') \<Longrightarrow> se_id s = i \<Longrightarrow> R pd pd'"
  by (auto simp: fail_seal_def Let_def dest!: save intro!: logged released)

lemma resolve:
  assumes "resolve_against_chain client pd s = Inr (pd', s')" "se_id s = i"
  shows "R pd pd'"
  using assms fail unfolding resolve_against_chain_def
  by (auto simp: Let_def split: option.splits if_splits dest!: save intro!: logged)

lemma confirm: "confirm_seal client pd s out = Inr (pd', s') \<Longrightarrow> se_id s = i \<Longrightarrow> R pd pd'"
  by (auto simp: confirm_seal_def Let_def dest!: save intro!: logged)

lemma rejected:
  assumes "rejected_seal pd s out = Inr (pd', s')" "se_id s = i"
  shows "R pd pd'"
  using assms unfolding rejected_seal_def Let_def
  apply (elim bindr_InrE)
  subgoal premises prems for pd1
    using prems(3) save [OF prems(2)] prems(1) by (auto split: if_splits intro: trans dest!: fail)
  done

lemma outcome:
  assumes "apply_outcome client pd s out = Inr (pd', s')" "se_id s = i"
  shows "R pd pd'"
  using assms confirm resolve rejected
  by (auto simp: apply_outcome_def Let_def split: if_splits option.splits dest!: save)

lemma settled: "R pd0 pd \<Longrightarrow> (\<And>pd' s'. m = Inr (pd', s') \<Longrightarrow> R pd0 pd') \<Longrightarrow> R pd0 (fst (settle pd0 pd m))"
  by (auto simp: settle_def refl split: sum.split error.split)

lemma submitted:
  assumes i: "se_id s = i"
  shows "R pd (fst (submit client pd s))"
proof (cases rule: submit_cases [of client pd s])
  case unchanged
  then show ?thesis by (simp add: refl)
next
  case (failed r sv)
  have "R pd (fst (settle pd pd (fail_seal pd s r sv)))" by (rule settled [OF refl]) (rule fail [OF _ i])
  then show ?thesis by (simp add: failed)
next
  case (noted x)
  have "R pd (fst (settle pd pd (bindr (save_seal pd (s\<lparr>se_last_error := x\<rparr>)) (\<lambda>pd1. Inr (pd1, s\<lparr>se_last_error := x\<rparr>)))))"
    by (rule settled [OF refl]) (auto dest!: save simp: i)
  then show ?thesis by (simp add: noted)
next
  case resolved
  have "R pd (fst (settle pd pd (resolve_against_chain client pd s)))" by (rule settled [OF refl]) (rule resolve [OF _ i])
  then show ?thesis by (simp add: resolved)
next
  case (tried s1 pd1)
  have id: "se_id s1 = i" by (simp add: tried(1) i)
  have k: "R pd pd1" by (rule save [OF tried(2) id])
  have "R pd (fst (settle pd pd1 (bindr (submit_seal client) (apply_outcome client pd1 s1))))"
    by (rule settled [OF k]) (auto dest!: outcome simp: id intro: trans [OF k])
  then show ?thesis using k tried(3) by auto
qed

end

text \<open>The rows of the other seals.\<close>

definition others_kept :: "uuid \<Rightarrow> proof_db \<Rightarrow> proof_db \<Rightarrow> bool" where
  "others_kept i pd pd' \<longleftrightarrow> (\<forall>x \<in> set (seals pd). se_id x \<noteq> i \<longrightarrow> x \<in> set (seals pd'))"

interpretation others: seal_frame "others_kept i" i for i
  by unfold_locales
     (auto dest!: save_seal_ok simp: others_kept_def replace_seal_def image_iff release_from_seal_def intro!: bexI)

text \<open>What a leaf commits to, as opposed to where it is sealed.\<close>

definition leaf_key :: "seal_leaf \<Rightarrow> uuid \<times> uuid \<times> uuid \<times> int \<times> string \<times> date \<times> decimal" where
  "leaf_key l = (lf_id l, lf_org l, lf_entry l, lf_seq l, lf_hash l, lf_date l, lf_debit l)"

definition keys_kept :: "proof_db \<Rightarrow> proof_db \<Rightarrow> bool" where
  "keys_kept pd pd' \<longleftrightarrow> map leaf_key (leaves pd') = map leaf_key (leaves pd)"

interpretation keys: seal_frame keys_kept i for i
  by unfold_locales
     (auto dest!: save_seal_ok simp: keys_kept_def release_from_seal_def update_where_def leaf_key_def)

lemma inv_drain_loop:
  "proof_inv pd \<Longrightarrow> distinct is \<Longrightarrow> (\<forall>i \<in> set is. \<exists>s \<in> set (seals pd). se_id s = i \<and> is_open_seal (se_status s)) \<Longrightarrow>
   proof_inv (drain_loop client pd is)"
proof (induction client pd "is" rule: drain_loop.induct)
  case (2 client pd i rest)
  show ?case
  proof (cases "seal_by_id pd i")
    case None
    then show ?thesis using 2 by simp
  next
    case (Some s)
    from 2(5) obtain s0 where s0: "s0 \<in> set (seals pd)" "se_id s0 = i" "is_open_seal (se_status s0)" by auto
    from seal_by_id_row [OF Some] have "s = s0"
      using row_unique [OF proof_invD(1) [OF 2(3)] s0(1)] s0(2) by simp
    with s0 2(3) have cur: "current pd s" by (simp add: current_def)
    have "\<forall>j \<in> set rest. \<exists>s' \<in> set (seals (fst (submit (client i) pd s))). se_id s' = j \<and> is_open_seal (se_status s')"
      using 2(4,5) others.submitted [of s "se_id s" pd "client i"] s0 \<open>s = s0\<close> unfolding others_kept_def by (metis distinct.simps(2) list.set_intros(2))
    then show ?thesis using 2(2) [OF Some inv_submit [OF cur]] 2(4) Some by simp
  qed
qed simp

lemma open_work_props: "s \<in> set (open_work pd m) \<Longrightarrow> s \<in> set (seals pd) \<and> is_open_seal (se_status s)"
  by (auto simp: open_work_def dest!: in_set_takeD)

lemma open_work_distinct: "rows_ok pd \<Longrightarrow> distinct (map se_id (open_work pd m))"
  unfolding open_work_def rows_ok_def
  by (simp add: distinct_map distinct_take inj_on_def) (auto dest!: in_set_takeD simp: distinct_map inj_on_def)

lemma inv_drain: "proof_inv pd \<Longrightarrow> proof_inv (drain client pd m)"
  unfolding drain_def
  by (rule inv_drain_loop) (auto simp: open_work_distinct [OF proof_invD(1)] dest: open_work_props)

lemma inv_seal_now:
  assumes "proof_inv pd" "seal_now cfg client pd org actor = Inr (pd', r)"
  shows "proof_inv pd'"
proof -
  from assms(2) obtain pd1 c where c: "create_seal cfg pd org ON_BUTTON (Some actor) None = Inr (pd1, c)"
    by (auto simp: seal_now_def)
  note inv1 = inv_create_seal [OF assms(1) c]
  show ?thesis
  proof (cases c)
    case None
    then show ?thesis using assms(2) c inv1(1) by (simp add: seal_now_def)
  next
    case (Some s)
    then have "current pd1 s" using inv1 by (simp add: current_def)
    from inv_submit [OF this, of client] show ?thesis
      using assms(2) c Some by (auto simp: seal_now_def split: prod.splits sum.splits)
  qed
qed

lemma inv_reconcile_loop:
  "proof_inv pd \<Longrightarrow> distinct (map se_id ss) \<Longrightarrow> (\<forall>s \<in> set ss. s \<in> set (seals pd) \<and> is_open_seal (se_status s)) \<Longrightarrow>
   reconcile_loop client book pd org ss n = Inr (pd', m) \<Longrightarrow> proof_inv pd'"
proof (induction client book pd org ss n rule: reconcile_loop.induct)
  case (2 client book pd org s rest changed)
  show ?case
  proof (cases "se_org s \<noteq> org \<or> \<not> bv_head book \<ge> se_seq s")
    case True
    then show ?thesis using 2 by (auto split: if_splits)
  next
    case False
    with 2(7) obtain pd1 s1 where r: "resolve_against_chain client pd s = Inr (pd1, s1)"
        "reconcile_loop client book pd1 org rest (changed + 1) = Inr (pd', m)"
      by auto
    have cur: "current pd s" using 2(4,6) by (simp add: current_def)
    have "\<forall>x \<in> set rest. x \<in> set (seals pd1) \<and> is_open_seal (se_status x)"
    proof
      fix x assume x: "x \<in> set rest"
      then have "se_id x \<noteq> se_id s" using 2(5) by (simp add: image_iff) metis
      then show "x \<in> set (seals pd1) \<and> is_open_seal (se_status x)"
        using others.resolve [OF r(1) refl] 2(6) x unfolding others_kept_def by simp
    qed
    then show ?thesis using 2(2) [OF _ _ r(1)] False inv_resolve [OF cur r(1)] 2(5) r(2) by simp
  qed
qed simp

lemma inv_reconcile:
  assumes "proof_inv pd" "reconcile client pd org = Inr (pd', r)"
  shows "proof_inv pd'"
proof -
  from assms(2) consider "pd' = pd"
    | book n where "reconcile_loop client book pd org (open_work pd 100) 0 = Inr (pd', n)"
    by (auto simp: reconcile_def Let_def split: option.splits if_splits)
  then show ?thesis
  proof cases
    case 2
    show ?thesis
      by (rule inv_reconcile_loop [OF assms(1) open_work_distinct [OF proof_invD(1) [OF assms(1)]] _ 2])
         (use open_work_props in blast)
  qed (use assms in simp)
qed

lemma keys_kept_refl: "leaves pd' = leaves pd \<Longrightarrow> keys_kept pd pd'"
  by (simp add: keys_kept_def)

lemma keys_create: "create_seal cfg pd org trig actor per = Inr (pd', r) \<Longrightarrow> keys_kept pd pd'"
  by (cases rule: create_seal_cases) (auto simp: keys_kept_def assign_stamp leaf_key_def)

lemma keys_drain_loop: "keys_kept pd (drain_loop client pd is)"
proof (induction client pd "is" rule: drain_loop.induct)
  case (2 client pd i rest)
  show ?case
  proof (cases "seal_by_id pd i")
    case (Some x)
    then show ?thesis using keys.trans [OF keys.submitted [OF refl] 2(2) [OF Some]] by simp
  qed (use 2 in simp)
qed (simp add: keys.refl)

lemma keys_drain: "keys_kept pd (drain client pd m)"
  unfolding drain_def by (rule keys_drain_loop)

lemma keys_seal_now: "seal_now cfg client pd org actor = Inr (pd', r) \<Longrightarrow> keys_kept pd pd'"
proof -
  assume a: "seal_now cfg client pd org actor = Inr (pd', r)"
  then obtain pd1 c where c: "create_seal cfg pd org ON_BUTTON (Some actor) None = Inr (pd1, c)"
    by (auto simp: seal_now_def)
  have "pd' = pd1 \<or> (\<exists>s. pd' = fst (submit client pd1 s))"
    using a c by (auto simp: seal_now_def split: option.splits prod.splits sum.splits) (metis fst_conv)
  then show ?thesis using keys_create [OF c] keys.submitted [OF refl] keys.trans by blast
qed

lemma keys_reconcile_loop: "reconcile_loop client book pd org ss n = Inr (pd', m) \<Longrightarrow> keys_kept pd pd'"
proof (induction client book pd org ss n rule: reconcile_loop.induct)
  case (2 client book pd org s rest changed)
  show ?case
  proof (cases "se_org s = org \<and> bv_head book \<ge> se_seq s")
    case True
    with 2(4) obtain pd1 s1 where r: "resolve_against_chain client pd s = Inr (pd1, s1)"
        "reconcile_loop client book pd1 org rest (changed + 1) = Inr (pd', m)"
      by auto
    from 2(2) [OF _ _ r(1) refl r(2)] True keys.resolve [OF r(1) refl] show ?thesis using keys.trans by blast
  qed (use 2 in \<open>auto split: if_splits\<close>)
qed (simp add: keys.refl)

lemma keys_reconcile:
  assumes "reconcile client pd org = Inr (pd', r)"
  shows "keys_kept pd pd'"
proof -
  from assms consider "pd' = pd"
    | book n where "reconcile_loop client book pd org (open_work pd 100) 0 = Inr (pd', n)"
    by (auto simp: reconcile_def Let_def split: option.splits if_splits)
  then show ?thesis by cases (auto simp: keys.refl intro: keys_reconcile_loop)
qed

end
