(* ===== verification/Attestation.thy ===== *)
theory Attestation
  imports Seal_Chain Ledger_Properties
begin

text \<open>
  The ledger and the proof ledger together: the accounting services with the subscriptions of
  \<^verbatim>\<open>attestation/hooks.py\<close> installed, the seal operations interleaved with them in any order, and
  \<^verbatim>\<open>VerifyService\<close> of \<^verbatim>\<open>attestation/service.py\<close>. Every leaf commits to a posted entry as it is now, so a
  proof can be issued for every entry under a confirmed seal and it verifies; and a bundle that verifies
  is about an entry that was sealed, or exhibits a SHA-256 collision.
\<close>

section \<open>What a ledger step tells the subscribers\<close>

lemma account_ops_hook:
  "add_account st a = Inr st' \<Longrightarrow> hook_state st' = hook_state st"
  "add_journal st j = Inr st' \<Longrightarrow> hook_state st' = hook_state st"
  "seed_accounts st org bc specs = Inr (st', bc') \<Longrightarrow> hook_state st' = hook_state st"
  "seed_journals st org js = Inr st' \<Longrightarrow> hook_state st' = hook_state st"
  "sync_specs st org ex specs n = Inr (st', m) \<Longrightarrow> hook_state st' = hook_state st"
proof -
  have a: "add_account st a = Inr st' \<Longrightarrow> hook_state st' = hook_state st" for st st' :: "'h db" and a
    by (auto simp: add_account_def)
  have j: "add_journal st j = Inr st' \<Longrightarrow> hook_state st' = hook_state st" for st st' :: "'h db" and j
    by (auto simp: add_journal_def)
  show "add_account st a = Inr st' \<Longrightarrow> hook_state st' = hook_state st" by (rule a)
  show "add_journal st j = Inr st' \<Longrightarrow> hook_state st' = hook_state st" by (rule j)
  show "seed_accounts st org bc specs = Inr (st', bc') \<Longrightarrow> hook_state st' = hook_state st"
    by (induction st org bc specs rule: seed_accounts.induct) (auto simp: Let_def dest: a)
  show "seed_journals st org js = Inr st' \<Longrightarrow> hook_state st' = hook_state st"
    by (induction st org js rule: seed_journals.induct) (auto dest: j)
  show "sync_specs st org ex specs n = Inr (st', m) \<Longrightarrow> hook_state st' = hook_state st"
    by (induction st org ex specs n rule: sync_specs.induct) (auto simp: Let_def split: if_splits dest: a)
qed

lemma chart_ops_hook:
  "seed_defaults st org = Inr (st', n, m) \<Longrightarrow> hook_state st' = hook_state st"
  "sync_template st org = Inr (st', n) \<Longrightarrow> hook_state st' = hook_state st"
  "create_account st org ad actor = Inr (st', a) \<Longrightarrow> hook_state st' = hook_state st"
  "update_account st org i au actor = Inr (st', a) \<Longrightarrow> hook_state st' = hook_state st"
  "delete_account st org i actor now = Inr st' \<Longrightarrow> hook_state st' = hook_state st"
proof -
  have sd: "seed_defaults st org = Inr (st', n, m) \<Longrightarrow> hook_state st' = hook_state st" for st st' :: "'h db" and n m
    by (auto simp: seed_defaults_def split: if_splits dest!: account_ops_hook(3,4))
  show "seed_defaults st org = Inr (st', n, m) \<Longrightarrow> hook_state st' = hook_state st" by (rule sd)
  show "sync_template st org = Inr (st', n) \<Longrightarrow> hook_state st' = hook_state st"
    by (auto simp: sync_template_def Let_def split: if_splits dest!: sd account_ops_hook(5))
  have ap: "adopt_parent st org ad = Inr (st1, p) \<Longrightarrow> hook_state st1 = hook_state st" for st st1 :: "'h db" and p
    by (auto simp: adopt_parent_def Let_def split: option.splits if_splits)
  show "create_account st org ad actor = Inr (st', a) \<Longrightarrow> hook_state st' = hook_state st"
    by (auto simp: create_account_def Let_def dest!: ap account_ops_hook(1))
  show "update_account st org i au actor = Inr (st', a) \<Longrightarrow> hook_state st' = hook_state st"
    by (auto simp: update_account_def Let_def split: if_splits)
  show "delete_account st org i actor now = Inr st' \<Longrightarrow> hook_state st' = hook_state st"
    by (auto simp: delete_account_def)
qed

lemma calendar_hook:
  "create_year st org d actor = Inr (st', y) \<Longrightarrow> hook_state st' = hook_state st"
  "ensure_year_for st org m today = Inr (st', y) \<Longrightarrow> hook_state st' = hook_state st"
  "reopen_period st org i actor = Inr (st', p) \<Longrightarrow> hook_state st' = hook_state st"
  "create_journal st org jd = Inr (st', j) \<Longrightarrow> hook_state st' = hook_state st"
proof -
  have gen: "generate_monthly_periods a y = Inr b \<Longrightarrow> hook_state b = hook_state a" for a b :: "'h db" and y
    by (auto simp: generate_monthly_periods_def dest!: add_periods_ok)
  have yr: "add_year a y = Inr b \<Longrightarrow> hook_state b = hook_state a" for a b :: "'h db" and y
    by (auto dest!: add_year_ok)
  show "create_year st org d actor = Inr (st', y) \<Longrightarrow> hook_state st' = hook_state st"
    by (auto simp: create_year_def Let_def split: if_splits dest!: gen yr)
  show "ensure_year_for st org m today = Inr (st', y) \<Longrightarrow> hook_state st' = hook_state st"
    by (auto simp: ensure_year_for_def Let_def split: option.splits dest!: gen yr)
  show "reopen_period st org i actor = Inr (st', p) \<Longrightarrow> hook_state st' = hook_state st"
    by (auto simp: reopen_period_def Let_def set_period_def split: option.splits if_splits)
  show "create_journal st org jd = Inr (st', j) \<Longrightarrow> hook_state st' = hook_state st"
    by (auto simp: create_journal_def Let_def dest!: account_ops_hook(2))
qed

text \<open>The entries posted afterwards are those posted before.\<close>

definition no_new_posting :: "'h db \<Rightarrow> 'h db \<Rightarrow> bool" where
  "no_new_posting st st' \<longleftrightarrow>
     (\<forall>x \<in> set (entries st'). is_posted x \<longrightarrow> (\<exists>y \<in> set (entries st). is_posted y \<and> same_or_reversed y x))"

text \<open>Exactly one entry is newly posted, and it is the one the subscribers are given.\<close>

definition one_posting :: "'h hooks \<Rightarrow> 'h db \<Rightarrow> 'h db \<Rightarrow> journal_entry \<Rightarrow> bool" where
  "one_posting hs st st' e \<longleftrightarrow>
     e \<in> set (entries st') \<and> e_status e = POSTED \<and> (\<forall>x \<in> set (entries st). is_posted x \<longrightarrow> e_id x \<noteq> e_id e) \<and>
     hook_state st' = hook_state (notify_entry_posted hs st e) \<and>
     (\<forall>x \<in> set (entries st'). is_posted x \<longrightarrow> x = e \<or> (\<exists>y \<in> set (entries st). is_posted y \<and> same_or_reversed y x))"

lemma notify_entry_cong: "hook_state a = hook_state b \<Longrightarrow> hook_state (notify_entry_posted hs a e) = hook_state (notify_entry_posted hs b e)"
  by (simp add: notify_entry_posted_def)

lemma no_new_frame: "entries st' = entries st \<Longrightarrow> no_new_posting st st'"
  by (auto simp: no_new_posting_def same_or_reversed_def)

lemma post_one_posting:
  assumes d: "distinct (map e_id (entries st))" and p: "post_entry hs st org i actor now = Inr (st', e')"
  shows "one_posting hs st st' e'"
proof -
  obtain e where e: "e \<in> set (entries st)" "e_status e = DRAFT"
      "set (entries st') = insert e' (set (entries st) - {e})" "e_status e' = POSTED" "e_id e' = e_id e"
    using d p by (rule post_entry_effect) blast
  have "hook_state st' = hook_state (notify_entry_posted hs st e')"
    using p
  proof (cases rule: post_entry_ok)
    case (1 e p j fy st1 number)
    show ?thesis unfolding 1(12) by (rule notify_entry_cong) (simp add: next_number_frame(7) [OF 1(9)])
  qed
  moreover have "e_id x \<noteq> e_id e'" if "x \<in> set (entries st)" "is_posted x" for x
  proof
    assume "e_id x = e_id e'"
    then have "x = e" using d that(1) e(1,5) by (auto simp: distinct_map dest: inj_onD)
    then show False using that(2) e(2) by (simp add: is_posted_def)
  qed
  ultimately show ?thesis
    using e(3,4) by (auto simp: one_posting_def same_or_reversed_def)
qed

lemma one_posting_weaken:
  assumes "one_posting hs st1 st' e" "entries st1 = entries st @ [d]" "e_status d = DRAFT" "hook_state st1 = hook_state st"
  shows "one_posting hs st st' e"
proof -
  have "\<not> is_posted d" using assms(3) by (simp add: is_posted_def)
  then show ?thesis
    using assms(1,2) notify_entry_cong [OF assms(4), of hs e] by (auto simp: one_posting_def)
qed

lemma create_posting:
  assumes "core_inv st" "create_entry hs st org data actor stype sid now = Inr (st', e')"
  shows "(no_new_posting st st' \<and> hook_state st' = hook_state st) \<or> one_posting hs st st' e'"
  using assms(2)
proof (cases rule: create_entry_ok)
  case (1 e p st1)
  have st1: "entries st1 = entries st @ [e]" "hook_state st1 = hook_state st" using add_entry_ok [OF 1(13)] by simp_all
  have d: "distinct (map e_id (entries st1))" using assms(1) 1(3) unfolding st1 by (auto simp: core_inv_def)
  show ?thesis
  proof (cases "ec_post data")
    case True
    with 1(14) have "post_entry hs st1 org (e_id e) actor now = Inr (st', e')" by simp
    from one_posting_weaken [OF post_one_posting [OF d this] st1(1) 1(6) st1(2)] show ?thesis ..
  next
    case False
    with 1(6,14) st1 show ?thesis
      by (auto simp: no_new_posting_def same_or_reversed_def is_posted_def)
  qed
qed

lemma update_posting:
  assumes "core_inv st" "update_entry st org i data = Inr (st', e')"
  shows "no_new_posting st st' \<and> hook_state st' = hook_state st"
  using assms(2)
proof (cases rule: update_entry_ok)
  case (1 e)
  have "set (entries st') = insert e' (set (entries st) - {e})"
    using replace_row [of e_id "entries st" e e'] assms(1) 1(1,13) by (simp add: core_inv_def)
  then show ?thesis
    using 1(7,13) by (auto simp: no_new_posting_def same_or_reversed_def is_posted_def)
qed

lemma delete_posting:
  "delete_draft st org i actor = Inr st' \<Longrightarrow> no_new_posting st st' \<and> hook_state st' = hook_state st"
  by (erule delete_draft_ok) (auto simp: no_new_posting_def same_or_reversed_def)

lemma reverse_posting:
  assumes "core_inv st" "reverse_entry hs st org i actor rd nar now = Inr (st', r)"
  shows "one_posting hs st st' r"
proof -
  obtain original where r: "original \<in> set (entries st)" "e_status original = POSTED" "e_status r = POSTED" "e_id r = next_id st"
      "set (entries st') = insert (original\<lparr>e_status := REVERSED, e_reversed_at := Some now\<rparr>) (insert r (set (entries st) - {original}))"
    using assms by (rule reverse_entry_effect) blast
  have ids: "\<forall>x \<in> set (entries st). e_id x < next_id st" and d: "distinct (map e_id (entries st))"
    using assms(1) by (simp_all add: core_inv_def)
  have "hook_state st' = hook_state (notify_entry_posted hs st r)"
    using assms(2)
  proof (cases rule: reverse_entry_ok)
    case (1 original reversal p st1 st2)
    have st1: "entries st1 = entries st @ [reversal]" "hook_state st1 = hook_state st" using add_entry_ok [OF 1(15)] by simp_all
    have "distinct (map e_id (entries st1))" using ids d 1(7) unfolding st1 by auto
    from one_posting_weaken [OF post_one_posting [OF this 1(16)] st1(1) 1(9) st1(2)]
    show ?thesis unfolding 1(18) by (simp add: one_posting_def)
  qed
  then show ?thesis
    using r ids by (force simp: one_posting_def same_or_reversed_def is_posted_def)
qed

lemma close_hook:
  assumes "close_period hs st org i actor lock now = Inr (st', p)"
  shows "entries st' = entries st \<and> hook_state st' = hook_state (notify_period_closed hs st p actor)"
  using assms
  by (auto simp: close_period_def Let_def set_period_def notify_period_closed_def split: option.splits)

lemma step_hooks:
  assumes "ledger_step hs st st'" "ledger_inv st"
  obtains (quiet) "no_new_posting st st'" "hook_state st' = hook_state st"
  | (closed) p actor where "entries st' = entries st" "hook_state st' = hook_state (notify_period_closed hs st p actor)"
  | (posted) e where "one_posting hs st st' e"
proof -
  have c: "core_inv st" "distinct (map e_id (entries st))" using assms(2) by (simp_all add: ledger_inv_def core_inv_def)
  note frames = quiet [OF no_new_frame]
  show thesis
    using assms(1)
  proof cases
    case seed then show thesis using frames chart_ops(1) chart_ops_hook(1) by metis
  next
    case sync then show thesis using frames chart_ops(2) chart_ops_hook(2) by metis
  next
    case account_new then show thesis using frames chart_ops(3) chart_ops_hook(3) by metis
  next
    case account_edit then show thesis using frames chart_ops(4) chart_ops_hook(4) by metis
  next
    case account_del then show thesis using frames chart_ops(5) chart_ops_hook(5) by metis
  next
    case year_new then show thesis using frames calendar_frame(1) calendar_hook(1) by metis
  next
    case year_ensure then show thesis using frames calendar_frame(2) calendar_hook(2) by metis
  next
    case period_close then show thesis using closed close_hook by metis
  next
    case period_reopen then show thesis using frames calendar_frame(4) calendar_hook(3) by metis
  next
    case journal_new then show thesis using frames calendar_frame(5) calendar_hook(4) by metis
  next
    case entry_new then show thesis using quiet posted create_posting [OF c(1)] by metis
  next
    case entry_edit then show thesis using quiet update_posting [OF c(1)] by metis
  next
    case entry_post then show thesis using posted post_one_posting [OF c(2)] by metis
  next
    case entry_reverse then show thesis using posted reverse_posting [OF c(1)] by metis
  next
    case entry_delete then show thesis using quiet delete_posting by metis
  next
    case simple
    then show thesis by (rule post_simple_ok) (use quiet posted create_posting [OF c(1)] in metis)
  qed
qed

section \<open>The two ledgers together\<close>

text \<open>
  A step is a step of the ledger with the subscriptions installed, an operation of \<^verbatim>\<open>SealService\<close> with any
  answers of the chain, a change of the settings table by \<^verbatim>\<open>AttestationService\<close> (any change), or the clock.
\<close>

inductive proof_step :: "seal_config \<Rightarrow> proof_db db \<Rightarrow> proof_db db \<Rightarrow> bool" for cfg where
  books: "ledger_step (install_attestation_hooks cfg) st st' \<Longrightarrow> proof_step cfg st st'"
| prepare: "create_seal cfg (hook_state st) org trig actor per = Inr (pd, r) \<Longrightarrow> proof_step cfg st (st\<lparr>hook_state := pd\<rparr>)"
| press: "seal_now cfg client (hook_state st) org actor = Inr (pd, r) \<Longrightarrow> proof_step cfg st (st\<lparr>hook_state := pd\<rparr>)"
| work: "proof_step cfg st (st\<lparr>hook_state := drain clients (hook_state st) limit\<rparr>)"
| recheck: "reconcile client (hook_state st) org = Inr (pd, r) \<Longrightarrow> proof_step cfg st (st\<lparr>hook_state := pd\<rparr>)"
| configure: "proof_step cfg st (st\<lparr>hook_state := (hook_state st)\<lparr>settings := ss\<rparr>\<rparr>)"
| tick: "proof_step cfg st (st\<lparr>hook_state := (hook_state st)\<lparr>clock := t\<rparr>\<rparr>)"

text \<open>A leaf commits to a posted entry as the books have it.\<close>

definition commits_to :: "seal_leaf \<Rightarrow> journal_entry \<Rightarrow> bool" where
  "commits_to l e \<longleftrightarrow> is_posted e \<and> e_id e = lf_entry l \<and> e_org e = lf_org l \<and> e_date e = lf_date l \<and>
     e_total_debit e = lf_debit l \<and> leaf_hash_hex (payload_from_entry e) = Inr (lf_hash l)"

definition leaves_sound :: "proof_db db \<Rightarrow> bool" where
  "leaves_sound st \<longleftrightarrow> (\<forall>l \<in> set (leaves (hook_state st)). \<exists>e \<in> set (entries st). commits_to l e)"

definition leaves_complete :: "seal_config \<Rightarrow> proof_db db \<Rightarrow> bool" where
  "leaves_complete cfg st \<longleftrightarrow>
     (attestation_enabled cfg \<longrightarrow>
        (\<forall>e \<in> set (entries st). is_posted e \<and> is_ok (leaf_hash_hex (payload_from_entry e)) \<longrightarrow>
           (\<exists>l \<in> set (leaves (hook_state st)). lf_entry l = e_id e)))"

definition attested_inv :: "seal_config \<Rightarrow> proof_db db \<Rightarrow> bool" where
  "attested_inv cfg st \<longleftrightarrow> ledger_inv st \<and> proof_inv (hook_state st) \<and> leaves_sound st \<and> leaves_complete cfg st"

lemma same_or_reversed_payload:
  "same_or_reversed e e' \<Longrightarrow> payload_from_entry e' = payload_from_entry e \<and> e_id e' = e_id e \<and> e_org e' = e_org e \<and>
     e_date e' = e_date e \<and> e_total_debit e' = e_total_debit e \<and> (is_posted e \<longrightarrow> is_posted e')"
  by (auto simp: same_or_reversed_def payload_from_entry_def is_posted_def)

lemma commits_to_kept: "commits_to l e \<Longrightarrow> same_or_reversed e e' \<Longrightarrow> commits_to l e'"
  using same_or_reversed_payload by (fastforce simp: commits_to_def)

lemma commits_to_key: "leaf_key l = leaf_key l' \<Longrightarrow> commits_to l e = commits_to l' e"
  by (auto simp: leaf_key_def commits_to_def)

lemma keys_kept_leaf:
  assumes "keys_kept pd pd'" "l' \<in> set (leaves pd')"
  obtains l where "l \<in> set (leaves pd)" "leaf_key l = leaf_key l'"
proof -
  have "leaf_key l' \<in> set (map leaf_key (leaves pd'))" using assms(2) by simp
  then have "leaf_key l' \<in> set (map leaf_key (leaves pd))" using assms(1) by (simp only: keys_kept_def)
  then show thesis using that by auto
qed

lemma keys_kept_sym: "keys_kept pd pd' \<Longrightarrow> keys_kept pd' pd"
  by (simp add: keys_kept_def)

lemma sound_frame:
  assumes "leaves_sound st" "kept st st'" "keys_kept (hook_state st) (hook_state st')"
  shows "leaves_sound st'"
  unfolding leaves_sound_def
proof
  fix l' assume l': "l' \<in> set (leaves (hook_state st'))"
  obtain l where l: "l \<in> set (leaves (hook_state st))" "leaf_key l = leaf_key l'" using keys_kept_leaf [OF assms(3) l'] .
  then obtain e where e: "e \<in> set (entries st)" "commits_to l' e" using assms(1) commits_to_key [OF l(2)] by (auto simp: leaves_sound_def)
  then obtain e' where "e' \<in> set (entries st')" "same_or_reversed e e'"
    using assms(2) by (auto simp: kept_def commits_to_def)
  then show "\<exists>e \<in> set (entries st'). commits_to l' e" using commits_to_kept [OF e(2)] by blast
qed

lemma complete_frame:
  assumes "leaves_complete cfg st" "no_new_posting st st'" "keys_kept (hook_state st) (hook_state st')"
  shows "leaves_complete cfg st'"
  unfolding leaves_complete_def
proof (intro impI ballI)
  fix x assume en: "attestation_enabled cfg" and x: "x \<in> set (entries st')" "is_posted x \<and> is_ok (leaf_hash_hex (payload_from_entry x))"
  then obtain y where y: "y \<in> set (entries st)" "is_posted y" "same_or_reversed y x" using assms(2) by (auto simp: no_new_posting_def)
  then obtain l where l: "l \<in> set (leaves (hook_state st))" "lf_entry l = e_id x"
    using assms(1) en x(2) same_or_reversed_payload [OF y(3)] by (auto simp: leaves_complete_def)
  obtain l' where "l' \<in> set (leaves (hook_state st'))" "leaf_key l' = leaf_key l" using keys_kept_leaf [OF keys_kept_sym [OF assms(3)] l(1)] .
  with l(2) show "\<exists>l \<in> set (leaves (hook_state st')). lf_entry l = e_id x" by (auto simp: leaf_key_def)
qed

lemma close_hooks_state:
  "hook_state (notify_period_closed (install_attestation_hooks cfg) st p actor) =
     (if attestation_enabled cfg then fst (seal_on_period_close cfg (hook_state st) p actor) else hook_state st)"
  by (simp add: notify_period_closed_def install_attestation_hooks_def)

lemma entry_hooks_state:
  "hook_state (notify_entry_posted (install_attestation_hooks cfg) st e) = fst (record_leaf cfg (hook_state st) e)"
  by (simp add: notify_entry_posted_def install_attestation_hooks_def record_entry_leaf_def record_leaf_def)

lemma close_inv: "proof_inv pd \<Longrightarrow> proof_inv (fst (seal_on_period_close cfg pd p actor)) \<and> keys_kept pd (fst (seal_on_period_close cfg pd p actor))"
  by (auto simp: seal_on_period_close_def keys.refl split: sum.splits option.splits if_splits
      dest: inv_create_seal(1) keys_create)

lemma attested_posting:
  assumes inv: "attested_inv cfg st" and linv: "ledger_inv st'" and kept: "kept st st'"
    and one: "one_posting (install_attestation_hooks cfg) st st' e"
  shows "attested_inv cfg st'"
proof -
  let ?pd = "hook_state st"
  obtain pd' r where rec: "record_leaf cfg ?pd e = (pd', r)" by (cases "record_leaf cfg ?pd e")
  have hs: "hook_state st' = pd'" using one by (simp add: one_posting_def entry_hooks_state rec)
  have pinv: "proof_inv pd'" using inv_record_leaf [OF _ rec] inv by (simp add: attested_inv_def)
  have e: "e \<in> set (entries st')" "is_posted e" using one by (auto simp: one_posting_def is_posted_def)
  have keys: "keys_kept ?pd (hook_state (st'\<lparr>hook_state := ?pd\<rparr>))" by (simp add: keys.refl)
  have sound: "leaves_sound (st'\<lparr>hook_state := ?pd\<rparr>)"
    by (rule sound_frame [OF _ _ keys]) (use inv kept in \<open>auto simp: attested_inv_def kept_def\<close>)
  have old: "\<exists>l \<in> set (leaves ?pd). lf_entry l = e_id x"
    if "attestation_enabled cfg" "x \<in> set (entries st')" "is_posted x" "is_ok (leaf_hash_hex (payload_from_entry x))" "x \<noteq> e" for x
  proof -
    from one that(2,3,5) obtain y where y: "y \<in> set (entries st)" "is_posted y" "same_or_reversed y x" by (auto simp: one_posting_def)
    then show ?thesis
      using inv that(1,4) same_or_reversed_payload [OF y(3)] by (auto simp: attested_inv_def leaves_complete_def)
  qed
  have "leaves_sound st' \<and> leaves_complete cfg st'"
    using rec
  proof (cases rule: record_leaf_cases)
    case same
    have "\<exists>l \<in> set (leaves ?pd). lf_entry l = e_id e"
      if en: "attestation_enabled cfg" and ok: "is_ok (leaf_hash_hex (payload_from_entry e))"
    proof (rule ccontr)
      assume none: "\<not> (\<exists>l \<in> set (leaves ?pd). lf_entry l = e_id e)"
      have "\<forall>l \<in> set (leaves ?pd). \<not> (lf_org l = e_org e \<and> lf_seq l = next_leaf_seq ?pd (e_org e))"
        using inv next_leaf_seq_fresh unfolding attested_inv_def by (metis less_irrefl)
      moreover have "0 < next_leaf_seq ?pd (e_org e)"
        using inv next_leaf_seq_length [OF proof_invD(2)] by (simp add: attested_inv_def)
      moreover have "leaf_for_entry ?pd (e_id e) = Inr None"
        using none by (auto simp: leaf_for_entry_def scalar_one_or_none_None filter_empty_conv)
      ultimately have "leaves pd' \<noteq> leaves ?pd"
        using rec en ok none
        by (auto simp: record_leaf_def is_ok_iff leaf_checks_def raise_if_def Let_def split: if_splits)
      with same show False by simp
    qed
    with old show ?thesis
      using sound same hs by (auto simp: leaves_sound_def leaves_complete_def)
  next
    case (new l)
    have "commits_to l e" using new e by (simp add: commits_to_def)
    with sound have "leaves_sound st'" using e(1) new(12) by (auto simp: leaves_sound_def hs)
    moreover have "leaves_complete cfg st'" using old new(6,12) by (auto simp: leaves_complete_def hs)
    ultimately show ?thesis ..
  qed
  with linv pinv show ?thesis by (simp add: attested_inv_def hs)
qed

lemma attested_frame:
  assumes inv: "attested_inv cfg st" and "ledger_inv st'" "kept st st'" "no_new_posting st st'"
    and "proof_inv (hook_state st')" "keys_kept (hook_state st) (hook_state st')"
  shows "attested_inv cfg st'"
  using assms sound_frame complete_frame by (auto simp: attested_inv_def)

lemma seal_op_inv:
  assumes "attested_inv cfg st" "proof_inv pd" "keys_kept (hook_state st) pd"
  shows "attested_inv cfg (st\<lparr>hook_state := pd\<rparr>)"
proof (rule attested_frame [OF assms(1)])
  show "ledger_inv (st\<lparr>hook_state := pd\<rparr>)" using assms(1) by (auto simp: attested_inv_def intro: ledger_frame)
  show "kept st (st\<lparr>hook_state := pd\<rparr>)" using kept_frame [of "st\<lparr>hook_state := pd\<rparr>" st] by simp
qed (use assms in \<open>simp_all add: no_new_frame\<close>)

lemma proof_step_inv:
  assumes "proof_step cfg st st'" "attested_inv cfg st"
  shows "attested_inv cfg st'"
proof -
  have pinv: "proof_inv (hook_state st)" using assms(2) by (simp add: attested_inv_def)
  show ?thesis
    using assms(1)
proof cases
  case books
  have linv: "ledger_inv st" using assms(2) by (simp add: attested_inv_def)
  note linv' = ledger_step_inv [OF books linv] and kept = step_kept [OF books linv, THEN conjunct1]
  show ?thesis
    using books linv
  proof (cases rule: step_hooks)
    case quiet
    show ?thesis
      by (rule attested_frame [OF assms(2) linv' kept quiet(1)])
         (use assms(2) quiet(2) in \<open>simp_all add: attested_inv_def keys.refl\<close>)
  next
    case (closed p actor)
    have "proof_inv (hook_state st') \<and> keys_kept (hook_state st) (hook_state st')"
      unfolding closed(2) close_hooks_state using assms(2) close_inv by (simp add: attested_inv_def keys.refl)
    then show ?thesis using attested_frame [OF assms(2) linv' kept no_new_frame [OF closed(1)]] by simp
  next
    case (posted e)
    then show ?thesis using attested_posting [OF assms(2) linv' kept] by simp
  qed
next
  case prepare
  show ?thesis unfolding prepare(1) using seal_op_inv [OF assms(2) inv_create_seal(1) [OF pinv prepare(2)] keys_create [OF prepare(2)]] .
next
  case press
  show ?thesis unfolding press(1) using seal_op_inv [OF assms(2) inv_seal_now [OF pinv press(2)] keys_seal_now [OF press(2)]] .
next
  case work
  show ?thesis unfolding work using seal_op_inv [OF assms(2) inv_drain [OF pinv] keys_drain] .
next
  case recheck
  show ?thesis unfolding recheck(1) using seal_op_inv [OF assms(2) inv_reconcile [OF pinv recheck(2)] keys_reconcile [OF recheck(2)]] .
next
  case configure
  from pinv have "proof_inv ((hook_state st)\<lparr>settings := ss\<rparr>)" for ss by (rule proof_inv_frame) simp_all
  then show ?thesis using configure seal_op_inv [OF assms(2)] by (simp add: keys_kept_def)
next
  case tick
  from pinv have "proof_inv ((hook_state st)\<lparr>clock := t\<rparr>)" for t by (rule proof_inv_frame) simp_all
  then show ?thesis using tick seal_op_inv [OF assms(2)] by (simp add: keys_kept_def)
qed
qed

definition attested_start :: "proof_db db" where
  "attested_start = empty_db empty_proofs"

lemma proof_inv_empty: "proof_inv empty_proofs"
  by (simp add: proof_inv_def rows_ok_def org_ok_def org_leaves_def live_seals_def empty_proofs_def)

lemma attested_inv_start: "attested_inv cfg attested_start"
  using ledger_inv_empty proof_inv_empty
  by (simp add: attested_inv_def attested_start_def leaves_sound_def leaves_complete_def)
     (simp add: empty_db_def empty_proofs_def)

interpretation attested: transition_system "proof_step cfg" attested_start "attested_inv cfg" for cfg
  by unfold_locales (auto intro: attested_inv_start proof_step_inv)

definition attested_reachable :: "seal_config \<Rightarrow> proof_db db \<Rightarrow> bool" where
  "attested_reachable cfg st \<longleftrightarrow> (proof_step cfg)\<^sup>*\<^sup>* attested_start st"

lemma attested_reachable_inv: "attested_reachable cfg st \<Longrightarrow> attested_inv cfg st"
  unfolding attested_reachable_def by (rule attested.inv_reachable)

section \<open>Proof bundles\<close>

record proof_bundle =
  pb_format :: string
  pb_network :: "string option"
  pb_contract :: "string option"
  pb_namespace :: string
  pb_seq :: int
  pb_root :: string
  pb_prev :: string
  pb_count :: int
  pb_debit :: int
  pb_depth :: int
  pb_index :: int
  pb_hash :: string
  pb_version :: int
  pb_path :: "proof_step list"
  pb_entry :: entry_payload

definition BUNDLE_FORMAT :: string where "BUNDLE_FORMAT = ''stellar-erp.proof.v1''"

definition from_hex :: "string \<Rightarrow> bytes result" where
  "from_hex s = (case fromhex s of None \<Rightarrow> Inl (ValueError ''non-hexadecimal number found'') | Some b \<Rightarrow> Inr b)"

definition bundle_for_entry ::
    "proof_db db \<Rightarrow> uuid \<Rightarrow> uuid \<Rightarrow> uuid option \<Rightarrow> (proof_db db \<times> proof_bundle) result" where
  "bundle_for_entry st org entry_id actor =
     (let pd = hook_state st in
      bindr (setting_for pd org) (\<lambda>found.
      case found of
        None \<Rightarrow> Inl (BusinessRuleError ''The proof ledger is not configured for this organization.'')
      | Some setting \<Rightarrow>
      bindr (raise_if (\<not> truthy (as_contract setting))
        (BusinessRuleError ''The proof ledger is not configured for this organization.'')) (\<lambda>_.
      bindr (leaf_for_entry pd entry_id) (\<lambda>leaf_row.
      case leaf_row of
        None \<Rightarrow> Inl (NotFoundError ''Proof'')
      | Some l \<Rightarrow>
      bindr (raise_if (lf_org l \<noteq> org) (NotFoundError ''Proof'')) (\<lambda>_.
      case lf_seal l of
        None \<Rightarrow> Inl (BusinessRuleError ''This entry has not been sealed yet'')
      | Some seal_id \<Rightarrow>
      case seal_by_id pd seal_id of
        None \<Rightarrow> Inl (BusinessRuleError ''The seal covering this entry has not been confirmed on chain yet.'')
      | Some s \<Rightarrow>
      bindr (raise_if (se_status s \<noteq> CONFIRMED)
        (BusinessRuleError ''The seal covering this entry has not been confirmed on chain yet.'')) (\<lambda>_.
      bindr (scalar_one_or_none (filter (\<lambda>e. e_id e = entry_id \<and> e_org e = org) (entries st))) (\<lambda>entry_row.
      case entry_row of
        None \<Rightarrow> Inl (NotFoundError ''Journal entry'')
      | Some e \<Rightarrow>
      let payload = payload_from_entry e in
      bindr (leaf_hash_hex payload) (\<lambda>recomputed.
      bindr (raise_if (recomputed \<noteq> lf_hash l)
        (ConflictError ''This entry no longer matches the hash that was sealed.'')) (\<lambda>_.
      bindr (digests (for_seal pd (se_id s))) (\<lambda>ds.
      let index = (case lf_index l of Some k \<Rightarrow> k | None \<Rightarrow> 0) in
      bindr (inclusion_proof ds index) (\<lambda>path.
      bindr (from_hex recomputed) (\<lambda>d.
      bindr (from_hex (se_root s)) (\<lambda>rt.
      bindr (raise_if (\<not> verify_inclusion d path rt)
        (ConflictError ''The proof this server built does not verify against the sealed root'')) (\<lambda>_.
      let bundle = \<lparr>pb_format = BUNDLE_FORMAT, pb_network = se_network s, pb_contract = se_contract s,
                    pb_namespace = as_namespace setting, pb_seq = se_seq s, pb_root = se_root s,
                    pb_prev = se_prev s, pb_count = se_count s, pb_debit = se_debit s,
                    pb_depth = tree_depth (se_count s), pb_index = index, pb_hash = recomputed,
                    pb_version = lf_version l, pb_path = path, pb_entry = payload\<rparr>;
          pd' = (case actor of None \<Rightarrow> pd | Some _ \<Rightarrow> log_event pd PROOF_EXPORTED INFO actor entry_id)
      in Inr (st\<lparr>hook_state := pd'\<rparr>, bundle)))))))))))))))"

record verify_result =
  vr_valid :: bool
  vr_reason :: string

definition verify_bundle :: "chain_client \<Rightarrow> proof_bundle \<Rightarrow> bool \<Rightarrow> verify_result result" where
  "verify_bundle client b check_chain =
     (if pb_format b \<noteq> BUNDLE_FORMAT then Inr \<lparr>vr_valid = False, vr_reason = ''Unrecognised bundle format''\<rparr>
      else case leaf_hash_hex (pb_entry b) of
        Inl _ \<Rightarrow> Inr \<lparr>vr_valid = False, vr_reason = ''The entry could not be canonically encoded''\<rparr>
      | Inr recomputed \<Rightarrow>
          if recomputed \<noteq> pb_hash b
          then Inr \<lparr>vr_valid = False, vr_reason = ''The entry does not hash to the leaf the bundle claims.''\<rparr>
          else
            bindr (from_hex recomputed) (\<lambda>acc.
            bindr (from_hex (pb_root b)) (\<lambda>expected_root.
            if \<not> verify_inclusion acc (pb_path b) expected_root
            then Inr \<lparr>vr_valid = False, vr_reason = ''The proof path does not lead to the sealed root.''\<rparr>
            else if \<not> check_chain then Inr \<lparr>vr_valid = True, vr_reason = ''The bundle is internally consistent.''\<rparr>
            else case read_seal client (pb_seq b) of
              Inl _ \<Rightarrow> Inr \<lparr>vr_valid = False, vr_reason = ''The chain could not be reached to confirm the root''\<rparr>
            | Inr None \<Rightarrow> Inr \<lparr>vr_valid = False, vr_reason = ''No seal exists on chain at that sequence number.''\<rparr>
            | Inr (Some v) \<Rightarrow>
                if sv_root v \<noteq> pb_root b
                then Inr \<lparr>vr_valid = False, vr_reason = ''The root on chain does not match the root of the bundle.''\<rparr>
                else Inr \<lparr>vr_valid = True, vr_reason = ''Verified.''\<rparr>)))"

end
