(* ===== verification/Attestation_Properties.thy ===== *)
theory Attestation_Properties
  imports Attestation
begin

text \<open>
  What the proof ledger promises, for every run of the two ledgers: the seals of an organization form one
  chain over its leaves; each leaf commits to an entry that is still in the books unchanged; a proof can be
  issued for every entry under a confirmed seal, and it verifies; a bundle that verifies against the sealed
  root is about one of the sealed entries. A behaviour of \<^verbatim>\<open>submit\<close> that departs from its description is stated
  at the end.
\<close>

section \<open>The batch of a seal\<close>

lemma chained_filters:
  assumes "chained k rt (x # ss) ls" "distinct (map se_id (x # ss))"
  defines "n \<equiv> nat (se_count x)"
  shows "filter (\<lambda>l. lf_seal l = Some (se_id x)) ls = take n ls"
    and "\<And>s. s \<in> set ss \<Longrightarrow> filter (\<lambda>l. lf_seal l = Some (se_id s)) ls = filter (\<lambda>l. lf_seal l = Some (se_id s)) (drop n ls)"
    and "filter (\<lambda>l. lf_seal l = None) ls = filter (\<lambda>l. lf_seal l = None) (drop n ls)"
proof -
  have bx: "batch_of x (take n ls)" and rest: "chained (k + 1) (se_root x) ss (drop n ls)"
    using assms(1) by (auto simp: n_def)
  have split: "filter P ls = filter P (take n ls) @ filter P (drop n ls)" for P
    by (metis append_take_drop_id filter_append)
  have ne: "se_id s \<noteq> se_id x" if "s \<in> set ss" for s
    using that assms(2) by (simp add: image_iff) metis
  have "lf_seal l \<noteq> Some (se_id x)" if "l \<in> set (drop n ls)" for l
    using chained_seal_member [OF rest that] ne by fastforce
  then show "filter (\<lambda>l. lf_seal l = Some (se_id x)) ls = take n ls"
    using batch_of_seal [OF bx] by (simp add: split filter_empty_conv filter_id_conv)
  have taken: "filter P (take n ls) = []" if "\<And>l. lf_seal l = Some (se_id x) \<Longrightarrow> \<not> P l" for P
    using batch_of_seal [OF bx] that by (simp add: filter_empty_conv)
  show "filter (\<lambda>l. lf_seal l = Some (se_id s)) ls = filter (\<lambda>l. lf_seal l = Some (se_id s)) (drop n ls)"
    if "s \<in> set ss" for s
    using taken [of "\<lambda>l. lf_seal l = Some (se_id s)"] ne [OF that] by (simp add: split)
  show "filter (\<lambda>l. lf_seal l = None) ls = filter (\<lambda>l. lf_seal l = None) (drop n ls)"
    using taken [of "\<lambda>l. lf_seal l = None"] by (simp add: split)
qed

lemma chained_batch:
  assumes "chained k rt ss ls" "s \<in> set ss" "distinct (map se_id ss)"
  shows "batch_of s (filter (\<lambda>l. lf_seal l = Some (se_id s)) ls)"
  using assms
proof (induction ss arbitrary: k rt ls)
  case (Cons x ss)
  note f = chained_filters [OF Cons.prems(1,3)]
  show ?case
  proof (cases "s = x")
    case True
    with Cons.prems(1) show ?thesis by (simp add: f(1))
  next
    case False
    with Cons.prems(2) have s: "s \<in> set ss" by simp
    have "chained (k + 1) (se_root x) ss (drop (nat (se_count x)) ls)" using Cons.prems(1) by simp
    from Cons.IH [OF this s] Cons.prems(3) show ?thesis by (simp add: f(2) [OF s])
  qed
qed simp

text \<open>The batches of the seals, in order, and then the backlog are all the leaves.\<close>

lemma chained_tiles:
  assumes "chained k rt ss ls" "distinct (map se_id ss)"
  shows "concat (map (\<lambda>s. filter (\<lambda>l. lf_seal l = Some (se_id s)) ls) ss) @ filter (\<lambda>l. lf_seal l = None) ls = ls"
  using assms
proof (induction ss arbitrary: k rt ls)
  case Nil
  then show ?case by (simp add: filter_id_conv)
next
  case (Cons x ss)
  note f = chained_filters [OF Cons.prems]
  let ?d = "drop (nat (se_count x)) ls"
  have "chained (k + 1) (se_root x) ss ?d" "distinct (map se_id ss)" using Cons.prems by simp_all
  note IH = Cons.IH [OF this]
  have eq: "map (\<lambda>s. filter (\<lambda>l. lf_seal l = Some (se_id s)) ls) ss = map (\<lambda>s. filter (\<lambda>l. lf_seal l = Some (se_id s)) ?d) ss"
    by (rule map_cong [OF refl]) (rule f(2))
  show ?case by (simp add: f(1,3) eq IH)
qed

lemma chained_link:
  "chained k rt ss ls \<Longrightarrow> i < length ss \<Longrightarrow>
     se_prev (ss ! i) = (if i = 0 then rt else se_root (ss ! (i - 1))) \<and> (Suc i < length ss \<longrightarrow> se_status (ss ! i) = CONFIRMED)"
proof (induction ss arbitrary: k rt ls i)
  case (Cons x ss)
  show ?case
  proof (cases i)
    case 0
    with Cons.prems show ?thesis by auto
  next
    case (Suc j)
    have "chained (k + 1) (se_root x) ss (drop (nat (se_count x)) ls)" "j < length ss" using Cons.prems Suc by simp_all
    from Cons.IH [OF this] show ?thesis by (cases j) (simp_all add: Suc)
  qed
qed simp

lemma batch_sorted: "batch_of s b \<Longrightarrow> sort_key (\<lambda>l. the (lf_index l)) b = b"
proof (rule sort_key_id_if_sorted)
  assume b: "batch_of s b"
  have "map (\<lambda>l. the (lf_index l)) b = map the (map lf_index b)" by simp
  also have "\<dots> = map (\<lambda>k. int k) [0..<length b]" using b by (simp add: batch_of_def)
  finally show "sorted (map (\<lambda>l. the (lf_index l)) b)" by (simp add: sorted_map sorted_wrt_upt)
qed

lemma live_distinct: "proof_inv pd \<Longrightarrow> distinct (map se_id (live_seals pd org))"
  unfolding live_seals_def by (intro distinct_map_filter) (simp add: proof_inv_def rows_ok_def)

lemma live_mem: "s \<in> set (live_seals pd org) \<longleftrightarrow> s \<in> set (seals pd) \<and> se_org s = org \<and> se_status s \<noteq> FAILED"
  by (auto simp: live_seals_def)

lemma for_seal_filter:
  assumes inv: "proof_inv pd" and s: "s \<in> set (live_seals pd org)"
  shows "for_seal pd (se_id s) = filter (\<lambda>l. lf_seal l = Some (se_id s)) (org_leaves pd org)"
proof -
  note rows = proof_invD(1) [OF inv]
  have m: "s \<in> set (seals pd)" "se_org s = org" using s by (simp_all add: live_mem)
  have "filter (\<lambda>l. lf_seal l = Some (se_id s)) (leaves pd) = filter (\<lambda>l. lf_seal l = Some (se_id s)) (org_leaves pd org)"
    unfolding org_leaves_def filter_filter
    by (rule filter_cong) (use sealed_leaf_seal [OF rows] row_unique [OF rows m(1)] m(2) in metis)+
  moreover have "chained 1 GENESIS_ROOT (live_seals pd org) (org_leaves pd org)"
    using proof_invD(2) [OF inv] by (simp add: org_ok_def)
  note batch_sorted [OF chained_batch [OF this s live_distinct [OF inv]]]
  ultimately show ?thesis by (simp add: for_seal_def)
qed

lemma for_seal_batch:
  assumes inv: "proof_inv pd" and s: "s \<in> set (seals pd)" "se_status s \<noteq> FAILED"
  shows "batch_of s (for_seal pd (se_id s))"
    and "set (for_seal pd (se_id s)) = {l \<in> set (leaves pd). lf_seal l = Some (se_id s)}"
proof -
  have live: "s \<in> set (live_seals pd (se_org s))" using s by (simp add: live_mem)
  have "chained 1 GENESIS_ROOT (live_seals pd (se_org s)) (org_leaves pd (se_org s))"
    using proof_invD(2) [OF inv] by (simp add: org_ok_def)
  from chained_batch [OF this live live_distinct [OF inv]] show "batch_of s (for_seal pd (se_id s))"
    by (simp add: for_seal_filter [OF inv live])
  show "set (for_seal pd (se_id s)) = {l \<in> set (leaves pd). lf_seal l = Some (se_id s)}"
    by (auto simp: for_seal_def)
qed

lemma batch_position:
  assumes "batch_of s b" "l \<in> set b"
  obtains k where "k < length b" "b ! k = l" "lf_index l = Some (int k)"
proof -
  from assms(2) obtain k where k: "k < length b" "b ! k = l" by (auto simp: in_set_conv_nth)
  have "map lf_index b ! k = map (\<lambda>k. Some (int k)) [0..<length b] ! k" using assms(1) by (simp add: batch_of_def)
  then show thesis using that k by simp
qed

lemma digests_nth: "digests b = Inr ds \<Longrightarrow> length ds = length b \<and> (\<forall>k < length b. fromhex (lf_hash (b ! k)) = Some (ds ! k))"
proof (induction b arbitrary: ds)
  case (Cons l b)
  then obtain d ds' where d: "fromhex (lf_hash l) = Some d" "digests b = Inr ds'" "ds = d # ds'"
    by (auto split: option.splits)
  with Cons.IH [OF d(2)] show ?case by (auto simp: nth_Cons split: nat.split)
qed simp

lemma merkle_root_leaves_ok: "merkle_root xs = Inr rt \<Longrightarrow> leaves_ok xs \<and> rt = mth xs"
proof -
  assume r: "merkle_root xs = Inr rt"
  then have "is_ok (validate xs)" by (subst (asm) merkle_root.simps) (auto simp: is_ok_iff)
  then have "leaves_ok xs" by (auto simp: is_ok_iff validate_ok_iff)
  then show ?thesis using merkle_root_mth r by auto
qed

text \<open>The encodings behind the digests of a batch.\<close>

lemma leaf_hash_hexE:
  assumes "leaf_hash_hex p = Inr h"
  obtains d where "encode_entry p = Inr d" "h = hex (leaf_of_bytes d)"
  using assms by (auto simp: leaf_hash_hex_def leaf_hash_def bindr_eq_Inr_iff)

lemma batch_encodings:
  assumes "\<forall>l \<in> set b. \<exists>e \<in> E. commits_to l e" "digests b = Inr ds"
  obtains xs where "ds = map leaf_of_bytes xs"
    "list_all2 (\<lambda>l x. \<exists>e \<in> E. commits_to l e \<and> encode_entry (payload_from_entry e) = Inr x) b xs"
proof -
  have "\<exists>xs. ds = map leaf_of_bytes xs \<and>
      list_all2 (\<lambda>l x. \<exists>e \<in> E. commits_to l e \<and> encode_entry (payload_from_entry e) = Inr x) b xs"
    using assms
  proof (induction b arbitrary: ds)
    case (Cons l b)
    then obtain e where e: "e \<in> E" "commits_to l e" by auto
    then obtain x where x: "encode_entry (payload_from_entry e) = Inr x" "lf_hash l = hex (leaf_of_bytes x)"
      by (auto simp: commits_to_def elim: leaf_hash_hexE)
    then obtain ds' where ds': "digests b = Inr ds'" "ds = leaf_of_bytes x # ds'" using Cons.prems(2) by auto
    with Cons obtain xs where "ds' = map leaf_of_bytes xs"
      "list_all2 (\<lambda>l x. \<exists>e \<in> E. commits_to l e \<and> encode_entry (payload_from_entry e) = Inr x) b xs" by auto
    with ds' e x show ?case by (intro exI [of _ "x # xs"]) auto
  qed simp
  then show thesis using that by blast
qed

section \<open>Chain and leaves\<close>

lemma seals_tile:
  assumes inv: "proof_inv pd"
  shows "concat (map (\<lambda>s. for_seal pd (se_id s)) (live_seals pd org)) @ unsealed pd org (length (leaves pd)) = org_leaves pd org"
proof -
  have ok: "numbered (map lf_seq (org_leaves pd org))" "chained 1 GENESIS_ROOT (live_seals pd org) (org_leaves pd org)"
    using proof_invD(2) [OF inv] by (simp_all add: org_ok_def)
  have eq: "map (\<lambda>s. for_seal pd (se_id s)) (live_seals pd org) =
      map (\<lambda>s. filter (\<lambda>l. lf_seal l = Some (se_id s)) (org_leaves pd org)) (live_seals pd org)"
    by (rule map_cong [OF refl]) (rule for_seal_filter [OF inv])
  have f: "filter (\<lambda>l. lf_org l = org \<and> lf_seal l = None) (leaves pd) = filter (\<lambda>l. lf_seal l = None) (org_leaves pd org)"
    by (simp add: org_leaves_def conj_commute)
  have "sorted (map lf_seq (filter (\<lambda>l. lf_seal l = None) (org_leaves pd org)))"
    using numbered_sorted [OF ok(1)] by (rule sorted_filter)
  moreover have "length (filter (\<lambda>l. lf_org l = org \<and> lf_seal l = None) (leaves pd)) \<le> length (leaves pd)"
    by (rule length_filter_le)
  ultimately have "unsealed pd org (length (leaves pd)) = filter (\<lambda>l. lf_seal l = None) (org_leaves pd org)"
    by (simp add: unsealed_def f sort_key_id_if_sorted)
  then show ?thesis using chained_tiles [OF ok(2) live_distinct [OF inv]] by (simp add: eq)
qed

lemma batch_facts:
  assumes inv: "attested_inv cfg st" and s: "s \<in> set (seals (hook_state st))" "se_status s \<noteq> FAILED"
  obtains xs where
    "list_all2 (\<lambda>l x. \<exists>e \<in> set (entries st). commits_to l e \<and> encode_entry (payload_from_entry e) = Inr x)
       (for_seal (hook_state st) (se_id s)) xs"
    "digests (for_seal (hook_state st) (se_id s)) = Inr (map leaf_of_bytes xs)"
    "xs \<noteq> []" "se_root s = hex (mth (map leaf_of_bytes xs))"
proof -
  let ?b = "for_seal (hook_state st) (se_id s)"
  have pinv: "proof_inv (hook_state st)" and sound: "leaves_sound st" using inv by (simp_all add: attested_inv_def)
  note b = for_seal_batch [OF pinv s]
  from b(1) obtain ds rt where ds: "digests ?b = Inr ds" "merkle_root ds = Inr rt" "se_root s = hex rt" "?b \<noteq> []"
    by (auto simp: batch_of_def)
  have "\<forall>l \<in> set ?b. \<exists>e \<in> set (entries st). commits_to l e" using sound b(2) by (auto simp: leaves_sound_def)
  then obtain xs where xs: "ds = map leaf_of_bytes xs"
      "list_all2 (\<lambda>l x. \<exists>e \<in> set (entries st). commits_to l e \<and> encode_entry (payload_from_entry e) = Inr x) ?b xs"
    using ds(1) by (rule batch_encodings)
  show thesis
    by (rule that [OF xs(2)]) (use ds xs merkle_root_leaves_ok [OF ds(2)] in \<open>auto simp: leaves_ok_def\<close>)
qed

lemma leaf_row: "rows_ok pd \<Longrightarrow> l \<in> set (leaves pd) \<Longrightarrow> leaf_for_entry pd (lf_entry l) = Inr (Some l)"
  using filter_key_unique [of lf_entry "leaves pd" l] by (simp add: rows_ok_def leaf_for_entry_def)

lemma seal_row: "rows_ok pd \<Longrightarrow> s \<in> set (seals pd) \<Longrightarrow> seal_by_id pd (se_id s) = Some s"
  using filter_key_unique [of se_id "seals pd" s] by (simp add: rows_ok_def seal_by_id_def)

lemma entry_row:
  assumes "ledger_inv st" "e \<in> set (entries st)" "e_id e = i" "e_org e = org"
  shows "scalar_one_or_none (filter (\<lambda>e. e_id e = i \<and> e_org e = org) (entries st)) = Inr (Some e)"
proof -
  have "filter (\<lambda>x. e_id x = e_id e) (entries st) = [e]"
    using assms(1,2) by (intro filter_key_unique) (simp_all add: ledger_inv_def core_inv_def)
  moreover have "filter (\<lambda>x. e_id x = i \<and> e_org x = org) (entries st) =
      filter (\<lambda>x. e_org x = org) (filter (\<lambda>x. e_id x = e_id e) (entries st))"
    using assms(3) by (simp add: conj_commute)
  ultimately show ?thesis using assms(4) by simp
qed

lemma issued_path:
  assumes inv: "attested_inv cfg st" and s: "s \<in> set (seals (hook_state st))" "se_status s \<noteq> FAILED"
    and l: "l \<in> set (leaves (hook_state st))" "lf_seal l = Some (se_id s)"
  obtains k ds d path rt where "lf_index l = Some (int k)" "digests (for_seal (hook_state st) (se_id s)) = Inr ds"
    "inclusion_proof ds (int k) = Inr path" "fromhex (lf_hash l) = Some d" "fromhex (se_root s) = Some rt"
    "verify_inclusion d path rt"
proof -
  let ?b = "for_seal (hook_state st) (se_id s)"
  have pinv: "proof_inv (hook_state st)" using inv by (simp add: attested_inv_def)
  note b = for_seal_batch [OF pinv s]
  from b(2) l have "l \<in> set ?b" by simp
  with b(1) obtain k where k: "k < length ?b" "?b ! k = l" "lf_index l = Some (int k)" by (rule batch_position)
  obtain xs where xs: "digests ?b = Inr (map leaf_of_bytes xs)" "xs \<noteq> []" "se_root s = hex (mth (map leaf_of_bytes xs))"
    using inv s by (rule batch_facts)
  let ?ds = "map leaf_of_bytes xs"
  have ok: "leaves_ok ?ds" using xs(2) by (rule leaves_ok_map_leaf)
  have ds: "length ?ds = length ?b" "fromhex (lf_hash l) = Some (?ds ! k)"
    using digests_nth [OF xs(1)] k by auto
  have klt: "k < length ?ds" using k(1) ds(1) by simp
  have "length (?ds ! k) = 32" using ok klt by (simp add: leaves_ok_def)
  then have "verify_inclusion (?ds ! k) (path_of k ?ds) (mth ?ds)"
    using fold_path_complete [OF ok klt] length_mth [OF ok] by (simp add: verify_inclusion_def DIGEST_BYTES_def)
  then show thesis using that [OF k(3) xs(1) inclusion_proof_path [OF ok klt] ds(2)] by (simp add: xs(3))
qed

lemma accepted_bundle:
  assumes "verify_bundle client b check_chain = Inr r" "vr_valid r"
  obtains d rt where "encode_entry (pb_entry b) = Inr d" "fromhex (pb_root b) = Some rt"
    "fold_path (leaf_of_bytes d) (pb_path b) = Some rt"
  using assms
  by (auto simp: verify_bundle_def from_hex_def verify_inclusion_def split: if_splits sum.splits option.splits elim!: leaf_hash_hexE)

lemma list_all2_rightE: "list_all2 P xs ys \<Longrightarrow> y \<in> set ys \<Longrightarrow> \<exists>x \<in> set xs. P x y"
  by (induction rule: list_all2_induct) auto

lemma issued_bundle:
  assumes inv: "attested_inv cfg st" and l: "l \<in> set (leaves (hook_state st))" "lf_seal l = Some (se_id s)"
    and s: "s \<in> set (seals (hook_state st))" "se_status s = CONFIRMED"
    and setting: "setting_for (hook_state st) (lf_org l) = Inr (Some setting)" "truthy (as_contract setting)"
  shows "\<exists>st' b. bundle_for_entry st (lf_org l) (lf_entry l) actor = Inr (st', b) \<and>
    pb_seq b = se_seq s \<and> pb_root b = se_root s \<and> pb_hash b = lf_hash l \<and>
    verify_bundle client b False = Inr \<lparr>vr_valid = True, vr_reason = ''The bundle is internally consistent.''\<rparr> \<and>
    (\<forall>v. read_seal client (se_seq s) = Inr (Some v) \<and> sv_root v = se_root s \<longrightarrow>
       verify_bundle client b True = Inr \<lparr>vr_valid = True, vr_reason = ''Verified.''\<rparr>)"
proof -
  let ?pd = "hook_state st"
  from inv have linv: "ledger_inv st" and pinv: "proof_inv ?pd" by (simp_all add: attested_inv_def)
  obtain e where e: "e \<in> set (entries st)" "e_id e = lf_entry l" "e_org e = lf_org l"
      "leaf_hash_hex (payload_from_entry e) = Inr (lf_hash l)"
    using inv l(1) by (auto simp: attested_inv_def leaves_sound_def commits_to_def)
  have rows: "leaf_for_entry ?pd (lf_entry l) = Inr (Some l)" "seal_by_id ?pd (se_id s) = Some s"
    using leaf_row [OF proof_invD(1) [OF pinv] l(1)] seal_row [OF proof_invD(1) [OF pinv] s(1)] by simp_all
  have "se_status s \<noteq> FAILED" using s(2) by simp
  with inv s(1) obtain k ds d path rt where p: "lf_index l = Some (int k)" "digests (for_seal ?pd (se_id s)) = Inr ds"
      "inclusion_proof ds (int k) = Inr path" "fromhex (lf_hash l) = Some d" "fromhex (se_root s) = Some rt"
      "verify_inclusion d path rt"
    using l by (rule issued_path)
  show ?thesis
    using l(2) s(2) setting rows entry_row [OF linv e(1-3)] e(4) p
    by (simp add: bundle_for_entry_def Let_def raise_if_def from_hex_def verify_bundle_def BUNDLE_FORMAT_def) auto
qed

lemma fail_seal_succeeds:
  assumes "seal_checks pd s = Inr ()"
  shows "\<exists>pd' s'. fail_seal pd s why sev = Inr (pd', s') \<and> se_status s' = FAILED \<and> leaves pd' = map (cleared (se_id s)) (leaves pd)"
  using assms
  by (auto simp: fail_seal_def save_seal_def seal_checks_def Let_def release_from_seal_def update_where_def cleared_def
      raise_if_def split: if_splits)

lemma set_unsealed: "set (unsealed pd org (length (leaves pd))) = {l \<in> set (leaves pd). lf_org l = org \<and> lf_seal l = None}"
  using length_filter_le [of "\<lambda>l. lf_org l = org \<and> lf_seal l = None" "leaves pd"] by (simp add: unsealed_def)

section \<open>A run\<close>

text \<open>
  The books of \<open>demo_books\<close> with the subscriptions installed: the entry is posted, its leaf is recorded, and
  the seal button puts it on a chain that confirms.
\<close>

definition demo_config :: seal_config where
  "demo_config = \<lparr>attestation_enabled = True, seal_max_batch = 500\<rparr>"

definition demo_setting :: attestation_setting where
  "demo_setting = \<lparr>as_org = 900, as_enabled = True, as_namespace = ''ab'', as_contract = Some ''C1'', as_network = Some ''testnet'',
     as_signer = Some ''G1'', as_secret = Some ''S1'', as_cadence = CADENCE_MANUAL, as_registered_at = Some 10\<rparr>"

definition demo_client :: chain_client where
  "demo_client = \<lparr>read_book = Inr (Some \<lparr>bv_head = 0, bv_root = GENESIS_ROOT\<rparr>), read_seal = (\<lambda>_. Inr None),
     submit_seal = Inr \<lparr>so_status = ''confirmed'', so_tx = Some ''T1'', so_ledger = Some 5, so_network_time = Some 20,
       so_error_name = None, so_message = None\<rparr>,
     read_book_again = Inr None\<rparr>"

definition quiet_hooks :: "proof_db hooks" where
  "quiet_hooks = \<lparr>entry_posted = [], period_closed = []\<rparr>"

definition demo_ready :: "proof_db db result" where
  "demo_ready =
     bindr (create_account attested_start 900 (demo_account ''1110'' ASSET SUB_CASH) 7) (\<lambda>(s1, _).
     bindr (create_account s1 900 (demo_account ''4100'' INCOME OPERATING_REVENUE) 7) (\<lambda>(s2, _).
     bindr (create_journal s2 900 \<lparr>jc_code = ''GEN'', jc_name = ''General'', jc_type = GENERAL, jc_prefix = ''JV'',
              jc_default = None\<rparr>) (\<lambda>(s3, _).
     bindr (create_year s3 900 demo_year 7) (\<lambda>(s4, _).
     Inr (s4\<lparr>hook_state := (hook_state s4)\<lparr>settings := [demo_setting]\<rparr>\<rparr>)))))"

lemma attested_step: "attested_reachable cfg st \<Longrightarrow> proof_step cfg st st' \<Longrightarrow> attested_reachable cfg st'"
  by (simp add: attested_reachable_def)

lemma demo_ready_reachable:
  assumes "demo_ready = Inr st"
  shows "attested_reachable cfg st"
proof -
  from assms obtain s1 a1 s2 a2 s3 j s4 y where r:
    "create_account attested_start 900 (demo_account ''1110'' ASSET SUB_CASH) 7 = Inr (s1, a1)"
    "create_account s1 900 (demo_account ''4100'' INCOME OPERATING_REVENUE) 7 = Inr (s2, a2)"
    "create_journal s2 900 \<lparr>jc_code = ''GEN'', jc_name = ''General'', jc_type = GENERAL, jc_prefix = ''JV'',
       jc_default = None\<rparr> = Inr (s3, j)"
    "create_year s3 900 demo_year 7 = Inr (s4, y)"
    "st = s4\<lparr>hook_state := (hook_state s4)\<lparr>settings := [demo_setting]\<rparr>\<rparr>"
    unfolding demo_ready_def by auto
  then have "proof_step cfg attested_start s1" "proof_step cfg s1 s2" "proof_step cfg s2 s3" "proof_step cfg s3 s4"
    using demo_validates by (blast intro: ledger_step.intros proof_step.books)+
  moreover have "proof_step cfg s4 st" unfolding r(5) by (rule proof_step.configure)
  moreover have "attested_reachable cfg attested_start" by (simp add: attested_reachable_def)
  ultimately show ?thesis using attested_step by metis
qed

lemma demo_posted:
  "\<exists>st s e. demo_ready = Inr st \<and> create_entry quiet_hooks st 900 demo_entry 7 None None 5000 = Inr (s, e) \<and>
     hook_state s = empty_proofs\<lparr>settings := [demo_setting]\<rparr> \<and> storable e \<and> list_all storable (entries s) \<and> e_org e = 900 \<and>
     money_minor (Some (e_total_debit e)) = Inr 2505000 \<and> length (e_lines e) = 2 \<and> list_all (\<lambda>l. 0 \<le> l_number l \<and> l_number l \<le> 2) (e_lines e)"
proof -
  have "(case demo_ready of Inr st \<Rightarrow> (case create_entry quiet_hooks st 900 demo_entry 7 None None 5000 of
      Inr (s, e) \<Rightarrow> hook_state s = empty_proofs\<lparr>settings := [demo_setting]\<rparr> \<and> storable e \<and> list_all storable (entries s) \<and> e_org e = 900 \<and>
        money_minor (Some (e_total_debit e)) = Inr 2505000 \<and> length (e_lines e) = 2 \<and> list_all (\<lambda>l. 0 \<le> l_number l \<and> l_number l \<le> 2) (e_lines e)
    | _ \<Rightarrow> False) | _ \<Rightarrow> False)"
    by code_simp
  then show ?thesis by (auto split: sum.splits)
qed

lemma demo_leaf:
  assumes "leaf_hash_hex (payload_from_entry e) = Inr d" "e_org e = 900"
  shows "\<exists>l. fst (record_leaf demo_config (empty_proofs\<lparr>settings := [demo_setting]\<rparr>) e) =
      empty_proofs\<lparr>settings := [demo_setting], leaves := [l], pd_next := 2\<rparr> \<and>
    lf_org l = 900 \<and> lf_seq l = 1 \<and> lf_debit l = e_total_debit e \<and> lf_hash l = d \<and> lf_seal l = None \<and> lf_index l = None \<and> lf_id l = 1"
  using assms
  by (simp add: record_leaf_def demo_config_def leaf_for_entry_def empty_proofs_def
      leaf_checks_def raise_if_def next_leaf_seq_def Let_def)

lemmas press_simps = seal_now_def create_seal_def demo_config_def unsealed_def setting_for_def exists_open_def
  latest_confirmed_def highest_live_seq_def add_seal_def seal_checks_def raise_if_def assign_to_seal_def
  submit_def demo_setting_def is_ready_def truthy_def demo_client_def apply_outcome_def confirm_seal_def save_seal_def
  settle_def empty_proofs_def covered_window_def log_event_def Let_def

lemma demo_sealed:
  assumes "lf_org l = 900" "lf_seq l = 1" "money_minor (Some (lf_debit l)) = Inr 2505000" "lf_hash l = hex h" "lf_seal l = None"
    "lf_index l = None" "lf_id l = 1" "length h = 32"
  shows "\<exists>pd s. seal_now demo_config demo_client (empty_proofs\<lparr>settings := [demo_setting], leaves := [l], pd_next := 2\<rparr>) 900 7 =
      Inr (pd, Some s) \<and> s \<in> set (seals pd) \<and> se_status s = CONFIRMED \<and> se_id s = 2 \<and>
      settings pd = [demo_setting] \<and> leaves pd = [l\<lparr>lf_seal := Some 2, lf_index := Some 0\<rparr>]"
    and demo_unknown: "\<exists>pd s. seal_now demo_config (demo_client\<lparr>submit_seal := Inr \<lparr>so_status = ''unknown'', so_tx = Some ''T1'',
        so_ledger = None, so_network_time = None, so_error_name = None, so_message = None\<rparr>\<rparr>)
        (empty_proofs\<lparr>settings := [demo_setting], leaves := [l], pd_next := 2\<rparr>) 900 7 =
      Inr (pd, Some s) \<and> s \<in> set (seals pd) \<and> se_status s = SUBMITTED \<and> se_org s = 900 \<and> seal_checks pd s = Inr ()"
proof -
  have "merkle_root [h] = Inr h" using merkle_root_mth [of "[h]"] assms(8) by (simp add: leaves_ok_def mth_single)
  note facts = assms(1-7) this
  show "\<exists>pd s. seal_now demo_config demo_client (empty_proofs\<lparr>settings := [demo_setting], leaves := [l], pd_next := 2\<rparr>) 900 7 =
      Inr (pd, Some s) \<and> s \<in> set (seals pd) \<and> se_status s = CONFIRMED \<and> se_id s = 2 \<and>
      settings pd = [demo_setting] \<and> leaves pd = [l\<lparr>lf_seal := Some 2, lf_index := Some 0\<rparr>]"
    using facts by (simp add: press_simps del: money_minor.simps)
  show "\<exists>pd s. seal_now demo_config (demo_client\<lparr>submit_seal := Inr \<lparr>so_status = ''unknown'', so_tx = Some ''T1'',
        so_ledger = None, so_network_time = None, so_error_name = None, so_message = None\<rparr>\<rparr>)
        (empty_proofs\<lparr>settings := [demo_setting], leaves := [l], pd_next := 2\<rparr>) 900 7 =
      Inr (pd, Some s) \<and> s \<in> set (seals pd) \<and> se_status s = SUBMITTED \<and> se_org s = 900 \<and> seal_checks pd s = Inr ()"
    using facts by (simp add: press_simps del: money_minor.simps)
qed

lemma demo_recorded:
  "\<exists>st l h. attested_reachable demo_config st \<and>
     hook_state st = empty_proofs\<lparr>settings := [demo_setting], leaves := [l], pd_next := 2\<rparr> \<and> lf_org l = 900 \<and> lf_seq l = 1 \<and>
     money_minor (Some (lf_debit l)) = Inr 2505000 \<and> lf_hash l = hex h \<and> lf_seal l = None \<and> lf_index l = None \<and> lf_id l = 1 \<and>
     length h = 32 \<and> list_all storable (entries st)"
proof -
  obtain st0 s0 e where d: "demo_ready = Inr st0" "create_entry quiet_hooks st0 900 demo_entry 7 None None 5000 = Inr (s0, e)"
      "hook_state s0 = empty_proofs\<lparr>settings := [demo_setting]\<rparr>" "storable e" "e_org e = 900"
      "money_minor (Some (e_total_debit e)) = Inr 2505000" "length (e_lines e) = 2"
      "list_all (\<lambda>l. 0 \<le> l_number l \<and> l_number l \<le> 2) (e_lines e)" "list_all storable (entries s0)" using demo_posted by blast
  define st1 where "st1 = notify_entry_posted (install_attestation_hooks demo_config) s0 e"
  have "create_entry (install_attestation_hooks demo_config) st0 900 demo_entry 7 None None 5000 = Inr (st1, e)"
    unfolding st1_def using d(2) by (intro create_entry_notifies) (simp_all add: quiet_hooks_def demo_entry_def)
  then have r1: "attested_reachable demo_config st1"
    using attested_step [OF demo_ready_reachable [OF d(1)]] proof_step.books ledger_step.entry_new demo_validates by metis
  have "is_ok (encode_entry (payload_from_entry e))"
    using d(7,8) by (intro storable_encodes [OF d(4)]) (auto simp: list_all_iff)
  then obtain h where h: "leaf_hash_hex (payload_from_entry e) = Inr (hex h)" "length h = 32"
    by (auto simp: is_ok_iff leaf_hash_hex_def leaf_hash_def leaf_of_bytes_def)
  have "entries st1 = entries s0" by (simp add: st1_def)
  then show ?thesis
    using demo_leaf [OF h(1) d(5)] d(6,9) h(2) r1 entry_hooks_state [of demo_config s0 e]
    unfolding st1_def d(3) by metis
qed

lemma demo_run:
  "\<exists>st l s. attested_reachable demo_config st \<and> leaves (hook_state st) = [l] \<and> lf_org l = 900 \<and> lf_seal l = Some (se_id s) \<and>
     s \<in> set (seals (hook_state st)) \<and> se_status s = CONFIRMED \<and> settings (hook_state st) = [demo_setting]"
proof -
  obtain st l h where r: "attested_reachable demo_config st"
      "hook_state st = empty_proofs\<lparr>settings := [demo_setting], leaves := [l], pd_next := 2\<rparr>"
      "lf_org l = 900" "lf_seq l = 1" "money_minor (Some (lf_debit l)) = Inr 2505000" "lf_hash l = hex h" "lf_seal l = None"
      "lf_index l = None" "lf_id l = 1" "length h = 32" using demo_recorded by blast
  obtain pd s where s: "seal_now demo_config demo_client (hook_state st) 900 7 = Inr (pd, Some s)" "s \<in> set (seals pd)"
      "se_status s = CONFIRMED" "se_id s = 2" "settings pd = [demo_setting]" "leaves pd = [l\<lparr>lf_seal := Some 2, lf_index := Some 0\<rparr>]"
    using demo_sealed [OF r(3-10)] unfolding r(2) by blast
  from attested_step [OF r(1) proof_step.press [OF s(1)]] s r(3) show ?thesis
    by (intro exI [of _ "st\<lparr>hook_state := pd\<rparr>"]) auto
qed

lemma seal_checks_cong: "seals pd' = seals pd \<Longrightarrow> seal_checks pd' s = seal_checks pd s"
  by (simp add: seal_checks_def)

lemma demo_sent:
  "\<exists>pd s. proof_inv pd \<and> s \<in> set (seals pd) \<and> se_status s = SUBMITTED \<and> se_org s = 900 \<and> seal_checks pd s = Inr () \<and>
     settings pd = [demo_setting\<lparr>as_enabled := False\<rparr>]"
proof -
  obtain st l h where r: "attested_reachable demo_config st"
      "hook_state st = empty_proofs\<lparr>settings := [demo_setting], leaves := [l], pd_next := 2\<rparr>"
      "lf_org l = 900" "lf_seq l = 1" "money_minor (Some (lf_debit l)) = Inr 2505000" "lf_hash l = hex h" "lf_seal l = None"
      "lf_index l = None" "lf_id l = 1" "length h = 32" using demo_recorded by blast
  let ?out = "\<lparr>so_status = ''unknown'', so_tx = Some ''T1'', so_ledger = None, so_network_time = None, so_error_name = None,
    so_message = None\<rparr>"
  obtain pd s where s: "seal_now demo_config (demo_client\<lparr>submit_seal := Inr ?out\<rparr>) (hook_state st) 900 7 = Inr (pd, Some s)"
      "s \<in> set (seals pd)" "se_status s = SUBMITTED" "se_org s = 900" "seal_checks pd s = Inr ()"
    using demo_unknown [OF r(3-10)] unfolding r(2) by blast
  have "proof_inv (hook_state st)" using attested_reachable_inv [OF r(1)] by (simp add: attested_inv_def)
  then have "proof_inv pd" using s(1) by (rule inv_seal_now)
  then have "proof_inv (pd\<lparr>settings := [demo_setting\<lparr>as_enabled := False\<rparr>]\<rparr>)" by (rule proof_inv_frame) simp_all
  moreover have "seal_checks (pd\<lparr>settings := [demo_setting\<lparr>as_enabled := False\<rparr>]\<rparr>) s = Inr ()"
    using s(5) seal_checks_cong [of "pd\<lparr>settings := [demo_setting\<lparr>as_enabled := False\<rparr>]\<rparr>" pd] by simp
  ultimately show ?thesis
    using s(2-4) by (intro exI [of _ "pd\<lparr>settings := [demo_setting\<lparr>as_enabled := False\<rparr>]\<rparr>"] exI [of _ s]) simp
qed

lemma demo_bundle:
  "\<exists>st s b. attested_reachable demo_config st \<and> s \<in> set (seals (hook_state st)) \<and> se_status s \<noteq> FAILED \<and> pb_root b = se_root s \<and>
     verify_bundle demo_client b False = Inr \<lparr>vr_valid = True, vr_reason = ''The bundle is internally consistent.''\<rparr>"
proof -
  obtain st l s where r: "attested_reachable demo_config st" "leaves (hook_state st) = [l]" "lf_org l = 900" "lf_seal l = Some (se_id s)"
      "s \<in> set (seals (hook_state st))" "se_status s = CONFIRMED" "settings (hook_state st) = [demo_setting]"
    using demo_run by blast
  have "setting_for (hook_state st) (lf_org l) = Inr (Some demo_setting)" "truthy (as_contract demo_setting)"
    using r(3,7) by (simp_all add: setting_for_def demo_setting_def truthy_def)
  with issued_bundle [OF attested_reachable_inv [OF r(1)] _ r(4-6)] r show ?thesis by (metis list.set_intros(1) seal_status.distinct(11))
qed

section \<open>Properties\<close>

text \<open>
  C6. The seals of an organization form one chain over its leaves. In every reachable state the leaves carry
  the numbers 1, 2, 3, ...; the seals that have not failed carry 1, 2, 3, ..., each names the root of the one
  before it (the first the genesis root), and all but the newest are confirmed; their batches, in order,
  followed by the unsealed backlog, are exactly the leaves, so no leaf is skipped or sealed twice; and each
  stored root, count and debit total is that of the seal's batch.
\<close>

theorem seals_form_chain:
  assumes "attested_reachable cfg st"
  shows "let pd = hook_state st; ss = live_seals pd org; ls = org_leaves pd org in
    numbered (map lf_seq ls) \<and> numbered (map se_seq ss) \<and>
    (\<forall>i < length ss. se_prev (ss ! i) = (if i = 0 then GENESIS_ROOT else se_root (ss ! (i - 1))) \<and>
       (Suc i < length ss \<longrightarrow> se_status (ss ! i) = CONFIRMED)) \<and>
    concat (map (\<lambda>s. for_seal pd (se_id s)) ss) @ unsealed pd org (length (leaves pd)) = ls \<and>
    (\<forall>s \<in> set ss. int (length (for_seal pd (se_id s))) = se_count s \<and> sum_minor (for_seal pd (se_id s)) = Inr (se_debit s) \<and>
       (\<exists>ds rt. digests (for_seal pd (se_id s)) = Inr ds \<and> merkle_root ds = Inr rt \<and> se_root s = hex rt))"
proof -
  let ?pd = "hook_state st"
  have inv: "proof_inv ?pd" using attested_reachable_inv [OF assms] by (simp add: attested_inv_def)
  then have ok: "numbered (map lf_seq (org_leaves ?pd org))" "chained 1 GENESIS_ROOT (live_seals ?pd org) (org_leaves ?pd org)"
    by (simp_all add: proof_inv_def org_ok_def)
  have "batch_of s (for_seal ?pd (se_id s))" if "s \<in> set (live_seals ?pd org)" for s
    using for_seal_batch(1) [OF inv] that by (simp add: live_mem)
  then show ?thesis
    using ok(1) chained_numbered [OF ok(2)] chained_link [OF ok(2)] seals_tile [OF inv]
    unfolding Let_def batch_of_def by blast
qed

theorem seals_form_chain_witness:
  "\<exists>st. attested_reachable demo_config st \<and> leaves (hook_state st) \<noteq> [] \<and> seals (hook_state st) \<noteq> [] \<and>
     numbered (map se_seq (live_seals (hook_state st) 900))"
proof -
  obtain st l s where "attested_reachable demo_config st" "leaves (hook_state st) = [l]" "s \<in> set (seals (hook_state st))"
    using demo_run by blast
  with seals_form_chain [of demo_config st 900] show ?thesis unfolding Let_def by (intro exI [of _ st]) auto
qed

text \<open>
  C9. The leaves are the posted entries. In every reachable state each leaf belongs to a posted entry of the
  same organization, and the hash recomputed from that entry as it stands is the hash of the leaf; and while
  the proof ledger is on, every posted entry that can be encoded has exactly one leaf.
\<close>

theorem leaves_match_books:
  assumes "attested_reachable cfg st"
  shows "(\<forall>l \<in> set (leaves (hook_state st)). \<exists>e \<in> set (entries st). is_posted e \<and> e_id e = lf_entry l \<and> e_org e = lf_org l \<and>
      leaf_hash_hex (payload_from_entry e) = Inr (lf_hash l)) \<and>
    (attestation_enabled cfg \<longrightarrow> (\<forall>e \<in> set (entries st). is_posted e \<and> is_ok (leaf_hash_hex (payload_from_entry e)) \<longrightarrow>
      (\<exists>!l. l \<in> set (leaves (hook_state st)) \<and> lf_entry l = e_id e)))"
proof -
  have inv: "leaves_sound st" "leaves_complete cfg st" "distinct (map lf_entry (leaves (hook_state st)))"
    using attested_reachable_inv [OF assms] by (simp_all add: attested_inv_def proof_inv_def rows_ok_def)
  then have "\<exists>!l. l \<in> set (leaves (hook_state st)) \<and> lf_entry l = k"
    if "\<exists>l \<in> set (leaves (hook_state st)). lf_entry l = k" for k
    using that by (auto simp: distinct_map dest: inj_onD)
  then show ?thesis using inv(1,2) by (auto simp: leaves_sound_def leaves_complete_def commits_to_def)
qed

theorem leaves_match_books_witness:
  "\<exists>st l e. attested_reachable demo_config st \<and> l \<in> set (leaves (hook_state st)) \<and> e \<in> set (entries st) \<and> is_posted e \<and>
     leaf_hash_hex (payload_from_entry e) = Inr (lf_hash l)"
proof -
  obtain st l s where st: "attested_reachable demo_config st" "leaves (hook_state st) = [l]" using demo_run by blast
  then have "l \<in> set (leaves (hook_state st))" by simp
  with st(1) leaves_match_books [OF st(1), THEN conjunct1] show ?thesis by blast
qed

text \<open>
  C7. A proof can always be issued, and it verifies. In every reachable state, for every leaf under a
  confirmed seal of an organization that has a contract configured, \<^verbatim>\<open>bundle_for_entry\<close> succeeds, the bundle
  names the seal's number and root, \<^verbatim>\<open>verify_bundle\<close> accepts it offline, and accepts it against the chain
  whenever the chain holds the seal's root at the seal's number. The conflicts the code guards against (an
  entry that no longer matches its leaf, a path that does not reach the root) do not arise.
\<close>

theorem proof_always_issuable:
  assumes "attested_reachable cfg st" and "l \<in> set (leaves (hook_state st))" "lf_seal l = Some (se_id s)"
    and "s \<in> set (seals (hook_state st))" "se_status s = CONFIRMED"
    and "setting_for (hook_state st) (lf_org l) = Inr (Some setting)" "truthy (as_contract setting)"
  shows "\<exists>st' b. bundle_for_entry st (lf_org l) (lf_entry l) actor = Inr (st', b) \<and>
    pb_seq b = se_seq s \<and> pb_root b = se_root s \<and> pb_hash b = lf_hash l \<and>
    verify_bundle client b False = Inr \<lparr>vr_valid = True, vr_reason = ''The bundle is internally consistent.''\<rparr> \<and>
    (\<forall>v. read_seal client (se_seq s) = Inr (Some v) \<and> sv_root v = se_root s \<longrightarrow>
       verify_bundle client b True = Inr \<lparr>vr_valid = True, vr_reason = ''Verified.''\<rparr>)"
  using attested_reachable_inv [OF assms(1)] assms(2-7) by (rule issued_bundle)

theorem proof_always_issuable_witness:
  "\<exists>st l s st' b. attested_reachable demo_config st \<and> l \<in> set (leaves (hook_state st)) \<and> s \<in> set (seals (hook_state st)) \<and>
     bundle_for_entry st (lf_org l) (lf_entry l) None = Inr (st', b) \<and> pb_root b = se_root s \<and>
     verify_bundle demo_client b False = Inr \<lparr>vr_valid = True, vr_reason = ''The bundle is internally consistent.''\<rparr>"
proof -
  obtain st l s where r: "attested_reachable demo_config st" "leaves (hook_state st) = [l]" "lf_org l = 900" "lf_seal l = Some (se_id s)"
      "s \<in> set (seals (hook_state st))" "se_status s = CONFIRMED" "settings (hook_state st) = [demo_setting]"
    using demo_run by blast
  have l: "l \<in> set (leaves (hook_state st))" using r(2) by simp
  have "setting_for (hook_state st) (lf_org l) = Inr (Some demo_setting)" "truthy (as_contract demo_setting)"
    using r(3,7) by (simp_all add: setting_for_def demo_setting_def truthy_def)
  from proof_always_issuable [OF r(1) l r(4-6) this] show ?thesis using r(1,5) l by blast
qed

text \<open>
  C8. What a verified bundle says. If \<^verbatim>\<open>verify_bundle\<close> accepts a bundle whose root is that of a seal that has
  not failed, then the entry in it encodes to the same bytes as one of the posted entries in that seal's
  batch, and so agrees with it in every committed field; or two different strings with the same SHA-256
  digest are among those hashed in building the batch's tree and in checking the bundle.
\<close>

theorem verified_bundle_is_sealed_entry:
  assumes "attested_reachable cfg st" and "s \<in> set (seals (hook_state st))" "se_status s \<noteq> FAILED"
    and "pb_root b = se_root s" "verify_bundle client b check_chain = Inr r" "vr_valid r"
  shows "\<exists>d xs. encode_entry (pb_entry b) = Inr d \<and>
    list_all2 (\<lambda>l x. \<exists>e \<in> set (entries st). commits_to l e \<and> encode_entry (payload_from_entry e) = Inr x)
      (for_seal (hook_state st) (se_id s)) xs \<and>
    ((\<exists>l \<in> set (for_seal (hook_state st) (se_id s)). \<exists>e \<in> set (entries st). commits_to l e \<and>
        encode_entry (payload_from_entry e) = Inr d \<and>
        (\<forall>e'. pb_entry b = payload_from_entry e' \<and> storable e \<and> storable e' \<longrightarrow> same_record e' e)) \<or>
     collision_in ((LEAF_PREFIX @ d) # path_inputs (leaf_of_bytes d) (pb_path b)) (tree_inputs xs))"
proof -
  let ?b = "for_seal (hook_state st) (se_id s)"
  obtain xs where xs: "list_all2 (\<lambda>l x. \<exists>e \<in> set (entries st). commits_to l e \<and> encode_entry (payload_from_entry e) = Inr x) ?b xs"
      "xs \<noteq> []" "se_root s = hex (mth (map leaf_of_bytes xs))"
    using attested_reachable_inv [OF assms(1)] assms(2,3) by (rule batch_facts)
  obtain d where d: "encode_entry (pb_entry b) = Inr d"
      "fold_path (leaf_of_bytes d) (pb_path b) = Some (mth (map leaf_of_bytes xs))"
    using accepted_bundle [OF assms(5,6)] by (auto simp: assms(4) xs(3))
  have "d \<in> set xs \<or> collision_in ((LEAF_PREFIX @ d) # path_inputs (leaf_of_bytes d) (pb_path b)) (tree_inputs xs)"
    using d(2) xs(2) by (rule path_sound)
  moreover have "\<exists>l \<in> set ?b. \<exists>e \<in> set (entries st). commits_to l e \<and> encode_entry (payload_from_entry e) = Inr d \<and>
      (\<forall>e'. pb_entry b = payload_from_entry e' \<and> storable e \<and> storable e' \<longrightarrow> same_record e' e)" if "d \<in> set xs"
  proof -
    from list_all2_rightE [OF xs(1) that] obtain l e where e: "l \<in> set ?b" "e \<in> set (entries st)" "commits_to l e"
        "encode_entry (payload_from_entry e) = Inr d" by blast
    then show ?thesis using d(1) encoding_same_record by metis
  qed
  ultimately show ?thesis using d(1) xs(1) by blast
qed

theorem verified_bundle_is_sealed_entry_witness:
  "\<exists>st s b d xs. attested_reachable demo_config st \<and> s \<in> set (seals (hook_state st)) \<and> pb_root b = se_root s \<and>
     verify_bundle demo_client b False = Inr \<lparr>vr_valid = True, vr_reason = ''The bundle is internally consistent.''\<rparr> \<and>
     encode_entry (pb_entry b) = Inr d \<and>
     ((\<exists>e \<in> set (entries st). encode_entry (payload_from_entry e) = Inr d) \<or>
      collision_in ((LEAF_PREFIX @ d) # path_inputs (leaf_of_bytes d) (pb_path b)) (tree_inputs xs))"
proof -
  obtain st s b where r: "attested_reachable demo_config st" "s \<in> set (seals (hook_state st))" "se_status s \<noteq> FAILED"
      "pb_root b = se_root s" "verify_bundle demo_client b False = Inr \<lparr>vr_valid = True, vr_reason = ''The bundle is internally consistent.''\<rparr>"
    using demo_bundle by blast
  from verified_bundle_is_sealed_entry [OF r] r(1,2,4,5) show ?thesis by auto blast+
qed

text \<open>
  C39. \<^verbatim>\<open>submit\<close> is described as asking the chain first. For an organization whose sealing was switched off it
  does not: whatever the chain holds, a seal that was already sent, and may have landed, is marked failed
  and its leaves go back to the backlog, to be sealed again under the same number.
\<close>

theorem submit_abandons_unasked:
  assumes "proof_inv pd" "s \<in> set (seals pd)" "se_status s = SUBMITTED" "seal_checks pd s = Inr ()"
    and "setting_for pd (se_org s) = Inr (Some setting)" "\<not> as_enabled setting"
  shows "\<exists>pd' s'. (\<forall>client. submit client pd s = (pd', Inr s')) \<and> se_status s' = FAILED \<and> for_seal pd (se_id s) \<noteq> [] \<and>
    (\<forall>l \<in> set (for_seal pd (se_id s)). l\<lparr>lf_seal := None, lf_index := None\<rparr> \<in> set (unsealed pd' (lf_org l) (length (leaves pd'))))"
proof -
  let ?why = "''Sealing is no longer configured for this organization.''"
  obtain pd' s' where f: "fail_seal pd s ?why WARNING = Inr (pd', s')" "se_status s' = FAILED"
      "leaves pd' = map (cleared (se_id s)) (leaves pd)"
    using fail_seal_succeeds [OF assms(4)] by blast
  have "submit client pd s = (pd', Inr s')" for client
    using assms(5,6) f(1) by (simp add: submit_def is_ready_def settle_def)
  moreover have "for_seal pd (se_id s) \<noteq> []"
    using for_seal_batch(1) [OF assms(1,2)] assms(3) by (simp add: batch_of_def)
  moreover have "l\<lparr>lf_seal := None, lf_index := None\<rparr> \<in> set (unsealed pd' (lf_org l) (length (leaves pd')))"
    if "l \<in> set (for_seal pd (se_id s))" for l
  proof -
    have l: "l \<in> set (leaves pd)" "lf_seal l = Some (se_id s)" using that by (auto simp: for_seal_def)
    then have "cleared (se_id s) l \<in> set (leaves pd')" by (simp add: f(3))
    then show ?thesis using l(2) by (simp add: set_unsealed cleared_def)
  qed
  ultimately show ?thesis using f(2) by blast
qed

theorem submit_abandons_unasked_witness:
  "\<exists>pd s pd' s'. s \<in> set (seals pd) \<and> se_status s = SUBMITTED \<and> (\<forall>client. submit client pd s = (pd', Inr s')) \<and> se_status s' = FAILED"
proof -
  obtain pd s where d: "proof_inv pd" "s \<in> set (seals pd)" "se_status s = SUBMITTED" "se_org s = 900"
      "seal_checks pd s = Inr ()" "settings pd = [demo_setting\<lparr>as_enabled := False\<rparr>]" using demo_sent by blast
  have "setting_for pd (se_org s) = Inr (Some (demo_setting\<lparr>as_enabled := False\<rparr>))"
    by (simp add: setting_for_def d(4,6) demo_setting_def)
  from submit_abandons_unasked [OF d(1-3,5) this] d(2,3) show ?thesis by auto
qed

end
