(* ===== verification/Stock.thy ===== *)
theory Stock
  imports Valuation Ledger_Properties "HOL-Library.List_Lexorder" "HOL-Library.Char_ord"
begin

text \<open>
  The stock sub-ledger: the products, warehouses, stock levels and stock movements of
  \<^verbatim>\<open>purchasing/models.py\<close> and \<^verbatim>\<open>StockService\<close> of \<^verbatim>\<open>purchasing/stock.py\<close>, whose \<^verbatim>\<open>record\<close> is the only way a
  position changes, together with the ledger entries the service posts. The row lock that \<^verbatim>\<open>record\<close> takes
  makes it one atomic step, which is how it is modelled. Quantities are on the grid of the
  \<^verbatim>\<open>NUMERIC(18, 4)\<close> columns when they reach the service, because the request schemas and the document
  lines only admit such values, so a column stores what is written to it.
\<close>

section \<open>Rows\<close>

datatype product_kind = STOCKED | SERVICE | CONSUMABLE

definition kind_tracks_stock :: "product_kind \<Rightarrow> bool" where
  "kind_tracks_stock k \<longleftrightarrow> k = STOCKED"

datatype movement_kind = RECEIPT | ISSUE | ADJUSTMENT | TRANSFER_OUT | TRANSFER_IN | RETURN_OUT | RETURN_IN | REVERSAL

definition increases_stock :: "movement_kind \<Rightarrow> bool" where
  "increases_stock k \<longleftrightarrow> k \<in> set [RECEIPT, ADJUSTMENT, TRANSFER_IN, RETURN_IN]"

record product =
  pr_id :: uuid
  pr_org :: uuid
  pr_sku :: string
  pr_name :: string
  pr_description :: "string option"
  pr_barcode :: "string option"
  pr_kind :: product_kind
  pr_hsn :: "string option"
  pr_unit :: string
  pr_tax_rate :: decimal
  pr_sale_price :: decimal
  pr_purchase_price :: decimal
  pr_reorder_level :: decimal
  pr_revenue_account :: "uuid option"
  pr_inventory_account :: "uuid option"
  pr_cogs_account :: "uuid option"
  pr_active :: bool
  pr_deleted :: "instant option"

definition tracks_stock :: "product \<Rightarrow> bool" where
  "tracks_stock p = kind_tracks_stock (pr_kind p)"

record warehouse =
  wh_id :: uuid
  wh_org :: uuid
  wh_code :: string
  wh_name :: string
  wh_default :: bool
  wh_active :: bool
  wh_deleted :: "instant option"

record stock_level =
  sl_id :: uuid
  sl_org :: uuid
  sl_product :: uuid
  sl_warehouse :: uuid
  sl_quantity :: decimal
  sl_value :: decimal
  sl_average_cost :: decimal
  sl_reserved :: decimal
  sl_last_movement :: "instant option"

definition available_quantity :: "stock_level \<Rightarrow> decimal" where
  "available_quantity l = sl_quantity l - sl_reserved l"

record stock_movement =
  mv_id :: uuid
  mv_org :: uuid
  mv_created_at :: instant
  mv_product :: uuid
  mv_warehouse :: uuid
  mv_kind :: movement_kind
  mv_date :: date
  mv_quantity :: decimal
  mv_unit_cost :: decimal
  mv_total_cost :: decimal
  mv_balance_after :: decimal
  mv_average_cost_after :: decimal
  mv_source_type :: "string option"
  mv_source_id :: "uuid option"
  mv_reference :: "string option"
  mv_notes :: "string option"
  mv_entry :: "uuid option"
  mv_reverses :: "uuid option"
  mv_created_by :: uuid

definition is_inbound :: "stock_movement \<Rightarrow> bool" where
  "is_inbound m \<longleftrightarrow> 0 < mv_quantity m"

text \<open>The tables of the sub-ledger beside the general ledger, which hands out the identifiers.\<close>

record 'h stock_db =
  books :: "'h db"
  warehouses :: "warehouse list"
  levels :: "stock_level list"
  movements :: "stock_movement list"

definition empty_stock :: "'h \<Rightarrow> 'h stock_db" where
  "empty_stock h = \<lparr>books = empty_db h, warehouses = [], levels = [], movements = []\<rparr>"

definition take_id :: "'h stock_db \<Rightarrow> 'h stock_db" where
  "take_id st = st\<lparr>books := (books st)\<lparr>next_id := next_id (books st) + 1\<rparr>\<rparr>"

definition fresh_id :: "'h stock_db \<Rightarrow> uuid" where
  "fresh_id st = next_id (books st)"

section \<open>Constraints\<close>

definition fits :: "decimal \<Rightarrow> bool" where
  "fits x \<longleftrightarrow> \<bar>x\<bar> < 10 ^ 14"

definition warehouse_checks :: "'h stock_db \<Rightarrow> warehouse \<Rightarrow> unit result" where
  "warehouse_checks st w =
     bindr (raise_if (\<exists>x \<in> set (warehouses st). wh_org x = wh_org w \<and> wh_code x = wh_code w \<and> wh_id x \<noteq> wh_id w)
       (IntegrityError ''uq_warehouse_org_code'')) (\<lambda>_.
     raise_if (wh_default w \<and> wh_deleted w = None \<and>
         (\<exists>x \<in> set (warehouses st). wh_org x = wh_org w \<and> wh_default x \<and> wh_deleted x = None \<and> wh_id x \<noteq> wh_id w))
       (IntegrityError ''uq_warehouse_single_default''))"

definition level_checks :: "'h stock_db \<Rightarrow> stock_level \<Rightarrow> unit result" where
  "level_checks st l =
     bindr (raise_if (\<exists>x \<in> set (levels st). sl_product x = sl_product l \<and> sl_warehouse x = sl_warehouse l \<and> sl_id x \<noteq> sl_id l)
       (IntegrityError ''uq_stock_product_warehouse'')) (\<lambda>_.
     bindr (raise_if (\<not> 0 \<le> sl_quantity l) (IntegrityError ''quantity_non_negative'')) (\<lambda>_.
     bindr (raise_if (\<not> 0 \<le> sl_average_cost l) (IntegrityError ''cost_non_negative'')) (\<lambda>_.
     bindr (raise_if (\<not> 0 \<le> sl_value l) (IntegrityError ''value_non_negative'')) (\<lambda>_.
     bindr (raise_if (\<not> 0 \<le> sl_reserved l) (IntegrityError ''reserved_non_negative'')) (\<lambda>_.
     raise_if (\<not> (fits (sl_quantity l) \<and> fits (sl_value l) \<and> fits (sl_reserved l)))
       (IntegrityError ''numeric field overflow''))))))"

definition movement_checks :: "stock_movement \<Rightarrow> unit result" where
  "movement_checks m =
     bindr (raise_if (mv_quantity m = 0) (IntegrityError ''quantity_non_zero'')) (\<lambda>_.
     bindr (raise_if (\<not> 0 \<le> mv_unit_cost m) (IntegrityError ''unit_cost_non_negative'')) (\<lambda>_.
     bindr (raise_if (\<not> 0 \<le> mv_balance_after m) (IntegrityError ''balance_non_negative'')) (\<lambda>_.
     raise_if (\<not> (fits (mv_quantity m) \<and> fits (mv_total_cost m) \<and> fits (mv_balance_after m)))
       (IntegrityError ''numeric field overflow''))))"

section \<open>Warehouses\<close>

definition default_warehouse :: "'h stock_db \<Rightarrow> uuid \<Rightarrow> ('h stock_db \<times> warehouse) result" where
  "default_warehouse st org =
     bindr (scalar_one_or_none (filter (\<lambda>w. wh_org w = org \<and> wh_default w \<and> wh_deleted w = None) (warehouses st))) (\<lambda>found.
     case found of
       Some w \<Rightarrow> Inr (st, w)
     | None \<Rightarrow>
         let w = \<lparr>wh_id = fresh_id st, wh_org = org, wh_code = ''MAIN'', wh_name = ''Main Warehouse'',
                  wh_default = True, wh_active = True, wh_deleted = None\<rparr>
         in bindr (warehouse_checks st w) (\<lambda>_.
            Inr ((take_id st)\<lparr>warehouses := warehouses st @ [w]\<rparr>, w)))"

definition get_warehouse :: "'h stock_db \<Rightarrow> uuid \<Rightarrow> uuid option \<Rightarrow> ('h stock_db \<times> warehouse) result" where
  "get_warehouse st org warehouse_id =
     (case warehouse_id of
        None \<Rightarrow> default_warehouse st org
      | Some i \<Rightarrow>
          bindr (scalar_one_or_none
            (filter (\<lambda>w. wh_id w = i \<and> wh_org w = org \<and> wh_deleted w = None) (warehouses st))) (\<lambda>found.
          case found of
            None \<Rightarrow> Inl (NotFoundError ''Warehouse'')
          | Some w \<Rightarrow>
              bindr (raise_if (\<not> wh_active w) (BusinessRuleError ''Warehouse is inactive'')) (\<lambda>_.
              Inr (st, w))))"

section \<open>Stock levels\<close>

definition locked_level ::
    "'h stock_db \<Rightarrow> uuid \<Rightarrow> uuid \<Rightarrow> uuid \<Rightarrow> ('h stock_db \<times> stock_level) result" where
  "locked_level st org product_id warehouse_id =
     bindr (scalar_one_or_none
       (filter (\<lambda>l. sl_product l = product_id \<and> sl_warehouse l = warehouse_id) (levels st))) (\<lambda>found.
     case found of
       Some l \<Rightarrow> Inr (st, l)
     | None \<Rightarrow>
         let l = \<lparr>sl_id = fresh_id st, sl_org = org, sl_product = product_id, sl_warehouse = warehouse_id,
                  sl_quantity = 0, sl_value = 0, sl_average_cost = 0, sl_reserved = 0, sl_last_movement = None\<rparr>
         in bindr (level_checks st l) (\<lambda>_.
            Inr ((take_id st)\<lparr>levels := levels st @ [l]\<rparr>, l)))"

definition level_for ::
    "'h stock_db \<Rightarrow> uuid \<Rightarrow> uuid \<Rightarrow> uuid option \<Rightarrow> ('h stock_db \<times> stock_level option) result" where
  "level_for st org product_id warehouse_id =
     bindr (get_warehouse st org warehouse_id) (\<lambda>(st1, w).
     bindr (scalar_one_or_none
       (filter (\<lambda>l. sl_product l = product_id \<and> sl_warehouse l = wh_id w) (levels st1))) (\<lambda>found.
     Inr (st1, found)))"

section \<open>The single mutation path\<close>

text \<open>The keyword arguments of \<^verbatim>\<open>StockService.record\<close>.\<close>

record movement_args =
  ma_kind :: movement_kind
  ma_quantity :: decimal
  ma_unit_cost :: "decimal option"
  ma_date :: date
  ma_actor :: uuid
  ma_source_type :: "string option"
  ma_source_id :: "uuid option"
  ma_reference :: "string option"
  ma_notes :: "string option"
  ma_entry :: "uuid option"
  ma_reverses :: "uuid option"

text \<open>What a movement does to a position: the new position, the unit cost, the total cost and the signed quantity.\<close>

record costed_movement =
  cm_state :: valuation_state
  cm_unit_cost :: decimal
  cm_total_cost :: decimal
  cm_quantity :: decimal

definition receipt_cost :: "valuation_state \<Rightarrow> product \<Rightarrow> decimal option \<Rightarrow> decimal" where
  "receipt_cost current p unit_cost =
     (let cost = (case unit_cost of Some c \<Rightarrow> c | None \<Rightarrow> average_cost current)
      in if cost = 0 then pr_purchase_price p else cost)"

definition cost_movement :: "valuation_state \<Rightarrow> product \<Rightarrow> movement_args \<Rightarrow> costed_movement result" where
  "cost_movement current p ma =
     (if increases_stock (ma_kind ma) then
        let cost = receipt_cost current p (ma_unit_cost ma) in
        bindr (apply_receipt current (ma_quantity ma) cost) (\<lambda>outcome.
        Inr \<lparr>cm_state = ro_state outcome, cm_unit_cost = cost, cm_total_cost = value_added outcome,
             cm_quantity = ma_quantity ma\<rparr>)
      else if ma_kind ma = REVERSAL then
        (case ma_unit_cost ma of
           None \<Rightarrow> Inl (ValidationError ''A reversal must state the original unit cost'')
         | Some c \<Rightarrow>
             bindr (reverse_receipt current (ma_quantity ma) c) (\<lambda>s.
             Inr \<lparr>cm_state = s, cm_unit_cost = c, cm_total_cost = round_value (dmul (ma_quantity ma) c),
                  cm_quantity = - ma_quantity ma\<rparr>))
      else
        bindr (apply_issue current (ma_quantity ma)) (\<lambda>issue.
        Inr \<lparr>cm_state = io_state issue, cm_unit_cost = average_cost current,
             cm_total_cost = cost_of_goods_sold issue, cm_quantity = - ma_quantity ma\<rparr>))"

text \<open>The \<^verbatim>\<open>except NegativeStockError\<close> clause.\<close>

definition refuse_negative :: "'a result \<Rightarrow> 'a result" where
  "refuse_negative r = (if r = Inl NegativeStockError then Inl (BusinessRuleError ''Insufficient stock'') else r)"

definition level_state :: "stock_level \<Rightarrow> valuation_state" where
  "level_state l = \<lparr>v_quantity = sl_quantity l, v_value = sl_value l\<rparr>"

definition save_level :: "'h stock_db \<Rightarrow> stock_level \<Rightarrow> 'h stock_db result" where
  "save_level st l =
     bindr (level_checks st l) (\<lambda>_.
     Inr (st\<lparr>levels := update_where (\<lambda>x. sl_id x = sl_id l) (\<lambda>_. l) (levels st)\<rparr>))"

definition add_movement :: "'h stock_db \<Rightarrow> stock_movement \<Rightarrow> 'h stock_db result" where
  "add_movement st m =
     bindr (movement_checks m) (\<lambda>_.
     Inr ((take_id st)\<lparr>movements := movements st @ [m]\<rparr>))"

definition record_movement ::
    "'h stock_db \<Rightarrow> uuid \<Rightarrow> product \<Rightarrow> warehouse \<Rightarrow> movement_args \<Rightarrow> instant \<Rightarrow> ('h stock_db \<times> stock_movement) result" where
  "record_movement st org p w ma now =
     bindr (raise_if (ma_quantity ma \<le> 0) (ValidationError ''Movement quantity must be positive'')) (\<lambda>_.
     bindr (raise_if (\<not> tracks_stock p) (BusinessRuleError ''This product does not carry stock'')) (\<lambda>_.
     bindr (locked_level st org (pr_id p) (wh_id w)) (\<lambda>(st1, level).
     bindr (refuse_negative (cost_movement (level_state level) p ma)) (\<lambda>cm.
       let s = cm_state cm;
           level' = level\<lparr>sl_quantity := v_quantity s, sl_value := v_value s,
                          sl_average_cost := average_cost s, sl_last_movement := Some now\<rparr>;
           m = \<lparr>mv_id = fresh_id st1, mv_org = org, mv_created_at = now, mv_product = pr_id p,
                mv_warehouse = wh_id w, mv_kind = ma_kind ma, mv_date = ma_date ma,
                mv_quantity = cm_quantity cm, mv_unit_cost = cm_unit_cost cm, mv_total_cost = cm_total_cost cm,
                mv_balance_after = v_quantity s, mv_average_cost_after = average_cost s,
                mv_source_type = ma_source_type ma, mv_source_id = ma_source_id ma,
                mv_reference = ma_reference ma, mv_notes = ma_notes ma, mv_entry = ma_entry ma,
                mv_reverses = ma_reverses ma, mv_created_by = ma_actor ma\<rparr>
       in bindr (save_level st1 level') (\<lambda>st2.
          bindr (add_movement st2 m) (\<lambda>st3. Inr (st3, m)))))))"

section \<open>Account resolution and posting\<close>

definition inventory_account_id :: "'h db \<Rightarrow> uuid \<Rightarrow> product \<Rightarrow> uuid result" where
  "inventory_account_id st org p =
     (case pr_inventory_account p of
        Some i \<Rightarrow> Inr i
      | None \<Rightarrow> bindr (resolve_system_account st org ''inventory'') (\<lambda>a. Inr (a_id a)))"

definition cogs_account_id :: "'h db \<Rightarrow> uuid \<Rightarrow> product \<Rightarrow> uuid result" where
  "cogs_account_id st org p =
     (case pr_cogs_account p of
        Some i \<Rightarrow> Inr i
      | None \<Rightarrow> bindr (resolve_system_account st org ''cost_of_goods_sold'') (\<lambda>a. Inr (a_id a)))"

definition post_pair ::
    "'h hooks \<Rightarrow> 'h db \<Rightarrow> uuid \<Rightarrow> uuid \<Rightarrow> date \<Rightarrow> string \<Rightarrow> uuid \<Rightarrow> uuid \<Rightarrow> decimal \<Rightarrow> string option \<Rightarrow>
     string option \<Rightarrow> uuid option \<Rightarrow> instant \<Rightarrow> ('h db \<times> journal_entry) result" where
  "post_pair hs st org actor entry_date narration debit_account credit_account amount reference source_type source_id now =
     (case get_by_type st org GENERAL of
        None \<Rightarrow> Inl (BusinessRuleError ''No general journal is configured for this organization'')
      | Some j \<Rightarrow>
          let data = \<lparr>ec_journal = j_id j, ec_date = entry_date, ec_narration = narration,
                ec_reference = reference, ec_counterparty = None,
                ec_lines = [\<lparr>li_account = debit_account, li_debit = amount, li_credit = 0, li_description = None\<rparr>,
                            \<lparr>li_account = credit_account, li_debit = 0, li_credit = amount, li_description = None\<rparr>],
                ec_post = True\<rparr>
          in bindr (validate_entry_create data) (\<lambda>_.
             create_entry hs st org data actor source_type source_id now))"

definition link_entry :: "'h stock_db \<Rightarrow> uuid \<Rightarrow> uuid \<Rightarrow> 'h stock_db" where
  "link_entry st movement_id entry_id =
     st\<lparr>movements := update_where (\<lambda>m. mv_id m = movement_id) (mv_entry_update (\<lambda>_. Some entry_id)) (movements st)\<rparr>"

definition audit_stock ::
    "'h stock_db \<Rightarrow> audit_action \<Rightarrow> audit_severity \<Rightarrow> uuid \<Rightarrow> uuid \<Rightarrow> string \<Rightarrow> uuid \<Rightarrow> 'h stock_db" where
  "audit_stock st action severity actor org resource_type resource_id =
     st\<lparr>books := audit_record (books st) action severity actor org resource_type resource_id\<rparr>"

section \<open>Operations that also post to the ledger\<close>

definition issue_for_sale ::
    "'h hooks \<Rightarrow> 'h stock_db \<Rightarrow> uuid \<Rightarrow> product \<Rightarrow> decimal \<Rightarrow> date \<Rightarrow> uuid \<Rightarrow> uuid option \<Rightarrow> string \<Rightarrow> uuid option \<Rightarrow>
     string option \<Rightarrow> instant \<Rightarrow> ('h stock_db \<times> stock_movement \<times> decimal) result" where
  "issue_for_sale hs st org p quantity movement_date actor warehouse_id source_type source_id reference now =
     bindr (get_warehouse st org warehouse_id) (\<lambda>(st1, w).
     bindr (record_movement st1 org p w
       \<lparr>ma_kind = ISSUE, ma_quantity = quantity, ma_unit_cost = None, ma_date = movement_date, ma_actor = actor,
        ma_source_type = Some source_type, ma_source_id = source_id, ma_reference = reference, ma_notes = None,
        ma_entry = None, ma_reverses = None\<rparr> now) (\<lambda>(st2, m).
       let cogs = mv_total_cost m in
       if cogs > 0 then
         bindr (cogs_account_id (books st2) org p) (\<lambda>debit_account.
         bindr (inventory_account_id (books st2) org p) (\<lambda>credit_account.
         bindr (post_pair hs (books st2) org actor movement_date
           (''Cost of sales - '' @ pr_name p @
             (case reference of None \<Rightarrow> [] | Some r \<Rightarrow> if r = [] then [] else '' ('' @ r @ '')''))
           debit_account credit_account cogs reference (Some source_type) source_id now) (\<lambda>(b, e).
         Inr (link_entry (st2\<lparr>books := b\<rparr>) (mv_id m) (e_id e), m\<lparr>mv_entry := Some (e_id e)\<rparr>, cogs))))
       else Inr (st2, m, cogs)))"

definition adjust ::
    "'h hooks \<Rightarrow> 'h stock_db \<Rightarrow> uuid \<Rightarrow> product \<Rightarrow> decimal \<Rightarrow> date \<Rightarrow> string \<Rightarrow> uuid \<Rightarrow> uuid option \<Rightarrow> decimal option \<Rightarrow>
     instant \<Rightarrow> ('h stock_db \<times> stock_movement) result" where
  "adjust hs st org p quantity_delta movement_date reason actor warehouse_id unit_cost now =
     bindr (raise_if (quantity_delta = 0) (ValidationError ''Adjustment cannot be zero'')) (\<lambda>_.
     bindr (get_warehouse st org warehouse_id) (\<lambda>(st1, w).
       let increase = quantity_delta > 0 in
     bindr (record_movement st1 org p w
       \<lparr>ma_kind = (if increase then ADJUSTMENT else ISSUE), ma_quantity = \<bar>quantity_delta\<bar>,
        ma_unit_cost = unit_cost, ma_date = movement_date, ma_actor = actor,
        ma_source_type = Some ''stock_adjustment'', ma_source_id = None, ma_reference = None,
        ma_notes = Some reason, ma_entry = None, ma_reverses = None\<rparr> now) (\<lambda>(st2, m).
       let value = mv_total_cost m in
     bindr (if value > 0 then
              bindr (inventory_account_id (books st2) org p) (\<lambda>inventory.
              bindr (cogs_account_id (books st2) org p) (\<lambda>shrinkage.
              bindr (post_pair hs (books st2) org actor movement_date
                (''Stock adjustment - '' @ pr_name p @ '': '' @ reason)
                (if increase then inventory else shrinkage) (if increase then shrinkage else inventory)
                value None (Some ''stock_adjustment'') (Some (mv_id m)) now) (\<lambda>(b, e).
              Inr (link_entry (st2\<lparr>books := b\<rparr>) (mv_id m) (e_id e), m\<lparr>mv_entry := Some (e_id e)\<rparr>))))
            else Inr (st2, m)) (\<lambda>(st3, m').
     Inr (audit_stock st3 STOCK_ADJUSTED WARNING actor org ''product'' (pr_id p), m')))))"

definition transfer ::
    "'h stock_db \<Rightarrow> uuid \<Rightarrow> product \<Rightarrow> decimal \<Rightarrow> uuid \<Rightarrow> uuid \<Rightarrow> date \<Rightarrow> uuid \<Rightarrow> instant \<Rightarrow>
     ('h stock_db \<times> stock_movement \<times> stock_movement) result" where
  "transfer st org p quantity from_warehouse_id to_warehouse_id movement_date actor now =
     bindr (raise_if (from_warehouse_id = to_warehouse_id)
       (ValidationError ''Source and destination warehouses must differ'')) (\<lambda>_.
     bindr (get_warehouse st org (Some from_warehouse_id)) (\<lambda>(st1, source).
     bindr (get_warehouse st1 org (Some to_warehouse_id)) (\<lambda>(st2, destination).
     bindr (record_movement st2 org p source
       \<lparr>ma_kind = TRANSFER_OUT, ma_quantity = quantity, ma_unit_cost = None, ma_date = movement_date,
        ma_actor = actor, ma_source_type = Some ''stock_transfer'', ma_source_id = None, ma_reference = None,
        ma_notes = Some (''To '' @ wh_code destination), ma_entry = None, ma_reverses = None\<rparr> now) (\<lambda>(st3, outbound).
     bindr (record_movement st3 org p destination
       \<lparr>ma_kind = TRANSFER_IN, ma_quantity = quantity, ma_unit_cost = Some (mv_unit_cost outbound),
        ma_date = movement_date, ma_actor = actor, ma_source_type = Some ''stock_transfer'',
        ma_source_id = Some (mv_id outbound), ma_reference = None,
        ma_notes = Some (''From '' @ wh_code source), ma_entry = None, ma_reverses = None\<rparr> now) (\<lambda>(st4, inbound).
     Inr (audit_stock st4 STOCK_TRANSFERRED INFO actor org ''product'' (pr_id p), outbound, inbound))))))"

section \<open>The warehouse master\<close>

record warehouse_create =
  wc_code :: string
  wc_name :: string
  wc_default :: bool

definition create_warehouse ::
    "'h stock_db \<Rightarrow> uuid \<Rightarrow> warehouse_create \<Rightarrow> uuid \<Rightarrow> ('h stock_db \<times> warehouse) result" where
  "create_warehouse st org data actor =
     bindr (scalar_one_or_none (filter (\<lambda>w. wh_org w = org \<and> wh_code w = wc_code data) (warehouses st))) (\<lambda>clash.
     bindr (raise_if (clash \<noteq> None) (ConflictError ''Warehouse code is already in use'')) (\<lambda>_.
       let st1 = (if wc_default data
             then st\<lparr>warehouses := update_where (\<lambda>w. wh_org w = org \<and> wh_deleted w = None)
                       (wh_default_update (\<lambda>_. False)) (warehouses st)\<rparr>
             else st);
           w = \<lparr>wh_id = fresh_id st1, wh_org = org, wh_code = wc_code data, wh_name = wc_name data,
                wh_default = wc_default data, wh_active = True, wh_deleted = None\<rparr>
       in bindr (warehouse_checks st1 w) (\<lambda>_.
          Inr (audit_stock ((take_id st1)\<lparr>warehouses := warehouses st1 @ [w]\<rparr>)
                 WAREHOUSE_CREATED INFO actor org ''warehouse'' (wh_id w), w))))"

section \<open>Stock reports\<close>

text \<open>\<^verbatim>\<open>ProductService.aggregate_stock\<close>: the database multiplies and adds \<^verbatim>\<open>NUMERIC\<close> values exactly.\<close>

definition aggregate_stock :: "'h stock_db \<Rightarrow> uuid \<Rightarrow> decimal \<times> decimal" where
  "aggregate_stock st product_id =
     (let ls = filter (\<lambda>l. sl_product l = product_id) (levels st)
      in (sum_list (map sl_quantity ls),
          round_value (sum_list (map (\<lambda>l. sl_quantity l * sl_average_cost l) ls))))"

record valuation_row =
  vr_product :: uuid
  vr_sku :: string
  vr_name :: string
  vr_quantity :: decimal
  vr_average_cost :: decimal
  vr_total_value :: decimal

record valuation_report =
  vp_rows :: "valuation_row list"
  vp_total_value :: decimal
  vp_product_count :: nat

text \<open>The valuation report: the levels with stock, joined with their product and grouped by it.\<close>

definition valuation_levels :: "'h stock_db \<Rightarrow> uuid \<Rightarrow> uuid option \<Rightarrow> stock_level list" where
  "valuation_levels st org warehouse_id =
     filter (\<lambda>l. sl_org l = org \<and> 0 < sl_quantity l \<and> (case warehouse_id of None \<Rightarrow> True | Some w \<Rightarrow> sl_warehouse l = w))
       (levels st)"

definition stock_valuation :: "'h stock_db \<Rightarrow> product list \<Rightarrow> uuid \<Rightarrow> uuid option \<Rightarrow> valuation_report" where
  "stock_valuation st products org warehouse_id =
     (let ls = valuation_levels st org warehouse_id;
          row = (\<lambda>p. let g = filter (\<lambda>l. sl_product l = pr_id p) ls;
                          quantity = sum_list (map sl_quantity g);
                          total = sum_list (map sl_value g)
                      in \<lparr>vr_product = pr_id p, vr_sku = pr_sku p, vr_name = pr_name p, vr_quantity = quantity,
                          vr_average_cost = (if quantity \<noteq> 0 then ddiv total quantity else 0),
                          vr_total_value = total\<rparr>);
          rows = map row (sort_key pr_name (filter (\<lambda>p. \<exists>l \<in> set ls. sl_product l = pr_id p) products))
      in \<lparr>vp_rows = rows, vp_total_value = sum_list (map vr_total_value rows), vp_product_count = length rows\<rparr>)"

end
