(* ===== verification/Stock_Properties.thy ===== *)
theory Stock_Properties
  imports Stock
begin

text \<open>
  What keeps the four records of stock in step, as \<^verbatim>\<open>purchasing/stock.py\<close> promises: the movement history,
  the positions, the weighted average and the general ledger. The positions are the abstract state: every
  operation of the service is a sequence of the pure valuation steps on them, and the invariant of the
  tables (a level is the replay of its movements) is proved for every reachable state.
\<close>

section \<open>Positions\<close>

definition level_key :: "stock_level \<Rightarrow> uuid \<times> uuid" where
  "level_key l = (sl_product l, sl_warehouse l)"

definition movement_key :: "stock_movement \<Rightarrow> uuid \<times> uuid" where
  "movement_key m = (mv_product m, mv_warehouse m)"

definition no_stock :: valuation_state where
  "no_stock = \<lparr>v_quantity = 0, v_value = 0\<rparr>"

definition position :: "stock_level list \<Rightarrow> uuid \<times> uuid \<Rightarrow> valuation_state" where
  "position ls k = (case first_or_none (filter (\<lambda>l. level_key l = k) ls) of None \<Rightarrow> no_stock | Some l \<Rightarrow> level_state l)"

definition moved :: "stock_movement list \<Rightarrow> uuid \<times> uuid \<Rightarrow> decimal" where
  "moved ms k = sum_list (map mv_quantity (filter (\<lambda>m. movement_key m = k) ms))"

lemma moved_simps [simp]:
  "moved [] k = 0" "moved (xs @ ys) k = moved xs k + moved ys k"
  "moved (m # ms) k = (if movement_key m = k then mv_quantity m else 0) + moved ms k"
  by (simp_all add: moved_def)

text \<open>Each movement carries the balance its product and warehouse had right after it.\<close>

definition balances_recorded :: "stock_movement list \<Rightarrow> bool" where
  "balances_recorded ms \<longleftrightarrow>
     (\<forall>i < length ms. mv_balance_after (ms ! i) = moved (take (Suc i) ms) (movement_key (ms ! i)))"

lemma balances_recorded_Nil [simp]: "balances_recorded []"
  by (simp add: balances_recorded_def)

lemma balances_recorded_snoc [simp]:
  "balances_recorded (ms @ [m]) \<longleftrightarrow>
     balances_recorded ms \<and> mv_balance_after m = moved ms (movement_key m) + mv_quantity m"
  unfolding balances_recorded_def
  by (auto simp: nth_append less_Suc_eq all_conj_distrib)

lemma balances_recorded_cong:
  assumes "map (\<lambda>m. (movement_key m, mv_quantity m, mv_balance_after m)) ms' =
    map (\<lambda>m. (movement_key m, mv_quantity m, mv_balance_after m)) ms"
  shows "moved ms' = moved ms" and "balances_recorded ms' = balances_recorded ms"
proof -
  let ?f = "\<lambda>m. (movement_key m, mv_quantity m, mv_balance_after m)"
  have mv: "moved xs = moved ys" if "map ?f xs = map ?f ys" for xs ys
  proof
    fix k
    have "moved zs k = sum_list (map (\<lambda>(j, q, b). if j = k then q else 0) (map ?f zs))" for zs
      by (induction zs) simp_all
    from this [of xs] this [of ys] that show "moved xs k = moved ys k" by (simp only:)
  qed
  show "moved ms' = moved ms" by (rule mv [OF assms])
  have len: "length ms' = length ms" using assms by (rule map_eq_imp_length_eq)
  have "?f (ms' ! i) = ?f (ms ! i) \<and> moved (take (Suc i) ms') = moved (take (Suc i) ms)" if "i < length ms" for i
  proof
    show "?f (ms' ! i) = ?f (ms ! i)"
      using arg_cong [OF assms, of "\<lambda>xs. xs ! i"] that len by simp
    show "moved (take (Suc i) ms') = moved (take (Suc i) ms)"
      using arg_cong [OF assms, of "take (Suc i)"] by (intro mv) (simp add: take_map)
  qed
  then show "balances_recorded ms' = balances_recorded ms" unfolding balances_recorded_def len by auto
qed

section \<open>The invariant\<close>

definition level_ok :: "stock_level \<Rightarrow> bool" where
  "level_ok l \<longleftrightarrow> position_ok (level_state l) \<and> in_range (level_state l) \<and>
     sl_average_cost l = average_cost (level_state l) \<and> fits (sl_quantity l) \<and>
     0 \<le> sl_reserved l \<and> fits (sl_reserved l)"

definition stock_inv :: "'h stock_db \<Rightarrow> bool" where
  "stock_inv st \<longleftrightarrow>
     ledger_inv (books st) \<and>
     distinct (map wh_id (warehouses st)) \<and> (\<forall>w \<in> set (warehouses st). wh_id w < fresh_id st) \<and>
     distinct (map sl_id (levels st)) \<and> distinct (map level_key (levels st)) \<and>
     (\<forall>l \<in> set (levels st). sl_id l < fresh_id st \<and> level_ok l \<and>
        (\<exists>w \<in> set (warehouses st). wh_id w = sl_warehouse l \<and> wh_org w = sl_org l)) \<and>
     distinct (map mv_id (movements st)) \<and> (\<forall>m \<in> set (movements st). mv_id m < fresh_id st) \<and>
     (\<lambda>k. v_quantity (position (levels st) k)) = moved (movements st) \<and>
     balances_recorded (movements st)"

lemma stock_invD:
  assumes "stock_inv st"
  shows "ledger_inv (books st)" "distinct (map sl_id (levels st))" "distinct (map level_key (levels st))"
    and "\<And>l. l \<in> set (levels st) \<Longrightarrow> level_ok l"
    and "\<And>k. v_quantity (position (levels st) k) = moved (movements st) k"
    and "balances_recorded (movements st)" "distinct (map wh_id (warehouses st))"
    and "\<And>l. l \<in> set (levels st) \<Longrightarrow> \<exists>w \<in> set (warehouses st). wh_id w = sl_warehouse l \<and> wh_org w = sl_org l"
  using assms by (simp_all add: stock_inv_def fun_eq_iff del: split_paired_All)

text \<open>Changes outside the sub-ledger's own rows.\<close>

lemma stock_frame:
  assumes "stock_inv st" "ledger_inv (books st')" "fresh_id st \<le> fresh_id st'"
    "warehouses st' = warehouses st" "levels st' = levels st" "map mv_id (movements st') = map mv_id (movements st)"
    "map (\<lambda>m. (movement_key m, mv_quantity m, mv_balance_after m)) (movements st') =
     map (\<lambda>m. (movement_key m, mv_quantity m, mv_balance_after m)) (movements st)"
  shows "stock_inv st'"
proof -
  have ids: "mv_id ` set (movements st') = mv_id ` set (movements st)"
    using assms(6) by (metis list.set_map)
  have "mv_id m < fresh_id st'" if "m \<in> set (movements st')" for m
  proof -
    have "mv_id m \<in> mv_id ` set (movements st)" using that ids by blast
    with assms(1,3) show ?thesis unfolding stock_inv_def by force
  qed
  moreover have "x < fresh_id st'" if "x < fresh_id st" for x using that assms(3) by simp
  ultimately show ?thesis
    using assms balances_recorded_cong [OF assms(7)] unfolding stock_inv_def by auto
qed

lemma take_id_simps [simp]:
  "warehouses (take_id st) = warehouses st" "levels (take_id st) = levels st"
  "movements (take_id st) = movements st" "fresh_id (take_id st) = fresh_id st + 1"
  "entries (books (take_id st)) = entries (books st)" "accounts (books (take_id st)) = accounts (books st)"
  "sequences (books (take_id st)) = sequences (books st)" "audit_log (books (take_id st)) = audit_log (books st)"
  by (simp_all add: take_id_def fresh_id_def)

lemma take_id_ledger_inv: "ledger_inv (books st) \<Longrightarrow> ledger_inv (books (take_id st))"
  by (erule ledger_frame) (simp_all add: take_id_def)

lemma fresh_id_simps [simp]:
  "fresh_id (st\<lparr>levels := x\<rparr>) = fresh_id st" "fresh_id (st\<lparr>movements := y\<rparr>) = fresh_id st"
  "fresh_id (st\<lparr>warehouses := z\<rparr>) = fresh_id st" "fresh_id (st\<lparr>books := b\<rparr>) = next_id b"
  by (simp_all add: fresh_id_def)

lemma inv_take_id: "stock_inv st \<Longrightarrow> stock_inv (take_id st)"
  by (rule stock_frame) (simp_all add: take_id_ledger_inv stock_invD(1))

text \<open>What a position looks like after a level is added or replaced.\<close>

lemma position_unique:
  assumes "distinct (map level_key ls)" "l \<in> set ls"
  shows "position ls (level_key l) = level_state l"
  using filter_key_unique [OF assms] by (simp add: position_def)

lemma position_absent: "k \<notin> level_key ` set ls \<Longrightarrow> position ls k = no_stock"
  by (auto simp: position_def filter_empty_conv image_iff split: option.splits dest!: first_or_none_Some)

lemma position_ok_position:
  assumes "\<And>l. l \<in> set ls \<Longrightarrow> level_ok l"
  shows "position_ok (position ls k) \<and> in_range (position ls k)"
  using assms
  by (auto simp: position_def no_stock_def position_ok_def in_range_def level_ok_def split: option.splits
      dest!: first_or_none_Some)

lemma position_add_empty:
  assumes "level_state l = no_stock"
  shows "position (ls @ [l]) k = position ls k"
  using assms
  by (cases "filter (\<lambda>l. level_key l = k) ls") (auto simp: position_def)

lemma position_replace:
  assumes "distinct (map sl_id ls)" "distinct (map level_key ls)" "l \<in> set ls" "sl_id l' = sl_id l" "level_key l' = level_key l"
  shows "position (update_where (\<lambda>x. sl_id x = sl_id l) (\<lambda>_. l') ls) = (position ls)(level_key l := level_state l')"
proof
  fix k
  let ?ls = "update_where (\<lambda>x. sl_id x = sl_id l) (\<lambda>_. l') ls"
  have same: "x = l" if "x \<in> set ls" "sl_id x = sl_id l" for x
    using that assms(1,3) by (metis distinct_map inj_onD)
  have keys: "map level_key ?ls = map level_key ls"
    by (rule map_update_where) (use same assms(5) in auto)
  have set: "set ?ls = insert l' (set ls - {l})" by (rule replace_row [OF assms(1,3)])
  show "position ?ls k = ((position ls)(level_key l := level_state l')) k"
  proof (cases "k = level_key l")
    case True
    then show ?thesis using position_unique [of ?ls l'] assms(2,5) keys set by simp
  next
    case False
    have "filter (\<lambda>x. level_key x = k) ?ls = filter (\<lambda>x. level_key x = k) ls"
      by (rule filter_update_where) (use same assms(5) False in auto)
    then show ?thesis using False by (simp add: position_def)
  qed
qed

section \<open>One movement\<close>

text \<open>The effect of a movement on the quantity and the value of its position.\<close>

lemma cost_movement_ok:
  assumes "cost_movement s p ma = Inr cm"
  shows "v_quantity (cm_state cm) = v_quantity s + cm_quantity cm"
    and "cm_quantity cm = (if increases_stock (ma_kind ma) then ma_quantity ma else - ma_quantity ma)"
    and "ma_kind ma \<noteq> REVERSAL \<Longrightarrow>
      v_value (cm_state cm) = v_value s + (if increases_stock (ma_kind ma) then cm_total_cost cm else - cm_total_cost cm)"
  using assms
  by (auto simp: cost_movement_def Let_def reverse_receipt_def split: if_splits option.splits
      elim!: apply_receiptE apply_issueE)

lemma cost_movement_position:
  assumes "cost_movement s p ma = Inr cm" "position_ok s" "in_range s" "0 < ma_quantity ma" "0 \<le> cm_unit_cost cm"
  shows "position_ok (cm_state cm)"
proof -
  consider (in_) r where "increases_stock (ma_kind ma)" "apply_receipt s (ma_quantity ma) (cm_unit_cost cm) = Inr r" "cm_state cm = ro_state r"
    | (rev) s' where "reverse_receipt s (ma_quantity ma) (cm_unit_cost cm) = Inr s'" "cm_state cm = s'"
    | (out) i where "apply_issue s (ma_quantity ma) = Inr i" "cm_state cm = io_state i"
    using assms(1) by (auto simp: cost_movement_def Let_def split: if_splits option.splits)
  then show ?thesis
  proof cases
    case in_
    then show ?thesis using apply_receipt_position(1) [OF in_(2) assms(2)] by simp
  next
    case rev
    then show ?thesis using reverse_receipt_position(1) [OF rev(1) assms(2-5)] by simp
  next
    case out
    then show ?thesis using apply_issue_position(1) [OF out(1) assms(2,3)] by simp
  qed
qed

lemma total_cost_nonneg:
  assumes "cost_movement s p ma = Inr cm" "position_ok s" "in_range s" "ma_kind ma \<noteq> REVERSAL"
  shows "0 \<le> cm_total_cost cm" and "on_grid 4 (cm_total_cost cm)"
  using assms apply_receipt_position(2) apply_issue_position(3)
  by (fastforce simp: cost_movement_def Let_def split: if_splits elim: apply_receiptE)
     (use assms in \<open>auto simp: cost_movement_def Let_def position_ok_def split: if_splits elim!: apply_receiptE apply_issueE\<close>)

lemma locked_level_ok:
  assumes "locked_level st org pid wid = Inr (st1, l)"
  obtains (old) "st1 = st" "l \<in> set (levels st)" "level_key l = (pid, wid)"
  | (fresh) "level_key l = (pid, wid)" "(pid, wid) \<notin> level_key ` set (levels st)" "sl_id l = fresh_id st" "sl_org l = org"
      "level_state l = no_stock" "sl_average_cost l = 0" "sl_reserved l = 0" "st1 = (take_id st)\<lparr>levels := levels st @ [l]\<rparr>"
proof -
  let ?q = "filter (\<lambda>l. sl_product l = pid \<and> sl_warehouse l = wid) (levels st)"
  from assms obtain f where f: "scalar_one_or_none ?q = Inr f" by (auto simp: locked_level_def)
  show thesis
  proof (cases f)
    case None
    with f have "\<forall>l \<in> set (levels st). \<not> (sl_product l = pid \<and> sl_warehouse l = wid)"
      by (simp add: scalar_one_or_none_None filter_empty_conv)
    then have "(pid, wid) \<notin> level_key ` set (levels st)" by (auto simp: level_key_def)
    then show thesis using assms f None
      by (intro fresh) (auto simp: locked_level_def Let_def level_key_def level_state_def no_stock_def)
  next
    case (Some x)
    with f have "x \<in> set (levels st)" "sl_product x = pid" "sl_warehouse x = wid"
      by (auto dest: scalar_one_or_none_Some)
    then show thesis using assms f Some by (intro old) (auto simp: locked_level_def level_key_def)
  qed
qed

lemma refuse_negative_ok [simp]: "refuse_negative r = Inr x \<longleftrightarrow> r = Inr x"
  by (simp add: refuse_negative_def)

lemma record_movement_ok:
  assumes "record_movement st org p w ma now = Inr (st', m)"
  obtains st1 l cm l' where
    "0 < ma_quantity ma" "tracks_stock p" "locked_level st org (pr_id p) (wh_id w) = Inr (st1, l)"
    "cost_movement (level_state l) p ma = Inr cm"
    "l' = l\<lparr>sl_quantity := v_quantity (cm_state cm), sl_value := v_value (cm_state cm),
            sl_average_cost := average_cost (cm_state cm), sl_last_movement := Some now\<rparr>"
    "level_checks st1 l' = Inr ()" "movement_checks m = Inr ()"
    "mv_id m = fresh_id st1" "movement_key m = (pr_id p, wh_id w)" "mv_quantity m = cm_quantity cm"
    "mv_unit_cost m = cm_unit_cost cm" "mv_total_cost m = cm_total_cost cm" "mv_kind m = ma_kind ma"
    "mv_balance_after m = v_quantity (cm_state cm)" "mv_average_cost_after m = average_cost (cm_state cm)"
    "st' = (take_id (st1\<lparr>levels := update_where (\<lambda>x. sl_id x = sl_id l) (\<lambda>_. l') (levels st1)\<rparr>))
             \<lparr>movements := movements st1 @ [m]\<rparr>"
  using assms unfolding record_movement_def Let_def
  apply (elim bindr_InrE)
  subgoal premises prems for u1 u2 r
  proof -
    obtain st1 l where r: "r = (st1, l)" by (cases r)
    from prems(5) obtain cm st2 where cm: "cost_movement (level_state l) p ma = Inr cm"
      and st2: "save_level st1 (l\<lparr>sl_quantity := v_quantity (cm_state cm), sl_value := v_value (cm_state cm),
            sl_average_cost := average_cost (cm_state cm), sl_last_movement := Some now\<rparr>) = Inr st2"
      and m: "add_movement st2 m = Inr st'" "mv_id m = fresh_id st1" "movement_key m = (pr_id p, wh_id w)"
        "mv_quantity m = cm_quantity cm" "mv_unit_cost m = cm_unit_cost cm" "mv_total_cost m = cm_total_cost cm"
        "mv_kind m = ma_kind ma" "mv_balance_after m = v_quantity (cm_state cm)"
        "mv_average_cost_after m = average_cost (cm_state cm)"
      unfolding r by (auto simp: movement_key_def)
    show thesis
      by (rule prems(1) [OF _ _ _ cm refl _ _ m(2-9)])
         (use prems(2,3,4) st2 m(1) in \<open>auto simp: r save_level_def add_movement_def\<close>)
  qed
  done

lemma level_checks_ok:
  "level_checks st l = Inr u \<Longrightarrow> 0 \<le> sl_quantity l \<and> 0 \<le> sl_value l \<and> fits (sl_value l) \<and> fits (sl_quantity l) \<and>
     0 \<le> sl_reserved l \<and> fits (sl_reserved l)"
  by (auto simp: level_checks_def)

lemma movement_checks_ok:
  "movement_checks m = Inr u \<Longrightarrow> mv_quantity m \<noteq> 0 \<and> 0 \<le> mv_unit_cost m \<and> fits (mv_total_cost m)"
  by (auto simp: movement_checks_def)

text \<open>The stock tables of a state with the level of a movement in place, created when it is missing.\<close>

lemma inv_locked_level:
  assumes "stock_inv st" "locked_level st org pid wid = Inr (st1, l)"
    and "w \<in> set (warehouses st)" "wh_id w = wid" "wh_org w = org"
  shows "stock_inv st1 \<and> l \<in> set (levels st1) \<and> level_key l = (pid, wid) \<and> sl_org l = org \<and>
    position (levels st1) = position (levels st) \<and> movements st1 = movements st \<and> warehouses st1 = warehouses st \<and>
    entries (books st1) = entries (books st) \<and> accounts (books st1) = accounts (books st) \<and>
    journals (books st1) = journals (books st) \<and>
    sum_list (map sl_value (filter (\<lambda>l. sl_org l = org') (levels st1))) =
    sum_list (map sl_value (filter (\<lambda>l. sl_org l = org') (levels st)))"
  using assms(2)
proof (cases rule: locked_level_ok)
  case old
  have "\<exists>v \<in> set (warehouses st). wh_id v = wid \<and> wh_org v = sl_org l"
    using stock_invD(8) [OF assms(1) old(2)] old(3) by (auto simp: level_key_def)
  then have "sl_org l = org"
    using stock_invD(7) [OF assms(1)] assms(3-5) by (metis distinct_map inj_onD)
  with old assms(1) show ?thesis by simp
next
  case fresh
  have pos: "position (levels st @ [l]) = position (levels st)"
    by (rule ext) (rule position_add_empty [OF fresh(5)])
  have "level_ok l" using fresh(5,6,7)
    by (simp add: level_ok_def no_stock_def position_ok_def in_range_def average_cost_def level_state_def fits_def)
  moreover have "sl_warehouse l = wid" using fresh(1) by (simp add: level_key_def)
  moreover have "sl_value l = 0" using fresh(5) by (simp add: level_state_def no_stock_def)
  ultimately have "stock_inv st1"
    using assms fresh pos take_id_ledger_inv [of st] stock_invD(1) [OF assms(1)]
    unfolding stock_inv_def fresh(8) by (auto intro: less_SucI)
  with fresh pos \<open>sl_value l = 0\<close> show ?thesis by (simp add: take_id_def)
qed

lemma sum_list_replace:
  fixes f :: "'a \<Rightarrow> decimal"
  assumes "distinct (map key xs)" "x \<in> set xs" "q x' = q x"
  shows "sum_list (map f (filter q (update_where (\<lambda>y. key y = key x) (\<lambda>_. x') xs))) =
    sum_list (map f (filter q xs)) + (if q x then f x' - f x else 0)"
  using assms(1,2)
proof (induction xs)
  case (Cons z zs)
  show ?case
  proof (cases "z = x")
    case True
    with Cons.prems have "update_where (\<lambda>y. key y = key x) (\<lambda>_. x') zs = zs"
      by (intro update_where_none) (metis distinct.simps(2) image_eqI list.set_map list.simps(9))
    with True assms(3) show ?thesis by simp
  next
    case False
    with Cons.prems have "key z \<noteq> key x" "x \<in> set zs" by auto
    with Cons show ?thesis by auto
  qed
qed simp

definition org_value :: "'h stock_db \<Rightarrow> uuid \<Rightarrow> decimal" where
  "org_value st org = sum_list (map sl_value (filter (\<lambda>l. sl_org l = org) (levels st)))"

text \<open>
  The refinement step: \<^verbatim>\<open>record\<close> is \<^verbatim>\<open>cost_movement\<close> on one position, a row in the history, and nothing
  else.
\<close>

lemma record_effect:
  assumes inv: "stock_inv st" and rec: "record_movement st org p w ma now = Inr (st', m)"
    and w: "w \<in> set (warehouses st)" "wh_org w = org"
  obtains cm where
    "cost_movement (position (levels st) (pr_id p, wh_id w)) p ma = Inr cm" "0 < ma_quantity ma" "tracks_stock p"
    "position (levels st') = (position (levels st))((pr_id p, wh_id w) := cm_state cm)"
    "movements st' = movements st @ [m]" "movement_key m = (pr_id p, wh_id w)" "mv_quantity m = cm_quantity cm"
    "mv_total_cost m = cm_total_cost cm" "mv_unit_cost m = cm_unit_cost cm" "0 \<le> mv_unit_cost m"
    "org_value st' org = org_value st org + (v_value (cm_state cm) - v_value (position (levels st) (pr_id p, wh_id w)))"
    "\<And>other. other \<noteq> org \<Longrightarrow> org_value st' other = org_value st other"
    "stock_inv st'" "warehouses st' = warehouses st" "entries (books st') = entries (books st)"
    "accounts (books st') = accounts (books st)" "journals (books st') = journals (books st)"
    "mv_id m \<notin> mv_id ` set (movements st)"
  using rec
proof (cases rule: record_movement_ok)
  case (1 st1 l cm l')
  let ?k = "(pr_id p, wh_id w)"
  let ?ls = "update_where (\<lambda>x. sl_id x = sl_id l) (\<lambda>_. l') (levels st1)"
  note s1 = inv_locked_level [OF inv 1(3) w(1) refl w(2)]
  have inv1: "stock_inv st1" and l: "l \<in> set (levels st1)" "level_key l = ?k" "sl_org l = org"
    and pos1: "position (levels st1) = position (levels st)" and mv1: "movements st1 = movements st"
    using s1 by simp_all
  have lk: "level_state l = position (levels st) ?k"
    using position_unique [OF stock_invD(3) [OF inv1] l(1)] l(2) pos1 by simp
  have l': "sl_id l' = sl_id l" "level_key l' = ?k" "sl_org l' = org" "level_state l' = cm_state cm"
    "sl_average_cost l' = average_cost (cm_state cm)" "sl_warehouse l' = sl_warehouse l"
    using 1(5) l(2,3) by (simp_all add: level_key_def level_state_def)
  have pos': "position ?ls = (position (levels st))(?k := cm_state cm)"
    using position_replace [OF stock_invD(2,3) [OF inv1] l(1) l'(1)] l(2) l'(2,4) pos1 by simp
  have ok: "level_ok l" by (rule stock_invD(4) [OF inv1 l(1)])
  have uc: "0 \<le> cm_unit_cost cm" using movement_checks_ok [OF 1(7)] 1(11) by simp
  have "position_ok (cm_state cm)"
    using cost_movement_position [OF 1(4) _ _ 1(1) uc] ok by (simp add: level_ok_def)
  moreover have "in_range (cm_state cm)"
    using level_checks_ok [OF 1(6)] 1(5) by (simp add: in_range_def fits_def abs_less_iff)
  ultimately have ok': "level_ok l'" using l'(4,5) level_checks_ok [OF 1(6)] by (simp add: level_ok_def)
  have qty: "v_quantity (cm_state cm) = v_quantity (position (levels st) ?k) + cm_quantity cm"
    using cost_movement_ok(1) [OF 1(4)] lk by simp
  have bal: "mv_balance_after m = moved (movements st1) ?k + mv_quantity m"
    using 1(10,14) qty stock_invD(5) [OF inv, of ?k] mv1 by simp
  have set: "set ?ls = insert l' (set (levels st1) - {l})" by (rule replace_row [OF stock_invD(2) [OF inv1] l(1)])
  have ids: "map sl_id ?ls = map sl_id (levels st1)" using l'(1) by (rule map_key_replace [of sl_id])
  have same: "x = l" if "x \<in> set (levels st1)" "sl_id x = sl_id l" for x
    using that stock_invD(2) [OF inv1] l(1) by (metis distinct_map inj_onD)
  have keys: "map level_key ?ls = map level_key (levels st1)"
    by (rule map_update_where) (metis same l(2) l'(2))
  have replay: "(\<lambda>k. v_quantity (position ?ls k)) = moved (movements st1 @ [m])"
    using stock_invD(5) [OF inv] 1(9,10) qty mv1 unfolding pos' fun_eq_iff by auto
  have inv': "stock_inv st'"
  proof -
    have parts: "ledger_inv (books st1)" "distinct (map wh_id (warehouses st1))"
      "\<forall>w \<in> set (warehouses st1). wh_id w < fresh_id st1 + 1"
      "\<forall>l \<in> set (levels st1). sl_id l < fresh_id st1 + 1 \<and> level_ok l \<and>
        (\<exists>w \<in> set (warehouses st1). wh_id w = sl_warehouse l \<and> wh_org w = sl_org l)"
      "distinct (map mv_id (movements st1 @ [m]))" "\<forall>m \<in> set (movements st1 @ [m]). mv_id m < fresh_id st1 + 1"
      "balances_recorded (movements st1 @ [m])"
      using inv1 1(8,9) bal unfolding stock_inv_def by (fastforce simp del: split_paired_All)+
    moreover have "\<forall>l \<in> set ?ls. sl_id l < fresh_id st1 + 1 \<and> level_ok l \<and>
        (\<exists>w \<in> set (warehouses st1). wh_id w = sl_warehouse l \<and> wh_org w = sl_org l)"
      using parts(4) bspec [OF parts(4) l(1)] ok' unfolding set
      by (intro ballI) (auto simp: l'(1,3,6) l(3))
    ultimately show ?thesis
      using ids keys replay stock_invD(2,3) [OF inv1] take_id_ledger_inv [of "st1\<lparr>levels := ?ls\<rparr>"]
      unfolding stock_inv_def 1(16) by simp
  qed
  have sums: "org_value st' o' = org_value st1 o' + (if o' = org then v_value (cm_state cm) - v_value (level_state l) else 0)" for o'
    using sum_list_replace [OF stock_invD(2) [OF inv1] l(1), of "\<lambda>l. sl_org l = o'" l' sl_value] l(3) l'(3) 1(5)
    unfolding org_value_def 1(16) by (simp add: level_state_def)
  have sum1: "org_value st1 o' = org_value st o'" for o'
    using inv_locked_level [OF inv 1(3) w(1) refl w(2), of o'] unfolding org_value_def by blast
  have "mv_id m \<notin> mv_id ` set (movements st)"
    using inv1 1(8) mv1 unfolding stock_inv_def by (metis imageE less_irrefl)
  then show thesis
    using 1 lk pos' mv1 inv' sums sum1 s1 uc by (intro that [of cm]) (simp_all add: take_id_def)
qed

section \<open>Warehouses\<close>

lemma inv_add_warehouse:
  assumes "stock_inv st" "wh_id w = fresh_id st"
  shows "stock_inv ((take_id st)\<lparr>warehouses := warehouses st @ [w]\<rparr>)"
proof -
  have "fresh_id st \<notin> wh_id ` set (warehouses st)" using assms(1) by (auto simp: stock_inv_def)
  moreover have "\<exists>v \<in> set (warehouses st @ [w]). wh_id v = i \<and> wh_org v = g"
    if "\<exists>v \<in> set (warehouses st). wh_id v = i \<and> wh_org v = g" for i g using that by auto
  ultimately show ?thesis using inv_take_id [OF assms(1)] assms(2) unfolding stock_inv_def by simp
qed

lemma get_warehouse_ok:
  assumes "get_warehouse st org wid = Inr (st', w)"
  obtains (found) "st' = st" "w \<in> set (warehouses st)" "wh_org w = org" "\<And>i. wid = Some i \<Longrightarrow> wh_id w = i"
  | (created) "wid = None" "wh_id w = fresh_id st" "wh_org w = org" "st' = (take_id st)\<lparr>warehouses := warehouses st @ [w]\<rparr>"
proof (cases wid)
  case None
  then have "default_warehouse st org = Inr (st', w)" using assms by (simp add: get_warehouse_def)
  then obtain f where f: "scalar_one_or_none (filter (\<lambda>w. wh_org w = org \<and> wh_default w \<and> wh_deleted w = None) (warehouses st)) = Inr f"
    by (auto simp: default_warehouse_def)
  show thesis
  proof (cases f)
    case (Some x)
    then have "x \<in> set (warehouses st) \<and> wh_org x = org" using f by (auto dest: scalar_one_or_none_Some)
    moreover have "st' = st" "w = x" using \<open>default_warehouse st org = _\<close> f Some by (simp_all add: default_warehouse_def)
    ultimately show thesis using None by (intro found) simp_all
  next
    case n: None
    with \<open>default_warehouse st org = _\<close> f have "wh_id w = fresh_id st" "wh_org w = org"
      "st' = (take_id st)\<lparr>warehouses := warehouses st @ [w]\<rparr>"
      by (auto simp: default_warehouse_def Let_def)
    then show thesis using None by (intro created)
  qed
next
  case (Some i)
  with assms have "st' = st \<and> w \<in> set (warehouses st) \<and> wh_org w = org \<and> wh_id w = i"
    by (auto simp: get_warehouse_def split: option.splits dest: scalar_one_or_none_Some)
  then show thesis using Some by (intro found) simp_all
qed

lemma get_warehouse_effect:
  assumes "stock_inv st" "get_warehouse st org wid = Inr (st', w)"
  shows "stock_inv st' \<and> w \<in> set (warehouses st') \<and> wh_org w = org \<and> levels st' = levels st \<and>
    movements st' = movements st \<and> entries (books st') = entries (books st) \<and> accounts (books st') = accounts (books st) \<and>
    journals (books st') = journals (books st)"
  using assms(2)
proof (cases rule: get_warehouse_ok)
  case found
  with assms(1) show ?thesis by simp
next
  case created
  with inv_add_warehouse [OF assms(1) created(2)] show ?thesis by (simp add: take_id_def)
qed

lemma inv_warehouse_flags:
  assumes "stock_inv st" "\<And>w. wh_id (f w) = wh_id w \<and> wh_org (f w) = wh_org w"
  shows "stock_inv (st\<lparr>warehouses := update_where q f (warehouses st)\<rparr>)"
proof -
  let ?ws = "update_where q f (warehouses st)"
  have ids: "map wh_id ?ws = map wh_id (warehouses st)" by (rule map_update_where) (simp add: assms(2))
  have "wh_id ` set ?ws = wh_id ` set (warehouses st)" using ids by (metis list.set_map)
  then have "\<forall>w \<in> set ?ws. wh_id w < fresh_id st" using assms(1) unfolding stock_inv_def by (metis imageE imageI)
  moreover have "\<exists>v \<in> set ?ws. wh_id v = i \<and> wh_org v = g" if "\<exists>v \<in> set (warehouses st). wh_id v = i \<and> wh_org v = g" for i g
  proof -
    from that obtain v where v: "v \<in> set (warehouses st)" "wh_id v = i" "wh_org v = g" by blast
    then have "(if q v then f v else v) \<in> set ?ws" by (simp add: update_where_def)
    with v assms(2) show ?thesis by (metis (full_types))
  qed
  ultimately show ?thesis using assms(1) ids unfolding stock_inv_def by simp
qed

section \<open>The ledger side\<close>

lemma ledger_net_append:
  assumes "core_inv st" "set (entries st') = insert e' (set (entries st))" "core_inv st'" "is_posted e'" "e' \<notin> set (entries st)"
  shows "ledger_net st' a = ledger_net st a + entry_net a e'"
proof -
  have "{e \<in> set (entries st'). is_posted e} = insert e' {e \<in> set (entries st). is_posted e}"
    using assms(2,4) by auto
  then show ?thesis
    using assms(5) unfolding ledger_net_sum [OF assms(1)] ledger_net_sum [OF assms(3)] by (simp add: add.commute)
qed

lemma create_posted_effect:
  assumes "ledger_inv st" "create_entry hs st org d actor stype sid now = Inr (st', e')" "ec_post d"
  shows "ledger_inv st' \<and> next_id st \<le> next_id st' \<and> accounts st' = accounts st \<and>
    e_lines e' = number_lines 1 (ec_lines d) \<and> e' \<in> set (entries st') \<and> is_posted e' \<and> e_id e' = next_id st \<and>
    ledger_net st' a = ledger_net st a +
      sum_list (map (\<lambda>l. li_debit l - li_credit l) (filter (\<lambda>l. li_account l = a) (ec_lines d)))"
  using assms(2)
proof (cases rule: create_entry_ok)
  case (1 e p st1)
  have c: "core_inv st" and ids: "\<forall>x \<in> set (entries st). e_id x < next_id st"
    using assms(1) by (simp_all add: ledger_inv_def core_inv_def)
  have inv': "ledger_inv st'" by (rule inv_create_entry [OF assms(1,2)])
  have st1: "entries st1 = entries st @ [e]" "accounts st1 = accounts st" "next_id st \<le> next_id st1"
    using add_entry_ok [OF 1(13)] by simp_all
  have post: "post_entry hs st1 org (e_id e) actor now = Inr (st', e')" using 1(14) assms(3) by simp
  have d1: "distinct (map e_id (entries st1))" using c 1(3) unfolding st1 by (auto simp: core_inv_def)
  have nums: "sum_list (map (\<lambda>l. l_debit l - l_credit l) (filter (\<lambda>l. l_account l = a) (number_lines k ls))) =
      sum_list (map (\<lambda>l. li_debit l - li_credit l) (filter (\<lambda>l. li_account l = a) ls))" for k ls
    by (induction ls arbitrary: k) simp_all
  have frame: "accounts st' = accounts st1" "next_id st1 \<le> next_id st'"
    using post by (cases rule: post_entry_ok; simp add: next_number_frame)+
  show ?thesis
    using post_entry_effect [OF d1 post]
  proof cases
    case p: (1 x q)
    have "x = e" using p(1,3) 1(3) ids unfolding st1 by auto
    moreover have "e \<notin> set (entries st)" "e' \<notin> set (entries st)" using ids 1(3) p(10) \<open>x = e\<close> by force+
    ultimately have es: "set (entries st') = insert e' (set (entries st))" "e_lines e' = number_lines 1 (ec_lines d)"
      using p(5,9) 1(9) unfolding st1 by auto
    moreover have "is_posted e'" using p(6) by (simp add: is_posted_def)
    ultimately have "ledger_net st' a = ledger_net st a + entry_net a e'"
      using inv' \<open>e' \<notin> set (entries st)\<close> by (intro ledger_net_append [OF c]) (simp_all add: ledger_inv_def)
    then show ?thesis
      using inv' frame st1 p(10) \<open>x = e\<close> 1(3) \<open>is_posted e'\<close> es nums
      by (simp add: entry_net_def)
  qed
qed

text \<open>A two-line entry moves its amount from one account to the other.\<close>

lemma post_pair_effect:
  assumes "ledger_inv st" "post_pair hs st org actor d nar da ca amount ref stype sid now = Inr (st', e)"
  shows "ledger_inv st' \<and> next_id st \<le> next_id st' \<and> accounts st' = accounts st \<and> da \<noteq> ca \<and> e \<in> set (entries st') \<and> is_posted e \<and>
    ledger_net st' a = ledger_net st a + (if a = da then amount else if a = ca then - amount else 0)"
proof -
  from assms(2) obtain j where j: "get_by_type st org GENERAL = Some j"
    by (auto simp: post_pair_def split: option.splits)
  let ?d = "\<lparr>ec_journal = j_id j, ec_date = d, ec_narration = nar, ec_reference = ref, ec_counterparty = None,
      ec_lines = [\<lparr>li_account = da, li_debit = amount, li_credit = 0, li_description = None\<rparr>,
                  \<lparr>li_account = ca, li_debit = 0, li_credit = amount, li_description = None\<rparr>], ec_post = True\<rparr>"
  from assms(2) j have v: "validate_entry_create ?d = Inr ()" and c: "create_entry hs st org ?d actor stype sid now = Inr (st', e)"
    by (auto simp: post_pair_def Let_def)
  from v have "da \<noteq> ca" by (auto simp: validate_entry_create_def)
  then show ?thesis using create_posted_effect [OF assms(1) c, of a] by simp
qed

section \<open>The operations that post\<close>

lemma account_id_cong:
  assumes "accounts b = accounts b'"
  shows "inventory_account_id b = inventory_account_id b'" and "cogs_account_id b = cogs_account_id b'"
proof -
  have "resolve_system_account b = resolve_system_account b'"
    using assms by (simp add: resolve_system_account_def get_by_system_key_def live_accounts_def fun_eq_iff)
  then show "inventory_account_id b = inventory_account_id b'" "cogs_account_id b = cogs_account_id b'"
    by (intro ext; simp add: inventory_account_id_def cogs_account_id_def split: option.split)+
qed

lemma ledger_net_entries: "entries st' = entries st \<Longrightarrow> ledger_net st' = ledger_net st"
  by (simp add: ledger_net_def fun_eq_iff)

lemma inv_link_entry:
  assumes "stock_inv st"
  shows "stock_inv (link_entry st i j)"
proof (rule stock_frame [OF assms])
  show "map mv_id (movements (link_entry st i j)) = map mv_id (movements st)"
    unfolding link_entry_def by simp (rule map_update_where, simp)
  show "map (\<lambda>m. (movement_key m, mv_quantity m, mv_balance_after m)) (movements (link_entry st i j)) =
     map (\<lambda>m. (movement_key m, mv_quantity m, mv_balance_after m)) (movements st)"
    unfolding link_entry_def by simp (rule map_update_where, simp add: movement_key_def)
qed (use assms in \<open>simp_all add: link_entry_def stock_invD(1)\<close>)

lemma inv_books:
  "stock_inv st \<Longrightarrow> ledger_inv b \<Longrightarrow> next_id (books st) \<le> next_id b \<Longrightarrow> stock_inv (st\<lparr>books := b\<rparr>)"
  by (rule stock_frame) (simp_all add: fresh_id_def)

lemma inv_audit_stock: "stock_inv st \<Longrightarrow> stock_inv (audit_stock st x sv ac og rt ri)"
  unfolding audit_stock_def
  by (rule inv_books) (auto intro: ledger_frame stock_invD(1))

text \<open>
  The entry that a movement causes: it moves the movement's cost between the inventory account and the
  cost account, and a movement of no value causes none.
\<close>

definition pair_posted :: "uuid \<Rightarrow> uuid \<Rightarrow> decimal \<Rightarrow> 'h db \<Rightarrow> 'h db \<Rightarrow> bool" where
  "pair_posted da ca amount b b' \<longleftrightarrow>
     (\<forall>a. ledger_net b' a = ledger_net b a + (if a = da then amount else if a = ca then - amount else 0))"

lemma issue_for_sale_ok:
  assumes "issue_for_sale hs st org p q d actor wid stype sid ref now = Inr (st', m', cogs)"
  obtains st1 w st2 m ma where "get_warehouse st org wid = Inr (st1, w)" "record_movement st1 org p w ma now = Inr (st2, m)"
    "ma_kind ma = ISSUE" "ma_quantity ma = q" "cogs = mv_total_cost m"
    "(\<not> 0 < cogs \<and> st' = st2 \<and> m' = m) \<or>
     (0 < cogs \<and> (\<exists>ca ia b e nar. cogs_account_id (books st2) org p = Inr ca \<and> inventory_account_id (books st2) org p = Inr ia \<and>
        post_pair hs (books st2) org actor d nar ca ia cogs ref (Some stype) sid now = Inr (b, e) \<and>
        st' = link_entry (st2\<lparr>books := b\<rparr>) (mv_id m) (e_id e) \<and> m' = m\<lparr>mv_entry := Some (e_id e)\<rparr>))"
  using assms unfolding issue_for_sale_def Let_def
  apply (elim bindr_InrE)
  subgoal premises prems for r
  proof -
    obtain st1 w where r: "r = (st1, w)" by (cases r)
    let ?ma = "\<lparr>ma_kind = ISSUE, ma_quantity = q, ma_unit_cost = None, ma_date = d, ma_actor = actor,
        ma_source_type = Some stype, ma_source_id = sid, ma_reference = ref, ma_notes = None,
        ma_entry = None, ma_reverses = None\<rparr>"
    from prems(3) obtain x where rec: "record_movement st1 org p w ?ma now = Inr x"
      unfolding r prod.case by (elim bindr_InrE)
    obtain st2 m where x: "x = (st2, m)" by (cases x)
    note k = prems(3) [unfolded r prod.case rec bindr_Inr x]
    have c: "cogs = mv_total_cost m" using k by (auto split: if_splits)
    have "(\<not> 0 < cogs \<and> st' = st2 \<and> m' = m) \<or>
     (0 < cogs \<and> (\<exists>ca ia b e nar. cogs_account_id (books st2) org p = Inr ca \<and> inventory_account_id (books st2) org p = Inr ia \<and>
        post_pair hs (books st2) org actor d nar ca ia cogs ref (Some stype) sid now = Inr (b, e) \<and>
        st' = link_entry (st2\<lparr>books := b\<rparr>) (mv_id m) (e_id e) \<and> m' = m\<lparr>mv_entry := Some (e_id e)\<rparr>))"
      using k c by (cases "0 < mv_total_cost m") (auto simp: bindr_eq_Inr_iff, blast)
    with c show thesis by (intro prems(1) [OF prems(2) [unfolded r] rec [unfolded x]]) simp_all
  qed
  done

lemma issue_effect:
  assumes inv: "stock_inv st" and op: "issue_for_sale hs st org p q d actor wid stype sid ref now = Inr (st', m', cogs)"
  shows "stock_inv st' \<and> 0 \<le> cogs \<and> cogs = mv_total_cost m' \<and> org_value st' org = org_value st org - cogs \<and>
    (\<forall>other. other \<noteq> org \<longrightarrow> org_value st' other = org_value st other) \<and>
    (if 0 < cogs then \<exists>ca ia. cogs_account_id (books st) org p = Inr ca \<and> inventory_account_id (books st) org p = Inr ia \<and>
       ca \<noteq> ia \<and> pair_posted ca ia cogs (books st) (books st')
     else entries (books st') = entries (books st))"
  using op
proof (cases rule: issue_for_sale_ok)
  case (1 st1 w st2 m ma)
  note g = get_warehouse_effect [OF inv 1(1)]
  have inv1: "stock_inv st1" and w: "w \<in> set (warehouses st1)" "wh_org w = org" using g by simp_all
  have val1: "org_value st1 o' = org_value st o'" for o' using g by (simp add: org_value_def)
  show ?thesis
    using record_effect [OF inv1 1(2) w]
  proof cases
    case r: (1 cm)
    let ?s = "position (levels st1) (pr_id p, wh_id w)"
    have s: "position_ok ?s" "in_range ?s" using position_ok_position [OF stock_invD(4) [OF inv1]] by blast+
    have c: "0 \<le> cogs" using total_cost_nonneg(1) [OF r(1) s] 1(3,5) r(8) by simp
    have v: "v_value (cm_state cm) = v_value ?s - cogs"
      using cost_movement_ok(3) [OF r(1)] 1(3,5) r(8) by (simp add: increases_stock_def)
    have acc: "accounts (books st2) = accounts (books st)" "entries (books st2) = entries (books st)" using r(15,16) g by simp_all
    have val2: "org_value st2 org = org_value st org - cogs" "\<And>other. other \<noteq> org \<Longrightarrow> org_value st2 other = org_value st other"
      using r(11,12) v val1 by simp_all
    show ?thesis
    proof (cases "0 < cogs")
      case False
      with 1(5,6) c r(13) val2 acc show ?thesis by simp
    next
      case True
      with 1(6) obtain ca ia b e nar where e: "cogs_account_id (books st2) org p = Inr ca" "inventory_account_id (books st2) org p = Inr ia"
        "post_pair hs (books st2) org actor d nar ca ia cogs ref (Some stype) sid now = Inr (b, e)"
        "st' = link_entry (st2\<lparr>books := b\<rparr>) (mv_id m) (e_id e)" "m' = m\<lparr>mv_entry := Some (e_id e)\<rparr>" by blast
      note pp = post_pair_effect [OF stock_invD(1) [OF r(13)] e(3)]
      have "stock_inv st'" unfolding e(4) using pp by (intro inv_link_entry inv_books [OF r(13)]) blast+
      moreover have "org_value st' o' = org_value st2 o'" for o' by (simp add: e(4) link_entry_def org_value_def)
      moreover have "pair_posted ca ia cogs (books st) (books st')"
        using pp ledger_net_entries [OF acc(2)] by (simp add: pair_posted_def e(4) link_entry_def)
      ultimately show ?thesis
        using True c val2 pp e(1,2,5) 1(5) account_id_cong [OF acc(1)] by simp
    qed
  qed
qed

lemma adjust_ok:
  assumes "adjust hs st org p delta d reason actor wid uc now = Inr (st', m')"
  obtains st1 w st2 m ma st3 where "delta \<noteq> 0" "get_warehouse st org wid = Inr (st1, w)"
    "record_movement st1 org p w ma now = Inr (st2, m)" "ma_kind ma = (if 0 < delta then ADJUSTMENT else ISSUE)"
    "ma_quantity ma = \<bar>delta\<bar>" "st' = audit_stock st3 STOCK_ADJUSTED WARNING actor org ''product'' (pr_id p)"
    "(\<not> 0 < mv_total_cost m \<and> st3 = st2 \<and> m' = m) \<or>
     (0 < mv_total_cost m \<and> (\<exists>ia ca b e nar. inventory_account_id (books st2) org p = Inr ia \<and> cogs_account_id (books st2) org p = Inr ca \<and>
        post_pair hs (books st2) org actor d nar (if 0 < delta then ia else ca) (if 0 < delta then ca else ia) (mv_total_cost m)
          None (Some ''stock_adjustment'') (Some (mv_id m)) now = Inr (b, e) \<and>
        st3 = link_entry (st2\<lparr>books := b\<rparr>) (mv_id m) (e_id e) \<and> m' = m\<lparr>mv_entry := Some (e_id e)\<rparr>))"
  using assms unfolding adjust_def Let_def
  apply (elim bindr_InrE)
  subgoal premises prems for u r
  proof -
    obtain st1 w where r: "r = (st1, w)" by (cases r)
    let ?ma = "\<lparr>ma_kind = (if 0 < delta then ADJUSTMENT else ISSUE), ma_quantity = \<bar>delta\<bar>,
        ma_unit_cost = uc, ma_date = d, ma_actor = actor, ma_source_type = Some ''stock_adjustment'',
        ma_source_id = None, ma_reference = None, ma_notes = Some reason, ma_entry = None, ma_reverses = None\<rparr>"
    from prems(4) obtain x where rec: "record_movement st1 org p w ?ma now = Inr x"
      unfolding r prod.case by (elim bindr_InrE)
    obtain st2 m where x: "x = (st2, m)" by (cases x)
    note k = prems(4) [unfolded r prod.case rec bindr_Inr x]
    from k obtain st3 where st3: "st' = audit_stock st3 STOCK_ADJUSTED WARNING actor org ''product'' (pr_id p)"
      and "(\<not> 0 < mv_total_cost m \<and> st3 = st2 \<and> m' = m) \<or>
     (0 < mv_total_cost m \<and> (\<exists>ia ca b e nar. inventory_account_id (books st2) org p = Inr ia \<and> cogs_account_id (books st2) org p = Inr ca \<and>
        post_pair hs (books st2) org actor d nar (if 0 < delta then ia else ca) (if 0 < delta then ca else ia) (mv_total_cost m)
          None (Some ''stock_adjustment'') (Some (mv_id m)) now = Inr (b, e) \<and>
        st3 = link_entry (st2\<lparr>books := b\<rparr>) (mv_id m) (e_id e) \<and> m' = m\<lparr>mv_entry := Some (e_id e)\<rparr>))"
      by (cases "0 < mv_total_cost m") (auto simp: bindr_eq_Inr_iff, blast)
    with prems(2,3) show thesis by (intro prems(1) [OF _ _ rec [unfolded x]]) (simp_all add: r)
  qed
  done

lemma adjust_effect:
  assumes inv: "stock_inv st" and op: "adjust hs st org p delta d reason actor wid uc now = Inr (st', m')"
  shows "stock_inv st' \<and> 0 \<le> mv_total_cost m' \<and>
    org_value st' org = org_value st org + (if 0 < delta then mv_total_cost m' else - mv_total_cost m') \<and>
    (\<forall>other. other \<noteq> org \<longrightarrow> org_value st' other = org_value st other) \<and>
    (if 0 < mv_total_cost m' then \<exists>ca ia. cogs_account_id (books st) org p = Inr ca \<and> inventory_account_id (books st) org p = Inr ia \<and>
       ca \<noteq> ia \<and> pair_posted (if 0 < delta then ia else ca) (if 0 < delta then ca else ia) (mv_total_cost m') (books st) (books st')
     else entries (books st') = entries (books st))"
  using op
proof (cases rule: adjust_ok)
  case (1 st1 w st2 m ma st3)
  note g = get_warehouse_effect [OF inv 1(2)]
  have inv1: "stock_inv st1" and w: "w \<in> set (warehouses st1)" "wh_org w = org" using g by simp_all
  have val1: "org_value st1 o' = org_value st o'" for o' using g by (simp add: org_value_def)
  let ?v = "mv_total_cost m"
  show ?thesis
    using record_effect [OF inv1 1(3) w]
  proof cases
    case r: (1 cm)
    let ?s = "position (levels st1) (pr_id p, wh_id w)"
    have s: "position_ok ?s" "in_range ?s" using position_ok_position [OF stock_invD(4) [OF inv1]] by blast+
    have c: "0 \<le> ?v" using total_cost_nonneg(1) [OF r(1) s] 1(4) r(8) by (simp split: if_splits)
    have v: "v_value (cm_state cm) = v_value ?s + (if 0 < delta then ?v else - ?v)"
      using cost_movement_ok(3) [OF r(1)] 1(4) r(8) by (simp add: increases_stock_def split: if_splits)
    have acc: "accounts (books st2) = accounts (books st)" "entries (books st2) = entries (books st)" using r(15,16) g by simp_all
    have val2: "org_value st2 org = org_value st org + (if 0 < delta then ?v else - ?v)"
      "\<And>other. other \<noteq> org \<Longrightarrow> org_value st2 other = org_value st other"
      using r(11,12) v val1 by simp_all
    have fin: "org_value st' o' = org_value st3 o'" "entries (books st') = entries (books st3)" for o'
      by (simp_all add: 1(6) audit_stock_def org_value_def)
    have inv': "stock_inv st3 \<Longrightarrow> stock_inv st'" unfolding 1(6) by (rule inv_audit_stock)
    show ?thesis
    proof (cases "0 < ?v")
      case False
      with 1(7) c r(13) val2 acc fin inv' show ?thesis by simp
    next
      case True
      with 1(7) obtain ia ca b e nar where e: "inventory_account_id (books st2) org p = Inr ia" "cogs_account_id (books st2) org p = Inr ca"
        "post_pair hs (books st2) org actor d nar (if 0 < delta then ia else ca) (if 0 < delta then ca else ia) ?v
           None (Some ''stock_adjustment'') (Some (mv_id m)) now = Inr (b, e)"
        "st3 = link_entry (st2\<lparr>books := b\<rparr>) (mv_id m) (e_id e)" "m' = m\<lparr>mv_entry := Some (e_id e)\<rparr>" by blast
      note pp = post_pair_effect [OF stock_invD(1) [OF r(13)] e(3)]
      have "stock_inv st3" unfolding e(4) using pp by (intro inv_link_entry inv_books [OF r(13)]) blast+
      moreover have "org_value st3 o' = org_value st2 o'" for o' by (simp add: e(4) link_entry_def org_value_def)
      moreover have "pair_posted (if 0 < delta then ia else ca) (if 0 < delta then ca else ia) ?v (books st) (books st')"
        using pp ledger_net_entries [OF acc(2)] ledger_net_entries [OF fin(2)]
        by (simp add: pair_posted_def e(4) link_entry_def)
      moreover have "ca \<noteq> ia" using pp by (auto split: if_splits)
      ultimately show ?thesis
        using True c val2 e(1,2,5) fin(1) inv' account_id_cong [OF acc(1)] by simp
    qed
  qed
qed

lemma transfer_ok:
  assumes "transfer st org p q from_id to_id d actor now = Inr (st', out, inb)"
  obtains source dest st1 ma1 ma2 st2 where "from_id \<noteq> to_id" "get_warehouse st org (Some from_id) = Inr (st, source)"
    "get_warehouse st org (Some to_id) = Inr (st, dest)"
    "record_movement st org p source ma1 now = Inr (st1, out)" "ma_kind ma1 = TRANSFER_OUT" "ma_quantity ma1 = q"
    "record_movement st1 org p dest ma2 now = Inr (st2, inb)" "ma_kind ma2 = TRANSFER_IN" "ma_quantity ma2 = q"
    "ma_unit_cost ma2 = Some (mv_unit_cost out)"
    "st' = audit_stock st2 STOCK_TRANSFERRED INFO actor org ''product'' (pr_id p)"
proof -
  have same: "a = st0" if "get_warehouse st0 org (Some i) = Inr (a, x)" for st0 i a x
    using that by (cases rule: get_warehouse_ok) simp_all
  show thesis
    using assms unfolding transfer_def
    apply (elim bindr_InrE)
    subgoal premises prems for u r
    proof -
      obtain source where r: "r = (st, source)" using same prems(2) by (metis surj_pair)
      from prems(3) obtain x where x: "get_warehouse st org (Some to_id) = Inr x" unfolding r prod.case by (elim bindr_InrE)
      obtain dest where x': "x = (st, dest)" using same x by (metis surj_pair)
      note k = prems(3) [unfolded r prod.case x bindr_Inr x']
      show thesis
        using k prems(1,2) x unfolding r x'
        by (auto intro!: that [of source dest])
    qed
    done
qed

lemma transfer_effect:
  assumes inv: "stock_inv st" and op: "transfer st org p q from_id to_id d actor now = Inr (st', out, inb)"
  obtains i c where "from_id \<noteq> to_id" "stock_inv st'" "entries (books st') = entries (books st)"
    "apply_issue (position (levels st) (pr_id p, from_id)) q = Inr i" "mv_total_cost out = cost_of_goods_sold i"
    "c = receipt_cost no_stock p (Some (average_cost (position (levels st) (pr_id p, from_id))))"
    "mv_total_cost inb = round_value (dmul q c)"
    "org_value st' org = org_value st org - mv_total_cost out + mv_total_cost inb"
    "position (levels st') = (position (levels st))((pr_id p, from_id) := io_state i,
       (pr_id p, to_id) := \<lparr>v_quantity = v_quantity (position (levels st) (pr_id p, to_id)) + q,
                            v_value = v_value (position (levels st) (pr_id p, to_id)) + mv_total_cost inb\<rparr>)"
  using op
proof (cases rule: transfer_ok)
  case (1 source dest st1 ma1 ma2 st2)
  have w1: "source \<in> set (warehouses st)" "wh_org source = org" "wh_id source = from_id"
    using 1(2) by (cases rule: get_warehouse_ok; simp)+
  have w2: "dest \<in> set (warehouses st)" "wh_org dest = org" "wh_id dest = to_id"
    using 1(3) by (cases rule: get_warehouse_ok; simp)+
  show thesis
    using record_effect [OF inv 1(4) w1(1,2)]
  proof cases
    case a: (1 cm1)
    have w2': "dest \<in> set (warehouses st1)" using a(14) w2(1) by simp
    show thesis
      using record_effect [OF a(13) 1(7) w2' w2(2)]
    proof cases
      case b: (1 cm2)
      let ?s = "position (levels st) (pr_id p, from_id)"
      let ?t = "position (levels st) (pr_id p, to_id)"
      have pos1: "position (levels st1) (pr_id p, to_id) = ?t" using a(4) 1(1) w1(3) by simp
      from a(1) 1(5,6) w1(3) obtain i where i: "apply_issue ?s q = Inr i" "cm_state cm1 = io_state i"
        "cm_total_cost cm1 = cost_of_goods_sold i" "cm_unit_cost cm1 = average_cost ?s"
        by (auto simp: cost_movement_def increases_stock_def)
      let ?c = "receipt_cost no_stock p (Some (average_cost ?s))"
      from b(1) 1(8,9,10) w2(3) pos1 a(9) i(4) obtain r where r: "apply_receipt ?t q ?c = Inr r" "cm_state cm2 = ro_state r"
        "cm_total_cost cm2 = value_added r"
        by (auto simp: cost_movement_def increases_stock_def receipt_cost_def Let_def)
      from r(1) have rr: "value_added r = round_value (dmul q ?c)"
        "ro_state r = \<lparr>v_quantity = v_quantity ?t + q, v_value = v_value ?t + value_added r\<rparr>"
        by (auto simp: apply_receipt_def Let_def split: if_splits)
      from i(1) have vi: "v_value (io_state i) = v_value ?s - cost_of_goods_sold i" by (auto elim: apply_issueE)
      show thesis
        by (rule that [OF 1(1) _ _ i(1), of ?c])
           (use a b i r rr vi 1(11) w1(3) w2(3) pos1 inv_audit_stock [OF b(13)] in
             \<open>simp_all add: audit_stock_def org_value_def\<close>)
    qed
  qed
qed

section \<open>The transition system\<close>

text \<open>
  The operations that change the sub-ledger, the steps of the ledger underneath, and the identifiers other
  tables take. A direct movement is what goods receipts do; the warehouse it names is a row of its
  organization.
\<close>

inductive stock_step :: "'h hooks \<Rightarrow> 'h stock_db \<Rightarrow> 'h stock_db \<Rightarrow> bool" for hs where
  ledger: "ledger_step hs (books st) b \<Longrightarrow> stock_step hs st (st\<lparr>books := b\<rparr>)"
| id_taken: "stock_step hs st (take_id st)"
| warehouse_use: "get_warehouse st org wid = Inr (st', w) \<Longrightarrow> stock_step hs st st'"
| warehouse_new: "create_warehouse st org wd actor = Inr (st', w) \<Longrightarrow> stock_step hs st st'"
| move: "w \<in> set (warehouses st) \<Longrightarrow> wh_org w = org \<Longrightarrow> record_movement st org p w ma now = Inr (st', m) \<Longrightarrow> stock_step hs st st'"
| sale: "issue_for_sale hs st org p q d actor wid stype sid ref now = Inr (st', m, cogs) \<Longrightarrow> stock_step hs st st'"
| correction: "adjust hs st org p delta d reason actor wid uc now = Inr (st', m) \<Longrightarrow> stock_step hs st st'"
| relocation: "transfer st org p q from_id to_id d actor now = Inr (st', m1, m2) \<Longrightarrow> stock_step hs st st'"

lemma seed_next_id:
  "seed_accounts b org bc specs = Inr (b', bc') \<Longrightarrow> next_id b \<le> next_id b'"
  "seed_journals b org js = Inr b' \<Longrightarrow> next_id b \<le> next_id b'"
  "sync_specs b org ex specs n = Inr (b', k) \<Longrightarrow> next_id b \<le> next_id b'"
proof -
  have acc: "next_id y = next_id x + 1" if "add_account x a = Inr y" for x y :: "'h db" and a
    using that by (auto dest!: add_account_ok)
  have jou: "next_id y = next_id x + 1" if "add_journal x j = Inr y" for x y :: "'h db" and j
    using that by (auto dest!: add_journal_ok)
  show "seed_accounts b org bc specs = Inr (b', bc') \<Longrightarrow> next_id b \<le> next_id b'"
    by (induction b org bc specs rule: seed_accounts.induct) (fastforce simp: Let_def dest: acc)+
  show "seed_journals b org js = Inr b' \<Longrightarrow> next_id b \<le> next_id b'"
    by (induction b org js rule: seed_journals.induct) (fastforce dest: jou)+
  show "sync_specs b org ex specs n = Inr (b', k) \<Longrightarrow> next_id b \<le> next_id b'"
    by (induction b org ex specs n rule: sync_specs.induct) (fastforce simp: Let_def split: if_splits dest: acc)+
qed

lemma chart_next_id:
  "seed_defaults b org = Inr (b', n, k) \<Longrightarrow> next_id b \<le> next_id b'"
  "sync_template b org = Inr (b', i) \<Longrightarrow> next_id b \<le> next_id b'"
  "create_account b org ad actor = Inr (b', a) \<Longrightarrow> next_id b \<le> next_id b'"
  "update_account b org j au actor = Inr (b', a) \<Longrightarrow> next_id b \<le> next_id b'"
  "delete_account b org j actor now = Inr b' \<Longrightarrow> next_id b \<le> next_id b'"
proof -
  show seed: "next_id b \<le> next_id b'" if "seed_defaults b org = Inr (b', n, k)" for n k
    using that by (fastforce simp: seed_defaults_def split: if_splits dest: seed_next_id(1) seed_next_id(2))
  show "sync_template b org = Inr (b', i) \<Longrightarrow> next_id b \<le> next_id b'"
    unfolding sync_template_def Let_def by (auto split: if_splits dest: seed seed_next_id(3))
  show "create_account b org ad actor = Inr (b', a) \<Longrightarrow> next_id b \<le> next_id b'"
    by (auto simp: create_account_def adopt_parent_def Let_def split: option.splits if_splits dest!: add_account_ok)
  show "update_account b org j au actor = Inr (b', a) \<Longrightarrow> next_id b \<le> next_id b'"
    by (auto simp: update_account_def Let_def)
  show "delete_account b org j actor now = Inr b' \<Longrightarrow> next_id b \<le> next_id b'"
    by (auto simp: delete_account_def)
qed

lemma post_next_id: "post_entry hs b org i actor now = Inr (b', e) \<Longrightarrow> next_id b \<le> next_id b'"
  by (erule post_entry_ok) (simp add: next_number_frame)

lemma add_next_id: "add_entry b e = Inr b' \<Longrightarrow> next_id b' = next_id b + 1"
  by (auto dest: add_entry_ok)

lemma entry_next_id:
  "create_entry hs b org d actor stype sid now = Inr (b', e) \<Longrightarrow> next_id b \<le> next_id b'"
  "update_entry b org i u = Inr (b', e) \<Longrightarrow> next_id b \<le> next_id b'"
  "reverse_entry hs b org i actor rd nar now = Inr (b', e) \<Longrightarrow> next_id b \<le> next_id b'"
  "delete_draft b org i actor = Inr b' \<Longrightarrow> next_id b \<le> next_id b'"
proof -
  show "create_entry hs b org d actor stype sid now = Inr (b', e) \<Longrightarrow> next_id b \<le> next_id b'"
    by (erule create_entry_ok) (fastforce split: if_splits dest: post_next_id add_next_id)
  show "update_entry b org i u = Inr (b', e) \<Longrightarrow> next_id b \<le> next_id b'"
    by (erule update_entry_ok) simp
  show "reverse_entry hs b org i actor rd nar now = Inr (b', e) \<Longrightarrow> next_id b \<le> next_id b'"
    by (erule reverse_entry_ok) (fastforce dest: post_next_id add_next_id)
  show "delete_draft b org i actor = Inr b' \<Longrightarrow> next_id b \<le> next_id b'"
    by (erule delete_draft_ok) simp
qed

lemma step_next_id:
  assumes "ledger_step hs b b'"
  shows "next_id b \<le> next_id b'"
  using assms
proof cases
  case simple
  then show ?thesis by (rule post_simple_ok) (rule entry_next_id(1))
qed (auto dest: chart_next_id entry_next_id post_next_id calendar_frame)

section \<open>Abstract positions\<close>

text \<open>
  The specification of the sub-ledger: a position per product and warehouse, and the three pure valuation
  steps. The movement history, with the link to the ledger entry left out, only grows.
\<close>

inductive position_step :: "(uuid \<times> uuid \<Rightarrow> valuation_state) \<Rightarrow> (uuid \<times> uuid \<Rightarrow> valuation_state) \<Rightarrow> bool" where
  received: "apply_receipt (s k) q c = Inr r \<Longrightarrow> position_step s (s(k := ro_state r))"
| issued: "apply_issue (s k) q = Inr i \<Longrightarrow> position_step s (s(k := io_state i))"
| reversed: "0 < q \<Longrightarrow> 0 \<le> c \<Longrightarrow> reverse_receipt (s k) q c = Inr t \<Longrightarrow> position_step s (s(k := t))"

definition history :: "'h stock_db \<Rightarrow> stock_movement list" where
  "history st = map (mv_entry_update (\<lambda>_. None)) (movements st)"

definition simulates :: "'h stock_db \<Rightarrow> 'h stock_db \<Rightarrow> bool" where
  "simulates st st' \<longleftrightarrow> stock_inv st' \<and> position_step\<^sup>*\<^sup>* (position (levels st)) (position (levels st')) \<and>
     (\<exists>ms. history st' = history st @ ms)"

lemma simulates_frame:
  "stock_inv st' \<Longrightarrow> levels st' = levels st \<Longrightarrow> history st' = history st \<Longrightarrow> simulates st st'"
  by (simp add: simulates_def)

lemma simulates_trans: "simulates a b \<Longrightarrow> simulates b c \<Longrightarrow> simulates a c"
  unfolding simulates_def by (fastforce intro: rtranclp_trans)

lemma history_link [simp]:
  "history (link_entry st i j) = history st" "levels (link_entry st i j) = levels st"
  unfolding history_def link_entry_def by simp_all (rule map_update_where, simp)

lemma history_simps [simp]:
  "history (st\<lparr>books := b\<rparr>) = history st" "history (st\<lparr>levels := ls\<rparr>) = history st"
  "history (st\<lparr>warehouses := ws\<rparr>) = history st" "history (take_id st) = history st"
  "history (audit_stock st x sv ac og rt ri) = history st"
  by (simp_all add: history_def audit_stock_def)

lemma simulates_record:
  assumes "stock_inv st" "record_movement st org p w ma now = Inr (st', m)" "w \<in> set (warehouses st)" "wh_org w = org"
  shows "simulates st st'"
  using assms
proof (cases rule: record_effect)
  case (1 cm)
  have "position_step (position (levels st)) (position (levels st'))"
    using 1(1,2,9,10) unfolding 1(4)
    by (auto simp: cost_movement_def Let_def split: if_splits option.splits intro: position_step.intros)
  moreover have "history st' = history st @ [mv_entry_update (\<lambda>_. None) m]" by (simp add: history_def 1(5))
  ultimately show ?thesis using 1(13) by (auto simp: simulates_def)
qed

lemma simulates_get_warehouse:
  assumes "stock_inv st" "get_warehouse st org wid = Inr (st', w)"
  shows "simulates st st'"
  using get_warehouse_effect [OF assms] by (intro simulates_frame) (simp_all add: history_def)

lemma simulates_post:
  assumes "simulates st st2" "ledger_inv b" "next_id (books st2) \<le> next_id b"
  shows "simulates st (link_entry (st2\<lparr>books := b\<rparr>) i j)"
proof (rule simulates_trans [OF assms(1)], rule simulates_frame)
  show "stock_inv (link_entry (st2\<lparr>books := b\<rparr>) i j)"
    using assms by (intro inv_link_entry inv_books) (simp_all add: simulates_def)
qed simp_all

lemma simulates_issue:
  assumes "stock_inv st" "issue_for_sale hs st org p q d actor wid stype sid ref now = Inr (st', m', cogs)"
  shows "simulates st st'"
  using assms(2)
proof (cases rule: issue_for_sale_ok)
  case (1 st1 w st2 m ma)
  note g = get_warehouse_effect [OF assms(1) 1(1)]
  have s2: "simulates st st2"
    using simulates_get_warehouse [OF assms(1) 1(1)] simulates_record [OF _ 1(2)] g simulates_trans by blast
  then have "ledger_inv (books st2)" by (simp add: simulates_def stock_invD(1))
  then show ?thesis using 1(6) s2 simulates_post [OF s2] post_pair_effect by blast
qed

lemma simulates_audit: "simulates st st' \<Longrightarrow> simulates st (audit_stock st' x sv ac og rt ri)"
  by (rule simulates_trans [of _ st'])
     (auto intro!: simulates_frame inv_audit_stock simp: simulates_def [of st] audit_stock_def [THEN arg_cong, of levels])

lemma simulates_adjust:
  assumes "stock_inv st" "adjust hs st org p delta d reason actor wid uc now = Inr (st', m')"
  shows "simulates st st'"
  using assms(2)
proof (cases rule: adjust_ok)
  case (1 st1 w st2 m ma st3)
  note g = get_warehouse_effect [OF assms(1) 1(2)]
  have s2: "simulates st st2"
    using simulates_get_warehouse [OF assms(1) 1(2)] simulates_record [OF _ 1(3)] g simulates_trans by blast
  then have "ledger_inv (books st2)" by (simp add: simulates_def stock_invD(1))
  then have "simulates st st3" using 1(7) s2 simulates_post [OF s2] post_pair_effect by blast
  then show ?thesis unfolding 1(6) by (rule simulates_audit)
qed

lemma simulates_transfer:
  assumes "stock_inv st" "transfer st org p q from_id to_id d actor now = Inr (st', m1, m2)"
  shows "simulates st st'"
  using assms(2)
proof (cases rule: transfer_ok)
  case (1 source dest st1 ma1 ma2 st2)
  have w: "source \<in> set (warehouses st)" "wh_org source = org" "dest \<in> set (warehouses st)" "wh_org dest = org"
    using get_warehouse_effect [OF assms(1) 1(2)] get_warehouse_effect [OF assms(1) 1(3)] by simp_all
  have s1: "simulates st st1" by (rule simulates_record [OF assms(1) 1(4) w(1,2)])
  have "stock_inv st1" "warehouses st1 = warehouses st"
    using record_effect [OF assms(1) 1(4) w(1,2)] by blast+
  then have "simulates st1 st2" using simulates_record [OF _ 1(7)] w(3,4) by simp
  then show ?thesis unfolding 1(11) using s1 simulates_trans simulates_audit by blast
qed

lemma simulates_create_warehouse:
  assumes "stock_inv st" "create_warehouse st org wd actor = Inr (st', w)"
  shows "simulates st st'"
proof -
  define st1 where "st1 = (if wc_default wd then st\<lparr>warehouses := update_where (\<lambda>w. wh_org w = org \<and> wh_deleted w = None)
      (wh_default_update (\<lambda>_. False)) (warehouses st)\<rparr> else st)"
  have w: "wh_id w = fresh_id st1"
    and st': "st' = audit_stock ((take_id st1)\<lparr>warehouses := warehouses st1 @ [w]\<rparr>)
      WAREHOUSE_CREATED INFO actor org ''warehouse'' (wh_id w)"
    using assms(2) unfolding create_warehouse_def Let_def st1_def [symmetric] by auto
  have "stock_inv st1"
    using assms(1) inv_warehouse_flags [OF assms(1), of "wh_default_update (\<lambda>_. False)"] by (simp add: st1_def)
  then have "stock_inv st'" unfolding st' by (intro inv_audit_stock inv_add_warehouse w)
  then show ?thesis by (intro simulates_frame) (auto simp: st' audit_stock_def history_def st1_def)
qed

lemma simulates_step:
  assumes "stock_step hs st st'" "stock_inv st"
  shows "simulates st st'"
  using assms(1)
proof cases
  case (ledger b)
  have "stock_inv st'"
    unfolding ledger(1) using ledger(2) assms(2)
    by (intro inv_books) (auto intro: ledger_step_inv step_next_id dest: stock_invD(1))
  then show ?thesis by (intro simulates_frame) (simp_all add: ledger(1))
next
  case id_taken
  then show ?thesis using assms(2) by (intro simulates_frame) (simp_all add: inv_take_id)
qed (use assms(2) in \<open>blast intro: simulates_get_warehouse simulates_create_warehouse simulates_record simulates_issue
  simulates_adjust simulates_transfer\<close>)+

lemma stock_inv_empty: "stock_inv (empty_stock h)"
  by (simp add: stock_inv_def empty_stock_def ledger_inv_empty position_def no_stock_def fun_eq_iff)

interpretation stock: transition_system "stock_step hs" "empty_stock h" stock_inv for hs h
  by unfold_locales (use simulates_step in \<open>auto simp: simulates_def stock_inv_empty\<close>)

definition stock_reachable :: "'h hooks \<Rightarrow> 'h \<Rightarrow> 'h stock_db \<Rightarrow> bool" where
  "stock_reachable hs h st \<longleftrightarrow> (stock_step hs)\<^sup>*\<^sup>* (empty_stock h) st"

lemma stock_reachable_inv: "stock_reachable hs h st \<Longrightarrow> stock_inv st"
  unfolding stock_reachable_def by (rule stock.inv_reachable)

lemma stock_reachable_step: "stock_reachable hs h st \<Longrightarrow> stock_step hs st st' \<Longrightarrow> stock_reachable hs h st'"
  by (simp add: stock_reachable_def)

end
