(* ===== verification/Purchasing_Models.thy ===== *)
theory Purchasing_Models
  imports Stock Gst
begin

text \<open>
  The rows of \<^verbatim>\<open>purchasing/models.py\<close> beyond the stock tables: suppliers, purchase orders, goods receipts,
  bills, supplier payments and their allocations, with the derived properties the model classes define and
  the constraints PostgreSQL enforces on a flush, foreign keys included. The columns of a supplier that no
  operation reads (contact, address and bank details) are kept together in \<^verbatim>\<open>su_text\<close>, by column name; the
  notes and terms of orders, bills and payments, which are only stored, are left out. A
  numbering row of a document type lives in the same table as those of the journals; the scopes of the two
  never coincide, since those of journals begin with \<^verbatim>\<open>journal:\<close>, and the document rows are kept here as
  \<^verbatim>\<open>doc_sequences\<close>. Only the totals of a document are checked against the width of their columns: the
  amounts of a line are not negative and add up to them.
\<close>

section \<open>Rows\<close>

datatype order_status = O_DRAFT | O_PENDING_APPROVAL | O_APPROVED | O_PARTIALLY_RECEIVED | O_RECEIVED | O_CANCELLED

datatype receipt_status = G_DRAFT | G_POSTED | G_CANCELLED

datatype bill_status = B_DRAFT | B_POSTED | B_PARTIALLY_PAID | B_PAID | B_CANCELLED

definition bill_is_posted :: "bill_status \<Rightarrow> bool" where
  "bill_is_posted s \<longleftrightarrow> s \<in> set [B_POSTED, B_PARTIALLY_PAID, B_PAID]"

record supplier =
  su_id :: uuid
  su_org :: uuid
  su_code :: string
  su_name :: string
  su_gstin :: "string option"
  su_state_code :: "string option"
  su_country :: string
  su_terms :: int
  su_currency :: string
  su_active :: bool
  su_text :: "string \<Rightarrow> string option"
  su_deleted :: "instant option"

definition due_date_for :: "supplier \<Rightarrow> date \<Rightarrow> date result" where
  "due_date_for s d = shift_days d (su_terms s)"

text \<open>A line of a document: the submitted columns and the ones \<^verbatim>\<open>compute_line\<close> fills.\<close>

record purchase_line =
  pl_number :: int
  pl_product :: "uuid option"
  pl_description :: string
  pl_hsn :: "string option"
  pl_quantity :: decimal
  pl_unit :: "string option"
  pl_unit_price :: decimal
  pl_discount_percent :: decimal
  pl_tax_rate :: decimal
  pl_totals :: line_totals

record order_line =
  ol_id :: uuid
  ol_line :: purchase_line
  ol_received :: decimal

definition outstanding_quantity :: "order_line \<Rightarrow> decimal" where
  "outstanding_quantity l = pl_quantity (ol_line l) - ol_received l"

definition is_fully_received :: "order_line \<Rightarrow> bool" where
  "is_fully_received l \<longleftrightarrow> pl_quantity (ol_line l) \<le> ol_received l"

record purchase_order =
  po_id :: uuid
  po_org :: uuid
  po_number :: string
  po_supplier :: uuid
  po_warehouse :: "uuid option"
  po_date :: date
  po_expected :: "date option"
  po_status :: order_status
  po_approved_at :: "instant option"
  po_approved_by :: "uuid option"
  po_cancelled_at :: "instant option"
  po_treatment :: tax_treatment
  po_currency :: string
  po_totals :: document_totals
  po_created_by :: uuid
  po_deleted :: "instant option"
  po_lines :: "order_line list"

record receipt_line =
  gl_number :: int
  gl_product :: uuid
  gl_order_line :: "uuid option"
  gl_quantity :: decimal
  gl_unit_cost :: decimal
  gl_total_cost :: decimal
  gl_rejected :: decimal
  gl_notes :: "string option"

definition accepted_quantity :: "receipt_line \<Rightarrow> decimal" where
  "accepted_quantity l = gl_quantity l - gl_rejected l"

record goods_receipt =
  gr_id :: uuid
  gr_org :: uuid
  gr_number :: string
  gr_supplier :: uuid
  gr_order :: "uuid option"
  gr_warehouse :: uuid
  gr_date :: date
  gr_reference :: "string option"
  gr_status :: receipt_status
  gr_total_cost :: decimal
  gr_entry :: "uuid option"
  gr_reversal :: "uuid option"
  gr_posted_at :: "instant option"
  gr_cancelled_at :: "instant option"
  gr_notes :: "string option"
  gr_created_by :: uuid
  gr_deleted :: "instant option"
  gr_lines :: "receipt_line list"

record bill_line =
  bl_line :: purchase_line
  bl_expense :: "uuid option"

record bill =
  bi_id :: uuid
  bi_org :: uuid
  bi_number :: string
  bi_invoice_number :: "string option"
  bi_supplier :: uuid
  bi_order :: "uuid option"
  bi_receipt :: "uuid option"
  bi_date :: date
  bi_due :: date
  bi_status :: bill_status
  bi_paid :: decimal
  bi_treatment :: tax_treatment
  bi_currency :: string
  bi_gstin :: "string option"
  bi_totals :: document_totals
  bi_entry :: "uuid option"
  bi_reversal :: "uuid option"
  bi_posted_at :: "instant option"
  bi_cancelled_at :: "instant option"
  bi_created_by :: uuid
  bi_deleted :: "instant option"
  bi_lines :: "bill_line list"

definition outstanding :: "bill \<Rightarrow> decimal" where
  "outstanding b = grand_total (bi_totals b) - bi_paid b"

definition is_fully_paid :: "bill \<Rightarrow> bool" where
  "is_fully_paid b \<longleftrightarrow> grand_total (bi_totals b) \<le> bi_paid b"

definition is_overdue :: "bill \<Rightarrow> date \<Rightarrow> bool" where
  "is_overdue b on_date \<longleftrightarrow> bill_is_posted (bi_status b) \<and> \<not> is_fully_paid b \<and> bi_due b < on_date"

record supplier_payment =
  sp_id :: uuid
  sp_org :: uuid
  sp_number :: string
  sp_supplier :: uuid
  sp_date :: date
  sp_amount :: decimal
  sp_unallocated :: decimal
  sp_method :: string
  sp_reference :: "string option"
  sp_currency :: string
  sp_source :: "uuid option"
  sp_entry :: "uuid option"
  sp_created_by :: uuid
  sp_deleted :: "instant option"

definition allocated_amount :: "supplier_payment \<Rightarrow> decimal" where
  "allocated_amount p = sp_amount p - sp_unallocated p"

record allocation =
  al_id :: uuid
  al_payment :: uuid
  al_bill :: uuid
  al_amount :: decimal

record 'h purchasing_db =
  stock :: "'h stock_db"
  doc_sequences :: "number_sequence list"
  products :: "product list"
  suppliers :: "supplier list"
  orders :: "purchase_order list"
  receipts :: "goods_receipt list"
  bills :: "bill list"
  payments :: "supplier_payment list"
  allocations :: "allocation list"

definition empty_purchasing :: "'h \<Rightarrow> 'h purchasing_db" where
  "empty_purchasing h = \<lparr>stock = empty_stock h, doc_sequences = [], products = [], suppliers = [], orders = [],
     receipts = [], bills = [], payments = [], allocations = []\<rparr>"

definition ledger :: "'h purchasing_db \<Rightarrow> 'h db" where
  "ledger st = books (stock st)"

definition set_ledger :: "'h purchasing_db \<Rightarrow> 'h db \<Rightarrow> 'h purchasing_db" where
  "set_ledger st b = st\<lparr>stock := (stock st)\<lparr>books := b\<rparr>\<rparr>"

definition take_doc_id :: "'h purchasing_db \<Rightarrow> 'h purchasing_db" where
  "take_doc_id st = st\<lparr>stock := take_id (stock st)\<rparr>"

definition doc_id :: "'h purchasing_db \<Rightarrow> uuid" where
  "doc_id st = fresh_id (stock st)"

definition audit_doc ::
    "'h purchasing_db \<Rightarrow> audit_action \<Rightarrow> audit_severity \<Rightarrow> uuid \<Rightarrow> uuid \<Rightarrow> string \<Rightarrow> uuid \<Rightarrow> 'h purchasing_db" where
  "audit_doc st action severity actor org resource_type resource_id =
     st\<lparr>stock := audit_stock (stock st) action severity actor org resource_type resource_id\<rparr>"

section \<open>Constraints\<close>

definition fk_ok :: "uuid option \<Rightarrow> uuid list \<Rightarrow> bool" where
  "fk_ok ref ids = (case ref of None \<Rightarrow> True | Some i \<Rightarrow> i \<in> set ids)"

definition supplier_checks :: "'h purchasing_db \<Rightarrow> supplier \<Rightarrow> unit result" where
  "supplier_checks st s =
     bindr (raise_if (\<exists>y \<in> set (suppliers st). su_org y = su_org s \<and> su_code y = su_code s \<and> su_id y \<noteq> su_id s)
       (IntegrityError ''uq_supplier_org_code'')) (\<lambda>_.
     raise_if (\<not> 0 \<le> su_terms s) (IntegrityError ''terms_non_negative''))"

definition product_checks :: "'h purchasing_db \<Rightarrow> product \<Rightarrow> unit result" where
  "product_checks st p =
     bindr (raise_if (\<exists>y \<in> set (products st). pr_org y = pr_org p \<and> pr_sku y = pr_sku p \<and> pr_id y \<noteq> pr_id p)
       (IntegrityError ''uq_product_org_sku'')) (\<lambda>_.
     bindr (raise_if (pr_barcode p \<noteq> None \<and> pr_deleted p = None \<and>
         (\<exists>y \<in> set (products st). pr_org y = pr_org p \<and> pr_barcode y = pr_barcode p \<and> pr_deleted y = None \<and> pr_id y \<noteq> pr_id p))
       (IntegrityError ''uq_product_org_barcode'')) (\<lambda>_.
     bindr (raise_if (\<not> (0 \<le> pr_tax_rate p \<and> pr_tax_rate p \<le> 100)) (IntegrityError ''tax_rate_range'')) (\<lambda>_.
     bindr (raise_if (\<not> (0 \<le> pr_sale_price p \<and> 0 \<le> pr_purchase_price p)) (IntegrityError ''prices_non_negative'')) (\<lambda>_.
     bindr (raise_if (\<not> 0 \<le> pr_reorder_level p) (IntegrityError ''reorder_non_negative'')) (\<lambda>_.
     raise_if (\<not> list_all (\<lambda>r. fk_ok r (map a_id (accounts (ledger st))))
         [pr_revenue_account p, pr_inventory_account p, pr_cogs_account p]) (IntegrityError ''foreign key''))))))"

definition purchase_line_checks :: "purchase_line \<Rightarrow> unit result" where
  "purchase_line_checks l =
     bindr (raise_if (\<not> 0 < pl_quantity l) (IntegrityError ''quantity_positive'')) (\<lambda>_.
     bindr (raise_if (\<not> 0 \<le> pl_unit_price l) (IntegrityError ''price_non_negative'')) (\<lambda>_.
     bindr (raise_if (\<not> (0 \<le> pl_tax_rate l \<and> pl_tax_rate l \<le> 100)) (IntegrityError ''tax_rate_range'')) (\<lambda>_.
     bindr (raise_if (cgst (pl_totals l) + sgst (pl_totals l) + igst (pl_totals l) \<noteq> tax_amount (pl_totals l))
       (IntegrityError ''tax_split_reconciles'')) (\<lambda>_.
     raise_if (taxable (pl_totals l) + tax_amount (pl_totals l) \<noteq> total (pl_totals l))
       (IntegrityError ''total_reconciles'')))))"

definition document_checks :: "document_totals \<Rightarrow> unit result" where
  "document_checks t =
     bindr (raise_if (\<not> 0 \<le> grand_total t) (IntegrityError ''total_non_negative'')) (\<lambda>_.
     bindr (raise_if (cgst_total t + sgst_total t + igst_total t \<noteq> tax_total t) (IntegrityError ''tax_split_reconciles'')) (\<lambda>_.
     bindr (raise_if (taxable_total t + tax_total t + round_off t \<noteq> grand_total t) (IntegrityError ''total_reconciles'')) (\<lambda>_.
     raise_if (\<not> (fits (subtotal t) \<and> fits (taxable_total t) \<and> fits (tax_total t) \<and> fits (round_off t) \<and> fits (grand_total t)))
       (IntegrityError ''numeric field overflow''))))"

definition order_checks :: "'h purchasing_db \<Rightarrow> purchase_order \<Rightarrow> unit result" where
  "order_checks st x =
     bindr (raise_if (\<exists>y \<in> set (orders st). po_org y = po_org x \<and> po_number y = po_number x \<and> po_id y \<noteq> po_id x)
       (IntegrityError ''uq_po_org_number'')) (\<lambda>_.
     bindr (raise_if (\<not> fk_ok (po_warehouse x) (map wh_id (warehouses (stock st)))) (IntegrityError ''foreign key'')) (\<lambda>_.
     bindr (document_checks (po_totals x)) (\<lambda>_.
     each (\<lambda>l. bindr (raise_if (\<not> (0 \<le> ol_received l \<and> fits (ol_received l))) (IntegrityError ''received_non_negative'')) (\<lambda>_.
     bindr (raise_if (\<not> fk_ok (pl_product (ol_line l)) (map pr_id (products st))) (IntegrityError ''foreign key'')) (\<lambda>_.
       purchase_line_checks (ol_line l)))) (po_lines x))))"

definition receipt_line_checks :: "'h purchasing_db \<Rightarrow> receipt_line \<Rightarrow> unit result" where
  "receipt_line_checks st l =
     bindr (raise_if (\<not> fk_ok (gl_order_line l) (concat (map (\<lambda>x. map ol_id (po_lines x)) (orders st))))
       (IntegrityError ''foreign key'')) (\<lambda>_.
     bindr (raise_if (\<not> 0 < gl_quantity l) (IntegrityError ''quantity_positive'')) (\<lambda>_.
     bindr (raise_if (\<not> 0 \<le> gl_unit_cost l) (IntegrityError ''cost_non_negative'')) (\<lambda>_.
     raise_if (\<not> (0 \<le> gl_rejected l \<and> gl_rejected l \<le> gl_quantity l)) (IntegrityError ''rejected_within_quantity''))))"

definition receipt_checks :: "'h purchasing_db \<Rightarrow> goods_receipt \<Rightarrow> unit result" where
  "receipt_checks st g =
     bindr (raise_if (\<exists>y \<in> set (receipts st). gr_org y = gr_org g \<and> gr_number y = gr_number g \<and> gr_id y \<noteq> gr_id g)
       (IntegrityError ''uq_grn_org_number'')) (\<lambda>_.
     bindr (raise_if (\<not> fk_ok (gr_order g) (map po_id (orders st))) (IntegrityError ''foreign key'')) (\<lambda>_.
     bindr (raise_if (\<not> (0 \<le> gr_total_cost g \<and> fits (gr_total_cost g))) (IntegrityError ''cost_non_negative'')) (\<lambda>_.
     bindr (raise_if (gr_status g = G_DRAFT \<and> gr_entry g \<noteq> None) (IntegrityError ''draft_has_no_entry'')) (\<lambda>_.
     each (receipt_line_checks st) (gr_lines g)))))"

definition bill_checks :: "'h purchasing_db \<Rightarrow> bill \<Rightarrow> unit result" where
  "bill_checks st b =
     bindr (raise_if (\<exists>y \<in> set (bills st). bi_org y = bi_org b \<and> bi_number y = bi_number b \<and> bi_id y \<noteq> bi_id b)
       (IntegrityError ''uq_bill_org_number'')) (\<lambda>_.
     bindr (raise_if (bi_invoice_number b \<noteq> None \<and> bi_deleted b = None \<and>
         (\<exists>y \<in> set (bills st). bi_org y = bi_org b \<and> bi_supplier y = bi_supplier b \<and>
            bi_invoice_number y = bi_invoice_number b \<and> bi_deleted y = None \<and> bi_id y \<noteq> bi_id b))
       (IntegrityError ''uq_bill_supplier_invoice'')) (\<lambda>_.
     bindr (raise_if (\<not> 0 \<le> bi_paid b) (IntegrityError ''paid_non_negative'')) (\<lambda>_.
     bindr (raise_if (\<not> bi_paid b \<le> grand_total (bi_totals b)) (IntegrityError ''paid_within_total'')) (\<lambda>_.
     bindr (raise_if (bi_due b < bi_date b) (IntegrityError ''due_after_issue'')) (\<lambda>_.
     bindr (raise_if (\<not> (fk_ok (bi_order b) (map po_id (orders st)) \<and> fk_ok (bi_receipt b) (map gr_id (receipts st))))
       (IntegrityError ''foreign key'')) (\<lambda>_.
     bindr (document_checks (bi_totals b)) (\<lambda>_.
     each (\<lambda>l.
       bindr (raise_if (\<not> (fk_ok (pl_product (bl_line l)) (map pr_id (products st)) \<and>
           fk_ok (bl_expense l) (map a_id (accounts (ledger st))))) (IntegrityError ''foreign key'')) (\<lambda>_.
       purchase_line_checks (bl_line l))) (bi_lines b))))))))"

definition payment_checks :: "'h purchasing_db \<Rightarrow> supplier_payment \<Rightarrow> unit result" where
  "payment_checks st p =
     bindr (raise_if (\<exists>y \<in> set (payments st). sp_org y = sp_org p \<and> sp_number y = sp_number p \<and> sp_id y \<noteq> sp_id p)
       (IntegrityError ''uq_supplier_payment_org_number'')) (\<lambda>_.
     bindr (raise_if (\<not> 0 < sp_amount p) (IntegrityError ''amount_positive'')) (\<lambda>_.
     bindr (raise_if (\<not> (0 \<le> sp_unallocated p \<and> sp_unallocated p \<le> sp_amount p))
       (IntegrityError ''unallocated_within_amount'')) (\<lambda>_.
     raise_if (\<not> fits (sp_amount p)) (IntegrityError ''numeric field overflow''))))"

definition allocation_checks :: "'h purchasing_db \<Rightarrow> allocation \<Rightarrow> unit result" where
  "allocation_checks st a =
     bindr (raise_if (\<exists>y \<in> set (allocations st). al_payment y = al_payment a \<and> al_bill y = al_bill a \<and> al_id y \<noteq> al_id a)
       (IntegrityError ''uq_sp_allocation_payment_bill'')) (\<lambda>_.
     bindr (raise_if (\<not> 0 < al_amount a) (IntegrityError ''amount_positive'')) (\<lambda>_.
     raise_if (\<not> fits (al_amount a)) (IntegrityError ''numeric field overflow'')))"

section \<open>Writing rows\<close>

definition add_supplier :: "'h purchasing_db \<Rightarrow> supplier \<Rightarrow> 'h purchasing_db result" where
  "add_supplier st s = bindr (supplier_checks st s) (\<lambda>_. Inr ((take_doc_id st)\<lparr>suppliers := suppliers st @ [s]\<rparr>))"

definition save_supplier :: "'h purchasing_db \<Rightarrow> supplier \<Rightarrow> 'h purchasing_db result" where
  "save_supplier st s = bindr (supplier_checks st s) (\<lambda>_.
     Inr (st\<lparr>suppliers := update_where (\<lambda>y. su_id y = su_id s) (\<lambda>_. s) (suppliers st)\<rparr>))"

definition add_product :: "'h purchasing_db \<Rightarrow> product \<Rightarrow> 'h purchasing_db result" where
  "add_product st p = bindr (product_checks st p) (\<lambda>_. Inr ((take_doc_id st)\<lparr>products := products st @ [p]\<rparr>))"

definition save_product :: "'h purchasing_db \<Rightarrow> product \<Rightarrow> 'h purchasing_db result" where
  "save_product st p = bindr (product_checks st p) (\<lambda>_.
     Inr (st\<lparr>products := update_where (\<lambda>y. pr_id y = pr_id p) (\<lambda>_. p) (products st)\<rparr>))"

definition add_order :: "'h purchasing_db \<Rightarrow> purchase_order \<Rightarrow> 'h purchasing_db result" where
  "add_order st x = bindr (order_checks st x) (\<lambda>_. Inr ((take_doc_id st)\<lparr>orders := orders st @ [x]\<rparr>))"

definition save_order :: "'h purchasing_db \<Rightarrow> purchase_order \<Rightarrow> 'h purchasing_db result" where
  "save_order st x = bindr (order_checks st x) (\<lambda>_.
     Inr (st\<lparr>orders := update_where (\<lambda>y. po_id y = po_id x) (\<lambda>_. x) (orders st)\<rparr>))"

definition add_receipt :: "'h purchasing_db \<Rightarrow> goods_receipt \<Rightarrow> 'h purchasing_db result" where
  "add_receipt st g = bindr (receipt_checks st g) (\<lambda>_. Inr ((take_doc_id st)\<lparr>receipts := receipts st @ [g]\<rparr>))"

definition save_receipt :: "'h purchasing_db \<Rightarrow> goods_receipt \<Rightarrow> 'h purchasing_db result" where
  "save_receipt st g = bindr (receipt_checks st g) (\<lambda>_.
     Inr (st\<lparr>receipts := update_where (\<lambda>y. gr_id y = gr_id g) (\<lambda>_. g) (receipts st)\<rparr>))"

definition add_bill :: "'h purchasing_db \<Rightarrow> bill \<Rightarrow> 'h purchasing_db result" where
  "add_bill st b = bindr (bill_checks st b) (\<lambda>_. Inr ((take_doc_id st)\<lparr>bills := bills st @ [b]\<rparr>))"

definition save_bill :: "'h purchasing_db \<Rightarrow> bill \<Rightarrow> 'h purchasing_db result" where
  "save_bill st b = bindr (bill_checks st b) (\<lambda>_.
     Inr (st\<lparr>bills := update_where (\<lambda>y. bi_id y = bi_id b) (\<lambda>_. b) (bills st)\<rparr>))"

definition add_payment :: "'h purchasing_db \<Rightarrow> supplier_payment \<Rightarrow> 'h purchasing_db result" where
  "add_payment st p = bindr (payment_checks st p) (\<lambda>_. Inr ((take_doc_id st)\<lparr>payments := payments st @ [p]\<rparr>))"

definition save_payment :: "'h purchasing_db \<Rightarrow> supplier_payment \<Rightarrow> 'h purchasing_db result" where
  "save_payment st p = bindr (payment_checks st p) (\<lambda>_.
     Inr (st\<lparr>payments := update_where (\<lambda>y. sp_id y = sp_id p) (\<lambda>_. p) (payments st)\<rparr>))"

definition add_allocation :: "'h purchasing_db \<Rightarrow> allocation \<Rightarrow> 'h purchasing_db result" where
  "add_allocation st a = bindr (allocation_checks st a) (\<lambda>_. Inr ((take_doc_id st)\<lparr>allocations := allocations st @ [a]\<rparr>))"

end
