(* ===== verification/Purchasing.thy ===== *)
theory Purchasing
  imports Purchasing_Models
begin

text \<open>
  \<^verbatim>\<open>purchasing/service.py\<close>: the supplier and product masters, the computation of document lines and
  purchase orders. The organization's date and GSTIN, which the services look up, are arguments.
\<close>

section \<open>Lookups and numbering\<close>

definition get_supplier :: "'h purchasing_db \<Rightarrow> uuid \<Rightarrow> uuid \<Rightarrow> supplier result" where
  "get_supplier st org i =
     bindr (scalar_one_or_none (filter (\<lambda>s. su_id s = i \<and> su_org s = org \<and> su_deleted s = None) (suppliers st))) (\<lambda>found.
     case found of
       None \<Rightarrow> Inl (NotFoundError ''Supplier'')
     | Some s \<Rightarrow> bindr (raise_if (\<not> su_active s) (BusinessRuleError ''Supplier is inactive'')) (\<lambda>_. Inr s))"

definition get_product :: "'h purchasing_db \<Rightarrow> uuid \<Rightarrow> uuid \<Rightarrow> product result" where
  "get_product st org i =
     bindr (scalar_one_or_none (filter (\<lambda>p. pr_id p = i \<and> pr_org p = org \<and> pr_deleted p = None) (products st))) (\<lambda>found.
     case found of None \<Rightarrow> Inl (NotFoundError ''Product'') | Some p \<Rightarrow> Inr p)"

definition supplier_treatment :: "string option \<Rightarrow> supplier \<Rightarrow> tax_treatment" where
  "supplier_treatment org_gstin s =
     resolve_treatment (su_state_code s) (state_code_from_gstin org_gstin) (su_country s) False"

definition document_number ::
    "'h purchasing_db \<Rightarrow> uuid \<Rightarrow> string \<Rightarrow> string \<Rightarrow> date \<Rightarrow> ('h purchasing_db \<times> string) result" where
  "document_number st org scope prefix today =
     (let y = show_int (ord_year today) in
      bindr (next_number ((ledger st)\<lparr>sequences := doc_sequences st\<rparr>) org (scope @ '':'' @ y) (prefix @ ''-'' @ y @ ''-'') 4) (\<lambda>(b, number).
      Inr ((set_ledger st (b\<lparr>sequences := sequences (ledger st)\<rparr>))\<lparr>doc_sequences := sequences b\<rparr>, number)))"

section \<open>Lines\<close>

record purchase_line_input =
  pi_product :: "uuid option"
  pi_description :: string
  pi_hsn :: "string option"
  pi_quantity :: decimal
  pi_unit :: "string option"
  pi_unit_price :: decimal
  pi_discount_percent :: decimal
  pi_discount_amount :: "decimal option"
  pi_tax_rate :: decimal
  pi_expense :: "uuid option"

definition compute_input :: "tax_treatment \<Rightarrow> purchase_line_input \<Rightarrow> line_totals" where
  "compute_input treatment i =
     compute_line (pi_quantity i) (pi_unit_price i) (pi_tax_rate i) treatment (pi_discount_percent i) (pi_discount_amount i)"

definition apply_line :: "tax_treatment \<Rightarrow> int \<Rightarrow> purchase_line_input \<Rightarrow> purchase_line" where
  "apply_line treatment index i =
     \<lparr>pl_number = index, pl_product = pi_product i, pl_description = pi_description i, pl_hsn = pi_hsn i,
      pl_quantity = pi_quantity i, pl_unit = pi_unit i, pl_unit_price = pi_unit_price i,
      pl_discount_percent = pi_discount_percent i, pl_tax_rate = pi_tax_rate i,
      pl_totals = compute_input treatment i\<rparr>"

fun apply_lines :: "tax_treatment \<Rightarrow> int \<Rightarrow> purchase_line_input list \<Rightarrow> purchase_line list" where
  "apply_lines treatment index [] = []"
| "apply_lines treatment index (i # is) = apply_line treatment index i # apply_lines treatment (index + 1) is"

definition totals_of :: "tax_treatment \<Rightarrow> purchase_line_input list \<Rightarrow> bool \<Rightarrow> document_totals" where
  "totals_of treatment is round_to_whole = compute_document (map (compute_input treatment) is) round_to_whole"

definition validate_line_input :: "purchase_line_input \<Rightarrow> unit result" where
  "validate_line_input i =
     bindr (raise_if (\<not> (0 < pi_quantity i \<and> money_ok (pi_quantity i))) (SchemaError ''quantity'')) (\<lambda>_.
     bindr (raise_if (\<not> (0 \<le> pi_unit_price i \<and> money_ok (pi_unit_price i))) (SchemaError ''unit_price'')) (\<lambda>_.
     bindr (raise_if (\<not> (0 \<le> pi_discount_percent i \<and> pi_discount_percent i \<le> 100 \<and> on_grid 4 (pi_discount_percent i)))
       (SchemaError ''discount_percent'')) (\<lambda>_.
     bindr (raise_if (case pi_discount_amount i of None \<Rightarrow> False | Some d \<Rightarrow> \<not> (0 \<le> d \<and> money_ok d)) (SchemaError ''discount_amount'')) (\<lambda>_.
     raise_if (\<not> (0 \<le> pi_tax_rate i \<and> pi_tax_rate i \<le> 100 \<and> on_grid 4 (pi_tax_rate i))) (SchemaError ''tax_rate'')))))"

definition validate_line_inputs :: "purchase_line_input list \<Rightarrow> unit result" where
  "validate_line_inputs is =
     bindr (raise_if (is = []) (SchemaError ''at least one line'')) (\<lambda>_. each validate_line_input is)"

section \<open>Suppliers\<close>

text \<open>
  Of a partial update, \<^verbatim>\<open>model_dump(exclude_unset=True)\<close> keeps the fields the request carries, an explicit
  null included: \<^verbatim>\<open>None\<close> is a field left out, \<^verbatim>\<open>Some None\<close> a null.
\<close>

record supplier_create =
  sc_code :: "string option"
  sc_name :: string
  sc_gstin :: "string option"
  sc_country :: string
  sc_terms :: int
  sc_text :: "(string \<times> string option) list"

record supplier_update =
  uu_name :: "string option option"
  uu_gstin :: "string option option"
  uu_terms :: "int option option"
  uu_active :: "bool option option"
  uu_text :: "(string \<times> string option) list"

definition set_required :: "'a \<Rightarrow> 'a option option \<Rightarrow> 'a result" where
  "set_required old v =
     (case v of None \<Rightarrow> Inr old | Some None \<Rightarrow> Inl (IntegrityError ''not null'') | Some (Some x) \<Rightarrow> Inr x)"

definition set_nullable :: "'a option \<Rightarrow> 'a option option \<Rightarrow> 'a option" where
  "set_nullable old v = (case v of None \<Rightarrow> old | Some x \<Rightarrow> x)"

fun set_texts :: "(string \<times> string option) list \<Rightarrow> (string \<Rightarrow> string option) \<Rightarrow> string \<Rightarrow> string option" where
  "set_texts [] t = t"
| "set_texts ((c, v) # cs) t = set_texts cs (t(c := v))"

definition create_supplier ::
    "'h purchasing_db \<Rightarrow> uuid \<Rightarrow> supplier_create \<Rightarrow> uuid \<Rightarrow> ('h purchasing_db \<times> supplier) result" where
  "create_supplier st org data actor =
     (let code = (case sc_code data of
            Some c \<Rightarrow> c
          | None \<Rightarrow> ''SUP-'' @ zero_pad 4 (digits (int (length (filter (\<lambda>s. su_org s = org) (suppliers st))) + 1)))
      in
      bindr (scalar_one_or_none (filter (\<lambda>s. su_org s = org \<and> su_code s = code) (suppliers st))) (\<lambda>existing.
      bindr (raise_if (existing \<noteq> None) (ConflictError ''Supplier code is already in use'')) (\<lambda>_.
        let s = \<lparr>su_id = doc_id st, su_org = org, su_code = code, su_name = sc_name data, su_gstin = sc_gstin data,
                 su_state_code = state_code_from_gstin (sc_gstin data), su_country = sc_country data,
                 su_terms = sc_terms data, su_currency = ''INR'', su_active = True,
                 su_text = set_texts (sc_text data) (\<lambda>_. None), su_deleted = None\<rparr>
        in bindr (add_supplier st s) (\<lambda>st1.
           Inr (audit_doc st1 SUPPLIER_CREATED INFO actor org ''supplier'' (su_id s), s)))))"

definition supplier_changed :: "supplier \<Rightarrow> supplier_update \<Rightarrow> bool" where
  "supplier_changed s data \<longleftrightarrow>
     (case uu_name data of None \<Rightarrow> False | Some v \<Rightarrow> v \<noteq> Some (su_name s)) \<or>
     (case uu_gstin data of None \<Rightarrow> False | Some v \<Rightarrow> v \<noteq> su_gstin s) \<or>
     (case uu_terms data of None \<Rightarrow> False | Some v \<Rightarrow> v \<noteq> Some (su_terms s)) \<or>
     (case uu_active data of None \<Rightarrow> False | Some v \<Rightarrow> v \<noteq> Some (su_active s)) \<or>
     (\<exists>(c, v) \<in> set (uu_text data). v \<noteq> su_text s c)"

definition update_supplier ::
    "'h purchasing_db \<Rightarrow> uuid \<Rightarrow> uuid \<Rightarrow> supplier_update \<Rightarrow> uuid \<Rightarrow> ('h purchasing_db \<times> supplier) result" where
  "update_supplier st org i data actor =
     bindr (get_supplier st org i) (\<lambda>s.
     bindr (set_required (su_name s) (uu_name data)) (\<lambda>name.
     bindr (set_required (su_terms s) (uu_terms data)) (\<lambda>terms.
     bindr (set_required (su_active s) (uu_active data)) (\<lambda>active.
       let gstin = set_nullable (su_gstin s) (uu_gstin data);
           s' = s\<lparr>su_name := name, su_gstin := gstin, su_terms := terms, su_active := active,
                  su_text := set_texts (uu_text data) (su_text s),
                  su_state_code := (if gstin \<noteq> su_gstin s then state_code_from_gstin gstin else su_state_code s)\<rparr>
       in bindr (save_supplier st s') (\<lambda>st1.
          Inr (if supplier_changed s data then audit_doc st1 SUPPLIER_UPDATED INFO actor org ''supplier'' (su_id s) else st1,
               s'))))))"

section \<open>Products\<close>

record product_create =
  pc_sku :: "string option"
  pc_name :: string
  pc_description :: "string option"
  pc_barcode :: "string option"
  pc_kind :: product_kind
  pc_hsn :: "string option"
  pc_unit :: string
  pc_tax_rate :: decimal
  pc_sale_price :: decimal
  pc_purchase_price :: decimal
  pc_reorder_level :: decimal
  pc_revenue_account :: "uuid option"
  pc_inventory_account :: "uuid option"
  pc_cogs_account :: "uuid option"

record product_update =
  up_name :: "string option option"
  up_description :: "string option option"
  up_barcode :: "string option option"
  up_hsn :: "string option option"
  up_unit :: "string option option"
  up_tax_rate :: "decimal option option"
  up_sale_price :: "decimal option option"
  up_purchase_price :: "decimal option option"
  up_reorder_level :: "decimal option option"
  up_revenue_account :: "uuid option option"
  up_inventory_account :: "uuid option option"
  up_cogs_account :: "uuid option option"
  up_active :: "bool option option"

definition create_product ::
    "'h purchasing_db \<Rightarrow> uuid \<Rightarrow> product_create \<Rightarrow> uuid \<Rightarrow> ('h purchasing_db \<times> product) result" where
  "create_product st org data actor =
     (let sku = (case pc_sku data of
            Some c \<Rightarrow> c
          | None \<Rightarrow> ''SKU-'' @ zero_pad 5 (digits (int (length (filter (\<lambda>p. pr_org p = org) (products st))) + 1)))
      in
      bindr (scalar_one_or_none (filter (\<lambda>p. pr_org p = org \<and> pr_sku p = sku) (products st))) (\<lambda>clash.
      bindr (raise_if (clash \<noteq> None) (ConflictError ''SKU is already in use'')) (\<lambda>_.
      bindr (case pc_barcode data of
               None \<Rightarrow> Inr ()
             | Some b \<Rightarrow>
                 if b = [] then Inr () else
                 bindr (scalar_one_or_none
                   (filter (\<lambda>p. pr_org p = org \<and> pr_barcode p = Some b \<and> pr_deleted p = None) (products st))) (\<lambda>taken.
                 raise_if (taken \<noteq> None) (ConflictError ''Barcode is already assigned''))) (\<lambda>_.
        let p = \<lparr>pr_id = doc_id st, pr_org = org, pr_sku = sku, pr_name = pc_name data,
                 pr_description = pc_description data, pr_barcode = pc_barcode data, pr_kind = pc_kind data,
                 pr_hsn = pc_hsn data, pr_unit = pc_unit data, pr_tax_rate = pc_tax_rate data,
                 pr_sale_price = pc_sale_price data, pr_purchase_price = pc_purchase_price data,
                 pr_reorder_level = pc_reorder_level data, pr_revenue_account = pc_revenue_account data,
                 pr_inventory_account = pc_inventory_account data, pr_cogs_account = pc_cogs_account data,
                 pr_active = True, pr_deleted = None\<rparr>
        in bindr (add_product st p) (\<lambda>st1.
           Inr (audit_doc st1 PRODUCT_CREATED INFO actor org ''product'' (pr_id p), p))))))"

definition update_product ::
    "'h purchasing_db \<Rightarrow> uuid \<Rightarrow> uuid \<Rightarrow> product_update \<Rightarrow> uuid \<Rightarrow> ('h purchasing_db \<times> product) result" where
  "update_product st org i data actor =
     bindr (get_product st org i) (\<lambda>p.
     bindr (set_required (pr_name p) (up_name data)) (\<lambda>name.
     bindr (set_required (pr_unit p) (up_unit data)) (\<lambda>unit.
     bindr (set_required (pr_tax_rate p) (up_tax_rate data)) (\<lambda>rate.
     bindr (set_required (pr_sale_price p) (up_sale_price data)) (\<lambda>sale.
     bindr (set_required (pr_purchase_price p) (up_purchase_price data)) (\<lambda>purchase.
     bindr (set_required (pr_reorder_level p) (up_reorder_level data)) (\<lambda>reorder.
     bindr (set_required (pr_active p) (up_active data)) (\<lambda>active.
       let p' = p\<lparr>pr_name := name, pr_description := set_nullable (pr_description p) (up_description data),
                  pr_barcode := set_nullable (pr_barcode p) (up_barcode data), pr_hsn := set_nullable (pr_hsn p) (up_hsn data),
                  pr_unit := unit, pr_tax_rate := rate, pr_sale_price := sale, pr_purchase_price := purchase,
                  pr_reorder_level := reorder, pr_revenue_account := set_nullable (pr_revenue_account p) (up_revenue_account data),
                  pr_inventory_account := set_nullable (pr_inventory_account p) (up_inventory_account data),
                  pr_cogs_account := set_nullable (pr_cogs_account p) (up_cogs_account data), pr_active := active\<rparr>
       in bindr (save_product st p') (\<lambda>st1.
          Inr (audit_doc st1 PRODUCT_UPDATED INFO actor org ''product'' (pr_id p), p'))))))))))"

section \<open>Purchase orders\<close>

record order_create =
  oc_supplier :: uuid
  oc_warehouse :: "uuid option"
  oc_date :: "date option"
  oc_expected :: "date option"
  oc_lines :: "purchase_line_input list"
  oc_round_to_whole :: bool

definition get_order :: "'h purchasing_db \<Rightarrow> uuid \<Rightarrow> uuid \<Rightarrow> purchase_order result" where
  "get_order st org i =
     bindr (scalar_one_or_none (filter (\<lambda>x. po_id x = i \<and> po_org x = org \<and> po_deleted x = None) (orders st))) (\<lambda>found.
     case found of None \<Rightarrow> Inl (NotFoundError ''Purchase order'') | Some x \<Rightarrow> Inr x)"

fun new_order_lines :: "uuid \<Rightarrow> purchase_line list \<Rightarrow> order_line list" where
  "new_order_lines i [] = []"
| "new_order_lines i (l # ls) = \<lparr>ol_id = i, ol_line = l, ol_received = 0\<rparr> # new_order_lines (i + 1) ls"

definition create_order ::
    "'h purchasing_db \<Rightarrow> uuid \<Rightarrow> order_create \<Rightarrow> uuid \<Rightarrow> date \<Rightarrow> string option \<Rightarrow> ('h purchasing_db \<times> purchase_order) result" where
  "create_order st org data actor today org_gstin =
     bindr (get_supplier st org (oc_supplier data)) (\<lambda>s.
       let treatment = supplier_treatment org_gstin s in
     bindr (document_number st org ''purchase_order'' ''PO'' today) (\<lambda>(st1, number).
       let x = \<lparr>po_id = doc_id st1, po_org = org, po_number = number, po_supplier = su_id s,
                po_warehouse = oc_warehouse data,
                po_date = (case oc_date data of Some d \<Rightarrow> d | None \<Rightarrow> today), po_expected = oc_expected data,
                po_status = O_DRAFT, po_approved_at = None, po_approved_by = None, po_cancelled_at = None,
                po_treatment = treatment, po_currency = su_currency s,
                po_totals = totals_of treatment (oc_lines data) (oc_round_to_whole data),
                po_created_by = actor, po_deleted = None,
                po_lines = new_order_lines (doc_id st1 + 1) (apply_lines treatment 1 (oc_lines data))\<rparr>
       in bindr (add_order st1 x) (\<lambda>st2.
          Inr (audit_doc ((take_doc_id ^^ length (po_lines x)) st2) PURCHASE_ORDER_CREATED INFO actor org
                 ''purchase_order'' (po_id x), x))))"

definition approve_order ::
    "'h purchasing_db \<Rightarrow> uuid \<Rightarrow> uuid \<Rightarrow> uuid \<Rightarrow> instant \<Rightarrow> ('h purchasing_db \<times> purchase_order) result" where
  "approve_order st org i actor now =
     bindr (get_order st org i) (\<lambda>x.
     bindr (raise_if (po_status x \<notin> set [O_DRAFT, O_PENDING_APPROVAL]) (ConflictError ''This order is already processed'')) (\<lambda>_.
       let x' = x\<lparr>po_status := O_APPROVED, po_approved_at := Some now, po_approved_by := Some actor\<rparr> in
     bindr (save_order st x') (\<lambda>st1.
     Inr (audit_doc st1 PURCHASE_ORDER_APPROVED INFO actor org ''purchase_order'' (po_id x), x'))))"

definition cancel_order ::
    "'h purchasing_db \<Rightarrow> uuid \<Rightarrow> uuid \<Rightarrow> uuid \<Rightarrow> instant \<Rightarrow> ('h purchasing_db \<times> purchase_order) result" where
  "cancel_order st org i actor now =
     bindr (get_order st org i) (\<lambda>x.
     bindr (raise_if (\<exists>l \<in> set (po_lines x). 0 < ol_received l)
       (BusinessRuleError ''Goods have been received against this order'')) (\<lambda>_.
       let x' = x\<lparr>po_status := O_CANCELLED, po_cancelled_at := Some now\<rparr> in
     bindr (save_order st x') (\<lambda>st1.
     Inr (audit_doc st1 PURCHASE_ORDER_CANCELLED WARNING actor org ''purchase_order'' (po_id x), x'))))"

section \<open>The reorder report\<close>

record reorder_row =
  rr_product :: uuid
  rr_sku :: string
  rr_name :: string
  rr_on_hand :: decimal
  rr_level :: decimal
  rr_shortfall :: decimal

definition on_hand :: "'h purchasing_db \<Rightarrow> uuid \<Rightarrow> decimal" where
  "on_hand st product_id =
     sum_list (map sl_quantity (filter (\<lambda>l. sl_product l = product_id) (levels (stock st))))"

definition reorder_report :: "'h purchasing_db \<Rightarrow> uuid \<Rightarrow> reorder_row list" where
  "reorder_report st org =
     map (\<lambda>p. \<lparr>rr_product = pr_id p, rr_sku = pr_sku p, rr_name = pr_name p, rr_on_hand = on_hand st (pr_id p),
                rr_level = pr_reorder_level p, rr_shortfall = pr_reorder_level p - on_hand st (pr_id p)\<rparr>)
       (sort_key pr_name (filter (\<lambda>p. pr_org p = org \<and> pr_deleted p = None \<and> pr_active p \<and> pr_kind p = STOCKED \<and>
          0 < pr_reorder_level p \<and> on_hand st (pr_id p) \<le> pr_reorder_level p) (products st)))"

end
