(* ===== verification/Receiving.thy ===== *)
theory Receiving
  imports Purchasing
begin

text \<open>
  \<^verbatim>\<open>GoodsReceiptService\<close> of \<^verbatim>\<open>purchasing/receiving.py\<close>: goods receipts, their posting (stock in, accrual
  recognised, purchase order rolled forward) and their cancellation. A loop over the lines of a receipt is
  a recursive function that threads the state.
\<close>

section \<open>Requests\<close>

record receipt_line_input =
  ri_product :: uuid
  ri_order_line :: "uuid option"
  ri_quantity :: decimal
  ri_unit_cost :: decimal
  ri_rejected :: decimal
  ri_notes :: "string option"

record receipt_create =
  rc_supplier :: uuid
  rc_order :: "uuid option"
  rc_warehouse :: "uuid option"
  rc_date :: "date option"
  rc_reference :: "string option"
  rc_lines :: "receipt_line_input list"
  rc_notes :: "string option"
  rc_post :: bool

definition cost_ok :: "decimal \<Rightarrow> bool" where
  "cost_ok c \<longleftrightarrow> 0 \<le> c \<and> on_grid 6 c \<and> c < 10 ^ 12"

definition validate_receipt_line :: "receipt_line_input \<Rightarrow> unit result" where
  "validate_receipt_line i =
     bindr (raise_if (\<not> (0 < ri_quantity i \<and> money_ok (ri_quantity i))) (SchemaError ''quantity'')) (\<lambda>_.
     bindr (raise_if (\<not> cost_ok (ri_unit_cost i)) (SchemaError ''unit_cost'')) (\<lambda>_.
     bindr (raise_if (\<not> (0 \<le> ri_rejected i \<and> money_ok (ri_rejected i))) (SchemaError ''rejected_quantity'')) (\<lambda>_.
     raise_if (ri_rejected i > ri_quantity i) (SchemaError ''rejected_quantity cannot exceed quantity''))))"

definition validate_receipt_create :: "receipt_create \<Rightarrow> unit result" where
  "validate_receipt_create d =
     bindr (raise_if (rc_lines d = []) (SchemaError ''at least one line'')) (\<lambda>_. each validate_receipt_line (rc_lines d))"

section \<open>Lookups\<close>

definition get_receipt :: "'h purchasing_db \<Rightarrow> uuid \<Rightarrow> uuid \<Rightarrow> goods_receipt result" where
  "get_receipt st org i =
     bindr (scalar_one_or_none (filter (\<lambda>g. gr_id g = i \<and> gr_org g = org \<and> gr_deleted g = None) (receipts st))) (\<lambda>found.
     case found of None \<Rightarrow> Inl (NotFoundError ''Goods receipt'') | Some g \<Rightarrow> Inr g)"

text \<open>The relationships of a row: a foreign key names an existing row, whatever its state.\<close>

definition warehouse_of :: "'h purchasing_db \<Rightarrow> uuid \<Rightarrow> warehouse result" where
  "warehouse_of st i =
     (case first_or_none (filter (\<lambda>w. wh_id w = i) (warehouses (stock st))) of
        None \<Rightarrow> Inl AssertionError
      | Some w \<Rightarrow> Inr w)"

definition supplier_name :: "'h purchasing_db \<Rightarrow> uuid \<Rightarrow> string" where
  "supplier_name st i = (case first_or_none (filter (\<lambda>s. su_id s = i) (suppliers st)) of None \<Rightarrow> [] | Some s \<Rightarrow> su_name s)"

section \<open>Purchase orders rolled forward\<close>

text \<open>\<^verbatim>\<open>session.get(PurchaseOrderLine, id)\<close> and the assignment to its \<^verbatim>\<open>received_quantity\<close>.\<close>

definition roll_lines :: "uuid \<Rightarrow> (decimal \<Rightarrow> decimal) \<Rightarrow> order_line list \<Rightarrow> order_line list" where
  "roll_lines i f ls = update_where (\<lambda>l. ol_id l = i) (ol_received_update f) ls"

definition roll_order_line :: "'h purchasing_db \<Rightarrow> uuid option \<Rightarrow> (decimal \<Rightarrow> decimal) \<Rightarrow> 'h purchasing_db result" where
  "roll_order_line st ref f =
     (case ref of
        None \<Rightarrow> Inr st
      | Some i \<Rightarrow>
          let os = map (\<lambda>x. x\<lparr>po_lines := roll_lines i f (po_lines x)\<rparr>) (orders st) in
          bindr (raise_if (\<exists>x \<in> set os. \<exists>l \<in> set (po_lines x). \<not> (0 \<le> ol_received l \<and> fits (ol_received l)))
            (IntegrityError ''received_non_negative'')) (\<lambda>_.
          Inr (st\<lparr>orders := os\<rparr>)))"

definition refreshed_status :: "purchase_order \<Rightarrow> order_status" where
  "refreshed_status x =
     (if list_all is_fully_received (po_lines x) then O_RECEIVED
      else if list_ex (\<lambda>l. 0 < ol_received l) (po_lines x) then O_PARTIALLY_RECEIVED
      else po_status x)"

definition refresh_order_status :: "'h purchasing_db \<Rightarrow> uuid option \<Rightarrow> 'h purchasing_db result" where
  "refresh_order_status st order_id =
     (case order_id of
        None \<Rightarrow> Inr st
      | Some i \<Rightarrow>
          bindr (scalar_one_or_none (filter (\<lambda>x. po_id x = i) (orders st))) (\<lambda>found.
          case found of
            None \<Rightarrow> Inr st
          | Some x \<Rightarrow>
              if po_status x = O_CANCELLED then Inr st
              else Inr (st\<lparr>orders := update_where (\<lambda>y. po_id y = i) (po_status_update (\<lambda>_. refreshed_status x)) (orders st)\<rparr>)))"

section \<open>Posting\<close>

definition receipt_movement :: "goods_receipt \<Rightarrow> receipt_line \<Rightarrow> uuid \<Rightarrow> movement_args" where
  "receipt_movement g l actor =
     \<lparr>ma_kind = RECEIPT, ma_quantity = accepted_quantity l, ma_unit_cost = Some (gl_unit_cost l),
      ma_date = gr_date g, ma_actor = actor, ma_source_type = Some ''goods_receipt'', ma_source_id = Some (gr_id g),
      ma_reference = Some (gr_number g), ma_notes = None, ma_entry = None, ma_reverses = None\<rparr>"

text \<open>One round of the loop of \<^verbatim>\<open>post\<close>: the new state and what the line adds to the posted value.\<close>

definition receive_line ::
    "'h purchasing_db \<Rightarrow> uuid \<Rightarrow> goods_receipt \<Rightarrow> warehouse \<Rightarrow> receipt_line \<Rightarrow> uuid \<Rightarrow> instant \<Rightarrow>
     ('h purchasing_db \<times> decimal) result" where
  "receive_line st org g w l actor now =
     (if accepted_quantity l \<le> 0 then Inr (st, 0) else
      bindr (get_product st org (gl_product l)) (\<lambda>p.
      bindr (record_movement (stock st) org p w (receipt_movement g l actor) now) (\<lambda>(s, m).
      bindr (roll_order_line (st\<lparr>stock := s\<rparr>) (gl_order_line l) (\<lambda>r. r + accepted_quantity l)) (\<lambda>st1.
      Inr (st1, round_value (dmul (accepted_quantity l) (gl_unit_cost l)))))))"

fun receive_lines ::
    "'h purchasing_db \<Rightarrow> uuid \<Rightarrow> goods_receipt \<Rightarrow> warehouse \<Rightarrow> receipt_line list \<Rightarrow> uuid \<Rightarrow> instant \<Rightarrow>
     ('h purchasing_db \<times> decimal) result" where
  "receive_lines st org g w [] actor now = Inr (st, 0)"
| "receive_lines st org g w (l # ls) actor now =
     bindr (receive_line st org g w l actor now) (\<lambda>(st1, v).
     bindr (receive_lines st1 org g w ls actor now) (\<lambda>(st2, vs).
     Inr (st2, v + vs)))"

text \<open>Building a journal entry payload and posting it, as receipts, bills and payments do.\<close>

definition post_document_entry ::
    "'h hooks \<Rightarrow> 'h purchasing_db \<Rightarrow> uuid \<Rightarrow> entry_create \<Rightarrow> uuid \<Rightarrow> string \<Rightarrow> uuid \<Rightarrow> instant \<Rightarrow>
     ('h purchasing_db \<times> journal_entry) result" where
  "post_document_entry hs st org data actor source_type source_id now =
     bindr (validate_entry_create data) (\<lambda>_.
     bindr (create_entry hs (ledger st) org data actor (Some source_type) (Some source_id) now) (\<lambda>(b, e).
     Inr (set_ledger st b, e)))"

definition first_text :: "string option \<Rightarrow> string \<Rightarrow> string" where
  "first_text t fallback = (case t of None \<Rightarrow> fallback | Some x \<Rightarrow> if x = [] then fallback else x)"

definition accrual_entry :: "'h purchasing_db \<Rightarrow> goods_receipt \<Rightarrow> uuid \<Rightarrow> uuid \<Rightarrow> uuid \<Rightarrow> decimal \<Rightarrow> entry_create" where
  "accrual_entry st g journal inventory grni value =
     \<lparr>ec_journal = journal, ec_date = gr_date g,
      ec_narration = ''Goods received '' @ gr_number g @ '' - '' @ supplier_name st (gr_supplier g),
      ec_reference = Some (first_text (gr_reference g) (gr_number g)), ec_counterparty = None,
      ec_lines = [\<lparr>li_account = inventory, li_debit = value, li_credit = 0, li_description = Some ''Stock received''\<rparr>,
                  \<lparr>li_account = grni, li_debit = 0, li_credit = value, li_description = Some ''Awaiting supplier invoice''\<rparr>],
      ec_post = True\<rparr>"

definition post_accrual ::
    "'h hooks \<Rightarrow> 'h purchasing_db \<Rightarrow> uuid \<Rightarrow> goods_receipt \<Rightarrow> decimal \<Rightarrow> uuid \<Rightarrow> instant \<Rightarrow>
     ('h purchasing_db \<times> uuid option) result" where
  "post_accrual hs st org g value actor now =
     (if value > 0 then
        bindr (resolve_system_account (ledger st) org ''inventory'') (\<lambda>inventory.
        bindr (resolve_system_account (ledger st) org ''grni'') (\<lambda>grni.
        case get_by_type (ledger st) org PURCHASE of
          None \<Rightarrow> Inl (BusinessRuleError ''No purchase journal is configured'')
        | Some j \<Rightarrow>
            bindr (post_document_entry hs st org (accrual_entry st g (j_id j) (a_id inventory) (a_id grni) value)
              actor ''goods_receipt'' (gr_id g) now) (\<lambda>(st1, e).
            Inr (st1, Some (e_id e)))))
      else Inr (st, gr_entry g))"

definition post_receipt ::
    "'h hooks \<Rightarrow> 'h purchasing_db \<Rightarrow> uuid \<Rightarrow> uuid \<Rightarrow> uuid \<Rightarrow> instant \<Rightarrow> ('h purchasing_db \<times> goods_receipt) result" where
  "post_receipt hs st org i actor now =
     bindr (get_receipt st org i) (\<lambda>g.
     bindr (raise_if (gr_status g = G_POSTED) (ConflictError ''Goods receipt is already posted'')) (\<lambda>_.
     bindr (raise_if (gr_status g = G_CANCELLED) (BusinessRuleError ''A cancelled receipt cannot be posted'')) (\<lambda>_.
     bindr (warehouse_of st (gr_warehouse g)) (\<lambda>w.
     bindr (receive_lines st org g w (gr_lines g) actor now) (\<lambda>(st1, value).
     bindr (post_accrual hs st1 org g value actor now) (\<lambda>(st2, entry).
       let g' = g\<lparr>gr_entry := entry, gr_status := G_POSTED, gr_posted_at := Some now, gr_total_cost := round_value value\<rparr> in
     bindr (refresh_order_status st2 (gr_order g)) (\<lambda>st3.
     bindr (save_receipt st3 g') (\<lambda>st4.
     Inr (audit_doc st4 GOODS_RECEIPT_POSTED INFO actor org ''goods_receipt'' (gr_id g), g')))))))))"

section \<open>Creation\<close>

fun new_receipt_lines ::
    "'h purchasing_db \<Rightarrow> uuid \<Rightarrow> int \<Rightarrow> receipt_line_input list \<Rightarrow> receipt_line list result" where
  "new_receipt_lines st org index [] = Inr []"
| "new_receipt_lines st org index (i # is) =
     bindr (get_product st org (ri_product i)) (\<lambda>p.
     bindr (raise_if (\<not> tracks_stock p) (BusinessRuleError ''This product cannot be received into stock'')) (\<lambda>_.
     bindr (new_receipt_lines st org (index + 1) is) (\<lambda>ls.
     Inr (\<lparr>gl_number = index, gl_product = pr_id p, gl_order_line = ri_order_line i, gl_quantity = ri_quantity i,
           gl_unit_cost = ri_unit_cost i, gl_total_cost = round_value (dmul (ri_quantity i) (ri_unit_cost i)),
           gl_rejected = ri_rejected i, gl_notes = ri_notes i\<rparr> # ls))))"

definition create_receipt ::
    "'h hooks \<Rightarrow> 'h purchasing_db \<Rightarrow> uuid \<Rightarrow> receipt_create \<Rightarrow> uuid \<Rightarrow> date \<Rightarrow> instant \<Rightarrow>
     ('h purchasing_db \<times> goods_receipt) result" where
  "create_receipt hs st org data actor today now =
     bindr (get_supplier st org (rc_supplier data)) (\<lambda>s.
     bindr (get_warehouse (stock st) org (rc_warehouse data)) (\<lambda>(k, w).
     bindr (document_number (st\<lparr>stock := k\<rparr>) org ''goods_receipt'' ''GRN'' today) (\<lambda>(st1, number).
     bindr (new_receipt_lines st1 org 1 (rc_lines data)) (\<lambda>ls.
       let g = \<lparr>gr_id = doc_id st1, gr_org = org, gr_number = number, gr_supplier = su_id s, gr_order = rc_order data,
                gr_warehouse = wh_id w, gr_date = (case rc_date data of Some d \<Rightarrow> d | None \<Rightarrow> today),
                gr_reference = rc_reference data, gr_status = G_DRAFT,
                gr_total_cost = round_value (sum_list (map gl_total_cost ls)), gr_entry = None, gr_reversal = None,
                gr_posted_at = None, gr_cancelled_at = None, gr_notes = rc_notes data, gr_created_by = actor,
                gr_deleted = None, gr_lines = ls\<rparr>
       in
     bindr (add_receipt st1 g) (\<lambda>st2.
       let st3 = audit_doc st2 GOODS_RECEIPT_CREATED INFO actor org ''goods_receipt'' (gr_id g) in
     if rc_post data then post_receipt hs st3 org (gr_id g) actor now else Inr (st3, g))))))"

section \<open>Cancellation\<close>

definition cancel_movement :: "goods_receipt \<Rightarrow> receipt_line \<Rightarrow> string \<Rightarrow> uuid \<Rightarrow> movement_args" where
  "cancel_movement g l reason actor =
     \<lparr>ma_kind = REVERSAL, ma_quantity = accepted_quantity l, ma_unit_cost = Some (gl_unit_cost l),
      ma_date = gr_date g, ma_actor = actor, ma_source_type = Some ''goods_receipt_cancellation'',
      ma_source_id = Some (gr_id g), ma_reference = None, ma_notes = Some reason, ma_entry = None, ma_reverses = None\<rparr>"

definition return_line ::
    "'h purchasing_db \<Rightarrow> uuid \<Rightarrow> goods_receipt \<Rightarrow> warehouse \<Rightarrow> receipt_line \<Rightarrow> string \<Rightarrow> uuid \<Rightarrow> instant \<Rightarrow>
     'h purchasing_db result" where
  "return_line st org g w l reason actor now =
     (if accepted_quantity l \<le> 0 then Inr st else
      bindr (get_product st org (gl_product l)) (\<lambda>p.
      bindr (record_movement (stock st) org p w (cancel_movement g l reason actor) now) (\<lambda>(s, m).
      roll_order_line (st\<lparr>stock := s\<rparr>) (gl_order_line l) (\<lambda>r. max 0 (r - accepted_quantity l)))))"

fun return_lines ::
    "'h purchasing_db \<Rightarrow> uuid \<Rightarrow> goods_receipt \<Rightarrow> warehouse \<Rightarrow> receipt_line list \<Rightarrow> string \<Rightarrow> uuid \<Rightarrow> instant \<Rightarrow>
     'h purchasing_db result" where
  "return_lines st org g w [] reason actor now = Inr st"
| "return_lines st org g w (l # ls) reason actor now =
     bindr (return_line st org g w l reason actor now) (\<lambda>st1. return_lines st1 org g w ls reason actor now)"

definition reverse_document_entry ::
    "'h hooks \<Rightarrow> 'h purchasing_db \<Rightarrow> uuid \<Rightarrow> uuid \<Rightarrow> uuid \<Rightarrow> date option \<Rightarrow> string \<Rightarrow> instant \<Rightarrow>
     ('h purchasing_db \<times> journal_entry) result" where
  "reverse_document_entry hs st org entry_id actor reversal_date narration now =
     bindr (reverse_entry hs (ledger st) org entry_id actor reversal_date (Some narration) now) (\<lambda>(b, e).
     Inr (set_ledger st b, e))"

definition undo_receipt ::
    "'h hooks \<Rightarrow> 'h purchasing_db \<Rightarrow> uuid \<Rightarrow> goods_receipt \<Rightarrow> string \<Rightarrow> uuid \<Rightarrow> instant \<Rightarrow>
     ('h purchasing_db \<times> uuid option) result" where
  "undo_receipt hs st org g reason actor now =
     bindr (warehouse_of st (gr_warehouse g)) (\<lambda>w.
     bindr (return_lines st org g w (gr_lines g) reason actor now) (\<lambda>st1.
     case gr_entry g of
       None \<Rightarrow> Inr (st1, gr_reversal g)
     | Some entry_id \<Rightarrow>
         bindr (reverse_document_entry hs st1 org entry_id actor None
           (''Cancellation of '' @ gr_number g @ '': '' @ reason) now) (\<lambda>(st2, e).
         Inr (st2, Some (e_id e)))))"

definition cancel_receipt ::
    "'h hooks \<Rightarrow> 'h purchasing_db \<Rightarrow> uuid \<Rightarrow> uuid \<Rightarrow> string \<Rightarrow> uuid \<Rightarrow> instant \<Rightarrow> ('h purchasing_db \<times> goods_receipt) result" where
  "cancel_receipt hs st org i reason actor now =
     bindr (get_receipt st org i) (\<lambda>g.
     bindr (raise_if (gr_status g = G_CANCELLED) (ConflictError ''Goods receipt is already cancelled'')) (\<lambda>_.
     bindr (scalar_one_or_none (filter (\<lambda>b. bi_receipt b = Some (gr_id g) \<and> bi_deleted b = None) (bills st))) (\<lambda>billed.
     bindr (raise_if (billed \<noteq> None) (BusinessRuleError ''A bill references this receipt'')) (\<lambda>_.
     bindr (if gr_status g = G_POSTED then undo_receipt hs st org g reason actor now else Inr (st, gr_reversal g)) (\<lambda>(st1, reversal).
       let g' = g\<lparr>gr_reversal := reversal, gr_status := G_CANCELLED, gr_cancelled_at := Some now\<rparr> in
     bindr (save_receipt st1 g') (\<lambda>st2.
     Inr (audit_doc st2 GOODS_RECEIPT_CANCELLED WARNING actor org ''goods_receipt'' (gr_id g), g')))))))"

end
