(* ===== verification/Payables.thy ===== *)
theory Payables
  imports Receiving
begin

text \<open>
  \<^verbatim>\<open>BillService\<close> and \<^verbatim>\<open>SupplierPaymentService\<close> of \<^verbatim>\<open>purchasing/receiving.py\<close>: bills with their posting and
  cancellation, payments out with their allocation to bills, and the payables ageing of
  \<^verbatim>\<open>purchasing/router.py\<close>.
\<close>

section \<open>Requests\<close>

record bill_create =
  bc_supplier :: uuid
  bc_invoice_number :: "string option"
  bc_order :: "uuid option"
  bc_receipt :: "uuid option"
  bc_date :: "date option"
  bc_due :: "date option"
  bc_lines :: "purchase_line_input list"
  bc_round_to_whole :: bool
  bc_post :: bool

definition validate_bill_create :: "bill_create \<Rightarrow> unit result" where
  "validate_bill_create d =
     bindr (validate_line_inputs (bc_lines d)) (\<lambda>_.
     raise_if (case (bc_due d, bc_date d) of (Some due, Some issued) \<Rightarrow> due < issued | _ \<Rightarrow> False)
       (SchemaError ''due_date cannot be before bill_date''))"

record payment_create =
  yc_supplier :: uuid
  yc_date :: "date option"
  yc_amount :: decimal
  yc_method :: string
  yc_reference :: "string option"
  yc_source :: "uuid option"
  yc_allocations :: "(uuid \<times> decimal) list"

definition validate_amounts :: "(uuid \<times> decimal) list \<Rightarrow> unit result" where
  "validate_amounts as = each (\<lambda>(i, amount). raise_if (\<not> (0 < amount \<and> money_ok amount)) (SchemaError ''amount'')) as"

definition no_duplicates :: "(uuid \<times> decimal) list \<Rightarrow> unit result" where
  "no_duplicates as = raise_if (\<not> distinct (map fst as)) (SchemaError ''the same bill appears twice in allocations'')"

definition validate_allocations :: "(uuid \<times> decimal) list \<Rightarrow> unit result" where
  "validate_allocations as =
     bindr (validate_amounts as) (\<lambda>_.
     bindr (raise_if (as = []) (SchemaError ''at least one allocation'')) (\<lambda>_.
     no_duplicates as))"

definition validate_payment_create :: "payment_create \<Rightarrow> unit result" where
  "validate_payment_create d =
     bindr (raise_if (\<not> (0 < yc_amount d \<and> money_ok (yc_amount d))) (SchemaError ''amount'')) (\<lambda>_.
     bindr (validate_amounts (yc_allocations d)) (\<lambda>_.
     bindr (raise_if (sum_list (map snd (yc_allocations d)) > yc_amount d)
       (SchemaError ''allocations exceed the payment amount'')) (\<lambda>_.
     no_duplicates (yc_allocations d))))"

section \<open>Bills\<close>

definition get_bill :: "'h purchasing_db \<Rightarrow> uuid \<Rightarrow> uuid \<Rightarrow> bill result" where
  "get_bill st org i =
     bindr (scalar_one_or_none (filter (\<lambda>b. bi_id b = i \<and> bi_org b = org \<and> bi_deleted b = None) (bills st))) (\<lambda>found.
     case found of None \<Rightarrow> Inl (NotFoundError ''Bill'') | Some b \<Rightarrow> Inr b)"

definition line_debit_account :: "'h purchasing_db \<Rightarrow> uuid \<Rightarrow> bill_line \<Rightarrow> uuid result" where
  "line_debit_account st org l =
     (case bl_expense l of
        Some i \<Rightarrow> Inr i
      | None \<Rightarrow>
          bindr (case pl_product (bl_line l) of
                   None \<Rightarrow> Inr None
                 | Some i \<Rightarrow> bindr (get_product st org i) (\<lambda>p. Inr (Some p))) (\<lambda>product.
          case product of
            Some p \<Rightarrow>
              if pr_kind p = STOCKED then inventory_account_id (ledger st) org p
              else bindr (resolve_system_account (ledger st) org ''cost_of_goods_sold'') (\<lambda>a. Inr (a_id a))
          | None \<Rightarrow> bindr (resolve_system_account (ledger st) org ''cost_of_goods_sold'') (\<lambda>a. Inr (a_id a))))"

text \<open>The \<^verbatim>\<open>by_account\<close> dictionary, in the order its keys are first seen.\<close>

fun add_to :: "uuid \<Rightarrow> decimal \<Rightarrow> (uuid \<times> decimal) list \<Rightarrow> (uuid \<times> decimal) list" where
  "add_to a x [] = [(a, x)]"
| "add_to a x ((b, y) # ys) = (if b = a then (b, y + x) # ys else (b, y) # add_to a x ys)"

fun group_debits ::
    "'h purchasing_db \<Rightarrow> uuid \<Rightarrow> bill_line list \<Rightarrow> (uuid \<times> decimal) list \<Rightarrow> (uuid \<times> decimal) list result" where
  "group_debits st org [] acc = Inr acc"
| "group_debits st org (l # ls) acc =
     bindr (line_debit_account st org l) (\<lambda>a. group_debits st org ls (add_to a (taxable (pl_totals (bl_line l))) acc))"

definition debit_line :: "uuid \<Rightarrow> decimal \<Rightarrow> string \<Rightarrow> line_input" where
  "debit_line a amount text = \<lparr>li_account = a, li_debit = amount, li_credit = 0, li_description = Some text\<rparr>"

definition credit_line :: "uuid \<Rightarrow> decimal \<Rightarrow> string \<Rightarrow> line_input" where
  "credit_line a amount text = \<lparr>li_account = a, li_debit = 0, li_credit = amount, li_description = Some text\<rparr>"

definition cost_lines :: "'h purchasing_db \<Rightarrow> uuid \<Rightarrow> bill \<Rightarrow> line_input list result" where
  "cost_lines st org b =
     (case bi_receipt b of
        Some _ \<Rightarrow>
          bindr (resolve_system_account (ledger st) org ''grni'') (\<lambda>grni.
          Inr [debit_line (a_id grni) (taxable_total (bi_totals b)) ''Clearing goods received not invoiced''])
      | None \<Rightarrow>
          bindr (group_debits st org (bi_lines b) []) (\<lambda>grouped.
          Inr (map (\<lambda>(a, amount). debit_line a amount ''Purchase'') (filter (\<lambda>(a, amount). 0 < amount) grouped))))"

definition tax_lines :: "'h purchasing_db \<Rightarrow> uuid \<Rightarrow> bill \<Rightarrow> line_input list result" where
  "tax_lines st org b =
     (if 0 < tax_total (bi_totals b) then
        bindr (resolve_system_account (ledger st) org ''gst_input'') (\<lambda>gst.
        Inr (map (\<lambda>(label, amount). debit_line (a_id gst) amount (''Input '' @ label))
          (filter (\<lambda>(label, amount). 0 < amount)
            [(''CGST'', cgst_total (bi_totals b)), (''SGST'', sgst_total (bi_totals b)), (''IGST'', igst_total (bi_totals b))])))
      else Inr [])"

definition rounding_lines :: "'h purchasing_db \<Rightarrow> uuid \<Rightarrow> bill \<Rightarrow> line_input list result" where
  "rounding_lines st org b =
     (let r = round_off (bi_totals b) in
      if r \<noteq> 0 then
        bindr (resolve_system_account (ledger st) org ''rounding'') (\<lambda>a.
        Inr [if 0 < r then debit_line (a_id a) r ''Rounding'' else credit_line (a_id a) (- r) ''Rounding''])
      else Inr [])"

definition bill_entry :: "'h purchasing_db \<Rightarrow> uuid \<Rightarrow> bill \<Rightarrow> entry_create result" where
  "bill_entry st org b =
     (case get_by_type (ledger st) org PURCHASE of
        None \<Rightarrow> Inl (BusinessRuleError ''No purchase journal is configured'')
      | Some j \<Rightarrow>
          bindr (resolve_system_account (ledger st) org ''accounts_payable'') (\<lambda>payable.
          bindr (cost_lines st org b) (\<lambda>cost.
          bindr (tax_lines st org b) (\<lambda>tax.
          bindr (rounding_lines st org b) (\<lambda>rounding.
          Inr \<lparr>ec_journal = j_id j, ec_date = bi_date b,
               ec_narration = ''Bill '' @ bi_number b @ '' - '' @ supplier_name st (bi_supplier b),
               ec_reference = Some (first_text (bi_invoice_number b) (bi_number b)), ec_counterparty = None,
               ec_lines = cost @ tax @ rounding @
                 [credit_line (a_id payable) (grand_total (bi_totals b))
                    (supplier_name st (bi_supplier b) @ '' - '' @ bi_number b)],
               ec_post = True\<rparr>)))))"

definition post_bill ::
    "'h hooks \<Rightarrow> 'h purchasing_db \<Rightarrow> uuid \<Rightarrow> uuid \<Rightarrow> uuid \<Rightarrow> instant \<Rightarrow> ('h purchasing_db \<times> bill) result" where
  "post_bill hs st org i actor now =
     bindr (get_bill st org i) (\<lambda>b.
     bindr (raise_if (bill_is_posted (bi_status b)) (ConflictError ''Bill is already posted'')) (\<lambda>_.
     bindr (raise_if (bi_status b = B_CANCELLED) (BusinessRuleError ''A cancelled bill cannot be posted'')) (\<lambda>_.
     bindr (raise_if (grand_total (bi_totals b) \<le> 0) (BusinessRuleError ''A bill total must be positive'')) (\<lambda>_.
     bindr (bill_entry st org b) (\<lambda>data.
     bindr (post_document_entry hs st org data actor ''bill'' (bi_id b) now) (\<lambda>(st1, e).
       let b' = b\<lparr>bi_status := B_POSTED, bi_entry := Some (e_id e), bi_posted_at := Some now\<rparr> in
     bindr (save_bill st1 b') (\<lambda>st2.
     Inr (audit_doc st2 BILL_POSTED INFO actor org ''bill'' (bi_id b), b'))))))))"

definition create_bill ::
    "'h hooks \<Rightarrow> 'h purchasing_db \<Rightarrow> uuid \<Rightarrow> bill_create \<Rightarrow> uuid \<Rightarrow> date \<Rightarrow> string option \<Rightarrow> instant \<Rightarrow>
     ('h purchasing_db \<times> bill) result" where
  "create_bill hs st org data actor today org_gstin now =
     bindr (get_supplier st org (bc_supplier data)) (\<lambda>s.
     bindr (case bc_invoice_number data of
              None \<Rightarrow> Inr ()
            | Some n \<Rightarrow>
                if n = [] then Inr () else
                bindr (scalar_one_or_none (filter (\<lambda>b. bi_org b = org \<and> bi_supplier b = su_id s \<and>
                  bi_invoice_number b = Some n \<and> bi_deleted b = None) (bills st))) (\<lambda>duplicate.
                raise_if (duplicate \<noteq> None) (ConflictError ''Invoice is already entered''))) (\<lambda>_.
       let treatment = supplier_treatment org_gstin s;
           bill_date = (case bc_date data of Some d \<Rightarrow> d | None \<Rightarrow> today)
       in
     bindr (document_number st org ''bill'' ''BILL'' today) (\<lambda>(st1, number).
     bindr (case bc_due data of Some d \<Rightarrow> Inr d | None \<Rightarrow> due_date_for s bill_date) (\<lambda>due.
       let b = \<lparr>bi_id = doc_id st1, bi_org = org, bi_number = number, bi_invoice_number = bc_invoice_number data,
                bi_supplier = su_id s, bi_order = bc_order data, bi_receipt = bc_receipt data, bi_date = bill_date,
                bi_due = due,
                bi_status = B_DRAFT, bi_paid = 0, bi_treatment = treatment, bi_currency = su_currency s,
                bi_gstin = su_gstin s, bi_totals = totals_of treatment (bc_lines data) (bc_round_to_whole data),
                bi_entry = None, bi_reversal = None, bi_posted_at = None, bi_cancelled_at = None,
                bi_created_by = actor, bi_deleted = None,
                bi_lines = map2 (\<lambda>l i. \<lparr>bl_line = l, bl_expense = pi_expense i\<rparr>)
                  (apply_lines treatment 1 (bc_lines data)) (bc_lines data)\<rparr>
       in
     bindr (add_bill st1 b) (\<lambda>st2.
       let st3 = audit_doc st2 BILL_CREATED INFO actor org ''bill'' (bi_id b) in
     if bc_post data then post_bill hs st3 org (bi_id b) actor now else Inr (st3, b))))))"

definition cancel_bill ::
    "'h hooks \<Rightarrow> 'h purchasing_db \<Rightarrow> uuid \<Rightarrow> uuid \<Rightarrow> string \<Rightarrow> date option \<Rightarrow> uuid \<Rightarrow> instant \<Rightarrow>
     ('h purchasing_db \<times> bill) result" where
  "cancel_bill hs st org i reason cancellation_date actor now =
     bindr (get_bill st org i) (\<lambda>b.
     bindr (raise_if (bi_status b = B_CANCELLED) (ConflictError ''Bill is already cancelled'')) (\<lambda>_.
     bindr (raise_if (0 < bi_paid b) (BusinessRuleError ''This bill has payments against it'')) (\<lambda>_.
     bindr (case bi_entry b of
              Some entry_id \<Rightarrow>
                if bill_is_posted (bi_status b) then
                  bindr (reverse_document_entry hs st org entry_id actor cancellation_date
                    (''Cancellation of '' @ bi_number b @ '': '' @ reason) now) (\<lambda>(st1, e).
                  Inr (st1, Some (e_id e)))
                else Inr (st, bi_reversal b)
            | None \<Rightarrow> Inr (st, bi_reversal b)) (\<lambda>(st1, reversal).
       let b' = b\<lparr>bi_reversal := reversal, bi_status := B_CANCELLED, bi_cancelled_at := Some now\<rparr> in
     bindr (save_bill st1 b') (\<lambda>st2.
     Inr (audit_doc st2 BILL_CANCELLED WARNING actor org ''bill'' (bi_id b), b'))))))"

section \<open>Supplier payments\<close>

definition get_payment :: "'h purchasing_db \<Rightarrow> uuid \<Rightarrow> uuid \<Rightarrow> supplier_payment result" where
  "get_payment st org i =
     bindr (scalar_one_or_none (filter (\<lambda>p. sp_id p = i \<and> sp_org p = org \<and> sp_deleted p = None) (payments st))) (\<lambda>found.
     case found of None \<Rightarrow> Inl (NotFoundError ''Supplier payment'') | Some p \<Rightarrow> Inr p)"

definition attach_amount ::
    "'h purchasing_db \<Rightarrow> uuid list \<Rightarrow> supplier_payment \<Rightarrow> uuid \<Rightarrow> decimal \<Rightarrow> 'h purchasing_db result" where
  "attach_amount st existing p bill_id amount =
     (if bill_id \<in> set existing then
        (let as = update_where (\<lambda>a. al_payment a = sp_id p \<and> al_bill a = bill_id) (al_amount_update (\<lambda>x. x + amount)) (allocations st)
         in bindr (each (allocation_checks st) (filter (\<lambda>a. al_payment a = sp_id p \<and> al_bill a = bill_id) as)) (\<lambda>_.
            Inr (st\<lparr>allocations := as\<rparr>)))
      else add_allocation st \<lparr>al_id = doc_id st, al_payment = sp_id p, al_bill = bill_id, al_amount = amount\<rparr>)"

text \<open>One round of the loop of \<^verbatim>\<open>_apply\<close>; \<^verbatim>\<open>existing\<close> are the bills the payment was allocated to before it.\<close>

definition apply_one ::
    "'h purchasing_db \<Rightarrow> uuid \<Rightarrow> uuid list \<Rightarrow> supplier_payment \<Rightarrow> uuid \<Rightarrow> decimal \<Rightarrow>
     ('h purchasing_db \<times> supplier_payment) result" where
  "apply_one st org existing p bill_id amount =
     bindr (get_bill st org bill_id) (\<lambda>b.
     bindr (raise_if (bi_supplier b \<noteq> sp_supplier p) (ValidationError ''That bill belongs to a different supplier'')) (\<lambda>_.
     bindr (raise_if (\<not> bill_is_posted (bi_status b)) (BusinessRuleError ''Only a posted bill can be paid'')) (\<lambda>_.
     bindr (raise_if (amount > outstanding b) (BusinessRuleError ''The bill has less outstanding than was allocated'')) (\<lambda>_.
     bindr (attach_amount st existing p bill_id amount) (\<lambda>st1.
       let paid = b\<lparr>bi_paid := bi_paid b + amount\<rparr>;
           b' = paid\<lparr>bi_status := (if is_fully_paid paid then B_PAID else B_PARTIALLY_PAID)\<rparr>
       in bindr (save_bill st1 b') (\<lambda>st2.
          Inr (st2, p\<lparr>sp_unallocated := sp_unallocated p - amount\<rparr>)))))))"

fun apply_each ::
    "'h purchasing_db \<Rightarrow> uuid \<Rightarrow> uuid list \<Rightarrow> supplier_payment \<Rightarrow> (uuid \<times> decimal) list \<Rightarrow>
     ('h purchasing_db \<times> supplier_payment) result" where
  "apply_each st org existing p [] = Inr (st, p)"
| "apply_each st org existing p ((bill_id, amount) # as) =
     bindr (apply_one st org existing p bill_id amount) (\<lambda>(st1, p1). apply_each st1 org existing p1 as)"

definition apply_payment ::
    "'h purchasing_db \<Rightarrow> uuid \<Rightarrow> supplier_payment \<Rightarrow> (uuid \<times> decimal) list \<Rightarrow> uuid \<Rightarrow>
     ('h purchasing_db \<times> supplier_payment) result" where
  "apply_payment st org p as actor =
     bindr (raise_if (sum_list (map snd as) > sp_unallocated p) (BusinessRuleError ''More than the unallocated amount was requested'')) (\<lambda>_.
       let existing = map al_bill (filter (\<lambda>a. al_payment a = sp_id p) (allocations st)) in
     bindr (apply_each st org existing p as) (\<lambda>(st1, p').
     bindr (save_payment st1 p') (\<lambda>st2.
     Inr (audit_doc st2 SUPPLIER_PAYMENT_ALLOCATED INFO actor org ''supplier_payment'' (sp_id p), p'))))"

definition allocate ::
    "'h purchasing_db \<Rightarrow> uuid \<Rightarrow> uuid \<Rightarrow> (uuid \<times> decimal) list \<Rightarrow> uuid \<Rightarrow> ('h purchasing_db \<times> supplier_payment) result" where
  "allocate st org i as actor = bindr (get_payment st org i) (\<lambda>p. apply_payment st org p as actor)"

definition payment_source :: "'h purchasing_db \<Rightarrow> uuid \<Rightarrow> payment_create \<Rightarrow> account result" where
  "payment_source st org data =
     (case yc_source data of
        Some i \<Rightarrow>
          bindr (get_account (ledger st) org i) (\<lambda>a.
          bindr (raise_if (\<not> is_postable a) (ValidationError ''The source account must be postable'')) (\<lambda>_. Inr a))
      | None \<Rightarrow> resolve_system_account (ledger st) org (if yc_method data = ''cash'' then ''cash'' else ''bank''))"

definition payment_entry :: "payment_create \<Rightarrow> supplier \<Rightarrow> supplier_payment \<Rightarrow> uuid \<Rightarrow> uuid \<Rightarrow> uuid \<Rightarrow> entry_create" where
  "payment_entry data s p journal payable source =
     \<lparr>ec_journal = journal, ec_date = sp_date p, ec_narration = ''Payment '' @ sp_number p @ '' - '' @ su_name s,
      ec_reference = Some (first_text (yc_reference data) (sp_number p)), ec_counterparty = None,
      ec_lines = [debit_line payable (sp_amount p) (su_name s), credit_line source (sp_amount p) ''Payment made''],
      ec_post = True\<rparr>"

definition pay ::
    "'h hooks \<Rightarrow> 'h purchasing_db \<Rightarrow> uuid \<Rightarrow> payment_create \<Rightarrow> uuid \<Rightarrow> date \<Rightarrow> instant \<Rightarrow>
     ('h purchasing_db \<times> supplier_payment) result" where
  "pay hs st org data actor today now =
     bindr (get_supplier st org (yc_supplier data)) (\<lambda>s.
     bindr (payment_source st org data) (\<lambda>source.
     bindr (document_number st org ''supplier_payment'' ''PAY'' today) (\<lambda>(st1, number).
       let p = \<lparr>sp_id = doc_id st1, sp_org = org, sp_number = number, sp_supplier = su_id s,
                sp_date = (case yc_date data of Some d \<Rightarrow> d | None \<Rightarrow> today), sp_amount = yc_amount data,
                sp_unallocated = yc_amount data, sp_method = yc_method data, sp_reference = yc_reference data,
                sp_currency = su_currency s, sp_source = Some (a_id source), sp_entry = None,
                sp_created_by = actor, sp_deleted = None\<rparr>
       in
     bindr (add_payment st1 p) (\<lambda>st2.
     bindr (resolve_system_account (ledger st2) org ''accounts_payable'') (\<lambda>payable.
     case get_by_type (ledger st2) org (if yc_method data = ''cash'' then CASH else BANK) of
       None \<Rightarrow> Inl (BusinessRuleError ''No journal of this type is configured'')
     | Some j \<Rightarrow>
         bindr (post_document_entry hs st2 org (payment_entry data s p (j_id j) (a_id payable) (a_id source))
           actor ''supplier_payment'' (sp_id p) now) (\<lambda>(st3, e).
           let p1 = p\<lparr>sp_entry := Some (e_id e)\<rparr> in
         bindr (save_payment st3 p1) (\<lambda>st4.
         bindr (if yc_allocations data \<noteq> [] then apply_payment st4 org p1 (yc_allocations data) actor
                else Inr (st4, p1)) (\<lambda>(st5, p2).
         Inr (audit_doc st5 SUPPLIER_PAYMENT_MADE INFO actor org ''supplier_payment'' (sp_id p), p2)))))))))"

section \<open>Payables ageing\<close>

record ageing_bucket =
  ab_label :: string
  ab_amount :: decimal
  ab_count :: nat

record payables_ageing_report =
  pa_as_of :: date
  pa_buckets :: "ageing_bucket list"
  pa_total_outstanding :: decimal
  pa_total_overdue :: decimal

definition ageing_buckets :: "(string \<times> int \<times> int) list" where
  "ageing_buckets =
     [(''Current'', - 10000, 0), (''1-30 days'', 1, 30), (''31-60 days'', 31, 60), (''61-90 days'', 61, 90),
      (''90+ days'', 91, 10000)]"

fun bucket_of :: "(string \<times> int \<times> int) list \<Rightarrow> int \<Rightarrow> string option" where
  "bucket_of [] days = None"
| "bucket_of ((label, low, high) # bs) days = (if low \<le> days \<and> days \<le> high then Some label else bucket_of bs days)"

definition open_bills :: "'h purchasing_db \<Rightarrow> uuid \<Rightarrow> bill list" where
  "open_bills st org =
     filter (\<lambda>b. bi_org b = org \<and> bi_deleted b = None \<and> bi_status b \<in> set [B_POSTED, B_PARTIALLY_PAID] \<and>
       bi_paid b < grand_total (bi_totals b)) (bills st)"

definition payables_ageing :: "'h purchasing_db \<Rightarrow> uuid \<Rightarrow> date option \<Rightarrow> date \<Rightarrow> payables_ageing_report" where
  "payables_ageing st org as_of today =
     (let effective = (case as_of of Some d \<Rightarrow> d | None \<Rightarrow> today);
          items = map (\<lambda>(label, low, high).
              let bs = filter (\<lambda>b. bucket_of ageing_buckets (effective - bi_due b) = Some label) (open_bills st org)
              in \<lparr>ab_label = label, ab_amount = sum_list (map outstanding bs), ab_count = length bs\<rparr>) ageing_buckets
      in \<lparr>pa_as_of = effective, pa_buckets = items, pa_total_outstanding = sum_list (map ab_amount items),
          pa_total_overdue = sum_list (map ab_amount (filter (\<lambda>b. ab_label b \<noteq> ''Current'') items))\<rparr>)"

end
