(* ===== verification/Purchasing_Properties.thy ===== *)
theory Purchasing_Properties
  imports Payables Stock_Properties
begin

text \<open>
  What the operations of purchasing do to the tables below them: numbering and audit records leave the
  ledger alone, a document's entry moves the balances of the accounts it names, and posting or cancelling
  a goods receipt moves the positions of its lines.
\<close>

section \<open>Frames\<close>

lemmas state_defs = ledger_def set_ledger_def take_doc_id_def doc_id_def audit_doc_def

lemma set_ledger_simps [simp]:
  "ledger (set_ledger st b) = b" "stock (set_ledger st b) = (stock st)\<lparr>books := b\<rparr>"
  "doc_sequences (set_ledger st b) = doc_sequences st" "products (set_ledger st b) = products st"
  "suppliers (set_ledger st b) = suppliers st" "orders (set_ledger st b) = orders st"
  "receipts (set_ledger st b) = receipts st" "bills (set_ledger st b) = bills st"
  "payments (set_ledger st b) = payments st" "allocations (set_ledger st b) = allocations st"
  by (simp_all add: state_defs)

lemma audit_doc_simps [simp]:
  "stock (audit_doc st x sv ac og rt ri) = audit_stock (stock st) x sv ac og rt ri"
  "doc_sequences (audit_doc st x sv ac og rt ri) = doc_sequences st" "products (audit_doc st x sv ac og rt ri) = products st"
  "suppliers (audit_doc st x sv ac og rt ri) = suppliers st" "orders (audit_doc st x sv ac og rt ri) = orders st"
  "receipts (audit_doc st x sv ac og rt ri) = receipts st" "bills (audit_doc st x sv ac og rt ri) = bills st"
  "payments (audit_doc st x sv ac og rt ri) = payments st" "allocations (audit_doc st x sv ac og rt ri) = allocations st"
  by (simp_all add: state_defs)

lemma take_doc_id_simps [simp]:
  "stock (take_doc_id st) = take_id (stock st)"
  "doc_sequences (take_doc_id st) = doc_sequences st" "products (take_doc_id st) = products st"
  "suppliers (take_doc_id st) = suppliers st" "orders (take_doc_id st) = orders st"
  "receipts (take_doc_id st) = receipts st" "bills (take_doc_id st) = bills st"
  "payments (take_doc_id st) = payments st" "allocations (take_doc_id st) = allocations st"
  by (simp_all add: state_defs)

lemma audit_stock_simps [simp]:
  "levels (audit_stock s x sv ac og rt ri) = levels s" "movements (audit_stock s x sv ac og rt ri) = movements s"
  "warehouses (audit_stock s x sv ac og rt ri) = warehouses s" "fresh_id (audit_stock s x sv ac og rt ri) = fresh_id s"
  "entries (books (audit_stock s x sv ac og rt ri)) = entries (books s)"
  "accounts (books (audit_stock s x sv ac og rt ri)) = accounts (books s)"
  by (simp_all add: audit_stock_def fresh_id_def audit_record_def)

text \<open>The warehouses there are, with the organization each belongs to.\<close>

definition wh_keys :: "'h stock_db \<Rightarrow> (uuid \<times> uuid) set" where
  "wh_keys s = (\<lambda>w. (wh_id w, wh_org w)) ` set (warehouses s)"

lemma wh_keys_cong: "warehouses s' = warehouses s \<Longrightarrow> wh_keys s' = wh_keys s"
  by (simp add: wh_keys_def)

text \<open>
  The part of the state the sub-ledger and the accounts live in: only identifiers were handed out and
  audit rows written.
\<close>

definition quiet :: "'h stock_db \<Rightarrow> 'h stock_db \<Rightarrow> bool" where
  "quiet s s' \<longleftrightarrow> levels s' = levels s \<and> movements s' = movements s \<and> entries (books s') = entries (books s) \<and>
     accounts (books s') = accounts (books s) \<and> fresh_id s \<le> fresh_id s' \<and> wh_keys s \<subseteq> wh_keys s' \<and>
     (stock_inv s \<longrightarrow> stock_inv s')"

lemma quiet_refl [simp]: "quiet s s"
  by (simp add: quiet_def)

lemma quiet_trans: "quiet a b \<Longrightarrow> quiet b c \<Longrightarrow> quiet a c"
  by (auto simp: quiet_def)

lemma quiet_take [simp]: "quiet s (take_id s)"
  by (simp add: quiet_def inv_take_id wh_keys_def)

lemma quiet_audit [simp]: "quiet s (audit_stock s x sv ac og rt ri)"
  by (simp add: quiet_def inv_audit_stock wh_keys_def)

lemma quiet_takes: "quiet s (stock ((take_doc_id ^^ n) st))" if "quiet s (stock st)"
  by (induction n) (use that quiet_trans [OF _ quiet_take] in auto)

lemma takes_simps [simp]:
  "doc_sequences ((take_doc_id ^^ n) st) = doc_sequences st" "products ((take_doc_id ^^ n) st) = products st"
  "suppliers ((take_doc_id ^^ n) st) = suppliers st" "orders ((take_doc_id ^^ n) st) = orders st"
  "receipts ((take_doc_id ^^ n) st) = receipts st" "bills ((take_doc_id ^^ n) st) = bills st"
  "payments ((take_doc_id ^^ n) st) = payments st" "allocations ((take_doc_id ^^ n) st) = allocations st"
  by (induction n) simp_all

lemma quiet_next_id:
  "next_id (books s) \<le> k \<Longrightarrow> quiet s (s\<lparr>books := (books s)\<lparr>next_id := k\<rparr>\<rparr>)"
  unfolding quiet_def by (auto simp: fresh_id_def wh_keys_def intro!: inv_books intro: ledger_frame stock_invD(1))

lemma quiet_warehouse:
  assumes "get_warehouse s org wid = Inr (s', w)"
  shows "quiet s s'"
  using assms
proof (cases rule: get_warehouse_ok)
  case created
  then show ?thesis using get_warehouse_effect [OF _ assms] by (auto simp: quiet_def wh_keys_def)
qed simp

lemma document_number_ok:
  assumes "document_number st org scope prefix today = Inr (st', n)"
  obtains k sq where "next_id (books (stock st)) \<le> k"
    "st' = st\<lparr>stock := (stock st)\<lparr>books := (books (stock st))\<lparr>next_id := k\<rparr>\<rparr>, doc_sequences := sq\<rparr>"
proof -
  from assms obtain b y where b: "next_number ((ledger st)\<lparr>sequences := doc_sequences st\<rparr>) org (scope @ '':'' @ y)
      (prefix @ ''-'' @ y @ ''-'') 4 = Inr (b, n)"
    and st': "st' = (set_ledger st (b\<lparr>sequences := sequences (ledger st)\<rparr>))\<lparr>doc_sequences := sequences b\<rparr>"
    by (auto simp: document_number_def Let_def)
  from b have "\<exists>k sq. next_id (ledger st) \<le> k \<and> b = (ledger st)\<lparr>sequences := sq, next_id := k\<rparr>"
  proof (cases rule: next_number_ok)
    case (existing sq)
    then show ?thesis
      by (intro exI [of _ "next_id (ledger st)"]
          exI [of _ "update_where (\<lambda>s. s_id s = s_id sq) (s_next_update (\<lambda>_. s_next sq + 1)) (doc_sequences st)"]) simp
  next
    case (fresh sq)
    then show ?thesis
      by (intro exI [of _ "next_id (ledger st) + 1"]
          exI [of _ "update_where (\<lambda>s. s_id s = s_id sq) (s_next_update (\<lambda>_. 2)) (doc_sequences st @ [sq])"]) simp
  qed
  then obtain k sq where k: "next_id (ledger st) \<le> k" "b = (ledger st)\<lparr>sequences := sq, next_id := k\<rparr>" by blast
  have "b\<lparr>sequences := sequences (ledger st)\<rparr> = (ledger st)\<lparr>next_id := k\<rparr>" unfolding k(2) by simp
  then show thesis using k st' by (intro that [of k sq]) (simp_all add: state_defs)
qed

lemma document_number_quiet:
  assumes "document_number st org scope prefix today = Inr (st', n)"
  shows "quiet (stock st) (stock st')" and "bills st' = bills st" "payments st' = payments st"
    "allocations st' = allocations st" "receipts st' = receipts st" "orders st' = orders st"
    "products st' = products st" "suppliers st' = suppliers st"
  using assms by (cases rule: document_number_ok; simp add: quiet_next_id)+

section \<open>Entries of documents\<close>

lemma post_document_entry_effect:
  assumes inv: "stock_inv (stock st)"
    and op: "post_document_entry hs st org d actor stype sid now = Inr (st', e)" and post: "ec_post d"
  obtains b where "st' = set_ledger st b" "stock_inv (stock st')" "fresh_id (stock st) \<le> fresh_id (stock st')"
    "accounts b = accounts (ledger st)" "e \<in> set (entries b)" "is_posted e" "validate_entry_create d = Inr ()"
    "\<And>a. entry_net a e = sum_list (map (\<lambda>l. li_debit l - li_credit l) (filter (\<lambda>l. li_account l = a) (ec_lines d)))"
    "\<And>a. ledger_net b a = ledger_net (ledger st) a + entry_net a e" "e_id e = next_id (ledger st)"
proof -
  from op obtain b where b: "create_entry hs (ledger st) org d actor (Some stype) (Some sid) now = Inr (b, e)"
    and v: "validate_entry_create d = Inr ()" and st': "st' = set_ledger st b"
    by (auto simp: post_document_entry_def)
  have l: "ledger_inv (ledger st)" using stock_invD(1) [OF inv] by (simp add: ledger_def)
  note c = create_posted_effect [OF l b post]
  have n: "sum_list (map (\<lambda>l. l_debit l - l_credit l) (filter (\<lambda>l. l_account l = a) (number_lines k ls))) =
      sum_list (map (\<lambda>l. li_debit l - li_credit l) (filter (\<lambda>l. li_account l = a) ls))" for k ls a
    by (induction ls arbitrary: k) simp_all
  have net: "entry_net a e = sum_list (map (\<lambda>l. li_debit l - li_credit l) (filter (\<lambda>l. li_account l = a) (ec_lines d)))" for a
    using c n by (simp add: entry_net_def)
  have "stock_inv (stock st')" unfolding st' using c inv by (auto simp: ledger_def intro!: inv_books)
  then show thesis using c v net st' by (intro that [of b]) (auto simp: ledger_def fresh_id_def)
qed

lemma reverse_document_entry_effect:
  assumes inv: "stock_inv (stock st)"
    and op: "reverse_document_entry hs st org i actor rd nar now = Inr (st', e)"
  obtains b original where "st' = set_ledger st b" "stock_inv (stock st')" "fresh_id (stock st) \<le> fresh_id (stock st')"
    "original \<in> set (entries (ledger st))" "e_id original = i"
    "\<And>a. ledger_net b a = ledger_net (ledger st) a - entry_net a original"
proof -
  from op obtain b where b: "reverse_entry hs (ledger st) org i actor rd (Some nar) now = Inr (b, e)"
    and st': "st' = set_ledger st b"
    by (auto simp: reverse_document_entry_def)
  have l: "ledger_inv (ledger st)" using stock_invD(1) [OF inv] by (simp add: ledger_def)
  then have d: "distinct (map e_id (entries (ledger st)))" by (simp add: ledger_inv_def core_inv_def)
  obtain original where o: "original \<in> set (entries (ledger st))" "e_id original = i"
    using reverse_net [OF l b] by blast
  have "ledger_net b a = ledger_net (ledger st) a - entry_net a original" for a
    using reverse_net [OF l b, of a] o d by (metis distinct_map inj_onD)
  moreover have "stock_inv (stock st')"
    unfolding st' using inv inv_reverse_entry [OF l b] entry_next_id(3) [OF b] by (auto simp: ledger_def intro!: inv_books)
  ultimately show thesis
    using o st' entry_next_id(3) [OF b] by (intro that [of b original]) (auto simp: ledger_def fresh_id_def)
qed

section \<open>Goods receipts\<close>

definition received_value :: "receipt_line list \<Rightarrow> decimal" where
  "received_value ls = sum_list (map (\<lambda>l. round_value (dmul (accepted_quantity l) (gl_unit_cost l)))
     (filter (\<lambda>l. 0 < accepted_quantity l) ls))"

text \<open>
  What the accepted goods with a unit cost of zero are worth at the purchase price of their product: the stock
  service values them so.
\<close>

definition list_price :: "'h purchasing_db \<Rightarrow> uuid \<Rightarrow> uuid \<Rightarrow> decimal" where
  "list_price st org i = (case get_product st org i of Inr p \<Rightarrow> pr_purchase_price p | Inl _ \<Rightarrow> 0)"

definition substituted_value :: "'h purchasing_db \<Rightarrow> uuid \<Rightarrow> receipt_line list \<Rightarrow> decimal" where
  "substituted_value st org ls = sum_list (map (\<lambda>l. round_value (dmul (accepted_quantity l) (list_price st org (gl_product l))))
     (filter (\<lambda>l. 0 < accepted_quantity l \<and> gl_unit_cost l = 0) ls))"

lemma substituted_value_products:
  "products st' = products st \<Longrightarrow> substituted_value st' org ls = substituted_value st org ls"
  by (simp add: substituted_value_def list_price_def get_product_def)

definition accepted_into :: "uuid \<Rightarrow> receipt_line list \<Rightarrow> uuid \<times> uuid \<Rightarrow> decimal" where
  "accepted_into wid ls k = sum_list (map accepted_quantity
     (filter (\<lambda>l. 0 < accepted_quantity l \<and> (gl_product l, wid) = k) ls))"

lemma get_product_ok: "get_product st org i = Inr p \<Longrightarrow> p \<in> set (products st) \<and> pr_id p = i \<and> pr_org p = org"
  by (auto simp: get_product_def split: option.splits dest: scalar_one_or_none_Some)

lemma roll_order_line_ok: "roll_order_line st ref f = Inr st' \<Longrightarrow> st' = st\<lparr>orders := orders st'\<rparr>"
  by (auto simp: roll_order_line_def Let_def split: option.splits)

lemma refresh_order_status_ok: "refresh_order_status st i = Inr st' \<Longrightarrow> st' = st\<lparr>orders := orders st'\<rparr>"
  by (auto simp: refresh_order_status_def split: option.splits if_splits)

text \<open>What a line, and then all lines, of a receipt do to the sub-ledger.\<close>

definition stock_moved :: "'h stock_db \<Rightarrow> 'h stock_db \<Rightarrow> (uuid \<times> uuid \<Rightarrow> decimal) \<Rightarrow> bool" where
  "stock_moved s s' d \<longleftrightarrow> stock_inv s' \<and> fresh_id s \<le> fresh_id s' \<and> warehouses s' = warehouses s \<and>
     entries (books s') = entries (books s) \<and> accounts (books s') = accounts (books s) \<and>
     (\<lambda>k. v_quantity (position (levels s') k)) = (\<lambda>k. v_quantity (position (levels s) k) + d k)"

lemma stock_moved_trans:
  "stock_moved a b d \<Longrightarrow> stock_moved b c e \<Longrightarrow> stock_moved a c (\<lambda>k. d k + e k)"
  by (auto simp: stock_moved_def fun_eq_iff)

lemma record_fresh: "record_movement s org p w ma now = Inr (s', m) \<Longrightarrow> fresh_id s \<le> fresh_id s'"
  by (erule record_movement_ok) (auto elim!: locked_level_ok)

lemma record_moved:
  assumes "stock_inv s" "record_movement s org p w ma now = Inr (s', m)" "w \<in> set (warehouses s)" "wh_org w = org"
  shows "stock_moved s s' (\<lambda>k. if k = (pr_id p, wh_id w) then mv_quantity m else 0)"
  using assms
proof (cases rule: record_effect)
  case (1 cm)
  show ?thesis
    using 1 cost_movement_ok(1) [OF 1(1)] record_fresh [OF assms(2)]
    by (simp add: stock_moved_def fun_eq_iff del: split_paired_All)
qed

lemma receive_line_effect:
  assumes inv: "stock_inv (stock st)" and w: "w \<in> set (warehouses (stock st))" "wh_org w = org"
    and op: "receive_line st org g w l actor now = Inr (st', v)"
  obtains s os where "st' = st\<lparr>stock := s, orders := os\<rparr>" "stock_moved (stock st) s (accepted_into (wh_id w) [l])"
    "v = received_value [l]"
    "org_value s org = org_value (stock st) org + v + substituted_value st org [l]"
proof (cases "0 < accepted_quantity l")
  case False
  have "stock_moved (stock st) (stock st) (accepted_into (wh_id w) [l])"
    using inv False by (simp add: stock_moved_def accepted_into_def)
  with False op show thesis
    by (intro that [of "orders st" "stock st"]) (auto simp: receive_line_def received_value_def substituted_value_def)
next
  case True
  with op obtain p s m where p: "get_product st org (gl_product l) = Inr p"
    and rec: "record_movement (stock st) org p w (receipt_movement g l actor) now = Inr (s, m)"
    and roll: "roll_order_line (st\<lparr>stock := s\<rparr>) (gl_order_line l) (\<lambda>r. r + accepted_quantity l) = Inr st'"
    and v: "v = round_value (dmul (accepted_quantity l) (gl_unit_cost l))"
    by (auto simp: receive_line_def)
  obtain os where os: "st' = st\<lparr>stock := s, orders := os\<rparr>" using roll_order_line_ok [OF roll] by metis
  have pid: "pr_id p = gl_product l" using get_product_ok [OF p] by simp
  show thesis
    using record_effect [OF inv rec w]
  proof cases
    case (1 cm)
    let ?k = "(pr_id p, wh_id w)"
    have q: "mv_quantity m = accepted_quantity l"
      using cost_movement_ok(2) [OF 1(1)] 1(7) by (simp add: receipt_movement_def increases_stock_def)
    have "(\<lambda>k. if k = ?k then mv_quantity m else 0) = accepted_into (wh_id w) [l]"
      using True q pid by (auto simp: accepted_into_def fun_eq_iff)
    then have mv: "stock_moved (stock st) s (accepted_into (wh_id w) [l])"
      using record_moved [OF inv rec w] by simp
    have "cm_total_cost cm = v + substituted_value st org [l]"
      using 1(1) True unfolding v
      by (auto simp: cost_movement_def receipt_movement_def increases_stock_def receipt_cost_def Let_def substituted_value_def
        list_price_def p dmul_def round_value_def elim!: apply_receiptE)
    then have "org_value s org = org_value (stock st) org + v + substituted_value st org [l]"
      using 1(11) cost_movement_ok(3) [OF 1(1)] by (simp add: receipt_movement_def increases_stock_def)
    then show thesis using os mv True v by (intro that [of os s]) (auto simp: received_value_def)
  qed
qed

lemma accepted_Cons:
  "received_value (l # ls) = received_value [l] + received_value ls"
  "accepted_into wid (l # ls) k = accepted_into wid [l] k + accepted_into wid ls k"
  "substituted_value st org (l # ls) = substituted_value st org [l] + substituted_value st org ls"
  by (simp_all add: received_value_def accepted_into_def substituted_value_def)

lemma accepted_Nil [simp]: "received_value [] = 0" "accepted_into wid [] k = 0" "substituted_value st org [] = 0"
  by (simp_all add: received_value_def accepted_into_def substituted_value_def)

lemma receive_lines_effect:
  assumes "stock_inv (stock st)" "w \<in> set (warehouses (stock st))" "wh_org w = org"
    and "receive_lines st org g w ls actor now = Inr (st', v)"
  shows "\<exists>s os. st' = st\<lparr>stock := s, orders := os\<rparr> \<and> stock_moved (stock st) s (accepted_into (wh_id w) ls) \<and>
    v = received_value ls \<and> org_value s org = org_value (stock st) org + v + substituted_value st org ls"
  using assms
proof (induction ls arbitrary: st v)
  case Nil
  then show ?case by (auto simp: stock_moved_def intro!: exI [of _ "stock st"] exI [of _ "orders st"])
next
  case (Cons l ls)
  from Cons.prems(4) obtain st1 v1 v2 where 1: "receive_line st org g w l actor now = Inr (st1, v1)"
    and 2: "receive_lines st1 org g w ls actor now = Inr (st', v2)" "v = v1 + v2" by auto
  show ?case
    using receive_line_effect [OF Cons.prems(1-3) 1]
  proof cases
    case l: (1 os s)
    have "stock_inv (stock st1)" "w \<in> set (warehouses (stock st1))"
      using l(1,2) Cons.prems(2) by (simp_all add: stock_moved_def)
    from Cons.IH [OF this Cons.prems(3) 2(1)] obtain s' os' where
      r: "st' = st1\<lparr>stock := s', orders := os'\<rparr>" "stock_moved (stock st1) s' (accepted_into (wh_id w) ls)" "v2 = received_value ls"
      "org_value s' org = org_value (stock st1) org + v2 + substituted_value st1 org ls"
      by blast
    have "accepted_into (wh_id w) (l # ls) = (\<lambda>k. accepted_into (wh_id w) [l] k + accepted_into (wh_id w) ls k)"
      by (rule ext) (rule accepted_Cons(2))
    then have "stock_moved (stock st) s' (accepted_into (wh_id w) (l # ls))"
      using stock_moved_trans [OF l(2), of s' "accepted_into (wh_id w) ls"] r(2) l(1) by simp
    then show ?thesis
      using l(1,3,4) r(1,3,4) 2(2) accepted_Cons(1) [of l ls] accepted_Cons(3) [of st org l ls]
        substituted_value_products [of st1 st org ls]
      by (intro exI [of _ s'] exI [of _ os']) auto
  qed
qed

lemma return_line_effect:
  assumes inv: "stock_inv (stock st)" and w: "w \<in> set (warehouses (stock st))" "wh_org w = org"
    and op: "return_line st org g w l reason actor now = Inr st'"
  obtains os s where "st' = st\<lparr>stock := s, orders := os\<rparr>"
    "stock_moved (stock st) s (\<lambda>k. - accepted_into (wh_id w) [l] k)"
proof (cases "0 < accepted_quantity l")
  case False
  have "stock_moved (stock st) (stock st) (\<lambda>k. - accepted_into (wh_id w) [l] k)"
    using inv False by (simp add: stock_moved_def accepted_into_def)
  with False op show thesis by (intro that [of "orders st" "stock st"]) (auto simp: return_line_def)
next
  case True
  with op obtain p s m where p: "get_product st org (gl_product l) = Inr p"
    and rec: "record_movement (stock st) org p w (cancel_movement g l reason actor) now = Inr (s, m)"
    and roll: "roll_order_line (st\<lparr>stock := s\<rparr>) (gl_order_line l) (\<lambda>r. max 0 (r - accepted_quantity l)) = Inr st'"
    by (auto simp: return_line_def)
  obtain os where os: "st' = st\<lparr>stock := s, orders := os\<rparr>" using roll_order_line_ok [OF roll] by metis
  have pid: "pr_id p = gl_product l" using get_product_ok [OF p] by simp
  show thesis
    using record_effect [OF inv rec w]
  proof cases
    case (1 cm)
    have "mv_quantity m = - accepted_quantity l"
      using cost_movement_ok(2) [OF 1(1)] 1(7) by (simp add: cancel_movement_def increases_stock_def)
    then have "(\<lambda>k. if k = (pr_id p, wh_id w) then mv_quantity m else 0) = (\<lambda>k. - accepted_into (wh_id w) [l] k)"
      using True pid by (auto simp: accepted_into_def fun_eq_iff)
    then show thesis using record_moved [OF inv rec w] os by (intro that [of os s]) simp_all
  qed
qed

lemma return_lines_effect:
  assumes "stock_inv (stock st)" "w \<in> set (warehouses (stock st))" "wh_org w = org"
    and "return_lines st org g w ls reason actor now = Inr st'"
  shows "\<exists>s os. st' = st\<lparr>stock := s, orders := os\<rparr> \<and> stock_moved (stock st) s (\<lambda>k. - accepted_into (wh_id w) ls k)"
  using assms
proof (induction ls arbitrary: st)
  case Nil
  then show ?case by (auto simp: stock_moved_def intro!: exI [of _ "stock st"] exI [of _ "orders st"])
next
  case (Cons l ls)
  from Cons.prems(4) obtain st1 where 1: "return_line st org g w l reason actor now = Inr st1"
    and 2: "return_lines st1 org g w ls reason actor now = Inr st'" by auto
  show ?case
    using return_line_effect [OF Cons.prems(1-3) 1]
  proof cases
    case l: (1 os s)
    have "stock_inv (stock st1)" "w \<in> set (warehouses (stock st1))"
      using l(1,2) Cons.prems(2) by (simp_all add: stock_moved_def)
    from Cons.IH [OF this Cons.prems(3) 2] obtain s' os' where
      r: "st' = st1\<lparr>stock := s', orders := os'\<rparr>" "stock_moved (stock st1) s' (\<lambda>k. - accepted_into (wh_id w) ls k)" by blast
    have "stock_moved (stock st) s' (\<lambda>k. - accepted_into (wh_id w) (l # ls) k)"
      using stock_moved_trans [OF l(2), of s' "\<lambda>k. - accepted_into (wh_id w) ls k"] r(2) l(1)
      by (simp add: accepted_Cons(2) [of _ l ls])
    then show ?thesis using l(1) r(1) by (intro exI [of _ s'] exI [of _ os']) auto
  qed
qed

text \<open>The receipts of a state: their identifiers, their warehouse, and drafts without an entry.\<close>

definition receipts_ok :: "'h purchasing_db \<Rightarrow> bool" where
  "receipts_ok st \<longleftrightarrow> distinct (map gr_id (receipts st)) \<and>
     (\<forall>g \<in> set (receipts st). gr_id g < doc_id st \<and> (gr_warehouse g, gr_org g) \<in> wh_keys (stock st) \<and>
        (gr_status g = G_DRAFT \<longrightarrow> gr_entry g = None))"

lemma receipts_okD:
  assumes "receipts_ok st"
  shows "distinct (map gr_id (receipts st))"
    and "g \<in> set (receipts st) \<Longrightarrow> gr_id g < doc_id st"
    and "g \<in> set (receipts st) \<Longrightarrow> (gr_warehouse g, gr_org g) \<in> wh_keys (stock st)"
    and "g \<in> set (receipts st) \<Longrightarrow> gr_status g = G_DRAFT \<Longrightarrow> gr_entry g = None"
  using assms by (auto simp: receipts_ok_def)

lemma get_receipt_ok:
  "get_receipt st org i = Inr g \<Longrightarrow> g \<in> set (receipts st) \<and> gr_id g = i \<and> gr_org g = org \<and> gr_deleted g = None"
  by (auto simp: get_receipt_def split: option.splits dest: scalar_one_or_none_Some)

lemma warehouse_of_ok:
  assumes "stock_inv (stock st)" "warehouse_of st i = Inr w" "(i, org) \<in> wh_keys (stock st)"
  shows "w \<in> set (warehouses (stock st))" "wh_id w = i" "wh_org w = org"
proof -
  show w: "w \<in> set (warehouses (stock st))" "wh_id w = i"
    using assms(2) by (auto simp: warehouse_of_def split: option.splits dest!: first_or_none_Some)
  from assms(3) obtain v where v: "v \<in> set (warehouses (stock st))" "wh_id v = i" "wh_org v = org"
    by (auto simp: wh_keys_def)
  then have "v = w" using stock_invD(7) [OF assms(1)] w by (metis distinct_map inj_onD)
  with v show "wh_org w = org" by simp
qed

definition pair_net :: "uuid \<Rightarrow> uuid \<Rightarrow> decimal \<Rightarrow> uuid \<Rightarrow> decimal" where
  "pair_net da ca amount a = (if a = da then amount else if a = ca then - amount else 0)"

lemma post_accrual_effect:
  assumes inv: "stock_inv (stock st)" and op: "post_accrual hs st org g v actor now = Inr (st', entry)"
  obtains (none) "\<not> 0 < v" "st' = st" "entry = gr_entry g"
  | (posted) inventory grni e b where "0 < v" "resolve_system_account (ledger st) org ''inventory'' = Inr inventory"
      "resolve_system_account (ledger st) org ''grni'' = Inr grni" "a_id inventory \<noteq> a_id grni"
      "st' = set_ledger st b" "stock_inv (stock st')" "fresh_id (stock st) \<le> fresh_id (stock st')"
      "entry = Some (e_id e)" "e \<in> set (entries b)" "is_posted e"
      "\<And>a. entry_net a e = pair_net (a_id inventory) (a_id grni) v a"
      "\<And>a. ledger_net b a = ledger_net (ledger st) a + pair_net (a_id inventory) (a_id grni) v a"
      "accounts b = accounts (ledger st)"
proof (cases "0 < v")
  case False
  with op show thesis by (intro none) (simp_all add: post_accrual_def)
next
  case True
  with op obtain inventory grni and j :: journal and e where
    a: "resolve_system_account (ledger st) org ''inventory'' = Inr inventory"
      "resolve_system_account (ledger st) org ''grni'' = Inr grni"
    and e: "post_document_entry hs st org (accrual_entry st g (j_id j) (a_id inventory) (a_id grni) v)
      actor ''goods_receipt'' (gr_id g) now = Inr (st', e)" "entry = Some (e_id e)"
    by (auto simp: post_accrual_def split: option.splits)
  let ?d = "accrual_entry st g (j_id j) (a_id inventory) (a_id grni) v"
  have "ec_post ?d" by (simp add: accrual_entry_def)
  from post_document_entry_effect [OF inv e(1) this] show thesis
  proof cases
    case (1 b)
    have ne: "a_id inventory \<noteq> a_id grni" using 1(7) by (auto simp: validate_entry_create_def accrual_entry_def)
    have net: "entry_net a e = pair_net (a_id inventory) (a_id grni) v a" for a
      using 1(8) [of a] ne by (simp add: accrual_entry_def pair_net_def)
    show thesis by (rule posted [OF True a ne 1(1-3) e(2) 1(5,6) net _ 1(4)]) (simp add: 1(9) net)
  qed
qed

lemma accounts_resolve:
  "accounts b = accounts b' \<Longrightarrow> resolve_system_account b = resolve_system_account b'"
  by (simp add: resolve_system_account_def get_by_system_key_def live_accounts_def fun_eq_iff)

text \<open>
  Posting a receipt: the accepted quantities enter the positions of the receipt's warehouse, and the value
  of the accepted goods is debited to inventory and credited to the accrual account.
\<close>

lemma post_receipt_effect:
  assumes inv: "stock_inv (stock st)" "receipts_ok st"
    and op: "post_receipt hs st org i actor now = Inr (st', g')"
  obtains g s os v where "g \<in> set (receipts st)" "gr_id g = i" "gr_org g = org" "gr_status g = G_DRAFT"
    "st' = st\<lparr>stock := s, orders := os, receipts := update_where (\<lambda>y. gr_id y = gr_id g') (\<lambda>_. g') (receipts st)\<rparr>"
    "gr_id g' = i" "gr_org g' = org" "gr_status g' = G_POSTED" "gr_lines g' = gr_lines g" "gr_warehouse g' = gr_warehouse g"
    "stock_inv s" "fresh_id (stock st) \<le> fresh_id s" "warehouses s = warehouses (stock st)"
    "v = received_value (gr_lines g)"
    "(\<lambda>k. v_quantity (position (levels s) k)) =
       (\<lambda>k. v_quantity (position (levels (stock st)) k) + accepted_into (gr_warehouse g) (gr_lines g) k)"
    "org_value s org = org_value (stock st) org + v + substituted_value st org (gr_lines g)"
    "(\<not> 0 < v \<and> gr_entry g' = None \<and> entries (books s) = entries (ledger st)) \<or>
     (0 < v \<and> (\<exists>inventory grni e. resolve_system_account (ledger st) org ''inventory'' = Inr inventory \<and>
        resolve_system_account (ledger st) org ''grni'' = Inr grni \<and> a_id inventory \<noteq> a_id grni \<and>
        e \<in> set (entries (books s)) \<and> is_posted e \<and> gr_entry g' = Some (e_id e) \<and>
        (\<forall>a. entry_net a e = pair_net (a_id inventory) (a_id grni) v a) \<and>
        (\<forall>a. ledger_net (books s) a = ledger_net (ledger st) a + pair_net (a_id inventory) (a_id grni) v a)))"
    "gr_deleted g' = None"
proof -
  from op obtain g w st1 v st2 entry st3 where g: "get_receipt st org i = Inr g"
    and nd: "gr_status g \<noteq> G_POSTED" "gr_status g \<noteq> G_CANCELLED" and w: "warehouse_of st (gr_warehouse g) = Inr w"
    and rl: "receive_lines st org g w (gr_lines g) actor now = Inr (st1, v)"
    and ac: "post_accrual hs st1 org g v actor now = Inr (st2, entry)"
    and rf: "refresh_order_status st2 (gr_order g) = Inr st3"
    and g': "g' = g\<lparr>gr_entry := entry, gr_status := G_POSTED, gr_posted_at := Some now, gr_total_cost := round_value v\<rparr>"
    and st': "st' = audit_doc (st3\<lparr>receipts := update_where (\<lambda>y. gr_id y = gr_id g') (\<lambda>_. g') (receipts st3)\<rparr>)
      GOODS_RECEIPT_POSTED INFO actor org ''goods_receipt'' (gr_id g)"
    unfolding post_receipt_def Let_def
    by (auto simp: save_receipt_def)
  have draft: "gr_status g = G_DRAFT" using nd by (cases "gr_status g") simp_all
  note gk = get_receipt_ok [OF g]
  have key: "(gr_warehouse g, org) \<in> wh_keys (stock st)" using receipts_okD(3) [OF inv(2)] gk by auto
  note wk = warehouse_of_ok [OF inv(1) w key]
  from receive_lines_effect [OF inv(1) wk(1,3) rl] obtain s1 os1 where
    1: "st1 = st\<lparr>stock := s1, orders := os1\<rparr>" "stock_moved (stock st) s1 (accepted_into (gr_warehouse g) (gr_lines g))"
      "v = received_value (gr_lines g)"
      "org_value s1 org = org_value (stock st) org + v + substituted_value st org (gr_lines g)"
    unfolding wk(2) by blast
  have acc: "accounts (books s1) = accounts (ledger st)" "entries (books s1) = entries (ledger st)"
    using 1(2) by (simp_all add: stock_moved_def ledger_def)
  have st3: "st3 = st2\<lparr>orders := orders st3\<rparr>" by (rule refresh_order_status_ok [OF rf])
  have inv1: "stock_inv (stock st1)" using 1(1,2) by (simp add: stock_moved_def)
  define s where "s = audit_stock (stock st2) GOODS_RECEIPT_POSTED INFO actor org ''goods_receipt'' (gr_id g)"
  have net: "ledger_net (books s) = ledger_net (ledger st2)"
    by (rule ledger_net_entries) (simp add: s_def ledger_def)
  have net1: "ledger_net (ledger st1) = ledger_net (ledger st)"
    by (rule ledger_net_entries) (simp add: 1(1) acc ledger_def [of "st\<lparr>stock := s1, orders := os1\<rparr>"])
  have key: "stock_inv s \<and> fresh_id (stock st) \<le> fresh_id s \<and> warehouses s = warehouses s1 \<and> levels s = levels s1 \<and>
    (\<exists>x. st2 = st1\<lparr>stock := x\<rparr>) \<and>
    ((\<not> 0 < v \<and> gr_entry g' = None \<and> entries (books s) = entries (ledger st)) \<or>
     (0 < v \<and> (\<exists>inventory grni e. resolve_system_account (ledger st) org ''inventory'' = Inr inventory \<and>
        resolve_system_account (ledger st) org ''grni'' = Inr grni \<and> a_id inventory \<noteq> a_id grni \<and>
        e \<in> set (entries (books s)) \<and> is_posted e \<and> gr_entry g' = Some (e_id e) \<and>
        (\<forall>a. entry_net a e = pair_net (a_id inventory) (a_id grni) v a) \<and>
        (\<forall>a. ledger_net (books s) a = ledger_net (ledger st) a + pair_net (a_id inventory) (a_id grni) v a))))"
    using inv1 ac
  proof (cases rule: post_accrual_effect)
    case none
    have "gr_entry g = None" using receipts_okD(4) [OF inv(2)] gk draft by blast
    with none 1 acc g' show ?thesis
      by (auto simp: s_def stock_moved_def ledger_def intro!: inv_audit_stock exI [of _ "stock st1"])
  next
    case (posted inventory grni e b)
    have "resolve_system_account (ledger st1) = resolve_system_account (ledger st)"
      by (rule accounts_resolve) (simp add: 1(1) acc ledger_def [of "st\<lparr>stock := s1, orders := os1\<rparr>"])
    moreover have "ledger_net (books s) = ledger_net b" using net posted(5) by simp
    ultimately have "\<exists>inventory grni e. resolve_system_account (ledger st) org ''inventory'' = Inr inventory \<and>
        resolve_system_account (ledger st) org ''grni'' = Inr grni \<and> a_id inventory \<noteq> a_id grni \<and>
        e \<in> set (entries (books s)) \<and> is_posted e \<and> gr_entry g' = Some (e_id e) \<and>
        (\<forall>a. entry_net a e = pair_net (a_id inventory) (a_id grni) v a) \<and>
        (\<forall>a. ledger_net (books s) a = ledger_net (ledger st) a + pair_net (a_id inventory) (a_id grni) v a)"
      using posted net1 g' by (intro exI [of _ inventory] exI [of _ grni] exI [of _ e]) (simp add: s_def)
    with posted(1,5,6,7) 1(1,2) show ?thesis
      by (auto simp: s_def stock_moved_def set_ledger_def intro!: inv_audit_stock)
  qed
  have val: "org_value s org = org_value s1 org" using key by (simp add: org_value_def)
  from key obtain x where x: "st2 = st1\<lparr>stock := x\<rparr>" by blast
  have st3': "st3 = st\<lparr>stock := x, orders := orders st3\<rparr>" by (rule trans [OF st3]) (simp add: x 1(1))
  define os where "os = orders st3"
  have recs: "st' = st\<lparr>stock := s, orders := os, receipts := update_where (\<lambda>y. gr_id y = gr_id g') (\<lambda>_. g') (receipts st)\<rparr>"
    unfolding st' st3' [folded os_def] s_def x by (simp add: audit_doc_def)
  show thesis
    by (rule that [OF _ _ _ draft recs]) (use key val gk 1 g' in \<open>auto simp: stock_moved_def\<close>)
qed

text \<open>
  Cancelling a posted receipt takes the accepted quantities out again and reverses the entry it posted;
  cancelling a draft changes neither stock nor ledger.
\<close>

definition undone :: "goods_receipt \<Rightarrow> 'h stock_db \<Rightarrow> 'h stock_db \<Rightarrow> bool" where
  "undone g s s' \<longleftrightarrow>
     (\<lambda>k. v_quantity (position (levels s') k)) =
       (\<lambda>k. v_quantity (position (levels s) k) - accepted_into (gr_warehouse g) (gr_lines g) k) \<and>
     (case gr_entry g of
        None \<Rightarrow> entries (books s') = entries (books s)
      | Some j \<Rightarrow> \<exists>original \<in> set (entries (books s)). e_id original = j \<and>
          (\<forall>a. ledger_net (books s') a = ledger_net (books s) a - entry_net a original))"

lemma undo_receipt_effect:
  assumes inv: "stock_inv (stock st)" and key: "(gr_warehouse g, org) \<in> wh_keys (stock st)"
    and op: "undo_receipt hs st org g reason actor now = Inr (st', reversal)"
  obtains s os where "st' = st\<lparr>stock := s, orders := os\<rparr>" "stock_inv s" "fresh_id (stock st) \<le> fresh_id s"
    "warehouses s = warehouses (stock st)" "undone g (stock st) s"
proof -
  from op obtain w st1 where w: "warehouse_of st (gr_warehouse g) = Inr w"
    and rl: "return_lines st org g w (gr_lines g) reason actor now = Inr st1"
    and rest: "(case gr_entry g of
       None \<Rightarrow> Inr (st1, gr_reversal g)
     | Some entry_id \<Rightarrow>
         bindr (reverse_document_entry hs st1 org entry_id actor None
           (''Cancellation of '' @ gr_number g @ '': '' @ reason) now) (\<lambda>(st2, e).
         Inr (st2, Some (e_id e)))) = Inr (st', reversal)"
    by (auto simp: undo_receipt_def)
  note wk = warehouse_of_ok [OF inv w key]
  from return_lines_effect [OF inv wk(1,3) rl] obtain s1 os1 where
    1: "st1 = st\<lparr>stock := s1, orders := os1\<rparr>" "stock_moved (stock st) s1 (\<lambda>k. - accepted_into (gr_warehouse g) (gr_lines g) k)"
    unfolding wk(2) by blast
  have inv1: "stock_inv (stock st1)" and e1: "entries (books s1) = entries (books (stock st))"
    using 1 by (simp_all add: stock_moved_def)
  show thesis
  proof (cases "gr_entry g")
    case None
    with rest 1 e1 show thesis by (intro that [of os1 s1]) (auto simp: undone_def stock_moved_def)
  next
    case (Some j)
    with rest obtain e where r: "reverse_document_entry hs st1 org j actor None
        (''Cancellation of '' @ gr_number g @ '': '' @ reason) now = Inr (st', e)" by auto
    show thesis
      using reverse_document_entry_effect [OF inv1 r]
    proof cases
      case b: (1 b original)
      have l: "ledger st1 = books s1" by (simp add: 1(1) ledger_def)
      have "undone g (stock st) (stock st')"
        using 1 b e1 Some ledger_net_entries [OF e1] unfolding l
        by (auto simp: undone_def stock_moved_def intro!: bexI [of _ original])
      then show thesis
        using 1 b by (intro that [of os1 "s1\<lparr>books := b\<rparr>"]) (auto simp: stock_moved_def set_ledger_def)
    qed
  qed
qed

lemma cancel_receipt_effect:
  assumes inv: "stock_inv (stock st)" "receipts_ok st"
    and op: "cancel_receipt hs st org i reason actor now = Inr (st', g')"
  obtains g s os where "g \<in> set (receipts st)" "gr_id g = i" "gr_org g = org" "gr_status g \<noteq> G_CANCELLED"
    "st' = st\<lparr>stock := s, orders := os, receipts := update_where (\<lambda>y. gr_id y = gr_id g') (\<lambda>_. g') (receipts st)\<rparr>"
    "gr_id g' = i" "gr_org g' = org" "gr_status g' = G_CANCELLED" "gr_warehouse g' = gr_warehouse g"
    "stock_inv s" "fresh_id (stock st) \<le> fresh_id s" "warehouses s = warehouses (stock st)"
    "gr_status g = G_POSTED \<Longrightarrow> undone g (stock st) s"
    "gr_status g \<noteq> G_POSTED \<Longrightarrow> levels s = levels (stock st) \<and> entries (books s) = entries (ledger st)"
    "\<forall>b \<in> set (bills st). bi_deleted b = None \<longrightarrow> bi_receipt b \<noteq> Some i" "gr_deleted g = None"
proof -
  from op obtain g billed st1 reversal where g: "get_receipt st org i = Inr g" and nc: "gr_status g \<noteq> G_CANCELLED"
    and bi: "scalar_one_or_none (filter (\<lambda>b. bi_receipt b = Some (gr_id g) \<and> bi_deleted b = None) (bills st)) = Inr None"
    and un: "(if gr_status g = G_POSTED then undo_receipt hs st org g reason actor now else Inr (st, gr_reversal g)) = Inr (st1, reversal)"
    and g': "g' = g\<lparr>gr_reversal := reversal, gr_status := G_CANCELLED, gr_cancelled_at := Some now\<rparr>"
    and st': "st' = audit_doc (st1\<lparr>receipts := update_where (\<lambda>y. gr_id y = gr_id g') (\<lambda>_. g') (receipts st1)\<rparr>)
      GOODS_RECEIPT_CANCELLED WARNING actor org ''goods_receipt'' (gr_id g)"
    unfolding cancel_receipt_def Let_def by (auto simp: save_receipt_def)
  note gk = get_receipt_ok [OF g]
  have nb: "\<forall>b \<in> set (bills st). bi_deleted b = None \<longrightarrow> bi_receipt b \<noteq> Some i"
    using bi gk by (auto simp: scalar_one_or_none_None filter_empty_conv)
  have "\<exists>s os. st1 = st\<lparr>stock := s, orders := os\<rparr> \<and> stock_inv s \<and> fresh_id (stock st) \<le> fresh_id s \<and>
    warehouses s = warehouses (stock st) \<and> (gr_status g = G_POSTED \<longrightarrow> undone g (stock st) s) \<and>
    (gr_status g \<noteq> G_POSTED \<longrightarrow> levels s = levels (stock st) \<and> entries (books s) = entries (ledger st))"
  proof (cases "gr_status g = G_POSTED")
    case True
    with un have "undo_receipt hs st org g reason actor now = Inr (st1, reversal)" by simp
    moreover have "(gr_warehouse g, org) \<in> wh_keys (stock st)" using receipts_okD(3) [OF inv(2)] gk by auto
    ultimately obtain s os where "st1 = st\<lparr>stock := s, orders := os\<rparr>" "stock_inv s" "fresh_id (stock st) \<le> fresh_id s"
      "warehouses s = warehouses (stock st)" "undone g (stock st) s"
      using undo_receipt_effect [OF inv(1)] by blast
    with True show ?thesis by blast
  next
    case False
    then show ?thesis using un inv(1) by (intro exI [of _ "stock st"] exI [of _ "orders st"]) (auto simp: ledger_def)
  qed
  then obtain s os where s: "st1 = st\<lparr>stock := s, orders := os\<rparr>" "stock_inv s" "fresh_id (stock st) \<le> fresh_id s"
    "warehouses s = warehouses (stock st)" "gr_status g = G_POSTED \<longrightarrow> undone g (stock st) s"
    "gr_status g \<noteq> G_POSTED \<longrightarrow> levels s = levels (stock st) \<and> entries (books s) = entries (ledger st)" by blast
  let ?s = "audit_stock s GOODS_RECEIPT_CANCELLED WARNING actor org ''goods_receipt'' (gr_id g)"
  have "ledger_net (books ?s) = ledger_net (books s)" by (rule ledger_net_entries) simp
  then have un': "undone g (stock st) s \<Longrightarrow> undone g (stock st) ?s"
    by (auto simp: undone_def split: option.splits)
  have "st' = st\<lparr>stock := ?s, orders := os, receipts := update_where (\<lambda>y. gr_id y = gr_id g') (\<lambda>_. g') (receipts st)\<rparr>"
    unfolding st' s(1) by (simp add: audit_doc_def)
  from that [OF _ _ _ nc this] show thesis
    using s gk g' nb un' by (auto intro: inv_audit_stock)
qed

end
