(* ===== verification/Payables_Properties.thy ===== *)
theory Payables_Properties
  imports Purchasing_Properties
begin

text \<open>
  Accounts payable: the figures of a bill, the entry it posts, and the agreement between bills, payments
  and allocations in every reachable state of purchasing.
\<close>

section \<open>The figures of a bill\<close>

text \<open>What the lines and the totals of a bill satisfy once it is stored.\<close>

definition figures_ok :: "line_totals list \<Rightarrow> document_totals \<Rightarrow> bool" where
  "figures_ok ls t \<longleftrightarrow>
     (\<forall>l \<in> set ls. 0 \<le> taxable l \<and> on_grid 4 (taxable l)) \<and> taxable_total t = sum_list (map taxable ls) \<and>
     0 \<le> cgst_total t \<and> 0 \<le> sgst_total t \<and> 0 \<le> igst_total t \<and>
     on_grid 4 (cgst_total t) \<and> on_grid 4 (sgst_total t) \<and> on_grid 4 (igst_total t) \<and> on_grid 4 (round_off t) \<and>
     on_grid 4 (grand_total t) \<and> tax_total t = cgst_total t + sgst_total t + igst_total t \<and>
     grand_total t = taxable_total t + tax_total t + round_off t \<and>
     (0 < grand_total t \<longrightarrow> 0 < taxable_total t) \<and> fits (taxable_total t) \<and> fits (tax_total t) \<and> fits (round_off t) \<and> fits (grand_total t)"

lemma figures_okD:
  assumes "figures_ok ls t"
  shows "\<forall>l \<in> set ls. 0 \<le> taxable l \<and> on_grid 4 (taxable l)" "taxable_total t = sum_list (map taxable ls)"
    "0 \<le> cgst_total t" "0 \<le> sgst_total t" "0 \<le> igst_total t"
    "on_grid 4 (cgst_total t)" "on_grid 4 (sgst_total t)" "on_grid 4 (igst_total t)" "on_grid 4 (round_off t)"
    "on_grid 4 (grand_total t)" "tax_total t = cgst_total t + sgst_total t + igst_total t"
    "grand_total t = taxable_total t + tax_total t + round_off t" "0 < grand_total t \<Longrightarrow> 0 < taxable_total t"
    "fits (taxable_total t)" "fits (tax_total t)" "fits (round_off t)" "fits (grand_total t)"
  using assms unfolding figures_ok_def by blast+

lemma document_checksD:
  assumes "document_checks t = Inr ()"
  shows "0 \<le> grand_total t" "tax_total t = cgst_total t + sgst_total t + igst_total t"
    "grand_total t = taxable_total t + tax_total t + round_off t"
    "fits (subtotal t)" "fits (taxable_total t)" "fits (tax_total t)" "fits (round_off t)" "fits (grand_total t)"
  using assms by (auto simp: document_checks_def)

lemma each_line_input:
  assumes "validate_line_inputs is = Inr ()" "i \<in> set is"
  shows "0 < pi_quantity i" "0 \<le> pi_unit_price i" "0 \<le> pi_discount_percent i" "pi_discount_percent i \<le> 100"
    "\<And>d. pi_discount_amount i = Some d \<Longrightarrow> 0 \<le> d" "0 \<le> pi_tax_rate i" "pi_tax_rate i \<le> 100"
  using assms by (fastforce simp: validate_line_inputs_def validate_line_input_def each_eq_Inr_iff)+

lemma computed_line_nonneg:
  assumes "validate_line_inputs is = Inr ()" "i \<in> set is" "gross (compute_input tr i) < 10 ^ 14"
  shows "0 \<le> taxable (compute_input tr i)" "0 \<le> cgst (compute_input tr i)" "0 \<le> sgst (compute_input tr i)"
    "0 \<le> igst (compute_input tr i)"
proof -
  note v = each_line_input [OF assms(1,2)]
  let ?g = "to_exact (dmul (pi_quantity i) (pi_unit_price i))"
  let ?t = "taxable (compute_input tr i)"
  have g: "0 \<le> ?g" "?g < 10 ^ 14"
    using v(1,2) assms(3) by (simp_all add: to_exact_nonneg dmul_nonneg compute_input_def)
  have d: "0 \<le> line_discount ?g (pi_discount_percent i) (pi_discount_amount i)"
    "line_discount ?g (pi_discount_percent i) (pi_discount_amount i) \<le> ?g"
    using line_discount_bounds [OF _ g v(3,4), of "pi_discount_amount i"] v(5) by simp_all
  then show t: "0 \<le> ?t" by (simp add: compute_input_def taxable_compute_line)
  have "?t < 10 ^ 14" using d g by (simp add: compute_input_def taxable_compute_line)
  moreover have "?t * pi_tax_rate i \<le> ?t * 100" using t v(7) by (rule mult_left_mono [rotated])
  moreover have "dmul ?t (pi_tax_rate i) \<le> ?t * pi_tax_rate i + ?t * pi_tax_rate i / 10 ^ 27"
    using t v(6) by (intro dmul_upper) simp
  ultimately have "dmul ?t (pi_tax_rate i) < 10 ^ 20" by (simp add: mult.commute [of "pi_tax_rate i"])
  from split_tax_nonneg [OF t v(6) this, of tr]
  show "0 \<le> cgst (compute_input tr i)" "0 \<le> sgst (compute_input tr i)" "0 \<le> igst (compute_input tr i)"
    by (simp_all add: compute_input_def)
qed

lemma quantize_zero: "quantize_half_up k 0 = 0"
  using half_up_int_of_int [of 0] by (simp add: quantize_half_up_def)

lemma nothing_taxed:
  assumes "taxable (compute_input tr i) = 0"
  shows "total (compute_input tr i) = 0"
proof -
  have z: "ctx_round 0 = 0" by (rule ctx_round_exact [of 0]) simp_all
  have "round_money 0 = 0" by (simp add: round_money_def quantize_zero)
  then have "lt_cgst (split_tax 0 (pi_tax_rate i) tr) = 0" "lt_sgst (split_tax 0 (pi_tax_rate i) tr) = 0"
    "lt_igst (split_tax 0 (pi_tax_rate i) tr) = 0"
    by (simp_all add: split_tax_def Let_def dmul_def ddiv_def z)
  then show ?thesis
    using assms line_ok_compute_line by (simp add: compute_input_def line_ok_def lt_total_def)
qed

lemma figures_computed:
  assumes "validate_line_inputs is = Inr ()" "document_checks (totals_of tr is w) = Inr ()"
  shows "figures_ok (map (compute_input tr) is) (totals_of tr is w)"
proof -
  let ?ls = "map (compute_input tr) is"
  note d = document_checksD [OF assms(2)]
  have ok: "\<forall>l \<in> set ?ls. line_ok l" by (auto simp: compute_input_def line_ok_compute_line)
  note ex = compute_document_exact [OF ok, of w, folded totals_of_def]
  have g0: "0 \<le> gross (compute_input tr i)" if "i \<in> set is" for i
    using each_line_input(1,2) [OF assms(1) that] by (simp add: compute_input_def to_exact_nonneg dmul_nonneg)
  have g: "gross (compute_input tr i) < 10 ^ 14" if "i \<in> set is" for i
  proof -
    have "gross (compute_input tr i) \<le> sum_list (map gross ?ls)"
      using that g0 by (intro member_le_sum_list) auto
    with d(4) ex(1) show ?thesis by (simp add: fits_def)
  qed
  note nn = computed_line_nonneg [OF assms(1) _ g]
  have "0 \<le> cgst_total (totals_of tr is w)" "0 \<le> sgst_total (totals_of tr is w)" "0 \<le> igst_total (totals_of tr is w)"
    unfolding ex by (auto intro!: sum_list_nonneg nn)
  moreover have "on_grid 4 (taxable l)" if "l \<in> set ?ls" for l using ok that by (auto simp: line_ok_def)
  moreover have gr: "on_grid 4 (round_off (totals_of tr is w))" "on_grid 4 (grand_total (totals_of tr is w))"
    by (auto simp: totals_of_def compute_document_def Let_def)
  moreover have "0 < taxable_total (totals_of tr is w)" if "0 < grand_total (totals_of tr is w)"
  proof (rule ccontr)
    assume "\<not> 0 < taxable_total (totals_of tr is w)"
    moreover have nt: "\<forall>x \<in> set (map taxable ?ls). 0 \<le> x" using nn by auto
    ultimately have "sum_list (map taxable ?ls) = 0" using sum_list_nonneg [of "map taxable ?ls"] ex(3) by fastforce
    then have "\<forall>l \<in> set ?ls. taxable l = 0"
      using nt by (subst (asm) sum_list_nonneg_eq_0_iff) auto
    then have "map total ?ls = map (\<lambda>_. 0) ?ls" using nothing_taxed by auto
    then have "sum_list (map total ?ls) = 0" by (simp only: sum_list_0)
    with that compute_document_total(1) [OF ok, of w] show False by (simp add: totals_of_def quantize_zero split: if_splits)
  qed
  ultimately show ?thesis
    using d ex sum_grid [OF ok] nn unfolding figures_ok_def by auto
qed

section \<open>The entry of a bill\<close>

definition lines_net :: "uuid \<Rightarrow> line_input list \<Rightarrow> decimal" where
  "lines_net a ls = sum_list (map (\<lambda>l. li_debit l - li_credit l) (filter (\<lambda>l. li_account l = a) ls))"

lemma lines_net_simps [simp]:
  "lines_net a [] = 0" "lines_net a (xs @ ys) = lines_net a xs + lines_net a ys"
  "lines_net a (debit_line c x t # ls) = (if c = a then x else 0) + lines_net a ls"
  "lines_net a (credit_line c x t # ls) = (if c = a then - x else 0) + lines_net a ls"
  by (simp_all add: lines_net_def debit_line_def credit_line_def)

definition bill_lines_totals :: "bill \<Rightarrow> line_totals list" where
  "bill_lines_totals b = map (\<lambda>l. pl_totals (bl_line l)) (bi_lines b)"

definition line_base :: "bill_line \<Rightarrow> decimal" where
  "line_base l = taxable (pl_totals (bl_line l))"

definition account_is :: "'h purchasing_db \<Rightarrow> uuid \<Rightarrow> string \<Rightarrow> uuid \<Rightarrow> bool" where
  "account_is st org k a = (case resolve_system_account (ledger st) org k of Inl _ \<Rightarrow> False | Inr x \<Rightarrow> a_id x = a)"

text \<open>What posting a bill adds to the balance of an account.\<close>

definition cost_net :: "'h purchasing_db \<Rightarrow> uuid \<Rightarrow> bill \<Rightarrow> uuid \<Rightarrow> decimal" where
  "cost_net st org b a =
     (case bi_receipt b of
        Some _ \<Rightarrow> (if account_is st org ''grni'' a then taxable_total (bi_totals b) else 0)
      | None \<Rightarrow> sum_list (map line_base (filter (\<lambda>l. line_debit_account st org l = Inr a) (bi_lines b))))"

definition bill_net :: "'h purchasing_db \<Rightarrow> uuid \<Rightarrow> bill \<Rightarrow> uuid \<Rightarrow> decimal" where
  "bill_net st org b a = cost_net st org b a +
     (if account_is st org ''gst_input'' a then tax_total (bi_totals b) else 0) +
     (if account_is st org ''rounding'' a then round_off (bi_totals b) else 0) -
     (if account_is st org ''accounts_payable'' a then grand_total (bi_totals b) else 0)"

text \<open>A list of lines that a journal entry accepts, with its debits and credits.\<close>

definition lines_ok :: "line_input list \<Rightarrow> decimal \<Rightarrow> decimal \<Rightarrow> bool" where
  "lines_ok ls d c \<longleftrightarrow> (\<forall>l \<in> set ls. validate_line l = Inr ()) \<and> sum_list (map li_debit ls) = d \<and> sum_list (map li_credit ls) = c"

lemma lines_ok_append: "lines_ok xs d c \<Longrightarrow> lines_ok ys d' c' \<Longrightarrow> lines_ok (xs @ ys) (d + d') (c + c')"
  by (auto simp: lines_ok_def)

lemma lines_ok_debit: "0 < x \<Longrightarrow> money_ok x \<Longrightarrow> lines_ok [debit_line a x t] x 0"
  by (simp add: lines_ok_def debit_line_def validate_line_def validate_amount_def money_ok_def)

lemma lines_ok_credit: "0 < x \<Longrightarrow> money_ok x \<Longrightarrow> lines_ok [credit_line a x t] 0 x"
  by (simp add: lines_ok_def credit_line_def validate_line_def validate_amount_def money_ok_def)

text \<open>Positive parts posted to their accounts: nothing is lost by leaving the zero ones out.\<close>

lemma positive_parts:
  assumes "\<forall>x \<in> set xs. 0 \<le> snd x \<and> money_ok (snd x)"
  shows "lines_ok (map (\<lambda>(k, x). debit_line (f k) x (g k)) (filter (\<lambda>(k, x). 0 < x) xs)) (sum_list (map snd xs)) 0"
    and "lines_net a (map (\<lambda>(k, x). debit_line (f k) x (g k)) (filter (\<lambda>(k, x). 0 < x) xs)) =
      sum_list (map snd (filter (\<lambda>x. f (fst x) = a) xs))"
  using assms
proof (induction xs)
  case (Cons y ys)
  obtain k x where y: "y = (k, x)" by (cases y)
  {
    case 1
    then show ?case
      using Cons.IH(1) lines_ok_append [OF lines_ok_debit [of x "f k" "g k"]]
      by (cases "x = 0") (fastforce simp: y)+
  next
    case 2
    then show ?case using Cons.IH(2) by (cases "x = 0") (auto simp: y)
  }
qed (simp_all add: lines_ok_def)

lemma add_to_sums:
  "sum_list (map snd (add_to a x acc)) = sum_list (map snd acc) + x"
  "sum_list (map snd (filter (\<lambda>y. fst y = c) (add_to a x acc))) =
     sum_list (map snd (filter (\<lambda>y. fst y = c) acc)) + (if a = c then x else 0)"
  by (induction a x acc rule: add_to.induct) auto

lemma add_to_grid:
  "\<forall>y \<in> set acc. 0 \<le> snd y \<and> on_grid 4 (snd y) \<Longrightarrow> 0 \<le> x \<Longrightarrow> on_grid 4 x \<Longrightarrow>
   \<forall>y \<in> set (add_to a x acc). 0 \<le> snd y \<and> on_grid 4 (snd y)"
  by (induction a x acc rule: add_to.induct) auto

lemma group_debits_ok:
  assumes "group_debits st org ls acc = Inr r"
  shows "sum_list (map snd r) = sum_list (map snd acc) + sum_list (map line_base ls) \<and>
    sum_list (map snd (filter (\<lambda>y. fst y = a) r)) = sum_list (map snd (filter (\<lambda>y. fst y = a) acc)) +
      sum_list (map line_base (filter (\<lambda>l. line_debit_account st org l = Inr a) ls)) \<and>
    ((\<forall>y \<in> set acc. 0 \<le> snd y \<and> on_grid 4 (snd y)) \<longrightarrow> (\<forall>l \<in> set ls. 0 \<le> line_base l \<and> on_grid 4 (line_base l)) \<longrightarrow>
      (\<forall>y \<in> set r. 0 \<le> snd y \<and> on_grid 4 (snd y)))"
  using assms
proof (induction ls arbitrary: acc)
  case (Cons l ls)
  from Cons.prems obtain c where c: "line_debit_account st org l = Inr c"
    and r: "group_debits st org ls (add_to c (line_base l) acc) = Inr r"
    by (auto simp: line_base_def)
  note ih = Cons.IH [OF r]
  show ?case
  proof (intro conjI impI)
    show "sum_list (map snd r) = sum_list (map snd acc) + sum_list (map line_base (l # ls))"
      using conjunct1 [OF ih] by (simp add: add_to_sums(1))
    show "sum_list (map snd (filter (\<lambda>y. fst y = a) r)) = sum_list (map snd (filter (\<lambda>y. fst y = a) acc)) +
      sum_list (map line_base (filter (\<lambda>l. line_debit_account st org l = Inr a) (l # ls)))"
      using conjunct1 [OF conjunct2 [OF ih]] c by (simp add: add_to_sums(2))
    assume acc: "\<forall>y \<in> set acc. 0 \<le> snd y \<and> on_grid 4 (snd y)"
      and base: "\<forall>m \<in> set (l # ls). 0 \<le> line_base m \<and> on_grid 4 (line_base m)"
    have "\<forall>y \<in> set (add_to c (line_base l) acc). 0 \<le> snd y \<and> on_grid 4 (snd y)"
      by (rule add_to_grid [OF acc]) (use base in simp_all)
    moreover have "\<forall>m \<in> set ls. 0 \<le> line_base m \<and> on_grid 4 (line_base m)" using base by simp
    ultimately show "\<forall>y \<in> set r. 0 \<le> snd y \<and> on_grid 4 (snd y)"
      using conjunct2 [OF conjunct2 [OF ih]] by blast
  qed
qed simp

lemma money_okI: "on_grid 4 x \<Longrightarrow> 0 \<le> x \<Longrightarrow> x \<le> y \<Longrightarrow> fits y \<Longrightarrow> money_ok x"
  by (auto simp: money_ok_def fits_def)

lemma account_is_resolved:
  "resolve_system_account (ledger st) org k = Inr x \<Longrightarrow> account_is st org k a \<longleftrightarrow> a_id x = a"
  by (simp add: account_is_def)

text \<open>The three groups of lines: each is acceptable, and each has the net effect it should have.\<close>

lemma cost_lines_ok:
  assumes f: "figures_ok (bill_lines_totals b) (bi_totals b)" and pos: "0 < grand_total (bi_totals b)"
    and op: "cost_lines st org b = Inr ls"
  shows "lines_ok ls (taxable_total (bi_totals b)) 0" and "lines_net a ls = cost_net st org b a" and "ls \<noteq> []"
proof -
  let ?t = "bi_totals b"
  have base: "\<forall>l \<in> set (bi_lines b). 0 \<le> line_base l \<and> on_grid 4 (line_base l)"
    and sum: "sum_list (map line_base (bi_lines b)) = taxable_total ?t"
    using figures_okD(1,2) [OF f] by (simp_all add: bill_lines_totals_def line_base_def [abs_def] o_def)
  have tp: "0 < taxable_total ?t" "fits (taxable_total ?t)" using figures_okD(13,14) [OF f] pos by simp_all
  have tg: "on_grid 4 (taxable_total ?t)" unfolding sum [symmetric] using base by (auto intro: on_grid_sum_list)
  have "lines_ok ls (taxable_total ?t) 0 \<and> lines_net a ls = cost_net st org b a \<and> ls \<noteq> []"
  proof (cases "bi_receipt b")
    case (Some i)
    with op obtain x where x: "resolve_system_account (ledger st) org ''grni'' = Inr x"
      "ls = [debit_line (a_id x) (taxable_total ?t) ''Clearing goods received not invoiced'']"
      by (auto simp: cost_lines_def)
    have "money_ok (taxable_total ?t)" using tp tg by (intro money_okI [of _ "taxable_total ?t"]) auto
    with x tp Some show ?thesis
      by (simp add: lines_ok_debit cost_net_def account_is_resolved [OF x(1)])
  next
    case None
    with op obtain r where r: "group_debits st org (bi_lines b) [] = Inr r"
      "ls = map (\<lambda>(k, x). debit_line (id k) x ''Purchase'') (filter (\<lambda>(k, x). 0 < x) r)"
      by (auto simp: cost_lines_def)
    note g = group_debits_ok [OF r(1)]
    have nn: "\<forall>y \<in> set r. 0 \<le> snd y \<and> on_grid 4 (snd y)" using g base by simp
    have sr: "sum_list (map snd r) = taxable_total ?t" using g sum by simp
    have "\<forall>y \<in> set r. 0 \<le> snd y \<and> money_ok (snd y)"
    proof
      fix y assume y: "y \<in> set r"
      then have "snd y \<le> sum_list (map snd r)" using nn by (intro member_le_sum_list) auto
      with sr tp nn y show "0 \<le> snd y \<and> money_ok (snd y)"
        by (intro conjI money_okI [of _ "taxable_total ?t"]) auto
    qed
    note pp = positive_parts [OF this, where f = id and g = "\<lambda>_. ''Purchase''", folded r(2)]
    have "lines_net a ls = cost_net st org b a" using pp(2) [of a] g [of a] None by (simp add: cost_net_def)
    moreover have "ls \<noteq> []" using pp(1) sr tp by (auto simp: lines_ok_def)
    ultimately show ?thesis using pp(1) sr by simp
  qed
  then show "lines_ok ls (taxable_total ?t) 0" "lines_net a ls = cost_net st org b a" "ls \<noteq> []" by simp_all
qed

lemma tax_lines_ok:
  assumes f: "figures_ok ts (bi_totals b)" and op: "tax_lines st org b = Inr ls"
  shows "lines_ok ls (tax_total (bi_totals b)) 0"
    and "lines_net a ls = (if account_is st org ''gst_input'' a then tax_total (bi_totals b) else 0)"
proof -
  let ?t = "bi_totals b"
  let ?xs = "[(''CGST'', cgst_total ?t), (''SGST'', sgst_total ?t), (''IGST'', igst_total ?t)]"
  have t: "0 \<le> cgst_total ?t" "0 \<le> sgst_total ?t" "0 \<le> igst_total ?t" "on_grid 4 (cgst_total ?t)" "on_grid 4 (sgst_total ?t)"
    "on_grid 4 (igst_total ?t)" "tax_total ?t = cgst_total ?t + sgst_total ?t + igst_total ?t" "fits (tax_total ?t)"
    by (fact figures_okD [OF f])+
  have "lines_ok ls (tax_total ?t) 0 \<and> lines_net a ls = (if account_is st org ''gst_input'' a then tax_total ?t else 0)"
  proof (cases "0 < tax_total ?t")
    case False
    with t op have "ls = []" "tax_total ?t = 0" by (auto simp: tax_lines_def)
    then show ?thesis by (simp add: lines_ok_def)
  next
    case True
    with op obtain x where x: "resolve_system_account (ledger st) org ''gst_input'' = Inr x"
      "ls = map (\<lambda>(label, amount). debit_line (a_id x) amount (''Input '' @ label)) (filter (\<lambda>(label, amount). 0 < amount) ?xs)"
      unfolding tax_lines_def by auto
    have "\<forall>y \<in> set ?xs. 0 \<le> snd y \<and> money_ok (snd y)"
      using t by (auto intro!: money_okI [of _ "tax_total ?t"])
    note pp = positive_parts [OF this, where f = "\<lambda>_. a_id x" and g = "\<lambda>label. ''Input '' @ label", folded x(2)]
    show ?thesis
      using pp(1) pp(2) [of a] t(7) account_is_resolved [OF x(1), of a] by (simp add: add.assoc)
  qed
  then show "lines_ok ls (tax_total ?t) 0"
    "lines_net a ls = (if account_is st org ''gst_input'' a then tax_total ?t else 0)" by simp_all
qed

lemma rounding_lines_ok:
  assumes f: "figures_ok ts (bi_totals b)" and op: "rounding_lines st org b = Inr ls"
  shows "lines_ok ls (max 0 (round_off (bi_totals b))) (max 0 (- round_off (bi_totals b)))"
    and "lines_net a ls = (if account_is st org ''rounding'' a then round_off (bi_totals b) else 0)"
proof -
  let ?r = "round_off (bi_totals b)"
  have m: "money_ok ?r" "money_ok (- ?r)" using figures_okD(9,16) [OF f] by (simp_all add: money_ok_def fits_def)
  have "lines_ok ls (max 0 ?r) (max 0 (- ?r)) \<and> lines_net a ls = (if account_is st org ''rounding'' a then ?r else 0)"
  proof (cases "?r = 0")
    case True
    with op show ?thesis by (simp add: rounding_lines_def lines_ok_def)
  next
    case False
    with op obtain x where x: "resolve_system_account (ledger st) org ''rounding'' = Inr x"
      "ls = [if 0 < ?r then debit_line (a_id x) ?r ''Rounding'' else credit_line (a_id x) (- ?r) ''Rounding'']"
      by (auto simp: rounding_lines_def Let_def)
    show ?thesis
    proof (cases "0 < ?r")
      case True
      with m lines_ok_debit [of ?r "a_id x"] show ?thesis
        by (simp add: x(2) account_is_resolved [OF x(1)] max_def)
    next
      case neg: False
      with False m lines_ok_credit [of "- ?r" "a_id x"] show ?thesis
        by (simp add: x(2) account_is_resolved [OF x(1)] max_def)
    qed
  qed
  then show "lines_ok ls (max 0 ?r) (max 0 (- ?r))"
    "lines_net a ls = (if account_is st org ''rounding'' a then ?r else 0)" by simp_all
qed

text \<open>
  The entry of a bill is one the ledger accepts as balanced: whatever way its lines are costed and taxed,
  debits equal credits and every line is a money amount on one side.
\<close>

lemma bill_entry_ok:
  assumes f: "figures_ok (bill_lines_totals b) (bi_totals b)" and pos: "0 < grand_total (bi_totals b)"
    and op: "bill_entry st org b = Inr d"
  shows "validate_balance (ec_lines d) = Inr ()" and "lines_net a (ec_lines d) = bill_net st org b a" and "ec_post d"
proof -
  let ?t = "bi_totals b"
  from op obtain payable cost tax rounding memo where
    p: "resolve_system_account (ledger st) org ''accounts_payable'' = Inr payable"
    and l: "cost_lines st org b = Inr cost" "tax_lines st org b = Inr tax" "rounding_lines st org b = Inr rounding"
    and d: "ec_lines d = cost @ tax @ rounding @ [credit_line (a_id payable) (grand_total ?t) memo]" "ec_post d"
    by (auto simp: bill_entry_def split: option.splits)
  note c = cost_lines_ok [OF f pos l(1)] and t = tax_lines_ok [OF f l(2)] and r = rounding_lines_ok [OF f l(3)]
  have g: "lines_ok [credit_line (a_id payable) (grand_total ?t) memo] 0 (grand_total ?t)"
    using figures_okD(10,17) [OF f] pos by (intro lines_ok_credit) (auto intro: money_okI)
  have ok: "lines_ok (ec_lines d) (taxable_total ?t + (tax_total ?t + (max 0 (round_off ?t) + 0)))
      (0 + (0 + (max 0 (- round_off ?t) + grand_total ?t)))"
    unfolding d(1) by (intro lines_ok_append c(1) t(1) r(1) g)
  have eq: "taxable_total ?t + (tax_total ?t + (max 0 (round_off ?t) + 0)) = 0 + (0 + (max 0 (- round_off ?t) + grand_total ?t))"
    using figures_okD(12) [OF f] by (simp add: max_def)
  have "0 + (0 + (max 0 (- round_off ?t) + grand_total ?t)) \<noteq> 0" using pos by (simp add: max_def)
  moreover have "\<not> length (ec_lines d) < 2" using c(3) unfolding d(1) by (cases cost) simp_all
  moreover have "each validate_line (ec_lines d) = Inr ()" using ok by (simp add: lines_ok_def each_eq_Inr_iff)
  ultimately show "validate_balance (ec_lines d) = Inr ()"
    using ok eq by (simp add: validate_balance_def lines_ok_def Let_def)
  show "lines_net a (ec_lines d) = bill_net st org b a"
    using c(2) [of a] t(2) [of a] r(2) [of a] account_is_resolved [OF p, of a] unfolding d(1) by (simp add: bill_net_def)
  show "ec_post d" by (rule d(2))
qed

section \<open>Bills, payments and allocations\<close>

definition paid_to :: "allocation list \<Rightarrow> uuid \<Rightarrow> decimal" where
  "paid_to as i = sum_list (map al_amount (filter (\<lambda>a. al_bill a = i) as))"

definition spent_by :: "allocation list \<Rightarrow> uuid \<Rightarrow> decimal" where
  "spent_by as i = sum_list (map al_amount (filter (\<lambda>a. al_payment a = i) as))"

lemma allocation_sums [simp]:
  "paid_to [] i = 0" "paid_to (as @ bs) i = paid_to as i + paid_to bs i"
  "paid_to (a # as) i = (if al_bill a = i then al_amount a else 0) + paid_to as i"
  "spent_by [] i = 0" "spent_by (as @ bs) i = spent_by as i + spent_by bs i"
  "spent_by (a # as) i = (if al_payment a = i then al_amount a else 0) + spent_by as i"
  by (simp_all add: paid_to_def spent_by_def)

text \<open>What the status of a bill says about the money paid on it.\<close>

fun status_ok :: "bill_status \<Rightarrow> decimal \<Rightarrow> decimal \<Rightarrow> bool" where
  "status_ok B_PARTIALLY_PAID paid due \<longleftrightarrow> 0 < paid \<and> paid < due"
| "status_ok B_PAID paid due \<longleftrightarrow> 0 < paid \<and> paid = due"
| "status_ok s paid due \<longleftrightarrow> paid = 0 \<and> 0 \<le> due"

definition bill_ok :: "allocation list \<Rightarrow> bill \<Rightarrow> bool" where
  "bill_ok as b \<longleftrightarrow> figures_ok (bill_lines_totals b) (bi_totals b) \<and> bi_paid b = paid_to as (bi_id b) \<and>
     status_ok (bi_status b) (bi_paid b) (grand_total (bi_totals b))"

definition payment_ok :: "allocation list \<Rightarrow> supplier_payment \<Rightarrow> bool" where
  "payment_ok as p \<longleftrightarrow> 0 \<le> sp_unallocated p \<and> sp_amount p = sp_unallocated p + spent_by as (sp_id p)"

definition linked :: "bill list \<Rightarrow> supplier_payment list \<Rightarrow> allocation \<Rightarrow> bool" where
  "linked bs ps a \<longleftrightarrow> 0 < al_amount a \<and>
     (\<exists>b \<in> set bs. \<exists>p \<in> set ps. bi_id b = al_bill a \<and> sp_id p = al_payment a \<and> bi_supplier b = sp_supplier p \<and> bi_org b = sp_org p)"

definition allocation_key :: "allocation \<Rightarrow> uuid \<times> uuid" where
  "allocation_key a = (al_payment a, al_bill a)"

definition payables_inv :: "bill list \<Rightarrow> supplier_payment list \<Rightarrow> allocation list \<Rightarrow> uuid \<Rightarrow> bool" where
  "payables_inv bs ps as n \<longleftrightarrow>
     distinct (map bi_id bs) \<and> distinct (map sp_id ps) \<and> distinct (map allocation_key as) \<and>
     (\<forall>b \<in> set bs. bi_id b < n \<and> bill_ok as b) \<and> (\<forall>p \<in> set ps. sp_id p < n \<and> payment_ok as p) \<and>
     (\<forall>a \<in> set as. al_id a < n \<and> linked bs ps a)"

lemma payables_invD:
  assumes "payables_inv bs ps as n"
  shows "distinct (map bi_id bs)" "distinct (map sp_id ps)" "distinct (map allocation_key as)"
    "\<And>b. b \<in> set bs \<Longrightarrow> bi_id b < n" "\<And>b. b \<in> set bs \<Longrightarrow> bill_ok as b"
    "\<And>p. p \<in> set ps \<Longrightarrow> sp_id p < n" "\<And>p. p \<in> set ps \<Longrightarrow> payment_ok as p"
    "\<And>a. a \<in> set as \<Longrightarrow> al_id a < n" "\<And>a. a \<in> set as \<Longrightarrow> linked bs ps a"
  using assms by (auto simp: payables_inv_def)

lemma payables_mono: "payables_inv bs ps as n \<Longrightarrow> n \<le> m \<Longrightarrow> payables_inv bs ps as m"
  unfolding payables_inv_def by (meson order_less_le_trans)

lemma payables_empty: "payables_inv [] [] [] n"
  by (simp add: payables_inv_def)

text \<open>An identifier that was never handed out has no allocations.\<close>

lemma nothing_allocated:
  assumes "payables_inv bs ps as n"
  shows "paid_to as n = 0" and "spent_by as n = 0"
proof -
  have "al_bill a \<noteq> n \<and> al_payment a \<noteq> n" if "a \<in> set as" for a
    using payables_invD(9) [OF assms that] payables_invD(4,6) [OF assms] by (fastforce simp: linked_def)
  then have "filter (\<lambda>a. al_bill a = n) as = []" "filter (\<lambda>a. al_payment a = n) as = []"
    by (auto simp: filter_empty_conv)
  then show "paid_to as n = 0" "spent_by as n = 0" by (simp_all add: paid_to_def spent_by_def)
qed

lemma linked_mono:
  assumes "linked bs ps a"
    and "\<And>b. b \<in> set bs \<Longrightarrow> \<exists>b' \<in> set bs'. bi_id b' = bi_id b \<and> bi_supplier b' = bi_supplier b \<and> bi_org b' = bi_org b"
    and "\<And>p. p \<in> set ps \<Longrightarrow> \<exists>p' \<in> set ps'. sp_id p' = sp_id p \<and> sp_supplier p' = sp_supplier p \<and> sp_org p' = sp_org p"
  shows "linked bs' ps' a"
  using assms unfolding linked_def by metis

lemma payables_new_bill:
  assumes "payables_inv bs ps as n" "bi_id b = n" "figures_ok (bill_lines_totals b) (bi_totals b)" "bi_paid b = 0"
    "bi_status b = B_DRAFT" "0 \<le> grand_total (bi_totals b)"
  shows "payables_inv (bs @ [b]) ps as (n + 1)"
proof -
  have "bill_ok as b" using assms nothing_allocated(1) [OF assms(1)] by (simp add: bill_ok_def)
  moreover have "linked (bs @ [b]) ps a" if "linked bs ps a" for a using that by (auto simp: linked_def)
  moreover have "bi_id b \<notin> bi_id ` set bs" using payables_invD(4) [OF assms(1)] assms(2) by fastforce
  ultimately show ?thesis using assms(1,2) unfolding payables_inv_def by (fastforce simp: less_Suc_eq)
qed

lemma payables_new_payment:
  assumes "payables_inv bs ps as n" "sp_id p = n" "0 \<le> sp_amount p" "sp_unallocated p = sp_amount p"
  shows "payables_inv bs (ps @ [p]) as (n + 1)"
proof -
  have "payment_ok as p" using assms nothing_allocated(2) [OF assms(1)] by (simp add: payment_ok_def)
  moreover have "linked bs (ps @ [p]) a" if "linked bs ps a" for a using that by (auto simp: linked_def)
  moreover have "sp_id p \<notin> sp_id ` set ps" using payables_invD(6) [OF assms(1)] assms(2) by fastforce
  ultimately show ?thesis using assms(1,2) unfolding payables_inv_def by (fastforce simp: less_Suc_eq)
qed

text \<open>What an organization owes its suppliers: posted bills not yet paid, less payments not yet allocated.\<close>

definition bill_due :: "uuid \<Rightarrow> bill \<Rightarrow> decimal" where
  "bill_due org b = (if bi_org b = org \<and> bill_is_posted (bi_status b) then outstanding b else 0)"

definition payment_left :: "uuid \<Rightarrow> supplier_payment \<Rightarrow> decimal" where
  "payment_left org p = (if sp_org p = org then sp_unallocated p else 0)"

definition owed :: "bill list \<Rightarrow> supplier_payment list \<Rightarrow> uuid \<Rightarrow> decimal" where
  "owed bs ps org = sum_list (map (bill_due org) bs) - sum_list (map (payment_left org) ps)"

lemma sum_replaced:
  fixes f :: "'a \<Rightarrow> decimal"
  assumes "distinct (map key xs)" "x \<in> set xs" "key x' = key x"
  shows "sum_list (map f (update_where (\<lambda>y. key y = key x') (\<lambda>_. x') xs)) = sum_list (map f xs) + f x' - f x"
  using sum_list_replace [OF assms(1,2), of "\<lambda>_. True" x' f] assms(3) by simp

text \<open>Replacing a bill or a payment by a row with the same identity.\<close>

definition same_bill :: "bill \<Rightarrow> bill \<Rightarrow> bool" where
  "same_bill b b' \<longleftrightarrow> bi_id b' = bi_id b \<and> bi_supplier b' = bi_supplier b \<and> bi_org b' = bi_org b \<and>
     bi_lines b' = bi_lines b \<and> bi_totals b' = bi_totals b"

definition same_payment :: "supplier_payment \<Rightarrow> supplier_payment \<Rightarrow> bool" where
  "same_payment p p' \<longleftrightarrow> sp_id p' = sp_id p \<and> sp_supplier p' = sp_supplier p \<and> sp_org p' = sp_org p \<and> sp_amount p' = sp_amount p"

lemma payables_replace_bill:
  assumes inv: "payables_inv bs ps as n" and b: "b \<in> set bs" "same_bill b b'"
    and st: "bi_paid b' = bi_paid b" "status_ok (bi_status b') (bi_paid b') (grand_total (bi_totals b'))"
  shows "payables_inv (update_where (\<lambda>y. bi_id y = bi_id b') (\<lambda>_. b') bs) ps as n"
proof -
  let ?bs = "update_where (\<lambda>y. bi_id y = bi_id b') (\<lambda>_. b') bs"
  have id: "bi_id b' = bi_id b" using b(2) by (simp add: same_bill_def)
  have set: "set ?bs = insert b' (set bs - {b})"
    unfolding id by (rule replace_row [OF payables_invD(1) [OF inv] b(1)])
  have ids: "map bi_id ?bs = map bi_id bs" by (rule map_key_replace [of bi_id]) simp
  have "bill_ok as b'" using payables_invD(5) [OF inv b(1)] b(2) st
    by (simp add: bill_ok_def same_bill_def bill_lines_totals_def)
  moreover have "linked ?bs ps a" if "linked bs ps a" for a
    by (rule linked_mono [OF that]) (use b set in \<open>auto simp: same_bill_def\<close>)
  ultimately show ?thesis
    using inv ids id b(1) unfolding payables_inv_def set by auto
qed

text \<open>One allocation: the row it adds or increases, and what it adds to the sums.\<close>

lemma payables_allocate:
  assumes inv: "payables_inv bs ps as n" and b: "b \<in> set bs" "same_bill b b'" "bi_paid b' = bi_paid b + x"
    and st: "status_ok (bi_status b') (bi_paid b') (grand_total (bi_totals b'))"
    and p: "p \<in> set ps" "same_payment p p'" "sp_unallocated p' = sp_unallocated p - x" "0 \<le> sp_unallocated p'"
    and as': "distinct (map allocation_key as')" "\<And>a. a \<in> set as' \<Longrightarrow> al_id a < m \<and> linked bs ps a" "n \<le> m"
    and sums: "\<And>i. paid_to as' i = paid_to as i + (if i = bi_id b then x else 0)"
      "\<And>i. spent_by as' i = spent_by as i + (if i = sp_id p then x else 0)"
  shows "payables_inv (update_where (\<lambda>y. bi_id y = bi_id b') (\<lambda>_. b') bs)
    (update_where (\<lambda>y. sp_id y = sp_id p') (\<lambda>_. p') ps) as' m"
proof -
  let ?bs = "update_where (\<lambda>y. bi_id y = bi_id b') (\<lambda>_. b') bs"
  let ?ps = "update_where (\<lambda>y. sp_id y = sp_id p') (\<lambda>_. p') ps"
  have id: "bi_id b' = bi_id b" "sp_id p' = sp_id p" using b(2) p(2) by (simp_all add: same_bill_def same_payment_def)
  have bset: "set ?bs = insert b' (set bs - {b})"
    unfolding id by (rule replace_row [OF payables_invD(1) [OF inv] b(1)])
  have pset: "set ?ps = insert p' (set ps - {p})"
    unfolding id by (rule replace_row [OF payables_invD(2) [OF inv] p(1)])
  have ids: "map bi_id ?bs = map bi_id bs" "map sp_id ?ps = map sp_id ps"
    by (rule map_key_replace [of bi_id], simp) (rule map_key_replace [of sp_id], simp)
  have b': "bill_ok as' b'" using payables_invD(5) [OF inv b(1)] b(2,3) st
    by (simp add: bill_ok_def same_bill_def bill_lines_totals_def sums)
  have bs': "bill_ok as' y" if "y \<in> set bs - {b}" for y
  proof -
    have "bi_id y \<noteq> bi_id b" using that b(1) payables_invD(1) [OF inv] by (metis Diff_iff distinct_map inj_onD singletonI)
    then show ?thesis using payables_invD(5) [OF inv, of y] that by (auto simp: bill_ok_def sums)
  qed
  have p': "payment_ok as' p'" using payables_invD(7) [OF inv p(1)] p(2,3,4)
    by (simp add: payment_ok_def same_payment_def sums)
  have ps': "payment_ok as' y" if "y \<in> set ps - {p}" for y
  proof -
    have "sp_id y \<noteq> sp_id p" using that p(1) payables_invD(2) [OF inv] by (metis Diff_iff distinct_map inj_onD singletonI)
    then show ?thesis using payables_invD(7) [OF inv, of y] that by (simp add: payment_ok_def sums)
  qed
  have "linked ?bs ?ps a" if "linked bs ps a" for a
    by (rule linked_mono [OF that]) (use b p bset pset in \<open>auto simp: same_bill_def same_payment_def\<close>)
  moreover have "bi_id y < m" if "y \<in> set bs" for y using payables_invD(4) [OF inv that] as'(3) by simp
  moreover have "sp_id y < m" if "y \<in> set ps" for y using payables_invD(6) [OF inv that] as'(3) by simp
  ultimately show ?thesis
    using payables_invD(1,2) [OF inv] ids id as'(1,2) b' bs' p' ps' b(1) p(1)
    unfolding payables_inv_def bset pset by auto
qed

lemma sum_bump:
  assumes "\<And>a. q (g a) = q a" "\<And>a. f (g a) = f a + (x :: decimal)"
  shows "sum_list (map f (filter q (update_where P g xs))) =
    sum_list (map f (filter q xs)) + of_nat (length (filter (\<lambda>a. q a \<and> P a) xs)) * x"
  by (induction xs) (auto simp: assms algebra_simps)

lemma bump_row:
  fixes x :: decimal
  assumes d: "distinct (map allocation_key as)" and a: "a \<in> set as" "allocation_key a = (pid, bid)"
  defines "as' \<equiv> update_where (\<lambda>a. al_payment a = pid \<and> al_bill a = bid) (al_amount_update (\<lambda>y. y + x)) as"
  shows "paid_to as' i = paid_to as i + (if i = bid then x else 0)"
    and "spent_by as' i = spent_by as i + (if i = pid then x else 0)"
    and "map allocation_key as' = map allocation_key as" and "map al_id as' = map al_id as"
proof -
  have one: "filter (\<lambda>y. al_payment y = pid \<and> al_bill y = bid) as = [a]"
    using filter_key_unique [OF d a(1)] a(2) by (simp add: allocation_key_def)
  have "filter (\<lambda>y. al_bill y = i \<and> al_payment y = pid \<and> al_bill y = bid) as = (if i = bid then [a] else [])"
    using one by (cases "i = bid") (auto simp: filter_empty_conv conj_commute cong: conj_cong)
  then show "paid_to as' i = paid_to as i + (if i = bid then x else 0)"
    unfolding paid_to_def as'_def by (subst sum_bump [where x = x]) auto
  have "filter (\<lambda>y. al_payment y = i \<and> al_payment y = pid \<and> al_bill y = bid) as = (if i = pid then [a] else [])"
    using one by (cases "i = pid") (auto simp: filter_empty_conv cong: conj_cong)
  then show "spent_by as' i = spent_by as i + (if i = pid then x else 0)"
    unfolding spent_by_def as'_def by (subst sum_bump [where x = x]) auto
  show "map allocation_key as' = map allocation_key as" "map al_id as' = map al_id as"
    unfolding as'_def by (rule map_update_where, simp add: allocation_key_def)+
qed

lemma attach_amount_effect:
  assumes op: "attach_amount st existing p bid x = Inr st1"
    and d: "distinct (map allocation_key (allocations st))" and ids: "\<forall>a \<in> set (allocations st). al_id a < doc_id st"
    and ex: "\<forall>i \<in> set existing. (sp_id p, i) \<in> allocation_key ` set (allocations st)" and x: "0 < x"
  obtains as' st0 where "st1 = st0\<lparr>allocations := as'\<rparr>" "st0 = st \<or> st0 = take_doc_id st"
    "distinct (map allocation_key as')" "\<forall>a \<in> set as'. al_id a < doc_id st1"
    "allocation_key ` set as' = insert (sp_id p, bid) (allocation_key ` set (allocations st))"
    "\<And>a. a \<in> set as' \<Longrightarrow> 0 < al_amount a \<or> (\<exists>a0 \<in> set (allocations st). allocation_key a0 = allocation_key a \<and> al_amount a0 = al_amount a)"
    "\<And>i. paid_to as' i = paid_to (allocations st) i + (if i = bid then x else 0)"
    "\<And>i. spent_by as' i = spent_by (allocations st) i + (if i = sp_id p then x else 0)"
proof (cases "bid \<in> set existing")
  case True
  let ?as = "update_where (\<lambda>a. al_payment a = sp_id p \<and> al_bill a = bid) (al_amount_update (\<lambda>y. y + x)) (allocations st)"
  from op True have st1: "st1 = st\<lparr>allocations := ?as\<rparr>"
    and chk: "\<forall>a \<in> set ?as. al_payment a = sp_id p \<and> al_bill a = bid \<longrightarrow> allocation_checks st a = Inr ()"
    by (auto simp: attach_amount_def Let_def each_eq_Inr_iff)
  from ex True obtain a where a: "a \<in> set (allocations st)" "allocation_key a = (sp_id p, bid)"
    by (metis imageE)
  note bump = bump_row [OF d a, of x]
  have keys: "allocation_key ` set ?as = allocation_key ` set (allocations st)"
    using arg_cong [OF bump(3), of set] by (simp only: list.set_map)
  have ims: "al_id ` set ?as = al_id ` set (allocations st)"
    using arg_cong [OF bump(4), of set] by (simp only: list.set_map)
  have idst: "doc_id st1 = doc_id st" by (simp add: st1 doc_id_def)
  have "\<forall>a \<in> set ?as. al_id a < doc_id st1"
  proof
    fix y assume "y \<in> set ?as"
    then have "al_id y \<in> al_id ` set (allocations st)" unfolding ims [symmetric] by (rule imageI)
    with ids idst show "al_id y < doc_id st1" by auto
  qed
  moreover have "0 < al_amount y \<or> (\<exists>a0 \<in> set (allocations st). allocation_key a0 = allocation_key y \<and> al_amount a0 = al_amount y)"
    if y: "y \<in> set ?as" for y
  proof (cases "al_payment y = sp_id p \<and> al_bill y = bid")
    case True
    then have "allocation_checks st y = Inr ()" using chk y by blast
    then show ?thesis by (simp add: allocation_checks_def bindr_eq_Inr_iff)
  next
    case False
    then have "y \<in> set (allocations st)" using y by (auto simp: update_where_def split: if_splits)
    then show ?thesis by blast
  qed
  moreover have "(sp_id p, bid) \<in> allocation_key ` set (allocations st)" using a by (metis imageI)
  then have "allocation_key ` set ?as = insert (sp_id p, bid) (allocation_key ` set (allocations st))"
    unfolding keys by (rule insert_absorb [symmetric])
  moreover have "distinct (map allocation_key ?as)" unfolding bump(3) by (rule d)
  ultimately show thesis by (intro that [OF st1 disjI1 [OF refl] _ _ _ _ bump(1,2)])
next
  case False
  let ?a = "\<lparr>al_id = doc_id st, al_payment = sp_id p, al_bill = bid, al_amount = x\<rparr>"
  from op False have st1: "st1 = (take_doc_id st)\<lparr>allocations := allocations st @ [?a]\<rparr>"
    and chk: "allocation_checks st ?a = Inr ()" by (auto simp: attach_amount_def add_allocation_def)
  have "(sp_id p, bid) \<notin> allocation_key ` set (allocations st)"
  proof
    assume "(sp_id p, bid) \<in> allocation_key ` set (allocations st)"
    then obtain y where y: "y \<in> set (allocations st)" "al_payment y = sp_id p" "al_bill y = bid"
      by (auto simp: allocation_key_def)
    moreover have "al_id y \<noteq> doc_id st" using ids y(1) by auto
    ultimately show False using chk by (auto simp: allocation_checks_def)
  qed
  then have "distinct (map allocation_key (allocations st @ [?a]))" using d by (simp add: allocation_key_def)
  moreover have "\<forall>a \<in> set (allocations st @ [?a]). al_id a < doc_id st1"
    using ids unfolding st1 by (auto simp: doc_id_def)
  moreover have "0 < al_amount y \<or> (\<exists>a0 \<in> set (allocations st). allocation_key a0 = allocation_key y \<and> al_amount a0 = al_amount y)"
    if "y \<in> set (allocations st @ [?a])" for y
    using that x by (cases "y = ?a") auto
  ultimately show thesis
    using st1 by (intro that [of "allocations st @ [?a]" "take_doc_id st"]) (simp_all add: allocation_key_def)
qed

section \<open>Allocating a payment\<close>

text \<open>The payments with one row replaced: the row the loop of \<^verbatim>\<open>_apply\<close> holds in memory until the flush.\<close>

definition hold :: "supplier_payment \<Rightarrow> supplier_payment list \<Rightarrow> supplier_payment list" where
  "hold p ps = update_where (\<lambda>y. sp_id y = sp_id p) (\<lambda>_. p) ps"

lemma hold_hold: "sp_id p' = sp_id p \<Longrightarrow> hold p' (hold p ps) = hold p' ps"
  by (induction ps) (simp_all add: hold_def)

lemma hold_mem: "sp_id p \<in> sp_id ` set ps \<Longrightarrow> p \<in> set (hold p ps)"
  by (auto simp: hold_def update_where_def)

lemma get_bill_ok:
  "get_bill st org i = Inr b \<Longrightarrow> b \<in> set (bills st) \<and> bi_id b = i \<and> bi_org b = org \<and> bi_deleted b = None"
  by (auto simp: get_bill_def split: option.splits dest: scalar_one_or_none_Some)

lemma paid_nonneg: "status_ok s paid due \<Longrightarrow> 0 \<le> paid \<and> paid \<le> due"
  by (cases s) auto

definition loop_inv :: "'h purchasing_db \<Rightarrow> uuid list \<Rightarrow> supplier_payment \<Rightarrow> bool" where
  "loop_inv st existing p \<longleftrightarrow> payables_inv (bills st) (hold p (payments st)) (allocations st) (doc_id st) \<and>
     sp_id p \<in> sp_id ` set (payments st) \<and>
     (\<forall>i \<in> set existing. (sp_id p, i) \<in> allocation_key ` set (allocations st))"

lemma apply_one_effect:
  assumes inv: "loop_inv st existing p" and x: "0 < x" "x \<le> sp_unallocated p" and org: "sp_org p = org"
    and op: "apply_one st org existing p bid x = Inr (st2, p')"
  shows "loop_inv st2 existing p' \<and> payments st2 = payments st \<and> same_payment p p' \<and>
    sp_unallocated p' = sp_unallocated p - x \<and> quiet (stock st) (stock st2) \<and> receipts st2 = receipts st \<and>
    owed (bills st2) (hold p' (payments st2)) = owed (bills st) (hold p (payments st))"
proof -
  from op obtain b st1 where b: "get_bill st org bid = Inr b"
    and c: "bi_supplier b = sp_supplier p" "x \<le> outstanding b" "bill_is_posted (bi_status b)"
    and a: "attach_amount st existing p bid x = Inr st1"
    and p': "p' = p\<lparr>sp_unallocated := sp_unallocated p - x\<rparr>"
    and st2: "save_bill st1 (b\<lparr>bi_paid := bi_paid b + x,
       bi_status := (if is_fully_paid (b\<lparr>bi_paid := bi_paid b + x\<rparr>) then B_PAID else B_PARTIALLY_PAID)\<rparr>) = Inr st2"
    by (auto simp: apply_one_def Let_def)
  define b' where "b' = b\<lparr>bi_paid := bi_paid b + x,
       bi_status := (if is_fully_paid (b\<lparr>bi_paid := bi_paid b + x\<rparr>) then B_PAID else B_PARTIALLY_PAID)\<rparr>"
  let ?ps = "hold p (payments st)"
  have pinv: "payables_inv (bills st) ?ps (allocations st) (doc_id st)" and pm: "p \<in> set ?ps"
    and ex: "\<forall>i \<in> set existing. (sp_id p, i) \<in> allocation_key ` set (allocations st)"
    using inv by (simp_all add: loop_inv_def hold_mem)
  note bk = get_bill_ok [OF b]
  have "bill_ok (allocations st) b" using payables_invD(5) [OF pinv] bk by blast
  then have ok: "0 \<le> bi_paid b" unfolding bill_ok_def using paid_nonneg by blast
  have sb: "same_bill b b'" "bi_paid b' = bi_paid b + x" by (simp_all add: b'_def same_bill_def)
  have st': "status_ok (bi_status b') (bi_paid b') (grand_total (bi_totals b'))"
    using c(2) ok x(1) by (auto simp: b'_def is_fully_paid_def outstanding_def)
  have sp: "same_payment p p'" "sp_unallocated p' = sp_unallocated p - x" "0 \<le> sp_unallocated p'"
    using x by (simp_all add: p' same_payment_def)
  have ids: "\<forall>a \<in> set (allocations st). al_id a < doc_id st" using payables_invD(8) [OF pinv] by blast
  show ?thesis
    using attach_amount_effect [OF a payables_invD(3) [OF pinv] ids ex x(1)]
  proof cases
    case (1 as' st0)
    have q: "quiet (stock st) (stock st0)" and same: "bills st0 = bills st" "payments st0 = payments st" "receipts st0 = receipts st"
      using 1(2) by auto
    have linkb: "linked (bills st) ?ps y" if y: "y \<in> set as'" for y
    proof -
      have "allocation_key y = (sp_id p, bid) \<or> allocation_key y \<in> allocation_key ` set (allocations st)" using y 1(5) by blast
      moreover have "linked (bills st) ?ps y" if "allocation_key y = (sp_id p, bid)" "0 < al_amount y"
        using that bk c(1) org pm by (auto simp: linked_def allocation_key_def)
      moreover have "linked (bills st) ?ps y" if "z \<in> set (allocations st)" "allocation_key z = allocation_key y" "0 < al_amount y" for z
        using payables_invD(9) [OF pinv that(1)] that by (auto simp: linked_def allocation_key_def)
      moreover have "0 < al_amount y" using 1(6) [OF y] payables_invD(9) [OF pinv] unfolding linked_def by metis
      ultimately show ?thesis by (metis imageE)
    qed
    have mono: "doc_id st \<le> doc_id st1" using 1(1,2) by (auto simp: doc_id_def)
    have st2': "st2 = st1\<lparr>bills := update_where (\<lambda>y. bi_id y = bi_id b') (\<lambda>_. b') (bills st1)\<rparr>"
      using st2 by (auto simp: save_bill_def b'_def)
    have "payables_inv (update_where (\<lambda>y. bi_id y = bi_id b') (\<lambda>_. b') (bills st))
        (update_where (\<lambda>y. sp_id y = sp_id p') (\<lambda>_. p') ?ps) as' (doc_id st1)"
      using bk pm sb st' sp 1(3,4,7,8) linkb mono by (intro payables_allocate [OF pinv, of b b' x p]) auto
    moreover have "update_where (\<lambda>y. sp_id y = sp_id p') (\<lambda>_. p') ?ps = hold p' (payments st)"
      using hold_hold [of p' p "payments st"] by (simp add: hold_def p')
    ultimately have "payables_inv (bills st2) (hold p' (payments st2)) (allocations st2) (doc_id st2)"
      using 1(1) same by (simp add: st2' doc_id_def)
    moreover have "\<forall>i \<in> set existing. (sp_id p', i) \<in> allocation_key ` set (allocations st2)"
      using ex 1(1,5) by (simp add: st2' p')
    moreover have "owed (bills st2) (hold p' (payments st2)) = owed (bills st) ?ps"
    proof
      fix o'
      have "sum_list (map (bill_due o') (bills st2)) = sum_list (map (bill_due o') (bills st)) + bill_due o' b' - bill_due o' b"
        using sum_replaced [OF payables_invD(1) [OF pinv], of b b' "bill_due o'"] bk sb(1) 1(1) same
        by (simp add: st2' same_bill_def)
      moreover have "sum_list (map (payment_left o') (hold p' (payments st2))) =
          sum_list (map (payment_left o') ?ps) + payment_left o' p' - payment_left o' p"
        using sum_replaced [OF payables_invD(2) [OF pinv] pm, of p' "payment_left o'"] hold_hold [of p' p "payments st"] 1(1) same
        by (simp add: st2' p' hold_def)
      moreover have "bill_due o' b' = bill_due o' b - (if org = o' then x else 0)"
        using bk c(3) by (auto simp: bill_due_def b'_def outstanding_def bill_is_posted_def)
      moreover have "payment_left o' p' = payment_left o' p - (if org = o' then x else 0)"
        using org by (simp add: payment_left_def p')
      ultimately show "owed (bills st2) (hold p' (payments st2)) o' = owed (bills st) ?ps o'" by (simp add: owed_def)
    qed
    ultimately show ?thesis
      using inv sp q same 1(1) by (simp add: loop_inv_def st2' p')
  qed
qed

lemma apply_each_effect:
  assumes "loop_inv st existing p" "\<forall>(i, x) \<in> set as. 0 < x" "sum_list (map snd as) \<le> sp_unallocated p" "sp_org p = org"
    and "apply_each st org existing p as = Inr (st', p')"
  shows "loop_inv st' existing p' \<and> payments st' = payments st \<and> same_payment p p' \<and>
    sp_unallocated p' = sp_unallocated p - sum_list (map snd as) \<and> quiet (stock st) (stock st') \<and> receipts st' = receipts st \<and>
    owed (bills st') (hold p' (payments st')) = owed (bills st) (hold p (payments st))"
  using assms
proof (induction as arbitrary: st p)
  case Nil
  then show ?case by (simp add: same_payment_def)
next
  case (Cons y ys)
  obtain i x where y: "y = (i, x)" by (cases y)
  from Cons.prems(5) obtain st1 p1 where 1: "apply_one st org existing p i x = Inr (st1, p1)"
    and 2: "apply_each st1 org existing p1 ys = Inr (st', p')" by (auto simp: y)
  have "0 \<le> sum_list (map snd ys)" using Cons.prems(2) by (intro sum_list_nonneg) (auto simp: y)
  then have x: "0 < x" "x \<le> sp_unallocated p" using Cons.prems(2,3) by (auto simp: y)
  note e = apply_one_effect [OF Cons.prems(1) x Cons.prems(4) 1]
  have "loop_inv st' existing p' \<and> payments st' = payments st1 \<and> same_payment p1 p' \<and>
    sp_unallocated p' = sp_unallocated p1 - sum_list (map snd ys) \<and> quiet (stock st1) (stock st') \<and> receipts st' = receipts st1 \<and>
    owed (bills st') (hold p' (payments st')) = owed (bills st1) (hold p1 (payments st1))"
    using e Cons.prems by (intro Cons.IH 2) (auto simp: y same_payment_def)
  then show ?case using e quiet_trans by (auto simp: y same_payment_def)
qed

end
