(* ===== verification/Purchasing_System.thy ===== *)
theory Purchasing_System
  imports Payables_Properties
begin

text \<open>
  Purchasing as a transition system over the stock sub-ledger and the general ledger: the effect of each
  operation that writes bills and payments, the invariant of the tables, and its preservation by every
  operation of the services.
\<close>

section \<open>The invariant\<close>

definition purchasing_inv :: "'h purchasing_db \<Rightarrow> bool" where
  "purchasing_inv st \<longleftrightarrow> stock_inv (stock st) \<and> receipts_ok st \<and>
     payables_inv (bills st) (payments st) (allocations st) (doc_id st)"

lemma purchasing_invD:
  assumes "purchasing_inv st"
  shows "stock_inv (stock st)" "receipts_ok st" "payables_inv (bills st) (payments st) (allocations st) (doc_id st)"
  using assms by (simp_all add: purchasing_inv_def)

lemma receipts_frame:
  assumes "receipts_ok st" "receipts st' = receipts st" "fresh_id (stock st) \<le> fresh_id (stock st')"
    "wh_keys (stock st) \<subseteq> wh_keys (stock st')"
  shows "receipts_ok st'"
  using assms unfolding receipts_ok_def doc_id_def by fastforce

text \<open>An operation that leaves the documents alone, apart from the tables the invariant does not mention.\<close>

lemma purchasing_frame:
  assumes "purchasing_inv st" "stock_inv (stock st')" "fresh_id (stock st) \<le> fresh_id (stock st')"
    "wh_keys (stock st) \<subseteq> wh_keys (stock st')" "receipts st' = receipts st"
    "bills st' = bills st" "payments st' = payments st" "allocations st' = allocations st"
  shows "purchasing_inv st'"
  using assms receipts_frame [OF purchasing_invD(2) [OF assms(1)] assms(5,3,4)]
    payables_mono [OF purchasing_invD(3) [OF assms(1)], of "doc_id st'"]
  by (simp add: purchasing_inv_def doc_id_def)

lemma purchasing_quiet:
  assumes "purchasing_inv st" "quiet (stock st) (stock st')" "receipts st' = receipts st"
    "bills st' = bills st" "payments st' = payments st" "allocations st' = allocations st"
  shows "purchasing_inv st'"
  using assms by (intro purchasing_frame [OF assms(1)]) (simp_all add: quiet_def purchasing_invD(1))

lemma purchasing_audit: "purchasing_inv st \<Longrightarrow> purchasing_inv (audit_doc st x sv ac og rt ri)"
  by (rule purchasing_quiet) simp_all

lemma purchasing_number:
  "purchasing_inv st \<Longrightarrow> document_number st org scope prefix today = Inr (st', n) \<Longrightarrow> purchasing_inv st'"
  by (erule purchasing_quiet) (simp_all add: document_number_quiet)

text \<open>What documents read of the ledger while a number is taken or an audit row written.\<close>

lemma quiet_ledger:
  assumes "quiet (stock st) (stock st')"
  shows "ledger_net (ledger st') = ledger_net (ledger st)"
    and "resolve_system_account (ledger st') = resolve_system_account (ledger st)"
  using assms ledger_net_entries [of "ledger st'" "ledger st"] accounts_resolve [of "ledger st'" "ledger st"]
  by (simp_all add: quiet_def ledger_def)

section \<open>Bills\<close>

lemma receipts_set_ledger:
  assumes "receipts_ok st" "fresh_id (stock st) \<le> fresh_id (stock (set_ledger st b))"
  shows "receipts_ok (set_ledger st b)"
  using assms by (intro receipts_frame [OF assms(1)]) (simp_all add: wh_keys_def)

lemma post_bill_effect:
  assumes inv: "purchasing_inv st" and op: "post_bill hs st org i actor now = Inr (st', b')"
  obtains b e where "b \<in> set (bills st)" "bi_id b = i" "bi_org b = org" "bi_status b = B_DRAFT" "same_bill b b'"
    "bi_status b' = B_POSTED" "bi_paid b' = 0" "bi_entry b' = Some (e_id e)" "e \<in> set (entries (ledger st'))" "is_posted e"
    "\<And>a. entry_net a e = bill_net st org b a"
    "\<And>a. ledger_net (ledger st') a = ledger_net (ledger st) a + bill_net st org b a" "purchasing_inv st'"
    "bills st' = update_where (\<lambda>y. bi_id y = bi_id b') (\<lambda>_. b') (bills st)" "payments st' = payments st"
    "allocations st' = allocations st" "bi_deleted b' = None" "levels (stock st') = levels (stock st)" "bi_receipt b' = bi_receipt b"
proof -
  from op obtain b d st1 e where b: "get_bill st org i = Inr b"
    and nd: "\<not> bill_is_posted (bi_status b)" "bi_status b \<noteq> B_CANCELLED" "0 < grand_total (bi_totals b)"
    and d: "bill_entry st org b = Inr d" and pe: "post_document_entry hs st org d actor ''bill'' (bi_id b) now = Inr (st1, e)"
    and b': "b' = b\<lparr>bi_status := B_POSTED, bi_entry := Some (e_id e), bi_posted_at := Some now\<rparr>"
    and st': "st' = audit_doc (st1\<lparr>bills := update_where (\<lambda>y. bi_id y = bi_id b') (\<lambda>_. b') (bills st1)\<rparr>)
      BILL_POSTED INFO actor org ''bill'' (bi_id b)"
    unfolding post_bill_def Let_def by (auto simp: save_bill_def)
  have draft: "bi_status b = B_DRAFT" using nd(1,2) by (cases "bi_status b") (simp_all add: bill_is_posted_def)
  note bk = get_bill_ok [OF b] and pinv = purchasing_invD(3) [OF inv]
  have ok: "bill_ok (allocations st) b" using payables_invD(5) [OF pinv] bk by blast
  then have f: "figures_ok (bill_lines_totals b) (bi_totals b)" and paid: "bi_paid b = 0"
    using draft by (auto simp: bill_ok_def)
  note en = bill_entry_ok [OF f nd(3) d]
  have sb: "same_bill b b'" "bi_paid b' = bi_paid b" by (simp_all add: b' same_bill_def)
  show thesis
    using post_document_entry_effect [OF purchasing_invD(1) [OF inv] pe en(3)]
  proof cases
    case (1 l)
    have net: "entry_net a e = bill_net st org b a" for a
      using 1(8) [of a] en(2) [of a] by (simp add: lines_net_def)
    have "payables_inv (bills st1) (payments st1) (allocations st1) (doc_id st1)"
      using payables_mono [OF pinv] 1(1,3) by (simp add: doc_id_def)
    then have "payables_inv (update_where (\<lambda>y. bi_id y = bi_id b') (\<lambda>_. b') (bills st1)) (payments st1) (allocations st1) (doc_id st1)"
      using bk sb paid nd(3) 1(1) by (intro payables_replace_bill [of _ _ _ _ b]) (simp_all add: b')
    moreover have "receipts_ok st1" unfolding 1(1) using purchasing_invD(2) [OF inv] 1(1,3) by (intro receipts_set_ledger) simp_all
    ultimately have "purchasing_inv (st1\<lparr>bills := update_where (\<lambda>y. bi_id y = bi_id b') (\<lambda>_. b') (bills st1)\<rparr>)"
      using 1(2) by (simp add: purchasing_inv_def receipts_ok_def doc_id_def)
    then have inv': "purchasing_inv st'" unfolding st' by (rule purchasing_audit)
    have "ledger_net (ledger st') = ledger_net l" "entries (ledger st') = entries l"
      using ledger_net_entries [of "ledger st'" l] by (simp_all add: st' ledger_def 1(1))
    then show thesis
      using bk draft sb paid net inv' 1 by (intro that [of b e]) (simp_all add: b' st')
  qed
qed

lemma apply_lines_totals: "map pl_totals (apply_lines tr k ins) = map (compute_input tr) ins"
  by (induction ins arbitrary: k) (simp_all add: apply_line_def)

lemma length_apply_lines: "length (apply_lines tr k ins) = length ins"
  by (induction ins arbitrary: k) simp_all

lemma bill_lines_zip:
  "length xs = length ys \<Longrightarrow>
   map (\<lambda>l. pl_totals (bl_line l)) (map2 (\<lambda>l i. \<lparr>bl_line = l, bl_expense = pi_expense i\<rparr>) xs ys) = map pl_totals xs"
  by (induction xs ys rule: list_induct2) simp_all

lemma create_bill_inv:
  assumes inv: "purchasing_inv st" and v: "validate_bill_create d = Inr ()"
    and op: "create_bill hs st org d actor today gstin now = Inr (st', b')"
  shows "purchasing_inv st'"
proof -
  from op obtain s st1 number due where s: "get_supplier st org (bc_supplier d) = Inr s"
    and n: "document_number st org ''bill'' ''BILL'' today = Inr (st1, number)"
    and due: "(case bc_due d of Some x \<Rightarrow> Inr x
      | None \<Rightarrow> due_date_for s (case bc_date d of Some x \<Rightarrow> x | None \<Rightarrow> today)) = Inr due"
    by (auto simp: create_bill_def Let_def)
  let ?tr = "supplier_treatment gstin s"
  let ?on = "case bc_date d of Some x \<Rightarrow> x | None \<Rightarrow> today"
  define b where "b = \<lparr>bi_id = doc_id st1, bi_org = org, bi_number = number, bi_invoice_number = bc_invoice_number d,
      bi_supplier = su_id s, bi_order = bc_order d, bi_receipt = bc_receipt d, bi_date = ?on,
      bi_due = due, bi_status = B_DRAFT, bi_paid = 0,
      bi_treatment = ?tr, bi_currency = su_currency s, bi_gstin = su_gstin s,
      bi_totals = totals_of ?tr (bc_lines d) (bc_round_to_whole d), bi_entry = None, bi_reversal = None, bi_posted_at = None,
      bi_cancelled_at = None, bi_created_by = actor, bi_deleted = None,
      bi_lines = map2 (\<lambda>l i. \<lparr>bl_line = l, bl_expense = pi_expense i\<rparr>) (apply_lines ?tr 1 (bc_lines d)) (bc_lines d)\<rparr>"
  have "bindr (add_bill st1 b) (\<lambda>st2.
       if bc_post d then post_bill hs (audit_doc st2 BILL_CREATED INFO actor org ''bill'' (bi_id b)) org (bi_id b) actor now
       else Inr (audit_doc st2 BILL_CREATED INFO actor org ''bill'' (bi_id b), b)) = Inr (st', b')"
    using op s n due unfolding create_bill_def Let_def b_def by (elim bindr_InrE) (auto split: if_splits)
  then obtain st2 where add: "add_bill st1 b = Inr st2"
    and rest: "(if bc_post d then post_bill hs (audit_doc st2 BILL_CREATED INFO actor org ''bill'' (bi_id b)) org (bi_id b) actor now
       else Inr (audit_doc st2 BILL_CREATED INFO actor org ''bill'' (bi_id b), b)) = Inr (st', b')"
    by (elim bindr_InrE)
  have b: "bi_id b = doc_id st1" "bi_status b = B_DRAFT" "bi_paid b = 0"
      "bi_totals b = totals_of ?tr (bc_lines d) (bc_round_to_whole d)"
      "bi_lines b = map2 (\<lambda>l i. \<lparr>bl_line = l, bl_expense = pi_expense i\<rparr>) (apply_lines ?tr 1 (bc_lines d)) (bc_lines d)"
    by (simp_all add: b_def)
  have inv1: "purchasing_inv st1" by (rule purchasing_number [OF inv n])
  from add have chk: "document_checks (bi_totals b) = Inr ()" and st2: "st2 = (take_doc_id st1)\<lparr>bills := bills st1 @ [b]\<rparr>"
    by (auto simp: add_bill_def bill_checks_def)
  have v': "validate_line_inputs (bc_lines d) = Inr ()" using v by (auto simp: validate_bill_create_def)
  have "bill_lines_totals b = map pl_totals (apply_lines ?tr 1 (bc_lines d))"
    unfolding bill_lines_totals_def b(5) by (rule bill_lines_zip) (rule length_apply_lines)
  then have "figures_ok (bill_lines_totals b) (bi_totals b)"
    using figures_computed [OF v' chk [unfolded b(4)]] by (simp add: apply_lines_totals b(4))
  then have "payables_inv (bills st2) (payments st2) (allocations st2) (doc_id st1 + 1)"
    using payables_new_bill [OF purchasing_invD(3) [OF inv1] b(1)] b(2,3) document_checksD(1) [OF chk] by (simp add: st2)
  moreover have "receipts_ok st2"
    by (rule receipts_frame [OF purchasing_invD(2) [OF inv1]]) (simp_all add: st2 wh_keys_def)
  ultimately have "purchasing_inv st2"
    using inv_take_id [OF purchasing_invD(1) [OF inv1]] by (simp add: purchasing_inv_def st2 doc_id_def)
  then have "purchasing_inv (audit_doc st2 BILL_CREATED INFO actor org ''bill'' (bi_id b))" by (rule purchasing_audit)
  then show ?thesis using rest post_bill_effect by (metis (no_types, lifting) Inr_inject Pair_inject)
qed

lemma cancel_bill_effect:
  assumes inv: "purchasing_inv st" and op: "cancel_bill hs st org i reason cd actor now = Inr (st', b')"
  obtains b where "b \<in> set (bills st)" "bi_id b = i" "bi_org b = org" "bi_paid b = 0" "bi_status b \<noteq> B_CANCELLED"
    "same_bill b b'" "bi_status b' = B_CANCELLED" "purchasing_inv st'" "bi_deleted b = None"
    "bills st' = update_where (\<lambda>y. bi_id y = bi_id b') (\<lambda>_. b') (bills st)" "bi_deleted b' = None" "bi_receipt b' = bi_receipt b"
    "\<And>j. bi_entry b = Some j \<Longrightarrow> bill_is_posted (bi_status b) \<Longrightarrow> \<exists>original \<in> set (entries (ledger st)). e_id original = j \<and>
       (\<forall>a. ledger_net (ledger st') a = ledger_net (ledger st) a - entry_net a original)"
    "\<not> bill_is_posted (bi_status b) \<Longrightarrow> entries (ledger st') = entries (ledger st)" "receipts st' = receipts st"
proof -
  from op obtain b st1 reversal where b: "get_bill st org i = Inr b" and nc: "bi_status b \<noteq> B_CANCELLED" "\<not> 0 < bi_paid b"
    and r: "(case bi_entry b of
              Some entry_id \<Rightarrow>
                if bill_is_posted (bi_status b) then
                  bindr (reverse_document_entry hs st org entry_id actor cd
                    (''Cancellation of '' @ bi_number b @ '': '' @ reason) now) (\<lambda>(st1, e).
                  Inr (st1, Some (e_id e)))
                else Inr (st, bi_reversal b)
            | None \<Rightarrow> Inr (st, bi_reversal b)) = Inr (st1, reversal)"
    and b': "b' = b\<lparr>bi_reversal := reversal, bi_status := B_CANCELLED, bi_cancelled_at := Some now\<rparr>"
    and st': "st' = audit_doc (st1\<lparr>bills := update_where (\<lambda>y. bi_id y = bi_id b') (\<lambda>_. b') (bills st1)\<rparr>)
      BILL_CANCELLED WARNING actor org ''bill'' (bi_id b)"
    unfolding cancel_bill_def Let_def by (auto simp: save_bill_def)
  note bk = get_bill_ok [OF b] and pinv = purchasing_invD(3) [OF inv]
  have ok: "bill_ok (allocations st) b" using payables_invD(5) [OF pinv] bk by blast
  have paid: "bi_paid b = 0" "0 \<le> grand_total (bi_totals b)"
    using ok nc(2) paid_nonneg unfolding bill_ok_def by fastforce+
  have key: "\<exists>l. st1 = set_ledger st l \<and> stock_inv (stock st1) \<and> fresh_id (stock st) \<le> fresh_id (stock st1) \<and>
    (\<forall>j. bi_entry b = Some j \<and> bill_is_posted (bi_status b) \<longrightarrow> (\<exists>original \<in> set (entries (ledger st)). e_id original = j \<and>
       (\<forall>a. ledger_net l a = ledger_net (ledger st) a - entry_net a original))) \<and>
    (\<not> bill_is_posted (bi_status b) \<longrightarrow> entries l = entries (ledger st))"
  proof (cases "bi_entry b \<noteq> None \<and> bill_is_posted (bi_status b)")
    case True
    then obtain j e where j: "bi_entry b = Some j" "reverse_document_entry hs st org j actor cd
        (''Cancellation of '' @ bi_number b @ '': '' @ reason) now = Inr (st1, e)" using r by auto
    show ?thesis
      using reverse_document_entry_effect [OF purchasing_invD(1) [OF inv] j(2)]
    proof cases
      case (1 l original)
      then show ?thesis using True j(1) by (intro exI [of _ l]) auto
    qed
  next
    case False
    then have "st1 = st" using r by (auto split: option.splits if_splits)
    moreover have "st = set_ledger st (ledger st)" by (simp add: state_defs)
    ultimately show ?thesis using False purchasing_invD(1) [OF inv] by (intro exI [of _ "ledger st"]) auto
  qed
  then obtain l where l: "st1 = set_ledger st l" "stock_inv (stock st1)" "fresh_id (stock st) \<le> fresh_id (stock st1)"
    "\<And>j. bi_entry b = Some j \<Longrightarrow> bill_is_posted (bi_status b) \<Longrightarrow> \<exists>original \<in> set (entries (ledger st)). e_id original = j \<and>
       (\<forall>a. ledger_net l a = ledger_net (ledger st) a - entry_net a original)"
    "\<not> bill_is_posted (bi_status b) \<Longrightarrow> entries l = entries (ledger st)" by blast
  have "payables_inv (bills st1) (payments st1) (allocations st1) (doc_id st1)"
    using payables_mono [OF pinv] l by (simp add: doc_id_def)
  then have "payables_inv (update_where (\<lambda>y. bi_id y = bi_id b') (\<lambda>_. b') (bills st1)) (payments st1) (allocations st1) (doc_id st1)"
    using bk paid l(1) by (intro payables_replace_bill [of _ _ _ _ b]) (simp_all add: b' same_bill_def)
  moreover have "receipts_ok st1" unfolding l(1) using purchasing_invD(2) [OF inv] l(1,3) by (intro receipts_set_ledger) simp_all
  ultimately have "purchasing_inv (st1\<lparr>bills := update_where (\<lambda>y. bi_id y = bi_id b') (\<lambda>_. b') (bills st1)\<rparr>)"
    using l(2) by (simp add: purchasing_inv_def receipts_ok_def doc_id_def)
  then have inv': "purchasing_inv st'" unfolding st' by (rule purchasing_audit)
  have nets: "ledger_net (ledger st') = ledger_net l" "entries (ledger st') = entries l"
    using ledger_net_entries [of "ledger st'" l] by (simp_all add: st' ledger_def l(1))
  show thesis
    by (rule that [of b]) (use bk paid nc inv' nets l in \<open>simp_all add: b' st' same_bill_def\<close>)
qed

section \<open>Payments\<close>

lemma hold_self: "distinct (map sp_id ps) \<Longrightarrow> p \<in> set ps \<Longrightarrow> hold p ps = ps"
  unfolding hold_def update_where_def by (rule map_idI) (auto simp: distinct_map inj_on_def)

lemma get_payment_ok:
  "get_payment st org i = Inr p \<Longrightarrow> p \<in> set (payments st) \<and> sp_id p = i \<and> sp_org p = org"
  by (auto simp: get_payment_def split: option.splits dest: scalar_one_or_none_Some)

lemma validate_amountsD: "validate_amounts as = Inr () \<Longrightarrow> \<forall>(i, x) \<in> set as. 0 < x"
  by (fastforce simp: validate_amounts_def each_eq_Inr_iff)

lemma validate_allocationsD: "validate_allocations as = Inr () \<Longrightarrow> \<forall>(i, x) \<in> set as. 0 < x"
  by (rule validate_amountsD) (auto simp: validate_allocations_def)

lemma payables_relabel:
  assumes inv: "payables_inv bs ps as n" and p: "p \<in> set ps" "same_payment p p'" "sp_unallocated p' = sp_unallocated p"
  shows "payables_inv bs (hold p' ps) as n"
proof -
  have id: "sp_id p' = sp_id p" using p(2) by (simp add: same_payment_def)
  have set: "set (hold p' ps) = insert p' (set ps - {p})"
    unfolding hold_def id by (rule replace_row [OF payables_invD(2) [OF inv] p(1)])
  have ids: "map sp_id (hold p' ps) = map sp_id ps" unfolding hold_def by (rule map_key_replace [of sp_id]) simp
  have "payment_ok as p'" using payables_invD(7) [OF inv p(1)] p(2,3) by (simp add: payment_ok_def same_payment_def)
  moreover have "linked bs (hold p' ps) a" if "linked bs ps a" for a
    by (rule linked_mono [OF that]) (use p set in \<open>auto simp: same_payment_def\<close>)
  ultimately show ?thesis using inv ids id p(1) unfolding payables_inv_def set by auto
qed

lemma apply_payment_effect:
  assumes inv: "purchasing_inv st" and p: "p \<in> set (payments st)" "sp_org p = org" and pos: "\<forall>(i, x) \<in> set as. 0 < x"
    and op: "apply_payment st org p as actor = Inr (st', p')"
  shows "purchasing_inv st' \<and> payments st' = hold p' (payments st) \<and> same_payment p p' \<and>
    sp_unallocated p' = sp_unallocated p - sum_list (map snd as) \<and> quiet (stock st) (stock st') \<and>
    owed (bills st') (payments st') = owed (bills st) (payments st)"
proof -
  define existing where "existing = map al_bill (filter (\<lambda>a. al_payment a = sp_id p) (allocations st))"
  from op obtain st1 where le: "sum_list (map snd as) \<le> sp_unallocated p"
    and each: "apply_each st org existing p as = Inr (st1, p')"
    and st': "st' = audit_doc (st1\<lparr>payments := hold p' (payments st1)\<rparr>) SUPPLIER_PAYMENT_ALLOCATED INFO actor org
      ''supplier_payment'' (sp_id p)"
    unfolding apply_payment_def Let_def existing_def by (auto simp: save_payment_def hold_def)
  note pinv = purchasing_invD(3) [OF inv]
  have self: "hold p (payments st) = payments st" by (rule hold_self [OF payables_invD(2) [OF pinv] p(1)])
  have "(sp_id p, i) \<in> allocation_key ` set (allocations st)" if i: "i \<in> set existing" for i
  proof -
    from i obtain a where a: "a \<in> set (allocations st)" "al_payment a = sp_id p" "al_bill a = i" by (auto simp: existing_def)
    then have "(sp_id p, i) = allocation_key a" by (simp add: allocation_key_def)
    with a(1) show ?thesis by (rule rev_image_eqI)
  qed
  then have "loop_inv st existing p" using pinv p(1) by (simp add: loop_inv_def self)
  note e = apply_each_effect [OF this pos le p(2) each]
  have "receipts_ok st1"
    using e by (intro receipts_frame [OF purchasing_invD(2) [OF inv]]) (auto simp: quiet_def)
  moreover have "stock_inv (stock st1)" using e purchasing_invD(1) [OF inv] by (simp add: quiet_def)
  moreover have "payables_inv (bills st1) (hold p' (payments st1)) (allocations st1) (doc_id st1)"
    using e unfolding loop_inv_def by blast
  ultimately have "purchasing_inv (st1\<lparr>payments := hold p' (payments st1)\<rparr>)"
    by (simp add: purchasing_inv_def receipts_ok_def doc_id_def)
  then have "purchasing_inv st'" unfolding st' by (rule purchasing_audit)
  moreover have "quiet (stock st) (stock st')" using e by (auto simp: st' intro: quiet_trans [OF _ quiet_audit])
  ultimately show ?thesis using e self by (auto simp: st')
qed

lemma allocate_effect:
  assumes inv: "purchasing_inv st" and v: "validate_allocations as = Inr ()" and op: "allocate st org i as actor = Inr (st', p')"
  shows "purchasing_inv st' \<and> quiet (stock st) (stock st') \<and> owed (bills st') (payments st') = owed (bills st) (payments st)"
proof -
  from op obtain p where p: "get_payment st org i = Inr p" "apply_payment st org p as actor = Inr (st', p')"
    by (auto simp: allocate_def)
  then show ?thesis using apply_payment_effect [OF inv _ _ validate_allocationsD [OF v] p(2)] get_payment_ok [OF p(1)] by blast
qed

text \<open>
  A payment: payables are debited and the source credited with the amount, and what is owed falls by it,
  whether or not the payment is allocated to bills.
\<close>

lemma pay_effect:
  assumes inv: "purchasing_inv st" and v: "validate_payment_create d = Inr ()"
    and op: "pay hs st org d actor today now = Inr (st', p')"
  obtains payable source where "resolve_system_account (ledger st) org ''accounts_payable'' = Inr payable"
    "payment_source st org d = Inr source" "a_id payable \<noteq> a_id source"
    "\<And>a. ledger_net (ledger st') a = ledger_net (ledger st) a + pair_net (a_id payable) (a_id source) (yc_amount d) a"
    "owed (bills st') (payments st') org = owed (bills st) (payments st) org - yc_amount d" "purchasing_inv st'"
    "p' \<in> set (payments st')" "sp_amount p' = yc_amount d"
    "sp_unallocated p' = yc_amount d - sum_list (map snd (yc_allocations d))"
proof -
  from op obtain s source st1 number where s: "get_supplier st org (yc_supplier d) = Inr s"
    and so: "payment_source st org d = Inr source"
    and n: "document_number st org ''supplier_payment'' ''PAY'' today = Inr (st1, number)"
    by (auto simp: pay_def)
  define p where "p = \<lparr>sp_id = doc_id st1, sp_org = org, sp_number = number, sp_supplier = su_id s,
      sp_date = (case yc_date d of Some x \<Rightarrow> x | None \<Rightarrow> today), sp_amount = yc_amount d, sp_unallocated = yc_amount d,
      sp_method = yc_method d, sp_reference = yc_reference d, sp_currency = su_currency s, sp_source = Some (a_id source),
      sp_entry = None, sp_created_by = actor, sp_deleted = None\<rparr>"
  have "bindr (add_payment st1 p) (\<lambda>st2.
     bindr (resolve_system_account (ledger st2) org ''accounts_payable'') (\<lambda>payable.
     case get_by_type (ledger st2) org (if yc_method d = ''cash'' then CASH else BANK) of
       None \<Rightarrow> Inl (BusinessRuleError ''No journal of this type is configured'')
     | Some j \<Rightarrow>
         bindr (post_document_entry hs st2 org (payment_entry d s p (j_id j) (a_id payable) (a_id source))
           actor ''supplier_payment'' (sp_id p) now) (\<lambda>(st3, e).
         bindr (save_payment st3 (p\<lparr>sp_entry := Some (e_id e)\<rparr>)) (\<lambda>st4.
         bindr (if yc_allocations d \<noteq> [] then apply_payment st4 org (p\<lparr>sp_entry := Some (e_id e)\<rparr>) (yc_allocations d) actor
                else Inr (st4, p\<lparr>sp_entry := Some (e_id e)\<rparr>)) (\<lambda>(st5, p2).
         Inr (audit_doc st5 SUPPLIER_PAYMENT_MADE INFO actor org ''supplier_payment'' (sp_id p), p2)))))) = Inr (st', p')"
    using op unfolding pay_def Let_def s so n bindr_Inr prod.case p_def by assumption
  then obtain st2 payable and j :: journal and st3 e st4 st5 where add: "add_payment st1 p = Inr st2"
    and pa: "resolve_system_account (ledger st2) org ''accounts_payable'' = Inr payable"
    and en: "post_document_entry hs st2 org (payment_entry d s p (j_id j) (a_id payable) (a_id source))
      actor ''supplier_payment'' (sp_id p) now = Inr (st3, e)"
    and sv: "save_payment st3 (p\<lparr>sp_entry := Some (e_id e)\<rparr>) = Inr st4"
    and al: "(if yc_allocations d \<noteq> [] then apply_payment st4 org (p\<lparr>sp_entry := Some (e_id e)\<rparr>) (yc_allocations d) actor
       else Inr (st4, p\<lparr>sp_entry := Some (e_id e)\<rparr>)) = Inr (st5, p')"
    and st': "st' = audit_doc st5 SUPPLIER_PAYMENT_MADE INFO actor org ''supplier_payment'' (sp_id p)"
    by (auto split: option.splits)
  let ?p = "p\<lparr>sp_entry := Some (e_id e)\<rparr>"
  have inv1: "purchasing_inv st1" by (rule purchasing_number [OF inv n])
  have st2: "st2 = (take_doc_id st1)\<lparr>payments := payments st1 @ [p]\<rparr>" using add by (auto simp: add_payment_def)
  have amount: "0 < yc_amount d" using v by (auto simp: validate_payment_create_def)
  have q2: "quiet (stock st) (stock st2)"
    using quiet_trans [OF document_number_quiet(1) [OF n] quiet_take] by (simp add: st2)
  have "payables_inv (bills st2) (payments st2) (allocations st2) (doc_id st1 + 1)"
    using payables_new_payment [OF purchasing_invD(3) [OF inv1], of p] amount by (simp add: st2 p_def)
  then have pay2: "payables_inv (bills st2) (payments st2) (allocations st2) (doc_id st2)" by (simp add: st2 doc_id_def)
  have rec2: "receipts_ok st2" by (rule receipts_frame [OF purchasing_invD(2) [OF inv1]]) (simp_all add: st2 wh_keys_def)
  have sk2: "stock_inv (stock st2)" using q2 purchasing_invD(1) [OF inv] by (simp add: quiet_def)
  have post: "ec_post (payment_entry d s p (j_id j) (a_id payable) (a_id source))" by (simp add: payment_entry_def)
  show thesis
    using post_document_entry_effect [OF sk2 en post]
  proof cases
    case (1 l)
    have ne: "a_id payable \<noteq> a_id source"
      using 1(7) by (auto simp: validate_entry_create_def payment_entry_def debit_line_def credit_line_def)
    have net: "entry_net a e = pair_net (a_id payable) (a_id source) (yc_amount d) a" for a
      using 1(8) [of a] ne by (simp add: payment_entry_def pair_net_def debit_line_def credit_line_def p_def)
    have st4: "st4 = st3\<lparr>payments := hold ?p (payments st3)\<rparr>" using sv by (auto simp: save_payment_def hold_def)
    have mem: "p \<in> set (payments st2)" by (simp add: st2)
    have "payables_inv (bills st2) (hold ?p (payments st2)) (allocations st2) (doc_id st3)"
      using payables_relabel [OF payables_mono [OF pay2] mem, of "doc_id st3" ?p] 1(1,3) by (simp add: doc_id_def same_payment_def)
    moreover have "receipts_ok st3" unfolding 1(1) using rec2 1(1,3) by (intro receipts_set_ledger) simp_all
    ultimately have inv4: "purchasing_inv st4"
      using 1(1,2) by (simp add: purchasing_inv_def st4 receipts_ok_def doc_id_def)
    have mem4: "?p \<in> set (payments st4)" using mem 1(1) by (auto simp: st4 intro!: hold_mem)
    have ow: "owed (bills st4) (payments st4) org = owed (bills st) (payments st) org - yc_amount d"
      using sum_replaced [OF payables_invD(2) [OF pay2] mem, of ?p "payment_left org"] document_number_quiet [OF n] 1(1)
      by (simp add: owed_def st4 hold_def st2 payment_left_def p_def)
    have fin: "purchasing_inv st5 \<and> owed (bills st5) (payments st5) = owed (bills st4) (payments st4) \<and> quiet (stock st4) (stock st5) \<and>
      p' \<in> set (payments st5) \<and> same_payment ?p p' \<and> sp_unallocated p' = yc_amount d - sum_list (map snd (yc_allocations d))"
    proof (cases "yc_allocations d = []")
      case True
      with al inv4 mem4 show ?thesis by (auto simp: same_payment_def p_def)
    next
      case False
      have "\<forall>(i, x) \<in> set (yc_allocations d). 0 < x"
        using v by (intro validate_amountsD) (auto simp: validate_payment_create_def)
      then have ap: "purchasing_inv st5 \<and> payments st5 = hold p' (payments st4) \<and> same_payment ?p p' \<and>
        sp_unallocated p' = sp_unallocated ?p - sum_list (map snd (yc_allocations d)) \<and> quiet (stock st4) (stock st5) \<and>
        owed (bills st5) (payments st5) = owed (bills st4) (payments st4)"
        using al False by (intro apply_payment_effect [OF inv4 mem4, of org "yc_allocations d" actor]) (auto simp: p_def)
      have "sp_id p' \<in> sp_id ` set (payments st4)" using ap imageI [OF mem4, of sp_id] by (simp add: same_payment_def)
      then have "p' \<in> set (payments st5)" using ap hold_mem [of p' "payments st4"] by simp
      moreover have "sp_unallocated ?p = yc_amount d" by (simp add: p_def)
      ultimately show ?thesis using ap by metis
    qed
    have "ledger_net (ledger st') = ledger_net (ledger st5)" by (rule ledger_net_entries) (simp add: st' ledger_def)
    also have "\<dots> = ledger_net (ledger st4)" using quiet_ledger(1) fin by blast
    also have "\<dots> = ledger_net l" by (rule ledger_net_entries) (simp add: st4 1(1) ledger_def)
    finally have lnet: "ledger_net (ledger st') a = ledger_net (ledger st) a + pair_net (a_id payable) (a_id source) (yc_amount d) a" for a
      using 1(9) [of a] net [of a] quiet_ledger(1) [OF q2] by simp
    show thesis
      by (rule that [OF _ so ne lnet])
         (use pa quiet_ledger(2) [OF q2] fin ow in \<open>auto simp: st' same_payment_def p_def intro: purchasing_audit\<close>)
  qed
qed

section \<open>Goods receipts\<close>

lemma receipts_replace:
  assumes ok: "receipts_ok st" and g: "g \<in> set (receipts st)" "gr_id g' = gr_id g" "gr_org g' = gr_org g"
    "gr_warehouse g' = gr_warehouse g" "gr_status g' \<noteq> G_DRAFT"
    and s: "fresh_id (stock st) \<le> fresh_id s" "warehouses s = warehouses (stock st)"
  shows "receipts_ok (st\<lparr>stock := s, orders := os, receipts := update_where (\<lambda>y. gr_id y = gr_id g') (\<lambda>_. g') (receipts st)\<rparr>)"
proof -
  let ?gs = "update_where (\<lambda>y. gr_id y = gr_id g') (\<lambda>_. g') (receipts st)"
  have set: "set ?gs = insert g' (set (receipts st) - {g})"
    unfolding g(2) by (rule replace_row [OF receipts_okD(1) [OF ok] g(1)])
  have ids: "map gr_id ?gs = map gr_id (receipts st)" by (rule map_key_replace [of gr_id]) simp
  have key: "wh_keys s = wh_keys (stock st)" using s(2) by (rule wh_keys_cong)
  have "gr_id y < fresh_id s \<and> (gr_warehouse y, gr_org y) \<in> wh_keys (stock st) \<and> (gr_status y = G_DRAFT \<longrightarrow> gr_entry y = None)"
    if "y \<in> set (receipts st)" for y
    using receipts_okD(2-4) [OF ok that] s(1) by (simp add: doc_id_def)
  from this this [OF g(1)] have "\<forall>y \<in> set ?gs. gr_id y < fresh_id s \<and> (gr_warehouse y, gr_org y) \<in> wh_keys s \<and> (gr_status y = G_DRAFT \<longrightarrow> gr_entry y = None)"
    unfolding set key using g(2-5) by auto
  moreover have "distinct (map gr_id ?gs)" unfolding ids by (rule receipts_okD(1) [OF ok])
  ultimately show ?thesis by (simp add: receipts_ok_def doc_id_def)
qed

lemma receipt_step_inv:
  assumes inv: "purchasing_inv st" and g: "g \<in> set (receipts st)" "gr_id g' = gr_id g" "gr_org g' = gr_org g"
    "gr_warehouse g' = gr_warehouse g" "gr_status g' \<noteq> G_DRAFT"
    and s: "fresh_id (stock st) \<le> fresh_id s" "warehouses s = warehouses (stock st)" "stock_inv s"
  shows "purchasing_inv (st\<lparr>stock := s, orders := os, receipts := update_where (\<lambda>y. gr_id y = gr_id g') (\<lambda>_. g') (receipts st)\<rparr>)"
  using receipts_replace [OF purchasing_invD(2) [OF inv] g s(1,2)] payables_mono [OF purchasing_invD(3) [OF inv], of "fresh_id s"] s
  by (simp add: purchasing_inv_def doc_id_def)

lemma post_receipt_inv:
  assumes "purchasing_inv st" "post_receipt hs st org i actor now = Inr (st', g')"
  shows "purchasing_inv st'"
  using post_receipt_effect [OF purchasing_invD(1,2) [OF assms(1)] assms(2)]
proof cases
  case (1 g s os v)
  then show ?thesis using receipt_step_inv [OF assms(1) 1(1), of g' s os] by simp
qed

lemma cancel_receipt_inv:
  assumes "purchasing_inv st" "cancel_receipt hs st org i reason actor now = Inr (st', g')"
  shows "purchasing_inv st'"
  using cancel_receipt_effect [OF purchasing_invD(1,2) [OF assms(1)] assms(2)]
proof cases
  case (1 g s os)
  then show ?thesis using receipt_step_inv [OF assms(1) 1(1), of g' s os] by simp
qed

lemma create_receipt_inv:
  assumes inv: "purchasing_inv st" and op: "create_receipt hs st org d actor today now = Inr (st', g')"
  shows "purchasing_inv st'"
proof -
  from op obtain s k w st1 number ls where s: "get_supplier st org (rc_supplier d) = Inr s"
    and w: "get_warehouse (stock st) org (rc_warehouse d) = Inr (k, w)"
    and n: "document_number (st\<lparr>stock := k\<rparr>) org ''goods_receipt'' ''GRN'' today = Inr (st1, number)"
    and ls: "new_receipt_lines st1 org 1 (rc_lines d) = Inr ls"
    by (auto simp: create_receipt_def)
  define g where "g = \<lparr>gr_id = doc_id st1, gr_org = org, gr_number = number, gr_supplier = su_id s, gr_order = rc_order d,
      gr_warehouse = wh_id w, gr_date = (case rc_date d of Some x \<Rightarrow> x | None \<Rightarrow> today),
      gr_reference = rc_reference d, gr_status = G_DRAFT,
      gr_total_cost = round_value (sum_list (map gl_total_cost ls)), gr_entry = None, gr_reversal = None,
      gr_posted_at = None, gr_cancelled_at = None, gr_notes = rc_notes d, gr_created_by = actor,
      gr_deleted = None, gr_lines = ls\<rparr>"
  have "bindr (add_receipt st1 g) (\<lambda>st2.
      if rc_post d then post_receipt hs (audit_doc st2 GOODS_RECEIPT_CREATED INFO actor org ''goods_receipt'' (gr_id g)) org (gr_id g) actor now
      else Inr (audit_doc st2 GOODS_RECEIPT_CREATED INFO actor org ''goods_receipt'' (gr_id g), g)) = Inr (st', g')"
    using op unfolding create_receipt_def Let_def s w n ls bindr_Inr prod.case g_def by assumption
  then obtain st2 where add: "add_receipt st1 g = Inr st2"
    and rest: "(if rc_post d then post_receipt hs (audit_doc st2 GOODS_RECEIPT_CREATED INFO actor org ''goods_receipt'' (gr_id g)) org (gr_id g) actor now
      else Inr (audit_doc st2 GOODS_RECEIPT_CREATED INFO actor org ''goods_receipt'' (gr_id g), g)) = Inr (st', g')"
    by (elim bindr_InrE)
  have wk: "(wh_id w, org) \<in> wh_keys k"
    using get_warehouse_effect [OF purchasing_invD(1) [OF inv] w] by (force simp: wh_keys_def)
  have "purchasing_inv (st\<lparr>stock := k\<rparr>)" by (rule purchasing_quiet [OF inv]) (simp_all add: quiet_warehouse [OF w])
  then have inv1: "purchasing_inv st1" by (rule purchasing_number [OF _ n])
  have wk1: "(wh_id w, org) \<in> wh_keys (stock st1)" using wk document_number_quiet(1) [OF n] by (auto simp: quiet_def)
  have st2: "st2 = (take_doc_id st1)\<lparr>receipts := receipts st1 @ [g]\<rparr>" using add by (auto simp: add_receipt_def)
  have ids: "gr_id y < doc_id st1" if "y \<in> set (receipts st1)" for y
    using receipts_okD(2) [OF purchasing_invD(2) [OF inv1] that] .
  then have "doc_id st1 \<notin> gr_id ` set (receipts st1)" by fastforce
  then have "receipts_ok st2"
    using purchasing_invD(2) [OF inv1] wk1 unfolding receipts_ok_def
    by (auto simp: st2 g_def doc_id_def wh_keys_def intro: less_SucI)
  then have "purchasing_inv st2"
    using inv_take_id [OF purchasing_invD(1) [OF inv1]] payables_mono [OF purchasing_invD(3) [OF inv1], of "doc_id st1 + 1"]
    by (simp add: purchasing_inv_def st2 doc_id_def)
  then have "purchasing_inv (audit_doc st2 GOODS_RECEIPT_CREATED INFO actor org ''goods_receipt'' (gr_id g))" by (rule purchasing_audit)
  then show ?thesis using rest post_receipt_inv by (auto split: if_splits)
qed

section \<open>Masters and purchase orders\<close>

lemma masters_inv:
  assumes "purchasing_inv st"
  shows "create_supplier st org sd actor = Inr (st', s) \<Longrightarrow> purchasing_inv st'"
    "update_supplier st org i su actor = Inr (st', s) \<Longrightarrow> purchasing_inv st'"
    "create_product st org pd actor = Inr (st', p) \<Longrightarrow> purchasing_inv st'"
    "update_product st org i pu actor = Inr (st', p) \<Longrightarrow> purchasing_inv st'"
  by (rule purchasing_quiet [OF assms];
      auto simp: create_supplier_def update_supplier_def create_product_def update_product_def Let_def add_supplier_def
        save_supplier_def add_product_def save_product_def intro: quiet_trans [OF quiet_take quiet_audit])+

lemma orders_inv:
  assumes "purchasing_inv st"
  shows "create_order st org od actor today gstin = Inr (st', x) \<Longrightarrow> purchasing_inv st'"
    "approve_order st org i actor now = Inr (st', x) \<Longrightarrow> purchasing_inv st'"
    "cancel_order st org i actor now = Inr (st', x) \<Longrightarrow> purchasing_inv st'"
proof -
  show "approve_order st org i actor now = Inr (st', x) \<Longrightarrow> purchasing_inv st'"
    by (rule purchasing_quiet [OF assms]) (auto simp: approve_order_def Let_def save_order_def)
  show "cancel_order st org i actor now = Inr (st', x) \<Longrightarrow> purchasing_inv st'"
    by (rule purchasing_quiet [OF assms]) (auto simp: cancel_order_def Let_def save_order_def)
  assume "create_order st org od actor today gstin = Inr (st', x)"
  then obtain st1 n os k where n: "document_number st org ''purchase_order'' ''PO'' today = Inr (st1, n)"
    and st': "st' = audit_doc ((take_doc_id ^^ k) ((take_doc_id st1)\<lparr>orders := os\<rparr>))
      PURCHASE_ORDER_CREATED INFO actor org ''purchase_order'' (doc_id st1)"
    by (auto simp: create_order_def Let_def add_order_def)
  have inv1: "purchasing_inv st1" by (rule purchasing_number [OF assms n])
  show "purchasing_inv st'"
    unfolding st' by (rule purchasing_audit, rule purchasing_quiet [OF inv1]) (auto intro: quiet_takes)
qed

section \<open>Purchasing as a transition system\<close>

text \<open>Identifiers are handed out in order and warehouses are never removed from the table.\<close>

definition grows :: "'h stock_db \<Rightarrow> 'h stock_db \<Rightarrow> bool" where
  "grows s s' \<longleftrightarrow> fresh_id s \<le> fresh_id s' \<and> wh_keys s \<subseteq> wh_keys s'"

lemma grows_trans: "grows a b \<Longrightarrow> grows b c \<Longrightarrow> grows a c"
  by (auto simp: grows_def)

lemma grows_quiet: "quiet s s' \<Longrightarrow> grows s s'"
  by (simp add: quiet_def grows_def)

lemma grows_record: "record_movement s org p w ma now = Inr (s', m) \<Longrightarrow> grows s s'"
  by (erule record_movement_ok) (auto simp: grows_def wh_keys_def elim!: locked_level_ok)

lemma grows_moved:
  "get_warehouse s org i = Inr (s1, w) \<Longrightarrow> record_movement s1 org p w ma now = Inr (s2, m) \<Longrightarrow> grows s s2"
  by (rule grows_trans [OF grows_quiet [OF quiet_warehouse] grows_record])

lemma grows_books: "next_id (books s) \<le> next_id b \<Longrightarrow> grows s (s\<lparr>books := b\<rparr>)"
  by (simp add: grows_def fresh_id_def wh_keys_def)

lemma grows_posted:
  assumes "post_pair hs (books s) org actor d nar da ca amount ref stype sid now = Inr (b, e)"
  shows "grows s (link_entry (s\<lparr>books := b\<rparr>) i j)"
proof -
  have "next_id (books s) \<le> next_id b"
    using assms by (auto simp: post_pair_def Let_def split: option.splits dest: entry_next_id(1))
  then show ?thesis by (simp add: grows_def fresh_id_def wh_keys_def link_entry_def)
qed

lemma grows_warehouse:
  assumes "create_warehouse s org wd actor = Inr (s', w)"
  shows "grows s s'"
proof -
  define s1 where "s1 = (if wc_default wd then s\<lparr>warehouses := update_where (\<lambda>w. wh_org w = org \<and> wh_deleted w = None)
      (wh_default_update (\<lambda>_. False)) (warehouses s)\<rparr> else s)"
  have s': "s' = audit_stock ((take_id s1)\<lparr>warehouses := warehouses s1 @ [w]\<rparr>)
      WAREHOUSE_CREATED INFO actor org ''warehouse'' (wh_id w)"
    using assms unfolding create_warehouse_def Let_def s1_def [symmetric] by auto
  have "map (\<lambda>w. (wh_id w, wh_org w)) (warehouses s1) = map (\<lambda>w. (wh_id w, wh_org w)) (warehouses s)"
    by (simp add: s1_def map_update_where)
  then have "wh_keys s1 = wh_keys s" unfolding wh_keys_def by (metis list.set_map)
  moreover have "wh_keys s' = insert (wh_id w, wh_org w) (wh_keys s1)" "fresh_id s \<le> fresh_id s'"
    by (simp_all add: s' wh_keys_def s1_def)
  ultimately show ?thesis by (auto simp: grows_def)
qed

lemma grows_step:
  assumes "stock_step hs s s'"
  shows "grows s s'"
  using assms
proof cases
  case (ledger b)
  then show ?thesis by (simp add: grows_books step_next_id)
next
  case (warehouse_new org wd actor w)
  then show ?thesis by (rule grows_warehouse)
next
  case sale
  then show ?thesis
  proof (cases rule: issue_for_sale_ok)
    case (1 st1 w st2 m ma)
    from grows_moved [OF 1(1,2)] show ?thesis using 1(6) grows_trans grows_posted by blast
  qed
next
  case correction
  then show ?thesis
  proof (cases rule: adjust_ok)
    case (1 st1 w st2 m ma st3)
    from grows_moved [OF 1(2,3)] have "grows s st3" using 1(7) grows_trans grows_posted by blast
    then show ?thesis unfolding 1(6) by (rule grows_trans) (rule grows_quiet [OF quiet_audit])
  qed
next
  case relocation
  then show ?thesis
  proof (cases rule: transfer_ok)
    case (1 source dest st1 ma1 ma2 st2)
    show ?thesis
      unfolding 1(11) by (rule grows_trans [OF grows_trans [OF grows_record [OF 1(4)] grows_record [OF 1(7)]]
        grows_quiet [OF quiet_audit]])
  qed
qed (auto intro: grows_quiet [OF quiet_warehouse] grows_record grows_quiet [OF quiet_take])

lemma stock_inv_step: "stock_step hs s s' \<Longrightarrow> stock_inv s \<Longrightarrow> stock_inv s'"
  using simulates_step by (auto simp: simulates_def)

text \<open>
  The operations of the module, each request validated by its schema first, and the steps of the stock service
  and the ledger underneath, which the other modules take.
\<close>

inductive purchasing_step :: "'h hooks \<Rightarrow> 'h purchasing_db \<Rightarrow> 'h purchasing_db \<Rightarrow> bool" for hs where
  stock: "stock_step hs (stock st) s \<Longrightarrow> purchasing_step hs st (st\<lparr>stock := s\<rparr>)"
| supplier_new: "create_supplier st org sd actor = Inr (st', s) \<Longrightarrow> purchasing_step hs st st'"
| supplier_edit: "update_supplier st org i su actor = Inr (st', s) \<Longrightarrow> purchasing_step hs st st'"
| product_new: "create_product st org pd actor = Inr (st', p) \<Longrightarrow> purchasing_step hs st st'"
| product_edit: "update_product st org i pu actor = Inr (st', p) \<Longrightarrow> purchasing_step hs st st'"
| order_new: "create_order st org od actor today gstin = Inr (st', x) \<Longrightarrow> purchasing_step hs st st'"
| order_approve: "approve_order st org i actor now = Inr (st', x) \<Longrightarrow> purchasing_step hs st st'"
| order_cancel: "cancel_order st org i actor now = Inr (st', x) \<Longrightarrow> purchasing_step hs st st'"
| receipt_new: "create_receipt hs st org rd actor today now = Inr (st', g) \<Longrightarrow> purchasing_step hs st st'"
| receipt_post: "post_receipt hs st org i actor now = Inr (st', g) \<Longrightarrow> purchasing_step hs st st'"
| receipt_cancel: "cancel_receipt hs st org i reason actor now = Inr (st', g) \<Longrightarrow> purchasing_step hs st st'"
| bill_new: "validate_bill_create bd = Inr () \<Longrightarrow> create_bill hs st org bd actor today gstin now = Inr (st', b) \<Longrightarrow> purchasing_step hs st st'"
| bill_post: "post_bill hs st org i actor now = Inr (st', b) \<Longrightarrow> purchasing_step hs st st'"
| bill_cancel: "cancel_bill hs st org i reason cd actor now = Inr (st', b) \<Longrightarrow> purchasing_step hs st st'"
| payment: "validate_payment_create yd = Inr () \<Longrightarrow> pay hs st org yd actor today now = Inr (st', y) \<Longrightarrow> purchasing_step hs st st'"
| allocation: "validate_allocations as = Inr () \<Longrightarrow> allocate st org i as actor = Inr (st', y) \<Longrightarrow> purchasing_step hs st st'"

lemma purchasing_step_inv:
  assumes "purchasing_step hs st st'" "purchasing_inv st"
  shows "purchasing_inv st'"
  using assms(1)
proof cases
  case (stock s)
  then show ?thesis
    using grows_step [OF stock(2)] stock_inv_step [OF stock(2)] assms(2)
    by (intro purchasing_frame [OF assms(2)]) (simp_all add: grows_def purchasing_invD(1))
next
  case bill_post
  then show ?thesis by (rule post_bill_effect [OF assms(2)])
next
  case bill_cancel
  then show ?thesis by (rule cancel_bill_effect [OF assms(2)])
next
  case payment
  then show ?thesis by (rule pay_effect [OF assms(2)])
next
  case allocation
  then show ?thesis using allocate_effect [OF assms(2)] by blast
qed (use assms(2) in \<open>blast intro: masters_inv orders_inv create_receipt_inv post_receipt_inv cancel_receipt_inv create_bill_inv\<close>)+

lemma purchasing_inv_empty: "purchasing_inv (empty_purchasing h)"
  by (simp add: purchasing_inv_def empty_purchasing_def stock_inv_empty receipts_ok_def payables_empty)

interpretation purchasing: transition_system "purchasing_step hs" "empty_purchasing h" purchasing_inv for hs h
  by unfold_locales (auto intro: purchasing_inv_empty purchasing_step_inv)

definition purchasing_reachable :: "'h hooks \<Rightarrow> 'h \<Rightarrow> 'h purchasing_db \<Rightarrow> bool" where
  "purchasing_reachable hs h st \<longleftrightarrow> (purchasing_step hs)\<^sup>*\<^sup>* (empty_purchasing h) st"

lemma purchasing_reachable_inv: "purchasing_reachable hs h st \<Longrightarrow> purchasing_inv st"
  unfolding purchasing_reachable_def by (rule purchasing.inv_reachable)

end
