(* ===== verification/Purchasing_Guarantees.thy ===== *)
theory Purchasing_Guarantees
  imports Purchasing_System
begin

text \<open>
  The guarantees of the purchasing module: what is paid on a bill is what was allocated to it, payables and
  the ledger agree, posting and cancelling are inverse, goods received are the goods accepted; and the
  limits of the last two. Each is applied to a small shop with the system accounts a posting needs, one
  draft bill and one draft goods receipt.
\<close>

section \<open>A shop\<close>

definition shop_account :: "uuid \<Rightarrow> string \<Rightarrow> account_type \<Rightarrow> account_subtype \<Rightarrow> account" where
  "shop_account i key t s = \<lparr>a_id = i, a_org = 900, a_code = key, a_name = key, a_description = None, a_type = t, a_subtype = s,
     a_parent = None, a_group = False, a_depth = 0, a_active = True, a_system = True, a_key = Some key,
     a_reconcilable = False, a_deleted = None\<rparr>"

definition shop_books :: "unit db" where
  "shop_books = (empty_db ())\<lparr>
     accounts := [shop_account 1 ''inventory'' ASSET INVENTORY, shop_account 2 ''grni'' LIABILITY OTHER_CURRENT_LIABILITY,
       shop_account 3 ''gst_input'' ASSET OTHER_CURRENT_ASSET, shop_account 4 ''accounts_payable'' LIABILITY ACCOUNTS_PAYABLE,
       shop_account 5 ''bank'' ASSET SUB_BANK, shop_account 6 ''cost_of_goods_sold'' EXPENSE COST_OF_GOODS_SOLD],
     years := [\<lparr>fy_id = 11, fy_org = 900, fy_name = ''2026'', fy_start = 739700, fy_end = 740000, fy_status = OPEN, fy_closed_at = None\<rparr>],
     periods := [\<lparr>p_id = 12, p_org = 900, p_year = 11, p_name = ''2026'', p_start = 739700, p_end = 740000, p_status = OPEN,
       p_closed_at = None, p_closed_by = None\<rparr>],
     journals := [\<lparr>j_id = 13, j_org = 900, j_code = ''PUR'', j_name = ''Purchases'', j_type = PURCHASE, j_prefix = ''PB'',
         j_default = None, j_active = True, j_system = True\<rparr>,
       \<lparr>j_id = 14, j_org = 900, j_code = ''BNK'', j_name = ''Bank'', j_type = BANK, j_prefix = ''BK'',
         j_default = None, j_active = True, j_system = True\<rparr>],
     next_id := 100\<rparr>"

definition shop_line :: bill_line where
  "shop_line = \<lparr>bl_line = \<lparr>pl_number = 1, pl_product = Some 30, pl_description = ''Widget'', pl_hsn = None, pl_quantity = 10,
     pl_unit = None, pl_unit_price = 10, pl_discount_percent = 0, pl_tax_rate = 18,
     pl_totals = \<lparr>gross = 100, discount_amount = 0, taxable = 100, cgst = 9, sgst = 9, igst = 0, tax_amount = 18, total = 118\<rparr>\<rparr>,
     bl_expense = None\<rparr>"

definition shop_bill :: bill where
  "shop_bill = \<lparr>bi_id = 50, bi_org = 900, bi_number = ''B1'', bi_invoice_number = None, bi_supplier = 40, bi_order = None,
     bi_receipt = None, bi_date = 739702, bi_due = 739732, bi_status = B_DRAFT, bi_paid = 0, bi_treatment = INTRA_STATE,
     bi_currency = ''INR'', bi_gstin = None,
     bi_totals = \<lparr>subtotal = 100, discount_total = 0, taxable_total = 100, cgst_total = 9, sgst_total = 9, igst_total = 0,
       tax_total = 18, round_off = 0, grand_total = 118\<rparr>,
     bi_entry = None, bi_reversal = None, bi_posted_at = None, bi_cancelled_at = None, bi_created_by = 7, bi_deleted = None,
     bi_lines = [shop_line]\<rparr>"

definition shop_receipt :: goods_receipt where
  "shop_receipt = \<lparr>gr_id = 51, gr_org = 900, gr_number = ''G1'', gr_supplier = 40, gr_order = None, gr_warehouse = 20,
     gr_date = 739702, gr_reference = None, gr_status = G_DRAFT, gr_total_cost = 84, gr_entry = None, gr_reversal = None,
     gr_posted_at = None, gr_cancelled_at = None, gr_notes = None, gr_created_by = 7, gr_deleted = None,
     gr_lines = [\<lparr>gl_number = 1, gl_product = 30, gl_order_line = None, gl_quantity = 12, gl_unit_cost = 7, gl_total_cost = 84,
       gl_rejected = 2, gl_notes = None\<rparr>]\<rparr>"

definition shop :: "unit purchasing_db" where
  "shop = (empty_purchasing ())\<lparr>
     stock := (empty_stock ())\<lparr>books := shop_books,
       warehouses := [\<lparr>wh_id = 20, wh_org = 900, wh_code = ''MAIN'', wh_name = ''Main'', wh_default = True, wh_active = True, wh_deleted = None\<rparr>]\<rparr>,
     products := [\<lparr>pr_id = 30, pr_org = 900, pr_sku = ''SKU-00001'', pr_name = ''Widget'', pr_description = None,
       pr_barcode = None, pr_kind = STOCKED, pr_hsn = None, pr_unit = ''NOS'', pr_tax_rate = 18, pr_sale_price = 9,
       pr_purchase_price = 5, pr_reorder_level = 0, pr_revenue_account = None, pr_inventory_account = None,
       pr_cogs_account = None, pr_active = True, pr_deleted = None\<rparr>],
     suppliers := [\<lparr>su_id = 40, su_org = 900, su_code = ''SUP-0001'', su_name = ''Acme'', su_gstin = None, su_state_code = None,
       su_country = ''IN'', su_terms = 30, su_currency = ''INR'', su_active = True, su_text = (\<lambda>_. None), su_deleted = None\<rparr>],
     receipts := [shop_receipt], bills := [shop_bill]\<rparr>"

lemma shop_inv: "purchasing_inv shop"
  by (simp add: purchasing_inv_def shop_def shop_books_def shop_account_def empty_purchasing_def empty_stock_def empty_db_def receipts_ok_def
    payables_inv_def bill_ok_def figures_ok_def shop_bill_def shop_receipt_def shop_line_def bill_lines_totals_def on_grid_def fits_def wh_keys_def
    stock_inv_def ledger_inv_def core_inv_def gap_free_def numbers_unique_def reversals_ok_def position_def no_stock_def fun_eq_iff fresh_id_def doc_id_def)

definition shop_payment :: payment_create where
  "shop_payment = \<lparr>yc_supplier = 40, yc_date = None, yc_amount = 60, yc_method = ''upi'', yc_reference = None, yc_source = None,
     yc_allocations = [(50, 50)]\<rparr>"

lemma shop_payment_valid: "validate_payment_create shop_payment = Inr ()"
  by code_simp

text \<open>The first supplier and the first bill of an empty database.\<close>

definition first_supplier :: supplier_create where
  "first_supplier = \<lparr>sc_code = Some ''SUP-0001'', sc_name = ''Acme'', sc_gstin = None, sc_country = ''IN'', sc_terms = 30, sc_text = []\<rparr>"

definition first_line :: purchase_line_input where
  "first_line = \<lparr>pi_product = None, pi_description = ''Rent'', pi_hsn = None, pi_quantity = 1, pi_unit = None, pi_unit_price = 10,
     pi_discount_percent = 0, pi_discount_amount = None, pi_tax_rate = 0, pi_expense = None\<rparr>"

definition first_bill :: bill_create where
  "first_bill = \<lparr>bc_supplier = 1, bc_invoice_number = None, bc_order = None, bc_receipt = None, bc_date = None, bc_due = None,
     bc_lines = [first_line], bc_round_to_whole = False, bc_post = False\<rparr>"

lemma first_figures:
  "compute_input tr first_line =
     \<lparr>gross = 10, discount_amount = 0, taxable = 10, cgst = 0, sgst = 0, igst = 0, tax_amount = 0, total = 10\<rparr>"
  "totals_of tr [first_line] False = \<lparr>subtotal = 10, discount_total = 0, taxable_total = 10, cgst_total = 0, sgst_total = 0,
     igst_total = 0, tax_total = 0, round_off = 0, grand_total = 10\<rparr>"
proof -
  have d: "dmul 1 10 = 10" "to_exact 10 = 10" "to_exact 0 = 0" by code_simp+
  show c: "compute_input tr first_line =
     \<lparr>gross = 10, discount_amount = 0, taxable = 10, cgst = 0, sgst = 0, igst = 0, tax_amount = 0, total = 10\<rparr>"
    by (simp add: first_line_def compute_input_def compute_line_def split_tax_def d line_discount_def lt_total_def)
  show "totals_of tr [first_line] False = \<lparr>subtotal = 10, discount_total = 0, taxable_total = 10, cgst_total = 0, sgst_total = 0,
     igst_total = 0, tax_total = 0, round_off = 0, grand_total = 10\<rparr>"
    by (simp add: totals_of_def c compute_document_def d)
qed

lemma first_bill_valid: "validate_bill_create first_bill = Inr ()"
  by code_simp

lemma first_bill_runs:
  "\<exists>st s st' b. create_supplier (empty_purchasing ()) 900 first_supplier 7 = Inr (st, s) \<and>
     create_bill no_hooks st 900 first_bill 7 739702 None 5000 = Inr (st', b) \<and> bills st' = [b] \<and> grand_total (bi_totals b) = 10"
proof -
  have "case create_supplier (empty_purchasing ()) 900 first_supplier 7 of Inr (st, s) \<Rightarrow> bills st = [] \<and> su_terms s = 30 \<and>
     is_ok (get_supplier st 900 1) \<and> is_ok (document_number st 900 ''bill'' ''BILL'' 739702) | _ \<Rightarrow> False" by code_simp
  then obtain st s s' st1 n where st: "create_supplier (empty_purchasing ()) 900 first_supplier 7 = Inr (st, s)" "bills st = []"
    "su_terms s = 30" "get_supplier st 900 1 = Inr s'" "document_number st 900 ''bill'' ''BILL'' 739702 = Inr (st1, n)"
    by (auto simp: is_ok_iff split: sum.splits)
  have "suppliers st = [s]" using st(1) by (auto simp: create_supplier_def Let_def add_supplier_def empty_purchasing_def)
  then have s': "s' = s" using st(4) by (auto simp: get_supplier_def split: if_splits)
  have b1: "bills st1 = []" using document_number_quiet [OF st(5)] st(2) by simp
  have sel: "bc_supplier first_bill = 1" "bc_invoice_number first_bill = None" "bc_order first_bill = None" "bc_receipt first_bill = None"
    "bc_date first_bill = None" "bc_due first_bill = None" "bc_lines first_bill = [first_line]" "\<not> bc_round_to_whole first_bill"
    "\<not> bc_post first_bill" "pi_expense first_line = None" "pi_product first_line = None" "pi_quantity first_line = 1" "pi_unit_price first_line = 10"
    "pi_tax_rate first_line = 0"
    by (simp_all add: first_bill_def first_line_def)
  have "create_bill no_hooks st 900 first_bill 7 739702 None 5000 = Inr (st', b) \<longrightarrow> bills st' = [b] \<and> grand_total (bi_totals b) = 10" for st' b
    using st(2-5) b1 by (auto simp: create_bill_def Let_def sel s' first_figures add_bill_def)
  moreover have "is_ok (create_bill no_hooks st 900 first_bill 7 739702 None 5000)"
    using st(2-5) b1
    by (simp add: create_bill_def Let_def sel s' first_figures add_bill_def bill_checks_def document_checks_def due_date_for_def shift_days_def MAX_ORDINAL_def
      fk_ok_def apply_line_def purchase_line_checks_def fits_def)
  ultimately show ?thesis using st(1) by (auto simp: is_ok_iff)
qed
section \<open>Payables\<close>

text \<open>
  C20. Payables agree with the allocations. Whatever the sequence of operations, the paid amount of a bill is the
  sum of the allocations to it, lies between zero and the total, and determines the status; a payment is
  its unallocated rest plus what was allocated from it; and an allocation is positive and joins a bill and
  a payment of the same supplier and organization.
\<close>

theorem payables_agree:
  assumes "purchasing_reachable hs h st"
  shows "(\<forall>b \<in> set (bills st).
       bi_paid b = sum_list (map al_amount (filter (\<lambda>a. al_bill a = bi_id b) (allocations st))) \<and>
       0 \<le> bi_paid b \<and> bi_paid b \<le> grand_total (bi_totals b) \<and>
       (bi_status b = B_PAID \<longrightarrow> bi_paid b = grand_total (bi_totals b)) \<and>
       (bi_status b = B_PARTIALLY_PAID \<longrightarrow> 0 < bi_paid b \<and> bi_paid b < grand_total (bi_totals b)) \<and>
       (bi_status b \<in> {B_DRAFT, B_POSTED, B_CANCELLED} \<longrightarrow> bi_paid b = 0)) \<and>
     (\<forall>p \<in> set (payments st). 0 \<le> sp_unallocated p \<and>
       sp_amount p = sp_unallocated p + sum_list (map al_amount (filter (\<lambda>a. al_payment a = sp_id p) (allocations st)))) \<and>
     (\<forall>a \<in> set (allocations st). 0 < al_amount a \<and>
       (\<exists>b \<in> set (bills st). \<exists>p \<in> set (payments st). bi_id b = al_bill a \<and> sp_id p = al_payment a \<and>
          bi_supplier b = sp_supplier p \<and> bi_org b = sp_org p))"
proof -
  note inv = purchasing_invD(3) [OF purchasing_reachable_inv [OF assms]]
  have status: "0 \<le> x \<and> x \<le> t \<and> (s = B_PAID \<longrightarrow> x = t) \<and> (s = B_PARTIALLY_PAID \<longrightarrow> 0 < x \<and> x < t) \<and>
      (s \<in> {B_DRAFT, B_POSTED, B_CANCELLED} \<longrightarrow> x = 0)" if "status_ok s x t" for s x t
    using that by (cases s) simp_all
  show ?thesis
  proof (intro conjI)
    show "\<forall>b \<in> set (bills st).
       bi_paid b = sum_list (map al_amount (filter (\<lambda>a. al_bill a = bi_id b) (allocations st))) \<and>
       0 \<le> bi_paid b \<and> bi_paid b \<le> grand_total (bi_totals b) \<and>
       (bi_status b = B_PAID \<longrightarrow> bi_paid b = grand_total (bi_totals b)) \<and>
       (bi_status b = B_PARTIALLY_PAID \<longrightarrow> 0 < bi_paid b \<and> bi_paid b < grand_total (bi_totals b)) \<and>
       (bi_status b \<in> {B_DRAFT, B_POSTED, B_CANCELLED} \<longrightarrow> bi_paid b = 0)"
      using payables_invD(5) [OF inv] status unfolding bill_ok_def paid_to_def by blast
  qed (use inv in \<open>simp_all add: payables_inv_def payment_ok_def spent_by_def linked_def\<close>)
qed

theorem payables_agree_witness:
  "\<exists>st b. purchasing_reachable no_hooks () st \<and> bills st = [b] \<and> grand_total (bi_totals b) = 10 \<and>
     bi_paid b = sum_list (map al_amount (filter (\<lambda>a. al_bill a = bi_id b) (allocations st)))"
proof -
  obtain st s st' b where r: "create_supplier (empty_purchasing ()) 900 first_supplier 7 = Inr (st, s)"
    "create_bill no_hooks st 900 first_bill 7 739702 None 5000 = Inr (st', b)" "bills st' = [b]" "grand_total (bi_totals b) = 10"
    using first_bill_runs by blast
  have "purchasing_step no_hooks (empty_purchasing ()) st" "purchasing_step no_hooks st st'"
    by (rule purchasing_step.supplier_new [OF r(1)], rule purchasing_step.bill_new [OF first_bill_valid r(2)])
  then have "purchasing_reachable no_hooks () st'" by (simp add: purchasing_reachable_def)
  with payables_agree [OF this] r(3,4) show ?thesis by auto
qed

text \<open>
  C22. A bill's entry balances. For every bill of a consistent database with a positive total, the entry that
  posting builds passes the balance check of the ledger, and it moves each account by the cost, tax,
  rounding and payable that fall on it.
\<close>

theorem bill_entry_balances:
  assumes "purchasing_inv st" and "b \<in> set (bills st)" and "0 < grand_total (bi_totals b)"
    and "bill_entry st org b = Inr d"
  shows "validate_balance (ec_lines d) = Inr () \<and> ec_post d \<and>
    sum_list (map li_debit (ec_lines d)) = sum_list (map li_credit (ec_lines d)) \<and>
    (\<forall>a. sum_list (map (\<lambda>l. li_debit l - li_credit l) (filter (\<lambda>l. li_account l = a) (ec_lines d))) = bill_net st org b a)"
proof -
  have f: "figures_ok (bill_lines_totals b) (bi_totals b)"
    using payables_invD(5) [OF purchasing_invD(3) [OF assms(1)] assms(2)] by (simp add: bill_ok_def)
  note e = bill_entry_ok [OF f assms(3,4)]
  have "sum_list (map li_debit (ec_lines d)) = sum_list (map li_credit (ec_lines d))"
    using e(1) by (auto simp: validate_balance_def Let_def)
  with e show ?thesis by (simp add: lines_net_def)
qed

theorem bill_entry_balances_witness:
  "\<exists>d. bill_entry shop 900 shop_bill = Inr d \<and> validate_balance (ec_lines d) = Inr () \<and> length (ec_lines d) = 4"
proof -
  have "case bill_entry shop 900 shop_bill of Inr d \<Rightarrow> length (ec_lines d) = 4 | _ \<Rightarrow> False" by code_simp
  then obtain d where d: "bill_entry shop 900 shop_bill = Inr d" "length (ec_lines d) = 4" by (auto split: sum.splits)
  then show ?thesis using bill_entry_balances [OF shop_inv _ _ d(1)] by (simp add: shop_def shop_bill_def)
qed

lemma shop_bill_runs:
  "\<exists>st1 b1 st2 b2 st3 p3. post_bill no_hooks shop 900 50 7 5000 = Inr (st1, b1) \<and>
     cancel_bill no_hooks st1 900 50 ''error'' None 7 6000 = Inr (st2, b2) \<and>
     pay no_hooks st1 900 shop_payment 7 739703 7000 = Inr (st3, p3) \<and> ledger_net (ledger st1) 4 = - 118 \<and>
     ledger_net (ledger st3) 4 = - 58"
proof -
  have "case post_bill no_hooks shop 900 50 7 5000 of Inr (st1, b1) \<Rightarrow>
      is_ok (cancel_bill no_hooks st1 900 50 ''error'' None 7 6000) \<and> ledger_net (ledger st1) 4 = - 118 \<and>
      (case pay no_hooks st1 900 shop_payment 7 739703 7000 of
         Inr (st3, p3) \<Rightarrow> ledger_net (ledger st3) 4 = - 58 | _ \<Rightarrow> False) | _ \<Rightarrow> False"
    by code_simp
  then show ?thesis by (auto simp: is_ok_iff split: sum.splits prod.splits)
qed

lemma account_is_distinct:
  assumes "ledger_inv (ledger st)" "resolve_system_account (ledger st) org k = Inr x" "k' \<noteq> k"
  shows "\<not> account_is st org k' (a_id x)"
proof
  assume "account_is st org k' (a_id x)"
  then obtain y where y: "resolve_system_account (ledger st) org k' = Inr y" "a_id y = a_id x"
    by (auto simp: account_is_def split: sum.splits)
  note r = resolve_system_account_ok [OF assms(2)] resolve_system_account_ok [OF y(1)]
  have "distinct (map a_id (accounts (ledger st)))" using assms(1) by (simp add: ledger_inv_def core_inv_def)
  then have "y = x" using r y(2) by (auto simp: distinct_map inj_on_def)
  then show False using r assms(3) by simp
qed

lemma cost_net_payable:
  assumes "ledger_inv (ledger st)" "resolve_system_account (ledger st) org ''accounts_payable'' = Inr ap"
    "\<forall>l \<in> set (bi_lines b). line_debit_account st org l \<noteq> Inr (a_id ap)"
  shows "bill_net st org b (a_id ap) = - grand_total (bi_totals b)"
proof -
  have "cost_net st org b (a_id ap) = 0"
    using account_is_distinct [OF assms(1,2)] assms(3) by (auto simp: cost_net_def filter_False split: option.splits)
  then show ?thesis
    using account_is_distinct [OF assms(1,2)] assms(2) by (simp add: bill_net_def account_is_def)
qed

text \<open>
  C21. The control account. The balance of Accounts Payable and what the sub-ledger says is owed (the outstanding
  amounts of the posted bills less the unallocated rests of the payments) stay in step: posting a bill none
  of whose lines is charged to Accounts Payable itself, paying a supplier, and allocating a payment each
  leave their sum unchanged.
\<close>

theorem payables_control:
  assumes "purchasing_inv st" and "resolve_system_account (ledger st) org ''accounts_payable'' = Inr ap"
    and "(post_bill hs st org i actor now = Inr (st', b') \<and>
           (\<forall>b \<in> set (bills st). bi_id b = i \<longrightarrow> (\<forall>l \<in> set (bi_lines b). line_debit_account st org l \<noteq> Inr (a_id ap)))) \<or>
         (validate_payment_create d = Inr () \<and> pay hs st org d actor today now = Inr (st', p')) \<or>
         (validate_allocations as = Inr () \<and> allocate st org i as actor = Inr (st', p'))"
  shows "ledger_net (ledger st') (a_id ap) + owed (bills st') (payments st') org =
    ledger_net (ledger st) (a_id ap) + owed (bills st) (payments st) org"
  using assms(3)
proof (elim disjE conjE)
  assume op: "post_bill hs st org i actor now = Inr (st', b')"
    and ls: "\<forall>b \<in> set (bills st). bi_id b = i \<longrightarrow> (\<forall>l \<in> set (bi_lines b). line_debit_account st org l \<noteq> Inr (a_id ap))"
  show ?thesis
    using post_bill_effect [OF assms(1) op]
  proof cases
    case (1 b e)
    have "ledger_inv (ledger st)" using stock_invD(1) [OF purchasing_invD(1) [OF assms(1)]] by (simp add: ledger_def)
    then have net: "bill_net st org b (a_id ap) = - grand_total (bi_totals b)"
      using assms(2) ls 1(1,2) by (intro cost_net_payable) auto
    have "owed (bills st') (payments st') org = owed (bills st) (payments st) org + bill_due org b' - bill_due org b"
      using sum_replaced [OF payables_invD(1) [OF purchasing_invD(3) [OF assms(1)]] 1(1), of b' "bill_due org"] 1
      by (simp add: owed_def same_bill_def)
    then show ?thesis
      using 1 net by (simp add: bill_due_def outstanding_def same_bill_def bill_is_posted_def)
  qed
next
  assume v: "validate_payment_create d = Inr ()" and op: "pay hs st org d actor today now = Inr (st', p')"
  show ?thesis
    using pay_effect [OF assms(1) v op]
  proof cases
    case (1 payable source)
    then show ?thesis using assms(2) by (simp add: pair_net_def)
  qed
next
  assume v: "validate_allocations as = Inr ()" and op: "allocate st org i as actor = Inr (st', p')"
  show ?thesis using allocate_effect [OF assms(1) v op] quiet_ledger(1) by metis
qed

theorem payables_control_witness:
  "\<exists>st b st' p. post_bill no_hooks shop 900 50 7 5000 = Inr (st, b) \<and> pay no_hooks st 900 shop_payment 7 739703 7000 = Inr (st', p) \<and>
     ledger_net (ledger st') 4 = - 58 \<and> owed (bills st') (payments st') 900 = 58"
proof -
  obtain st1 b1 st3 p3 where r: "post_bill no_hooks shop 900 50 7 5000 = Inr (st1, b1)"
    "pay no_hooks st1 900 shop_payment 7 739703 7000 = Inr (st3, p3)" "ledger_net (ledger st1) 4 = - 118" "ledger_net (ledger st3) 4 = - 58"
    using shop_bill_runs by blast
  have "case post_bill no_hooks shop 900 50 7 5000 of Inr (st1, b1) \<Rightarrow>
      (case resolve_system_account (ledger st1) 900 ''accounts_payable'' of Inr a \<Rightarrow> a_id a = 4 | _ \<Rightarrow> False) \<and>
      owed (bills st1) (payments st1) 900 = 118 | _ \<Rightarrow> False"
    by code_simp
  then obtain ap where ap: "resolve_system_account (ledger st1) 900 ''accounts_payable'' = Inr ap" "a_id ap = 4"
    "owed (bills st1) (payments st1) 900 = 118"
    using r(1) by (auto split: sum.splits)
  have inv: "purchasing_inv st1" using post_bill_effect [OF shop_inv r(1)] by blast
  have "ledger_net (ledger st3) 4 + owed (bills st3) (payments st3) 900 = ledger_net (ledger st1) 4 + owed (bills st1) (payments st1) 900"
    using payables_control [OF inv ap(1), of no_hooks 0 7 7000 st3 b1 shop_payment 739703 p3 "[]"] r(2) shop_payment_valid ap(2) by simp
  with r ap show ?thesis by auto
qed

lemma cancel_bill_payments:
  "cancel_bill hs st org i reason cd actor now = Inr (st', b') \<Longrightarrow> payments st' = payments st"
  by (auto simp: cancel_bill_def reverse_document_entry_def save_bill_def Let_def split: option.splits if_splits)

text \<open>
  Cancelling a bill undoes its posting. Whatever the reason and the date given for the reversal, when a bill
  that was just posted is cancelled every account of the ledger and the amount owed are as before.
\<close>

theorem bill_post_cancel:
  assumes "purchasing_inv st" and "post_bill hs st org i actor now = Inr (st1, b1)"
    and "cancel_bill hs st1 org i reason cd actor' now' = Inr (st2, b2)"
  shows "ledger_net (ledger st2) a = ledger_net (ledger st) a \<and> bi_status b2 = B_CANCELLED \<and>
    owed (bills st2) (payments st2) org = owed (bills st) (payments st) org"
  using post_bill_effect [OF assms(1,2)]
proof cases
  case p: (1 b e)
  have inv1: "payables_inv (bills st1) (payments st1) (allocations st1) (doc_id st1)" by (rule purchasing_invD(3) [OF p(13)])
  have b1: "b1 \<in> set (bills st1)" using p(1,2,5) unfolding p(14) by (force simp: same_bill_def update_where_def)
  show ?thesis
    using cancel_bill_effect [OF p(13) assms(3)]
  proof cases
    case c: (1 c)
    have "c = b1"
      using b1 c(1,2) p(2,5) payables_invD(1) [OF inv1] by (auto simp: same_bill_def distinct_map dest: inj_onD)
    then obtain original where o: "original \<in> set (entries (ledger st1))" "e_id original = e_id e"
      "ledger_net (ledger st2) a = ledger_net (ledger st1) a - entry_net a original"
      using c(13) [OF _ _] p(6,8) by (auto simp: bill_is_posted_def)
    have "distinct (map e_id (entries (ledger st1)))"
      using stock_invD(1) [OF purchasing_invD(1) [OF p(13)]] by (simp add: ledger_inv_def core_inv_def ledger_def)
    then have "original = e" using o(1,2) p(9) by (auto simp: distinct_map dest: inj_onD)
    moreover have "sum_list (map (bill_due org) (bills st1)) = sum_list (map (bill_due org) (bills st)) + bill_due org b1 - bill_due org b"
      unfolding p(14) by (rule sum_replaced [OF payables_invD(1) [OF purchasing_invD(3) [OF assms(1)]] p(1)])
        (use p(5) in \<open>simp add: same_bill_def\<close>)
    moreover have "sum_list (map (bill_due org) (bills st2)) = sum_list (map (bill_due org) (bills st1)) + bill_due org b2 - bill_due org b1"
      unfolding c(10) by (rule sum_replaced [OF payables_invD(1) [OF inv1] b1])
        (use c(6) \<open>c = b1\<close> in \<open>simp add: same_bill_def\<close>)
    ultimately show ?thesis
      using o(3) p(4,11,12,15) c(7) cancel_bill_payments [OF assms(3)] by (simp add: owed_def bill_due_def bill_is_posted_def)
  qed
qed

theorem bill_post_cancel_witness:
  "\<exists>st1 b1 st2 b2. post_bill no_hooks shop 900 50 7 5000 = Inr (st1, b1) \<and>
     cancel_bill no_hooks st1 900 50 ''error'' None 7 6000 = Inr (st2, b2) \<and>
     ledger_net (ledger st1) 4 = - 118 \<and> ledger_net (ledger st2) 4 = ledger_net (ledger shop) 4"
proof -
  obtain st1 b1 st2 b2 where r: "post_bill no_hooks shop 900 50 7 5000 = Inr (st1, b1)"
    "cancel_bill no_hooks st1 900 50 ''error'' None 7 6000 = Inr (st2, b2)" "ledger_net (ledger st1) 4 = - 118"
    using shop_bill_runs by blast
  with bill_post_cancel [OF shop_inv r(1,2), of 4] show ?thesis by blast
qed

section \<open>Goods receipts\<close>

text \<open>
  C23. Goods received are the goods accepted. Posting a receipt raises the quantity on hand of each product in
  the receipt's warehouse by what was delivered less what was rejected, and moves no other position. The
  rounded value of the accepted goods is debited to the inventory account and credited to goods received not
  invoiced; no other account moves. The value of the stock rises by the same amount and, beyond it, by the
  accepted goods that came without cost, valued at the purchase price of their product: the two agree when every
  accepted line has a cost, and otherwise that rest is stock no entry records.
\<close>

theorem receipt_posting:
  assumes "purchasing_inv st" and "post_receipt hs st org i actor now = Inr (st', g)"
  shows "(\<forall>k. v_quantity (position (levels (stock st')) k) = v_quantity (position (levels (stock st)) k) +
       sum_list (map (\<lambda>l. gl_quantity l - gl_rejected l)
         (filter (\<lambda>l. gl_rejected l < gl_quantity l \<and> (gl_product l, gr_warehouse g) = k) (gr_lines g)))) \<and>
     (\<exists>v free. v = sum_list (map (\<lambda>l. round_value (dmul (gl_quantity l - gl_rejected l) (gl_unit_cost l)))
           (filter (\<lambda>l. gl_rejected l < gl_quantity l) (gr_lines g))) \<and>
        free = sum_list (map (\<lambda>l. round_value (dmul (gl_quantity l - gl_rejected l) (list_price st org (gl_product l))))
           (filter (\<lambda>l. gl_rejected l < gl_quantity l \<and> gl_unit_cost l = 0) (gr_lines g))) \<and>
        org_value (stock st') org = org_value (stock st) org + v + free \<and>
        (0 < v \<longrightarrow> (\<exists>inventory grni. resolve_system_account (ledger st) org ''inventory'' = Inr inventory \<and>
           resolve_system_account (ledger st) org ''grni'' = Inr grni \<and>
           (\<forall>a. ledger_net (ledger st') a = ledger_net (ledger st) a + pair_net (a_id inventory) (a_id grni) v a))) \<and>
        (v \<le> 0 \<longrightarrow> ledger_net (ledger st') = ledger_net (ledger st)))"
  using post_receipt_effect [OF purchasing_invD(1,2) [OF assms(1)] assms(2)]
proof cases
  case (1 r s os v)
  have acc: "0 < accepted_quantity l \<longleftrightarrow> gl_rejected l < gl_quantity l" for l by (simp add: accepted_quantity_def)
  have s: "stock st' = s" "ledger st' = books s" by (simp_all add: 1(5) ledger_def)
  have q: "accepted_into w ls k = sum_list (map (\<lambda>l. gl_quantity l - gl_rejected l)
      (filter (\<lambda>l. gl_rejected l < gl_quantity l \<and> (gl_product l, w) = k) ls))" for w ls k
    by (simp add: accepted_into_def accepted_quantity_def [abs_def])
  have v: "v = sum_list (map (\<lambda>l. round_value (dmul (gl_quantity l - gl_rejected l) (gl_unit_cost l)))
           (filter (\<lambda>l. gl_rejected l < gl_quantity l) (gr_lines g)))"
    unfolding 1(14) by (simp add: received_value_def accepted_quantity_def 1(9))
  have free: "substituted_value st org (gr_lines g) =
      sum_list (map (\<lambda>l. round_value (dmul (gl_quantity l - gl_rejected l) (list_price st org (gl_product l))))
           (filter (\<lambda>l. gl_rejected l < gl_quantity l \<and> gl_unit_cost l = 0) (gr_lines g)))"
    by (simp add: substituted_value_def accepted_quantity_def)
  have "org_value s org = org_value (stock st) org + v + substituted_value st org (gr_lines g)" using 1(16) by (simp add: 1(9))
  moreover have "v_quantity (position (levels s) k) = v_quantity (position (levels (stock st)) k) +
      accepted_into (gr_warehouse g) (gr_lines g) k" for k
    using fun_cong [OF 1(15), of k] by (simp add: 1(9,10))
  moreover have "ledger_net (books s) = ledger_net (ledger st)" if "v \<le> 0"
    using 1(17) that by (intro ledger_net_entries) auto
  moreover have "0 < v \<Longrightarrow> \<exists>inventory grni. resolve_system_account (ledger st) org ''inventory'' = Inr inventory \<and>
           resolve_system_account (ledger st) org ''grni'' = Inr grni \<and>
           (\<forall>a. ledger_net (books s) a = ledger_net (ledger st) a + pair_net (a_id inventory) (a_id grni) v a)"
    using 1(17) by blast
  ultimately show ?thesis unfolding q s using v free by blast
qed

lemma shop_receipt_runs:
  "\<exists>st1 g1 st2 g2. post_receipt no_hooks shop 900 51 7 5000 = Inr (st1, g1) \<and>
     cancel_receipt no_hooks st1 900 51 ''error'' 7 6000 = Inr (st2, g2) \<and> gr_lines g1 = gr_lines shop_receipt \<and>
     org_value (stock st1) 900 = 70 \<and> ledger_net (ledger st1) 1 = 70"
proof -
  have "case post_receipt no_hooks shop 900 51 7 5000 of Inr (st1, g1) \<Rightarrow>
      is_ok (cancel_receipt no_hooks st1 900 51 ''error'' 7 6000) \<and> org_value (stock st1) 900 = 70 \<and> ledger_net (ledger st1) 1 = 70
    | _ \<Rightarrow> False"
    by code_simp
  then obtain st1 g1 st2 g2 where r: "post_receipt no_hooks shop 900 51 7 5000 = Inr (st1, g1)"
     "cancel_receipt no_hooks st1 900 51 ''error'' 7 6000 = Inr (st2, g2)" "org_value (stock st1) 900 = 70" "ledger_net (ledger st1) 1 = 70"
    by (auto simp: is_ok_iff split: sum.splits)
  have "gr_lines g1 = gr_lines shop_receipt"
    using post_receipt_effect [OF purchasing_invD(1,2) [OF shop_inv] r(1)] by (auto simp: shop_def)
  with r show ?thesis by blast
qed

theorem receipt_posting_witness:
  "\<exists>st g. post_receipt no_hooks shop 900 51 7 5000 = Inr (st, g) \<and> org_value (stock st) 900 = 70 \<and> ledger_net (ledger st) 1 = 70 \<and>
     v_quantity (position (levels (stock st)) (30, gr_warehouse g)) = 10"
proof -
  obtain st g where r: "post_receipt no_hooks shop 900 51 7 5000 = Inr (st, g)" "gr_lines g = gr_lines shop_receipt"
     "org_value (stock st) 900 = 70" "ledger_net (ledger st) 1 = 70" using shop_receipt_runs by blast
  have z: "v_quantity (position (levels (stock shop)) k) = 0" for k
    by (simp add: shop_def empty_stock_def position_def no_stock_def)
  have "v_quantity (position (levels (stock st)) (30, gr_warehouse g)) = 0 + sum_list (map (\<lambda>l. gl_quantity l - gl_rejected l)
         (filter (\<lambda>l. gl_rejected l < gl_quantity l \<and> (gl_product l, gr_warehouse g) = (30, gr_warehouse g)) (gr_lines g)))"
    using conjunct1 [OF receipt_posting [OF shop_inv r(1)], rule_format, of "(30, gr_warehouse g)"] unfolding z .
  then show ?thesis using r by (auto simp: shop_receipt_def)
qed

text \<open>
  Cancelling a receipt undoes its posting. When a receipt that was just posted is cancelled, the quantity of
  every position and the balance of every account are as before.
\<close>

theorem receipt_post_cancel:
  assumes "purchasing_inv st" and "post_receipt hs st org i actor now = Inr (st1, g1)"
    and "cancel_receipt hs st1 org i reason actor' now' = Inr (st2, g2)"
  shows "gr_status g2 = G_CANCELLED \<and> (\<forall>k. v_quantity (position (levels (stock st2)) k) = v_quantity (position (levels (stock st)) k)) \<and>
    (\<forall>a. ledger_net (ledger st2) a = ledger_net (ledger st) a)"
  using post_receipt_effect [OF purchasing_invD(1,2) [OF assms(1)] assms(2)]
proof cases
  case p: (1 g s os v)
  have inv1: "purchasing_inv st1" by (rule post_receipt_inv [OF assms(1,2)])
  have s: "stock st1 = s" "ledger st1 = books s" by (simp_all add: p(5) ledger_def)
  have g1: "g1 \<in> set (receipts st1)" using p(1,2,6) by (force simp: p(5) update_where_def)
  show ?thesis
    using cancel_receipt_effect [OF purchasing_invD(1,2) [OF inv1] assms(3)]
  proof cases
    case c: (1 c s2 os2)
    have "c = g1"
      using g1 c(1,2) p(6) receipts_okD(1) [OF purchasing_invD(2) [OF inv1]] by (auto simp: distinct_map dest: inj_onD)
    then have u: "undone g1 s s2" using c(13) p(8) by (simp add: s)
    have s2: "stock st2 = s2" "ledger st2 = books s2" by (simp_all add: c(5) ledger_def)
    have q: "v_quantity (position (levels s2) k) = v_quantity (position (levels (stock st)) k)" for k
      using fun_cong [OF conjunct1 [OF u [unfolded undone_def]], of k] fun_cong [OF p(15), of k] by (simp add: p(9,10))
    have "ledger_net (books s2) a = ledger_net (ledger st) a" for a
    proof (cases "0 < v")
      case False
      then have "gr_entry g1 = None" "entries (books s) = entries (ledger st)" using p(17) by auto
      then show ?thesis using u ledger_net_entries [of "books s2" "ledger st"] by (simp add: undone_def)
    next
      case True
      with p(17) obtain inventory grni :: account and e where e: "e \<in> set (entries (books s))" "gr_entry g1 = Some (e_id e)"
        "entry_net a e = pair_net (a_id inventory) (a_id grni) v a"
        "ledger_net (books s) a = ledger_net (ledger st) a + pair_net (a_id inventory) (a_id grni) v a" by blast
      obtain original where o: "original \<in> set (entries (books s))" "e_id original = e_id e"
        "ledger_net (books s2) a = ledger_net (books s) a - entry_net a original"
        using u e(2) by (auto simp: undone_def)
      have "distinct (map e_id (entries (books s)))"
        using stock_invD(1) [OF p(11)] by (simp add: ledger_inv_def core_inv_def)
      then have "original = e" using o(1,2) e(1) by (auto simp: distinct_map dest: inj_onD)
      then show ?thesis using o(3) e(3,4) by simp
    qed
    with q c(8) s2 show ?thesis by simp
  qed
qed

theorem receipt_post_cancel_witness:
  "\<exists>st1 g1 st2 g2. post_receipt no_hooks shop 900 51 7 5000 = Inr (st1, g1) \<and> ledger_net (ledger st1) 1 = 70 \<and>
     cancel_receipt no_hooks st1 900 51 ''error'' 7 6000 = Inr (st2, g2) \<and> ledger_net (ledger st2) 1 = ledger_net (ledger shop) 1"
proof -
  obtain st1 g1 st2 g2 where r: "post_receipt no_hooks shop 900 51 7 5000 = Inr (st1, g1)"
     "cancel_receipt no_hooks st1 900 51 ''error'' 7 6000 = Inr (st2, g2)" "ledger_net (ledger st1) 1 = 70" using shop_receipt_runs by blast
  with receipt_post_cancel [OF shop_inv r(1,2)] show ?thesis by blast
qed

text \<open>
  A receipt without cost. The stock service replaces a unit cost of zero by the purchase price of the
  product, the accrual does not: ten free widgets with a purchase price of 5 raise the value of the stock
  by 50, and no entry is posted.
\<close>

definition free_receipt :: goods_receipt where
  "free_receipt = shop_receipt\<lparr>gr_total_cost := 0, gr_lines := map (\<lambda>l. l\<lparr>gl_unit_cost := 0, gl_total_cost := 0\<rparr>) (gr_lines shop_receipt)\<rparr>"

theorem free_receipt_unposted:
  "\<exists>st g. post_receipt no_hooks (shop\<lparr>receipts := [free_receipt]\<rparr>) 900 51 7 5000 = Inr (st, g) \<and>
     org_value (stock shop) 900 = 0 \<and> org_value (stock st) 900 = 50 \<and> gr_entry g = None \<and> entries (ledger st) = []"
proof -
  have "case post_receipt no_hooks (shop\<lparr>receipts := [free_receipt]\<rparr>) 900 51 7 5000 of Inr (st, g) \<Rightarrow>
     org_value (stock shop) 900 = 0 \<and> org_value (stock st) 900 = 50 \<and> gr_entry g = None \<and> length (entries (ledger st)) = 0 | _ \<Rightarrow> False"
    by code_simp
  then show ?thesis by (auto split: sum.splits)
qed

section \<open>Dead ends\<close>

text \<open>
  A billed receipt stays. A goods receipt that a bill references can never be cancelled, not even after the
  bill was: cancelling a bill keeps its row and its reference, and the check of the receipt does not look at
  the status. The request to cancel the bill first leads nowhere.
\<close>

theorem billed_receipt_stuck:
  assumes "purchasing_inv st" and "cancel_bill hs st org i reason cd actor now = Inr (st', b)" and "bi_receipt b = Some r"
  shows "\<exists>e. cancel_receipt hs' st' org' r reason' actor' now' = Inl e"
proof (rule ccontr)
  assume "\<not> ?thesis"
  then obtain st'' g where op: "cancel_receipt hs' st' org' r reason' actor' now' = Inr (st'', g)"
    by (cases "cancel_receipt hs' st' org' r reason' actor' now'") auto
  show False
    using cancel_bill_effect [OF assms(1,2)]
  proof cases
    case c: (1 b0)
    have b: "b \<in> set (bills st')" using c(1,6) unfolding c(10) by (force simp: same_bill_def update_where_def)
    show False
      using cancel_receipt_effect [OF purchasing_invD(1,2) [OF c(8)] op]
    proof cases
      case (1 g0 s os)
      then show False using b c(11) assms(3) by blast
    qed
  qed
qed

definition billed_shop :: "unit purchasing_db" where
  "billed_shop = shop\<lparr>bills := [shop_bill\<lparr>bi_receipt := Some 51\<rparr>]\<rparr>"

lemma billed_shop_inv: "purchasing_inv billed_shop"
proof -
  have "bill_ok as (b\<lparr>bi_receipt := r\<rparr>) \<longleftrightarrow> bill_ok as b" for as b r by (simp add: bill_ok_def bill_lines_totals_def)
  moreover have "wh_keys (stock (st\<lparr>bills := bs\<rparr>)) = wh_keys (stock st)" for st :: "unit purchasing_db" and bs by simp
  moreover have "allocations shop = []" "payments shop = []" "bills shop = [shop_bill]" by (simp_all add: shop_def empty_purchasing_def)
  ultimately show ?thesis using shop_inv
    by (simp add: billed_shop_def purchasing_inv_def receipts_ok_def payables_inv_def doc_id_def)
qed

theorem billed_receipt_stuck_witness:
  "\<exists>st b e. cancel_bill no_hooks billed_shop 900 50 ''wrong supplier'' None 7 5000 = Inr (st, b) \<and> bi_status b = B_CANCELLED \<and>
     cancel_receipt no_hooks st 900 51 ''wrong supplier'' 7 6000 = Inl e"
proof -
  have "case cancel_bill no_hooks billed_shop 900 50 ''wrong supplier'' None 7 5000 of
      Inr (st, b) \<Rightarrow> bi_status b = B_CANCELLED \<and> bi_receipt b = Some 51 | _ \<Rightarrow> False" by code_simp
  then obtain st b where r: "cancel_bill no_hooks billed_shop 900 50 ''wrong supplier'' None 7 5000 = Inr (st, b)"
    "bi_status b = B_CANCELLED" "bi_receipt b = Some 51" by (auto split: sum.splits)
  with billed_receipt_stuck [OF billed_shop_inv r(1,3)] show ?thesis by blast
qed

lemma inactive_supplier:
  assumes "distinct (map su_id (suppliers st))" "s \<in> set (suppliers st)" "su_id s = i" "su_org s = org" "su_deleted s = None"
  shows "get_supplier st org i = (if su_active s then Inr s else Inl (BusinessRuleError ''Supplier is inactive''))"
proof -
  have "filter (\<lambda>y. su_id y = i \<and> su_org y = org \<and> su_deleted y = None) xs = [s]"
    if "distinct (map su_id xs)" "s \<in> set xs" for xs
    using that assms(3-5) by (induction xs) (auto simp: filter_empty_conv image_iff)
  with assms(1,2) show ?thesis by (simp add: get_supplier_def raise_if_def)
qed

text \<open>
  Deactivating a supplier is final. The update looks the supplier up with the check that refuses inactive ones,
  so that an update that sets it inactive can never be taken back; nor can anything owed to it be paid.
\<close>

theorem supplier_deactivation_final:
  assumes "distinct (map su_id (suppliers st))" and "update_supplier st org i data actor = Inr (st', s)" and "\<not> su_active s"
  shows "update_supplier st' org i data' actor' = Inl (BusinessRuleError ''Supplier is inactive'') \<and>
    (yc_supplier d = i \<longrightarrow> pay hs st' org d actor' today now = Inl (BusinessRuleError ''Supplier is inactive''))"
proof -
  from assms(2) obtain s0 where s0: "get_supplier st org i = Inr s0" and s: "su_id s = su_id s0" "su_org s = su_org s0" "su_deleted s = su_deleted s0"
    and st': "suppliers st' = update_where (\<lambda>y. su_id y = su_id s) (\<lambda>_. s) (suppliers st)"
    by (auto simp: update_supplier_def save_supplier_def Let_def)
  have k: "s0 \<in> set (suppliers st)" "su_id s0 = i" "su_org s0 = org" "su_deleted s0 = None"
    using s0 by (auto simp: get_supplier_def split: option.splits dest: scalar_one_or_none_Some)
  have "map su_id (suppliers st') = map su_id (suppliers st)" unfolding st' by (rule map_key_replace) simp
  moreover have "s \<in> set (suppliers st')" using k(1) s(1) unfolding st' by (force simp: update_where_def)
  ultimately have "get_supplier st' org i = Inl (BusinessRuleError ''Supplier is inactive'')"
    using inactive_supplier [of st' s i org] assms(1,3) k s by simp
  then show ?thesis by (simp add: update_supplier_def pay_def)
qed

definition deactivate :: supplier_update where
  "deactivate = \<lparr>uu_name = None, uu_gstin = None, uu_terms = None, uu_active = Some (Some False), uu_text = []\<rparr>"

theorem supplier_deactivation_final_witness:
  "\<exists>st s. update_supplier shop 900 40 deactivate 7 = Inr (st, s) \<and>
     update_supplier st 900 40 (deactivate\<lparr>uu_active := Some (Some True)\<rparr>) 7 = Inl (BusinessRuleError ''Supplier is inactive'')"
proof -
  have "case update_supplier shop 900 40 deactivate 7 of Inr (st, s) \<Rightarrow> \<not> su_active s | _ \<Rightarrow> False" by code_simp
  then obtain st s where r: "update_supplier shop 900 40 deactivate 7 = Inr (st, s)" "\<not> su_active s" by (auto split: sum.splits)
  have "distinct (map su_id (suppliers shop))" by (simp add: shop_def)
  from supplier_deactivation_final [OF this r] r(1) show ?thesis by blast
qed

section \<open>Ageing\<close>

lemma grouped_sum:
  fixes f :: "'a \<Rightarrow> 'b :: comm_monoid_add"
  assumes "distinct ls"
  shows "sum_list (map (\<lambda>l. sum_list (map f (filter (\<lambda>b. g b = Some l) bs))) ls) = sum_list (map f (filter (\<lambda>b. g b \<in> Some ` set ls) bs))"
  using assms
proof (induction ls)
  case (Cons l ls)
  have "sum_list (map f (filter (\<lambda>b. g b = Some l) bs)) + sum_list (map f (filter (\<lambda>b. g b \<in> Some ` set ls) bs)) =
      sum_list (map f (filter (\<lambda>b. g b \<in> Some ` set (l # ls)) bs))"
    using Cons.prems by (induction bs) (auto simp: ac_simps)
  with Cons show ?case by simp
qed (simp add: filter_False)

text \<open>
  What the ageing report counts. Its total is the outstanding amount of the open bills due within 10,000
  days before or after the reference date, and its overdue total that of those past due by at most 10,000
  days; each of these bills is in exactly one bucket, and a bill further away is in none.
\<close>

theorem payables_ageing_totals:
  "pa_total_outstanding (payables_ageing st org as_of today) =
     sum_list (map outstanding (filter (\<lambda>b. \<bar>(case as_of of Some d \<Rightarrow> d | None \<Rightarrow> today) - bi_due b\<bar> \<le> 10000) (open_bills st org))) \<and>
   pa_total_overdue (payables_ageing st org as_of today) =
     sum_list (map outstanding (filter (\<lambda>b. bi_due b < (case as_of of Some d \<Rightarrow> d | None \<Rightarrow> today) \<and>
       (case as_of of Some d \<Rightarrow> d | None \<Rightarrow> today) - bi_due b \<le> 10000) (open_bills st org))) \<and>
   sum_list (map ab_count (pa_buckets (payables_ageing st org as_of today))) =
     length (filter (\<lambda>b. \<bar>(case as_of of Some d \<Rightarrow> d | None \<Rightarrow> today) - bi_due b\<bar> \<le> 10000) (open_bills st org))"
proof -
  define e where "e = (case as_of of Some d \<Rightarrow> d | None \<Rightarrow> today)"
  define g :: "bill \<Rightarrow> string option" where "g = (\<lambda>b. bucket_of ageing_buckets (e - bi_due b))"
  have labels: "(g b \<in> Some ` set (map fst ageing_buckets)) = (\<bar>e - bi_due b\<bar> \<le> 10000)"
    "(g b \<in> Some ` set (tl (map fst ageing_buckets))) = (bi_due b < e \<and> e - bi_due b \<le> 10000)" for b
    by (auto simp: g_def ageing_buckets_def)
  have d: "distinct (map fst ageing_buckets)" "distinct (tl (map fst ageing_buckets))" by (simp_all add: ageing_buckets_def)
  note s = grouped_sum [OF d(1), of outstanding g "open_bills st org"] grouped_sum [OF d(2), of outstanding g "open_bills st org"]
    grouped_sum [OF d(1), of "\<lambda>_. 1 :: nat" g "open_bills st org"]
  define B where "B = (\<lambda>l. let bs = filter (\<lambda>b. g b = Some l) (open_bills st org)
    in \<lparr>ab_label = l, ab_amount = sum_list (map outstanding bs), ab_count = length bs\<rparr>)"
  have B: "ab_label (B l) = l" "ab_amount (B l) = sum_list (map outstanding (filter (\<lambda>b. g b = Some l) (open_bills st org)))"
    "ab_count (B l) = sum_list (map (\<lambda>_. 1) (filter (\<lambda>b. g b = Some l) (open_bills st org)))" for l
    by (simp_all add: B_def Let_def sum_list_triv)
  have r: "payables_ageing st org as_of today = \<lparr>pa_as_of = e, pa_buckets = map B (map fst ageing_buckets),
      pa_total_outstanding = sum_list (map ab_amount (map B (map fst ageing_buckets))),
      pa_total_overdue = sum_list (map ab_amount (filter (\<lambda>b. ab_label b \<noteq> ''Current'') (map B (map fst ageing_buckets))))\<rparr>"
    unfolding payables_ageing_def Let_def e_def [symmetric] B_def g_def by (simp add: o_def case_prod_beta')
  have t: "filter (\<lambda>b. ab_label b \<noteq> ''Current'') (map B (map fst ageing_buckets)) = map B (tl (map fst ageing_buckets))"
    unfolding ageing_buckets_def by (simp add: B(1))
  have f: "pa_total_outstanding (payables_ageing st org as_of today) = sum_list (map (\<lambda>l. ab_amount (B l)) (map fst ageing_buckets))"
    "pa_total_overdue (payables_ageing st org as_of today) = sum_list (map (\<lambda>l. ab_amount (B l)) (tl (map fst ageing_buckets)))"
    "sum_list (map ab_count (pa_buckets (payables_ageing st org as_of today))) = sum_list (map (\<lambda>l. ab_count (B l)) (map fst ageing_buckets))"
    unfolding r payables_ageing_report.simps t by (simp_all only: map_map o_def)
  show ?thesis
    unfolding f B s labels e_def [symmetric] by (simp add: sum_list_triv)
qed

end
