(* ===== verification/Sales_Models.thy ===== *)
theory Sales_Models
  imports Payables
begin

text \<open>
  The rows of \<^verbatim>\<open>sales/models.py\<close>: customers, leads, quotations, sales orders, invoices, payments received and
  their allocations, with the derived properties the model classes define and the constraints PostgreSQL
  enforces on a flush. They live in the database of the purchasing module, whose numbering rows, ledger and
  identifiers they share. The columns of a customer or a lead that no operation reads (addresses, contact
  data) are kept together by column name; the notes and terms of documents and payments, which are only
  stored or copied, are left out. The table of users, which the owner of a lead references, is not modelled.
\<close>

section \<open>Rows\<close>

datatype lead_status = L_NEW | L_CONTACTED | L_QUALIFIED | L_PROPOSAL_SENT | L_WON | L_LOST

datatype quotation_status = Q_DRAFT | Q_SENT | Q_ACCEPTED | Q_REJECTED | Q_EXPIRED | Q_CONVERTED

datatype sales_order_status = S_DRAFT | S_CONFIRMED | S_PARTIALLY_INVOICED | S_INVOICED | S_CANCELLED

datatype invoice_status = I_DRAFT | I_POSTED | I_PARTIALLY_PAID | I_PAID | I_CANCELLED

datatype payment_method = M_CASH | M_BANK_TRANSFER | M_CHEQUE | M_UPI | M_CARD | M_OTHER

definition lead_is_open :: "lead_status \<Rightarrow> bool" where
  "lead_is_open s \<longleftrightarrow> s \<notin> set [L_WON, L_LOST]"

definition invoice_is_posted :: "invoice_status \<Rightarrow> bool" where
  "invoice_is_posted s \<longleftrightarrow> s \<in> set [I_POSTED, I_PARTIALLY_PAID, I_PAID]"

definition invoice_is_editable :: "invoice_status \<Rightarrow> bool" where
  "invoice_is_editable s \<longleftrightarrow> s = I_DRAFT"

definition is_cash :: "payment_method \<Rightarrow> bool" where
  "is_cash m \<longleftrightarrow> m = M_CASH"

record customer =
  cu_id :: uuid
  cu_org :: uuid
  cu_code :: string
  cu_name :: string
  cu_gstin :: "string option"
  cu_state_code :: "string option"
  cu_exempt :: bool
  cu_country :: string
  cu_terms :: int
  cu_credit_limit :: decimal
  cu_currency :: string
  cu_discount :: decimal
  cu_active :: bool
  cu_text :: "string \<Rightarrow> string option"
  cu_deleted :: "instant option"

definition customer_due_date :: "customer \<Rightarrow> date \<Rightarrow> date result" where
  "customer_due_date c d = shift_days d (cu_terms c)"

record lead =
  le_id :: uuid
  le_org :: uuid
  le_name :: string
  le_status :: lead_status
  le_value :: decimal
  le_close_date :: "date option"
  le_owner :: "uuid option"
  le_contacted_at :: "instant option"
  le_customer :: "uuid option"
  le_converted_at :: "instant option"
  le_text :: "string \<Rightarrow> string option"
  le_deleted :: "instant option"

definition is_converted :: "lead \<Rightarrow> bool" where
  "is_converted l \<longleftrightarrow> le_customer l \<noteq> None"

record sales_line =
  nl_number :: int
  nl_description :: string
  nl_hsn :: "string option"
  nl_quantity :: decimal
  nl_unit :: "string option"
  nl_unit_price :: decimal
  nl_discount_percent :: decimal
  nl_tax_rate :: decimal
  nl_totals :: line_totals

record quotation =
  qu_id :: uuid
  qu_org :: uuid
  qu_number :: string
  qu_customer :: uuid
  qu_lead :: "uuid option"
  qu_date :: date
  qu_valid_until :: "date option"
  qu_status :: quotation_status
  qu_sent_at :: "instant option"
  qu_responded_at :: "instant option"
  qu_treatment :: tax_treatment
  qu_currency :: string
  qu_totals :: document_totals
  qu_created_by :: uuid
  qu_deleted :: "instant option"
  qu_lines :: "sales_line list"

definition is_expired :: "quotation \<Rightarrow> date \<Rightarrow> bool" where
  "is_expired q on_date = (case qu_valid_until q of None \<Rightarrow> False | Some d \<Rightarrow> d < on_date)"

record sales_order =
  so_id :: uuid
  so_org :: uuid
  so_number :: string
  so_customer :: uuid
  so_quotation :: "uuid option"
  so_date :: date
  so_expected :: "date option"
  so_reference :: "string option"
  so_status :: sales_order_status
  so_confirmed_at :: "instant option"
  so_cancelled_at :: "instant option"
  so_invoiced :: decimal
  so_treatment :: tax_treatment
  so_currency :: string
  so_totals :: document_totals
  so_created_by :: uuid
  so_deleted :: "instant option"
  so_lines :: "sales_line list"

definition uninvoiced_total :: "sales_order \<Rightarrow> decimal" where
  "uninvoiced_total x = grand_total (so_totals x) - so_invoiced x"

record invoice_line =
  nv_line :: sales_line
  nv_revenue :: "uuid option"

record invoice =
  iv_id :: uuid
  iv_org :: uuid
  iv_number :: string
  iv_customer :: uuid
  iv_order :: "uuid option"
  iv_date :: date
  iv_due :: date
  iv_status :: invoice_status
  iv_paid :: decimal
  iv_entry :: "uuid option"
  iv_posted_at :: "instant option"
  iv_cancelled_at :: "instant option"
  iv_reversal :: "uuid option"
  iv_gstin :: "string option"
  iv_place :: "string option"
  iv_treatment :: tax_treatment
  iv_currency :: string
  iv_totals :: document_totals
  iv_created_by :: uuid
  iv_deleted :: "instant option"
  iv_lines :: "invoice_line list"

definition invoice_outstanding :: "invoice \<Rightarrow> decimal" where
  "invoice_outstanding i = grand_total (iv_totals i) - iv_paid i"

definition invoice_fully_paid :: "invoice \<Rightarrow> bool" where
  "invoice_fully_paid i \<longleftrightarrow> grand_total (iv_totals i) \<le> iv_paid i"

definition invoice_overdue :: "invoice \<Rightarrow> date \<Rightarrow> bool" where
  "invoice_overdue i on_date \<longleftrightarrow> invoice_is_posted (iv_status i) \<and> \<not> invoice_fully_paid i \<and> iv_due i < on_date"

definition days_overdue :: "invoice \<Rightarrow> date \<Rightarrow> int" where
  "days_overdue i on_date = (if invoice_overdue i on_date then on_date - iv_due i else 0)"

record payment =
  py_id :: uuid
  py_org :: uuid
  py_number :: string
  py_customer :: uuid
  py_date :: date
  py_amount :: decimal
  py_unallocated :: decimal
  py_method :: payment_method
  py_reference :: "string option"
  py_currency :: string
  py_deposit :: "uuid option"
  py_entry :: "uuid option"
  py_created_by :: uuid
  py_deleted :: "instant option"

record payment_allocation =
  pa_id :: uuid
  pa_payment :: uuid
  pa_invoice :: uuid
  pa_amount :: decimal

record 'h sales_db =
  purchasing :: "'h purchasing_db"
  customers :: "customer list"
  leads :: "lead list"
  quotations :: "quotation list"
  sales_orders :: "sales_order list"
  invoices :: "invoice list"
  customer_payments :: "payment list"
  payment_allocations :: "payment_allocation list"

definition empty_sales :: "'h \<Rightarrow> 'h sales_db" where
  "empty_sales h = \<lparr>purchasing = empty_purchasing h, customers = [], leads = [], quotations = [], sales_orders = [],
     invoices = [], customer_payments = [], payment_allocations = []\<rparr>"

abbreviation sales_ledger :: "'h sales_db \<Rightarrow> 'h db" where
  "sales_ledger st \<equiv> ledger (purchasing st)"

definition sales_id :: "'h sales_db \<Rightarrow> uuid" where
  "sales_id st = doc_id (purchasing st)"

definition take_sales_id :: "'h sales_db \<Rightarrow> 'h sales_db" where
  "take_sales_id st = st\<lparr>purchasing := take_doc_id (purchasing st)\<rparr>"

definition audit_sales ::
    "'h sales_db \<Rightarrow> audit_action \<Rightarrow> audit_severity \<Rightarrow> uuid \<Rightarrow> uuid \<Rightarrow> string \<Rightarrow> uuid \<Rightarrow> 'h sales_db" where
  "audit_sales st action severity actor org resource_type resource_id =
     st\<lparr>purchasing := audit_doc (purchasing st) action severity actor org resource_type resource_id\<rparr>"

section \<open>Constraints\<close>

definition customer_checks :: "'h sales_db \<Rightarrow> customer \<Rightarrow> unit result" where
  "customer_checks st c =
     bindr (raise_if (\<exists>y \<in> set (customers st). cu_org y = cu_org c \<and> cu_code y = cu_code c \<and> cu_id y \<noteq> cu_id c)
       (IntegrityError ''uq_customer_org_code'')) (\<lambda>_.
     bindr (raise_if (\<not> 0 \<le> cu_terms c) (IntegrityError ''terms_non_negative'')) (\<lambda>_.
     raise_if (\<not> 0 \<le> cu_credit_limit c) (IntegrityError ''credit_limit_non_negative'')))"

definition lead_checks :: "'h sales_db \<Rightarrow> lead \<Rightarrow> unit result" where
  "lead_checks st l = raise_if (\<not> 0 \<le> le_value l) (IntegrityError ''value_non_negative'')"

definition sales_line_checks :: "sales_line \<Rightarrow> unit result" where
  "sales_line_checks l =
     bindr (raise_if (\<not> 0 < nl_quantity l) (IntegrityError ''quantity_positive'')) (\<lambda>_.
     bindr (raise_if (\<not> 0 \<le> nl_unit_price l) (IntegrityError ''price_non_negative'')) (\<lambda>_.
     bindr (raise_if (\<not> (0 \<le> nl_tax_rate l \<and> nl_tax_rate l \<le> 100)) (IntegrityError ''tax_rate_range'')) (\<lambda>_.
     bindr (raise_if (\<not> 0 \<le> discount_amount (nl_totals l)) (IntegrityError ''discount_non_negative'')) (\<lambda>_.
     bindr (raise_if (cgst (nl_totals l) + sgst (nl_totals l) + igst (nl_totals l) \<noteq> tax_amount (nl_totals l))
       (IntegrityError ''tax_split_reconciles'')) (\<lambda>_.
     raise_if (taxable (nl_totals l) + tax_amount (nl_totals l) \<noteq> total (nl_totals l))
       (IntegrityError ''total_reconciles''))))))"

definition quotation_checks :: "'h sales_db \<Rightarrow> quotation \<Rightarrow> unit result" where
  "quotation_checks st q =
     bindr (raise_if (\<exists>y \<in> set (quotations st). qu_org y = qu_org q \<and> qu_number y = qu_number q \<and> qu_id y \<noteq> qu_id q)
       (IntegrityError ''uq_quotation_org_number'')) (\<lambda>_.
     bindr (raise_if (\<not> fk_ok (qu_lead q) (map le_id (leads st))) (IntegrityError ''foreign key'')) (\<lambda>_.
     bindr (document_checks (qu_totals q)) (\<lambda>_.
     each sales_line_checks (qu_lines q))))"

definition sales_order_checks :: "'h sales_db \<Rightarrow> sales_order \<Rightarrow> unit result" where
  "sales_order_checks st x =
     bindr (raise_if (\<exists>y \<in> set (sales_orders st). so_org y = so_org x \<and> so_number y = so_number x \<and> so_id y \<noteq> so_id x)
       (IntegrityError ''uq_sales_order_org_number'')) (\<lambda>_.
     bindr (raise_if (\<not> fk_ok (so_quotation x) (map qu_id (quotations st))) (IntegrityError ''foreign key'')) (\<lambda>_.
     bindr (raise_if (\<not> (0 \<le> so_invoiced x \<and> fits (so_invoiced x))) (IntegrityError ''invoiced_non_negative'')) (\<lambda>_.
     bindr (document_checks (so_totals x)) (\<lambda>_.
     each sales_line_checks (so_lines x)))))"

definition invoice_checks :: "'h sales_db \<Rightarrow> invoice \<Rightarrow> unit result" where
  "invoice_checks st i =
     bindr (raise_if (\<exists>y \<in> set (invoices st). iv_org y = iv_org i \<and> iv_number y = iv_number i \<and> iv_id y \<noteq> iv_id i)
       (IntegrityError ''uq_invoice_org_number'')) (\<lambda>_.
     bindr (raise_if (\<not> 0 \<le> iv_paid i) (IntegrityError ''paid_non_negative'')) (\<lambda>_.
     bindr (raise_if (\<not> iv_paid i \<le> grand_total (iv_totals i)) (IntegrityError ''paid_within_total'')) (\<lambda>_.
     bindr (raise_if (iv_due i < iv_date i) (IntegrityError ''due_after_issue'')) (\<lambda>_.
     bindr (raise_if (\<not> ((iv_status i = I_DRAFT \<and> iv_entry i = None) \<or> (iv_status i \<noteq> I_DRAFT \<and> iv_entry i \<noteq> None)))
       (IntegrityError ''posted_has_journal_entry'')) (\<lambda>_.
     bindr (raise_if (\<not> fk_ok (iv_order i) (map so_id (sales_orders st))) (IntegrityError ''foreign key'')) (\<lambda>_.
     bindr (document_checks (iv_totals i)) (\<lambda>_.
     each (\<lambda>l.
       bindr (raise_if (\<not> fk_ok (nv_revenue l) (map a_id (accounts (sales_ledger st)))) (IntegrityError ''foreign key'')) (\<lambda>_.
       sales_line_checks (nv_line l))) (iv_lines i))))))))"

definition customer_payment_checks :: "'h sales_db \<Rightarrow> payment \<Rightarrow> unit result" where
  "customer_payment_checks st p =
     bindr (raise_if (\<exists>y \<in> set (customer_payments st). py_org y = py_org p \<and> py_number y = py_number p \<and> py_id y \<noteq> py_id p)
       (IntegrityError ''uq_payment_org_number'')) (\<lambda>_.
     bindr (raise_if (\<not> 0 < py_amount p) (IntegrityError ''amount_positive'')) (\<lambda>_.
     bindr (raise_if (\<not> (0 \<le> py_unallocated p \<and> py_unallocated p \<le> py_amount p))
       (IntegrityError ''unallocated_within_amount'')) (\<lambda>_.
     raise_if (\<not> fits (py_amount p)) (IntegrityError ''numeric field overflow''))))"

definition payment_allocation_checks :: "'h sales_db \<Rightarrow> payment_allocation \<Rightarrow> unit result" where
  "payment_allocation_checks st a =
     bindr (raise_if (\<exists>y \<in> set (payment_allocations st). pa_payment y = pa_payment a \<and> pa_invoice y = pa_invoice a \<and> pa_id y \<noteq> pa_id a)
       (IntegrityError ''uq_allocation_payment_invoice'')) (\<lambda>_.
     bindr (raise_if (\<not> 0 < pa_amount a) (IntegrityError ''allocation_amount_positive'')) (\<lambda>_.
     raise_if (\<not> fits (pa_amount a)) (IntegrityError ''numeric field overflow'')))"

section \<open>Writing rows\<close>

definition add_customer :: "'h sales_db \<Rightarrow> customer \<Rightarrow> 'h sales_db result" where
  "add_customer st c = bindr (customer_checks st c) (\<lambda>_. Inr ((take_sales_id st)\<lparr>customers := customers st @ [c]\<rparr>))"

definition save_customer :: "'h sales_db \<Rightarrow> customer \<Rightarrow> 'h sales_db result" where
  "save_customer st c = bindr (customer_checks st c) (\<lambda>_.
     Inr (st\<lparr>customers := update_where (\<lambda>y. cu_id y = cu_id c) (\<lambda>_. c) (customers st)\<rparr>))"

definition add_lead :: "'h sales_db \<Rightarrow> lead \<Rightarrow> 'h sales_db result" where
  "add_lead st l = bindr (lead_checks st l) (\<lambda>_. Inr ((take_sales_id st)\<lparr>leads := leads st @ [l]\<rparr>))"

definition save_lead :: "'h sales_db \<Rightarrow> lead \<Rightarrow> 'h sales_db result" where
  "save_lead st l = bindr (lead_checks st l) (\<lambda>_.
     Inr (st\<lparr>leads := update_where (\<lambda>y. le_id y = le_id l) (\<lambda>_. l) (leads st)\<rparr>))"

definition add_quotation :: "'h sales_db \<Rightarrow> quotation \<Rightarrow> 'h sales_db result" where
  "add_quotation st q = bindr (quotation_checks st q) (\<lambda>_. Inr ((take_sales_id st)\<lparr>quotations := quotations st @ [q]\<rparr>))"

definition save_quotation :: "'h sales_db \<Rightarrow> quotation \<Rightarrow> 'h sales_db result" where
  "save_quotation st q = bindr (quotation_checks st q) (\<lambda>_.
     Inr (st\<lparr>quotations := update_where (\<lambda>y. qu_id y = qu_id q) (\<lambda>_. q) (quotations st)\<rparr>))"

definition add_sales_order :: "'h sales_db \<Rightarrow> sales_order \<Rightarrow> 'h sales_db result" where
  "add_sales_order st x = bindr (sales_order_checks st x) (\<lambda>_. Inr ((take_sales_id st)\<lparr>sales_orders := sales_orders st @ [x]\<rparr>))"

definition save_sales_order :: "'h sales_db \<Rightarrow> sales_order \<Rightarrow> 'h sales_db result" where
  "save_sales_order st x = bindr (sales_order_checks st x) (\<lambda>_.
     Inr (st\<lparr>sales_orders := update_where (\<lambda>y. so_id y = so_id x) (\<lambda>_. x) (sales_orders st)\<rparr>))"

definition add_invoice :: "'h sales_db \<Rightarrow> invoice \<Rightarrow> 'h sales_db result" where
  "add_invoice st i = bindr (invoice_checks st i) (\<lambda>_. Inr ((take_sales_id st)\<lparr>invoices := invoices st @ [i]\<rparr>))"

definition save_invoice :: "'h sales_db \<Rightarrow> invoice \<Rightarrow> 'h sales_db result" where
  "save_invoice st i = bindr (invoice_checks st i) (\<lambda>_.
     Inr (st\<lparr>invoices := update_where (\<lambda>y. iv_id y = iv_id i) (\<lambda>_. i) (invoices st)\<rparr>))"

definition add_customer_payment :: "'h sales_db \<Rightarrow> payment \<Rightarrow> 'h sales_db result" where
  "add_customer_payment st p = bindr (customer_payment_checks st p) (\<lambda>_.
     Inr ((take_sales_id st)\<lparr>customer_payments := customer_payments st @ [p]\<rparr>))"

definition save_customer_payment :: "'h sales_db \<Rightarrow> payment \<Rightarrow> 'h sales_db result" where
  "save_customer_payment st p = bindr (customer_payment_checks st p) (\<lambda>_.
     Inr (st\<lparr>customer_payments := update_where (\<lambda>y. py_id y = py_id p) (\<lambda>_. p) (customer_payments st)\<rparr>))"

definition add_payment_allocation :: "'h sales_db \<Rightarrow> payment_allocation \<Rightarrow> 'h sales_db result" where
  "add_payment_allocation st a = bindr (payment_allocation_checks st a) (\<lambda>_.
     Inr ((take_sales_id st)\<lparr>payment_allocations := payment_allocations st @ [a]\<rparr>))"

end
