(* ===== verification/Sales.thy ===== *)
theory Sales
  imports Sales_Models
begin

text \<open>
  \<^verbatim>\<open>sales/service.py\<close>: customers, leads, the computation of document lines, quotations and sales orders, and
  the queries of \<^verbatim>\<open>sales/repository.py\<close> behind them. The organization's date and GSTIN, which the services
  look up, are arguments.
\<close>

section \<open>Lines\<close>

record sales_line_input =
  ni_description :: string
  ni_hsn :: "string option"
  ni_quantity :: decimal
  ni_unit :: "string option"
  ni_unit_price :: decimal
  ni_discount_percent :: decimal
  ni_discount_amount :: "decimal option"
  ni_tax_rate :: decimal
  ni_revenue :: "uuid option"

definition compute_sales_input :: "tax_treatment \<Rightarrow> sales_line_input \<Rightarrow> line_totals" where
  "compute_sales_input treatment i =
     compute_line (ni_quantity i) (ni_unit_price i) (ni_tax_rate i) treatment (ni_discount_percent i) (ni_discount_amount i)"

definition apply_sales_line :: "tax_treatment \<Rightarrow> int \<Rightarrow> sales_line_input \<Rightarrow> sales_line" where
  "apply_sales_line treatment index i =
     \<lparr>nl_number = index, nl_description = ni_description i, nl_hsn = ni_hsn i, nl_quantity = ni_quantity i,
      nl_unit = ni_unit i, nl_unit_price = ni_unit_price i, nl_discount_percent = ni_discount_percent i,
      nl_tax_rate = ni_tax_rate i, nl_totals = compute_sales_input treatment i\<rparr>"

fun apply_sales_lines :: "tax_treatment \<Rightarrow> int \<Rightarrow> sales_line_input list \<Rightarrow> sales_line list" where
  "apply_sales_lines treatment index [] = []"
| "apply_sales_lines treatment index (i # ins) = apply_sales_line treatment index i # apply_sales_lines treatment (index + 1) ins"

definition sales_totals_of :: "tax_treatment \<Rightarrow> sales_line_input list \<Rightarrow> bool \<Rightarrow> document_totals" where
  "sales_totals_of treatment ins round_to_whole = compute_document (map (compute_sales_input treatment) ins) round_to_whole"

definition validate_sales_line :: "sales_line_input \<Rightarrow> unit result" where
  "validate_sales_line i =
     bindr (raise_if (\<not> (0 < ni_quantity i \<and> money_ok (ni_quantity i))) (SchemaError ''quantity'')) (\<lambda>_.
     bindr (raise_if (\<not> (0 \<le> ni_unit_price i \<and> money_ok (ni_unit_price i))) (SchemaError ''unit_price'')) (\<lambda>_.
     bindr (raise_if (\<not> (0 \<le> ni_discount_percent i \<and> ni_discount_percent i \<le> 100 \<and> on_grid 4 (ni_discount_percent i)))
       (SchemaError ''discount_percent'')) (\<lambda>_.
     bindr (raise_if (case ni_discount_amount i of None \<Rightarrow> False | Some d \<Rightarrow> \<not> (0 \<le> d \<and> money_ok d)) (SchemaError ''discount_amount'')) (\<lambda>_.
     raise_if (\<not> (0 \<le> ni_tax_rate i \<and> ni_tax_rate i \<le> 100 \<and> on_grid 4 (ni_tax_rate i))) (SchemaError ''tax_rate'')))))"

definition validate_sales_lines :: "sales_line_input list \<Rightarrow> unit result" where
  "validate_sales_lines ins =
     bindr (each validate_sales_line ins) (\<lambda>_. raise_if (ins = []) (SchemaError ''at least one line''))"

section \<open>Customers\<close>

definition get_customer :: "'h sales_db \<Rightarrow> uuid \<Rightarrow> uuid \<Rightarrow> customer result" where
  "get_customer st org i =
     (case first_or_none (filter (\<lambda>c. cu_id c = i \<and> cu_org c = org \<and> cu_deleted c = None) (customers st)) of
        None \<Rightarrow> Inl (NotFoundError ''Customer'')
      | Some c \<Rightarrow> Inr c)"

definition active_customer :: "'h sales_db \<Rightarrow> uuid \<Rightarrow> uuid \<Rightarrow> customer result" where
  "active_customer st org i =
     bindr (get_customer st org i) (\<lambda>c.
     bindr (raise_if (\<not> cu_active c) (BusinessRuleError ''Customer is inactive'')) (\<lambda>_. Inr c))"

definition customer_treatment :: "string option \<Rightarrow> customer \<Rightarrow> tax_treatment" where
  "customer_treatment org_gstin c =
     resolve_treatment (state_code_from_gstin org_gstin) (cu_state_code c) (cu_country c) (cu_exempt c)"

definition sales_number ::
    "'h sales_db \<Rightarrow> uuid \<Rightarrow> string \<Rightarrow> string \<Rightarrow> date \<Rightarrow> ('h sales_db \<times> string) result" where
  "sales_number st org scope prefix today =
     bindr (document_number (purchasing st) org scope prefix today) (\<lambda>(q, number). Inr (st\<lparr>purchasing := q\<rparr>, number))"

record customer_create =
  cc_code :: "string option"
  cc_name :: string
  cc_gstin :: "string option"
  cc_exempt :: bool
  cc_country :: string
  cc_terms :: int
  cc_credit_limit :: decimal
  cc_discount :: decimal
  cc_text :: "(string \<times> string option) list"

record customer_update =
  cd_name :: "string option option"
  cd_gstin :: "string option option"
  cd_exempt :: "bool option option"
  cd_country :: "string option option"
  cd_terms :: "int option option"
  cd_credit_limit :: "decimal option option"
  cd_discount :: "decimal option option"
  cd_active :: "bool option option"
  cd_text :: "(string \<times> string option) list"

definition next_code :: "'h sales_db \<Rightarrow> uuid \<Rightarrow> string" where
  "next_code st org =
     ''CUST-'' @ zero_pad 4 (digits (int (length (filter (\<lambda>c. cu_org c = org \<and> cu_deleted c = None) (customers st))) + 1))"

definition create_customer ::
    "'h sales_db \<Rightarrow> uuid \<Rightarrow> customer_create \<Rightarrow> uuid \<Rightarrow> ('h sales_db \<times> customer) result" where
  "create_customer st org data actor =
     (let code = (case cc_code data of Some c \<Rightarrow> c | None \<Rightarrow> next_code st org) in
      bindr (raise_if (\<exists>c \<in> set (customers st). cu_org c = org \<and> cu_code c = code \<and> cu_deleted c = None)
        (ConflictError ''Customer code is already in use'')) (\<lambda>_.
        let c = \<lparr>cu_id = sales_id st, cu_org = org, cu_code = code, cu_name = cc_name data, cu_gstin = cc_gstin data,
                 cu_state_code = state_code_from_gstin (cc_gstin data), cu_exempt = cc_exempt data, cu_country = cc_country data,
                 cu_terms = cc_terms data, cu_credit_limit = cc_credit_limit data, cu_currency = ''INR'',
                 cu_discount = cc_discount data, cu_active = True, cu_text = set_texts (cc_text data) (\<lambda>_. None),
                 cu_deleted = None\<rparr>
        in bindr (add_customer st c) (\<lambda>st1.
           Inr (audit_sales st1 CUSTOMER_CREATED INFO actor org ''customer'' (cu_id c), c))))"

definition customer_changed :: "customer \<Rightarrow> customer_update \<Rightarrow> bool" where
  "customer_changed c data \<longleftrightarrow>
     (case cd_name data of None \<Rightarrow> False | Some v \<Rightarrow> v \<noteq> Some (cu_name c)) \<or>
     (case cd_gstin data of None \<Rightarrow> False | Some v \<Rightarrow> v \<noteq> cu_gstin c) \<or>
     (case cd_exempt data of None \<Rightarrow> False | Some v \<Rightarrow> v \<noteq> Some (cu_exempt c)) \<or>
     (case cd_country data of None \<Rightarrow> False | Some v \<Rightarrow> v \<noteq> Some (cu_country c)) \<or>
     (case cd_terms data of None \<Rightarrow> False | Some v \<Rightarrow> v \<noteq> Some (cu_terms c)) \<or>
     (case cd_credit_limit data of None \<Rightarrow> False | Some v \<Rightarrow> v \<noteq> Some (cu_credit_limit c)) \<or>
     (case cd_discount data of None \<Rightarrow> False | Some v \<Rightarrow> v \<noteq> Some (cu_discount c)) \<or>
     (case cd_active data of None \<Rightarrow> False | Some v \<Rightarrow> v \<noteq> Some (cu_active c)) \<or>
     (\<exists>(k, v) \<in> set (cd_text data). v \<noteq> cu_text c k)"

definition update_customer ::
    "'h sales_db \<Rightarrow> uuid \<Rightarrow> uuid \<Rightarrow> customer_update \<Rightarrow> uuid \<Rightarrow> ('h sales_db \<times> customer) result" where
  "update_customer st org i data actor =
     bindr (get_customer st org i) (\<lambda>c.
     bindr (set_required (cu_name c) (cd_name data)) (\<lambda>name.
     bindr (set_required (cu_exempt c) (cd_exempt data)) (\<lambda>exempt.
     bindr (set_required (cu_country c) (cd_country data)) (\<lambda>country.
     bindr (set_required (cu_terms c) (cd_terms data)) (\<lambda>terms.
     bindr (set_required (cu_credit_limit c) (cd_credit_limit data)) (\<lambda>limit.
     bindr (set_required (cu_discount c) (cd_discount data)) (\<lambda>discount.
     bindr (set_required (cu_active c) (cd_active data)) (\<lambda>active.
       let gstin = set_nullable (cu_gstin c) (cd_gstin data);
           c' = c\<lparr>cu_name := name, cu_gstin := gstin, cu_exempt := exempt, cu_country := country, cu_terms := terms,
                  cu_credit_limit := limit, cu_discount := discount, cu_active := active,
                  cu_text := set_texts (cd_text data) (cu_text c),
                  cu_state_code := (if gstin \<noteq> cu_gstin c then state_code_from_gstin gstin else cu_state_code c)\<rparr>
       in bindr (save_customer st c') (\<lambda>st1.
          Inr (if customer_changed c data then audit_sales st1 CUSTOMER_UPDATED INFO actor org ''customer'' (cu_id c) else st1,
               c'))))))))))"

definition delete_customer :: "'h sales_db \<Rightarrow> uuid \<Rightarrow> uuid \<Rightarrow> uuid \<Rightarrow> instant \<Rightarrow> 'h sales_db result" where
  "delete_customer st org i actor now =
     bindr (get_customer st org i) (\<lambda>c.
     bindr (raise_if (\<exists>x \<in> set (invoices st). iv_org x = org \<and> iv_customer x = i \<and> iv_deleted x = None)
       (BusinessRuleError ''This customer has invoices and cannot be deleted'')) (\<lambda>_.
     bindr (save_customer st (c\<lparr>cu_deleted := Some now\<rparr>)) (\<lambda>st1.
     Inr (audit_sales st1 CUSTOMER_DELETED WARNING actor org ''customer'' (cu_id c)))))"

record customer_statement =
  cs_count :: nat
  cs_invoiced :: decimal
  cs_paid :: decimal
  cs_overdue :: decimal

definition customer_totals :: "'h sales_db \<Rightarrow> uuid \<Rightarrow> uuid \<Rightarrow> date \<Rightarrow> customer_statement" where
  "customer_totals st org i as_of =
     (let xs = filter (\<lambda>x. iv_org x = org \<and> iv_customer x = i \<and> iv_deleted x = None \<and> invoice_is_posted (iv_status x)) (invoices st)
      in \<lparr>cs_count = length xs, cs_invoiced = sum_list (map (\<lambda>x. grand_total (iv_totals x)) xs),
          cs_paid = sum_list (map iv_paid xs),
          cs_overdue = sum_list (map (\<lambda>x. if iv_due x < as_of \<and> iv_paid x < grand_total (iv_totals x)
             then grand_total (iv_totals x) - iv_paid x else 0) xs)\<rparr>)"

section \<open>Leads\<close>

definition get_lead :: "'h sales_db \<Rightarrow> uuid \<Rightarrow> uuid \<Rightarrow> lead result" where
  "get_lead st org i =
     (case first_or_none (filter (\<lambda>l. le_id l = i \<and> le_org l = org \<and> le_deleted l = None) (leads st)) of
        None \<Rightarrow> Inl (NotFoundError ''Lead'')
      | Some l \<Rightarrow> Inr l)"

record lead_create =
  lc_name :: string
  lc_value :: decimal
  lc_close_date :: "date option"
  lc_owner :: "uuid option"
  lc_text :: "(string \<times> string option) list"

record lead_update =
  lu_name :: "string option option"
  lu_status :: "lead_status option option"
  lu_value :: "decimal option option"
  lu_close_date :: "date option option"
  lu_owner :: "uuid option option"
  lu_text :: "(string \<times> string option) list"

record lead_convert =
  lv_code :: "string option"
  lv_name :: "string option"
  lv_gstin :: "string option"
  lv_terms :: "int option"

definition create_lead :: "'h sales_db \<Rightarrow> uuid \<Rightarrow> lead_create \<Rightarrow> uuid \<Rightarrow> ('h sales_db \<times> lead) result" where
  "create_lead st org data actor =
     (let l = \<lparr>le_id = sales_id st, le_org = org, le_name = lc_name data, le_status = L_NEW, le_value = lc_value data,
               le_close_date = lc_close_date data, le_owner = lc_owner data, le_contacted_at = None, le_customer = None,
               le_converted_at = None, le_text = set_texts (lc_text data) (\<lambda>_. None), le_deleted = None\<rparr>
      in bindr (add_lead st l) (\<lambda>st1. Inr (audit_sales st1 LEAD_CREATED INFO actor org ''lead'' (le_id l), l)))"

definition lead_changed :: "lead \<Rightarrow> lead_update \<Rightarrow> bool" where
  "lead_changed l data \<longleftrightarrow>
     (case lu_name data of None \<Rightarrow> False | Some v \<Rightarrow> v \<noteq> Some (le_name l)) \<or>
     (case lu_status data of None \<Rightarrow> False | Some v \<Rightarrow> v \<noteq> Some (le_status l)) \<or>
     (case lu_value data of None \<Rightarrow> False | Some v \<Rightarrow> v \<noteq> Some (le_value l)) \<or>
     (case lu_close_date data of None \<Rightarrow> False | Some v \<Rightarrow> v \<noteq> le_close_date l) \<or>
     (case lu_owner data of None \<Rightarrow> False | Some v \<Rightarrow> v \<noteq> le_owner l) \<or>
     (\<exists>(k, v) \<in> set (lu_text data). v \<noteq> le_text l k)"

definition update_lead ::
    "'h sales_db \<Rightarrow> uuid \<Rightarrow> uuid \<Rightarrow> lead_update \<Rightarrow> uuid \<Rightarrow> instant \<Rightarrow> ('h sales_db \<times> lead) result" where
  "update_lead st org i data actor now =
     bindr (get_lead st org i) (\<lambda>l.
     bindr (set_required (le_name l) (lu_name data)) (\<lambda>name.
     bindr (set_required (le_status l) (lu_status data)) (\<lambda>status.
     bindr (set_required (le_value l) (lu_value data)) (\<lambda>val.
       let l' = l\<lparr>le_name := name, le_status := status, le_value := val,
                  le_close_date := set_nullable (le_close_date l) (lu_close_date data),
                  le_owner := set_nullable (le_owner l) (lu_owner data), le_text := set_texts (lu_text data) (le_text l),
                  le_contacted_at := (case lu_status data of
                     Some (Some s) \<Rightarrow> if s \<noteq> L_NEW then Some now else le_contacted_at l
                   | _ \<Rightarrow> le_contacted_at l)\<rparr>
       in bindr (save_lead st l') (\<lambda>st1.
          Inr (if lead_changed l data then audit_sales st1 LEAD_UPDATED INFO actor org ''lead'' (le_id l) else st1, l'))))))"

definition convert_lead ::
    "'h sales_db \<Rightarrow> uuid \<Rightarrow> uuid \<Rightarrow> lead_convert \<Rightarrow> uuid \<Rightarrow> instant \<Rightarrow> ('h sales_db \<times> customer) result" where
  "convert_lead st org i data actor now =
     bindr (get_lead st org i) (\<lambda>l.
     bindr (raise_if (is_converted l) (ConflictError ''Lead has already been converted'')) (\<lambda>_.
     bindr (create_customer st org
       \<lparr>cc_code = lv_code data,
        cc_name = (case lv_name data of Some n \<Rightarrow> n | None \<Rightarrow> first_text (le_text l ''company'') (le_name l)),
        cc_gstin = lv_gstin data, cc_exempt = False, cc_country = ''IN'',
        cc_terms = (case lv_terms data of Some d \<Rightarrow> d | None \<Rightarrow> 30), cc_credit_limit = 0, cc_discount = 0,
        cc_text = [(''email'', le_text l ''email''), (''phone'', le_text l ''phone''), (''contact_person'', Some (le_name l)),
                   (''notes'', le_text l ''notes'')]\<rparr> actor) (\<lambda>(st1, c).
       let l' = l\<lparr>le_customer := Some (cu_id c), le_converted_at := Some now, le_status := L_WON\<rparr> in
     bindr (save_lead st1 l') (\<lambda>st2.
     Inr (audit_sales st2 LEAD_CONVERTED INFO actor org ''lead'' (le_id l), c)))))"

section \<open>Quotations\<close>

record quotation_create =
  qc_customer :: uuid
  qc_lead :: "uuid option"
  qc_date :: "date option"
  qc_valid_until :: "date option"
  qc_lines :: "sales_line_input list"
  qc_round_to_whole :: bool

record quotation_update =
  qd_date :: "date option"
  qd_valid_until :: "date option"
  qd_lines :: "sales_line_input list option"
  qd_round_to_whole :: "bool option"

definition validate_quotation_create :: "quotation_create \<Rightarrow> unit result" where
  "validate_quotation_create d =
     bindr (validate_sales_lines (qc_lines d)) (\<lambda>_.
     raise_if (case (qc_valid_until d, qc_date d) of (Some v, Some issued) \<Rightarrow> v < issued | _ \<Rightarrow> False)
       (SchemaError ''valid_until cannot be before quotation_date''))"

definition get_quotation :: "'h sales_db \<Rightarrow> uuid \<Rightarrow> uuid \<Rightarrow> quotation result" where
  "get_quotation st org i =
     bindr (scalar_one_or_none (filter (\<lambda>q. qu_org q = org \<and> qu_id q = i \<and> qu_deleted q = None) (quotations st))) (\<lambda>found.
     case found of None \<Rightarrow> Inl (NotFoundError ''Quotation'') | Some q \<Rightarrow> Inr q)"

definition create_quotation ::
    "'h sales_db \<Rightarrow> uuid \<Rightarrow> quotation_create \<Rightarrow> uuid \<Rightarrow> date \<Rightarrow> string option \<Rightarrow> ('h sales_db \<times> quotation) result" where
  "create_quotation st org data actor today org_gstin =
     bindr (active_customer st org (qc_customer data)) (\<lambda>c.
       let treatment = customer_treatment org_gstin c in
     bindr (sales_number st org ''quotation'' ''QT'' today) (\<lambda>(st1, number).
       let q = \<lparr>qu_id = sales_id st1, qu_org = org, qu_number = number, qu_customer = cu_id c, qu_lead = qc_lead data,
                qu_date = (case qc_date data of Some d \<Rightarrow> d | None \<Rightarrow> today), qu_valid_until = qc_valid_until data,
                qu_status = Q_DRAFT, qu_sent_at = None, qu_responded_at = None, qu_treatment = treatment,
                qu_currency = cu_currency c, qu_totals = sales_totals_of treatment (qc_lines data) (qc_round_to_whole data),
                qu_created_by = actor, qu_deleted = None, qu_lines = apply_sales_lines treatment 1 (qc_lines data)\<rparr>
       in bindr (add_quotation st1 q) (\<lambda>st2.
          Inr (audit_sales st2 QUOTATION_CREATED INFO actor org ''quotation'' (qu_id q), q))))"

definition rounds_whole :: "bool option \<Rightarrow> document_totals \<Rightarrow> bool" where
  "rounds_whole asked t \<longleftrightarrow> asked = Some True \<or> round_off t \<noteq> 0"

definition update_quotation ::
    "'h sales_db \<Rightarrow> uuid \<Rightarrow> uuid \<Rightarrow> quotation_update \<Rightarrow> string option \<Rightarrow> ('h sales_db \<times> quotation) result" where
  "update_quotation st org i data org_gstin =
     bindr (get_quotation st org i) (\<lambda>q.
     bindr (raise_if (qu_status q \<in> set [Q_CONVERTED, Q_ACCEPTED]) (BusinessRuleError ''This quotation cannot be changed'')) (\<lambda>_.
       let q1 = q\<lparr>qu_date := (case qd_date data of Some d \<Rightarrow> d | None \<Rightarrow> qu_date q),
                  qu_valid_until := (case qd_valid_until data of Some d \<Rightarrow> Some d | None \<Rightarrow> qu_valid_until q)\<rparr>
       in
     bindr (case qd_lines data of
              None \<Rightarrow> Inr q1
            | Some ins \<Rightarrow>
                bindr (active_customer st org (qu_customer q)) (\<lambda>c.
                  let treatment = customer_treatment org_gstin c in
                Inr (q1\<lparr>qu_lines := apply_sales_lines treatment 1 ins, qu_treatment := treatment,
                        qu_totals := sales_totals_of treatment ins (rounds_whole (qd_round_to_whole data) (qu_totals q))\<rparr>))) (\<lambda>q2.
     bindr (save_quotation st q2) (\<lambda>st1. Inr (st1, q2)))))"

definition mark_sent ::
    "'h sales_db \<Rightarrow> uuid \<Rightarrow> uuid \<Rightarrow> uuid \<Rightarrow> instant \<Rightarrow> ('h sales_db \<times> quotation) result" where
  "mark_sent st org i actor now =
     bindr (get_quotation st org i) (\<lambda>q.
     bindr (raise_if (qu_status q \<noteq> Q_DRAFT) (ConflictError ''This quotation is already processed'')) (\<lambda>_.
       let q' = q\<lparr>qu_status := Q_SENT, qu_sent_at := Some now\<rparr> in
     bindr (save_quotation st q') (\<lambda>st1.
     Inr (audit_sales st1 QUOTATION_SENT INFO actor org ''quotation'' (qu_id q), q'))))"

definition respond ::
    "'h sales_db \<Rightarrow> uuid \<Rightarrow> uuid \<Rightarrow> bool \<Rightarrow> uuid \<Rightarrow> instant \<Rightarrow> ('h sales_db \<times> quotation) result" where
  "respond st org i accepted actor now =
     bindr (get_quotation st org i) (\<lambda>q.
     bindr (raise_if (qu_status q \<notin> set [Q_DRAFT, Q_SENT]) (ConflictError ''This quotation is already processed'')) (\<lambda>_.
       let q' = q\<lparr>qu_status := (if accepted then Q_ACCEPTED else Q_REJECTED), qu_responded_at := Some now\<rparr> in
     bindr (save_quotation st q') (\<lambda>st1.
     Inr (audit_sales st1 (if accepted then QUOTATION_ACCEPTED else QUOTATION_REJECTED) INFO actor org ''quotation'' (qu_id q), q'))))"

section \<open>Sales orders\<close>

record sales_order_create =
  od_customer :: uuid
  od_quotation :: "uuid option"
  od_date :: "date option"
  od_expected :: "date option"
  od_reference :: "string option"
  od_lines :: "sales_line_input list"
  od_round_to_whole :: bool

definition get_sales_order :: "'h sales_db \<Rightarrow> uuid \<Rightarrow> uuid \<Rightarrow> sales_order result" where
  "get_sales_order st org i =
     bindr (scalar_one_or_none (filter (\<lambda>x. so_org x = org \<and> so_id x = i \<and> so_deleted x = None) (sales_orders st))) (\<lambda>found.
     case found of None \<Rightarrow> Inl (NotFoundError ''Sales order'') | Some x \<Rightarrow> Inr x)"

definition create_sales_order ::
    "'h sales_db \<Rightarrow> uuid \<Rightarrow> sales_order_create \<Rightarrow> uuid \<Rightarrow> date \<Rightarrow> string option \<Rightarrow> ('h sales_db \<times> sales_order) result" where
  "create_sales_order st org data actor today org_gstin =
     bindr (active_customer st org (od_customer data)) (\<lambda>c.
       let treatment = customer_treatment org_gstin c in
     bindr (sales_number st org ''sales_order'' ''SO'' today) (\<lambda>(st1, number).
       let x = \<lparr>so_id = sales_id st1, so_org = org, so_number = number, so_customer = cu_id c, so_quotation = od_quotation data,
                so_date = (case od_date data of Some d \<Rightarrow> d | None \<Rightarrow> today), so_expected = od_expected data,
                so_reference = od_reference data, so_status = S_DRAFT, so_confirmed_at = None, so_cancelled_at = None,
                so_invoiced = 0, so_treatment = treatment, so_currency = cu_currency c,
                so_totals = sales_totals_of treatment (od_lines data) (od_round_to_whole data), so_created_by = actor,
                so_deleted = None, so_lines = apply_sales_lines treatment 1 (od_lines data)\<rparr>
       in bindr (add_sales_order st1 x) (\<lambda>st2.
          Inr (audit_sales st2 SALES_ORDER_CREATED INFO actor org ''sales_order'' (so_id x), x))))"

text \<open>The lines a conversion submits: what the quotation stores, without the amount of an absolute discount.\<close>

definition quoted_line :: "sales_line \<Rightarrow> sales_line_input" where
  "quoted_line l =
     \<lparr>ni_description = nl_description l, ni_hsn = nl_hsn l, ni_quantity = nl_quantity l, ni_unit = nl_unit l,
      ni_unit_price = nl_unit_price l, ni_discount_percent = nl_discount_percent l, ni_discount_amount = None,
      ni_tax_rate = nl_tax_rate l, ni_revenue = None\<rparr>"

definition from_quotation ::
    "'h sales_db \<Rightarrow> uuid \<Rightarrow> uuid \<Rightarrow> uuid \<Rightarrow> date \<Rightarrow> string option \<Rightarrow> ('h sales_db \<times> sales_order) result" where
  "from_quotation st org i actor today org_gstin =
     bindr (get_quotation st org i) (\<lambda>q.
     bindr (raise_if (qu_status q = Q_CONVERTED) (ConflictError ''Quotation has already been converted'')) (\<lambda>_.
     bindr (raise_if (qu_status q = Q_REJECTED) (BusinessRuleError ''A rejected quotation cannot become an order'')) (\<lambda>_.
     bindr (validate_sales_lines (map quoted_line (qu_lines q))) (\<lambda>_.
     bindr (create_sales_order st org
       \<lparr>od_customer = qu_customer q, od_quotation = Some (qu_id q), od_date = None, od_expected = None, od_reference = None,
        od_lines = map quoted_line (qu_lines q), od_round_to_whole = (round_off (qu_totals q) \<noteq> 0)\<rparr> actor today org_gstin) (\<lambda>(st1, x).
     bindr (save_quotation st1 (q\<lparr>qu_status := Q_CONVERTED\<rparr>)) (\<lambda>st2.
     Inr (audit_sales st2 QUOTATION_CONVERTED INFO actor org ''quotation'' (qu_id q), x)))))))"

definition confirm_sales_order ::
    "'h sales_db \<Rightarrow> uuid \<Rightarrow> uuid \<Rightarrow> uuid \<Rightarrow> instant \<Rightarrow> ('h sales_db \<times> sales_order) result" where
  "confirm_sales_order st org i actor now =
     bindr (get_sales_order st org i) (\<lambda>x.
     bindr (raise_if (so_status x \<noteq> S_DRAFT) (ConflictError ''This order is already processed'')) (\<lambda>_.
       let x' = x\<lparr>so_status := S_CONFIRMED, so_confirmed_at := Some now\<rparr> in
     bindr (save_sales_order st x') (\<lambda>st1.
     Inr (audit_sales st1 SALES_ORDER_CONFIRMED INFO actor org ''sales_order'' (so_id x), x'))))"

definition cancel_sales_order ::
    "'h sales_db \<Rightarrow> uuid \<Rightarrow> uuid \<Rightarrow> uuid \<Rightarrow> instant \<Rightarrow> ('h sales_db \<times> sales_order) result" where
  "cancel_sales_order st org i actor now =
     bindr (get_sales_order st org i) (\<lambda>x.
     bindr (raise_if (0 < so_invoiced x) (BusinessRuleError ''This order has been invoiced'')) (\<lambda>_.
       let x' = x\<lparr>so_status := S_CANCELLED, so_cancelled_at := Some now\<rparr> in
     bindr (save_sales_order st x') (\<lambda>st1.
     Inr (audit_sales st1 SALES_ORDER_CANCELLED WARNING actor org ''sales_order'' (so_id x), x'))))"

end
