(* ===== verification/Invoicing.thy ===== *)
theory Invoicing
  imports Sales
begin

text \<open>
  \<^verbatim>\<open>sales/invoicing.py\<close>: invoices with their posting, cancellation and deletion, payments received with their
  allocation to invoices by hand or oldest first, and the receivables ageing and sales summary of
  \<^verbatim>\<open>sales/repository.py\<close> and \<^verbatim>\<open>sales/router.py\<close>. Rows that compare equal under an \<^verbatim>\<open>ORDER BY\<close> stay in the order
  in which they were inserted.
\<close>

section \<open>Requests\<close>

record invoice_create =
  ic_customer :: uuid
  ic_order :: "uuid option"
  ic_date :: "date option"
  ic_due :: "date option"
  ic_lines :: "sales_line_input list"
  ic_round_to_whole :: bool
  ic_post :: bool

definition validate_invoice_create :: "invoice_create \<Rightarrow> unit result" where
  "validate_invoice_create d =
     bindr (validate_sales_lines (ic_lines d)) (\<lambda>_.
     raise_if (case (ic_due d, ic_date d) of (Some due, Some issued) \<Rightarrow> due < issued | _ \<Rightarrow> False)
       (SchemaError ''due_date cannot be before invoice_date''))"

record invoice_update =
  id_date :: "date option"
  id_due :: "date option"
  id_lines :: "sales_line_input list option"
  id_round_to_whole :: "bool option"

definition validate_invoice_update :: "invoice_update \<Rightarrow> unit result" where
  "validate_invoice_update d = (case id_lines d of None \<Rightarrow> Inr () | Some ins \<Rightarrow> validate_sales_lines ins)"

record payment_received_create =
  rp_customer :: uuid
  rp_date :: "date option"
  rp_amount :: decimal
  rp_method :: payment_method
  rp_reference :: "string option"
  rp_deposit :: "uuid option"
  rp_allocations :: "(uuid \<times> decimal) list"

definition validate_payment_received :: "payment_received_create \<Rightarrow> unit result" where
  "validate_payment_received d =
     bindr (raise_if (\<not> (0 < rp_amount d \<and> money_ok (rp_amount d))) (SchemaError ''amount'')) (\<lambda>_.
     bindr (validate_amounts (rp_allocations d)) (\<lambda>_.
     bindr (raise_if (sum_list (map snd (rp_allocations d)) > rp_amount d)
       (SchemaError ''allocations exceed the payment amount'')) (\<lambda>_.
     raise_if (\<not> distinct (map fst (rp_allocations d))) (SchemaError ''the same invoice appears twice in allocations''))))"

definition validate_allocate_request :: "(uuid \<times> decimal) list \<Rightarrow> unit result" where
  "validate_allocate_request as =
     bindr (validate_amounts as) (\<lambda>_.
     bindr (raise_if (as = []) (SchemaError ''at least one allocation'')) (\<lambda>_.
     raise_if (\<not> distinct (map fst as)) (SchemaError ''the same invoice appears twice in allocations'')))"

section \<open>Invoices\<close>

definition get_invoice :: "'h sales_db \<Rightarrow> uuid \<Rightarrow> uuid \<Rightarrow> invoice result" where
  "get_invoice st org i =
     bindr (scalar_one_or_none (filter (\<lambda>x. iv_org x = org \<and> iv_id x = i \<and> iv_deleted x = None) (invoices st))) (\<lambda>found.
     case found of None \<Rightarrow> Inl (NotFoundError ''Invoice'') | Some x \<Rightarrow> Inr x)"

definition customer_name :: "'h sales_db \<Rightarrow> uuid \<Rightarrow> string" where
  "customer_name st i = (case first_or_none (filter (\<lambda>c. cu_id c = i) (customers st)) of None \<Rightarrow> [] | Some c \<Rightarrow> cu_name c)"

definition line_revenue :: "account \<Rightarrow> invoice_line \<Rightarrow> uuid" where
  "line_revenue default_revenue l = (case nv_revenue l of Some i \<Rightarrow> i | None \<Rightarrow> a_id default_revenue)"

text \<open>The \<^verbatim>\<open>revenue_by_account\<close> dictionary.\<close>

definition revenue_by_account :: "account \<Rightarrow> invoice_line list \<Rightarrow> (uuid \<times> decimal) list" where
  "revenue_by_account default_revenue ls =
     fold (\<lambda>l acc. add_to (line_revenue default_revenue l) (taxable (nl_totals (nv_line l))) acc) ls []"

definition output_tax_lines :: "'h sales_db \<Rightarrow> uuid \<Rightarrow> invoice \<Rightarrow> line_input list result" where
  "output_tax_lines st org i =
     (if 0 < cgst_total (iv_totals i) \<or> 0 < sgst_total (iv_totals i) \<or> 0 < igst_total (iv_totals i) then
        bindr (resolve_system_account (sales_ledger st) org ''gst_output'') (\<lambda>gst.
        Inr (map (\<lambda>(label, amount). credit_line (a_id gst) amount label)
          (filter (\<lambda>(label, amount). 0 < amount)
            [(''CGST'', cgst_total (iv_totals i)), (''SGST'', sgst_total (iv_totals i)), (''IGST'', igst_total (iv_totals i))])))
      else Inr [])"

definition invoice_rounding_lines :: "'h sales_db \<Rightarrow> uuid \<Rightarrow> invoice \<Rightarrow> line_input list result" where
  "invoice_rounding_lines st org i =
     (let r = round_off (iv_totals i) in
      if r \<noteq> 0 then
        bindr (resolve_system_account (sales_ledger st) org ''rounding'') (\<lambda>a.
        Inr [if 0 < r then credit_line (a_id a) r ''Rounding'' else debit_line (a_id a) (- r) ''Rounding''])
      else Inr [])"

definition build_posting_lines :: "'h sales_db \<Rightarrow> uuid \<Rightarrow> invoice \<Rightarrow> line_input list result" where
  "build_posting_lines st org i =
     bindr (resolve_system_account (sales_ledger st) org ''accounts_receivable'') (\<lambda>receivable.
     bindr (resolve_system_account (sales_ledger st) org ''sales_revenue'') (\<lambda>default_revenue.
     bindr (output_tax_lines st org i) (\<lambda>tax.
     bindr (invoice_rounding_lines st org i) (\<lambda>rounding.
     Inr ([debit_line (a_id receivable) (grand_total (iv_totals i)) (customer_name st (iv_customer i) @ '' - '' @ iv_number i)] @
          map (\<lambda>(a, amount). credit_line a amount ''Sales revenue'')
            (filter (\<lambda>(a, amount). 0 < amount) (revenue_by_account default_revenue (iv_lines i))) @
          tax @ rounding)))))"

definition sales_order_by_id :: "'h sales_db \<Rightarrow> uuid option \<Rightarrow> sales_order option result" where
  "sales_order_by_id st i =
     (case i of
        None \<Rightarrow> Inr None
      | Some x \<Rightarrow> scalar_one_or_none (filter (\<lambda>y. so_id y = x \<and> so_deleted y = None) (sales_orders st)))"

definition invoice_entry :: "'h sales_db \<Rightarrow> uuid \<Rightarrow> invoice \<Rightarrow> entry_create result" where
  "invoice_entry st org i =
     (case get_by_type (sales_ledger st) org SALES of
        None \<Rightarrow> Inl (BusinessRuleError ''No sales journal is configured for this organization'')
      | Some j \<Rightarrow>
          bindr (build_posting_lines st org i) (\<lambda>ls.
          Inr \<lparr>ec_journal = j_id j, ec_date = iv_date i,
               ec_narration = ''Invoice '' @ iv_number i @ '' - '' @ customer_name st (iv_customer i),
               ec_reference = Some (iv_number i), ec_counterparty = None, ec_lines = ls, ec_post = True\<rparr>))"

definition roll_forward :: "'h sales_db \<Rightarrow> invoice \<Rightarrow> 'h sales_db result" where
  "roll_forward st i =
     bindr (sales_order_by_id st (iv_order i)) (\<lambda>found.
     case found of
       None \<Rightarrow> Inr st
     | Some x \<Rightarrow>
         let invoiced = so_invoiced x + grand_total (iv_totals i)
         in save_sales_order st (x\<lparr>so_invoiced := invoiced,
              so_status := (if grand_total (so_totals x) \<le> invoiced then S_INVOICED else S_PARTIALLY_INVOICED)\<rparr>))"

definition roll_back :: "'h sales_db \<Rightarrow> invoice \<Rightarrow> 'h sales_db result" where
  "roll_back st i =
     bindr (sales_order_by_id st (iv_order i)) (\<lambda>found.
     case found of
       None \<Rightarrow> Inr st
     | Some x \<Rightarrow>
         let invoiced = max 0 (so_invoiced x - grand_total (iv_totals i))
         in save_sales_order st (x\<lparr>so_invoiced := invoiced,
              so_status := (if invoiced = 0 then S_CONFIRMED else S_PARTIALLY_INVOICED)\<rparr>))"

definition post_invoice ::
    "'h hooks \<Rightarrow> 'h sales_db \<Rightarrow> uuid \<Rightarrow> uuid \<Rightarrow> uuid \<Rightarrow> instant \<Rightarrow> ('h sales_db \<times> invoice) result" where
  "post_invoice hs st org i actor now =
     bindr (get_invoice st org i) (\<lambda>x.
     bindr (raise_if (invoice_is_posted (iv_status x)) (ConflictError ''Invoice is already posted'')) (\<lambda>_.
     bindr (raise_if (iv_status x = I_CANCELLED) (BusinessRuleError ''A cancelled invoice cannot be posted'')) (\<lambda>_.
     bindr (raise_if (iv_lines x = []) (BusinessRuleError ''An invoice needs at least one line'')) (\<lambda>_.
     bindr (raise_if (grand_total (iv_totals x) \<le> 0) (BusinessRuleError ''An invoice total must be positive'')) (\<lambda>_.
     bindr (invoice_entry st org x) (\<lambda>data.
     bindr (post_document_entry hs (purchasing st) org data actor ''invoice'' (iv_id x) now) (\<lambda>(q, e).
       let x' = x\<lparr>iv_status := I_POSTED, iv_entry := Some (e_id e), iv_posted_at := Some now\<rparr> in
     bindr (save_invoice (st\<lparr>purchasing := q\<rparr>) x') (\<lambda>st1.
     bindr (roll_forward st1 x') (\<lambda>st2.
     Inr (audit_sales st2 INVOICE_POSTED INFO actor org ''invoice'' (iv_id x), x'))))))))))"

definition invoice_rows :: "tax_treatment \<Rightarrow> sales_line_input list \<Rightarrow> invoice_line list" where
  "invoice_rows treatment ins =
     map2 (\<lambda>l i. \<lparr>nv_line = l, nv_revenue = ni_revenue i\<rparr>) (apply_sales_lines treatment 1 ins) ins"

definition create_invoice ::
    "'h hooks \<Rightarrow> 'h sales_db \<Rightarrow> uuid \<Rightarrow> invoice_create \<Rightarrow> uuid \<Rightarrow> date \<Rightarrow> string option \<Rightarrow> instant \<Rightarrow>
     ('h sales_db \<times> invoice) result" where
  "create_invoice hs st org data actor today org_gstin now =
     bindr (active_customer st org (ic_customer data)) (\<lambda>c.
       let treatment = customer_treatment org_gstin c;
           invoice_date = (case ic_date data of Some d \<Rightarrow> d | None \<Rightarrow> today)
       in
     bindr (sales_number st org ''invoice'' ''INV'' today) (\<lambda>(st1, number).
     bindr (case ic_due data of Some d \<Rightarrow> Inr d | None \<Rightarrow> customer_due_date c invoice_date) (\<lambda>due.
       let x = \<lparr>iv_id = sales_id st1, iv_org = org, iv_number = number, iv_customer = cu_id c, iv_order = ic_order data,
                iv_date = invoice_date, iv_due = due,
                iv_status = I_DRAFT, iv_paid = 0, iv_entry = None, iv_posted_at = None, iv_cancelled_at = None,
                iv_reversal = None, iv_gstin = cu_gstin c, iv_place = cu_state_code c, iv_treatment = treatment,
                iv_currency = cu_currency c, iv_totals = sales_totals_of treatment (ic_lines data) (ic_round_to_whole data),
                iv_created_by = actor, iv_deleted = None, iv_lines = invoice_rows treatment (ic_lines data)\<rparr>
       in
     bindr (add_invoice st1 x) (\<lambda>st2.
       let st3 = audit_sales st2 INVOICE_CREATED INFO actor org ''invoice'' (iv_id x) in
     if ic_post data then post_invoice hs st3 org (iv_id x) actor now else Inr (st3, x)))))"

definition redated :: "'h sales_db \<Rightarrow> uuid \<Rightarrow> invoice \<Rightarrow> invoice_update \<Rightarrow> invoice result" where
  "redated st org x data =
     bindr (case id_date data of
              None \<Rightarrow> Inr x
            | Some d \<Rightarrow>
                if id_due data = None \<and> iv_due x < d then
                  bindr (active_customer st org (iv_customer x)) (\<lambda>c.
                  bindr (customer_due_date c d) (\<lambda>due.
                  Inr (x\<lparr>iv_date := d, iv_due := due\<rparr>)))
                else Inr (x\<lparr>iv_date := d\<rparr>)) (\<lambda>x1.
     Inr (case id_due data of None \<Rightarrow> x1 | Some d \<Rightarrow> x1\<lparr>iv_due := d\<rparr>))"

definition update_invoice ::
    "'h sales_db \<Rightarrow> uuid \<Rightarrow> uuid \<Rightarrow> invoice_update \<Rightarrow> string option \<Rightarrow> ('h sales_db \<times> invoice) result" where
  "update_invoice st org i data org_gstin =
     bindr (get_invoice st org i) (\<lambda>x.
     bindr (raise_if (\<not> invoice_is_editable (iv_status x)) (BusinessRuleError ''This invoice cannot be edited'')) (\<lambda>_.
     bindr (redated st org x data) (\<lambda>x1.
     bindr (case id_lines data of
              None \<Rightarrow> Inr x1
            | Some ins \<Rightarrow>
                bindr (active_customer st org (iv_customer x)) (\<lambda>c.
                  let treatment = customer_treatment org_gstin c in
                Inr (x1\<lparr>iv_lines := invoice_rows treatment ins, iv_treatment := treatment,
                        iv_totals := sales_totals_of treatment ins (rounds_whole (id_round_to_whole data) (iv_totals x))\<rparr>))) (\<lambda>x2.
     bindr (save_invoice st x2) (\<lambda>st1. Inr (st1, x2))))))"

definition cancel_invoice ::
    "'h hooks \<Rightarrow> 'h sales_db \<Rightarrow> uuid \<Rightarrow> uuid \<Rightarrow> string \<Rightarrow> date option \<Rightarrow> uuid \<Rightarrow> instant \<Rightarrow> ('h sales_db \<times> invoice) result" where
  "cancel_invoice hs st org i reason cancellation_date actor now =
     bindr (get_invoice st org i) (\<lambda>x.
     bindr (raise_if (iv_status x = I_CANCELLED) (ConflictError ''Invoice is already cancelled'')) (\<lambda>_.
     bindr (raise_if (0 < iv_paid x) (BusinessRuleError ''This invoice has payments against it'')) (\<lambda>_.
     bindr (if iv_status x = I_DRAFT then
              let x' = x\<lparr>iv_status := I_CANCELLED, iv_cancelled_at := Some now\<rparr> in
              bindr (save_invoice st x') (\<lambda>st1. Inr (st1, x'))
            else case iv_entry x of
              None \<Rightarrow> Inl (BusinessRuleError ''This invoice is posted but has no journal entry'')
            | Some entry_id \<Rightarrow>
                bindr (reverse_document_entry hs (purchasing st) org entry_id actor cancellation_date
                  (''Cancellation of '' @ iv_number x @ '': '' @ reason) now) (\<lambda>(q, e).
                  let x' = x\<lparr>iv_status := I_CANCELLED, iv_cancelled_at := Some now, iv_reversal := Some (e_id e)\<rparr> in
                bindr (save_invoice (st\<lparr>purchasing := q\<rparr>) x') (\<lambda>st1.
                bindr (roll_back st1 x') (\<lambda>st2. Inr (st2, x'))))) (\<lambda>(st1, x').
     Inr (audit_sales st1 INVOICE_CANCELLED WARNING actor org ''invoice'' (iv_id x), x')))))"

definition delete_draft_invoice :: "'h sales_db \<Rightarrow> uuid \<Rightarrow> uuid \<Rightarrow> uuid \<Rightarrow> instant \<Rightarrow> 'h sales_db result" where
  "delete_draft_invoice st org i actor now =
     bindr (get_invoice st org i) (\<lambda>x.
     bindr (raise_if (iv_status x \<noteq> I_DRAFT) (BusinessRuleError ''Only drafts can be deleted'')) (\<lambda>_.
     bindr (save_invoice st (x\<lparr>iv_deleted := Some now\<rparr>)) (\<lambda>st1.
     Inr (audit_sales st1 INVOICE_DELETED INFO actor org ''invoice'' (iv_id x)))))"

section \<open>Payments received\<close>

definition get_customer_payment :: "'h sales_db \<Rightarrow> uuid \<Rightarrow> uuid \<Rightarrow> payment result" where
  "get_customer_payment st org i =
     bindr (scalar_one_or_none (filter (\<lambda>p. py_org p = org \<and> py_id p = i \<and> py_deleted p = None) (customer_payments st))) (\<lambda>found.
     case found of None \<Rightarrow> Inl (NotFoundError ''Payment'') | Some p \<Rightarrow> Inr p)"

definition resolve_deposit_account :: "'h sales_db \<Rightarrow> uuid \<Rightarrow> payment_received_create \<Rightarrow> account result" where
  "resolve_deposit_account st org data =
     (case rp_deposit data of
        Some i \<Rightarrow>
          bindr (get_account (sales_ledger st) org i) (\<lambda>a.
          bindr (raise_if (\<not> is_postable a) (ValidationError ''The deposit account must be postable'')) (\<lambda>_. Inr a))
      | None \<Rightarrow> resolve_system_account (sales_ledger st) org (if is_cash (rp_method data) then ''cash'' else ''bank''))"

definition receipt_entry :: "customer \<Rightarrow> payment \<Rightarrow> uuid \<Rightarrow> uuid \<Rightarrow> uuid \<Rightarrow> entry_create" where
  "receipt_entry c p journal deposit receivable =
     \<lparr>ec_journal = journal, ec_date = py_date p, ec_narration = ''Receipt '' @ py_number p @ '' - '' @ cu_name c,
      ec_reference = Some (first_text (py_reference p) (py_number p)), ec_counterparty = None,
      ec_lines = [debit_line deposit (py_amount p) ''Payment received'', credit_line receivable (py_amount p) (cu_name c)],
      ec_post = True\<rparr>"

definition post_customer_receipt ::
    "'h hooks \<Rightarrow> 'h sales_db \<Rightarrow> uuid \<Rightarrow> payment \<Rightarrow> customer \<Rightarrow> account \<Rightarrow> uuid \<Rightarrow> instant \<Rightarrow>
     ('h sales_db \<times> journal_entry) result" where
  "post_customer_receipt hs st org p c deposit actor now =
     bindr (resolve_system_account (sales_ledger st) org ''accounts_receivable'') (\<lambda>receivable.
     case get_by_type (sales_ledger st) org (if is_cash (py_method p) then CASH else BANK) of
       None \<Rightarrow> Inl (BusinessRuleError ''No journal of this type is configured'')
     | Some j \<Rightarrow>
         bindr (post_document_entry hs (purchasing st) org (receipt_entry c p (j_id j) (a_id deposit) (a_id receivable))
           actor ''payment'' (py_id p) now) (\<lambda>(q, e).
         Inr (st\<lparr>purchasing := q\<rparr>, e)))"

definition attach_payment ::
    "'h sales_db \<Rightarrow> uuid list \<Rightarrow> payment \<Rightarrow> uuid \<Rightarrow> decimal \<Rightarrow> 'h sales_db result" where
  "attach_payment st existing p invoice_id amount =
     (if invoice_id \<in> set existing then
        (let as = update_where (\<lambda>a. pa_payment a = py_id p \<and> pa_invoice a = invoice_id) (pa_amount_update (\<lambda>x. x + amount))
                    (payment_allocations st)
         in bindr (each (payment_allocation_checks st) (filter (\<lambda>a. pa_payment a = py_id p \<and> pa_invoice a = invoice_id) as)) (\<lambda>_.
            Inr (st\<lparr>payment_allocations := as\<rparr>)))
      else add_payment_allocation st \<lparr>pa_id = sales_id st, pa_payment = py_id p, pa_invoice = invoice_id, pa_amount = amount\<rparr>)"

text \<open>One round of the loop of \<^verbatim>\<open>_apply\<close>; \<^verbatim>\<open>existing\<close> are the invoices the payment was allocated to before it.\<close>

definition settle_one ::
    "'h sales_db \<Rightarrow> uuid \<Rightarrow> uuid list \<Rightarrow> payment \<Rightarrow> uuid \<Rightarrow> decimal \<Rightarrow> ('h sales_db \<times> payment) result" where
  "settle_one st org existing p invoice_id amount =
     bindr (get_invoice st org invoice_id) (\<lambda>x.
     bindr (raise_if (iv_customer x \<noteq> py_customer p) (ValidationError ''That invoice belongs to a different customer'')) (\<lambda>_.
     bindr (raise_if (\<not> invoice_is_posted (iv_status x)) (BusinessRuleError ''Only a posted invoice can be paid'')) (\<lambda>_.
     bindr (raise_if (amount > invoice_outstanding x) (BusinessRuleError ''The invoice has less outstanding than was allocated'')) (\<lambda>_.
     bindr (attach_payment st existing p invoice_id amount) (\<lambda>st1.
       let paid = x\<lparr>iv_paid := iv_paid x + amount\<rparr>;
           x' = paid\<lparr>iv_status := (if invoice_fully_paid paid then I_PAID else I_PARTIALLY_PAID)\<rparr>
       in bindr (save_invoice st1 x') (\<lambda>st2.
          Inr (st2, p\<lparr>py_unallocated := py_unallocated p - amount\<rparr>)))))))"

fun settle_each ::
    "'h sales_db \<Rightarrow> uuid \<Rightarrow> uuid list \<Rightarrow> payment \<Rightarrow> (uuid \<times> decimal) list \<Rightarrow> ('h sales_db \<times> payment) result" where
  "settle_each st org existing p [] = Inr (st, p)"
| "settle_each st org existing p ((invoice_id, amount) # as) =
     bindr (settle_one st org existing p invoice_id amount) (\<lambda>(st1, p1). settle_each st1 org existing p1 as)"

definition apply_to_invoices ::
    "'h sales_db \<Rightarrow> uuid \<Rightarrow> payment \<Rightarrow> (uuid \<times> decimal) list \<Rightarrow> uuid \<Rightarrow> ('h sales_db \<times> payment) result" where
  "apply_to_invoices st org p as actor =
     bindr (raise_if (sum_list (map snd as) > py_unallocated p) (BusinessRuleError ''More than the unallocated amount was requested'')) (\<lambda>_.
       let existing = map pa_invoice (filter (\<lambda>a. pa_payment a = py_id p) (payment_allocations st)) in
     bindr (settle_each st org existing p as) (\<lambda>(st1, p').
     bindr (save_customer_payment st1 p') (\<lambda>st2.
     Inr (audit_sales st2 PAYMENT_ALLOCATED INFO actor org ''payment'' (py_id p), p'))))"

definition allocate_receipt ::
    "'h sales_db \<Rightarrow> uuid \<Rightarrow> uuid \<Rightarrow> (uuid \<times> decimal) list \<Rightarrow> uuid \<Rightarrow> ('h sales_db \<times> payment) result" where
  "allocate_receipt st org i as actor = bindr (get_customer_payment st org i) (\<lambda>p. apply_to_invoices st org p as actor)"

definition record_payment ::
    "'h hooks \<Rightarrow> 'h sales_db \<Rightarrow> uuid \<Rightarrow> payment_received_create \<Rightarrow> uuid \<Rightarrow> date \<Rightarrow> instant \<Rightarrow> ('h sales_db \<times> payment) result" where
  "record_payment hs st org data actor today now =
     bindr (active_customer st org (rp_customer data)) (\<lambda>c.
     bindr (resolve_deposit_account st org data) (\<lambda>deposit.
     bindr (sales_number st org ''payment'' ''RCP'' today) (\<lambda>(st1, number).
       let p = \<lparr>py_id = sales_id st1, py_org = org, py_number = number, py_customer = cu_id c,
                py_date = (case rp_date data of Some d \<Rightarrow> d | None \<Rightarrow> today), py_amount = rp_amount data,
                py_unallocated = rp_amount data, py_method = rp_method data, py_reference = rp_reference data,
                py_currency = cu_currency c, py_deposit = Some (a_id deposit), py_entry = None, py_created_by = actor,
                py_deleted = None\<rparr>
       in
     bindr (add_customer_payment st1 p) (\<lambda>st2.
     bindr (post_customer_receipt hs st2 org p c deposit actor now) (\<lambda>(st3, e).
       let p1 = p\<lparr>py_entry := Some (e_id e)\<rparr> in
     bindr (save_customer_payment st3 p1) (\<lambda>st4.
     bindr (if rp_allocations data \<noteq> [] then apply_to_invoices st4 org p1 (rp_allocations data) actor else Inr (st4, p1)) (\<lambda>(st5, p2).
     Inr (audit_sales st5 PAYMENT_RECEIVED INFO actor org ''payment'' (py_id p), p2))))))))"

definition outstanding_for_customer :: "'h sales_db \<Rightarrow> uuid \<Rightarrow> uuid \<Rightarrow> invoice list" where
  "outstanding_for_customer st org i =
     sort_key iv_due (sort_key iv_date
       (filter (\<lambda>x. iv_org x = org \<and> iv_customer x = i \<and> iv_deleted x = None \<and> iv_status x \<in> set [I_POSTED, I_PARTIALLY_PAID] \<and>
          iv_paid x < grand_total (iv_totals x)) (invoices st)))"

fun allocation_plan :: "decimal \<Rightarrow> invoice list \<Rightarrow> (uuid \<times> decimal) list" where
  "allocation_plan remaining [] = []"
| "allocation_plan remaining (x # xs) =
     (if remaining \<le> 0 then []
      else let applied = min remaining (invoice_outstanding x) in
           if 0 < applied then (iv_id x, applied) # allocation_plan (remaining - applied) xs else allocation_plan remaining xs)"

definition auto_allocate :: "'h sales_db \<Rightarrow> uuid \<Rightarrow> uuid \<Rightarrow> uuid \<Rightarrow> ('h sales_db \<times> payment) result" where
  "auto_allocate st org i actor =
     bindr (get_customer_payment st org i) (\<lambda>p.
     if py_unallocated p \<le> 0 then Inr (st, p)
     else
       let plan = allocation_plan (py_unallocated p) (outstanding_for_customer st org (py_customer p))
       in if plan \<noteq> [] then apply_to_invoices st org p plan actor else Inr (st, p))"

section \<open>Reports\<close>

record receivables_report =
  rr_as_of :: date
  rr_buckets :: "ageing_bucket list"
  rr_total_outstanding :: decimal
  rr_total_overdue :: decimal

definition open_invoices :: "'h sales_db \<Rightarrow> uuid \<Rightarrow> invoice list" where
  "open_invoices st org =
     filter (\<lambda>x. iv_org x = org \<and> iv_deleted x = None \<and> iv_status x \<in> set [I_POSTED, I_PARTIALLY_PAID] \<and>
       iv_paid x < grand_total (iv_totals x)) (invoices st)"

definition receivables_ageing :: "'h sales_db \<Rightarrow> uuid \<Rightarrow> date option \<Rightarrow> date \<Rightarrow> receivables_report" where
  "receivables_ageing st org as_of today =
     (let effective = (case as_of of Some d \<Rightarrow> d | None \<Rightarrow> today);
          items = map (\<lambda>(label, low, high).
              let xs = filter (\<lambda>x. bucket_of ageing_buckets (effective - iv_due x) = Some label) (open_invoices st org)
              in \<lparr>ab_label = label, ab_amount = sum_list (map invoice_outstanding xs), ab_count = length xs\<rparr>) ageing_buckets
      in \<lparr>rr_as_of = effective, rr_buckets = items, rr_total_outstanding = sum_list (map ab_amount items),
          rr_total_overdue = sum_list (map ab_amount (filter (\<lambda>b. ab_label b \<noteq> ''Current'') items))\<rparr>)"

record sales_summary =
  ss_invoice_count :: nat
  ss_gross_sales :: decimal
  ss_tax_collected :: decimal
  ss_net_sales :: decimal
  ss_payments_received :: decimal
  ss_outstanding :: decimal

definition search_invoices :: "'h sales_db \<Rightarrow> uuid \<Rightarrow> date \<Rightarrow> date \<Rightarrow> nat \<Rightarrow> invoice list" where
  "search_invoices st org from_date to_date page_size =
     take page_size (sort_key (\<lambda>x. - iv_date x)
       (rev (filter (\<lambda>x. iv_org x = org \<and> iv_deleted x = None \<and> from_date \<le> iv_date x \<and> iv_date x \<le> to_date) (invoices st))))"

definition received_between :: "'h sales_db \<Rightarrow> uuid \<Rightarrow> date \<Rightarrow> date \<Rightarrow> decimal" where
  "received_between st org from_date to_date =
     sum_list (map py_amount (filter (\<lambda>p. py_org p = org \<and> py_deleted p = None \<and> from_date \<le> py_date p \<and> py_date p \<le> to_date)
       (customer_payments st)))"

definition sales_summary_report :: "'h sales_db \<Rightarrow> uuid \<Rightarrow> date \<Rightarrow> date \<Rightarrow> sales_summary" where
  "sales_summary_report st org from_date to_date =
     (let live = filter (\<lambda>x. invoice_is_posted (iv_status x)) (search_invoices st org from_date to_date 200);
          gross = sum_list (map (\<lambda>x. grand_total (iv_totals x)) live);
          tax = sum_list (map (\<lambda>x. tax_total (iv_totals x)) live)
      in \<lparr>ss_invoice_count = length live, ss_gross_sales = gross, ss_tax_collected = tax, ss_net_sales = gross - tax,
          ss_payments_received = received_between st org from_date to_date,
          ss_outstanding = sum_list (map invoice_outstanding live)\<rparr>)"

end
