(* ===== verification/Receivables.thy ===== *)
theory Receivables
  imports Invoicing Purchasing_System
begin

text \<open>
  Accounts receivable. Invoices, payments received and their allocations are the mirror image of bills,
  supplier payments and theirs: an abstraction maps the rows of the one sub-ledger to those of the other, the
  allocation loop of \<^verbatim>\<open>sales/invoicing.py\<close> refines the one of \<^verbatim>\<open>purchasing/receiving.py\<close> through it, and the
  invariant of payables carries over. The entry of an invoice is treated as the one of a bill was, with
  debits and credits exchanged.
\<close>

section \<open>The figures of an invoice\<close>

definition as_input :: "sales_line_input \<Rightarrow> purchase_line_input" where
  "as_input i = \<lparr>pi_product = None, pi_description = ni_description i, pi_hsn = ni_hsn i, pi_quantity = ni_quantity i,
     pi_unit = ni_unit i, pi_unit_price = ni_unit_price i, pi_discount_percent = ni_discount_percent i,
     pi_discount_amount = ni_discount_amount i, pi_tax_rate = ni_tax_rate i, pi_expense = ni_revenue i\<rparr>"

lemma compute_as_input: "compute_sales_input tr i = compute_input tr (as_input i)"
  by (simp add: compute_sales_input_def compute_input_def as_input_def)

lemma totals_as_input: "sales_totals_of tr ins w = totals_of tr (map as_input ins) w"
  by (simp add: sales_totals_of_def totals_of_def o_def compute_as_input [abs_def])

lemma validate_as_input: "validate_sales_lines ins = Inr () \<Longrightarrow> validate_line_inputs (map as_input ins) = Inr ()"
  by (auto simp: validate_sales_lines_def validate_line_inputs_def each_eq_Inr_iff validate_sales_line_def validate_line_input_def
    as_input_def)

definition invoice_lines_totals :: "invoice_line list \<Rightarrow> line_totals list" where
  "invoice_lines_totals ls = map (\<lambda>l. nl_totals (nv_line l)) ls"

lemma length_apply_sales_lines: "length (apply_sales_lines tr k ins) = length ins"
  by (induction ins arbitrary: k) simp_all

lemma apply_sales_lines_totals: "map nl_totals (apply_sales_lines tr k ins) = map (compute_input tr) (map as_input ins)"
  by (induction ins arbitrary: k) (simp_all add: apply_sales_line_def compute_as_input)

lemma invoice_rows_totals: "invoice_lines_totals (invoice_rows tr ins) = map (compute_input tr) (map as_input ins)"
proof -
  have "map (\<lambda>l. nl_totals (nv_line l)) (map2 (\<lambda>l i. \<lparr>nv_line = l, nv_revenue = ni_revenue i\<rparr>) xs ys) = map nl_totals xs"
    if "length xs = length ys" for xs ys
    using that by (induction xs ys rule: list_induct2) simp_all
  from this [OF length_apply_sales_lines, of tr 1 ins] show ?thesis
    by (simp only: invoice_lines_totals_def invoice_rows_def apply_sales_lines_totals)
qed

lemma invoice_figures:
  assumes "validate_sales_lines ins = Inr ()" "document_checks (sales_totals_of tr ins w) = Inr ()"
  shows "figures_ok (invoice_lines_totals (invoice_rows tr ins)) (sales_totals_of tr ins w)"
  using figures_computed [OF validate_as_input [OF assms(1)]] assms(2) by (simp add: invoice_rows_totals totals_as_input)

section \<open>The entry of an invoice\<close>

lemma positive_credits:
  assumes "\<forall>x \<in> set xs. 0 \<le> snd x \<and> money_ok (snd x)"
  shows "lines_ok (map (\<lambda>(k, x). credit_line (f k) x (g k)) (filter (\<lambda>(k, x). 0 < x) xs)) 0 (sum_list (map snd xs))"
    and "lines_net a (map (\<lambda>(k, x). credit_line (f k) x (g k)) (filter (\<lambda>(k, x). 0 < x) xs)) =
      - sum_list (map snd (filter (\<lambda>x. f (fst x) = a) xs))"
  using assms
proof (induction xs)
  case (Cons y ys)
  obtain k x where y: "y = (k, x)" by (cases y)
  {
    case 1
    then show ?case
      using Cons.IH(1) lines_ok_append [OF lines_ok_credit [of x "f k" "g k"]]
      by (cases "x = 0") (fastforce simp: y)+
  next
    case 2
    then show ?case using Cons.IH(2) by (cases "x = 0") (auto simp: y)
  }
qed (simp_all add: lines_ok_def)

definition revenue_base :: "invoice_line \<Rightarrow> decimal" where
  "revenue_base l = taxable (nl_totals (nv_line l))"

definition add_revenue :: "account \<Rightarrow> invoice_line \<Rightarrow> (uuid \<times> decimal) list \<Rightarrow> (uuid \<times> decimal) list" where
  "add_revenue d l acc = add_to (line_revenue d l) (revenue_base l) acc"

lemma revenue_fold:
  "sum_list (map snd (fold (add_revenue d) ls acc)) = sum_list (map snd acc) + sum_list (map revenue_base ls)"
  "sum_list (map snd (filter (\<lambda>y. fst y = a) (fold (add_revenue d) ls acc))) = sum_list (map snd (filter (\<lambda>y. fst y = a) acc)) +
     sum_list (map revenue_base (filter (\<lambda>l. line_revenue d l = a) ls))"
  by (induction ls arbitrary: acc) (simp_all add: add_to_sums add_revenue_def)

lemma revenue_fold_grid:
  assumes "\<forall>y \<in> set acc. 0 \<le> snd y \<and> on_grid 4 (snd y)" "\<forall>l \<in> set ls. 0 \<le> revenue_base l \<and> on_grid 4 (revenue_base l)"
  shows "\<forall>y \<in> set (fold (add_revenue d) ls acc). 0 \<le> snd y \<and> on_grid 4 (snd y)"
  using assms
proof (induction ls arbitrary: acc)
  case (Cons l ls)
  have "\<forall>y \<in> set (add_revenue d l acc). 0 \<le> snd y \<and> on_grid 4 (snd y)"
    unfolding add_revenue_def by (rule add_to_grid [OF Cons.prems(1)]) (use Cons.prems(2) in simp_all)
  moreover have "\<forall>m \<in> set ls. 0 \<le> revenue_base m \<and> on_grid 4 (revenue_base m)" using Cons.prems(2) by simp
  ultimately have "\<forall>y \<in> set (fold (add_revenue d) ls (add_revenue d l acc)). 0 \<le> snd y \<and> on_grid 4 (snd y)" by (rule Cons.IH)
  then show ?case by (simp only: fold_simps)
qed simp

lemma revenue_by_account_fold: "revenue_by_account d ls = fold (add_revenue d) ls []"
  by (simp add: revenue_by_account_def add_revenue_def [abs_def] revenue_base_def)

lemma revenue_grouped:
  "sum_list (map snd (revenue_by_account d ls)) = sum_list (map revenue_base ls)"
  "sum_list (map snd (filter (\<lambda>y. fst y = a) (revenue_by_account d ls))) =
     sum_list (map revenue_base (filter (\<lambda>l. line_revenue d l = a) ls))"
  "\<forall>l \<in> set ls. 0 \<le> revenue_base l \<and> on_grid 4 (revenue_base l) \<Longrightarrow>
     \<forall>y \<in> set (revenue_by_account d ls). 0 \<le> snd y \<and> on_grid 4 (snd y)"
  unfolding revenue_by_account_fold by (simp_all add: revenue_fold) (rule revenue_fold_grid; simp)


text \<open>What posting an invoice adds to the balance of an account: revenue, tax and rounding are credits.\<close>

definition revenue_net :: "'h sales_db \<Rightarrow> uuid \<Rightarrow> invoice \<Rightarrow> uuid \<Rightarrow> decimal" where
  "revenue_net st org i a =
     (case resolve_system_account (sales_ledger st) org ''sales_revenue'' of
        Inl _ \<Rightarrow> 0
      | Inr d \<Rightarrow> sum_list (map revenue_base (filter (\<lambda>l. line_revenue d l = a) (iv_lines i))))"

definition invoice_net :: "'h sales_db \<Rightarrow> uuid \<Rightarrow> invoice \<Rightarrow> uuid \<Rightarrow> decimal" where
  "invoice_net st org i a =
     (if account_is (purchasing st) org ''accounts_receivable'' a then grand_total (iv_totals i) else 0) - revenue_net st org i a -
     (if account_is (purchasing st) org ''gst_output'' a then tax_total (iv_totals i) else 0) -
     (if account_is (purchasing st) org ''rounding'' a then round_off (iv_totals i) else 0)"

lemma revenue_lines_ok:
  fixes d :: account
  assumes f: "figures_ok (invoice_lines_totals ls) t" and pos: "0 < grand_total t"
  defines "out \<equiv> map (\<lambda>(a, amount). credit_line a amount ''Sales revenue'') (filter (\<lambda>(a, amount). 0 < amount) (revenue_by_account d ls))"
  shows "lines_ok out 0 (taxable_total t)" and "lines_net a out = - sum_list (map revenue_base (filter (\<lambda>l. line_revenue d l = a) ls))"
    and "out \<noteq> []"
proof -
  let ?r = "revenue_by_account d ls"
  have base: "\<forall>l \<in> set ls. 0 \<le> revenue_base l \<and> on_grid 4 (revenue_base l)"
    and sum: "sum_list (map revenue_base ls) = taxable_total t"
    using figures_okD(1,2) [OF f] by (simp_all add: invoice_lines_totals_def revenue_base_def [abs_def] o_def)
  have tp: "0 < taxable_total t" "fits (taxable_total t)" using figures_okD(13,14) [OF f] pos by simp_all
  have sr: "sum_list (map snd ?r) = taxable_total t" using revenue_grouped(1) sum by simp
  have nn: "\<forall>y \<in> set ?r. 0 \<le> snd y \<and> on_grid 4 (snd y)" using revenue_grouped(3) base by blast
  have "\<forall>y \<in> set ?r. 0 \<le> snd y \<and> money_ok (snd y)"
  proof
    fix y assume y: "y \<in> set ?r"
    then have "snd y \<le> sum_list (map snd ?r)" using nn by (intro member_le_sum_list) auto
    with sr tp nn y show "0 \<le> snd y \<and> money_ok (snd y)" by (intro conjI money_okI [of _ "taxable_total t"]) auto
  qed
  note pc = positive_credits [OF this, where f = id and g = "\<lambda>_. ''Sales revenue''"]
  show l: "lines_ok out 0 (taxable_total t)" using pc(1) sr by (simp add: out_def)
  show "lines_net a out = - sum_list (map revenue_base (filter (\<lambda>l. line_revenue d l = a) ls))"
    using pc(2) [of a] revenue_grouped(2) [of a d ls] by (simp add: out_def)
  show "out \<noteq> []" using l tp by (auto simp: lines_ok_def)
qed

lemma output_tax_lines_ok:
  assumes f: "figures_ok ts (iv_totals i)" and op: "output_tax_lines st org i = Inr ls"
  shows "lines_ok ls 0 (tax_total (iv_totals i))"
    and "lines_net a ls = - (if account_is (purchasing st) org ''gst_output'' a then tax_total (iv_totals i) else 0)"
proof -
  let ?t = "iv_totals i"
  let ?xs = "[(''CGST'', cgst_total ?t), (''SGST'', sgst_total ?t), (''IGST'', igst_total ?t)]"
  have t: "0 \<le> cgst_total ?t" "0 \<le> sgst_total ?t" "0 \<le> igst_total ?t" "on_grid 4 (cgst_total ?t)" "on_grid 4 (sgst_total ?t)"
    "on_grid 4 (igst_total ?t)" "tax_total ?t = cgst_total ?t + sgst_total ?t + igst_total ?t" "fits (tax_total ?t)"
    by (fact figures_okD [OF f])+
  have "lines_ok ls 0 (tax_total ?t) \<and> lines_net a ls = - (if account_is (purchasing st) org ''gst_output'' a then tax_total ?t else 0)"
  proof (cases "0 < cgst_total ?t \<or> 0 < sgst_total ?t \<or> 0 < igst_total ?t")
    case False
    with op have "ls = []" unfolding output_tax_lines_def if_not_P [OF False] by simp
    moreover have "tax_total ?t = 0" using False t by simp
    ultimately show ?thesis by (simp add: lines_ok_def)
  next
    case True
    with op obtain x where x: "resolve_system_account (sales_ledger st) org ''gst_output'' = Inr x"
      "ls = map (\<lambda>(label, amount). credit_line (a_id x) amount label) (filter (\<lambda>(label, amount). 0 < amount) ?xs)"
      unfolding output_tax_lines_def if_P [OF True] by auto
    have "\<forall>y \<in> set ?xs. 0 \<le> snd y \<and> money_ok (snd y)"
      using t by (auto intro!: money_okI [of _ "tax_total ?t"])
    note pp = positive_credits [OF this, where f = "\<lambda>_. a_id x" and g = "\<lambda>label. label", folded x(2)]
    show ?thesis
      using pp(1) pp(2) [of a] t(7) account_is_resolved [OF x(1), of a] by (simp add: add.assoc)
  qed
  then show "lines_ok ls 0 (tax_total ?t)"
    "lines_net a ls = - (if account_is (purchasing st) org ''gst_output'' a then tax_total ?t else 0)" by simp_all
qed

lemma invoice_rounding_lines_ok:
  assumes f: "figures_ok ts (iv_totals i)" and op: "invoice_rounding_lines st org i = Inr ls"
  shows "lines_ok ls (max 0 (- round_off (iv_totals i))) (max 0 (round_off (iv_totals i)))"
    and "lines_net a ls = - (if account_is (purchasing st) org ''rounding'' a then round_off (iv_totals i) else 0)"
proof -
  let ?r = "round_off (iv_totals i)"
  have m: "money_ok ?r" "money_ok (- ?r)" using figures_okD(9,16) [OF f] by (simp_all add: money_ok_def fits_def)
  have "lines_ok ls (max 0 (- ?r)) (max 0 ?r) \<and> lines_net a ls = - (if account_is (purchasing st) org ''rounding'' a then ?r else 0)"
  proof (cases "?r = 0")
    case True
    with op show ?thesis by (simp add: invoice_rounding_lines_def lines_ok_def)
  next
    case False
    with op obtain x where x: "resolve_system_account (sales_ledger st) org ''rounding'' = Inr x"
      "ls = [if 0 < ?r then credit_line (a_id x) ?r ''Rounding'' else debit_line (a_id x) (- ?r) ''Rounding'']"
      by (auto simp: invoice_rounding_lines_def Let_def)
    show ?thesis
    proof (cases "0 < ?r")
      case True
      with m lines_ok_credit [of ?r "a_id x"] show ?thesis
        by (simp add: x(2) account_is_resolved [OF x(1)] max_def)
    next
      case neg: False
      with False m lines_ok_debit [of "- ?r" "a_id x"] show ?thesis
        by (simp add: x(2) account_is_resolved [OF x(1)] max_def)
    qed
  qed
  then show "lines_ok ls (max 0 (- ?r)) (max 0 ?r)"
    "lines_net a ls = - (if account_is (purchasing st) org ''rounding'' a then ?r else 0)" by simp_all
qed

lemma invoice_entry_ok:
  assumes f: "figures_ok (invoice_lines_totals (iv_lines i)) (iv_totals i)" and pos: "0 < grand_total (iv_totals i)"
    and op: "invoice_entry st org i = Inr d"
  shows "validate_balance (ec_lines d) = Inr ()" and "lines_net a (ec_lines d) = invoice_net st org i a" and "ec_post d"
proof -
  let ?t = "iv_totals i"
  from op obtain receivable revenue tax rounding memo where
    p: "resolve_system_account (sales_ledger st) org ''accounts_receivable'' = Inr receivable"
      "resolve_system_account (sales_ledger st) org ''sales_revenue'' = Inr revenue"
    and l: "output_tax_lines st org i = Inr tax" "invoice_rounding_lines st org i = Inr rounding"
    and d: "ec_lines d = [debit_line (a_id receivable) (grand_total ?t) memo] @
        map (\<lambda>(a, amount). credit_line a amount ''Sales revenue'') (filter (\<lambda>(a, amount). 0 < amount) (revenue_by_account revenue (iv_lines i))) @
        tax @ rounding" "ec_post d"
    by (auto simp: invoice_entry_def build_posting_lines_def split: option.splits)
  note c = revenue_lines_ok [OF f pos, where d = revenue] and t = output_tax_lines_ok [OF f l(1)] and r = invoice_rounding_lines_ok [OF f l(2)]
  have g: "lines_ok [debit_line (a_id receivable) (grand_total ?t) memo] (grand_total ?t) 0"
    using figures_okD(10,17) [OF f] pos by (intro lines_ok_debit) (auto intro: money_okI)
  have ok: "lines_ok (ec_lines d) (grand_total ?t + (0 + (0 + max 0 (- round_off ?t))))
      (0 + (taxable_total ?t + (tax_total ?t + max 0 (round_off ?t))))"
    unfolding d(1) by (intro lines_ok_append c(1) t(1) r(1) g)
  have eq: "grand_total ?t + (0 + (0 + max 0 (- round_off ?t))) = 0 + (taxable_total ?t + (tax_total ?t + max 0 (round_off ?t)))"
    using figures_okD(12) [OF f] by (simp add: max_def)
  have "grand_total ?t + (0 + (0 + max 0 (- round_off ?t))) \<noteq> 0" using pos by (simp add: max_def)
  moreover have "\<not> length (ec_lines d) < 2" using c(3) unfolding d(1) by (simp add: Suc_le_eq)
  moreover have "each validate_line (ec_lines d) = Inr ()" using ok by (simp add: lines_ok_def each_eq_Inr_iff)
  ultimately show "validate_balance (ec_lines d) = Inr ()"
    using ok eq by (simp add: validate_balance_def lines_ok_def Let_def)
  show "lines_net a (ec_lines d) = invoice_net st org i a"
    using c(2) [of a] t(2) [of a] r(2) [of a] account_is_resolved [OF p(1), of a] p(2)
    unfolding d(1) by (simp add: invoice_net_def revenue_net_def)
  show "ec_post d" by (rule d(2))
qed

section \<open>Invoices as bills\<close>

fun as_status :: "invoice_status \<Rightarrow> bill_status" where
  "as_status I_DRAFT = B_DRAFT"
| "as_status I_POSTED = B_POSTED"
| "as_status I_PARTIALLY_PAID = B_PARTIALLY_PAID"
| "as_status I_PAID = B_PAID"
| "as_status I_CANCELLED = B_CANCELLED"

definition as_line :: "invoice_line \<Rightarrow> bill_line" where
  "as_line l = \<lparr>bl_line = \<lparr>pl_number = nl_number (nv_line l), pl_product = None, pl_description = nl_description (nv_line l),
     pl_hsn = nl_hsn (nv_line l), pl_quantity = nl_quantity (nv_line l), pl_unit = nl_unit (nv_line l),
     pl_unit_price = nl_unit_price (nv_line l), pl_discount_percent = nl_discount_percent (nv_line l),
     pl_tax_rate = nl_tax_rate (nv_line l), pl_totals = nl_totals (nv_line l)\<rparr>, bl_expense = nv_revenue l\<rparr>"

definition as_bill :: "invoice \<Rightarrow> bill" where
  "as_bill i = \<lparr>bi_id = iv_id i, bi_org = iv_org i, bi_number = iv_number i, bi_invoice_number = None, bi_supplier = iv_customer i,
     bi_order = None, bi_receipt = None, bi_date = iv_date i, bi_due = iv_due i, bi_status = as_status (iv_status i),
     bi_paid = iv_paid i, bi_treatment = iv_treatment i, bi_currency = iv_currency i, bi_gstin = iv_gstin i, bi_totals = iv_totals i,
     bi_entry = iv_entry i, bi_reversal = iv_reversal i, bi_posted_at = iv_posted_at i, bi_cancelled_at = iv_cancelled_at i,
     bi_created_by = iv_created_by i, bi_deleted = iv_deleted i, bi_lines = map as_line (iv_lines i)\<rparr>"

definition as_payment :: "payment \<Rightarrow> supplier_payment" where
  "as_payment p = \<lparr>sp_id = py_id p, sp_org = py_org p, sp_number = py_number p, sp_supplier = py_customer p, sp_date = py_date p,
     sp_amount = py_amount p, sp_unallocated = py_unallocated p, sp_method = [], sp_reference = py_reference p,
     sp_currency = py_currency p, sp_source = py_deposit p, sp_entry = py_entry p, sp_created_by = py_created_by p,
     sp_deleted = py_deleted p\<rparr>"

definition as_allocation :: "payment_allocation \<Rightarrow> allocation" where
  "as_allocation a = \<lparr>al_id = pa_id a, al_payment = pa_payment a, al_bill = pa_invoice a, al_amount = pa_amount a\<rparr>"

definition as_purchasing :: "'h sales_db \<Rightarrow> 'h purchasing_db" where
  "as_purchasing st = (purchasing st)\<lparr>bills := map as_bill (invoices st), payments := map as_payment (customer_payments st),
     allocations := map as_allocation (payment_allocations st)\<rparr>"

lemma as_bill_simps [simp]:
  "bi_id (as_bill i) = iv_id i" "bi_org (as_bill i) = iv_org i" "bi_supplier (as_bill i) = iv_customer i"
  "bi_status (as_bill i) = as_status (iv_status i)" "bi_paid (as_bill i) = iv_paid i" "bi_totals (as_bill i) = iv_totals i"
  "bi_deleted (as_bill i) = iv_deleted i" "bill_lines_totals (as_bill i) = invoice_lines_totals (iv_lines i)"
  by (simp_all add: as_bill_def bill_lines_totals_def invoice_lines_totals_def as_line_def o_def)

lemma as_payment_simps [simp]:
  "sp_id (as_payment p) = py_id p" "sp_org (as_payment p) = py_org p" "sp_supplier (as_payment p) = py_customer p"
  "sp_amount (as_payment p) = py_amount p" "sp_unallocated (as_payment p) = py_unallocated p" "sp_deleted (as_payment p) = py_deleted p"
  by (simp_all add: as_payment_def)

lemma as_allocation_simps [simp]:
  "al_id (as_allocation a) = pa_id a" "al_payment (as_allocation a) = pa_payment a" "al_bill (as_allocation a) = pa_invoice a"
  "al_amount (as_allocation a) = pa_amount a"
  by (simp_all add: as_allocation_def)

lemma as_purchasing_simps [simp]:
  "stock (as_purchasing st) = stock (purchasing st)" "bills (as_purchasing st) = map as_bill (invoices st)"
  "payments (as_purchasing st) = map as_payment (customer_payments st)"
  "allocations (as_purchasing st) = map as_allocation (payment_allocations st)"
  "receipts (as_purchasing st) = receipts (purchasing st)" "ledger (as_purchasing st) = sales_ledger st"
  "doc_id (as_purchasing st) = sales_id st"
  by (simp_all add: as_purchasing_def ledger_def doc_id_def sales_id_def)

lemma as_status_simps [simp]:
  "bill_is_posted (as_status s) \<longleftrightarrow> invoice_is_posted s" "as_status s = B_DRAFT \<longleftrightarrow> s = I_DRAFT" "as_status s = B_CANCELLED \<longleftrightarrow> s = I_CANCELLED"
  by (cases s; simp add: bill_is_posted_def invoice_is_posted_def)+

lemma outstanding_as_bill [simp]: "outstanding (as_bill i) = invoice_outstanding i"
  by (simp add: outstanding_def invoice_outstanding_def)

lemma scalar_map: "scalar_one_or_none (map f xs) = (case scalar_one_or_none xs of Inl e \<Rightarrow> Inl e | Inr y \<Rightarrow> Inr (map_option f y))"
  by (cases xs rule: scalar_one_or_none.cases) simp_all

lemma get_invoice_as_bill:
  "get_invoice st org i = Inr x \<Longrightarrow> get_bill (as_purchasing st) org i = Inr (as_bill x)"
  by (auto simp: get_invoice_def get_bill_def filter_map o_def scalar_map conj_commute conj_left_commute split: option.splits sum.splits)

lemma map_replace:
  assumes "\<And>y. k' (f y) = k y"
  shows "map f (update_where (\<lambda>y. k y = k x) (\<lambda>_. x) ys) = update_where (\<lambda>y. k' y = k' (f x)) (\<lambda>_. f x) (map f ys)"
  by (simp add: update_where_def assms)

lemma line_checks_as_line: "sales_line_checks (nv_line l) = Inr () \<Longrightarrow> purchase_line_checks (bl_line (as_line l)) = Inr ()"
  by (simp add: sales_line_checks_def purchase_line_checks_def as_line_def bindr_eq_Inr_iff)

lemma invoice_checks_as_bill:
  assumes "invoice_checks st x = Inr ()"
  shows "bill_checks (as_purchasing st) (as_bill x) = Inr ()"
proof -
  have ls: "fk_ok (nv_revenue l) (map a_id (accounts (sales_ledger st)))" "sales_line_checks (nv_line l) = Inr ()"
    if "l \<in> set (iv_lines x)" for l
    using assms that by (auto simp: invoice_checks_def bindr_eq_Inr_iff each_eq_Inr_iff)
  have "each (\<lambda>l.
       bindr (raise_if (\<not> (fk_ok (pl_product (bl_line l)) (map pr_id (products (as_purchasing st))) \<and>
           fk_ok (bl_expense l) (map a_id (accounts (ledger (as_purchasing st)))))) (IntegrityError ''foreign key'')) (\<lambda>_.
       purchase_line_checks (bl_line l))) (bi_lines (as_bill x)) = Inr ()"
    using ls line_checks_as_line by (auto simp: each_eq_Inr_iff as_bill_def bindr_eq_Inr_iff as_line_def fk_ok_def)
  then show ?thesis
    using assms by (simp add: bill_checks_def invoice_checks_def bindr_eq_Inr_iff) (simp add: as_bill_def fk_ok_def)
qed

lemma save_invoice_as_bill:
  assumes "save_invoice st x = Inr st'"
  shows "save_bill (as_purchasing st) (as_bill x) = Inr (as_purchasing st')"
    and "st' = st\<lparr>invoices := update_where (\<lambda>y. iv_id y = iv_id x) (\<lambda>_. x) (invoices st)\<rparr>"
proof -
  from assms have c: "invoice_checks st x = Inr ()" and st': "st' = st\<lparr>invoices := update_where (\<lambda>y. iv_id y = iv_id x) (\<lambda>_. x) (invoices st)\<rparr>"
    by (auto simp: save_invoice_def)
  then show "st' = st\<lparr>invoices := update_where (\<lambda>y. iv_id y = iv_id x) (\<lambda>_. x) (invoices st)\<rparr>" by simp
  show "save_bill (as_purchasing st) (as_bill x) = Inr (as_purchasing st')"
    using invoice_checks_as_bill [OF c] map_replace [of bi_id as_bill iv_id x "invoices st"]
    by (simp add: save_bill_def st' as_purchasing_def)
qed

section \<open>Allocation refines allocation\<close>

text \<open>What the allocation loop leaves alone: everything but invoices, allocations and the supply of identifiers.\<close>

definition invoice_key :: "invoice \<Rightarrow> uuid \<times> uuid option \<times> document_totals \<times> bool \<times> bool \<times> uuid option" where
  "invoice_key x = (iv_id x, iv_order x, iv_totals x, invoice_is_posted (iv_status x), iv_status x = I_DRAFT, iv_entry x)"

definition settled :: "'h sales_db \<Rightarrow> 'h sales_db \<Rightarrow> bool" where
  "settled st st' \<longleftrightarrow> (\<exists>s xs as. st' = st\<lparr>purchasing := (purchasing st)\<lparr>stock := s\<rparr>, invoices := xs, payment_allocations := as\<rparr> \<and>
     map invoice_key xs =
     map invoice_key (invoices st))"

lemma settled_refl: "settled st st"
  unfolding settled_def by (rule exI [of _ "stock (purchasing st)"], rule exI [of _ "invoices st"], rule exI [of _ "payment_allocations st"]) simp

lemma settledI:
  assumes "st' = st\<lparr>purchasing := (purchasing st)\<lparr>stock := s\<rparr>, invoices := xs, payment_allocations := as\<rparr>"
    "map invoice_key xs =
     map invoice_key (invoices st)"
  shows "settled st st'"
  using assms unfolding settled_def by blast

lemma settled_trans:
  assumes "settled a b" "settled b c"
  shows "settled a c"
proof -
  from assms(1) obtain s xs as where b: "b = a\<lparr>purchasing := (purchasing a)\<lparr>stock := s\<rparr>, invoices := xs, payment_allocations := as\<rparr>"
    "map invoice_key xs =
     map invoice_key (invoices a)"
    unfolding settled_def by blast
  from assms(2) obtain s' xs' as' where c: "c = b\<lparr>purchasing := (purchasing b)\<lparr>stock := s'\<rparr>, invoices := xs', payment_allocations := as'\<rparr>"
    "map invoice_key xs' =
     map invoice_key (invoices b)"
    unfolding settled_def by blast
  show ?thesis by (rule settledI [where s = s' and xs = xs' and as = as']) (simp_all add: b c)
qed

lemma allocation_checks_as:
  "allocation_checks (as_purchasing st) (as_allocation a) = Inr () \<longleftrightarrow> payment_allocation_checks st a = Inr ()"
  by (simp add: allocation_checks_def payment_allocation_checks_def bindr_eq_Inr_iff)

lemma attach_payment_as:
  assumes "attach_payment st existing p i x = Inr st'"
  shows "attach_amount (as_purchasing st) existing (as_payment p) i x = Inr (as_purchasing st')" and "settled st st'"
    and "invoices st' = invoices st"
proof -
  let ?m = "\<lambda>a. pa_payment a = py_id p \<and> pa_invoice a = i"
  let ?as = "update_where ?m (pa_amount_update (\<lambda>y. y + x)) (payment_allocations st)"
  let ?n = "\<lparr>pa_id = sales_id st, pa_payment = py_id p, pa_invoice = i, pa_amount = x\<rparr>"
  have "attach_amount (as_purchasing st) existing (as_payment p) i x = Inr (as_purchasing st') \<and> settled st st' \<and> invoices st' = invoices st"
  proof (cases "i \<in> set existing")
    case True
    with assms have c: "\<forall>a \<in> set (filter ?m ?as). payment_allocation_checks st a = Inr ()"
      and st': "st' = st\<lparr>payment_allocations := ?as\<rparr>"
      by (auto simp: attach_payment_def Let_def each_eq_Inr_iff)
    have m: "update_where (\<lambda>a. al_payment a = py_id p \<and> al_bill a = i) (al_amount_update (\<lambda>y. y + x)) (map as_allocation (payment_allocations st)) =
        map as_allocation ?as"
      by (simp add: update_where_def o_def as_allocation_def)
    have "each (allocation_checks (as_purchasing st)) (filter (\<lambda>a. al_payment a = py_id p \<and> al_bill a = i) (map as_allocation ?as)) = Inr ()"
      using c by (simp add: filter_map o_def each_eq_Inr_iff allocation_checks_as)
    then have "attach_amount (as_purchasing st) existing (as_payment p) i x = Inr (as_purchasing st')"
      using True by (simp add: attach_amount_def Let_def m st') (simp add: as_purchasing_def)
    moreover have "settled st st'" by (rule settledI [where s = "stock (purchasing st)" and xs = "invoices st"]) (simp_all add: st')
    ultimately show ?thesis by (simp add: st')
  next
    case False
    with assms have c: "payment_allocation_checks st ?n = Inr ()"
      and st': "st' = (take_sales_id st)\<lparr>payment_allocations := payment_allocations st @ [?n]\<rparr>"
      by (auto simp: attach_payment_def add_payment_allocation_def)
    have n: "\<lparr>al_id = sales_id st, al_payment = py_id p, al_bill = i, al_amount = x\<rparr> = as_allocation ?n"
      by (simp add: as_allocation_def)
    have ac: "allocation_checks (as_purchasing st) (as_allocation ?n) = Inr ()" using c by (simp add: allocation_checks_as)
    have "take_doc_id (as_purchasing st)\<lparr>allocations := map as_allocation (payment_allocations st) @ [as_allocation ?n]\<rparr> = as_purchasing st'"
      by (simp add: as_purchasing_def st' take_sales_id_def take_doc_id_def)
    then have "attach_amount (as_purchasing st) existing (as_payment p) i x = Inr (as_purchasing st')"
      using False by (simp add: attach_amount_def add_allocation_def n ac)
    moreover have "settled st st'"
      by (rule settledI [where s = "take_id (stock (purchasing st))" and xs = "invoices st"]) (simp_all add: st' take_sales_id_def take_doc_id_def)
    ultimately show ?thesis by (simp add: st' take_sales_id_def)
  qed
  then show "attach_amount (as_purchasing st) existing (as_payment p) i x = Inr (as_purchasing st')" "settled st st'"
    "invoices st' = invoices st" by blast+
qed

lemma get_invoice_ok:
  "get_invoice st org i = Inr x \<Longrightarrow> x \<in> set (invoices st) \<and> iv_id x = i \<and> iv_org x = org \<and> iv_deleted x = None"
  by (auto simp: get_invoice_def split: option.splits dest: scalar_one_or_none_Some)

lemma settle_one_as:
  assumes d: "distinct (map iv_id (invoices st))" and op: "settle_one st org existing p i x = Inr (st', p')"
  shows "apply_one (as_purchasing st) org existing (as_payment p) i x = Inr (as_purchasing st', as_payment p')"
    and "settled st st'" and "p' = p\<lparr>py_unallocated := py_unallocated p - x\<rparr>"
proof -
  from op obtain v st1 where v: "get_invoice st org i = Inr v"
    and c: "iv_customer v = py_customer p" "invoice_is_posted (iv_status v)" "x \<le> invoice_outstanding v"
    and a: "attach_payment st existing p i x = Inr st1"
    and s: "save_invoice st1 (v\<lparr>iv_paid := iv_paid v + x,
      iv_status := (if invoice_fully_paid (v\<lparr>iv_paid := iv_paid v + x\<rparr>) then I_PAID else I_PARTIALLY_PAID)\<rparr>) = Inr st'"
    and p': "p' = p\<lparr>py_unallocated := py_unallocated p - x\<rparr>"
    by (auto simp: settle_one_def Let_def)
  define v' where "v' = v\<lparr>iv_paid := iv_paid v + x,
      iv_status := (if invoice_fully_paid (v\<lparr>iv_paid := iv_paid v + x\<rparr>) then I_PAID else I_PARTIALLY_PAID)\<rparr>"
  have v'_as: "as_bill v' = (as_bill v)\<lparr>bi_paid := iv_paid v + x,
      bi_status := (if is_fully_paid ((as_bill v)\<lparr>bi_paid := iv_paid v + x\<rparr>) then B_PAID else B_PARTIALLY_PAID)\<rparr>"
    by (simp add: v'_def as_bill_def is_fully_paid_def invoice_fully_paid_def)
  note sv = save_invoice_as_bill [OF s [folded v'_def]] and at = attach_payment_as [OF a]
  show "p' = p\<lparr>py_unallocated := py_unallocated p - x\<rparr>" by (rule p')
  show "apply_one (as_purchasing st) org existing (as_payment p) i x = Inr (as_purchasing st', as_payment p')"
    using get_invoice_as_bill [OF v] c at(1) sv(1)
    by (simp add: apply_one_def Let_def v'_as p') (simp add: as_payment_def)
  have "map invoice_key (invoices st') =
      map invoice_key (invoices st)"
    unfolding sv(2) sales_db.simps at(3)
    using get_invoice_ok [OF v] c(2) d
    by (auto simp: update_where_def v'_def invoice_key_def invoice_is_posted_def distinct_map inj_on_def)
  then have "settled st1 st'"
    using at(3) by (intro settledI [where s = "stock (purchasing st1)" and xs = "invoices st'" and as = "payment_allocations st1"]) (simp_all add: sv(2))
  then show "settled st st'" using settled_trans [OF at(2)] by blast
qed

lemma settled_ids: "settled st st' \<Longrightarrow> map iv_id (invoices st') = map iv_id (invoices st)"
  unfolding settled_def by (elim exE conjE, drule arg_cong [where f = "map fst"]) (simp add: o_def invoice_key_def)

lemma settle_each_as:
  assumes "distinct (map iv_id (invoices st))" "settle_each st org existing p as = Inr (st', p')"
  shows "apply_each (as_purchasing st) org existing (as_payment p) as = Inr (as_purchasing st', as_payment p') \<and> settled st st' \<and>
    p' = p\<lparr>py_unallocated := py_unallocated p'\<rparr>"
  using assms
proof (induction as arbitrary: st p)
  case Nil
  then show ?case by (simp add: settled_refl)
next
  case (Cons y as)
  obtain i x where y: "y = (i, x)" by (cases y)
  from Cons.prems(2) obtain st1 p1 where 1: "settle_one st org existing p i x = Inr (st1, p1)"
    and 2: "settle_each st1 org existing p1 as = Inr (st', p')" by (auto simp: y)
  note o = settle_one_as [OF Cons.prems(1) 1]
  have "distinct (map iv_id (invoices st1))" using settled_ids [OF o(2)] Cons.prems(1) by simp
  note ih = Cons.IH [OF this 2]
  have "p' = p\<lparr>py_unallocated := py_unallocated p'\<rparr>" using ih o(3) by (cases p, cases p') simp
  then show ?case using ih o(1) settled_trans [OF o(2)] by (simp add: y)
qed

end
