(* ===== verification/Sales_Invariant.thy ===== *)
theory Sales_Invariant
  imports Receivables
begin

text \<open>
  The invariant of the sales tables: receivables mirror payables, the invoiced total of an order is what its
  posted invoices bill, identifiers are unique. It is preserved by the operations on customers, leads,
  quotations and orders; the lemmas at the end replace an invoice or an order in the tables.
\<close>

section \<open>The invariant\<close>

text \<open>What the posted invoices have billed on an order.\<close>

definition billed_on :: "uuid \<Rightarrow> invoice \<Rightarrow> decimal" where
  "billed_on k x = (if iv_order x = Some k \<and> invoice_is_posted (iv_status x) then grand_total (iv_totals x) else 0)"

definition invoiced_on :: "invoice list \<Rightarrow> uuid \<Rightarrow> decimal" where
  "invoiced_on xs k = sum_list (map (billed_on k) xs)"

definition orders_agree :: "sales_order list \<Rightarrow> invoice list \<Rightarrow> uuid \<Rightarrow> bool" where
  "orders_agree os xs n \<longleftrightarrow> distinct (map so_id os) \<and>
     (\<forall>y \<in> set os. so_id y < n \<and> so_deleted y = None \<and> so_invoiced y = invoiced_on xs (so_id y)) \<and>
     (\<forall>x \<in> set xs. \<forall>k. iv_order x = Some k \<longrightarrow> k \<in> so_id ` set os)"

text \<open>A draft has no ledger entry, every other invoice has one.\<close>

definition entries_ok :: "invoice list \<Rightarrow> bool" where
  "entries_ok xs \<longleftrightarrow> (\<forall>x \<in> set xs. iv_status x = I_DRAFT \<longleftrightarrow> iv_entry x = None)"

definition quotes_ok :: "quotation list \<Rightarrow> uuid \<Rightarrow> bool" where
  "quotes_ok qs n \<longleftrightarrow> distinct (map qu_id qs) \<and> (\<forall>q \<in> set qs. qu_id q < n)"

definition receivables_inv :: "'h sales_db \<Rightarrow> bool" where
  "receivables_inv st \<longleftrightarrow> payables_inv (map as_bill (invoices st)) (map as_payment (customer_payments st))
     (map as_allocation (payment_allocations st)) (sales_id st)"

definition sales_inv :: "'h sales_db \<Rightarrow> bool" where
  "sales_inv st \<longleftrightarrow> purchasing_inv (purchasing st) \<and> receivables_inv st \<and> orders_agree (sales_orders st) (invoices st) (sales_id st) \<and>
     entries_ok (invoices st) \<and> quotes_ok (quotations st) (sales_id st)"

lemma sales_invD:
  assumes "sales_inv st"
  shows "purchasing_inv (purchasing st)" "receivables_inv st" "orders_agree (sales_orders st) (invoices st) (sales_id st)"
    "quotes_ok (quotations st) (sales_id st)" "entries_ok (invoices st)"
  using assms by (simp_all add: sales_inv_def)

lemma receivables_view: "sales_inv st \<Longrightarrow> purchasing_inv (as_purchasing st)"
  using sales_invD(1,2) [of st]
  by (simp add: purchasing_inv_def receivables_inv_def receipts_ok_def sales_id_def doc_id_def)

lemma orders_agreeD:
  assumes "orders_agree os xs n"
  shows "distinct (map so_id os)" "\<And>y. y \<in> set os \<Longrightarrow> so_id y < n" "\<And>y. y \<in> set os \<Longrightarrow> so_deleted y = None"
    "\<And>y. y \<in> set os \<Longrightarrow> so_invoiced y = invoiced_on xs (so_id y)"
    "\<And>x k. x \<in> set xs \<Longrightarrow> iv_order x = Some k \<Longrightarrow> k \<in> so_id ` set os"
  using assms by (auto simp: orders_agree_def)

lemma orders_mono: "orders_agree os xs n \<Longrightarrow> n \<le> m \<Longrightarrow> orders_agree os xs m"
  unfolding orders_agree_def by (meson order_less_le_trans)

lemma quotes_mono: "quotes_ok qs n \<Longrightarrow> n \<le> m \<Longrightarrow> quotes_ok qs m"
  unfolding quotes_ok_def by (meson order_less_le_trans)

lemma invoice_ids: "receivables_inv st \<Longrightarrow> distinct (map iv_id (invoices st))"
  unfolding receivables_inv_def by (drule payables_invD(1)) (simp add: o_def)

lemma payment_ids: "receivables_inv st \<Longrightarrow> distinct (map py_id (customer_payments st))"
  unfolding receivables_inv_def by (drule payables_invD(2)) (simp add: o_def)

text \<open>An operation that leaves the documents alone.\<close>

lemma receivables_frame:
  assumes "receivables_inv st" "sales_id st \<le> sales_id st'" "invoices st' = invoices st"
    "customer_payments st' = customer_payments st" "payment_allocations st' = payment_allocations st"
  shows "receivables_inv st'"
  using payables_mono [OF assms(1) [unfolded receivables_inv_def] assms(2)] assms(3-) by (simp add: receivables_inv_def)

lemma sales_frame:
  assumes "sales_inv st" "purchasing_inv (purchasing st')" "sales_id st \<le> sales_id st'" "invoices st' = invoices st"
    "customer_payments st' = customer_payments st" "payment_allocations st' = payment_allocations st"
    "sales_orders st' = sales_orders st" "quotations st' = quotations st"
  shows "sales_inv st'"
  using assms receivables_frame [OF sales_invD(2) [OF assms(1)] assms(3-6)]
    orders_mono [OF sales_invD(3) [OF assms(1)] assms(3)] quotes_mono [OF sales_invD(4) [OF assms(1)] assms(3)]
  by (simp add: sales_inv_def)

lemma audit_sales_simps [simp]:
  "purchasing (audit_sales st x sv ac og rt ri) = audit_doc (purchasing st) x sv ac og rt ri"
  "customers (audit_sales st x sv ac og rt ri) = customers st" "leads (audit_sales st x sv ac og rt ri) = leads st"
  "quotations (audit_sales st x sv ac og rt ri) = quotations st" "sales_orders (audit_sales st x sv ac og rt ri) = sales_orders st"
  "invoices (audit_sales st x sv ac og rt ri) = invoices st"
  "customer_payments (audit_sales st x sv ac og rt ri) = customer_payments st"
  "payment_allocations (audit_sales st x sv ac og rt ri) = payment_allocations st"
  "sales_id (audit_sales st x sv ac og rt ri) = sales_id st"
  by (simp_all add: audit_sales_def sales_id_def doc_id_def)

lemma take_sales_id_simps [simp]:
  "purchasing (take_sales_id st) = take_doc_id (purchasing st)" "sales_id (take_sales_id st) = sales_id st + 1"
  "customers (take_sales_id st) = customers st" "leads (take_sales_id st) = leads st" "quotations (take_sales_id st) = quotations st"
  "sales_orders (take_sales_id st) = sales_orders st" "invoices (take_sales_id st) = invoices st"
  "customer_payments (take_sales_id st) = customer_payments st" "payment_allocations (take_sales_id st) = payment_allocations st"
  by (simp_all add: take_sales_id_def sales_id_def doc_id_def)

lemma purchasing_take: "purchasing_inv st \<Longrightarrow> purchasing_inv (take_doc_id st)"
  by (rule purchasing_quiet) simp_all

lemma sales_audit: "sales_inv st \<Longrightarrow> sales_inv (audit_sales st x sv ac og rt ri)"
  by (rule sales_frame) (simp_all add: sales_invD(1) purchasing_audit)

lemma sales_numberD:
  assumes "sales_number st org scope prefix today = Inr (st', n)"
  shows "document_number (purchasing st) org scope prefix today = Inr (purchasing st', n)" and "st' = st\<lparr>purchasing := purchasing st'\<rparr>"
    and "sales_id st \<le> sales_id st'"
proof -
  show *: "document_number (purchasing st) org scope prefix today = Inr (purchasing st', n)"
    using assms by (auto simp: sales_number_def)
  show "st' = st\<lparr>purchasing := purchasing st'\<rparr>" using assms by (auto simp: sales_number_def)
  show "sales_id st \<le> sales_id st'"
    using document_number_quiet(1) [OF *] by (simp add: quiet_def sales_id_def doc_id_def)
qed

lemma sales_number_inv:
  assumes "sales_inv st" "sales_number st org scope prefix today = Inr (st', n)"
  shows "sales_inv st'"
proof -
  note d = sales_numberD [OF assms(2)]
  have "sales_inv (st\<lparr>purchasing := purchasing st'\<rparr>)"
    by (rule sales_frame [OF assms(1)])
      (use d(3) purchasing_number [OF sales_invD(1) [OF assms(1)] d(1)] in \<open>simp_all add: sales_id_def\<close>)
  then show ?thesis using d(2) by simp
qed

section \<open>Customers, leads, quotations and orders\<close>

lemma add_masters_inv:
  assumes "sales_inv st"
  shows "add_customer st c = Inr st' \<Longrightarrow> sales_inv st'" "save_customer st c = Inr st' \<Longrightarrow> sales_inv st'"
    "add_lead st l = Inr st' \<Longrightarrow> sales_inv st'" "save_lead st l = Inr st' \<Longrightarrow> sales_inv st'"
  by (rule sales_frame [OF assms]; auto simp: add_customer_def save_customer_def add_lead_def save_lead_def
      sales_invD(1) [OF assms] purchasing_take sales_id_def doc_id_def)+

lemma create_customer_inv: "sales_inv st \<Longrightarrow> create_customer st org cd actor = Inr (st', c) \<Longrightarrow> sales_inv st'"
  by (auto simp: create_customer_def Let_def intro: sales_audit add_masters_inv)

lemma customers_inv:
  assumes "sales_inv st"
  shows "update_customer st org i cu actor = Inr (st', c) \<Longrightarrow> sales_inv st'"
    "delete_customer st org i actor now = Inr st' \<Longrightarrow> sales_inv st'"
    "create_lead st org ld actor = Inr (st', l) \<Longrightarrow> sales_inv st'"
    "update_lead st org i lu actor now = Inr (st', l) \<Longrightarrow> sales_inv st'"
    "convert_lead st org i lv actor now = Inr (st', c) \<Longrightarrow> sales_inv st'"
proof -
  show "update_customer st org i cu actor = Inr (st', c) \<Longrightarrow> sales_inv st'"
    by (auto simp: update_customer_def Let_def intro!: sales_audit dest!: add_masters_inv [OF assms])
  show "delete_customer st org i actor now = Inr st' \<Longrightarrow> sales_inv st'"
    by (auto simp: delete_customer_def intro!: sales_audit dest!: add_masters_inv [OF assms])
  show "create_lead st org ld actor = Inr (st', l) \<Longrightarrow> sales_inv st'"
    by (auto simp: create_lead_def Let_def intro!: sales_audit dest!: add_masters_inv [OF assms])
  show "update_lead st org i lu actor now = Inr (st', l) \<Longrightarrow> sales_inv st'"
    by (auto simp: update_lead_def Let_def intro!: sales_audit dest!: add_masters_inv [OF assms])
  assume "convert_lead st org i lv actor now = Inr (st', c)"
  then obtain cd st1 l st2 where "create_customer st org cd actor = Inr (st1, c)" "save_lead st1 l = Inr st2"
    "st' = audit_sales st2 LEAD_CONVERTED INFO actor org ''lead'' (le_id l)"
    by (auto simp: convert_lead_def Let_def)
  then show "sales_inv st'" using create_customer_inv [OF assms] add_masters_inv(4) sales_audit by blast
qed

lemma save_quotation_inv:
  assumes "sales_inv st" "save_quotation st q = Inr st'"
  shows "sales_inv st'"
proof -
  let ?qs = "update_where (\<lambda>y. qu_id y = qu_id q) (\<lambda>_. q) (quotations st)"
  have st': "st' = st\<lparr>quotations := ?qs\<rparr>" using assms(2) by (auto simp: save_quotation_def)
  have ids: "map qu_id ?qs = map qu_id (quotations st)" by (rule map_key_replace [of qu_id]) simp
  then have "qu_id ` set ?qs = qu_id ` set (quotations st)" by (metis list.set_map)
  then have "quotes_ok ?qs (sales_id st)" using sales_invD(4) [OF assms(1)] ids unfolding quotes_ok_def by (metis imageE imageI)
  then show ?thesis
    using assms(1) by (simp add: sales_inv_def st' receivables_inv_def sales_id_def)
qed

lemma add_quotation_inv:
  assumes "sales_inv st" "add_quotation st q = Inr st'" "qu_id q = sales_id st"
  shows "sales_inv st'"
proof -
  have st': "st' = (take_sales_id st)\<lparr>quotations := quotations st @ [q]\<rparr>" using assms(2) by (auto simp: add_quotation_def)
  have "sales_inv (take_sales_id st)" by (rule sales_frame [OF assms(1)]) (simp_all add: purchasing_take sales_invD(1) [OF assms(1)])
  moreover have "quotes_ok (quotations st @ [q]) (sales_id st + 1)"
    using sales_invD(4) [OF assms(1)] assms(3) unfolding quotes_ok_def by fastforce
  ultimately show ?thesis by (simp add: sales_inv_def st' receivables_inv_def sales_id_def doc_id_def)
qed

lemma quotations_inv:
  assumes "sales_inv st"
  shows "create_quotation st org qd actor today gstin = Inr (st', q) \<Longrightarrow> sales_inv st'"
    "update_quotation st org i qu gstin = Inr (st', q) \<Longrightarrow> sales_inv st'"
    "mark_sent st org i actor now = Inr (st', q) \<Longrightarrow> sales_inv st'"
    "respond st org i acc actor now = Inr (st', q) \<Longrightarrow> sales_inv st'"
proof -
  show "update_quotation st org i qu gstin = Inr (st', q) \<Longrightarrow> sales_inv st'"
    by (auto simp: update_quotation_def Let_def dest!: save_quotation_inv [OF assms])
  show "mark_sent st org i actor now = Inr (st', q) \<Longrightarrow> sales_inv st'"
    by (auto simp: mark_sent_def Let_def intro!: sales_audit dest!: save_quotation_inv [OF assms])
  show "respond st org i acc actor now = Inr (st', q) \<Longrightarrow> sales_inv st'"
    by (auto simp: respond_def Let_def intro!: sales_audit dest!: save_quotation_inv [OF assms])
  assume "create_quotation st org qd actor today gstin = Inr (st', q)"
  then obtain st1 n st2 where "sales_number st org ''quotation'' ''QT'' today = Inr (st1, n)" "add_quotation st1 q = Inr st2"
    "qu_id q = sales_id st1" "st' = audit_sales st2 QUOTATION_CREATED INFO actor org ''quotation'' (qu_id q)"
    by (auto simp: create_quotation_def Let_def)
  then show "sales_inv st'" using sales_number_inv [OF assms] add_quotation_inv sales_audit by metis
qed

lemma not_invoiced:
  assumes "orders_agree os xs n" "k \<notin> so_id ` set os"
  shows "invoiced_on xs k = 0"
proof -
  have "map (billed_on k) xs = map (\<lambda>_. 0) xs" using orders_agreeD(5) [OF assms(1)] assms(2) by (auto simp: billed_on_def)
  then show ?thesis by (simp only: invoiced_on_def sum_list_0)
qed

lemma add_sales_order_inv:
  assumes "sales_inv st" "add_sales_order st y = Inr st'" "so_id y = sales_id st" "so_invoiced y = 0" "so_deleted y = None"
  shows "sales_inv st'"
proof -
  have st': "st' = (take_sales_id st)\<lparr>sales_orders := sales_orders st @ [y]\<rparr>" using assms(2) by (auto simp: add_sales_order_def)
  note o = sales_invD(3) [OF assms(1)]
  have new: "sales_id st \<notin> so_id ` set (sales_orders st)" using orders_agreeD(2) [OF o] by fastforce
  have "orders_agree (sales_orders st @ [y]) (invoices st) (sales_id st + 1)"
    using o new assms(3-) not_invoiced [OF o new] unfolding orders_agree_def by fastforce
  moreover have "sales_inv (take_sales_id st)" by (rule sales_frame [OF assms(1)]) (simp_all add: purchasing_take sales_invD(1) [OF assms(1)])
  ultimately show ?thesis by (simp add: sales_inv_def st' receivables_inv_def sales_id_def doc_id_def)
qed

lemma save_sales_order_inv:
  assumes "sales_inv st" "save_sales_order st y' = Inr st'" "y \<in> set (sales_orders st)" "so_id y' = so_id y" "so_invoiced y' = so_invoiced y"
    "so_deleted y' = so_deleted y"
  shows "sales_inv st'"
proof -
  let ?os = "update_where (\<lambda>z. so_id z = so_id y') (\<lambda>_. y') (sales_orders st)"
  have st': "st' = st\<lparr>sales_orders := ?os\<rparr>" using assms(2) by (auto simp: save_sales_order_def)
  note o = sales_invD(3) [OF assms(1)]
  have ids: "map so_id ?os = map so_id (sales_orders st)" by (rule map_key_replace [of so_id]) simp
  have set: "set ?os = insert y' (set (sales_orders st) - {y})"
    unfolding assms(4) by (rule replace_row [OF orders_agreeD(1) [OF o] assms(3)])
  have im: "so_id ` set ?os = so_id ` set (sales_orders st)" using ids by (metis list.set_map)
  have "orders_agree ?os (invoices st) (sales_id st)"
    using o assms(3-6) ids unfolding orders_agree_def im unfolding set by auto
  then show ?thesis using assms(1) by (simp add: sales_inv_def st' receivables_inv_def sales_id_def)
qed

lemma get_sales_order_ok: "get_sales_order st org i = Inr y \<Longrightarrow> y \<in> set (sales_orders st) \<and> so_id y = i \<and> so_org y = org"
  by (auto simp: get_sales_order_def split: option.splits dest: scalar_one_or_none_Some)

lemma create_sales_order_inv:
  assumes "sales_inv st" "create_sales_order st org od actor today gstin = Inr (st', y)"
  shows "sales_inv st'"
proof -
  from assms(2) obtain st1 n st2 where n: "sales_number st org ''sales_order'' ''SO'' today = Inr (st1, n)"
    and y: "add_sales_order st1 y = Inr st2" "so_id y = sales_id st1" "so_invoiced y = 0" "so_deleted y = None"
    and st': "st' = audit_sales st2 SALES_ORDER_CREATED INFO actor org ''sales_order'' (so_id y)"
    by (auto simp: create_sales_order_def Let_def)
  show ?thesis unfolding st' by (rule sales_audit) (rule add_sales_order_inv [OF sales_number_inv [OF assms(1) n] y])
qed

lemma sales_orders_inv:
  assumes "sales_inv st"
  shows "from_quotation st org i actor today gstin = Inr (st', y) \<Longrightarrow> sales_inv st'"
    "confirm_sales_order st org i actor now = Inr (st', y) \<Longrightarrow> sales_inv st'"
    "cancel_sales_order st org i actor now = Inr (st', y) \<Longrightarrow> sales_inv st'"
proof -
  show "confirm_sales_order st org i actor now = Inr (st', y) \<Longrightarrow> sales_inv st'"
    by (auto simp: confirm_sales_order_def Let_def intro!: sales_audit dest!: get_sales_order_ok intro: save_sales_order_inv [OF assms])
  show "cancel_sales_order st org i actor now = Inr (st', y) \<Longrightarrow> sales_inv st'"
    by (auto simp: cancel_sales_order_def Let_def intro!: sales_audit dest!: get_sales_order_ok intro: save_sales_order_inv [OF assms])
  assume "from_quotation st org i actor today gstin = Inr (st', y)"
  then obtain od st1 q st2 where "create_sales_order st org od actor today gstin = Inr (st1, y)" "save_quotation st1 q = Inr st2"
    "st' = audit_sales st2 QUOTATION_CONVERTED INFO actor org ''quotation'' (qu_id q)"
    by (auto simp: from_quotation_def)
  then show "sales_inv st'" using create_sales_order_inv [OF assms] save_quotation_inv sales_audit by blast
qed

section \<open>Rolling an order forward and back\<close>

lemma invoiced_replaced:
  assumes "distinct (map iv_id xs)" "x \<in> set xs" "iv_id x' = iv_id x"
  shows "invoiced_on (update_where (\<lambda>y. iv_id y = iv_id x') (\<lambda>_. x') xs) k = invoiced_on xs k + billed_on k x' - billed_on k x"
  unfolding invoiced_on_def by (rule sum_replaced [OF assms])

lemma orders_agree_shift:
  assumes "orders_agree os xs n" "map so_id os' = map so_id os"
    and "\<And>y'. y' \<in> set os' \<Longrightarrow> \<exists>y \<in> set os. so_id y' = so_id y \<and> so_deleted y' = so_deleted y \<and> so_invoiced y' = so_invoiced y + g (so_id y)"
    and "\<And>k. k \<in> so_id ` set os \<Longrightarrow> invoiced_on xs' k = invoiced_on xs k + g k"
    and "\<And>x k. x \<in> set xs' \<Longrightarrow> iv_order x = Some k \<Longrightarrow> k \<in> so_id ` set os"
  shows "orders_agree os' xs' n"
proof -
  have im: "so_id ` set os' = so_id ` set os" using assms(2) by (metis list.set_map)
  have "so_id y' < n \<and> so_deleted y' = None \<and> so_invoiced y' = invoiced_on xs' (so_id y')" if y': "y' \<in> set os'" for y'
    using assms(3) [OF y'] orders_agreeD(2-4) [OF assms(1)] assms(4) by fastforce
  then show ?thesis using orders_agreeD(1) [OF assms(1)] assms(2,5) unfolding orders_agree_def im by auto
qed

definition shifted :: "sales_order list \<Rightarrow> sales_order list \<Rightarrow> (uuid \<Rightarrow> decimal) \<Rightarrow> bool" where
  "shifted os os' g \<longleftrightarrow> map so_id os' = map so_id os \<and>
     (\<forall>y' \<in> set os'. \<exists>y \<in> set os. so_id y' = so_id y \<and> so_deleted y' = so_deleted y \<and> so_invoiced y' = so_invoiced y + g (so_id y))"

lemma shifted_none: "\<forall>y \<in> set os. g (so_id y) = 0 \<Longrightarrow> shifted os os g"
  by (auto simp: shifted_def)

lemma shifted_one:
  assumes "distinct (map so_id os)" "y \<in> set os" "so_id y' = so_id y" "so_deleted y' = so_deleted y"
    "so_invoiced y' = so_invoiced y + g (so_id y)" "\<And>z. z \<in> set os \<Longrightarrow> so_id z \<noteq> so_id y \<Longrightarrow> g (so_id z) = 0"
  shows "shifted os (update_where (\<lambda>z. so_id z = so_id y') (\<lambda>_. y') os) g"
proof -
  let ?os = "update_where (\<lambda>z. so_id z = so_id y') (\<lambda>_. y') os"
  have "map so_id ?os = map so_id os" by (rule map_key_replace [of so_id]) simp
  moreover have set: "set ?os = insert y' (set os - {y})" unfolding assms(3) by (rule replace_row [OF assms(1,2)])
  moreover have "so_id z \<noteq> so_id y" if "z \<in> set os - {y}" for z
    using that assms(1,2) by (auto simp: distinct_map inj_on_def)
  ultimately show ?thesis using assms(2-6) by (auto simp: shifted_def)
qed

lemma order_found:
  assumes "orders_agree (sales_orders st) xs n" "sales_order_by_id st i = Inr found"
  shows "(case found of None \<Rightarrow> \<forall>y \<in> set (sales_orders st). i \<noteq> Some (so_id y) | Some y \<Rightarrow> y \<in> set (sales_orders st) \<and> i = Some (so_id y))"
  using assms(2) orders_agreeD(3) [OF assms(1)]
  by (cases i) (auto simp: sales_order_by_id_def scalar_one_or_none_None filter_empty_conv split: option.splits dest: scalar_one_or_none_Some)

lemma roll_forward_shift:
  assumes o: "orders_agree (sales_orders st) xs n" and op: "roll_forward st x = Inr st'"
  shows "st' = st\<lparr>sales_orders := sales_orders st'\<rparr>"
    and "shifted (sales_orders st) (sales_orders st') (\<lambda>k. if iv_order x = Some k then grand_total (iv_totals x) else 0)"
proof -
  from op obtain found where f: "sales_order_by_id st (iv_order x) = Inr found" by (auto simp: roll_forward_def)
  note k = order_found [OF o f]
  have "st' = st\<lparr>sales_orders := sales_orders st'\<rparr> \<and>
    shifted (sales_orders st) (sales_orders st') (\<lambda>k. if iv_order x = Some k then grand_total (iv_totals x) else 0)"
  proof (cases found)
    case None
    with op f k show ?thesis by (auto simp: roll_forward_def intro!: shifted_none)
  next
    case (Some y)
    define y' where "y' = y\<lparr>so_invoiced := so_invoiced y + grand_total (iv_totals x),
        so_status := (if grand_total (so_totals y) \<le> so_invoiced y + grand_total (iv_totals x) then S_INVOICED else S_PARTIALLY_INVOICED)\<rparr>"
    have st': "st' = st\<lparr>sales_orders := update_where (\<lambda>z. so_id z = so_id y') (\<lambda>_. y') (sales_orders st)\<rparr>"
      using op f Some by (auto simp: roll_forward_def save_sales_order_def y'_def Let_def)
    have y: "y \<in> set (sales_orders st)" "iv_order x = Some (so_id y)" using k Some by simp_all
    have "shifted (sales_orders st) (update_where (\<lambda>z. so_id z = so_id y') (\<lambda>_. y') (sales_orders st))
        (\<lambda>k. if iv_order x = Some k then grand_total (iv_totals x) else 0)"
      by (rule shifted_one [OF orders_agreeD(1) [OF o] y(1)]) (simp_all add: y'_def y(2))
    then show ?thesis by (simp add: st')
  qed
  then show "st' = st\<lparr>sales_orders := sales_orders st'\<rparr>"
    "shifted (sales_orders st) (sales_orders st') (\<lambda>k. if iv_order x = Some k then grand_total (iv_totals x) else 0)" by simp_all
qed

lemma roll_back_shift:
  assumes o: "orders_agree (sales_orders st) xs n" and op: "roll_back st x = Inr st'"
    and le: "\<And>y. y \<in> set (sales_orders st) \<Longrightarrow> iv_order x = Some (so_id y) \<Longrightarrow> grand_total (iv_totals x) \<le> so_invoiced y"
  shows "st' = st\<lparr>sales_orders := sales_orders st'\<rparr>"
    and "shifted (sales_orders st) (sales_orders st') (\<lambda>k. if iv_order x = Some k then - grand_total (iv_totals x) else 0)"
proof -
  from op obtain found where f: "sales_order_by_id st (iv_order x) = Inr found" by (auto simp: roll_back_def)
  note k = order_found [OF o f]
  have "st' = st\<lparr>sales_orders := sales_orders st'\<rparr> \<and>
    shifted (sales_orders st) (sales_orders st') (\<lambda>k. if iv_order x = Some k then - grand_total (iv_totals x) else 0)"
  proof (cases found)
    case None
    with op f k show ?thesis by (auto simp: roll_back_def intro!: shifted_none)
  next
    case (Some y)
    define rest where "rest = max 0 (so_invoiced y - grand_total (iv_totals x))"
    define y' where "y' = y\<lparr>so_invoiced := rest, so_status := (if rest = 0 then S_CONFIRMED else S_PARTIALLY_INVOICED)\<rparr>"
    have rest: "rest = so_invoiced y - grand_total (iv_totals x)" using k Some le [of y] by (simp add: rest_def)
    have st': "st' = st\<lparr>sales_orders := update_where (\<lambda>z. so_id z = so_id y') (\<lambda>_. y') (sales_orders st)\<rparr>"
      using op f Some by (auto simp: roll_back_def save_sales_order_def y'_def Let_def rest_def)
    have y: "y \<in> set (sales_orders st)" "iv_order x = Some (so_id y)" using k Some by simp_all
    have "shifted (sales_orders st) (update_where (\<lambda>z. so_id z = so_id y') (\<lambda>_. y') (sales_orders st))
        (\<lambda>k. if iv_order x = Some k then - grand_total (iv_totals x) else 0)"
      by (rule shifted_one [OF orders_agreeD(1) [OF o] y(1)]) (simp_all add: y'_def y(2) rest)
    then show ?thesis by (simp add: st')
  qed
  then show "st' = st\<lparr>sales_orders := sales_orders st'\<rparr>"
    "shifted (sales_orders st) (sales_orders st') (\<lambda>k. if iv_order x = Some k then - grand_total (iv_totals x) else 0)" by simp_all
qed

section \<open>Invoices\<close>

text \<open>Replacing an invoice by a row of the same identity; the figures may be new.\<close>

lemma payables_edit_bill:
  assumes inv: "payables_inv bs ps as n" and b: "b \<in> set bs" "bi_id b' = bi_id b" "bi_supplier b' = bi_supplier b" "bi_org b' = bi_org b"
    and st: "bi_paid b' = bi_paid b" "status_ok (bi_status b') (bi_paid b') (grand_total (bi_totals b'))"
    "figures_ok (bill_lines_totals b') (bi_totals b')"
  shows "payables_inv (update_where (\<lambda>y. bi_id y = bi_id b') (\<lambda>_. b') bs) ps as n"
proof -
  let ?bs = "update_where (\<lambda>y. bi_id y = bi_id b') (\<lambda>_. b') bs"
  have set: "set ?bs = insert b' (set bs - {b})"
    unfolding b(2) by (rule replace_row [OF payables_invD(1) [OF inv] b(1)])
  have ids: "map bi_id ?bs = map bi_id bs" by (rule map_key_replace [of bi_id]) simp
  have "bill_ok as b'" using payables_invD(5) [OF inv b(1)] b(2) st by (simp add: bill_ok_def)
  moreover have "linked ?bs ps a" if "linked bs ps a" for a
    by (rule linked_mono [OF that]) (use b set in auto)
  ultimately show ?thesis
    using inv ids b(1,2) unfolding payables_inv_def set by auto
qed

lemma invoice_row:
  assumes "receivables_inv st" "x \<in> set (invoices st)"
  shows "figures_ok (invoice_lines_totals (iv_lines x)) (iv_totals x)" "status_ok (as_status (iv_status x)) (iv_paid x) (grand_total (iv_totals x))"
    "iv_id x < sales_id st" "0 \<le> grand_total (iv_totals x)"
proof -
  have b: "as_bill x \<in> set (map as_bill (invoices st))" using assms(2) by simp
  note ok = payables_invD(4,5) [OF assms(1) [unfolded receivables_inv_def] b]
  then show f: "figures_ok (invoice_lines_totals (iv_lines x)) (iv_totals x)" "status_ok (as_status (iv_status x)) (iv_paid x) (grand_total (iv_totals x))"
    "iv_id x < sales_id st"
    unfolding bill_ok_def as_bill_simps by blast+
  show "0 \<le> grand_total (iv_totals x)" using paid_nonneg [OF f(2)] by simp
qed

lemma receivables_edit:
  assumes inv: "receivables_inv st" and x: "x \<in> set (invoices st)" "iv_id x' = iv_id x" "iv_customer x' = iv_customer x" "iv_org x' = iv_org x"
    and s: "iv_paid x' = iv_paid x" "status_ok (as_status (iv_status x')) (iv_paid x') (grand_total (iv_totals x'))"
    "figures_ok (invoice_lines_totals (iv_lines x')) (iv_totals x')"
    and st': "invoices st' = update_where (\<lambda>y. iv_id y = iv_id x') (\<lambda>_. x') (invoices st)" "customer_payments st' = customer_payments st"
    "payment_allocations st' = payment_allocations st" "sales_id st \<le> sales_id st'"
  shows "receivables_inv st'"
proof -
  have m: "map as_bill (update_where (\<lambda>y. iv_id y = iv_id x') (\<lambda>_. x') (invoices st)) =
    update_where (\<lambda>y. bi_id y = bi_id (as_bill x')) (\<lambda>_. as_bill x') (map as_bill (invoices st))"
    by (rule map_replace) simp
  have "payables_inv (map as_bill (invoices st')) (map as_payment (customer_payments st')) (map as_allocation (payment_allocations st')) (sales_id st)"
    unfolding st' m by (rule payables_edit_bill [OF inv [unfolded receivables_inv_def], of "as_bill x"]) (use x s in simp_all)
  then show ?thesis unfolding receivables_inv_def by (rule payables_mono [OF _ st'(4)])
qed

end
