(* ===== verification/Sales_System.thy ===== *)
theory Sales_System
  imports Sales_Invariant
begin

text \<open>
  Sales as a transition system over the receivables sub-ledger and the general ledger: the effect of the
  operations that write invoices and payments, and the preservation of the invariant by every operation of
  the services.
\<close>

section \<open>Posting and cancelling an invoice\<close>

text \<open>An entry posted or reversed for a document of sales, seen from its database.\<close>

lemma sales_set_ledger:
  assumes inv: "purchasing_inv p" and q: "q = set_ledger p l" "stock_inv (stock q)" "fresh_id (stock p) \<le> fresh_id (stock q)"
  shows "purchasing_inv q" and "doc_id p \<le> doc_id q"
proof -
  show "purchasing_inv q"
    by (rule purchasing_frame [OF inv]) (use q in \<open>simp_all add: wh_keys_def\<close>)
  show "doc_id p \<le> doc_id q" using q(3) by (simp add: doc_id_def)
qed

lemma save_invoice_entries:
  assumes "save_invoice st x = Inr st'" "entries_ok (invoices st)"
  shows "entries_ok (invoices st')"
proof -
  have "iv_status x = I_DRAFT \<longleftrightarrow> iv_entry x = None" using assms(1) by (auto simp: save_invoice_def invoice_checks_def bindr_eq_Inr_iff)
  then show ?thesis
    using assms(2) unfolding save_invoice_as_bill(2) [OF assms(1)] by (auto simp: entries_ok_def update_where_def)
qed

lemma roll_forward_orders:
  assumes o: "orders_agree (sales_orders st) xs n" and op: "roll_forward st x' = Inr st'"
    and x: "x \<in> set xs" "distinct (map iv_id xs)" "iv_id x' = iv_id x" "iv_order x' = iv_order x"
      "\<not> invoice_is_posted (iv_status x)" "invoice_is_posted (iv_status x')"
  shows "orders_agree (sales_orders st') (update_where (\<lambda>y. iv_id y = iv_id x') (\<lambda>_. x') xs) n"
proof -
  let ?g = "\<lambda>k. if iv_order x' = Some k then grand_total (iv_totals x') else 0"
  note s = roll_forward_shift(2) [OF o op]
  have "\<And>k. invoiced_on (update_where (\<lambda>y. iv_id y = iv_id x') (\<lambda>_. x') xs) k = invoiced_on xs k + ?g k"
    using invoiced_replaced [OF x(2,1,3)] x(5,6) by (simp add: billed_on_def)
  moreover have "set (update_where (\<lambda>y. iv_id y = iv_id x') (\<lambda>_. x') xs) = insert x' (set xs - {x})"
    unfolding x(3) by (rule replace_row [OF x(2,1)])
  ultimately show ?thesis
    using s x(1,4) orders_agreeD(5) [OF o] by (intro orders_agree_shift [OF o, where g = ?g]) (auto simp: shifted_def)
qed

lemma roll_back_orders:
  assumes o: "orders_agree (sales_orders st) xs n" and op: "roll_back st x' = Inr st'"
    and x: "x \<in> set xs" "distinct (map iv_id xs)" "iv_id x' = iv_id x" "iv_order x' = iv_order x" "iv_totals x' = iv_totals x"
      "invoice_is_posted (iv_status x)" "\<not> invoice_is_posted (iv_status x')"
    and nn: "\<And>y. y \<in> set xs \<Longrightarrow> 0 \<le> grand_total (iv_totals y)"
  shows "orders_agree (sales_orders st') (update_where (\<lambda>y. iv_id y = iv_id x') (\<lambda>_. x') xs) n"
    and "st' = st\<lparr>sales_orders := sales_orders st'\<rparr>" and "map so_id (sales_orders st') = map so_id (sales_orders st)"
proof -
  let ?g = "\<lambda>k. if iv_order x' = Some k then - grand_total (iv_totals x') else 0"
  have le: "grand_total (iv_totals x') \<le> so_invoiced y" if "y \<in> set (sales_orders st)" "iv_order x' = Some (so_id y)" for y
  proof -
    have "billed_on (so_id y) x \<le> invoiced_on xs (so_id y)"
      unfolding invoiced_on_def by (rule member_le_sum_list) (use x(1) nn in \<open>auto simp: billed_on_def\<close>)
    then show ?thesis using that x(4-6) orders_agreeD(4) [OF o that(1)] by (simp add: billed_on_def)
  qed
  note s = roll_back_shift [OF o op le]
  have "\<And>k. invoiced_on (update_where (\<lambda>y. iv_id y = iv_id x') (\<lambda>_. x') xs) k = invoiced_on xs k + ?g k"
    using invoiced_replaced [OF x(2,1,3)] x(4-7) by (simp add: billed_on_def)
  moreover have "set (update_where (\<lambda>y. iv_id y = iv_id x') (\<lambda>_. x') xs) = insert x' (set xs - {x})"
    unfolding x(3) by (rule replace_row [OF x(2,1)])
  ultimately show "orders_agree (sales_orders st') (update_where (\<lambda>y. iv_id y = iv_id x') (\<lambda>_. x') xs) n"
    using s(2) x(1,4) orders_agreeD(5) [OF o] by (intro orders_agree_shift [OF o, where g = ?g]) (auto simp: shifted_def)
  show "st' = st\<lparr>sales_orders := sales_orders st'\<rparr>" by (rule s(1))
  show "map so_id (sales_orders st') = map so_id (sales_orders st)" using s(2) by (simp add: shifted_def)
qed

lemma post_invoice_effect:
  assumes inv: "sales_inv st" and op: "post_invoice hs st org i actor now = Inr (st', x')"
  obtains x e where "x \<in> set (invoices st)" "iv_id x = i" "iv_org x = org" "iv_status x = I_DRAFT" "0 < grand_total (iv_totals x)"
    "x' = x\<lparr>iv_status := I_POSTED, iv_entry := Some (e_id e), iv_posted_at := Some now\<rparr>" "iv_paid x = 0"
    "e \<in> set (entries (sales_ledger st'))" "is_posted e" "\<And>a. entry_net a e = invoice_net st org x a"
    "\<And>a. ledger_net (sales_ledger st') a = ledger_net (sales_ledger st) a + invoice_net st org x a" "sales_inv st'"
    "invoices st' = update_where (\<lambda>y. iv_id y = iv_id x') (\<lambda>_. x') (invoices st)" "customer_payments st' = customer_payments st"
    "payment_allocations st' = payment_allocations st"
    "shifted (sales_orders st) (sales_orders st') (\<lambda>k. if iv_order x = Some k then grand_total (iv_totals x) else 0)"
proof -
  from op obtain x d q e st1 st2 where x: "get_invoice st org i = Inr x"
    and nd: "\<not> invoice_is_posted (iv_status x)" "iv_status x \<noteq> I_CANCELLED" "0 < grand_total (iv_totals x)"
    and d: "invoice_entry st org x = Inr d"
    and pe: "post_document_entry hs (purchasing st) org d actor ''invoice'' (iv_id x) now = Inr (q, e)"
    and x': "x' = x\<lparr>iv_status := I_POSTED, iv_entry := Some (e_id e), iv_posted_at := Some now\<rparr>"
    and sv: "save_invoice (st\<lparr>purchasing := q\<rparr>) x' = Inr st1" and ro: "roll_forward st1 x' = Inr st2"
    and st': "st' = audit_sales st2 INVOICE_POSTED INFO actor org ''invoice'' (iv_id x)"
    unfolding post_invoice_def Let_def by auto
  have draft: "iv_status x = I_DRAFT" using nd(1,2) by (cases "iv_status x") (simp_all add: invoice_is_posted_def)
  note xk = get_invoice_ok [OF x] and rinv = sales_invD(2) [OF inv]
  note row = invoice_row [OF rinv conjunct1 [OF xk]]
  have paid: "iv_paid x = 0" using row(2) draft by simp
  note en = invoice_entry_ok [OF row(1) nd(3) d]
  have st1: "st1 = st\<lparr>purchasing := q, invoices := update_where (\<lambda>y. iv_id y = iv_id x') (\<lambda>_. x') (invoices st)\<rparr>"
    using save_invoice_as_bill(2) [OF sv] by simp
  have sinv: "stock_inv (stock (purchasing st))" by (rule purchasing_invD(1) [OF sales_invD(1) [OF inv]])
  show thesis
    using post_document_entry_effect [OF sinv pe en(3)]
  proof cases
    case (1 l)
    note qi = sales_set_ledger [OF sales_invD(1) [OF inv] 1(1-3)]
    have net: "entry_net a e = invoice_net st org x a" for a
      using 1(8) [of a] en(2) [of a] by (simp add: lines_net_def)
    note o = orders_mono [OF sales_invD(3) [OF inv] qi(2) [folded sales_id_def]]
    have o1: "orders_agree (sales_orders st1) (invoices st) (doc_id q)" using o by (simp add: st1)
    note rf = roll_forward_shift [OF o1 ro]
    have same: "iv_order x' = iv_order x" "iv_totals x' = iv_totals x" by (simp_all add: x')
    define os where "os = sales_orders st2"
    have st2: "st2 = st1\<lparr>sales_orders := os\<rparr>" unfolding os_def by (rule rf(1))
    have o2: "orders_agree os (invoices st1) (doc_id q)"
      using roll_forward_orders [OF o1 ro conjunct1 [OF xk] invoice_ids [OF rinv]] nd(1) by (simp add: os_def st1 x' invoice_is_posted_def)
    have r2: "receivables_inv st2"
      by (rule receivables_edit [OF rinv conjunct1 [OF xk], of x'])
        (use row paid nd(3) qi(2) in \<open>simp_all add: st2 x' st1 sales_id_def\<close>)
    have "sales_inv st2"
      using qi r2 o2 quotes_mono [OF sales_invD(4) [OF inv]] save_invoice_entries [OF sv] sales_invD(5) [OF inv]
      by (simp add: sales_inv_def st2 st1 sales_id_def)
    then have inv': "sales_inv st'" unfolding st' by (rule sales_audit)
    have "entries (sales_ledger st') = entries l" by (simp add: st' st2 st1 1(1) ledger_def)
    moreover have "ledger_net (sales_ledger st') = ledger_net l" by (rule ledger_net_entries) (fact calculation)
    moreover have "invoices st' = update_where (\<lambda>y. iv_id y = iv_id x') (\<lambda>_. x') (invoices st)"
        "customer_payments st' = customer_payments st" "payment_allocations st' = payment_allocations st"
        "shifted (sales_orders st) (sales_orders st') (\<lambda>k. if iv_order x = Some k then grand_total (iv_totals x) else 0)"
      using rf(2) [unfolded same] by (simp_all add: st' st2 st1 x')
    ultimately show thesis
      using xk draft nd(3) paid net inv' 1 by (intro that [of x e]) (simp_all add: x')
  qed
qed

lemma cancel_invoice_effect:
  assumes inv: "sales_inv st" and op: "cancel_invoice hs st org i reason cd actor now = Inr (st', x')"
  obtains x j original where "x \<in> set (invoices st)" "iv_id x = i" "iv_org x = org" "invoice_is_posted (iv_status x)" "iv_paid x = 0"
    "iv_entry x = Some j" "original \<in> set (entries (sales_ledger st))" "e_id original = j" "iv_status x' = I_CANCELLED"
    "iv_id x' = iv_id x" "iv_org x' = iv_org x" "\<And>a. ledger_net (sales_ledger st') a = ledger_net (sales_ledger st) a - entry_net a original" "sales_inv st'"
    "invoices st' = update_where (\<lambda>y. iv_id y = iv_id x') (\<lambda>_. x') (invoices st)" "customer_payments st' = customer_payments st"
    "map so_id (sales_orders st') = map so_id (sales_orders st)"
proof -
  from op obtain x where x: "get_invoice st org i = Inr x" and nc: "iv_status x \<noteq> I_CANCELLED" "\<not> 0 < iv_paid x"
    by (auto simp: cancel_invoice_def)
  note xk = get_invoice_ok [OF x] and rinv = sales_invD(2) [OF inv]
  note row = invoice_row [OF rinv conjunct1 [OF xk]]
  have paid: "iv_paid x = 0" using paid_nonneg [OF row(2)] nc(2) by simp
  have nd: "iv_status x \<noteq> I_DRAFT"
  proof
    assume d: "iv_status x = I_DRAFT"
    then have "iv_entry x = None" using sales_invD(5) [OF inv] xk by (simp add: entries_ok_def)
    with op x nc d show False by (auto simp: cancel_invoice_def Let_def save_invoice_def invoice_checks_def bindr_eq_Inr_iff)
  qed
  then have posted: "invoice_is_posted (iv_status x)" using nc(1) by (cases "iv_status x") (simp_all add: invoice_is_posted_def)
  from op x nc nd obtain j q e st1 st2 where j: "iv_entry x = Some j"
    and re: "reverse_document_entry hs (purchasing st) org j actor cd (''Cancellation of '' @ iv_number x @ '': '' @ reason) now = Inr (q, e)"
    and x': "x' = x\<lparr>iv_status := I_CANCELLED, iv_cancelled_at := Some now, iv_reversal := Some (e_id e)\<rparr>"
    and sv: "save_invoice (st\<lparr>purchasing := q\<rparr>) x' = Inr st1" and ro: "roll_back st1 x' = Inr st2"
    and st': "st' = audit_sales st2 INVOICE_CANCELLED WARNING actor org ''invoice'' (iv_id x)"
    by (auto simp: cancel_invoice_def Let_def split: option.splits)
  have st1: "st1 = st\<lparr>purchasing := q, invoices := update_where (\<lambda>y. iv_id y = iv_id x') (\<lambda>_. x') (invoices st)\<rparr>"
    using save_invoice_as_bill(2) [OF sv] by simp
  have sinv: "stock_inv (stock (purchasing st))" by (rule purchasing_invD(1) [OF sales_invD(1) [OF inv]])
  show thesis
    using reverse_document_entry_effect [OF sinv re]
  proof cases
    case (1 l original)
    note qi = sales_set_ledger [OF sales_invD(1) [OF inv] 1(1-3)]
    have o1: "orders_agree (sales_orders st1) (invoices st) (doc_id q)"
      using orders_mono [OF sales_invD(3) [OF inv] qi(2) [folded sales_id_def]] by (simp add: st1)
    define os where "os = sales_orders st2"
    have rb: "orders_agree os (update_where (\<lambda>y. iv_id y = iv_id x') (\<lambda>_. x') (invoices st)) (doc_id q)" "st2 = st1\<lparr>sales_orders := os\<rparr>"
      "map so_id os = map so_id (sales_orders st1)"
      unfolding os_def
      by (rule roll_back_orders [OF o1 ro conjunct1 [OF xk] invoice_ids [OF rinv]],
          use posted invoice_row(4) [OF rinv] in \<open>simp_all add: x' invoice_is_posted_def\<close>)+
    note st2 = rb(2)
    have r2: "receivables_inv st2"
      by (rule receivables_edit [OF rinv conjunct1 [OF xk], of x'])
        (use row paid qi(2) in \<open>simp_all add: st2 x' st1 sales_id_def\<close>)
    have "sales_inv st2"
      using qi r2 rb(1) quotes_mono [OF sales_invD(4) [OF inv]] save_invoice_entries [OF sv] sales_invD(5) [OF inv]
      by (simp add: sales_inv_def st2 st1 sales_id_def)
    then have inv': "sales_inv st'" unfolding st' by (rule sales_audit)
    have "entries (sales_ledger st') = entries l" by (simp add: st' st2 st1 1(1) ledger_def)
    then have "ledger_net (sales_ledger st') = ledger_net l" by (rule ledger_net_entries)
    moreover have "invoices st' = update_where (\<lambda>y. iv_id y = iv_id x') (\<lambda>_. x') (invoices st)" "customer_payments st' = customer_payments st"
      "map so_id (sales_orders st') = map so_id (sales_orders st)"
      using rb(3) by (simp_all add: st' st2 st1)
    ultimately show thesis
      using xk posted paid j inv' 1 by (intro that [of x j original]) (simp_all add: x')
  qed
qed

section \<open>Creating, editing and deleting drafts\<close>

lemma invoiced_snoc: "invoiced_on (xs @ [x]) k = invoiced_on xs k + billed_on k x"
  by (simp add: invoiced_on_def)

lemma add_invoice_inv:
  assumes inv: "sales_inv st" and op: "add_invoice st x = Inr st'" and x: "iv_id x = sales_id st" "iv_status x = I_DRAFT" "iv_paid x = 0"
    and f: "figures_ok (invoice_lines_totals (iv_lines x)) (iv_totals x)"
  shows "sales_inv st'"
proof -
  from op have c: "invoice_checks st x = Inr ()" and st': "st' = (take_sales_id st)\<lparr>invoices := invoices st @ [x]\<rparr>"
    by (auto simp: add_invoice_def)
  have d: "0 \<le> grand_total (iv_totals x)" "iv_entry x = None" "fk_ok (iv_order x) (map so_id (sales_orders st))"
    using c x(2) document_checksD(1) by (auto simp: invoice_checks_def bindr_eq_Inr_iff)
  have "payables_inv (map as_bill (invoices st) @ [as_bill x]) (map as_payment (customer_payments st))
      (map as_allocation (payment_allocations st)) (sales_id st + 1)"
    by (rule payables_new_bill [OF sales_invD(2) [OF inv, unfolded receivables_inv_def]]) (use x f d in simp_all)
  then have r: "receivables_inv st'" by (simp add: receivables_inv_def st' sales_id_def doc_id_def)
  have "billed_on k x = 0" for k using x(2) by (simp add: billed_on_def invoice_is_posted_def)
  then have "orders_agree (sales_orders st) (invoices st @ [x]) (sales_id st + 1)"
    using sales_invD(3) [OF inv] d(3) unfolding orders_agree_def by (fastforce simp: invoiced_snoc fk_ok_def split: option.splits)
  moreover have "entries_ok (invoices st @ [x])" using sales_invD(5) [OF inv] d(2) x(2) by (simp add: entries_ok_def)
  moreover have "quotes_ok (quotations st) (sales_id st + 1)" by (rule quotes_mono [OF sales_invD(4) [OF inv]]) simp
  ultimately show ?thesis
    using r purchasing_take [OF sales_invD(1) [OF inv]] by (simp add: sales_inv_def st' sales_id_def doc_id_def)
qed

lemma create_invoice_inv:
  assumes inv: "sales_inv st" and v: "validate_invoice_create d = Inr ()"
    and op: "create_invoice hs st org d actor today gstin now = Inr (st', x')"
  shows "sales_inv st'"
proof -
  from op obtain c st1 number due where c: "active_customer st org (ic_customer d) = Inr c"
    and n: "sales_number st org ''invoice'' ''INV'' today = Inr (st1, number)"
    and due: "(case ic_due d of Some x \<Rightarrow> Inr x
      | None \<Rightarrow> customer_due_date c (case ic_date d of Some x \<Rightarrow> x | None \<Rightarrow> today)) = Inr due"
    by (auto simp: create_invoice_def Let_def)
  let ?tr = "customer_treatment gstin c"
  let ?on = "case ic_date d of Some x \<Rightarrow> x | None \<Rightarrow> today"
  define x where "x = \<lparr>iv_id = sales_id st1, iv_org = org, iv_number = number, iv_customer = cu_id c, iv_order = ic_order d,
      iv_date = ?on, iv_due = due,
      iv_status = I_DRAFT, iv_paid = 0, iv_entry = None, iv_posted_at = None, iv_cancelled_at = None,
      iv_reversal = None, iv_gstin = cu_gstin c, iv_place = cu_state_code c, iv_treatment = ?tr,
      iv_currency = cu_currency c, iv_totals = sales_totals_of ?tr (ic_lines d) (ic_round_to_whole d),
      iv_created_by = actor, iv_deleted = None, iv_lines = invoice_rows ?tr (ic_lines d)\<rparr>"
  have "bindr (add_invoice st1 x) (\<lambda>st2.
       if ic_post d then post_invoice hs (audit_sales st2 INVOICE_CREATED INFO actor org ''invoice'' (iv_id x)) org (iv_id x) actor now
       else Inr (audit_sales st2 INVOICE_CREATED INFO actor org ''invoice'' (iv_id x), x)) = Inr (st', x')"
    using op c n due unfolding create_invoice_def Let_def x_def by (elim bindr_InrE) (auto split: if_splits)
  then obtain st2 where add: "add_invoice st1 x = Inr st2"
    and rest: "(if ic_post d then post_invoice hs (audit_sales st2 INVOICE_CREATED INFO actor org ''invoice'' (iv_id x)) org (iv_id x) actor now
       else Inr (audit_sales st2 INVOICE_CREATED INFO actor org ''invoice'' (iv_id x), x)) = Inr (st', x')"
    by (elim bindr_InrE)
  have x: "iv_id x = sales_id st1" "iv_status x = I_DRAFT" "iv_paid x = 0"
      "iv_totals x = sales_totals_of ?tr (ic_lines d) (ic_round_to_whole d)" "iv_lines x = invoice_rows ?tr (ic_lines d)"
    by (simp_all add: x_def)
  have chk: "document_checks (iv_totals x) = Inr ()" using add by (auto simp: add_invoice_def invoice_checks_def)
  have "validate_sales_lines (ic_lines d) = Inr ()" using v by (auto simp: validate_invoice_create_def)
  from invoice_figures [OF this chk [unfolded x(4)]]
  have "sales_inv st2" using x by (intro add_invoice_inv [OF sales_number_inv [OF inv n] add]) simp_all
  then have inv2: "sales_inv (audit_sales st2 INVOICE_CREATED INFO actor org ''invoice'' (iv_id x))" by (rule sales_audit)
  show ?thesis
  proof (cases "ic_post d")
    case True
    with rest have "post_invoice hs (audit_sales st2 INVOICE_CREATED INFO actor org ''invoice'' (iv_id x)) org (iv_id x) actor now = Inr (st', x')"
      by simp
    then show ?thesis by (rule post_invoice_effect [OF inv2])
  next
    case False
    with rest inv2 show ?thesis by auto
  qed
qed

text \<open>A draft may be edited or deleted: no posted amount is involved.\<close>

lemma save_draft_inv:
  assumes inv: "sales_inv st" and op: "save_invoice st x' = Inr st'" and x: "x \<in> set (invoices st)" "iv_status x = I_DRAFT"
    and s: "iv_id x' = iv_id x" "iv_customer x' = iv_customer x" "iv_org x' = iv_org x" "iv_order x' = iv_order x" "iv_paid x' = iv_paid x"
      "iv_status x' = I_DRAFT" "figures_ok (invoice_lines_totals (iv_lines x')) (iv_totals x')"
  shows "sales_inv st'"
proof -
  let ?xs = "update_where (\<lambda>y. iv_id y = iv_id x') (\<lambda>_. x') (invoices st)"
  note st' = save_invoice_as_bill(2) [OF op] and rinv = sales_invD(2) [OF inv]
  have "document_checks (iv_totals x') = Inr ()" using op by (auto simp: save_invoice_def invoice_checks_def)
  then have "0 \<le> grand_total (iv_totals x')" by (rule document_checksD(1))
  moreover have "iv_paid x = 0" using invoice_row(2) [OF rinv x(1)] x(2) by simp
  ultimately have r: "receivables_inv st'"
    by (intro receivables_edit [OF rinv x(1), of x']) (use s in \<open>simp_all add: st' sales_id_def\<close>)
  have "invoiced_on ?xs k = invoiced_on (invoices st) k" for k
    using invoiced_replaced [OF invoice_ids [OF rinv] x(1) s(1)] x(2) s(6) by (simp add: billed_on_def invoice_is_posted_def)
  moreover have "set ?xs = insert x' (set (invoices st) - {x})" unfolding s(1) by (rule replace_row [OF invoice_ids [OF rinv] x(1)])
  ultimately have "orders_agree (sales_orders st) ?xs (sales_id st)"
    using sales_invD(3) [OF inv] s(4) x(1) unfolding orders_agree_def by auto
  with r save_invoice_entries [OF op sales_invD(5) [OF inv]] sales_invD(1,4) [OF inv] show ?thesis
    by (simp add: sales_inv_def st' sales_id_def)
qed

lemma redated_same:
  assumes "redated st org x d = Inr x'"
  shows "iv_id x' = iv_id x" "iv_customer x' = iv_customer x" "iv_org x' = iv_org x" "iv_order x' = iv_order x" "iv_paid x' = iv_paid x"
    "iv_status x' = iv_status x" "iv_lines x' = iv_lines x" "iv_totals x' = iv_totals x"
  using assms by (auto simp: redated_def split: option.splits if_splits)

lemma update_invoice_inv:
  assumes inv: "sales_inv st" and v: "validate_invoice_update d = Inr ()" and op: "update_invoice st org i d gstin = Inr (st', x')"
  shows "sales_inv st'"
proof -
  from op obtain x x1 where x: "get_invoice st org i = Inr x" "iv_status x = I_DRAFT" and x1: "redated st org x d = Inr x1"
    and sv: "save_invoice st x' = Inr st'"
    and l: "(case id_lines d of
              None \<Rightarrow> Inr x1
            | Some ins \<Rightarrow>
                bindr (active_customer st org (iv_customer x)) (\<lambda>c.
                Inr (x1\<lparr>iv_lines := invoice_rows (customer_treatment gstin c) ins, iv_treatment := customer_treatment gstin c,
                        iv_totals := sales_totals_of (customer_treatment gstin c) ins (rounds_whole (id_round_to_whole d) (iv_totals x))\<rparr>))) = Inr x'"
    unfolding update_invoice_def Let_def invoice_is_editable_def by auto
  note xk = get_invoice_ok [OF x(1)] and same = redated_same [OF x1]
  have chk: "document_checks (iv_totals x') = Inr ()" using sv by (auto simp: save_invoice_def invoice_checks_def)
  have f: "figures_ok (invoice_lines_totals (iv_lines x')) (iv_totals x')"
  proof (cases "id_lines d")
    case None
    with l same invoice_row(1) [OF sales_invD(2) [OF inv] conjunct1 [OF xk]] show ?thesis by simp
  next
    case (Some ins)
    with v have "validate_sales_lines ins = Inr ()" by (simp add: validate_invoice_update_def)
    from invoice_figures [OF this] chk l Some show ?thesis by auto
  qed
  have "iv_id x' = iv_id x1" "iv_customer x' = iv_customer x1" "iv_org x' = iv_org x1" "iv_order x' = iv_order x1" "iv_paid x' = iv_paid x1"
    "iv_status x' = iv_status x1" using l by (auto split: option.splits)
  then show ?thesis using same x(2) xk f by (intro save_draft_inv [OF inv sv, of x]) simp_all
qed

lemma delete_draft_invoice_inv:
  assumes inv: "sales_inv st" and op: "delete_draft_invoice st org i actor now = Inr st'"
  shows "sales_inv st'"
proof -
  from op obtain x st1 where x: "get_invoice st org i = Inr x" "iv_status x = I_DRAFT"
    and sv: "save_invoice st (x\<lparr>iv_deleted := Some now\<rparr>) = Inr st1"
    and st': "st' = audit_sales st1 INVOICE_DELETED INFO actor org ''invoice'' (iv_id x)"
    by (auto simp: delete_draft_invoice_def)
  note xk = get_invoice_ok [OF x(1)]
  have "sales_inv st1"
    by (rule save_draft_inv [OF inv sv conjunct1 [OF xk] x(2)])
      (use x(2) invoice_row(1) [OF sales_invD(2) [OF inv] conjunct1 [OF xk]] in simp_all)
  then show ?thesis unfolding st' by (rule sales_audit)
qed

end
