(* ===== verification/Sales_Payments.thy ===== *)
theory Sales_Payments
  imports Sales_System
begin

text \<open>
  Payments received: their allocation to invoices, by hand or oldest invoice first, and the receipt that
  posts them, and that each of these operations keeps the invariant of sales.
\<close>

section \<open>Allocating a payment\<close>

lemma settled_orders:
  assumes "orders_agree os xs n" "map invoice_key ys = map invoice_key xs"
  shows "orders_agree os ys n"
proof -
  define f where "f = (\<lambda>(i :: uuid, q :: uuid option, t :: document_totals, p, d :: bool, e :: uuid option) k. if q = Some k \<and> p then grand_total t else 0)"
  have b: "billed_on k x = f (invoice_key x) k" for k x by (simp add: f_def billed_on_def invoice_key_def)
  have "invoiced_on zs k = sum_list (map (\<lambda>y. f y k) (map invoice_key zs))" for zs k
    by (simp add: invoiced_on_def b [abs_def] o_def)
  then have "invoiced_on ys k = invoiced_on xs k" for k by (simp only: assms(2))
  moreover have "map iv_order zs = map (\<lambda>y. fst (snd y)) (map invoice_key zs)" for zs by (simp add: invoice_key_def)
  then have "map iv_order ys = map iv_order xs" by (simp only: assms(2))
  then have "set (map iv_order ys) = set (map iv_order xs)" by (rule arg_cong)
  then have im: "iv_order ` set ys = iv_order ` set xs" by (simp only: list.set_map)
  have "k \<in> so_id ` set os" if "y \<in> set ys" "iv_order y = Some k" for y k
  proof -
    have "Some k \<in> iv_order ` set xs" using that im by force
    then show ?thesis using orders_agreeD(5) [OF assms(1)] by force
  qed
  ultimately show ?thesis using assms(1) unfolding orders_agree_def by simp
qed

lemma settled_entries:
  assumes "entries_ok xs" "map invoice_key ys = map invoice_key xs"
  shows "entries_ok ys"
proof -
  have ok: "entries_ok zs \<longleftrightarrow> (\<forall>(i, q, t, p, d, e) \<in> set (map invoice_key zs). d \<longleftrightarrow> e = None)" for zs
    by (simp add: entries_ok_def invoice_key_def)
  show ?thesis using assms(1) unfolding ok assms(2) .
qed

text \<open>What customers owe an organization: posted invoices not yet paid, less payments not yet allocated.\<close>

definition receivable :: "'h sales_db \<Rightarrow> uuid \<Rightarrow> decimal" where
  "receivable st org =
     sum_list (map invoice_outstanding (filter (\<lambda>x. iv_org x = org \<and> invoice_is_posted (iv_status x)) (invoices st))) -
     sum_list (map py_unallocated (filter (\<lambda>p. py_org p = org) (customer_payments st)))"

lemma sum_filtered: "sum_list (map f (filter P xs)) = sum_list (map (\<lambda>x. if P x then f x else (0 :: decimal)) xs)"
  by (induction xs) simp_all

lemma receivable_owed: "receivable st = owed (map as_bill (invoices st)) (map as_payment (customer_payments st))"
  by (simp add: fun_eq_iff receivable_def owed_def sum_filtered bill_due_def [abs_def] payment_left_def [abs_def] o_def cong: if_cong)

lemma get_customer_payment_ok:
  "get_customer_payment st org i = Inr p \<Longrightarrow> p \<in> set (customer_payments st) \<and> py_id p = i \<and> py_org p = org"
  by (auto simp: get_customer_payment_def split: option.splits dest: scalar_one_or_none_Some)

lemma existing_linked:
  assumes "i \<in> set (map pa_invoice (filter (\<lambda>a. pa_payment a = k) as))"
  shows "(k, i) \<in> allocation_key ` set (map as_allocation as)"
  using assms by (force simp: allocation_key_def)

lemma apply_to_invoices_effect:
  assumes inv: "sales_inv st" and p: "p \<in> set (customer_payments st)" "py_org p = org" and pos: "\<forall>(i, x) \<in> set as. 0 < x"
    and op: "apply_to_invoices st org p as actor = Inr (st', p')"
  shows "sales_inv st' \<and> p' = p\<lparr>py_unallocated := py_unallocated p - sum_list (map snd as)\<rparr> \<and>
    customer_payments st' = update_where (\<lambda>y. py_id y = py_id p') (\<lambda>_. p') (customer_payments st) \<and>
    quiet (stock (purchasing st)) (stock (purchasing st')) \<and> receivable st' = receivable st"
proof -
  define existing where "existing = map pa_invoice (filter (\<lambda>a. pa_payment a = py_id p) (payment_allocations st))"
  from op obtain st1 where le: "sum_list (map snd as) \<le> py_unallocated p"
    and each: "settle_each st org existing p as = Inr (st1, p')"
    and st': "st' = audit_sales (st1\<lparr>customer_payments := update_where (\<lambda>y. py_id y = py_id p') (\<lambda>_. p') (customer_payments st1)\<rparr>)
      PAYMENT_ALLOCATED INFO actor org ''payment'' (py_id p)"
    unfolding apply_to_invoices_def Let_def existing_def by (auto simp: save_customer_payment_def)
  note rinv = sales_invD(2) [OF inv] and view = receivables_view [OF inv]
  have s: "apply_each (as_purchasing st) org existing (as_payment p) as = Inr (as_purchasing st1, as_payment p')" "settled st st1"
    "p' = p\<lparr>py_unallocated := py_unallocated p'\<rparr>"
    using settle_each_as [OF invoice_ids [OF rinv] each] by blast+
  note pinv = purchasing_invD(3) [OF view]
  have mem: "as_payment p \<in> set (payments (as_purchasing st))" using p(1) by simp
  have self: "hold (as_payment p) (payments (as_purchasing st)) = payments (as_purchasing st)"
    by (rule hold_self [OF payables_invD(2) [OF pinv] mem])
  have "loop_inv (as_purchasing st) existing (as_payment p)"
    using pinv existing_linked [of _ "py_id p" "payment_allocations st"] imageI [OF mem, of sp_id]
    unfolding loop_inv_def self existing_def by simp
  note e = apply_each_effect [OF this pos _ _ s(1), simplified, OF le p(2)]
  have id: "py_id p' = py_id p" by (subst s(3)) simp
  from s(2) obtain k xs al where k: "st1 = st\<lparr>purchasing := (purchasing st)\<lparr>stock := k\<rparr>, invoices := xs, payment_allocations := al\<rparr>"
    "map invoice_key xs = map invoice_key (invoices st)" unfolding settled_def by blast
  have q: "quiet (stock (purchasing st)) k" using e by (simp add: k(1))
  have un: "py_unallocated p' = py_unallocated p - sum_list (map snd as)" using e by simp
  have held: "hold (as_payment p') (map as_payment (customer_payments st)) =
      map as_payment (update_where (\<lambda>y. py_id y = py_id p') (\<lambda>_. p') (customer_payments st))"
    unfolding hold_def by (rule map_replace [symmetric]) simp
  define st2 where "st2 = st1\<lparr>customer_payments := update_where (\<lambda>y. py_id y = py_id p') (\<lambda>_. p') (customer_payments st1)\<rparr>"
  have "payables_inv (bills (as_purchasing st1)) (hold (as_payment p') (payments (as_purchasing st1))) (allocations (as_purchasing st1))
      (doc_id (as_purchasing st1))"
    using e unfolding loop_inv_def by blast
  then have r2: "receivables_inv st2"
    using held by (simp add: receivables_inv_def st2_def k(1) sales_id_def)
  have mono: "doc_id (purchasing st) \<le> doc_id ((purchasing st)\<lparr>stock := k\<rparr>)" using q by (simp add: quiet_def doc_id_def)
  have "purchasing_inv ((purchasing st)\<lparr>stock := k\<rparr>)"
    by (rule purchasing_quiet [OF sales_invD(1) [OF inv]]) (use q in simp_all)
  moreover have "orders_agree (sales_orders st) xs (sales_id st)" by (rule settled_orders [OF sales_invD(3) [OF inv] k(2)])
  ultimately have "sales_inv st2"
    using r2 settled_entries [OF sales_invD(5) [OF inv] k(2)] mono orders_mono quotes_mono [OF sales_invD(4) [OF inv]]
    by (auto simp: sales_inv_def st2_def k(1) sales_id_def)
  then have "sales_inv st'" unfolding st' st2_def by (rule sales_audit)
  moreover have "receivable st' = receivable st"
    using e held self unfolding receivable_owed st' by (simp add: k(1))
  moreover have "quiet (stock (purchasing st)) (stock (purchasing st'))" using q by (auto simp: st' k(1) intro: quiet_trans [OF _ quiet_audit])
  ultimately show ?thesis using s(3) un by (simp add: st' k(1))
qed

section \<open>Oldest invoice first\<close>

text \<open>The plan of \<^verbatim>\<open>auto_allocate\<close>: positive amounts, at most what each invoice has outstanding, in the order given.\<close>

lemma plan_positive: "\<forall>(i, x) \<in> set (allocation_plan r xs). 0 < x"
  by (induction r xs rule: allocation_plan.induct) (auto simp: Let_def)

lemma plan_total:
  assumes "\<forall>x \<in> set xs. 0 \<le> invoice_outstanding x" "0 \<le> r"
  shows "sum_list (map snd (allocation_plan r xs)) = min r (sum_list (map invoice_outstanding xs))"
  using assms
proof (induction r xs rule: allocation_plan.induct)
  case (2 r x xs)
  have nn: "0 \<le> sum_list (map invoice_outstanding xs)" using 2(3) by (intro sum_list_nonneg) auto
  show ?case
  proof (cases "r \<le> 0")
    case True
    then show ?thesis using 2(3,4) nn by (simp add: min_def)
  next
    case r: False
    show ?thesis
    proof (cases "0 < min r (invoice_outstanding x)")
      case True
      have "sum_list (map snd (allocation_plan (r - min r (invoice_outstanding x)) xs)) =
          min (r - min r (invoice_outstanding x)) (sum_list (map invoice_outstanding xs))"
        by (rule 2(1) [OF r refl True]) (use 2(3) in simp_all)
      then show ?thesis using r True nn by (simp add: Let_def min_def)
    next
      case False
      then have z: "invoice_outstanding x = 0" using r 2(3) by (auto simp: min_def split: if_splits)
      have "sum_list (map snd (allocation_plan r xs)) = min r (sum_list (map invoice_outstanding xs))"
        by (rule 2(2) [OF r refl False]) (use 2(3,4) in simp_all)
      then show ?thesis using r z by simp
    qed
  qed
qed simp

lemma auto_allocate_effect:
  assumes inv: "sales_inv st" and op: "auto_allocate st org i actor = Inr (st', p')"
  obtains p where "p \<in> set (customer_payments st)" "py_id p = i" "py_org p = org" "sales_inv st'" "receivable st' = receivable st"
    "p' = p\<lparr>py_unallocated := py_unallocated p - sum_list (map snd (allocation_plan (py_unallocated p) (outstanding_for_customer st org (py_customer p))))\<rparr>"
    "quiet (stock (purchasing st)) (stock (purchasing st'))"
proof -
  from op obtain p where p: "get_customer_payment st org i = Inr p" by (auto simp: auto_allocate_def)
  note pk = get_customer_payment_ok [OF p]
  let ?plan = "allocation_plan (py_unallocated p) (outstanding_for_customer st org (py_customer p))"
  have nn: "0 \<le> py_unallocated p"
    using payables_invD(7) [OF sales_invD(2) [OF inv, unfolded receivables_inv_def], of "as_payment p"] pk by (simp add: payment_ok_def)
  show thesis
  proof (cases "?plan = []")
    case True
    then have "st' = st" "p' = p" using op p by (auto simp: auto_allocate_def Let_def split: if_splits)
    then show thesis using True pk inv by (intro that [of p]) simp_all
  next
    case False
    then have "\<not> py_unallocated p \<le> 0" by (cases "outstanding_for_customer st org (py_customer p)") auto
    with False op p have a: "apply_to_invoices st org p ?plan actor = Inr (st', p')" by (simp add: auto_allocate_def Let_def)
    note e = apply_to_invoices_effect [OF inv _ _ plan_positive a]
    show thesis by (rule that [of p]) (use pk e in blast)+
  qed
qed

section \<open>Recording a payment\<close>

lemma record_payment_effect:
  assumes inv: "sales_inv st" and v: "validate_payment_received d = Inr ()"
    and op: "record_payment hs st org d actor today now = Inr (st', p')"
  obtains ar deposit where "resolve_system_account (sales_ledger st) org ''accounts_receivable'' = Inr ar"
    "resolve_deposit_account st org d = Inr deposit" "a_id deposit \<noteq> a_id ar"
    "\<And>a. ledger_net (sales_ledger st') a = ledger_net (sales_ledger st) a + pair_net (a_id deposit) (a_id ar) (rp_amount d) a"
    "receivable st' org = receivable st org - rp_amount d" "sales_inv st'" "py_amount p' = rp_amount d"
    "py_unallocated p' = rp_amount d - sum_list (map snd (rp_allocations d))"
proof -
  from op obtain c deposit st1 number where c: "active_customer st org (rp_customer d) = Inr c"
    and dep: "resolve_deposit_account st org d = Inr deposit"
    and n: "sales_number st org ''payment'' ''RCP'' today = Inr (st1, number)"
    by (auto simp: record_payment_def)
  define p where "p = \<lparr>py_id = sales_id st1, py_org = org, py_number = number, py_customer = cu_id c,
      py_date = (case rp_date d of Some x \<Rightarrow> x | None \<Rightarrow> today), py_amount = rp_amount d,
      py_unallocated = rp_amount d, py_method = rp_method d, py_reference = rp_reference d,
      py_currency = cu_currency c, py_deposit = Some (a_id deposit), py_entry = None, py_created_by = actor, py_deleted = None\<rparr>"
  have "bindr (add_customer_payment st1 p) (\<lambda>st2.
     bindr (post_customer_receipt hs st2 org p c deposit actor now) (\<lambda>(st3, e).
     bindr (save_customer_payment st3 (p\<lparr>py_entry := Some (e_id e)\<rparr>)) (\<lambda>st4.
     bindr (if rp_allocations d \<noteq> [] then apply_to_invoices st4 org (p\<lparr>py_entry := Some (e_id e)\<rparr>) (rp_allocations d) actor
            else Inr (st4, p\<lparr>py_entry := Some (e_id e)\<rparr>)) (\<lambda>(st5, p2).
     Inr (audit_sales st5 PAYMENT_RECEIVED INFO actor org ''payment'' (py_id p), p2))))) = Inr (st', p')"
    using op unfolding record_payment_def Let_def c dep n bindr_Inr prod.case p_def by assumption
  then obtain st2 st3 e st4 st5 where add: "add_customer_payment st1 p = Inr st2"
    and pc: "post_customer_receipt hs st2 org p c deposit actor now = Inr (st3, e)"
    and sv: "save_customer_payment st3 (p\<lparr>py_entry := Some (e_id e)\<rparr>) = Inr st4"
    and al: "(if rp_allocations d \<noteq> [] then apply_to_invoices st4 org (p\<lparr>py_entry := Some (e_id e)\<rparr>) (rp_allocations d) actor
       else Inr (st4, p\<lparr>py_entry := Some (e_id e)\<rparr>)) = Inr (st5, p')"
    and st': "st' = audit_sales st5 PAYMENT_RECEIVED INFO actor org ''payment'' (py_id p)"
    by auto
  let ?p = "p\<lparr>py_entry := Some (e_id e)\<rparr>"
  have amount: "0 < rp_amount d" using v by (auto simp: validate_payment_received_def)
  have inv1: "sales_inv st1" by (rule sales_number_inv [OF inv n])
  have st2: "st2 = (take_sales_id st1)\<lparr>customer_payments := customer_payments st1 @ [p]\<rparr>" using add by (auto simp: add_customer_payment_def)
  have q2: "quiet (stock (purchasing st)) (stock (purchasing st2))"
    using quiet_trans [OF document_number_quiet(1) [OF sales_numberD(1) [OF n]] quiet_take] by (simp add: st2)
  have "payables_inv (map as_bill (invoices st1)) (map as_payment (customer_payments st1) @ [as_payment p])
      (map as_allocation (payment_allocations st1)) (sales_id st1 + 1)"
    by (rule payables_new_payment [OF sales_invD(2) [OF inv1, unfolded receivables_inv_def]]) (use amount in \<open>simp_all add: p_def\<close>)
  then have inv2: "sales_inv st2"
    using sales_invD(1,3-5) [OF inv1] orders_mono quotes_mono purchasing_take
    by (auto simp: sales_inv_def receivables_inv_def st2 sales_id_def doc_id_def)
  from pc obtain ar and j :: journal and q where ar: "resolve_system_account (sales_ledger st2) org ''accounts_receivable'' = Inr ar"
    and en: "post_document_entry hs (purchasing st2) org (receipt_entry c p (j_id j) (a_id deposit) (a_id ar)) actor ''payment'' (py_id p) now = Inr (q, e)"
    and st3: "st3 = st2\<lparr>purchasing := q\<rparr>"
    by (auto simp: post_customer_receipt_def split: option.splits)
  have post: "ec_post (receipt_entry c p (j_id j) (a_id deposit) (a_id ar))" by (simp add: receipt_entry_def)
  show thesis
    using post_document_entry_effect [OF purchasing_invD(1) [OF sales_invD(1) [OF inv2]] en post]
  proof cases
    case (1 l)
    note qi = sales_set_ledger [OF sales_invD(1) [OF inv2] 1(1-3)]
    have ne: "a_id deposit \<noteq> a_id ar"
      using 1(7) by (auto simp: validate_entry_create_def receipt_entry_def debit_line_def credit_line_def)
    have net: "entry_net a e = pair_net (a_id deposit) (a_id ar) (rp_amount d) a" for a
      using 1(8) [of a] ne by (simp add: receipt_entry_def pair_net_def debit_line_def credit_line_def p_def)
    have st4: "st4 = st3\<lparr>customer_payments := update_where (\<lambda>y. py_id y = py_id ?p) (\<lambda>_. ?p) (customer_payments st3)\<rparr>"
      using sv by (auto simp: save_customer_payment_def)
    have inv3: "sales_inv st3" unfolding st3 by (rule sales_frame [OF inv2]) (use qi in \<open>simp_all add: sales_id_def\<close>)
    have mem: "as_payment p \<in> set (map as_payment (customer_payments st3))" by (simp add: st3 st2)
    have held: "map as_payment (customer_payments st4) = hold (as_payment ?p) (map as_payment (customer_payments st3))"
      using map_replace [of sp_id as_payment py_id ?p "customer_payments st3"] by (simp add: st4 hold_def)
    have "payables_inv (map as_bill (invoices st3)) (hold (as_payment ?p) (map as_payment (customer_payments st3)))
        (map as_allocation (payment_allocations st3)) (sales_id st3)"
      by (rule payables_relabel [OF sales_invD(2) [OF inv3, unfolded receivables_inv_def] mem]) (simp_all add: same_payment_def)
    then have "receivables_inv st4" unfolding receivables_inv_def held by (simp add: st4 sales_id_def)
    then have inv4: "sales_inv st4" using inv3 by (simp add: sales_inv_def st4 sales_id_def)
    have mem4: "?p \<in> set (customer_payments st4)" by (force simp: st4 st3 st2 update_where_def)
    have "sum_list (map (payment_left org) (map as_payment (customer_payments st4))) =
        sum_list (map (payment_left org) (map as_payment (customer_payments st3))) + payment_left org (as_payment ?p) - payment_left org (as_payment p)"
      unfolding held hold_def
      by (rule sum_replaced [OF payables_invD(2) [OF sales_invD(2) [OF inv3, unfolded receivables_inv_def]] mem]) simp
    moreover have "invoices st1 = invoices st" "customer_payments st1 = customer_payments st" by (subst sales_numberD(2) [OF n], simp)+
    ultimately have rec: "receivable st4 org = receivable st org - rp_amount d"
      by (simp add: receivable_owed owed_def st4 st3 st2 payment_left_def p_def)
    have fin: "sales_inv st5 \<and> receivable st5 = receivable st4 \<and> quiet (stock (purchasing st4)) (stock (purchasing st5)) \<and>
      py_amount p' = rp_amount d \<and> py_unallocated p' = rp_amount d - sum_list (map snd (rp_allocations d))"
    proof (cases "rp_allocations d = []")
      case True
      with al inv4 show ?thesis by (auto simp: p_def)
    next
      case False
      have pos: "\<forall>(i, x) \<in> set (rp_allocations d). 0 < x"
        using v by (intro validate_amountsD) (auto simp: validate_payment_received_def)
      have ap: "apply_to_invoices st4 org ?p (rp_allocations d) actor = Inr (st5, p')" using al False by simp
      have "py_org ?p = org" "py_amount ?p = rp_amount d" "py_unallocated ?p = rp_amount d" by (simp_all add: p_def)
      then show ?thesis using apply_to_invoices_effect [OF inv4 mem4 _ pos ap] by simp
    qed
    have "ledger_net (sales_ledger st') = ledger_net (sales_ledger st5)" by (rule ledger_net_entries) (simp add: st' ledger_def)
    also have "\<dots> = ledger_net (sales_ledger st4)" using quiet_ledger(1) fin by blast
    also have "\<dots> = ledger_net l" by (rule ledger_net_entries) (simp add: st4 st3 1(1) ledger_def)
    finally have lnet: "ledger_net (sales_ledger st') a = ledger_net (sales_ledger st) a + pair_net (a_id deposit) (a_id ar) (rp_amount d) a" for a
      using 1(9) [of a] net [of a] quiet_ledger(1) [OF q2] by simp
    have "receivable st' = receivable st5" by (simp add: st' receivable_owed)
    then show thesis
      by (intro that [OF _ dep ne lnet]) (use ar quiet_ledger(2) [OF q2] fin rec in \<open>auto simp: st' intro: sales_audit\<close>)
  qed
qed

end
