(* ===== verification/Sales_Transitions.thy ===== *)
theory Sales_Transitions
  imports Sales_Payments
begin

text \<open>
  The sales module as a transition system: every operation of its services, and the steps of purchasing,
  stock and the ledger that run beside them on the same database.
\<close>

section \<open>Purchasing beside sales\<close>

text \<open>Identifiers are never taken back by a step of purchasing.\<close>

lemma document_steps_mono:
  "post_document_entry hs st org d actor stype sid now = Inr (st', e) \<Longrightarrow> doc_id st \<le> doc_id st'"
  "reverse_document_entry hs st org i actor rd nar now = Inr (st', e) \<Longrightarrow> doc_id st \<le> doc_id st'"
  "document_number st org scope prefix today = Inr (st', n) \<Longrightarrow> doc_id st \<le> doc_id st'"
proof -
  show "post_document_entry hs st org d actor stype sid now = Inr (st', e) \<Longrightarrow> doc_id st \<le> doc_id st'"
    by (auto simp: post_document_entry_def doc_id_def fresh_id_def ledger_def dest!: entry_next_id(1))
  show "reverse_document_entry hs st org i actor rd nar now = Inr (st', e) \<Longrightarrow> doc_id st \<le> doc_id st'"
    by (auto simp: reverse_document_entry_def doc_id_def fresh_id_def ledger_def dest!: entry_next_id(3))
  show "document_number st org scope prefix today = Inr (st', n) \<Longrightarrow> doc_id st \<le> doc_id st'"
    using document_number_quiet(1) by (fastforce simp: quiet_def doc_id_def)
qed

lemma doc_id_updates [simp]:
  "doc_id (audit_doc st x sv ac og rt ri) = doc_id st" "doc_id (take_doc_id st) = doc_id st + 1"
  "doc_id (st\<lparr>bills := bs\<rparr>) = doc_id st" "doc_id (st\<lparr>payments := ps\<rparr>) = doc_id st" "doc_id (st\<lparr>allocations := as\<rparr>) = doc_id st"
  "doc_id (st\<lparr>suppliers := ss\<rparr>) = doc_id st" "doc_id (st\<lparr>products := pr\<rparr>) = doc_id st" "doc_id (st\<lparr>orders := os\<rparr>) = doc_id st"
  "doc_id (st\<lparr>receipts := gs\<rparr>) = doc_id st"
  by (simp_all add: doc_id_def)

lemma takes_mono: "doc_id st \<le> doc_id ((take_doc_id ^^ n) st)"
  by (induction n) simp_all

lemma post_bill_mono: "post_bill hs st org i actor now = Inr (st', b) \<Longrightarrow> doc_id st \<le> doc_id st'"
  by (auto simp: post_bill_def Let_def save_bill_def dest!: document_steps_mono(1))

lemma cancel_bill_mono: "cancel_bill hs st org i reason cd actor now = Inr (st', b) \<Longrightarrow> doc_id st \<le> doc_id st'"
  by (auto simp: cancel_bill_def Let_def save_bill_def dest!: document_steps_mono(2) split: option.splits if_splits)

lemma create_bill_mono:
  assumes "create_bill hs st org d actor today gstin now = Inr (st', b)"
  shows "doc_id st \<le> doc_id st'"
proof -
  from assms obtain st1 n x st3 where n: "document_number st org ''bill'' ''BILL'' today = Inr (st1, n)"
    and st3: "st3 = audit_doc ((take_doc_id st1)\<lparr>bills := bills st1 @ [x]\<rparr>) BILL_CREATED INFO actor org ''bill'' (bi_id x)"
    and r: "(if bc_post d then post_bill hs st3 org (bi_id x) actor now else Inr (st3, x)) = Inr (st', b)"
    by (auto simp: create_bill_def Let_def add_bill_def)
  have "doc_id st \<le> doc_id st3" using document_steps_mono(3) [OF n] by (simp add: st3)
  moreover have "doc_id st3 \<le> doc_id st'" using r post_bill_mono by (auto split: if_splits)
  ultimately show ?thesis by simp
qed

lemma apply_one_mono: "apply_one st org ex p i x = Inr (st', p') \<Longrightarrow> doc_id st \<le> doc_id st'"
  by (auto simp: apply_one_def Let_def save_bill_def attach_amount_def add_allocation_def split: if_splits)

lemma apply_each_mono: "apply_each st org ex p as = Inr (st', p') \<Longrightarrow> doc_id st \<le> doc_id st'"
  by (induction as arbitrary: st p) (fastforce dest!: apply_one_mono intro: order_trans)+

lemma apply_payment_mono: "apply_payment st org p as actor = Inr (st', p') \<Longrightarrow> doc_id st \<le> doc_id st'"
  by (auto simp: apply_payment_def Let_def save_payment_def dest!: apply_each_mono)

lemma pay_mono: "pay hs st org d actor today now = Inr (st', p') \<Longrightarrow> doc_id st \<le> doc_id st'"
  unfolding pay_def Let_def add_payment_def save_payment_def
  by (auto split: option.splits if_splits dest!: document_steps_mono(1,3) apply_payment_mono)

lemma masters_mono:
  "create_supplier st org sd actor = Inr (st', s) \<Longrightarrow> doc_id st \<le> doc_id st'"
  "update_supplier st org i su actor = Inr (st', s) \<Longrightarrow> doc_id st \<le> doc_id st'"
  "create_product st org pd actor = Inr (st', p) \<Longrightarrow> doc_id st \<le> doc_id st'"
  "update_product st org i pu actor = Inr (st', p) \<Longrightarrow> doc_id st \<le> doc_id st'"
  "approve_order st org i actor now = Inr (st', x) \<Longrightarrow> doc_id st \<le> doc_id st'"
  "cancel_order st org i actor now = Inr (st', x) \<Longrightarrow> doc_id st \<le> doc_id st'"
  by (auto simp: create_supplier_def update_supplier_def create_product_def update_product_def approve_order_def cancel_order_def Let_def
    add_supplier_def save_supplier_def add_product_def save_product_def save_order_def)

lemma create_order_mono:
  assumes "create_order st org od actor today gstin = Inr (st', x)"
  shows "doc_id st \<le> doc_id st'"
proof -
  from assms obtain st1 n os k where n: "document_number st org ''purchase_order'' ''PO'' today = Inr (st1, n)"
    and st': "st' = audit_doc ((take_doc_id ^^ k) ((take_doc_id st1)\<lparr>orders := os\<rparr>))
      PURCHASE_ORDER_CREATED INFO actor org ''purchase_order'' (doc_id st1)"
    by (auto simp: create_order_def Let_def add_order_def)
  then show ?thesis using document_steps_mono(3) [OF n] takes_mono [of "(take_doc_id st1)\<lparr>orders := os\<rparr>" k] by simp
qed

lemma order_steps_mono:
  "roll_order_line st ref f = Inr st' \<Longrightarrow> doc_id st' = doc_id st" "refresh_order_status st i = Inr st' \<Longrightarrow> doc_id st' = doc_id st"
  using roll_order_line_ok [of st ref f st'] refresh_order_status_ok [of st i st'] doc_id_updates(8) by metis+

lemma receive_line_mono: "receive_line st org g w l actor now = Inr (st', v) \<Longrightarrow> doc_id st \<le> doc_id st'"
  by (auto simp: receive_line_def doc_id_def dest!: record_fresh order_steps_mono(1) split: if_splits)

lemma receive_lines_mono: "receive_lines st org g w ls actor now = Inr (st', v) \<Longrightarrow> doc_id st \<le> doc_id st'"
  by (induction ls arbitrary: st v) (fastforce dest!: receive_line_mono intro: order_trans)+

lemma post_receipt_mono: "post_receipt hs st org i actor now = Inr (st', g) \<Longrightarrow> doc_id st \<le> doc_id st'"
  by (auto simp: post_receipt_def Let_def save_receipt_def post_accrual_def split: if_splits option.splits
    dest!: receive_lines_mono document_steps_mono(1) order_steps_mono(2))

lemma cancel_receipt_mono:
  assumes "purchasing_inv st" "cancel_receipt hs st org i reason actor now = Inr (st', g)"
  shows "doc_id st \<le> doc_id st'"
  by (rule cancel_receipt_effect [OF purchasing_invD(1,2) [OF assms(1)] assms(2)]) (simp add: doc_id_def)

lemma create_receipt_mono:
  assumes op: "create_receipt hs st org d actor today now = Inr (st', g)"
  shows "doc_id st \<le> doc_id st'"
proof -
  from op obtain k w st1 n x st3 where w: "get_warehouse (stock st) org (rc_warehouse d) = Inr (k, w)"
    and n: "document_number (st\<lparr>stock := k\<rparr>) org ''goods_receipt'' ''GRN'' today = Inr (st1, n)"
    and st3: "st3 = audit_doc ((take_doc_id st1)\<lparr>receipts := receipts st1 @ [x]\<rparr>) GOODS_RECEIPT_CREATED INFO actor org ''goods_receipt'' (gr_id x)"
    and r: "(if rc_post d then post_receipt hs st3 org (gr_id x) actor now else Inr (st3, x)) = Inr (st', g)"
    by (auto simp: create_receipt_def Let_def add_receipt_def)
  have "doc_id st \<le> doc_id (st\<lparr>stock := k\<rparr>)" using quiet_warehouse [OF w] by (simp add: quiet_def doc_id_def)
  moreover have "doc_id (st\<lparr>stock := k\<rparr>) \<le> doc_id st3" using document_steps_mono(3) [OF n] by (simp add: st3)
  moreover have "doc_id st3 \<le> doc_id st'" using r post_receipt_mono by (auto split: if_splits)
  ultimately show ?thesis by simp
qed

lemma purchasing_step_mono:
  assumes "purchasing_step hs st st'" "purchasing_inv st"
  shows "doc_id st \<le> doc_id st'"
  using assms(1)
proof cases
  case (stock s)
  then show ?thesis using grows_step [OF stock(2)] by (simp add: grows_def doc_id_def)
next
  case allocation
  then show ?thesis by (auto simp: allocate_def dest!: apply_payment_mono)
next
  case receipt_cancel
  then show ?thesis by (rule cancel_receipt_mono [OF assms(2)])
qed (blast intro: masters_mono create_order_mono create_receipt_mono post_receipt_mono create_bill_mono post_bill_mono cancel_bill_mono pay_mono)+

section \<open>Sales as a transition system\<close>

inductive sales_step :: "'h hooks \<Rightarrow> 'h sales_db \<Rightarrow> 'h sales_db \<Rightarrow> bool" for hs where
  beside: "purchasing_step hs (purchasing st) q \<Longrightarrow> sales_step hs st (st\<lparr>purchasing := q\<rparr>)"
| customer_new: "create_customer st org cd actor = Inr (st', c) \<Longrightarrow> sales_step hs st st'"
| customer_edit: "update_customer st org i cu actor = Inr (st', c) \<Longrightarrow> sales_step hs st st'"
| customer_gone: "delete_customer st org i actor now = Inr st' \<Longrightarrow> sales_step hs st st'"
| lead_new: "create_lead st org ld actor = Inr (st', l) \<Longrightarrow> sales_step hs st st'"
| lead_edit: "update_lead st org i lu actor now = Inr (st', l) \<Longrightarrow> sales_step hs st st'"
| lead_won: "convert_lead st org i lv actor now = Inr (st', c) \<Longrightarrow> sales_step hs st st'"
| quotation_new: "validate_quotation_create qd = Inr () \<Longrightarrow> create_quotation st org qd actor today gstin = Inr (st', q) \<Longrightarrow> sales_step hs st st'"
| quotation_edit: "update_quotation st org i qu gstin = Inr (st', q) \<Longrightarrow> sales_step hs st st'"
| quotation_sent: "mark_sent st org i actor now = Inr (st', q) \<Longrightarrow> sales_step hs st st'"
| quotation_answered: "respond st org i accepted actor now = Inr (st', q) \<Longrightarrow> sales_step hs st st'"
| order_new: "validate_sales_lines (od_lines od) = Inr () \<Longrightarrow> create_sales_order st org od actor today gstin = Inr (st', y) \<Longrightarrow> sales_step hs st st'"
| order_quoted: "from_quotation st org i actor today gstin = Inr (st', y) \<Longrightarrow> sales_step hs st st'"
| order_confirm: "confirm_sales_order st org i actor now = Inr (st', y) \<Longrightarrow> sales_step hs st st'"
| order_cancel: "cancel_sales_order st org i actor now = Inr (st', y) \<Longrightarrow> sales_step hs st st'"
| invoice_new: "validate_invoice_create vd = Inr () \<Longrightarrow> create_invoice hs st org vd actor today gstin now = Inr (st', x) \<Longrightarrow> sales_step hs st st'"
| invoice_edit: "validate_invoice_update vu = Inr () \<Longrightarrow> update_invoice st org i vu gstin = Inr (st', x) \<Longrightarrow> sales_step hs st st'"
| invoice_post: "post_invoice hs st org i actor now = Inr (st', x) \<Longrightarrow> sales_step hs st st'"
| invoice_cancel: "cancel_invoice hs st org i reason cd actor now = Inr (st', x) \<Longrightarrow> sales_step hs st st'"
| invoice_gone: "delete_draft_invoice st org i actor now = Inr st' \<Longrightarrow> sales_step hs st st'"
| payment_in: "validate_payment_received pd = Inr () \<Longrightarrow> record_payment hs st org pd actor today now = Inr (st', p) \<Longrightarrow> sales_step hs st st'"
| payment_applied: "validate_allocate_request as = Inr () \<Longrightarrow> allocate_receipt st org i as actor = Inr (st', p) \<Longrightarrow> sales_step hs st st'"
| payment_spread: "auto_allocate st org i actor = Inr (st', p) \<Longrightarrow> sales_step hs st st'"

lemma allocate_receipt_effect:
  assumes "sales_inv st" "validate_allocate_request as = Inr ()" "allocate_receipt st org i as actor = Inr (st', p')"
  shows "sales_inv st' \<and> quiet (stock (purchasing st)) (stock (purchasing st')) \<and> receivable st' = receivable st"
proof -
  from assms(3) obtain p where p: "get_customer_payment st org i = Inr p" "apply_to_invoices st org p as actor = Inr (st', p')"
    by (auto simp: allocate_receipt_def)
  have "\<forall>(i, x) \<in> set as. 0 < x" using assms(2) by (intro validate_amountsD) (auto simp: validate_allocate_request_def)
  then show ?thesis using apply_to_invoices_effect [OF assms(1) _ _ _ p(2)] get_customer_payment_ok [OF p(1)] by blast
qed

lemma sales_step_inv:
  assumes "sales_step hs st st'" "sales_inv st"
  shows "sales_inv st'"
  using assms(1)
proof cases
  case (beside q)
  note p = sales_invD(1) [OF assms(2)]
  show ?thesis
    unfolding beside(1)
    by (rule sales_frame [OF assms(2)]) (use purchasing_step_inv [OF beside(2) p] purchasing_step_mono [OF beside(2) p] in \<open>simp_all add: sales_id_def\<close>)
next
  case invoice_post
  then show ?thesis by (rule post_invoice_effect [OF assms(2)])
next
  case invoice_cancel
  then show ?thesis by (rule cancel_invoice_effect [OF assms(2)])
next
  case payment_in
  then show ?thesis by (rule record_payment_effect [OF assms(2)])
next
  case payment_applied
  then show ?thesis using allocate_receipt_effect [OF assms(2)] by blast
next
  case payment_spread
  then show ?thesis by (rule auto_allocate_effect [OF assms(2)])
qed (use assms(2) in \<open>blast intro: create_customer_inv customers_inv quotations_inv create_sales_order_inv sales_orders_inv create_invoice_inv
  update_invoice_inv delete_draft_invoice_inv\<close>)+

lemma sales_inv_empty: "sales_inv (empty_sales h)"
  by (simp add: sales_inv_def empty_sales_def purchasing_inv_empty receivables_inv_def payables_empty orders_agree_def entries_ok_def quotes_ok_def)

interpretation sales: transition_system "sales_step hs" "empty_sales h" sales_inv for hs h
  by unfold_locales (auto intro: sales_inv_empty sales_step_inv)

definition sales_reachable :: "'h hooks \<Rightarrow> 'h \<Rightarrow> 'h sales_db \<Rightarrow> bool" where
  "sales_reachable hs h st \<longleftrightarrow> (sales_step hs)\<^sup>*\<^sup>* (empty_sales h) st"

lemma sales_reachable_inv: "sales_reachable hs h st \<Longrightarrow> sales_inv st"
  unfolding sales_reachable_def by (rule sales.inv_reachable)

end
