(* ===== verification/Sales_Details.thy ===== *)
theory Sales_Details
  imports Sales_Transitions
begin

text \<open>
  Two behaviours of sales in detail: the plan by which a payment is spread over the oldest invoices and what it
  pays on each of them, and the one way of a quotation into an order.
\<close>

section \<open>Oldest invoice first\<close>

lemma plan_shape:
  assumes "\<forall>x \<in> set xs. 0 < invoice_outstanding x"
  shows "map fst (allocation_plan r xs) = take (length (allocation_plan r xs)) (map iv_id xs) \<and>
    (\<forall>k. Suc k < length (allocation_plan r xs) \<longrightarrow> snd (allocation_plan r xs ! k) = invoice_outstanding (xs ! k))"
  using assms
proof (induction xs arbitrary: r)
  case (Cons x xs)
  let ?a = "min r (invoice_outstanding x)"
  show ?case
  proof (cases "r \<le> 0")
    case False
    then have p: "allocation_plan r (x # xs) = (iv_id x, ?a) # allocation_plan (r - ?a) xs"
      using Cons.prems by (simp add: Let_def)
    note ih = Cons.IH [of "r - ?a"]
    have "snd (allocation_plan r (x # xs) ! k) = invoice_outstanding ((x # xs) ! k)" if k: "Suc k < length (allocation_plan r (x # xs))" for k
    proof (cases k)
      case 0
      have "\<not> r \<le> invoice_outstanding x"
      proof
        assume "r \<le> invoice_outstanding x"
        then have "allocation_plan (r - ?a) xs = []" by (cases xs) (simp_all add: min_def)
        with k p show False by simp
      qed
      then show ?thesis using p 0 by (simp add: min_def)
    next
      case (Suc m)
      then show ?thesis using k p ih Cons.prems by simp
    qed
    then show ?thesis using p ih Cons.prems by simp
  qed simp
qed simp

lemma outstanding_rows:
  "set (outstanding_for_customer st org i) =
     {x \<in> set (invoices st). iv_org x = org \<and> iv_customer x = i \<and> iv_deleted x = None \<and> iv_status x \<in> {I_POSTED, I_PARTIALLY_PAID} \<and>
        iv_paid x < grand_total (iv_totals x)}"
  by (auto simp: outstanding_for_customer_def)

lemma outstanding_sorted:
  "sorted (map iv_due (outstanding_for_customer st org i))"
  "sorted (map iv_date (filter (\<lambda>x. iv_due x = k) (outstanding_for_customer st org i)))"
proof -
  show "sorted (map iv_due (outstanding_for_customer st org i))" by (simp add: outstanding_for_customer_def)
  show "sorted (map iv_date (filter (\<lambda>x. iv_due x = k) (outstanding_for_customer st org i)))"
    unfolding outstanding_for_customer_def sort_key_stable by (simp add: sorted_filter)
qed

lemma settle_one_paid:
  assumes d: "distinct (map iv_id (invoices st))" and op: "settle_one st org ex p i x = Inr (st', p')"
  shows "map (\<lambda>v. (iv_id v, iv_paid v)) (invoices st') =
    map (\<lambda>v. (iv_id v, iv_paid v + (if iv_id v = i then x else 0))) (invoices st)"
proof -
  from op obtain v st1 v' where v: "get_invoice st org i = Inr v" and a: "attach_payment st ex p i x = Inr st1"
    and s: "save_invoice st1 v' = Inr st'" and v': "iv_id v' = iv_id v" "iv_paid v' = iv_paid v + x"
    by (auto simp: settle_one_def Let_def)
  have "v = w" if "w \<in> set (invoices st)" "iv_id w = iv_id v" for w
    using d that get_invoice_ok [OF v] by (auto simp: distinct_map dest: inj_onD)
  then show ?thesis
    unfolding save_invoice_as_bill(2) [OF s] using attach_payment_as(3) [OF a] get_invoice_ok [OF v] v'
    by (auto simp: update_where_def)
qed

lemma settle_each_paid:
  assumes "distinct (map iv_id (invoices st))" "settle_each st org ex p as = Inr (st', p')"
  shows "map (\<lambda>v. (iv_id v, iv_paid v)) (invoices st') =
    map (\<lambda>v. (iv_id v, iv_paid v + sum_list (map snd (filter (\<lambda>y. fst y = iv_id v) as)))) (invoices st)"
  using assms
proof (induction as arbitrary: st p)
  case (Cons y as)
  obtain i x where y: "y = (i, x)" by (cases y)
  from Cons.prems(2) obtain st1 p1 where 1: "settle_one st org ex p i x = Inr (st1, p1)"
    and 2: "settle_each st1 org ex p1 as = Inr (st', p')" by (auto simp: y)
  define f where "f = (\<lambda>(k, z :: decimal). (k :: uuid, z + sum_list (map snd (filter (\<lambda>y. fst y = k) as))))"
  have "distinct (map iv_id (invoices st1))" using settled_ids [OF settle_one_as(2) [OF Cons.prems(1) 1]] Cons.prems(1) by simp
  from Cons.IH [OF this 2] have "map (\<lambda>v. (iv_id v, iv_paid v)) (invoices st') = map f (map (\<lambda>v. (iv_id v, iv_paid v)) (invoices st1))"
    by (simp add: f_def o_def)
  also have "\<dots> = map f (map (\<lambda>v. (iv_id v, iv_paid v + (if iv_id v = i then x else 0))) (invoices st))"
    by (simp only: settle_one_paid [OF Cons.prems(1) 1])
  finally show ?case by (simp add: f_def y o_def algebra_simps)
qed simp

section \<open>Converted quotations\<close>

definition converted :: "'h sales_db \<Rightarrow> uuid \<Rightarrow> bool" where
  "converted st i \<longleftrightarrow> (\<exists>q \<in> set (quotations st). qu_id q = i \<and> qu_status q = Q_CONVERTED)"

lemma converted_same: "quotations st' = quotations st \<Longrightarrow> converted st' i = converted st i"
  by (simp add: converted_def)

lemma number_quotations: "sales_number st org scope prefix today = Inr (st', n) \<Longrightarrow> quotations st' = quotations st"
  by (auto simp: sales_number_def)

lemma post_quotations: "post_invoice hs st org i actor now = Inr (st', x) \<Longrightarrow> quotations st' = quotations st"
  by (auto simp: post_invoice_def Let_def save_invoice_def roll_forward_def save_sales_order_def split: option.splits)

lemma create_customer_quotations: "create_customer st org cd actor = Inr (st', c) \<Longrightarrow> quotations st' = quotations st"
  by (auto simp: create_customer_def add_customer_def Let_def)

lemma create_sales_order_quotations: "create_sales_order st org od actor today gstin = Inr (st', y) \<Longrightarrow> quotations st' = quotations st"
  by (auto simp: create_sales_order_def add_sales_order_def Let_def dest!: number_quotations)

lemma masters_quotations:
  "update_customer st org i cu actor = Inr (st', c) \<Longrightarrow> quotations st' = quotations st"
  "delete_customer st org i actor now = Inr st' \<Longrightarrow> quotations st' = quotations st"
  "create_lead st org ld actor = Inr (st', l) \<Longrightarrow> quotations st' = quotations st"
  "update_lead st org i lu actor now = Inr (st', l) \<Longrightarrow> quotations st' = quotations st"
  "convert_lead st org i lv actor now = Inr (st', c) \<Longrightarrow> quotations st' = quotations st"
  by (auto simp: update_customer_def delete_customer_def create_lead_def update_lead_def convert_lead_def add_lead_def save_lead_def
    save_customer_def Let_def dest!: create_customer_quotations)

lemma documents_quotations:
  "confirm_sales_order st org i actor now = Inr (st', y) \<Longrightarrow> quotations st' = quotations st"
  "cancel_sales_order st org i actor now = Inr (st', y) \<Longrightarrow> quotations st' = quotations st"
  "create_invoice hs st org vd actor today gstin now = Inr (st', x) \<Longrightarrow> quotations st' = quotations st"
  "update_invoice st org i vu gstin = Inr (st', x) \<Longrightarrow> quotations st' = quotations st"
  "cancel_invoice hs st org i reason cd actor now = Inr (st', x) \<Longrightarrow> quotations st' = quotations st"
  "delete_draft_invoice st org i actor now = Inr st' \<Longrightarrow> quotations st' = quotations st"
proof -
  show "confirm_sales_order st org i actor now = Inr (st', y) \<Longrightarrow> quotations st' = quotations st"
    "cancel_sales_order st org i actor now = Inr (st', y) \<Longrightarrow> quotations st' = quotations st"
    "delete_draft_invoice st org i actor now = Inr st' \<Longrightarrow> quotations st' = quotations st"
    "update_invoice st org i vu gstin = Inr (st', x) \<Longrightarrow> quotations st' = quotations st"
    by (auto simp: confirm_sales_order_def cancel_sales_order_def delete_draft_invoice_def update_invoice_def save_invoice_def save_sales_order_def Let_def)
  show "create_invoice hs st org vd actor today gstin now = Inr (st', x) \<Longrightarrow> quotations st' = quotations st"
    by (auto simp: create_invoice_def add_invoice_def Let_def dest!: number_quotations post_quotations split: if_splits)
  show "cancel_invoice hs st org i reason cd actor now = Inr (st', x) \<Longrightarrow> quotations st' = quotations st"
    by (auto simp: cancel_invoice_def Let_def save_invoice_def roll_back_def save_sales_order_def split: option.splits if_splits)
qed

lemma settle_quotations: "settle_each st org ex p as = Inr (st', p') \<Longrightarrow> quotations st' = quotations st"
proof (induction as arbitrary: st p)
  case (Cons y as)
  obtain i x where y: "y = (i, x)" by (cases y)
  from Cons.prems obtain st1 p1 where 1: "settle_one st org ex p i x = Inr (st1, p1)" and 2: "settle_each st1 org ex p1 as = Inr (st', p')"
    by (auto simp: y)
  have "quotations st1 = quotations st"
    using 1 by (auto simp: settle_one_def attach_payment_def add_payment_allocation_def save_invoice_def Let_def split: if_splits)
  with Cons.IH [OF 2] show ?case by simp
qed simp

lemma payments_quotations:
  "apply_to_invoices st org p as actor = Inr (st', p') \<Longrightarrow> quotations st' = quotations st"
  by (auto simp: apply_to_invoices_def save_customer_payment_def Let_def dest!: settle_quotations)

lemma receipts_quotations:
  "record_payment hs st org pd actor today now = Inr (st', p') \<Longrightarrow> quotations st' = quotations st"
  "allocate_receipt st org i as actor = Inr (st', p') \<Longrightarrow> quotations st' = quotations st"
  "auto_allocate st org i actor = Inr (st', p') \<Longrightarrow> quotations st' = quotations st"
  by (auto simp: record_payment_def allocate_receipt_def auto_allocate_def add_customer_payment_def save_customer_payment_def
    post_customer_receipt_def Let_def dest!: payments_quotations number_quotations split: if_splits option.splits)

lemma get_quotation_ok: "get_quotation st org i = Inr q \<Longrightarrow> q \<in> set (quotations st) \<and> qu_id q = i"
  by (auto simp: get_quotation_def split: option.splits dest: scalar_one_or_none_Some)

text \<open>Saving a row in place of one that is not converted keeps the converted ones.\<close>

lemma save_keeps_converted:
  assumes d: "distinct (map qu_id (quotations st))" and op: "save_quotation st q' = Inr st'"
    and q: "q \<in> set (quotations st)" "qu_id q' = qu_id q" "qu_status q = Q_CONVERTED \<longrightarrow> qu_status q' = Q_CONVERTED" and c: "converted st i"
  shows "converted st' i"
proof -
  from c obtain r where r: "r \<in> set (quotations st)" "qu_id r = i" "qu_status r = Q_CONVERTED" by (auto simp: converted_def)
  have qs: "quotations st' = update_where (\<lambda>y. qu_id y = qu_id q') (\<lambda>_. q') (quotations st)" using op by (auto simp: save_quotation_def)
  show ?thesis
  proof (cases "qu_id r = qu_id q")
    case True
    then have "r = q" using d r(1) q(1) by (auto simp: distinct_map dest: inj_onD)
    then have "q' \<in> set (quotations st')" "qu_id q' = i" "qu_status q' = Q_CONVERTED" using r q unfolding qs by (auto simp: update_where_def)
    then show ?thesis by (auto simp: converted_def)
  next
    case False
    then have "r \<in> set (quotations st')" using r(1) q(2) unfolding qs by (force simp: update_where_def)
    then show ?thesis using r by (auto simp: converted_def)
  qed
qed

lemma quotation_steps_converted:
  assumes inv: "sales_inv st" and c: "converted st k"
  shows "create_quotation st org qd actor today gstin = Inr (st', q) \<Longrightarrow> converted st' k"
    "update_quotation st org i qu gstin = Inr (st', q) \<Longrightarrow> converted st' k"
    "mark_sent st org i actor now = Inr (st', q) \<Longrightarrow> converted st' k"
    "respond st org i accepted actor now = Inr (st', q) \<Longrightarrow> converted st' k"
    "from_quotation st org i actor today gstin = Inr (st', y) \<Longrightarrow> converted st' k"
proof -
  have d: "distinct (map qu_id (quotations st))" using sales_invD(4) [OF inv] by (simp add: quotes_ok_def)
  have au: "converted (audit_sales s x sv ac og rt ri) k = converted s k" for s :: "'a sales_db" and x sv ac og rt ri by (simp add: converted_def)
  note keep = save_keeps_converted [OF d _ _ _ _ c]
  show "create_quotation st org qd actor today gstin = Inr (st', q) \<Longrightarrow> converted st' k"
    using c by (auto simp: create_quotation_def add_quotation_def Let_def converted_def dest!: number_quotations)
  show "update_quotation st org i qu gstin = Inr (st', q) \<Longrightarrow> converted st' k"
  proof -
    assume "update_quotation st org i qu gstin = Inr (st', q)"
    then obtain r where "get_quotation st org i = Inr r" "qu_status r \<noteq> Q_CONVERTED" "save_quotation st q = Inr st'" "qu_id q = qu_id r"
      by (auto simp: update_quotation_def Let_def split: option.splits)
    then show ?thesis using keep get_quotation_ok by blast
  qed
  show "mark_sent st org i actor now = Inr (st', q) \<Longrightarrow> converted st' k"
    by (auto simp: mark_sent_def Let_def au dest!: get_quotation_ok elim!: keep)
  show "respond st org i accepted actor now = Inr (st', q) \<Longrightarrow> converted st' k"
    by (auto simp: respond_def Let_def au dest!: get_quotation_ok elim!: keep)
  assume "from_quotation st org i actor today gstin = Inr (st', y)"
  then obtain od st1 r st2 where r: "get_quotation st org i = Inr r" "create_sales_order st org od actor today gstin = Inr (st1, y)"
    "save_quotation st1 (r\<lparr>qu_status := Q_CONVERTED\<rparr>) = Inr st2" "st' = audit_sales st2 QUOTATION_CONVERTED INFO actor org ''quotation'' (qu_id r)"
    by (auto simp: from_quotation_def)
  note same = create_sales_order_quotations [OF r(2)]
  have "converted st2 k"
    by (rule save_keeps_converted [OF _ r(3), of r]) (use same d c get_quotation_ok [OF r(1)] in \<open>simp_all add: converted_def\<close>)
  then show "converted st' k" by (simp add: r(4) au)
qed

lemma step_keeps_converted:
  assumes "sales_step hs st st'" "sales_inv st" "converted st k"
  shows "converted st' k"
  using assms(1)
proof cases
  case (beside q)
  then show ?thesis using assms(3) by (simp add: converted_def)
qed (use assms(2,3) in \<open>blast intro: quotation_steps_converted
  converted_same [THEN iffD2, OF create_customer_quotations] converted_same [THEN iffD2, OF create_sales_order_quotations]
  converted_same [THEN iffD2, OF post_quotations] masters_quotations [THEN converted_same, THEN iffD2]
  documents_quotations [THEN converted_same, THEN iffD2] receipts_quotations [THEN converted_same, THEN iffD2]\<close>)+

end
