(* ===== verification/Sales_Guarantees.thy ===== *)
theory Sales_Guarantees
  imports Sales_Details Purchasing_Guarantees
begin

text \<open>
  The guarantees of the sales module: what is paid on an invoice is what was allocated to it, receivables and
  the ledger agree, posting and cancelling are inverse, the invoiced total of an order is what its posted
  invoices bill, payments are applied to the oldest invoices first, and a quotation is converted once. Each is
  applied to a small store with the system accounts a posting needs, or to the first documents of an empty
  database.
\<close>

section \<open>A store\<close>

definition store_books :: "unit db" where
  "store_books = (empty_db ())\<lparr>
     accounts := [shop_account 1 ''accounts_receivable'' ASSET ACCOUNTS_RECEIVABLE, shop_account 2 ''sales_revenue'' INCOME OPERATING_REVENUE,
       shop_account 3 ''gst_output'' LIABILITY OTHER_CURRENT_LIABILITY, shop_account 5 ''bank'' ASSET SUB_BANK],
     years := years shop_books, periods := periods shop_books,
     journals := [\<lparr>j_id = 13, j_org = 900, j_code = ''SAL'', j_name = ''Sales'', j_type = SALES, j_prefix = ''SI'',
         j_default = None, j_active = True, j_system = True\<rparr>,
       \<lparr>j_id = 14, j_org = 900, j_code = ''BNK'', j_name = ''Bank'', j_type = BANK, j_prefix = ''BK'',
         j_default = None, j_active = True, j_system = True\<rparr>],
     next_id := 100\<rparr>"

definition store_line :: invoice_line where
  "store_line = \<lparr>nv_line = \<lparr>nl_number = 1, nl_description = ''Widget'', nl_hsn = None, nl_quantity = 10, nl_unit = None, nl_unit_price = 10,
     nl_discount_percent = 0, nl_tax_rate = 18,
     nl_totals = \<lparr>gross = 100, discount_amount = 0, taxable = 100, cgst = 9, sgst = 9, igst = 0, tax_amount = 18, total = 118\<rparr>\<rparr>,
     nv_revenue = None\<rparr>"

definition store_totals :: document_totals where
  "store_totals = \<lparr>subtotal = 100, discount_total = 0, taxable_total = 100, cgst_total = 9, sgst_total = 9, igst_total = 0,
     tax_total = 18, round_off = 0, grand_total = 118\<rparr>"

definition store_invoice :: "uuid \<Rightarrow> string \<Rightarrow> uuid option \<Rightarrow> invoice_status \<Rightarrow> uuid option \<Rightarrow> date \<Rightarrow> invoice" where
  "store_invoice i number order status entry due = \<lparr>iv_id = i, iv_org = 900, iv_number = number, iv_customer = 40, iv_order = order,
     iv_date = 739702, iv_due = due, iv_status = status, iv_paid = 0, iv_entry = entry, iv_posted_at = None, iv_cancelled_at = None,
     iv_reversal = None, iv_gstin = None, iv_place = None, iv_treatment = INTRA_STATE, iv_currency = ''INR'', iv_totals = store_totals,
     iv_created_by = 7, iv_deleted = None, iv_lines = [store_line]\<rparr>"

definition store_order :: sales_order where
  "store_order = \<lparr>so_id = 60, so_org = 900, so_number = ''S1'', so_customer = 40, so_quotation = None, so_date = 739701, so_expected = None,
     so_reference = None, so_status = S_CONFIRMED, so_confirmed_at = Some 1, so_cancelled_at = None, so_invoiced = 0,
     so_treatment = INTRA_STATE, so_currency = ''INR'', so_totals = store_totals, so_created_by = 7, so_deleted = None, so_lines = [nv_line store_line]\<rparr>"

definition store_quotation :: quotation where
  "store_quotation = \<lparr>qu_id = 61, qu_org = 900, qu_number = ''Q1'', qu_customer = 40, qu_lead = None, qu_date = 739700, qu_valid_until = None,
     qu_status = Q_CONVERTED, qu_sent_at = None, qu_responded_at = None, qu_treatment = INTRA_STATE, qu_currency = ''INR'',
     qu_totals = store_totals, qu_created_by = 7, qu_deleted = None, qu_lines = [nv_line store_line]\<rparr>"

definition store :: "unit sales_db" where
  "store = (empty_sales ())\<lparr>purchasing := (empty_purchasing ())\<lparr>stock := (empty_stock ())\<lparr>books := store_books\<rparr>\<rparr>,
     customers := [\<lparr>cu_id = 40, cu_org = 900, cu_code = ''CUST-0001'', cu_name = ''Bolt'', cu_gstin = None, cu_state_code = None, cu_exempt = False,
       cu_country = ''IN'', cu_terms = 30, cu_credit_limit = 0, cu_currency = ''INR'', cu_discount = 0, cu_active = True,
       cu_text = (\<lambda>_. None), cu_deleted = None\<rparr>],
     quotations := [store_quotation], sales_orders := [store_order],
     invoices := [store_invoice 50 ''I1'' (Some 60) I_DRAFT None 739732, store_invoice 52 ''I2'' None I_POSTED (Some 98) 739790,
       store_invoice 53 ''I3'' None I_POSTED (Some 99) 739720],
     customer_payments := [\<lparr>py_id = 55, py_org = 900, py_number = ''R1'', py_customer = 40, py_date = 739703, py_amount = 150,
       py_unallocated = 150, py_method = M_UPI, py_reference = None, py_currency = ''INR'', py_deposit = Some 5, py_entry = Some 97,
       py_created_by = 7, py_deleted = None\<rparr>]\<rparr>"

lemma store_purchasing_inv: "purchasing_inv (purchasing store)"
  by (simp add: purchasing_inv_def store_def empty_sales_def store_books_def shop_books_def shop_account_def empty_purchasing_def empty_stock_def
    empty_db_def receipts_ok_def payables_inv_def wh_keys_def stock_inv_def ledger_inv_def core_inv_def gap_free_def numbers_unique_def
    reversals_ok_def position_def no_stock_def fun_eq_iff fresh_id_def doc_id_def)

lemma store_inv: "sales_inv store"
proof -
  have id: "sales_id store = 100"
    by (simp add: store_def empty_sales_def sales_id_def doc_id_def fresh_id_def store_books_def empty_purchasing_def empty_stock_def empty_db_def)
  have rows: "receivables_inv store"
    unfolding receivables_inv_def id
    by (simp add: store_def empty_sales_def payables_inv_def bill_ok_def payment_ok_def store_invoice_def store_totals_def store_line_def
      figures_ok_def invoice_lines_totals_def on_grid_def fits_def)
  have "orders_agree (sales_orders store) (invoices store) 100" "entries_ok (invoices store)" "quotes_ok (quotations store) 100"
    by (simp_all add: store_def empty_sales_def orders_agree_def entries_ok_def quotes_ok_def store_invoice_def store_order_def
      store_quotation_def invoiced_on_def billed_on_def invoice_is_posted_def)
  then show ?thesis using store_purchasing_inv rows by (simp add: sales_inv_def id)
qed

definition store_payment :: payment_received_create where
  "store_payment = \<lparr>rp_customer = 40, rp_date = None, rp_amount = 60, rp_method = M_UPI, rp_reference = None, rp_deposit = None,
     rp_allocations = [(50, 50)]\<rparr>"

lemma store_payment_valid: "validate_payment_received store_payment = Inr ()"
  by code_simp

lemma store_runs:
  "\<exists>st1 x1 st2 x2 st3 p3 ar. post_invoice no_hooks store 900 50 7 5000 = Inr (st1, x1) \<and>
     cancel_invoice no_hooks st1 900 50 ''error'' None 7 6000 = Inr (st2, x2) \<and>
     record_payment no_hooks st1 900 store_payment 7 739703 7000 = Inr (st3, p3) \<and>
     ledger_net (sales_ledger st1) 1 = 118 \<and> ledger_net (sales_ledger st3) 1 = 58 \<and> map so_invoiced (sales_orders st1) = [118] \<and>
     map so_status (sales_orders st2) = [S_CONFIRMED] \<and> receivable st1 900 = 204 \<and>
     resolve_system_account (sales_ledger st1) 900 ''accounts_receivable'' = Inr ar \<and> a_id ar = 1"
proof -
  have "case post_invoice no_hooks store 900 50 7 5000 of Inr (st1, x1) \<Rightarrow>
      (case cancel_invoice no_hooks st1 900 50 ''error'' None 7 6000 of Inr (st2, x2) \<Rightarrow> map so_status (sales_orders st2) = [S_CONFIRMED] | _ \<Rightarrow> False) \<and>
      ledger_net (sales_ledger st1) 1 = 118 \<and> map so_invoiced (sales_orders st1) = [118] \<and> receivable st1 900 = 204 \<and>
      (case resolve_system_account (sales_ledger st1) 900 ''accounts_receivable'' of Inr a \<Rightarrow> a_id a = 1 | _ \<Rightarrow> False) \<and>
      (case record_payment no_hooks st1 900 store_payment 7 739703 7000 of
         Inr (st3, p3) \<Rightarrow> ledger_net (sales_ledger st3) 1 = 58 | _ \<Rightarrow> False) | _ \<Rightarrow> False"
    by code_simp
  then show ?thesis by (auto split: sum.splits prod.splits)
qed

text \<open>The first customer, order and invoice of an empty database.\<close>

definition first_customer :: customer_create where
  "first_customer = \<lparr>cc_code = Some ''CUST-0001'', cc_name = ''Bolt'', cc_gstin = None, cc_exempt = False, cc_country = ''IN'', cc_terms = 30,
     cc_credit_limit = 0, cc_discount = 0, cc_text = []\<rparr>"

definition first_sale :: sales_line_input where
  "first_sale = \<lparr>ni_description = ''Rent'', ni_hsn = None, ni_quantity = 1, ni_unit = None, ni_unit_price = 10, ni_discount_percent = 0,
     ni_discount_amount = None, ni_tax_rate = 0, ni_revenue = None\<rparr>"

definition first_order :: sales_order_create where
  "first_order = \<lparr>od_customer = 1, od_quotation = None, od_date = None, od_expected = None, od_reference = None, od_lines = [first_sale],
     od_round_to_whole = False\<rparr>"

definition first_invoice :: invoice_create where
  "first_invoice = \<lparr>ic_customer = 1, ic_order = None, ic_date = None, ic_due = None, ic_lines = [first_sale], ic_round_to_whole = False,
     ic_post = False\<rparr>"

lemma first_sale_figures:
  "compute_sales_input tr first_sale =
     \<lparr>gross = 10, discount_amount = 0, taxable = 10, cgst = 0, sgst = 0, igst = 0, tax_amount = 0, total = 10\<rparr>"
  "sales_totals_of tr [first_sale] False = \<lparr>subtotal = 10, discount_total = 0, taxable_total = 10, cgst_total = 0, sgst_total = 0,
     igst_total = 0, tax_total = 0, round_off = 0, grand_total = 10\<rparr>"
proof -
  have l: "as_input first_sale = first_line" by (simp add: as_input_def first_sale_def first_line_def)
  then show "compute_sales_input tr first_sale =
     \<lparr>gross = 10, discount_amount = 0, taxable = 10, cgst = 0, sgst = 0, igst = 0, tax_amount = 0, total = 10\<rparr>"
    by (simp add: compute_as_input first_figures)
  show "sales_totals_of tr [first_sale] False = \<lparr>subtotal = 10, discount_total = 0, taxable_total = 10, cgst_total = 0, sgst_total = 0,
     igst_total = 0, tax_total = 0, round_off = 0, grand_total = 10\<rparr>"
    by (simp add: totals_as_input l first_figures)
qed

lemma first_sales_valid: "validate_invoice_create first_invoice = Inr ()" "validate_sales_lines (od_lines first_order) = Inr ()"
  by code_simp+

lemma first_customer_runs:
  "\<exists>st c st1 n st2 m. create_customer (empty_sales ()) 900 first_customer 7 = Inr (st, c) \<and> active_customer st 900 1 = Inr c \<and> cu_terms c = 30 \<and>
     invoices st = [] \<and> sales_orders st = [] \<and> sales_number st 900 ''invoice'' ''INV'' 739702 = Inr (st1, n) \<and>
     sales_number st 900 ''sales_order'' ''SO'' 739702 = Inr (st2, m)"
proof -
  have "case create_customer (empty_sales ()) 900 first_customer 7 of Inr (st, c) \<Rightarrow> invoices st = [] \<and> sales_orders st = [] \<and> cu_terms c = 30 \<and>
     is_ok (active_customer st 900 1) \<and> is_ok (sales_number st 900 ''invoice'' ''INV'' 739702) \<and>
     is_ok (sales_number st 900 ''sales_order'' ''SO'' 739702) | _ \<Rightarrow> False" by code_simp
  then obtain st c c' st1 n st2 m where st: "create_customer (empty_sales ()) 900 first_customer 7 = Inr (st, c)" "invoices st = []"
    "sales_orders st = []" "cu_terms c = 30" "active_customer st 900 1 = Inr c'"
    "sales_number st 900 ''invoice'' ''INV'' 739702 = Inr (st1, n)" "sales_number st 900 ''sales_order'' ''SO'' 739702 = Inr (st2, m)"
    by (auto simp: is_ok_iff split: sum.splits)
  have "customers st = [c]" using st(1) by (auto simp: create_customer_def Let_def add_customer_def empty_sales_def)
  then have "c' = c" using st(5) by (auto simp: active_customer_def get_customer_def split: if_splits)
  with st show ?thesis by blast
qed

lemma first_invoice_runs:
  "\<exists>st c st' x. create_customer (empty_sales ()) 900 first_customer 7 = Inr (st, c) \<and>
     create_invoice no_hooks st 900 first_invoice 7 739702 None 5000 = Inr (st', x) \<and> invoices st' = [x] \<and> grand_total (iv_totals x) = 10"
proof -
  obtain st c st1 n where st: "create_customer (empty_sales ()) 900 first_customer 7 = Inr (st, c)" "active_customer st 900 1 = Inr c"
    "cu_terms c = 30" "invoices st = []" "sales_number st 900 ''invoice'' ''INV'' 739702 = Inr (st1, n)" using first_customer_runs by blast
  have i1: "invoices st1 = []" by (subst sales_numberD(2) [OF st(5)]) (simp add: st(4))
  have sel: "ic_customer first_invoice = 1" "ic_order first_invoice = None" "ic_date first_invoice = None" "ic_due first_invoice = None"
    "ic_lines first_invoice = [first_sale]" "\<not> ic_round_to_whole first_invoice" "\<not> ic_post first_invoice" "ni_revenue first_sale = None"
    "ni_quantity first_sale = 1" "ni_unit_price first_sale = 10" "ni_tax_rate first_sale = 0"
    by (simp_all add: first_invoice_def first_sale_def)
  have "create_invoice no_hooks st 900 first_invoice 7 739702 None 5000 = Inr (st', x) \<longrightarrow> invoices st' = [x] \<and> grand_total (iv_totals x) = 10" for st' x
    using st(2-5) i1 by (auto simp: create_invoice_def Let_def sel first_sale_figures add_invoice_def)
  moreover have "is_ok (create_invoice no_hooks st 900 first_invoice 7 739702 None 5000)"
    using st(2-5) i1
    by (simp add: create_invoice_def Let_def sel first_sale_figures add_invoice_def invoice_checks_def document_checks_def
      customer_due_date_def shift_days_def MAX_ORDINAL_def fk_ok_def invoice_rows_def apply_sales_line_def sales_line_checks_def fits_def)
  ultimately show ?thesis using st(1) by (auto simp: is_ok_iff)
qed

lemma first_order_runs:
  "\<exists>st c st' y. create_customer (empty_sales ()) 900 first_customer 7 = Inr (st, c) \<and>
     create_sales_order st 900 first_order 7 739702 None = Inr (st', y) \<and> sales_orders st' = [y] \<and> invoices st' = [] \<and> grand_total (so_totals y) = 10"
proof -
  obtain st c st1 n where st: "create_customer (empty_sales ()) 900 first_customer 7 = Inr (st, c)" "active_customer st 900 1 = Inr c"
    "invoices st = []" "sales_orders st = []" "sales_number st 900 ''sales_order'' ''SO'' 739702 = Inr (st1, n)" using first_customer_runs by blast
  have i1: "invoices st1 = []" "sales_orders st1 = []" by (subst sales_numberD(2) [OF st(5)], simp add: st(3,4))+
  have sel: "od_customer first_order = 1" "od_quotation first_order = None" "od_date first_order = None" "od_expected first_order = None"
    "od_lines first_order = [first_sale]" "\<not> od_round_to_whole first_order" "ni_quantity first_sale = 1" "ni_unit_price first_sale = 10"
    "ni_tax_rate first_sale = 0"
    by (simp_all add: first_order_def first_sale_def)
  have "create_sales_order st 900 first_order 7 739702 None = Inr (st', y) \<longrightarrow>
      sales_orders st' = [y] \<and> invoices st' = [] \<and> grand_total (so_totals y) = 10" for st' y
    using st(2-5) i1 by (auto simp: create_sales_order_def Let_def sel first_sale_figures add_sales_order_def)
  moreover have "is_ok (create_sales_order st 900 first_order 7 739702 None)"
    using st(2-5) i1
    by (simp add: create_sales_order_def Let_def sel first_sale_figures add_sales_order_def sales_order_checks_def document_checks_def
      fk_ok_def apply_sales_line_def sales_line_checks_def fits_def)
  ultimately show ?thesis using st(1) by (auto simp: is_ok_iff)
qed

section \<open>Receivables\<close>

text \<open>
  C24. Receivables agree with the allocations. Whatever the sequence of operations of sales, purchasing, stock and
  the ledger, the paid amount of an invoice is the sum of the allocations to it, lies between zero and the
  total, and determines the status; a payment is its unallocated rest plus what was allocated from it; and
  an allocation is positive and joins an invoice and a payment of the same customer and organization.
\<close>

theorem receivables_agree:
  assumes "sales_reachable hs h st"
  shows "(\<forall>x \<in> set (invoices st).
       iv_paid x = sum_list (map pa_amount (filter (\<lambda>a. pa_invoice a = iv_id x) (payment_allocations st))) \<and>
       0 \<le> iv_paid x \<and> iv_paid x \<le> grand_total (iv_totals x) \<and>
       (iv_status x = I_PAID \<longrightarrow> iv_paid x = grand_total (iv_totals x)) \<and>
       (iv_status x = I_PARTIALLY_PAID \<longrightarrow> 0 < iv_paid x \<and> iv_paid x < grand_total (iv_totals x)) \<and>
       (iv_status x \<in> {I_DRAFT, I_POSTED, I_CANCELLED} \<longrightarrow> iv_paid x = 0)) \<and>
     (\<forall>p \<in> set (customer_payments st). 0 \<le> py_unallocated p \<and>
       py_amount p = py_unallocated p + sum_list (map pa_amount (filter (\<lambda>a. pa_payment a = py_id p) (payment_allocations st)))) \<and>
     (\<forall>a \<in> set (payment_allocations st). 0 < pa_amount a \<and>
       (\<exists>x \<in> set (invoices st). \<exists>p \<in> set (customer_payments st). iv_id x = pa_invoice a \<and> py_id p = pa_payment a \<and>
          iv_customer x = py_customer p \<and> iv_org x = py_org p))"
proof -
  note inv = sales_invD(2) [OF sales_reachable_inv [OF assms], unfolded receivables_inv_def]
  have status: "0 \<le> x \<and> x \<le> t \<and> (s = I_PAID \<longrightarrow> x = t) \<and> (s = I_PARTIALLY_PAID \<longrightarrow> 0 < x \<and> x < t) \<and>
      (s \<in> {I_DRAFT, I_POSTED, I_CANCELLED} \<longrightarrow> x = 0)" if "status_ok (as_status s) x t" for s x t
    using that by (cases s) simp_all
  have paid: "paid_to (map as_allocation as) i = sum_list (map pa_amount (filter (\<lambda>a. pa_invoice a = i) as))"
    and spent: "spent_by (map as_allocation as) i = sum_list (map pa_amount (filter (\<lambda>a. pa_payment a = i) as))" for as i
    by (simp_all add: paid_to_def spent_by_def filter_map o_def)
  show ?thesis
  proof (intro conjI)
    show "\<forall>x \<in> set (invoices st).
       iv_paid x = sum_list (map pa_amount (filter (\<lambda>a. pa_invoice a = iv_id x) (payment_allocations st))) \<and>
       0 \<le> iv_paid x \<and> iv_paid x \<le> grand_total (iv_totals x) \<and>
       (iv_status x = I_PAID \<longrightarrow> iv_paid x = grand_total (iv_totals x)) \<and>
       (iv_status x = I_PARTIALLY_PAID \<longrightarrow> 0 < iv_paid x \<and> iv_paid x < grand_total (iv_totals x)) \<and>
       (iv_status x \<in> {I_DRAFT, I_POSTED, I_CANCELLED} \<longrightarrow> iv_paid x = 0)"
    proof
      fix x assume "x \<in> set (invoices st)"
      then have "as_bill x \<in> set (map as_bill (invoices st))" by simp
      from payables_invD(5) [OF inv this] have b: "iv_paid x = paid_to (map as_allocation (payment_allocations st)) (iv_id x)"
        "status_ok (as_status (iv_status x)) (iv_paid x) (grand_total (iv_totals x))"
        unfolding bill_ok_def as_bill_simps by blast+
      show "iv_paid x = sum_list (map pa_amount (filter (\<lambda>a. pa_invoice a = iv_id x) (payment_allocations st))) \<and>
       0 \<le> iv_paid x \<and> iv_paid x \<le> grand_total (iv_totals x) \<and>
       (iv_status x = I_PAID \<longrightarrow> iv_paid x = grand_total (iv_totals x)) \<and>
       (iv_status x = I_PARTIALLY_PAID \<longrightarrow> 0 < iv_paid x \<and> iv_paid x < grand_total (iv_totals x)) \<and>
       (iv_status x \<in> {I_DRAFT, I_POSTED, I_CANCELLED} \<longrightarrow> iv_paid x = 0)"
        using status [OF b(2)] b(1) unfolding paid by blast
    qed
  qed (use inv in \<open>simp_all add: payables_inv_def payment_ok_def spent linked_def\<close>)
qed

theorem receivables_agree_witness:
  "\<exists>st x. sales_reachable no_hooks () st \<and> invoices st = [x] \<and> grand_total (iv_totals x) = 10 \<and>
     iv_paid x = sum_list (map pa_amount (filter (\<lambda>a. pa_invoice a = iv_id x) (payment_allocations st)))"
proof -
  obtain st c st' x where r: "create_customer (empty_sales ()) 900 first_customer 7 = Inr (st, c)"
    "create_invoice no_hooks st 900 first_invoice 7 739702 None 5000 = Inr (st', x)" "invoices st' = [x]" "grand_total (iv_totals x) = 10"
    using first_invoice_runs by blast
  have "sales_step no_hooks (empty_sales ()) st" "sales_step no_hooks st st'"
    by (rule sales_step.customer_new [OF r(1)], rule sales_step.invoice_new [OF first_sales_valid(1) r(2)])
  then have "sales_reachable no_hooks () st'" by (simp add: sales_reachable_def)
  with receivables_agree [OF this] r(3,4) show ?thesis by auto
qed

text \<open>
  C26. An invoice's entry balances. For every invoice of a consistent database with a positive total, the entry
  that posting builds passes the balance check of the ledger, and it moves each account by the receivable,
  revenue, tax and rounding that fall on it.
\<close>

theorem invoice_entry_balances:
  assumes "sales_inv st" and "x \<in> set (invoices st)" and "0 < grand_total (iv_totals x)" and "invoice_entry st org x = Inr d"
  shows "validate_balance (ec_lines d) = Inr () \<and> ec_post d \<and>
    sum_list (map li_debit (ec_lines d)) = sum_list (map li_credit (ec_lines d)) \<and>
    (\<forall>a. sum_list (map (\<lambda>l. li_debit l - li_credit l) (filter (\<lambda>l. li_account l = a) (ec_lines d))) = invoice_net st org x a)"
proof -
  note e = invoice_entry_ok [OF invoice_row(1) [OF sales_invD(2) [OF assms(1)] assms(2)] assms(3,4)]
  have "sum_list (map li_debit (ec_lines d)) = sum_list (map li_credit (ec_lines d))"
    using e(1) by (auto simp: validate_balance_def Let_def)
  with e show ?thesis by (simp add: lines_net_def)
qed

theorem invoice_entry_balances_witness:
  "\<exists>x d. x \<in> set (invoices store) \<and> invoice_entry store 900 x = Inr d \<and> validate_balance (ec_lines d) = Inr () \<and> length (ec_lines d) = 4"
proof -
  let ?x = "store_invoice 50 ''I1'' (Some 60) I_DRAFT None 739732"
  have "case invoice_entry store 900 ?x of Inr d \<Rightarrow> length (ec_lines d) = 4 | _ \<Rightarrow> False" by code_simp
  then obtain d where d: "invoice_entry store 900 ?x = Inr d" "length (ec_lines d) = 4" by (auto split: sum.splits)
  have x: "?x \<in> set (invoices store)" "0 < grand_total (iv_totals ?x)" by (simp_all add: store_def store_invoice_def store_totals_def)
  from invoice_entry_balances [OF store_inv x d(1)] x(1) d show ?thesis by blast
qed

lemma invoice_net_receivable:
  assumes inv: "sales_inv st" and ar: "resolve_system_account (sales_ledger st) org ''accounts_receivable'' = Inr ar"
    and ls: "\<forall>l \<in> set (iv_lines x). nv_revenue l \<noteq> Some (a_id ar)"
  shows "invoice_net st org x (a_id ar) = grand_total (iv_totals x)"
proof -
  have li: "ledger_inv (sales_ledger st)"
    using stock_invD(1) [OF purchasing_invD(1) [OF sales_invD(1) [OF inv]]] by (simp add: ledger_def)
  note other = account_is_distinct [OF li ar]
  have "revenue_net st org x (a_id ar) = 0"
  proof (cases "resolve_system_account (sales_ledger st) org ''sales_revenue''")
    case (Inr d)
    then have "a_id d \<noteq> a_id ar" using other [of "''sales_revenue''"] by (simp add: account_is_def)
    with ls have "filter (\<lambda>l. line_revenue d l = a_id ar) (iv_lines x) = []"
      by (auto simp: filter_empty_conv line_revenue_def split: option.splits)
    with Inr show ?thesis by (simp add: revenue_net_def)
  qed (simp add: revenue_net_def)
  then show ?thesis using other ar by (simp add: invoice_net_def account_is_def)
qed

text \<open>
  C25. The control account. The balance of Accounts Receivable and what the sub-ledger says customers owe (the
  outstanding amounts of the posted invoices less the unallocated rests of the payments) stay in step:
  posting an invoice none of whose lines is credited to Accounts Receivable itself, recording a payment,
  and allocating a payment by hand or automatically each leave their difference unchanged.
\<close>

theorem receivables_control:
  assumes "sales_inv st" and "resolve_system_account (sales_ledger st) org ''accounts_receivable'' = Inr ar"
    and "(post_invoice hs st org i actor now = Inr (st', x') \<and>
           (\<forall>x \<in> set (invoices st). iv_id x = i \<longrightarrow> (\<forall>l \<in> set (iv_lines x). nv_revenue l \<noteq> Some (a_id ar)))) \<or>
         (validate_payment_received d = Inr () \<and> record_payment hs st org d actor today now = Inr (st', p')) \<or>
         (validate_allocate_request as = Inr () \<and> allocate_receipt st org i as actor = Inr (st', p')) \<or>
         auto_allocate st org i actor = Inr (st', p')"
  shows "ledger_net (sales_ledger st') (a_id ar) - receivable st' org = ledger_net (sales_ledger st) (a_id ar) - receivable st org"
  using assms(3)
proof (elim disjE conjE)
  assume op: "post_invoice hs st org i actor now = Inr (st', x')"
    and ls: "\<forall>x \<in> set (invoices st). iv_id x = i \<longrightarrow> (\<forall>l \<in> set (iv_lines x). nv_revenue l \<noteq> Some (a_id ar))"
  show ?thesis
    using post_invoice_effect [OF assms(1) op]
  proof cases
    case (1 x e)
    have net: "invoice_net st org x (a_id ar) = grand_total (iv_totals x)"
      by (rule invoice_net_receivable [OF assms(1,2)]) (use ls 1(1,2) in blast)
    let ?f = "\<lambda>x. if iv_org x = org \<and> invoice_is_posted (iv_status x) then invoice_outstanding x else 0"
    have "sum_list (map ?f (invoices st')) = sum_list (map ?f (invoices st)) + ?f x' - ?f x"
      unfolding 1(13) by (rule sum_replaced [OF invoice_ids [OF sales_invD(2) [OF assms(1)]] 1(1)]) (simp add: 1(6))
    then have "receivable st' org = receivable st org + ?f x' - ?f x" by (simp add: receivable_def sum_filtered 1(14))
    then show ?thesis using 1 net by (simp add: invoice_outstanding_def invoice_is_posted_def)
  qed
next
  assume v: "validate_payment_received d = Inr ()" and op: "record_payment hs st org d actor today now = Inr (st', p')"
  show ?thesis
    using record_payment_effect [OF assms(1) v op]
  proof cases
    case (1 ar' deposit)
    then show ?thesis using assms(2) by (simp add: pair_net_def)
  qed
next
  assume v: "validate_allocate_request as = Inr ()" and op: "allocate_receipt st org i as actor = Inr (st', p')"
  show ?thesis using allocate_receipt_effect [OF assms(1) v op] quiet_ledger(1) [of "purchasing st" "purchasing st'"] by simp
next
  assume op: "auto_allocate st org i actor = Inr (st', p')"
  show ?thesis
    using auto_allocate_effect [OF assms(1) op]
  proof cases
    case (1 p)
    then show ?thesis using quiet_ledger(1) [of "purchasing st" "purchasing st'"] by simp
  qed
qed

theorem receivables_control_witness:
  "\<exists>st x st' p. post_invoice no_hooks store 900 50 7 5000 = Inr (st, x) \<and> record_payment no_hooks st 900 store_payment 7 739703 7000 = Inr (st', p) \<and>
     ledger_net (sales_ledger st) 1 = 118 \<and> ledger_net (sales_ledger st') 1 = 58 \<and> receivable st 900 = 204 \<and> receivable st' 900 = 144"
proof -
  obtain st1 x1 st3 p3 ar where r: "post_invoice no_hooks store 900 50 7 5000 = Inr (st1, x1)"
    "record_payment no_hooks st1 900 store_payment 7 739703 7000 = Inr (st3, p3)" "ledger_net (sales_ledger st1) 1 = 118"
    "ledger_net (sales_ledger st3) 1 = 58" "receivable st1 900 = 204"
    "resolve_system_account (sales_ledger st1) 900 ''accounts_receivable'' = Inr ar" "a_id ar = 1"
    using store_runs by blast
  have inv: "sales_inv st1" by (rule post_invoice_effect [OF store_inv r(1)])
  have "ledger_net (sales_ledger st3) 1 - receivable st3 900 = ledger_net (sales_ledger st1) 1 - receivable st1 900"
    using receivables_control [OF inv r(6), of no_hooks 0 7 7000 st3 x1 store_payment 739703 p3 "[]"] r(2,7) store_payment_valid by simp
  with r show ?thesis by auto
qed

text \<open>
  C27. Cancelling an invoice undoes its posting. Whatever the reason and the date given for the reversal, when an
  invoice that was just posted is cancelled every account of the ledger, what customers owe, and the
  invoiced total of every sales order are as before.
\<close>

theorem invoice_post_cancel:
  assumes "sales_inv st" and "post_invoice hs st org i actor now = Inr (st1, x1)"
    and "cancel_invoice hs st1 org i reason cd actor' now' = Inr (st2, x2)"
  shows "ledger_net (sales_ledger st2) a = ledger_net (sales_ledger st) a \<and> iv_status x2 = I_CANCELLED \<and>
    receivable st2 org = receivable st org \<and>
    (\<forall>y \<in> set (sales_orders st). \<exists>y' \<in> set (sales_orders st2). so_id y' = so_id y \<and> so_invoiced y' = so_invoiced y)"
  using post_invoice_effect [OF assms(1,2)]
proof cases
  case p: (1 x e)
  note ids = invoice_ids [OF sales_invD(2) [OF assms(1)]] and ids1 = invoice_ids [OF sales_invD(2) [OF p(12)]]
  have x1: "x1 \<in> set (invoices st1)" using p(1,2,6) unfolding p(13) by (force simp: update_where_def)
  show ?thesis
    using cancel_invoice_effect [OF p(12) assms(3)]
  proof cases
    case c: (1 y j original)
    have "iv_id y = iv_id x1" using c(2) p(2,6) by simp
    then have y: "y = x1" using x1 c(1) ids1 by (auto simp: distinct_map dest: inj_onD)
    have "distinct (map e_id (entries (sales_ledger st1)))"
      using stock_invD(1) [OF purchasing_invD(1) [OF sales_invD(1) [OF p(12)]]] by (simp add: ledger_inv_def core_inv_def ledger_def)
    then have "original = e" using c(6-8) p(6,8) y by (auto simp: distinct_map dest: inj_onD)
    then have net: "ledger_net (sales_ledger st2) a = ledger_net (sales_ledger st) a" using c(12) [of a] p(10,11) by simp
    let ?f = "\<lambda>x. if iv_org x = org \<and> invoice_is_posted (iv_status x) then invoice_outstanding x else 0"
    have up: "\<And>f :: invoice \<Rightarrow> decimal. sum_list (map f (invoices st1)) = sum_list (map f (invoices st)) + f x1 - f x"
      unfolding p(13) by (rule sum_replaced [OF ids p(1)]) (simp add: p(6))
    have down: "\<And>f :: invoice \<Rightarrow> decimal. sum_list (map f (invoices st2)) = sum_list (map f (invoices st1)) + f x2 - f x1"
      unfolding c(14) by (rule sum_replaced [OF ids1 x1]) (simp add: c(10) y)
    have "receivable st2 org = receivable st org"
      using up [of ?f] down [of ?f] p(4,14) c(9,15) by (simp add: receivable_def sum_filtered invoice_is_posted_def)
    moreover have "invoiced_on (invoices st2) k = invoiced_on (invoices st) k" for k
      using up [of "billed_on k"] down [of "billed_on k"] p(4) c(9) by (simp add: invoiced_on_def billed_on_def invoice_is_posted_def)
    then have "\<exists>y' \<in> set (sales_orders st2). so_id y' = so_id z \<and> so_invoiced y' = so_invoiced z" if z: "z \<in> set (sales_orders st)" for z
    proof -
      have "map so_id (sales_orders st2) = map so_id (sales_orders st)" using c(16) p(16) by (simp add: shifted_def)
      then have "so_id ` set (sales_orders st2) = so_id ` set (sales_orders st)" by (metis list.set_map)
      then obtain z' where z': "z' \<in> set (sales_orders st2)" "so_id z' = so_id z" using z by (metis imageE imageI)
      then have "so_invoiced z' = so_invoiced z"
        using orders_agreeD(4) [OF sales_invD(3) [OF c(13)] z'(1)] orders_agreeD(4) [OF sales_invD(3) [OF assms(1)] z]
          \<open>\<And>k. invoiced_on (invoices st2) k = invoiced_on (invoices st) k\<close> by simp
      with z' show ?thesis by blast
    qed
    ultimately show ?thesis using net c(9) by blast
  qed
qed

theorem invoice_post_cancel_witness:
  "\<exists>st1 x1 st2 x2. post_invoice no_hooks store 900 50 7 5000 = Inr (st1, x1) \<and>
     cancel_invoice no_hooks st1 900 50 ''error'' None 7 6000 = Inr (st2, x2) \<and> ledger_net (sales_ledger st1) 1 = 118 \<and>
     ledger_net (sales_ledger st2) 1 = ledger_net (sales_ledger store) 1 \<and> receivable st2 900 = receivable store 900"
proof -
  obtain st1 x1 st2 x2 where r: "post_invoice no_hooks store 900 50 7 5000 = Inr (st1, x1)"
    "cancel_invoice no_hooks st1 900 50 ''error'' None 7 6000 = Inr (st2, x2)" "ledger_net (sales_ledger st1) 1 = 118"
    using store_runs by blast
  with invoice_post_cancel [OF store_inv r(1,2), of 1] show ?thesis by blast
qed

section \<open>Orders and quotations\<close>

text \<open>
  C28. The invoiced total of an order. Whatever the sequence of operations, the invoiced total of a sales order is
  the sum of the totals of the posted invoices raised on it, so it is never negative; and every invoice that
  names an order names one that exists.
\<close>

theorem orders_invoiced:
  assumes "sales_reachable hs h st"
  shows "(\<forall>y \<in> set (sales_orders st). 0 \<le> so_invoiced y \<and>
       so_invoiced y = sum_list (map (\<lambda>x. grand_total (iv_totals x))
         (filter (\<lambda>x. iv_order x = Some (so_id y) \<and> invoice_is_posted (iv_status x)) (invoices st)))) \<and>
     (\<forall>x \<in> set (invoices st). \<forall>k. iv_order x = Some k \<longrightarrow> (\<exists>y \<in> set (sales_orders st). so_id y = k))"
proof -
  note inv = sales_reachable_inv [OF assms]
  note o = sales_invD(3) [OF inv]
  have sum: "invoiced_on xs k = sum_list (map (\<lambda>x. grand_total (iv_totals x)) (filter (\<lambda>x. iv_order x = Some k \<and> invoice_is_posted (iv_status x)) xs))"
    for xs k by (simp add: invoiced_on_def billed_on_def [abs_def] sum_filtered)
  have nn: "0 \<le> invoiced_on (invoices st) k" for k
    unfolding invoiced_on_def by (rule sum_list_nonneg) (use invoice_row(4) [OF sales_invD(2) [OF inv]] in \<open>auto simp: billed_on_def\<close>)
  show ?thesis
  proof (intro conjI ballI allI impI)
    fix y assume y: "y \<in> set (sales_orders st)"
    show "0 \<le> so_invoiced y" using orders_agreeD(4) [OF o y] nn by simp
    show "so_invoiced y = sum_list (map (\<lambda>x. grand_total (iv_totals x))
         (filter (\<lambda>x. iv_order x = Some (so_id y) \<and> invoice_is_posted (iv_status x)) (invoices st)))"
      using orders_agreeD(4) [OF o y] by (simp only: sum)
  next
    fix x k assume "x \<in> set (invoices st)" "iv_order x = Some k"
    then show "\<exists>y \<in> set (sales_orders st). so_id y = k" using orders_agreeD(5) [OF o] by fastforce
  qed
qed

theorem orders_invoiced_witness:
  "\<exists>st y. sales_reachable no_hooks () st \<and> sales_orders st = [y] \<and> grand_total (so_totals y) = 10 \<and> so_invoiced y = 0"
proof -
  obtain st c st' y where r: "create_customer (empty_sales ()) 900 first_customer 7 = Inr (st, c)"
    "create_sales_order st 900 first_order 7 739702 None = Inr (st', y)" "sales_orders st' = [y]" "invoices st' = []" "grand_total (so_totals y) = 10"
    using first_order_runs by blast
  have "sales_step no_hooks (empty_sales ()) st" "sales_step no_hooks st st'"
    by (rule sales_step.customer_new [OF r(1)], rule sales_step.order_new [OF first_sales_valid(2) r(2)])
  then have "sales_reachable no_hooks () st'" by (simp add: sales_reachable_def)
  with orders_invoiced [OF this] r(3-5) show ?thesis by auto
qed

text \<open>
  C29. A quotation is converted once. From a consistent state in which a quotation has been converted, no run of the
  services leads to a state where converting it again succeeds, whoever asks and whenever.
\<close>

theorem quotation_converted_once:
  assumes "sales_inv st" and "q \<in> set (quotations st)" and "qu_status q = Q_CONVERTED" and "(sales_step hs)\<^sup>*\<^sup>* st st'"
  shows "\<not> is_ok (from_quotation st' org (qu_id q) actor today gstin)"
proof
  assume "is_ok (from_quotation st' org (qu_id q) actor today gstin)"
  then obtain r where r: "get_quotation st' org (qu_id q) = Inr r" "qu_status r \<noteq> Q_CONVERTED"
    by (auto simp: is_ok_iff from_quotation_def)
  have "sales_inv st' \<and> (converted st (qu_id q) \<longrightarrow> converted st' (qu_id q))"
    by (rule sales.run_keeps [OF assms(4,1)]) (use step_keeps_converted in blast)+
  then have inv: "sales_inv st'" and "converted st' (qu_id q)" using assms(2,3) by (auto simp: converted_def)
  then obtain c where c: "c \<in> set (quotations st')" "qu_id c = qu_id q" "qu_status c = Q_CONVERTED" by (auto simp: converted_def)
  have "distinct (map qu_id (quotations st'))" using sales_invD(4) [OF inv] by (simp add: quotes_ok_def)
  moreover have "qu_id r = qu_id c" "r \<in> set (quotations st')" using c(2) get_quotation_ok [OF r(1)] by simp_all
  ultimately have "r = c" using c(1) by (auto simp: distinct_map dest: inj_onD)
  with c r show False by simp
qed

theorem quotation_converted_once_witness:
  "\<exists>st x. post_invoice no_hooks store 900 50 7 5000 = Inr (st, x) \<and> \<not> is_ok (from_quotation st 900 61 7 739703 None)"
proof -
  obtain st1 x1 where r: "post_invoice no_hooks store 900 50 7 5000 = Inr (st1, x1)" using store_runs by blast
  have q: "store_quotation \<in> set (quotations store)" "qu_status store_quotation = Q_CONVERTED" "qu_id store_quotation = 61"
    by (simp_all add: store_def store_quotation_def)
  have "(sales_step no_hooks)\<^sup>*\<^sup>* store st1" using sales_step.invoice_post [OF r] by blast
  from quotation_converted_once [OF store_inv q(1,2) this, of 900 7 739703 None] r q(3) show ?thesis by auto
qed

section \<open>Payments\<close>

text \<open>
  C30. Automatic allocation pays the oldest invoices first. The invoices considered are exactly the customer's posted
  invoices with an amount outstanding, by due date and then by invoice date; the payment goes to an initial
  part of them, all but the last of which it settles in full; each invoice's paid amount rises by what the
  plan gives it; and what remains of the payment is what the invoices could not absorb.
\<close>

theorem auto_allocate_oldest_first:
  assumes "sales_inv st" and "auto_allocate st org i actor = Inr (st', p')"
  shows "\<exists>p xs plan. p \<in> set (customer_payments st) \<and> py_id p = i \<and> py_org p = org \<and>
     set xs = {x \<in> set (invoices st). iv_org x = org \<and> iv_customer x = py_customer p \<and> iv_deleted x = None \<and>
       iv_status x \<in> {I_POSTED, I_PARTIALLY_PAID} \<and> iv_paid x < grand_total (iv_totals x)} \<and>
     sorted (map iv_due xs) \<and> (\<forall>k. sorted (map iv_date (filter (\<lambda>x. iv_due x = k) xs))) \<and>
     map fst plan = take (length plan) (map iv_id xs) \<and>
     (\<forall>k. Suc k < length plan \<longrightarrow> snd (plan ! k) = invoice_outstanding (xs ! k)) \<and>
     map (\<lambda>x. (iv_id x, iv_paid x)) (invoices st') =
       map (\<lambda>x. (iv_id x, iv_paid x + sum_list (map snd (filter (\<lambda>y. fst y = iv_id x) plan)))) (invoices st) \<and>
     py_unallocated p' = max 0 (py_unallocated p - sum_list (map invoice_outstanding xs))"
proof -
  from assms(2) obtain p where p: "get_customer_payment st org i = Inr p" by (auto simp: auto_allocate_def)
  note pk = get_customer_payment_ok [OF p] and rinv = sales_invD(2) [OF assms(1)]
  define xs where "xs = outstanding_for_customer st org (py_customer p)"
  define plan where "plan = allocation_plan (py_unallocated p) xs"
  have set: "set xs = {x \<in> set (invoices st). iv_org x = org \<and> iv_customer x = py_customer p \<and> iv_deleted x = None \<and>
      iv_status x \<in> {I_POSTED, I_PARTIALLY_PAID} \<and> iv_paid x < grand_total (iv_totals x)}"
    unfolding xs_def by (rule outstanding_rows)
  have pos: "\<forall>x \<in> set xs. 0 < invoice_outstanding x" unfolding set by (simp add: invoice_outstanding_def)
  have nn: "0 \<le> py_unallocated p"
    using payables_invD(7) [OF rinv [unfolded receivables_inv_def], of "as_payment p"] pk by (simp add: payment_ok_def)
  have total: "sum_list (map snd plan) = min (py_unallocated p) (sum_list (map invoice_outstanding xs))"
    unfolding plan_def by (rule plan_total) (use pos nn in auto)
  have eff: "py_unallocated p' = py_unallocated p - sum_list (map snd plan) \<and>
      map (\<lambda>x. (iv_id x, iv_paid x)) (invoices st') =
       map (\<lambda>x. (iv_id x, iv_paid x + sum_list (map snd (filter (\<lambda>y. fst y = iv_id x) plan)))) (invoices st)"
  proof (cases "plan = []")
    case True
    then have "st' = st" "p' = p" using assms(2) p by (auto simp: auto_allocate_def plan_def xs_def Let_def split: if_splits)
    then show ?thesis using True by simp
  next
    case False
    then have "\<not> py_unallocated p \<le> 0" unfolding plan_def by (cases xs) auto
    with False assms(2) p have a: "apply_to_invoices st org p plan actor = Inr (st', p')"
      by (simp add: auto_allocate_def plan_def xs_def Let_def)
    then obtain ex st1 where s: "settle_each st org ex p plan = Inr (st1, p')" "invoices st' = invoices st1"
      by (auto simp: apply_to_invoices_def save_customer_payment_def Let_def)
    have "py_unallocated p' = py_unallocated p - sum_list (map snd plan)"
      using apply_to_invoices_effect [OF assms(1) _ _ _ a] pk plan_positive unfolding plan_def by auto
    then show ?thesis using settle_each_paid [OF invoice_ids [OF rinv] s(1)] s(2) by simp
  qed
  have "py_unallocated p' = max 0 (py_unallocated p - sum_list (map invoice_outstanding xs))" using eff total by (simp add: min_def max_def)
  then show ?thesis
    using pk set outstanding_sorted [where st = st and org = org and i = "py_customer p", folded xs_def] plan_shape [OF pos, of "py_unallocated p", folded plan_def] eff by blast
qed

theorem auto_allocate_oldest_first_witness:
  "\<exists>st p plan. auto_allocate store 900 55 7 = Inr (st, p) \<and> py_unallocated p = 0 \<and> map iv_paid (invoices st) = [0, 32, 118] \<and>
     map (\<lambda>x. (iv_id x, iv_paid x)) (invoices st) =
       map (\<lambda>x. (iv_id x, iv_paid x + sum_list (map snd (filter (\<lambda>y. fst y = iv_id x) plan)))) (invoices store)"
proof -
  have "case auto_allocate store 900 55 7 of Inr (st, p) \<Rightarrow> py_unallocated p = 0 \<and> map iv_paid (invoices st) = [0, 32, 118] | _ \<Rightarrow> False"
    by code_simp
  then obtain st p where r: "auto_allocate store 900 55 7 = Inr (st, p)" "py_unallocated p = 0" "map iv_paid (invoices st) = [0, 32, 118]"
    by (auto split: sum.splits)
  from auto_allocate_oldest_first [OF store_inv r(1)] obtain plan where
    "map (\<lambda>x. (iv_id x, iv_paid x)) (invoices st) =
       map (\<lambda>x. (iv_id x, iv_paid x + sum_list (map snd (filter (\<lambda>y. fst y = iv_id x) plan)))) (invoices store)" by (elim exE conjE)
  with r show ?thesis by (intro exI conjI)
qed

text \<open>
  C31. Applying a payment to invoices refines applying a payment to bills. Read through the abstraction that turns
  invoices into bills, payments received into supplier payments and their allocations into each other, every
  successful run of the allocation loop of sales is a run of the one of purchasing on the same amounts.
\<close>

theorem allocation_refines_payables:
  assumes "sales_inv st" and "settle_each st org existing p as = Inr (st', p')"
  shows "apply_each (as_purchasing st) org existing (as_payment p) as = Inr (as_purchasing st', as_payment p')"
  using settle_each_as [OF invoice_ids [OF sales_invD(2) [OF assms(1)]] assms(2)] by blast

theorem allocation_refines_payables_witness:
  "\<exists>p st' p'. p \<in> set (customer_payments store) \<and> settle_each store 900 [] p [(53, 118), (52, 32)] = Inr (st', p') \<and>
     apply_each (as_purchasing store) 900 [] (as_payment p) [(53, 118), (52, 32)] = Inr (as_purchasing st', as_payment p')"
proof -
  have "is_ok (settle_each store 900 [] (hd (customer_payments store)) [(53, 118), (52, 32)])" by code_simp
  then obtain st' p' where r: "settle_each store 900 [] (hd (customer_payments store)) [(53, 118), (52, 32)] = Inr (st', p')"
    by (auto simp: is_ok_iff)
  have "hd (customer_payments store) \<in> set (customer_payments store)" by (simp add: store_def)
  with r allocation_refines_payables [OF store_inv r] show ?thesis by blast
qed

section \<open>Limits\<close>

text \<open>
  A draft cannot be cancelled: the status it would get requires a journal entry, so the write is refused whatever
  the draft, although the service has a branch for it. (It can be deleted.)
\<close>

theorem draft_cancel_refused:
  assumes "sales_inv st" and "x \<in> set (invoices st)" and "iv_status x = I_DRAFT"
  shows "\<not> is_ok (cancel_invoice hs st (iv_org x) (iv_id x) reason cd actor now)"
proof
  assume "is_ok (cancel_invoice hs st (iv_org x) (iv_id x) reason cd actor now)"
  then obtain st' x' where op: "cancel_invoice hs st (iv_org x) (iv_id x) reason cd actor now = Inr (st', x')" by (auto simp: is_ok_iff)
  show False
    using cancel_invoice_effect [OF assms(1) op]
  proof cases
    case (1 y j original)
    then have "y = x" using assms(2) invoice_ids [OF sales_invD(2) [OF assms(1)]] by (auto simp: distinct_map dest: inj_onD)
    with 1(4) assms(3) show False by (simp add: invoice_is_posted_def)
  qed
qed

text \<open>The sales summary covers one page of invoices, however many the range has.\<close>

theorem summary_first_page: "ss_invoice_count (sales_summary_report st org from_date to_date) \<le> 200"
proof -
  have "length (search_invoices st org from_date to_date 200) \<le> 200" by (simp add: search_invoices_def)
  then have "length (filter (\<lambda>x. invoice_is_posted (iv_status x)) (search_invoices st org from_date to_date 200)) \<le> 200"
    by (rule order_trans [OF length_filter_le])
  then show ?thesis by (simp add: sales_summary_report_def Let_def)
qed

end
