(* ===== verification/Spec2Isabelle.thy ===== *)
theory Spec2Isabelle
  imports Gst Valuation Periods Reports_Properties Attestation_Properties Stock_Guarantees Purchasing_Guarantees Sales_Guarantees
begin

text \<open>
  Stellar ERP: the bookkeeping core of the Python backend (\<^verbatim>\<open>src/backend/app\<close>).

  \<^bold>\<open>The program.\<close> A multi-tenant ERP. Documents (invoices, goods receipts, cash entries) are turned into
  double-entry journal entries by \<^verbatim>\<open>modules/accounting/service.py\<close>; the tax on them is computed by
  \<^verbatim>\<open>modules/tax/gst.py\<close>, the stock they move is valued by \<^verbatim>\<open>modules/purchasing/valuation.py\<close>. Purchasing
  (\<^verbatim>\<open>modules/purchasing\<close>) receives goods into stock against an accrual, recognises bills as payables and pays
  them; each of its postings goes through the stock service and the accounting services. Sales
  (\<^verbatim>\<open>modules/sales\<close>) takes leads and customers through quotations and orders to invoices, recognises the
  posted invoices as receivables, and applies the payments received to them. Reports are
  drawn for date windows resolved by \<^verbatim>\<open>modules/analytics/periods.py\<close> and
  \<^verbatim>\<open>modules/accounting/statement_periods.py\<close>. The accounting services notify subscribers; the proof
  ledger, \<^verbatim>\<open>modules/attestation\<close>, subscribes: it hashes each posted entry into a leaf, seals batches of
  leaves under a Merkle root, anchors the roots on a public chain and issues proofs of single entries.

  \<^bold>\<open>The theories.\<close>
  \<^item> \<^verbatim>\<open>Prelude\<close>: the exceptions of \<^verbatim>\<open>core/exceptions.py\<close> as \<^verbatim>\<open>error\<close>, results as sums, the list and lookup
    lemmas the components share.
  \<^item> \<^verbatim>\<open>Decimals\<close>: Python's \<^verbatim>\<open>Decimal\<close> with its 28-digit context and \<^verbatim>\<open>quantize(ROUND_HALF_UP)\<close>, as
    rationals with the rounding written out. The overflow of \<^verbatim>\<open>quantize\<close> is a branch of
    \<open>quantize_raising\<close>; the roundings of amounts are shown not to reach it within the range of their columns.
  \<^item> \<^verbatim>\<open>Gst\<close>, \<^verbatim>\<open>Valuation\<close>: \<^verbatim>\<open>tax/gst.py\<close> and \<^verbatim>\<open>purchasing/valuation.py\<close>, every function.
  \<^item> \<^verbatim>\<open>Sha256\<close>, \<^verbatim>\<open>Merkle\<close>: \<^verbatim>\<open>hashlib.sha256\<close> and \<^verbatim>\<open>attestation/merkle.py\<close>. Collision resistance is
    never assumed: the theorems that need it exhibit the collision.
  \<^item> \<^verbatim>\<open>Calendar_Dates\<close>, \<^verbatim>\<open>Periods\<close>: \<^verbatim>\<open>datetime.date\<close> as proleptic Gregorian ordinals, and the two
    modules of period arithmetic.
  \<^item> \<^verbatim>\<open>Accounting_Models\<close>, \<^verbatim>\<open>Chart\<close>, \<^verbatim>\<open>Fiscal\<close>, \<^verbatim>\<open>Posting\<close>: the tables of \<^verbatim>\<open>accounting/models.py\<close> as one
    database record with their constraints, and the four services of \<^verbatim>\<open>accounting/service.py\<close> with
    the repository queries and request validation they use.
  \<^item> \<^verbatim>\<open>Ledger\<close>: the services as one transition system, its invariant and the proof that each of the
    operations keeps it. \<^verbatim>\<open>Ledger_Properties\<close>: what follows for every run.

  \<^item> \<^verbatim>\<open>Reports\<close>, \<^verbatim>\<open>Reports_Properties\<close>: the five statements of \<^verbatim>\<open>accounting/reports.py\<close> with their queries; they
    agree with the books and with each other, with the exceptions stated.
  \<^item> \<^verbatim>\<open>Stock\<close>: the tables of stock and \<^verbatim>\<open>StockService\<close> (\<^verbatim>\<open>purchasing/stock.py\<close>) on top of the ledger.
    \<^verbatim>\<open>Stock_Properties\<close>: its invariant, its effect on the ledger, and the simulation by the pure valuation steps
    on positions. \<^verbatim>\<open>Stock_Guarantees\<close>: what follows for every run.
  \<^item> \<^verbatim>\<open>Purchasing_Models\<close>, \<^verbatim>\<open>Purchasing\<close>, \<^verbatim>\<open>Receiving\<close>, \<^verbatim>\<open>Payables\<close>: the document tables of \<^verbatim>\<open>purchasing/models.py\<close>
    with their constraints and foreign keys, on top of stock and ledger; the masters and purchase orders of
    \<^verbatim>\<open>purchasing/service.py\<close>; the goods receipts, bills and supplier payments of \<^verbatim>\<open>purchasing/receiving.py\<close>, with
    the request schemas, the reorder report and the payables ageing of \<^verbatim>\<open>purchasing/router.py\<close>.
    \<^verbatim>\<open>Purchasing_Properties\<close>: what receipts do to stock and ledger. \<^verbatim>\<open>Payables_Properties\<close>: the entry a bill
    posts, and the invariant that ties bills, payments and allocations. \<^verbatim>\<open>Purchasing_System\<close>: the module as a
    transition system over the stock service and the ledger, and the invariant each of its operations keeps.
    \<^verbatim>\<open>Purchasing_Guarantees\<close>: what follows, for every run where the theorem says reachable and for every
    state with the invariant otherwise; the witnesses of the latter are runs of a small shop.
  \<^item> \<^verbatim>\<open>Sales_Models\<close>, \<^verbatim>\<open>Sales\<close>, \<^verbatim>\<open>Invoicing\<close>: the tables of \<^verbatim>\<open>sales/models.py\<close> with their constraints and foreign keys, on top of
    purchasing; the customers, leads, quotations and orders of \<^verbatim>\<open>sales/service.py\<close>; the invoices and payments of
    \<^verbatim>\<open>sales/invoicing.py\<close>, with the request schemas, the ageing and the sales summary of \<^verbatim>\<open>sales/repository.py\<close> and
    \<^verbatim>\<open>sales/router.py\<close>. \<^verbatim>\<open>Receivables\<close>: the entry an invoice posts, and receivables read as payables. \<^verbatim>\<open>Sales_Invariant\<close>: the invariant that
    ties invoices, payments, allocations and orders. \<^verbatim>\<open>Sales_System\<close>, \<^verbatim>\<open>Sales_Payments\<close>: each
    operation keeps it, and what allocation does. \<^verbatim>\<open>Sales_Transitions\<close>: the module as a transition system that
    contains the steps of purchasing, stock and ledger. \<^verbatim>\<open>Sales_Details\<close>: the allocation plan and conversion of
    quotations. \<^verbatim>\<open>Sales_Guarantees\<close>: what follows, including that applying a payment to invoices refines
    applying one to bills, so that both halves of the trade share one contract.
  \<^item> \<^verbatim>\<open>Canonical\<close>: \<^verbatim>\<open>attestation/canonical.py\<close>, the byte encoding of an entry. Each encoder is an interpretation
    of the locale \<^verbatim>\<open>prefix_code\<close>, so that concatenations stay decodable; \<^verbatim>\<open>float\<close> is written out as 53-bit
    rounding because the conversion of timestamps goes through it.
  \<^item> \<^verbatim>\<open>Seals\<close>: the tables, queries and operations of \<^verbatim>\<open>SealService\<close> and the two subscriptions of
    \<^verbatim>\<open>attestation/hooks.py\<close>. \<^verbatim>\<open>Seal_Chain\<close>: their invariant, kept by every operation whatever the chain
    answers. \<^verbatim>\<open>Attestation\<close>: both ledgers as one transition system (the accounting steps with the
    subscriptions installed, the seal operations, changes of the settings, the clock), and \<^verbatim>\<open>VerifyService\<close>.
    \<^verbatim>\<open>Attestation_Properties\<close>: what follows for every run.

  \<^bold>\<open>Effects.\<close> A database transaction is explicit state passing: an operation maps the state to
  \<^verbatim>\<open>Inr (state', value)\<close>, or to \<^verbatim>\<open>Inl error\<close>, in which case the session is rolled back and nothing
  changes; \<^verbatim>\<open>submit\<close> flushes before it raises, so it returns the state it leaves behind as well. Identifiers
  are drawn from a counter, increasing as the UUIDv7 keys of the code are. Requests are serialised, as the
  row locks of the code make them for numbering. The Soroban client is an argument of the operations that
  use it: what each call returns or raises is any value. Strings are lists of the 256 characters of HOL,
  which stand for the first 256 code points. No definition uses fuel; every loop is shown to terminate.

  \<^bold>\<open>Not modelled.\<close> HTTP routing and response schemas, the SQL text of the queries (they are list
  comprehensions over the tables), the texts and contexts of audit rows, locking and isolation levels, time
  zones, paged listings, the JSON form of proof bundles (a payload is typed; missing keys do not arise), the Soroban RPC
  client and the Rust contract. Of the modules that carry business rules of their own, billing is not
  modelled: a cash entry enters only as the journal entry it posts. Posting an invoice moves no stock in the
  code, so the stock issue of a sale is a step of its own. Authentication, access control, document capture,
  analytics queries, mail and configuration are not modelled: they rest on cryptographic libraries, Redis, OCR
  and SQL aggregates rather than on state of the books.
\<close>

end
